(* ===== verification/Prelude.thy ===== *)
theory Prelude
  imports Main "HOL-Library.Word" "HOL-Library.Monad_Syntax"
begin

text \<open>
  What every component of the development shares: the reading of a Rust computation that
  may panic as an \<open>option\<close>, the fixed-size argument patterns of the evaluators, slice
  indexing, the short-circuiting \<open>all\<close> over a fallible predicate, machine integers and
  the conversions between them and unbounded integers, and the lemmas that let \<open>simp\<close>
  and \<open>auto\<close> take a \<open>do\<close> block apart.

  A function \<open>fn f(..) -> T\<close> that can panic is a HOL function into \<open>T option\<close>, with
  \<open>None\<close> for the panic: a failed \<open>unwrap\<close>, \<open>assert!\<close>, \<open>let .. else panic!()\<close>,
  \<open>todo!\<close>, \<open>unreachable!\<close>, index out of bounds, division by zero or arithmetic overflow
  (the crate's \<open>dev\<close> and \<open>ci\<close> profiles keep overflow checks on). A panic unwinds out of the
  interpreter, so no caller in the modelled code observes which one it was.
\<close>

named_theorems panic_simps \<open>unfolding rules for computations that may panic\<close>
named_theorems eval_defs \<open>definitions of the libfunc evaluators\<close>

unbundle bit_operations_syntax

section \<open>Machine integers\<close>

type_synonym u8 = "8 word"
type_synonym u16 = "16 word"
type_synonym u32 = "32 word"
type_synonym u64 = "64 word"
type_synonym u128 = "128 word"

text \<open>
  Signed Rust integers use the same words, read with \<open>sint\<close>. The names below only
  record which reading is meant.
\<close>

type_synonym i8 = "8 word"
type_synonym i16 = "16 word"
type_synonym i32 = "32 word"
type_synonym i64 = "64 word"
type_synonym i128 = "128 word"

section \<open>Panics\<close>

definition assert_that :: "bool \<Rightarrow> unit option" where
  "assert_that b = (if b then Some () else None)"

lemma assert_that_simps [simp]:
  "assert_that True = Some ()"
  "assert_that False = None"
  "(assert_that b = Some u) = b"
  "(assert_that b = None) = (\<not> b)"
  by (auto simp: assert_that_def)

lemma assert_bind_Some [simp]:
  "(assert_that b \<bind> f = Some y) = (b \<and> f () = Some y)"
  by (simp add: assert_that_def)

text \<open>Indexing a slice or a \<open>Vec\<close>: out of bounds panics.\<close>

definition nth_opt :: "'a list \<Rightarrow> nat \<Rightarrow> 'a option" where
  "nth_opt xs i = (if i < length xs then Some (xs ! i) else None)"

lemma nth_opt_Some [simp]: "(nth_opt xs i = Some x) = (i < length xs \<and> xs ! i = x)"
  by (auto simp: nth_opt_def)

lemma nth_opt_Cons_0 [simp]: "nth_opt (x # xs) 0 = Some x"
  by (simp add: nth_opt_def)

lemma nth_opt_Cons_Suc [simp]: "nth_opt (x # xs) (Suc i) = nth_opt xs i"
  by (simp add: nth_opt_def)

lemma nth_opt_Cons_numeral [simp]:
  "nth_opt (x # xs) (numeral k) = nth_opt xs (pred_numeral k)"
  by (simp add: numeral_eq_Suc)

lemma nth_opt_Cons_1 [simp]: "nth_opt (x # xs) 1 = nth_opt xs 0"
  by (simp add: nth_opt_def)

lemma nth_opt_Nil [simp]: "nth_opt [] i = None"
  by (simp add: nth_opt_def)

lemma nth_opt_None [simp]: "(nth_opt xs i = None) = (length xs \<le> i)"
  by (auto simp: nth_opt_def)

lemma drop_1_Cons [simp]: "drop 1 (x # xs) = xs"
  by simp

text \<open>
  \<open>iter().all(p)\<close> for a predicate that may itself panic: it stops at the first
  element where the predicate is false, so a later panic is not reached.
\<close>

fun all_opt :: "('a \<Rightarrow> bool option) \<Rightarrow> 'a list \<Rightarrow> bool option" where
  "all_opt p [] = Some True"
| "all_opt p (x # xs) = do { b \<leftarrow> p x; if b then all_opt p xs else Some False }"

lemma all_opt_True [simp]:
  "(all_opt p xs = Some True) = (\<forall>x \<in> set xs. p x = Some True)"
  by (induction xs) (auto simp: bind_eq_Some_conv)

lemma all_opt_cong [fundef_cong]:
  "xs = ys \<Longrightarrow> (\<And>x. x \<in> set ys \<Longrightarrow> p x = q x) \<Longrightarrow> all_opt p xs = all_opt q ys"
proof (induction xs arbitrary: ys)
  case (Cons x xs)
  then show ?case by (cases ys) (auto split: bind_splits)
qed simp

lemma all_opt_mono:
  assumes "\<And>x b. x \<in> set xs \<Longrightarrow> p x = Some b \<Longrightarrow> q x = Some b"
    and "all_opt p xs = Some b"
  shows "all_opt q xs = Some b"
  using assms
proof (induction xs)
  case (Cons x xs)
  from Cons.prems(2) obtain c where c: "p x = Some c"
    and rest: "(if c then all_opt p xs else Some False) = Some b"
    by (auto simp: bind_eq_Some_conv)
  have "q x = Some c" using Cons.prems(1) c by simp
  moreover have "c \<Longrightarrow> all_opt q xs = Some b"
    using Cons.IH Cons.prems(1) rest by simp
  ultimately show ?case using rest by (cases c) simp_all
qed simp

lemma all_opt_total:
  "(\<And>x. x \<in> set xs \<Longrightarrow> \<exists>b. p x = Some b) \<Longrightarrow> \<exists>b. all_opt p xs = Some b"
proof (induction xs)
  case (Cons x xs)
  then obtain b c where "p x = Some b" "all_opt p xs = Some c" by (metis list.set_intros)
  then show ?case by (cases b) auto
qed auto

text \<open>\<open>iter().map(f).collect()\<close> where \<open>f\<close> may panic.\<close>

definition map_opt :: "('a \<Rightarrow> 'b option) \<Rightarrow> 'a list \<Rightarrow> 'b list option" where
  "map_opt f xs = those (map f xs)"

lemma map_opt_simps [simp]:
  "map_opt f [] = Some []"
  "map_opt f (x # xs) = do { y \<leftarrow> f x; ys \<leftarrow> map_opt f xs; Some (y # ys) }"
  by (auto simp: map_opt_def split: option.splits bind_splits)

lemma map_opt_Some: "(map_opt f xs = Some ys) = list_all2 (\<lambda>x y. f x = Some y) xs ys"
  by (induction xs arbitrary: ys) (auto simp: bind_eq_Some_conv list_all2_Cons1)

lemma map_opt_length: "map_opt f xs = Some ys \<Longrightarrow> length ys = length xs"
  by (auto simp: map_opt_Some dest: list_all2_lengthD)

lemma map_opt_map: "(\<And>x. x \<in> set xs \<Longrightarrow> f x = Some (g x)) \<Longrightarrow> map_opt f xs = Some (map g xs)"
  by (induction xs) auto

lemma map_opt_map_inv:
  "(\<And>x. f (g x) = Some x) \<Longrightarrow> map_opt f (map g xs) = Some xs"
  by (induction xs) auto

lemma map_opt_cong [fundef_cong]:
  "xs = ys \<Longrightarrow> (\<And>x. x \<in> set ys \<Longrightarrow> f x = g x) \<Longrightarrow> map_opt f xs = map_opt g ys"
  unfolding map_opt_def by (metis map_cong)

lemmas bind_Some = bind_eq_Some_conv

section \<open>Argument patterns\<close>

text \<open>
  \<open>let [a, b]: [Value; 2] = args.try_into().unwrap()\<close>: the vector must have exactly
  that many elements.
\<close>

definition args0 :: "'a list \<Rightarrow> unit option" where
  "args0 xs = (case xs of [] \<Rightarrow> Some () | _ \<Rightarrow> None)"
definition args1 :: "'a list \<Rightarrow> 'a option" where
  "args1 xs = (case xs of [a] \<Rightarrow> Some a | _ \<Rightarrow> None)"
definition args2 :: "'a list \<Rightarrow> ('a \<times> 'a) option" where
  "args2 xs = (case xs of [a, b] \<Rightarrow> Some (a, b) | _ \<Rightarrow> None)"
definition args3 :: "'a list \<Rightarrow> ('a \<times> 'a \<times> 'a) option" where
  "args3 xs = (case xs of [a, b, c] \<Rightarrow> Some (a, b, c) | _ \<Rightarrow> None)"
definition args4 :: "'a list \<Rightarrow> ('a \<times> 'a \<times> 'a \<times> 'a) option" where
  "args4 xs = (case xs of [a, b, c, d] \<Rightarrow> Some (a, b, c, d) | _ \<Rightarrow> None)"
definition args5 :: "'a list \<Rightarrow> ('a \<times> 'a \<times> 'a \<times> 'a \<times> 'a) option" where
  "args5 xs = (case xs of [a, b, c, d, e] \<Rightarrow> Some (a, b, c, d, e) | _ \<Rightarrow> None)"
definition args6 :: "'a list \<Rightarrow> ('a \<times> 'a \<times> 'a \<times> 'a \<times> 'a \<times> 'a) option" where
  "args6 xs = (case xs of [a, b, c, d, e, f] \<Rightarrow> Some (a, b, c, d, e, f) | _ \<Rightarrow> None)"
definition args7 :: "'a list \<Rightarrow> ('a \<times> 'a \<times> 'a \<times> 'a \<times> 'a \<times> 'a \<times> 'a) option" where
  "args7 xs = (case xs of [a, b, c, d, e, f, g] \<Rightarrow> Some (a, b, c, d, e, f, g) | _ \<Rightarrow> None)"

lemmas args_defs = args0_def args1_def args2_def args3_def args4_def args5_def args6_def args7_def

lemma args_Some [simp]:
  "(args0 xs = Some u) = (xs = [])"
  "(args1 xs = Some a) = (xs = [a])"
  "(args2 xs = Some (a, b)) = (xs = [a, b])"
  "(args3 xs = Some (a, b, c)) = (xs = [a, b, c])"
  "(args4 xs = Some (a, b, c, d)) = (xs = [a, b, c, d])"
  "(args5 xs = Some (a, b, c, d, e)) = (xs = [a, b, c, d, e])"
  "(args6 xs = Some (a, b, c, d, e, f)) = (xs = [a, b, c, d, e, f])"
  "(args7 xs = Some (a, b, c, d, e, f, g)) = (xs = [a, b, c, d, e, f, g])"
  by (auto simp: args_defs split: list.splits)

lemma args_exact [simp]:
  "args0 [] = Some ()"
  "args1 [a] = Some a"
  "args2 [a, b] = Some (a, b)"
  "args3 [a, b, c] = Some (a, b, c)"
  "args4 [a, b, c, d] = Some (a, b, c, d)"
  "args5 [a, b, c, d, e] = Some (a, b, c, d, e)"
  "args6 [a, b, c, d, e, f] = Some (a, b, c, d, e, f)"
  "args7 [a, b, c, d, e, f, g] = Some (a, b, c, d, e, f, g)"
  by (simp_all add: args_defs)

section \<open>Checked machine arithmetic\<close>

definition checked_add :: "'a::len word \<Rightarrow> 'a word \<Rightarrow> 'a word option" where
  "checked_add x y = (if uint x + uint y < 2 ^ LENGTH('a) then Some (x + y) else None)"

definition checked_sub :: "'a::len word \<Rightarrow> 'a word \<Rightarrow> 'a word option" where
  "checked_sub x y = (if y \<le> x then Some (x - y) else None)"

definition checked_mul :: "'a::len word \<Rightarrow> 'a word \<Rightarrow> 'a word option" where
  "checked_mul x y = (if uint x * uint y < 2 ^ LENGTH('a) then Some (x * y) else None)"

definition saturating_sub :: "'a::len word \<Rightarrow> 'a word \<Rightarrow> 'a word" where
  "saturating_sub x y = (if y \<le> x then x - y else 0)"

definition saturating_add :: "'a::len word \<Rightarrow> 'a word \<Rightarrow> 'a word" where
  "saturating_add x y = (if uint x + uint y < 2 ^ LENGTH('a) then x + y else - 1)"

lemma checked_add_Some:
  "(checked_add x y = Some z) = (uint x + uint y < 2 ^ LENGTH('a) \<and> uint z = uint x + uint y)"
  for x y z :: "'a::len word"
proof -
  have "uint (x + y) = uint x + uint y" if "uint x + uint y < 2 ^ LENGTH('a)"
    using that by (simp add: uint_word_ariths take_bit_int_eq_self_iff)
  then show ?thesis by (auto simp: checked_add_def word_uint_eq_iff)
qed

lemma checked_mul_Some:
  "(checked_mul x y = Some z) = (uint x * uint y < 2 ^ LENGTH('a) \<and> uint z = uint x * uint y)"
  for x y z :: "'a::len word"
proof -
  have "uint (x * y) = uint x * uint y" if "uint x * uint y < 2 ^ LENGTH('a)"
    using that by (simp add: uint_word_ariths take_bit_int_eq_self_iff)
  then show ?thesis by (auto simp: checked_mul_def word_uint_eq_iff)
qed

lemma uint_minus_le: "y \<le> x \<Longrightarrow> uint (x - y) = uint x - uint y" for x y :: "'a::len word"
  by (simp add: uint_sub_if' word_le_def)

lemma uint_saturating_sub: "uint (saturating_sub x y) = max 0 (uint x - uint y)"
  by (auto simp: saturating_sub_def uint_minus_le word_le_def)

lemma uint_max_word: "uint (- 1 :: 'a::len word) = 2 ^ LENGTH('a) - 1"
  by (simp add: unsigned_minus_1_eq_mask mask_eq_exp_minus_1)

lemma uint_saturating_add:
  "uint (saturating_add x y) = min (2 ^ LENGTH('a) - 1) (uint x + uint y)"
  for x y :: "'a::len word"
proof (cases "uint x + uint y < 2 ^ LENGTH('a)")
  case True
  then show ?thesis
    by (simp add: saturating_add_def uint_word_ariths take_bit_int_eq_self_iff)
next
  case False
  then show ?thesis by (simp add: saturating_add_def uint_max_word)
qed

section \<open>Unbounded integers\<close>

text \<open>
  \<open>BigInt\<close> division and remainder truncate towards zero; a zero divisor panics.
\<close>

definition tdiv :: "int \<Rightarrow> int \<Rightarrow> int" where
  "tdiv a b = sgn a * sgn b * (\<bar>a\<bar> div \<bar>b\<bar>)"

definition tmod :: "int \<Rightarrow> int \<Rightarrow> int" where
  "tmod a b = a - tdiv a b * b"

definition big_div :: "int \<Rightarrow> int \<Rightarrow> int option" where
  "big_div a b = (if b = 0 then None else Some (tdiv a b))"

definition big_rem :: "int \<Rightarrow> int \<Rightarrow> int option" where
  "big_rem a b = (if b = 0 then None else Some (tmod a b))"

lemma tdiv_nonneg: "0 \<le> a \<Longrightarrow> 0 < b \<Longrightarrow> tdiv a b = a div b"
  by (cases "a = 0") (simp_all add: tdiv_def)

lemma tmod_nonneg: "0 \<le> a \<Longrightarrow> 0 < b \<Longrightarrow> tmod a b = a mod b"
  by (simp add: tmod_def tdiv_nonneg minus_div_mult_eq_mod)

lemma tdiv_tmod: "tdiv a b * b + tmod a b = a"
  by (simp add: tmod_def)

lemma tmod_abs: "b \<noteq> 0 \<Longrightarrow> \<bar>tmod a b\<bar> = \<bar>a\<bar> mod \<bar>b\<bar>"
proof -
  assume b: "b \<noteq> 0"
  have "tmod a b = sgn a * (\<bar>a\<bar> - (\<bar>a\<bar> div \<bar>b\<bar>) * \<bar>b\<bar>)"
    by (simp add: tmod_def tdiv_def algebra_simps abs_sgn)
  then have "tmod a b = sgn a * (\<bar>a\<bar> mod \<bar>b\<bar>)"
    by (simp add: minus_div_mult_eq_mod)
  with b show ?thesis by (auto simp: abs_mult sgn_if)
qed

text \<open>
  \<open>value.try_into::<u32>()\<close> and the other narrowing conversions of a big integer.
\<close>

definition to_unsigned :: "int \<Rightarrow> 'a::len word option" where
  "to_unsigned i = (if 0 \<le> i \<and> i < 2 ^ LENGTH('a) then Some (word_of_int i) else None)"

definition to_signed :: "int \<Rightarrow> 'a::len word option" where
  "to_signed i = (if - (2 ^ (LENGTH('a) - 1)) \<le> i \<and> i < 2 ^ (LENGTH('a) - 1)
                  then Some (word_of_int i) else None)"

lemma to_unsigned_Some:
  "(to_unsigned i = Some (w :: 'a::len word)) = (uint w = i)"
proof -
  have "uint (word_of_int i :: 'a word) = i" if "0 \<le> i" "i < 2 ^ LENGTH('a)"
    using that by (simp add: uint_word_of_int)
  moreover have "0 \<le> uint w" "uint w < 2 ^ LENGTH('a)" by simp_all
  ultimately show ?thesis by (auto simp: to_unsigned_def)
qed

lemma to_unsigned_uint [simp]: "to_unsigned (uint w) = Some w"
  by (simp add: to_unsigned_Some)

lemma sint_range:
  "- (2 ^ (LENGTH('a) - 1)) \<le> sint (w :: 'a::len word)" "sint w < 2 ^ (LENGTH('a) - 1)"
  using sint_ge [of w] sint_lt [of w] by simp_all

lemma sint_word_of_int_small:
  "- (2 ^ (LENGTH('a) - 1)) \<le> i \<Longrightarrow> i < 2 ^ (LENGTH('a) - 1) \<Longrightarrow>
    sint (word_of_int i :: 'a::len word) = i"
  by (simp add: signed_take_bit_int_eq_self_iff sint_sbintrunc')

lemma to_signed_Some:
  "(to_signed i = Some (w :: 'a::len word)) = (sint w = i)"
  using sint_range [of w] sint_word_of_int_small [of i, where 'a = 'a]
  by (auto simp: to_signed_def)

lemma to_signed_sint [simp]: "to_signed (sint w) = Some w"
  by (simp add: to_signed_Some)

end
