(* ===== verification/Felt.thy ===== *)
theory Felt
  imports Prelude
begin

text \<open>
  Field elements. \<open>PRIME\<close> and \<open>HALF_PRIME\<close> are the constants of
  \<open>src/utils.rs\<close>; \<open>felt\<close> is the set of canonical representatives below \<open>PRIME\<close>, with
  the ring operations of integers modulo \<open>PRIME\<close> and the order of the representatives,
  which is what the code uses of \<open>Felt\<close>: \<open>+\<close>, \<open>-\<close>, \<open>*\<close>, comparisons, conversions from
  and to integers. Division and square roots are left to the externs. The class
  instances make the library's ring and order automation apply.
\<close>

definition PRIME :: int where
  "PRIME = 3618502788666131213697322783095070105623107215331596699973092056135872020481"

definition HALF_PRIME :: int where
  "HALF_PRIME = 1809251394333065606848661391547535052811553607665798349986546028067936010240"

lemma PRIME_pos [simp]: "0 < PRIME" "0 \<le> PRIME" "PRIME \<noteq> 0"
  by (simp_all add: PRIME_def)

lemma PRIME_gt_1 [simp]: "1 < PRIME"
  by (simp add: PRIME_def)

lemma PRIME_shape: "PRIME = 2 ^ 251 + 17 * 2 ^ 192 + 1"
  by (simp add: PRIME_def)

lemma HALF_PRIME_eq: "HALF_PRIME = PRIME div 2"
  by (simp add: PRIME_def HALF_PRIME_def)

typedef felt = "{0 ..< PRIME}" morphisms felt_int Abs_felt
  by (rule exI [of _ 0]) simp

definition felt_of_int :: "int \<Rightarrow> felt" where
  "felt_of_int i = Abs_felt (i mod PRIME)"

lemma felt_int_range [simp]: "0 \<le> felt_int f" "felt_int f < PRIME"
  using felt_int [of f] by simp_all

lemma felt_int_of_int [simp]: "felt_int (felt_of_int i) = i mod PRIME"
  by (simp add: felt_of_int_def Abs_felt_inverse)

lemma felt_of_int_int [simp]: "felt_of_int (felt_int f) = f"
  by (simp add: felt_of_int_def felt_int_inverse)

lemma felt_eq_iff: "f = g \<longleftrightarrow> felt_int f = felt_int g"
  by (simp add: felt_int_inject)

lemma felt_of_int_eq [simp]: "felt_of_int i = felt_of_int j \<longleftrightarrow> i mod PRIME = j mod PRIME"
  by (simp add: felt_eq_iff)

lemma felt_int_small: "0 \<le> i \<Longrightarrow> i < PRIME \<Longrightarrow> felt_int (felt_of_int i) = i"
  by simp

lemma felt_of_int_inj_on: "inj_on felt_of_int {0 ..< PRIME}"
  by (rule inj_onI) simp

section \<open>Ring and order instances\<close>

instantiation felt :: comm_ring_1
begin

definition zero_felt :: felt where "0 = felt_of_int 0"
definition one_felt :: felt where "1 = felt_of_int 1"
definition plus_felt :: "felt \<Rightarrow> felt \<Rightarrow> felt" where
  "f + g = felt_of_int (felt_int f + felt_int g)"
definition minus_felt :: "felt \<Rightarrow> felt \<Rightarrow> felt" where
  "f - g = felt_of_int (felt_int f - felt_int g)"
definition uminus_felt :: "felt \<Rightarrow> felt" where
  "- f = felt_of_int (- felt_int f)"
definition times_felt :: "felt \<Rightarrow> felt \<Rightarrow> felt" where
  "f * g = felt_of_int (felt_int f * felt_int g)"

instance
  by standard
    (simp_all add: felt_eq_iff zero_felt_def one_felt_def plus_felt_def minus_felt_def
      uminus_felt_def times_felt_def mod_simps algebra_simps)

end

lemma felt_int_simps [simp]:
  "felt_int 0 = 0"
  "felt_int 1 = 1"
  "felt_int (f + g) = (felt_int f + felt_int g) mod PRIME"
  "felt_int (f - g) = (felt_int f - felt_int g) mod PRIME"
  "felt_int (- f) = (- felt_int f) mod PRIME"
  "felt_int (f * g) = (felt_int f * felt_int g) mod PRIME"
  by (simp_all add: zero_felt_def one_felt_def plus_felt_def minus_felt_def
      uminus_felt_def times_felt_def)

lemma felt_of_int_hom:
  "felt_of_int (i + j) = felt_of_int i + felt_of_int j"
  "felt_of_int (i - j) = felt_of_int i - felt_of_int j"
  "felt_of_int (i * j) = felt_of_int i * felt_of_int j"
  "felt_of_int (- i) = - felt_of_int i"
  by (simp_all add: felt_eq_iff mod_simps)

instantiation felt :: linorder
begin

definition less_eq_felt :: "felt \<Rightarrow> felt \<Rightarrow> bool" where
  "f \<le> g \<longleftrightarrow> felt_int f \<le> felt_int g"
definition less_felt :: "felt \<Rightarrow> felt \<Rightarrow> bool" where
  "f < g \<longleftrightarrow> felt_int f < felt_int g"

instance
  by standard (auto simp: less_eq_felt_def less_felt_def felt_eq_iff)

end

instantiation felt :: equal
begin

definition equal_felt :: "felt \<Rightarrow> felt \<Rightarrow> bool" where
  "HOL.equal f g \<longleftrightarrow> felt_int f = felt_int g"

instance
  by standard (simp add: equal_felt_def felt_eq_iff)

end

lemma felt_less_iff [simp]: "felt_of_int i < felt_of_int j \<longleftrightarrow> i mod PRIME < j mod PRIME"
  by (simp add: less_felt_def)

lemma felt_le_iff [simp]: "felt_of_int i \<le> felt_of_int j \<longleftrightarrow> i mod PRIME \<le> j mod PRIME"
  by (simp add: less_eq_felt_def)

lemma pow2_lt_PRIME: "n \<le> 251 \<Longrightarrow> (2::int) ^ n < PRIME"
proof -
  assume "n \<le> 251"
  then have "(2::int) ^ n \<le> 2 ^ 251" by (intro power_increasing) simp_all
  also have "\<dots> < PRIME" by (simp add: PRIME_def)
  finally show ?thesis .
qed

section \<open>Signed reading of a field element\<close>

text \<open>
  The representative closest to zero, as \<open>eval_from_felt\<close> of
  \<open>debug_utils/sierra-emu/src/vm/int.rs\<close> reads it: above half the prime a field element
  stands for a negative number.
\<close>

definition felt_signed :: "felt \<Rightarrow> int" where
  "felt_signed f =
    (if PRIME div 2 < felt_int f then (PRIME - felt_int f) * (- 1) else felt_int f)"

lemma felt_of_int_signed: "felt_of_int (felt_signed f) = f"
  by (simp add: felt_eq_iff felt_signed_def mod_diff_left_eq)

lemma felt_signed_of_int:
  assumes "- (PRIME div 2) \<le> i" "i \<le> PRIME div 2"
  shows "felt_signed (felt_of_int i) = i"
proof (cases "0 \<le> i")
  case True
  with assms(2) have "i mod PRIME = i" by (simp add: PRIME_def)
  with assms(2) show ?thesis by (simp add: felt_signed_def)
next
  case False
  then have "(i + PRIME) mod PRIME = i + PRIME"
    using assms(1) by (intro mod_pos_pos_trivial) (simp_all add: PRIME_def)
  then have "i mod PRIME = i + PRIME" by simp
  with False assms(1) show ?thesis by (simp add: felt_signed_def PRIME_def)
qed

end
