(* ===== verification/Sierra.thy ===== *)
theory Sierra
  imports Felt "HOL-Library.Finite_Map"
begin

text \<open>
  The Sierra program as the interpreter sees it. These types belong to the
  \<open>cairo_lang_sierra\<close> crates, which are not part of the repository: only the
  constructors and fields that the repository's code matches on or reads appear here, under
  the crate's names, and a program with its registry is always an argument of the model.
  Type, variable, function and libfunc ids are numbers (the crate compares ids by their
  number only). A concrete libfunc is split into its signature and its selector, so that
  \<open>info.signature\<close> and the other fields of \<open>info\<close> are separate arguments of an evaluator.
\<close>

type_synonym type_id = nat
type_synonym var_id = nat
type_synonym function_id = nat
type_synonym libfunc_id = nat
type_synonym statement_idx = nat

section \<open>Types\<close>

record int_range_t =
  rng_lower :: int
  rng_upper :: int

datatype (plugins only: size code) generic_arg =
    GArgType type_id
  | GArgValue int
  | GArgOther

record gate_offsets =
  gate_lhs :: nat
  gate_rhs :: nat
  gate_output :: nat

record circuit_info =
  n_inputs :: nat
  gate_values :: "(type_id, nat) fmap"
  add_offsets :: "gate_offsets list"
  mul_offsets :: "gate_offsets list"

datatype (plugins only: size code) circuit_type =
    CircuitCT circuit_info
  | CircuitDataCT
  | CircuitInputAccumulatorCT
  | CircuitOutputsCT
  | CircuitModulusCT
  | U96GuaranteeCT
  | CircuitInputCT
  | U96LimbsLessThanGuaranteeCT nat
  | AddModCT
  | MulModCT
  | CircuitDescriptorCT
  | CircuitFailureGuaranteeCT
  | AddModGateCT
  | CircuitPartialOutputsCT
  | InverseGateCT
  | MulModGateCT
  | SubModGateCT

datatype (plugins only: size code) secp_point_type = K1 | R1

datatype (plugins only: size code) starknet_type =
    ClassHashST
  | ContractAddressST
  | StorageBaseAddressST
  | StorageAddressST
  | SystemST
  | Secp256PointST secp_point_type
  | Sha256StateHandleST
  | Sha512StateHandleST

datatype (plugins only: size code) core_type =
    ArrayT type_id
  | BitwiseT
  | BoundedIntT int_range_t
  | BoundedIntGuaranteeT int_range_t
  | BoxT type_id
  | BuiltinCostsT
  | Bytes31T
  | CircuitT circuit_type
  | ConstT type_id "generic_arg list"
  | CouponT
  | EcOpT
  | EcPointT
  | EcStateT
  | EnumT "type_id list"
  | Felt252T
  | Felt252DictT type_id
  | Felt252DictEntryT type_id
  | GasBuiltinT
  | GasReserveT
  | IntRangeT type_id
  | NonZeroT type_id
  | NullableT type_id
  | PedersenT
  | PoseidonT
  | RangeCheckT
  | RangeCheck96T
  | SegmentArenaT
  | Sint8T
  | Sint16T
  | Sint32T
  | Sint64T
  | Sint128T
  | SnapshotT type_id
  | SpanT type_id
  | SquashedFelt252DictT type_id
  | StarknetT starknet_type
  | StructT "type_id list"
  | Uint8T
  | Uint16T
  | Uint32T
  | Uint64T
  | Uint128T
  | Uint128MulGuaranteeT
  | UninitializedT type_id
  | BlakeT
  | QM31T

section \<open>Signatures, functions and programs\<close>

record signature =
  param_signatures :: "type_id list"
  branch_signatures :: "type_id list list"

record sierra_function =
  fn_id :: function_id
  fn_params :: "(var_id \<times> type_id) list"
  fn_ret_types :: "type_id list"
  fn_entry_point :: statement_idx

datatype (plugins only: size code) branch_target = Fallthrough | Statement statement_idx

record branch_info =
  br_target :: branch_target
  br_results :: "var_id list"

datatype (plugins only: size code) statement =
    Invocation libfunc_id "var_id list" "branch_info list"
  | Return "var_id list"

record program =
  statements :: "statement list"
  funcs :: "sierra_function list"

text \<open>\<open>info.branch_signatures()[i].vars[j].ty\<close> and \<open>info.signature.param_signatures[i].ty\<close>.\<close>

definition branch_ty :: "signature \<Rightarrow> nat \<Rightarrow> nat \<Rightarrow> type_id option" where
  "branch_ty sg i j = do { b \<leftarrow> nth_opt (branch_signatures sg) i; nth_opt b j }"

definition param_ty :: "signature \<Rightarrow> nat \<Rightarrow> type_id option" where
  "param_ty sg i = nth_opt (param_signatures sg) i"

section \<open>Library functions\<close>

datatype (plugins only: size code) cost_token =
    ConstTok | PedersenTok | BitwiseTok | EcOpTok | PoseidonTok | AddModTok | MulModTok
  | BlakeTok | OtherTok nat

datatype (plugins only: size code) int_operator = OverflowingAdd | OverflowingSub

datatype (plugins only: size code) felt_operator = FeltAdd | FeltSub | FeltMul | FeltDiv

datatype (plugins only: size code) ap_tracking_lib = ApRevoke | ApEnable | ApDisable

datatype (plugins only: size code) array_lib =
    ArrayNew | ArraySpanFromTuple type_id | ArrayTupleFromSpan type_id | ArrayAppend type_id
  | ArrayPopFront type_id | ArrayPopFrontConsume type_id | ArrayGet type_id
  | ArraySlice type_id | ArrayLen type_id | ArraySnapshotPopFront type_id
  | ArraySnapshotPopBack type_id | ArraySnapshotMultiPopFront type_id
  | ArraySnapshotMultiPopBack type_id

datatype (plugins only: size code) bool_lib = BoolAnd | BoolNot | BoolXor | BoolOr | BoolToFelt252

datatype (plugins only: size code) bounded_int_lib =
    BIAdd | BISub | BIMul | BIDivRem | BIConstrain int | BIIsZero | BIWrapNonZero
  | BITrimMin int | BITrimMax int | BIGuaranteeVerify | BIU128ToU32Guarantees

datatype (plugins only: size code) box_lib = BoxInto | BoxLocalInto | BoxUnbox | BoxForwardSnapshot

datatype (plugins only: size code) bytes31_lib = Bytes31Const int | Bytes31ToFelt252 | Bytes31TryFromFelt252

datatype (plugins only: size code) cast_lib = Downcast int_range_t type_id | Upcast

datatype (plugins only: size code) circuit_lib =
    CircuitAddInput type_id | CircuitEval type_id | CircuitGetDescriptor type_id
  | CircuitInitData type_id | CircuitGetOutput type_id type_id | CircuitTryIntoModulus
  | CircuitFailureGuaranteeVerify | CircuitIntoU96Guarantee type_id
  | CircuitU96GuaranteeVerify | CircuitU96LimbsLtVerify nat
  | CircuitU96SingleLimbLtVerify | CircuitU96LimbsLtVerifyV2 nat

datatype (plugins only: size code) const_lib = ConstAsBox type_id | ConstAsImmediate type_id

datatype (plugins only: size code) coupon_lib = CouponBuy | CouponRefund

datatype (plugins only: size code) ec_lib =
    EcIsZero | EcNeg | EcStateAdd | EcTryNew | EcStateFinalize | EcStateInit
  | EcStateAddMul | EcPointFromX | EcUnwrapPoint | EcZero | EcNegNz

datatype (plugins only: size code) enum_lib =
    EnumInit nat nat \<comment> \<open>\<open>n_variants\<close> and \<open>index\<close>\<close>
  | EnumFromBoundedInt | EnumMatch | EnumSnapshotMatch | EnumBoxedMatch

datatype (plugins only: size code) felt252_lib =
    FeltBinaryWithVar felt_operator | FeltBinaryWithConst felt_operator int
  | FeltConst int | FeltIsZero

datatype (plugins only: size code) dict_lib = DictNew | DictSquash
datatype (plugins only: size code) dict_entry_lib = DictEntryGet type_id | DictEntryFinalize type_id

datatype (plugins only: size code) gas_lib =
    WithdrawGas | RedepositGas | GetAvailableGas | BuiltinWithdrawGas | GetBuiltinCosts
  | GetUnspentGas

datatype (plugins only: size code) gas_reserve_lib = GasReserveCreate | GasReserveUtilize

datatype (plugins only: size code) int_range_lib = IntRangeTryNew | IntRangePopFront

datatype (plugins only: size code) mem_lib =
    StoreTemp | StoreLocal | FinalizeLocals | AllocLocal type_id | MemRename

datatype (plugins only: size code) nullable_lib =
    NullableNull | NullableFromBox | NullableMatch | NullableForwardSnapshot

datatype (plugins only: size code) sint_lib =
    SintConst int | SintDiff | SintEqual | SintFromFelt252 | SintOperation int_operator
  | SintToFelt252 | SintWideMul

datatype (plugins only: size code) sint128_lib =
    Sint128Const int | Sint128Diff | Sint128Equal | Sint128FromFelt252
  | Sint128Operation int_operator | Sint128ToFelt252

datatype (plugins only: size code) uint_lib =
    UintConst int | UintBitwise | UintDivmod | UintEqual | UintFromFelt252
  | UintOperation int_operator | UintIsZero | UintSquareRoot | UintToFelt252 | UintWideMul

datatype (plugins only: size code) uint128_lib =
    Uint128Const int | Uint128Operation int_operator | Uint128SquareRoot | Uint128Equal
  | Uint128ToFelt252 | Uint128FromFelt252 | Uint128IsZero | Uint128Divmod | Uint128Bitwise
  | Uint128GuaranteeMul | Uint128MulGuaranteeVerify | Uint128ByteReverse

datatype (plugins only: size code) uint256_lib = Uint256IsZero | Uint256Divmod | Uint256SquareRoot | Uint256InvModN

datatype (plugins only: size code) uint512_lib = Uint512DivModU256

datatype (plugins only: size code) struct_lib =
    StructConstruct | StructDeconstruct | StructSnapshotDeconstruct | StructBoxedDeconstruct

datatype (plugins only: size code) secp_op = SecpNew | SecpAdd | SecpMul | SecpGetPointFromX | SecpGetXy


datatype (plugins only: size code) starknet_lib =
    CallContract | ClassHashConst int | ClassHashTryFromFelt252 | ClassHashToFelt252
  | ContractAddressConst int | ContractAddressTryFromFelt252 | ContractAddressToFelt252
  | StorageRead | StorageWrite | StorageBaseAddressConst int
  | StorageBaseAddressFromFelt252 | StorageAddressFromBase
  | StorageAddressFromBaseAndOffset | StorageAddressToFelt252
  | StorageAddressTryFromFelt252 | EmitEvent | GetBlockHash | GetExecutionInfo
  | GetExecutionInfoV2 | GetExecutionInfoV3 | Deploy | Keccak | Sha256ProcessBlock
  | Sha256StateHandleInit | Sha256StateHandleDigest | Sha512ProcessBlock
  | Sha512StateHandleInit | Sha512StateHandleDigest | LibraryCall | ReplaceClass
  | SendMessageToL1 | Testing | Secp256 secp_point_type secp_op | GetClassHashAt | MetaTxV0

datatype (plugins only: size code) core_libfunc =
    ApTrackingL ap_tracking_lib | ArrayL array_lib | BoolL bool_lib
  | BoundedIntL bounded_int_lib | BoxL box_lib | BranchAlignL | Bytes31L bytes31_lib
  | CastL cast_lib | CircuitL circuit_lib | ConstL const_lib | CouponL coupon_lib | DebugL
  | DropL | DupL | EcL ec_lib | EnumL enum_lib | Felt252L felt252_lib | Felt252DictL dict_lib
  | Felt252DictEntryL dict_entry_lib | FunctionCallL sierra_function
  | CouponCallL sierra_function | GasL gas_lib | MemL mem_lib | NullableL nullable_lib
  | PedersenL | PoseidonL | Sint8L sint_lib | Sint16L sint_lib | Sint32L sint_lib
  | Sint64L sint_lib | Sint128L sint128_lib | Uint8L uint_lib | Uint16L uint_lib
  | Uint32L uint_lib | Uint64L uint_lib | Uint128L uint128_lib | Uint256L uint256_lib
  | Uint512L uint512_lib | StructL struct_lib | SnapshotTakeL | StarknetL starknet_lib
  | UnconditionalJumpL | UnwrapNonZeroL | IntRangeL int_range_lib
  | GasReserveL gas_reserve_lib | BlakeL | QM31L | Felt252SquashedDictL | TraceL
  | UnsafePanicL | DummyFunctionCallL

record concrete_libfunc =
  lf_signature :: signature
  lf_selector :: core_libfunc

text \<open>
  \<open>ProgramRegistry<CoreType, CoreLibfunc>\<close>: lookups by id, which the code unwraps.
  \<open>rec_limit\<close> is the depth of native stack available to the recursive walks over types
  (\<open>Value::is\<close>, \<open>default_for_type\<close>, \<open>integer_range\<close>, ...): running past it aborts. The
  lemmas about those walks say how much depth is enough.
\<close>

record registry =
  get_type :: "type_id \<Rightarrow> core_type option"
  get_libfunc :: "libfunc_id \<Rightarrow> concrete_libfunc option"
  get_function :: "function_id \<Rightarrow> sierra_function option"
  rec_limit :: nat

text \<open>Matching a looked-up type against one constructor, any other one panicking.\<close>

definition get_array_ty :: "registry \<Rightarrow> type_id \<Rightarrow> type_id option" where
  "get_array_ty R t = do { ty \<leftarrow> get_type R t; case ty of ArrayT e \<Rightarrow> Some e | _ \<Rightarrow> None }"

definition get_struct_ty :: "registry \<Rightarrow> type_id \<Rightarrow> type_id list option" where
  "get_struct_ty R t = do { ty \<leftarrow> get_type R t; case ty of StructT ms \<Rightarrow> Some ms | _ \<Rightarrow> None }"

definition get_enum_ty :: "registry \<Rightarrow> type_id \<Rightarrow> type_id list option" where
  "get_enum_ty R t = do { ty \<leftarrow> get_type R t; case ty of EnumT vs \<Rightarrow> Some vs | _ \<Rightarrow> None }"

definition get_dict_ty :: "registry \<Rightarrow> type_id \<Rightarrow> type_id option" where
  "get_dict_ty R t = do { ty \<leftarrow> get_type R t; case ty of Felt252DictT e \<Rightarrow> Some e | _ \<Rightarrow> None }"

definition get_snapshot_ty :: "registry \<Rightarrow> type_id \<Rightarrow> type_id option" where
  "get_snapshot_ty R t = do { ty \<leftarrow> get_type R t; case ty of SnapshotT e \<Rightarrow> Some e | _ \<Rightarrow> None }"

definition get_const_ty :: "registry \<Rightarrow> type_id \<Rightarrow> (type_id \<times> generic_arg list) option" where
  "get_const_ty R t = do { ty \<leftarrow> get_type R t; case ty of ConstT e d \<Rightarrow> Some (e, d) | _ \<Rightarrow> None }"

definition get_circuit_info :: "registry \<Rightarrow> type_id \<Rightarrow> circuit_info option" where
  "get_circuit_info R t =
    do { ty \<leftarrow> get_type R t; case ty of CircuitT (CircuitCT ci) \<Rightarrow> Some ci | _ \<Rightarrow> None }"

lemma get_ty_Some [simp]:
  "(get_array_ty R t = Some e) = (get_type R t = Some (ArrayT e))"
  "(get_struct_ty R t = Some ms) = (get_type R t = Some (StructT ms))"
  "(get_enum_ty R t = Some ms) = (get_type R t = Some (EnumT ms))"
  "(get_dict_ty R t = Some e) = (get_type R t = Some (Felt252DictT e))"
  "(get_snapshot_ty R t = Some e) = (get_type R t = Some (SnapshotT e))"
  "(get_const_ty R t = Some (e, d)) = (get_type R t = Some (ConstT e d))"
proof -
  show "(get_array_ty R t = Some e) = (get_type R t = Some (ArrayT e))"
    by (cases "get_type R t"; simp add: get_array_ty_def; cases "the (get_type R t)"; simp)
  show "(get_struct_ty R t = Some ms) = (get_type R t = Some (StructT ms))"
    by (cases "get_type R t"; simp add: get_struct_ty_def; cases "the (get_type R t)"; simp)
  show "(get_enum_ty R t = Some ms) = (get_type R t = Some (EnumT ms))"
    by (cases "get_type R t"; simp add: get_enum_ty_def; cases "the (get_type R t)"; simp)
  show "(get_dict_ty R t = Some e) = (get_type R t = Some (Felt252DictT e))"
    by (cases "get_type R t"; simp add: get_dict_ty_def; cases "the (get_type R t)"; simp)
  show "(get_snapshot_ty R t = Some e) = (get_type R t = Some (SnapshotT e))"
    by (cases "get_type R t"; simp add: get_snapshot_ty_def; cases "the (get_type R t)"; simp)
  show "(get_const_ty R t = Some (e, d)) = (get_type R t = Some (ConstT e d))"
    by (cases "get_type R t"; simp add: get_const_ty_def; cases "the (get_type R t)"; simp)
qed

lemma get_circuit_info_Some [simp]:
  "(get_circuit_info R t = Some ci) = (get_type R t = Some (CircuitT (CircuitCT ci)))"
proof (cases "get_type R t")
  case (Some ty)
  then show ?thesis
  proof (cases ty)
    case (CircuitT c)
    with Some show ?thesis by (cases c) (simp_all add: get_circuit_info_def)
  qed (simp_all add: get_circuit_info_def)
qed (simp add: get_circuit_info_def)

lemmas get_ty_fwd [simp] = get_ty_Some [THEN iffD2] get_circuit_info_Some [THEN iffD2]

end
