(* ===== verification/Values.thy ===== *)
theory Values
  imports Sierra
begin

text \<open>
  \<open>debug_utils/sierra-emu/src/value.rs\<close>: the run-time values, the check \<open>Value::is\<close>
  that the interpreter makes of a value against a declared type, and the default values of
  dictionary entries. A \<open>HashMap<Felt, Value>\<close> is a finite map, a \<open>BigUint\<close> a natural
  number, a \<open>BigInt\<close> an integer and a machine integer a word of its width.
\<close>

section \<open>Values\<close>

record builtin_costs =
  bc_const :: u64
  bc_pedersen :: u64
  bc_bitwise :: u64
  bc_ecop :: u64
  bc_poseidon :: u64
  bc_add_mod :: u64
  bc_mul_mod :: u64
  bc_blake :: u64

datatype (plugins only: size code) val =
    Array type_id "val list"
  | BoundedInt int_range_t int
  | Circuit "nat list"
  | CircuitOutputs "nat list" nat
  | CircuitModulus nat
  | Enum type_id nat val
  | Felt felt
  | Bytes31 felt
  | FeltDict type_id "(felt, val) fmap" u64
  | FeltDictEntry type_id "(felt, val) fmap" u64 felt
  | EcPoint felt felt
  | EcState felt felt felt
  | I128 i128
  | I64 i64
  | I32 i32
  | I16 i16
  | I8 i8
  | Struct "val list"
  | U256 u128 u128
  | U128 u128
  | U16 u16
  | U32 u32
  | U64 u64
  | U8 u8
  | IntRange val val
  | Uninitialized type_id
  | BuiltinCosts builtin_costs
  | Null
  | Unit

type_synonym vstate = "(var_id, val) fmap"

section \<open>Reading a value as one of its variants\<close>

text \<open>
  \<open>let Value::U64(gas) = v else { panic!() }\<close> and the \<open>TryFrom<Value>\<close> conversions of
  \<open>impl_conversions!\<close>.
\<close>

definition as_unit :: "val \<Rightarrow> unit option" where
  "as_unit v = (case v of Unit \<Rightarrow> Some () | _ \<Rightarrow> None)"
definition as_felt :: "val \<Rightarrow> felt option" where
  "as_felt v = (case v of Felt x \<Rightarrow> Some x | _ \<Rightarrow> None)"
definition as_u8 :: "val \<Rightarrow> u8 option" where
  "as_u8 v = (case v of U8 x \<Rightarrow> Some x | _ \<Rightarrow> None)"
definition as_u32 :: "val \<Rightarrow> u32 option" where
  "as_u32 v = (case v of U32 x \<Rightarrow> Some x | _ \<Rightarrow> None)"
definition as_u64 :: "val \<Rightarrow> u64 option" where
  "as_u64 v = (case v of U64 x \<Rightarrow> Some x | _ \<Rightarrow> None)"
definition as_u128 :: "val \<Rightarrow> u128 option" where
  "as_u128 v = (case v of U128 x \<Rightarrow> Some x | _ \<Rightarrow> None)"
definition as_bytes31 :: "val \<Rightarrow> felt option" where
  "as_bytes31 v = (case v of Bytes31 x \<Rightarrow> Some x | _ \<Rightarrow> None)"
definition as_array :: "val \<Rightarrow> (type_id \<times> val list) option" where
  "as_array v = (case v of Array t xs \<Rightarrow> Some (t, xs) | _ \<Rightarrow> None)"
definition as_struct :: "val \<Rightarrow> val list option" where
  "as_struct v = (case v of Struct xs \<Rightarrow> Some xs | _ \<Rightarrow> None)"
definition as_enum :: "val \<Rightarrow> (type_id \<times> nat \<times> val) option" where
  "as_enum v = (case v of Enum t i p \<Rightarrow> Some (t, i, p) | _ \<Rightarrow> None)"
definition as_bounded :: "val \<Rightarrow> (int_range_t \<times> int) option" where
  "as_bounded v = (case v of BoundedInt r i \<Rightarrow> Some (r, i) | _ \<Rightarrow> None)"
definition as_dict :: "val \<Rightarrow> (type_id \<times> (felt, val) fmap \<times> u64) option" where
  "as_dict v = (case v of FeltDict t d c \<Rightarrow> Some (t, d, c) | _ \<Rightarrow> None)"
definition as_dict_entry :: "val \<Rightarrow> (type_id \<times> (felt, val) fmap \<times> u64 \<times> felt) option" where
  "as_dict_entry v = (case v of FeltDictEntry t d c k \<Rightarrow> Some (t, d, c, k) | _ \<Rightarrow> None)"
definition as_circuit :: "val \<Rightarrow> nat list option" where
  "as_circuit v = (case v of Circuit xs \<Rightarrow> Some xs | _ \<Rightarrow> None)"
definition as_circuit_outputs :: "val \<Rightarrow> (nat list \<times> nat) option" where
  "as_circuit_outputs v = (case v of CircuitOutputs xs m \<Rightarrow> Some (xs, m) | _ \<Rightarrow> None)"
definition as_circuit_modulus :: "val \<Rightarrow> nat option" where
  "as_circuit_modulus v = (case v of CircuitModulus m \<Rightarrow> Some m | _ \<Rightarrow> None)"
definition as_ec_point :: "val \<Rightarrow> (felt \<times> felt) option" where
  "as_ec_point v = (case v of EcPoint x y \<Rightarrow> Some (x, y) | _ \<Rightarrow> None)"
definition as_ec_state :: "val \<Rightarrow> (felt \<times> felt \<times> felt) option" where
  "as_ec_state v = (case v of EcState x y z \<Rightarrow> Some (x, y, z) | _ \<Rightarrow> None)"
definition as_int_range :: "val \<Rightarrow> (val \<times> val) option" where
  "as_int_range v = (case v of IntRange x y \<Rightarrow> Some (x, y) | _ \<Rightarrow> None)"
definition as_uninit :: "val \<Rightarrow> type_id option" where
  "as_uninit v = (case v of Uninitialized t \<Rightarrow> Some t | _ \<Rightarrow> None)"
definition as_builtin_costs :: "val \<Rightarrow> builtin_costs option" where
  "as_builtin_costs v = (case v of BuiltinCosts c \<Rightarrow> Some c | _ \<Rightarrow> None)"

lemmas as_defs = as_unit_def as_felt_def as_u8_def as_u32_def as_u64_def as_u128_def
  as_bytes31_def as_array_def as_struct_def as_enum_def as_bounded_def as_dict_def
  as_dict_entry_def as_circuit_def as_circuit_outputs_def as_circuit_modulus_def
  as_ec_point_def as_ec_state_def as_int_range_def as_uninit_def as_builtin_costs_def

lemma as_Some [simp]:
  "(as_unit v = Some u) = (v = Unit)"
  "(as_felt v = Some f) = (v = Felt f)"
  "(as_u8 v = Some a) = (v = U8 a)"
  "(as_u32 v = Some b) = (v = U32 b)"
  "(as_u64 v = Some c) = (v = U64 c)"
  "(as_u128 v = Some d) = (v = U128 d)"
  "(as_bytes31 v = Some f) = (v = Bytes31 f)"
  "(as_array v = Some (t, xs)) = (v = Array t xs)"
  "(as_struct v = Some xs) = (v = Struct xs)"
  "(as_enum v = Some (t, i, p)) = (v = Enum t i p)"
  "(as_bounded v = Some (r, k)) = (v = BoundedInt r k)"
  "(as_dict v = Some (t, m, c)) = (v = FeltDict t m c)"
  "(as_dict_entry v = Some (t, m, c, f)) = (v = FeltDictEntry t m c f)"
  "(as_circuit v = Some ns) = (v = Circuit ns)"
  "(as_circuit_outputs v = Some (ns, i)) = (v = CircuitOutputs ns i)"
  "(as_circuit_modulus v = Some i) = (v = CircuitModulus i)"
  "(as_ec_point v = Some (f, g)) = (v = EcPoint f g)"
  "(as_ec_state v = Some (f, g, h)) = (v = EcState f g h)"
  "(as_int_range v = Some (p, q)) = (v = IntRange p q)"
  "(as_uninit v = Some t) = (v = Uninitialized t)"
  "(as_builtin_costs v = Some bc) = (v = BuiltinCosts bc)"
  by (cases v; simp add: as_defs; fail)+

lemma as_exact [simp]:
  "as_unit Unit = Some ()"
  "as_felt (Felt f) = Some f"
  "as_u8 (U8 a) = Some a"
  "as_u32 (U32 b) = Some b"
  "as_u64 (U64 c) = Some c"
  "as_u128 (U128 d) = Some d"
  "as_bytes31 (Bytes31 f) = Some f"
  "as_array (Array t xs) = Some (t, xs)"
  "as_struct (Struct xs) = Some xs"
  "as_enum (Enum t i p) = Some (t, i, p)"
  "as_bounded (BoundedInt r k) = Some (r, k)"
  "as_dict (FeltDict t m c) = Some (t, m, c)"
  "as_dict_entry (FeltDictEntry t m c f) = Some (t, m, c, f)"
  "as_circuit (Circuit ns) = Some ns"
  "as_circuit_outputs (CircuitOutputs ns i) = Some (ns, i)"
  "as_circuit_modulus (CircuitModulus i) = Some i"
  "as_ec_point (EcPoint f g) = Some (f, g)"
  "as_ec_state (EcState f g h) = Some (f, g, h)"
  "as_int_range (IntRange p q) = Some (p, q)"
  "as_uninit (Uninitialized t) = Some t"
  "as_builtin_costs (BuiltinCosts bc) = Some bc"
  by (simp_all add: as_defs)

section \<open>\<open>Value::is\<close>\<close>

text \<open>
  The walk follows the type: through wrappers that are invisible at run time (\<open>NonZero\<close>,
  \<open>Snapshot\<close>, \<open>Span\<close>, \<open>Box\<close>, \<open>Nullable\<close>, \<open>Const\<close>) on the same value, and into the
  members of a struct. The first argument is the depth of recursion left; a missing type
  unwraps a \<open>None\<close> and panics, and so do the two types the code leaves as \<open>todo!()\<close>.
\<close>

definition starknet_is :: "starknet_type \<Rightarrow> val \<Rightarrow> bool" where
  "starknet_is st v =
    (case st of
      ClassHashST \<Rightarrow> as_felt v \<noteq> None
    | ContractAddressST \<Rightarrow> as_felt v \<noteq> None
    | StorageBaseAddressST \<Rightarrow> as_felt v \<noteq> None
    | StorageAddressST \<Rightarrow> as_felt v \<noteq> None
    | SystemST \<Rightarrow> v = Unit
    | Secp256PointST _ \<Rightarrow> as_struct v \<noteq> None
    | Sha256StateHandleST \<Rightarrow> as_struct v \<noteq> None
    | Sha512StateHandleST \<Rightarrow> as_struct v \<noteq> None)"

definition circuit_is :: "circuit_type \<Rightarrow> val \<Rightarrow> bool" where
  "circuit_is ct v =
    (case ct of
      CircuitCT _ \<Rightarrow> as_circuit v \<noteq> None
    | CircuitDataCT \<Rightarrow> as_circuit v \<noteq> None
    | CircuitInputAccumulatorCT \<Rightarrow> as_circuit v \<noteq> None
    | CircuitOutputsCT \<Rightarrow> as_circuit_outputs v \<noteq> None
    | CircuitModulusCT \<Rightarrow> as_circuit_modulus v \<noteq> None
    | U96GuaranteeCT \<Rightarrow> as_u128 v \<noteq> None
    | CircuitInputCT \<Rightarrow> as_struct v \<noteq> None
    | U96LimbsLessThanGuaranteeCT _ \<Rightarrow> as_struct v \<noteq> None
    | AddModCT \<Rightarrow> v = Unit
    | MulModCT \<Rightarrow> v = Unit
    | CircuitDescriptorCT \<Rightarrow> v = Unit
    | CircuitFailureGuaranteeCT \<Rightarrow> v = Unit
    | AddModGateCT \<Rightarrow> v = Unit
    | CircuitPartialOutputsCT \<Rightarrow> v = Unit
    | InverseGateCT \<Rightarrow> v = Unit
    | MulModGateCT \<Rightarrow> v = Unit
    | SubModGateCT \<Rightarrow> v = Unit)"

fun value_is_fuel :: "nat \<Rightarrow> registry \<Rightarrow> val \<Rightarrow> type_id \<Rightarrow> bool option" where
  "value_is_fuel 0 R v t = None"
| "value_is_fuel (Suc n) R v t =
    do {
      ty \<leftarrow> get_type R t;
      (case ty of
        ArrayT e \<Rightarrow> Some (case v of Array e' _ \<Rightarrow> e' = e | _ \<Rightarrow> False)
      | BoundedIntT r \<Rightarrow> Some (case v of BoundedInt r' _ \<Rightarrow> r' = r | _ \<Rightarrow> False)
      | BoundedIntGuaranteeT r \<Rightarrow> Some (case v of BoundedInt r' _ \<Rightarrow> r' = r | _ \<Rightarrow> False)
      | EnumT _ \<Rightarrow> Some (case v of Enum t' _ _ \<Rightarrow> t' = t | _ \<Rightarrow> False)
      | Felt252T \<Rightarrow> Some (as_felt v \<noteq> None)
      | Bytes31T \<Rightarrow> Some (as_bytes31 v \<noteq> None)
      | Felt252DictT e \<Rightarrow> Some (case v of FeltDict e' _ _ \<Rightarrow> e' = e | _ \<Rightarrow> False)
      | GasBuiltinT \<Rightarrow> Some (as_u64 v \<noteq> None)
      | NonZeroT e \<Rightarrow> value_is_fuel n R v e
      | Sint128T \<Rightarrow> Some (case v of I128 _ \<Rightarrow> True | _ \<Rightarrow> False)
      | Sint32T \<Rightarrow> Some (case v of I32 _ \<Rightarrow> True | _ \<Rightarrow> False)
      | Sint8T \<Rightarrow> Some (case v of I8 _ \<Rightarrow> True | _ \<Rightarrow> False)
      | SnapshotT e \<Rightarrow> value_is_fuel n R v e
      | StarknetT st \<Rightarrow> Some (starknet_is st v)
      | StructT ms \<Rightarrow>
          (case v of
            Struct vs \<Rightarrow>
              if length vs = length ms
              then all_opt (\<lambda>(w, m). value_is_fuel n R w m) (zip vs ms)
              else Some False
          | _ \<Rightarrow> Some False)
      | SpanT e \<Rightarrow> value_is_fuel n R v e
      | Uint8T \<Rightarrow> Some (as_u8 v \<noteq> None)
      | Uint32T \<Rightarrow> Some (as_u32 v \<noteq> None)
      | Uint128T \<Rightarrow> Some (as_u128 v \<noteq> None)
      | RangeCheckT \<Rightarrow> Some (v = Unit)
      | SegmentArenaT \<Rightarrow> Some (v = Unit)
      | RangeCheck96T \<Rightarrow> Some (v = Unit)
      | CouponT \<Rightarrow> Some (v = Unit)
      | BitwiseT \<Rightarrow> Some (v = Unit)
      | BoxT e \<Rightarrow> value_is_fuel n R v e
      | CircuitT ct \<Rightarrow> Some (circuit_is ct v)
      | ConstT e _ \<Rightarrow> value_is_fuel n R v e
      | EcOpT \<Rightarrow> Some (v = Unit)
      | EcPointT \<Rightarrow> Some (as_ec_point v \<noteq> None)
      | EcStateT \<Rightarrow> Some (as_ec_state v \<noteq> None)
      | BuiltinCostsT \<Rightarrow> Some (as_builtin_costs v \<noteq> None)
      | Uint16T \<Rightarrow> Some (case v of U16 _ \<Rightarrow> True | _ \<Rightarrow> False)
      | Uint64T \<Rightarrow> Some (as_u64 v \<noteq> None)
      | Uint128MulGuaranteeT \<Rightarrow> Some (v = Unit)
      | Sint16T \<Rightarrow> Some (case v of I16 _ \<Rightarrow> True | _ \<Rightarrow> False)
      | Sint64T \<Rightarrow> Some (case v of I64 _ \<Rightarrow> True | _ \<Rightarrow> False)
      | NullableT e \<Rightarrow> if v = Null then Some True else value_is_fuel n R v e
      | UninitializedT _ \<Rightarrow> Some (as_uninit v \<noteq> None)
      | Felt252DictEntryT e \<Rightarrow>
          Some (case v of FeltDictEntry e' _ _ _ \<Rightarrow> e' = e | _ \<Rightarrow> False)
      | SquashedFelt252DictT e \<Rightarrow> Some (case v of FeltDict e' _ _ \<Rightarrow> e' = e | _ \<Rightarrow> False)
      | PedersenT \<Rightarrow> Some (v = Unit)
      | PoseidonT \<Rightarrow> Some (v = Unit)
      | IntRangeT _ \<Rightarrow> Some (as_int_range v \<noteq> None)
      | GasReserveT \<Rightarrow> Some (as_u128 v \<noteq> None)
      | BlakeT \<Rightarrow> None
      | QM31T \<Rightarrow> None) }"

definition value_is :: "registry \<Rightarrow> val \<Rightarrow> type_id \<Rightarrow> bool option" where
  "value_is R = value_is_fuel (rec_limit R) R"

abbreviation has_type :: "registry \<Rightarrow> val \<Rightarrow> type_id \<Rightarrow> bool" where
  "has_type R v t \<equiv> value_is R v t = Some True"

text \<open>\<open>values.iter().zip(types).all(|(value, ty)| value.is(registry, ty))\<close>\<close>

definition values_are :: "registry \<Rightarrow> val list \<Rightarrow> type_id list \<Rightarrow> bool option" where
  "values_are R vs ts = all_opt (\<lambda>(v, t). value_is R v t) (zip vs ts)"

lemma values_are_True:
  "length vs = length ts \<Longrightarrow>
    (values_are R vs ts = Some True) = list_all2 (has_type R) vs ts"
  by (auto simp: values_are_def list_all2_iff)

section \<open>Default values\<close>

fun default_for_type_fuel :: "nat \<Rightarrow> registry \<Rightarrow> type_id \<Rightarrow> val option" where
  "default_for_type_fuel 0 R t = None"
| "default_for_type_fuel (Suc n) R t =
    do {
      ty \<leftarrow> get_type R t;
      (case ty of
        Uint8T \<Rightarrow> Some (U8 0)
      | Uint32T \<Rightarrow> Some (U32 0)
      | Uint64T \<Rightarrow> Some (U64 0)
      | Uint16T \<Rightarrow> Some (U16 0)
      | Uint128T \<Rightarrow> Some (U128 0)
      | Felt252T \<Rightarrow> Some (Felt 0)
      | EnumT variants \<Rightarrow>
          do {
            v0 \<leftarrow> nth_opt variants 0;
            p \<leftarrow> default_for_type_fuel n R v0;
            Some (Enum t 0 p) }
      | ArrayT e \<Rightarrow> Some (Array e [])
      | StructT ms \<Rightarrow>
          do { vs \<leftarrow> map_opt (default_for_type_fuel n R) ms; Some (Struct vs) }
      | NullableT _ \<Rightarrow> Some Null
      | _ \<Rightarrow> None) }"

definition default_for_type :: "registry \<Rightarrow> type_id \<Rightarrow> val option" where
  "default_for_type R = default_for_type_fuel (rec_limit R) R"

section \<open>\<open>find_real_type\<close>\<close>

text \<open>
  \<open>debug_utils/sierra-emu/src/lib.rs\<close>: strip the wrappers that have no run-time
  representation of their own.
\<close>

fun find_real_type_fuel :: "nat \<Rightarrow> registry \<Rightarrow> type_id \<Rightarrow> type_id option" where
  "find_real_type_fuel 0 R t = None"
| "find_real_type_fuel (Suc n) R t =
    do {
      ty \<leftarrow> get_type R t;
      (case ty of
        BoxT e \<Rightarrow> find_real_type_fuel n R e
      | UninitializedT e \<Rightarrow> find_real_type_fuel n R e
      | SpanT e \<Rightarrow> find_real_type_fuel n R e
      | SnapshotT e \<Rightarrow> find_real_type_fuel n R e
      | _ \<Rightarrow> Some t) }"

definition find_real_type :: "registry \<Rightarrow> type_id \<Rightarrow> type_id option" where
  "find_real_type R = find_real_type_fuel (rec_limit R) R"

end
