(* ===== verification/Syscalls.thy ===== *)
theory Syscalls
  imports Values
begin

text \<open>
  \<open>cairo-starknet-syscalls/src/lib.rs\<close>: the types of the Starknet system calls and the
  interface of a handler, and \<open>debug_utils/sierra-emu/src/starknet/value_conv.rs\<close>: the
  conversions between those types and the run-time values.

  A handler is a trait in the code. Here it is a record of functions on a state \<open>'s\<close> of
  the handler's own. Each takes the remaining gas, which the code passes as
  \<open>&mut u64\<close>, and returns the result (\<open>Inl\<close> the error felts, \<open>Inr\<close> the value), the gas that
  is left and the new state; \<open>None\<close> is a panic of the handler.
\<close>

section \<open>Types\<close>

record u256 =
  u256_lo :: u128
  u256_hi :: u128

record block_info =
  block_number :: u64
  block_timestamp :: u64
  sequencer_address :: felt

record tx_info =
  tx_version :: felt
  tx_account_contract_address :: felt
  tx_max_fee :: u128
  tx_signature :: "felt list"
  tx_transaction_hash :: felt
  tx_chain_id :: felt
  tx_nonce :: felt

record resource_bounds =
  rb_resource :: felt
  rb_max_amount :: u64
  rb_max_price_per_unit :: u128

record tx_v2_info =
  tx2_version :: felt
  tx2_account_contract_address :: felt
  tx2_max_fee :: u128
  tx2_signature :: "felt list"
  tx2_transaction_hash :: felt
  tx2_chain_id :: felt
  tx2_nonce :: felt
  tx2_resource_bounds :: "resource_bounds list"
  tx2_tip :: u128
  tx2_paymaster_data :: "felt list"
  tx2_nonce_data_availability_mode :: u32
  tx2_fee_data_availability_mode :: u32
  tx2_account_deployment_data :: "felt list"

record tx_v3_info = tx_v2_info +
  tx3_proof_facts :: "felt list"

record execution_info =
  ei_block_info :: block_info
  ei_tx_info :: tx_info
  ei_caller_address :: felt
  ei_contract_address :: felt
  ei_entry_point_selector :: felt

record execution_info_v2 =
  ei2_block_info :: block_info
  ei2_tx_info :: tx_v2_info
  ei2_caller_address :: felt
  ei2_contract_address :: felt
  ei2_entry_point_selector :: felt

record execution_info_v3 =
  ei3_block_info :: block_info
  ei3_tx_info :: tx_v3_info
  ei3_caller_address :: felt
  ei3_contract_address :: felt
  ei3_entry_point_selector :: felt

record secp256k1_point =
  k1_x :: u256
  k1_y :: u256
  k1_is_infinity :: bool

record secp256r1_point =
  r1_x :: u256
  r1_y :: u256
  r1_is_infinity :: bool

section \<open>The handler\<close>

type_synonym 'a syscall_result = "felt list + 'a"
type_synonym ('s, 'a) syscall = "u64 \<Rightarrow> 's \<Rightarrow> ('a syscall_result \<times> u64 \<times> 's) option"

text \<open>
  The two \<open>process_block\<close> calls write the new hash state through a \<open>&mut\<close> array; here they
  return it.
\<close>

record 's syscall_handler =
  get_block_hash :: "u64 \<Rightarrow> ('s, felt) syscall"
  get_execution_info :: "('s, execution_info) syscall"
  get_execution_info_v2 :: "('s, execution_info_v2) syscall"
  get_execution_info_v3 :: "('s, execution_info_v3) syscall"
  deploy :: "felt \<Rightarrow> felt \<Rightarrow> felt list \<Rightarrow> bool \<Rightarrow> ('s, felt \<times> felt list) syscall"
  replace_class :: "felt \<Rightarrow> ('s, unit) syscall"
  library_call :: "felt \<Rightarrow> felt \<Rightarrow> felt list \<Rightarrow> ('s, felt list) syscall"
  call_contract :: "felt \<Rightarrow> felt \<Rightarrow> felt list \<Rightarrow> ('s, felt list) syscall"
  storage_read :: "u32 \<Rightarrow> felt \<Rightarrow> ('s, felt) syscall"
  storage_write :: "u32 \<Rightarrow> felt \<Rightarrow> felt \<Rightarrow> ('s, unit) syscall"
  emit_event :: "felt list \<Rightarrow> felt list \<Rightarrow> ('s, unit) syscall"
  send_message_to_l1 :: "felt \<Rightarrow> felt list \<Rightarrow> ('s, unit) syscall"
  keccak :: "u64 list \<Rightarrow> ('s, u256) syscall"
  secp256k1_new :: "u256 \<Rightarrow> u256 \<Rightarrow> ('s, secp256k1_point option) syscall"
  secp256k1_add :: "secp256k1_point \<Rightarrow> secp256k1_point \<Rightarrow> ('s, secp256k1_point) syscall"
  secp256k1_mul :: "secp256k1_point \<Rightarrow> u256 \<Rightarrow> ('s, secp256k1_point) syscall"
  secp256k1_get_point_from_x :: "u256 \<Rightarrow> bool \<Rightarrow> ('s, secp256k1_point option) syscall"
  secp256k1_get_xy :: "secp256k1_point \<Rightarrow> ('s, u256 \<times> u256) syscall"
  secp256r1_new :: "u256 \<Rightarrow> u256 \<Rightarrow> ('s, secp256r1_point option) syscall"
  secp256r1_add :: "secp256r1_point \<Rightarrow> secp256r1_point \<Rightarrow> ('s, secp256r1_point) syscall"
  secp256r1_mul :: "secp256r1_point \<Rightarrow> u256 \<Rightarrow> ('s, secp256r1_point) syscall"
  secp256r1_get_point_from_x :: "u256 \<Rightarrow> bool \<Rightarrow> ('s, secp256r1_point option) syscall"
  secp256r1_get_xy :: "secp256r1_point \<Rightarrow> ('s, u256 \<times> u256) syscall"
  sha256_process_block :: "u32 list \<Rightarrow> u32 list \<Rightarrow> ('s, u32 list) syscall"
  sha512_process_block :: "u64 list \<Rightarrow> u64 list \<Rightarrow> ('s, u64 list) syscall"
  get_class_hash_at :: "felt \<Rightarrow> ('s, felt) syscall"
  meta_tx_v0 :: "felt \<Rightarrow> felt \<Rightarrow> felt list \<Rightarrow> felt list \<Rightarrow> ('s, felt list) syscall"

text \<open>
  \<open>Felt::from_bytes_be_slice\<close> on a byte string: the big-endian number of the characters,
  reduced to the field.
\<close>

definition be_value :: "nat list \<Rightarrow> int" where
  "be_value bs = foldl (\<lambda>acc b. acc * 256 + int b) 0 bs"

definition felt_of_text :: "string \<Rightarrow> felt" where
  "felt_of_text s = felt_of_int (be_value (map of_char s))"

definition default_cheatcode :: "felt \<Rightarrow> felt list \<Rightarrow> felt list" where
  "default_cheatcode sel inp = [felt_of_text ''cheatcode unsupported'']"

section \<open>Conversions to and from values\<close>

definition u256_into_value :: "u256 \<Rightarrow> val" where
  "u256_into_value x = Struct [U128 (u256_lo x), U128 (u256_hi x)]"

definition u256_from_value :: "val \<Rightarrow> u256 option" where
  "u256_from_value w =
    do {
      v \<leftarrow> as_struct w;
      lo_v \<leftarrow> nth_opt v 0;
      lo \<leftarrow> as_u128 lo_v;
      hi_v \<leftarrow> nth_opt v 1;
      hi \<leftarrow> as_u128 hi_v;
      Some \<lparr>u256_lo = lo, u256_hi = hi\<rparr> }"

definition u256_zero :: u256 where
  "u256_zero = \<lparr>u256_lo = 0, u256_hi = 0\<rparr>"

definition secp256k1_point_into_value :: "secp256k1_point \<Rightarrow> val" where
  "secp256k1_point_into_value p =
    (let (x, y) = (if k1_is_infinity p then (u256_zero, u256_zero) else (k1_x p, k1_y p))
     in Struct [Struct [U128 (u256_lo x), U128 (u256_hi x)],
                Struct [U128 (u256_lo y), U128 (u256_hi y)]])"

definition secp256r1_point_into_value :: "secp256r1_point \<Rightarrow> val" where
  "secp256r1_point_into_value p =
    (let (x, y) = (if r1_is_infinity p then (u256_zero, u256_zero) else (r1_x p, r1_y p))
     in Struct [Struct [U128 (u256_lo x), U128 (u256_hi x)],
                Struct [U128 (u256_lo y), U128 (u256_hi y)]])"

text \<open>\<open>v.remove(1)\<close> and then \<open>v.remove(0)\<close>: both positions have to exist.\<close>

definition secp256k1_point_from_value :: "val \<Rightarrow> secp256k1_point option" where
  "secp256k1_point_from_value w =
    do {
      v \<leftarrow> as_struct w;
      y_v \<leftarrow> nth_opt v 1;
      y \<leftarrow> u256_from_value y_v;
      x_v \<leftarrow> nth_opt v 0;
      x \<leftarrow> u256_from_value x_v;
      Some \<lparr>k1_x = x, k1_y = y,
            k1_is_infinity = (u256_lo x = 0 \<and> u256_hi x = 0 \<and> u256_lo y = 0 \<and> u256_hi y = 0)\<rparr> }"

definition secp256r1_point_from_value :: "val \<Rightarrow> secp256r1_point option" where
  "secp256r1_point_from_value w =
    do {
      v \<leftarrow> as_struct w;
      y_v \<leftarrow> nth_opt v 1;
      y \<leftarrow> u256_from_value y_v;
      x_v \<leftarrow> nth_opt v 0;
      x \<leftarrow> u256_from_value x_v;
      Some \<lparr>r1_x = x, r1_y = y,
            r1_is_infinity = (u256_lo x = 0 \<and> u256_hi x = 0 \<and> u256_lo y = 0 \<and> u256_hi y = 0)\<rparr> }"

definition block_info_into_value :: "block_info \<Rightarrow> val" where
  "block_info_into_value b =
    Struct [U64 (block_number b), U64 (block_timestamp b), Felt (sequencer_address b)]"

definition resource_bounds_into_value :: "resource_bounds \<Rightarrow> val" where
  "resource_bounds_into_value r =
    Struct [Felt (rb_resource r), U64 (rb_max_amount r), U128 (rb_max_price_per_unit r)]"

definition tx_info_into_value :: "tx_info \<Rightarrow> type_id \<Rightarrow> val" where
  "tx_info_into_value info felt252_ty =
    Struct
      [Felt (tx_version info),
       Felt (tx_account_contract_address info),
       U128 (tx_max_fee info),
       Struct [Array felt252_ty (map Felt (tx_signature info))],
       Felt (tx_transaction_hash info),
       Felt (tx_chain_id info),
       Felt (tx_nonce info)]"

definition tx_v2_info_into_value :: "tx_v2_info \<Rightarrow> type_id \<Rightarrow> type_id \<Rightarrow> val" where
  "tx_v2_info_into_value info felt252_ty resource_bounds_ty =
    Struct
      [Felt (tx2_version info),
       Felt (tx2_account_contract_address info),
       U128 (tx2_max_fee info),
       Struct [Array felt252_ty (map Felt (tx2_signature info))],
       Felt (tx2_transaction_hash info),
       Felt (tx2_chain_id info),
       Felt (tx2_nonce info),
       Struct [Array resource_bounds_ty
                 (map resource_bounds_into_value (tx2_resource_bounds info))],
       U128 (tx2_tip info),
       Struct [Array felt252_ty (map Felt (tx2_paymaster_data info))],
       U32 (tx2_nonce_data_availability_mode info),
       U32 (tx2_fee_data_availability_mode info),
       Struct [Array felt252_ty (map Felt (tx2_account_deployment_data info))]]"

definition execution_info_into_value :: "execution_info \<Rightarrow> type_id \<Rightarrow> val" where
  "execution_info_into_value info felt252_ty =
    Struct
      [block_info_into_value (ei_block_info info),
       tx_info_into_value (ei_tx_info info) felt252_ty,
       Felt (ei_caller_address info),
       Felt (ei_contract_address info),
       Felt (ei_entry_point_selector info)]"

definition execution_info_v2_into_value :: "execution_info_v2 \<Rightarrow> type_id \<Rightarrow> type_id \<Rightarrow> val" where
  "execution_info_v2_into_value info felt252_ty resource_bounds_ty =
    Struct
      [block_info_into_value (ei2_block_info info),
       tx_v2_info_into_value (ei2_tx_info info) felt252_ty resource_bounds_ty,
       Felt (ei2_caller_address info),
       Felt (ei2_contract_address info),
       Felt (ei2_entry_point_selector info)]"

section \<open>The conversions invert each other\<close>

lemma u256_from_into [simp]: "u256_from_value (u256_into_value x) = Some x"
  by (simp add: u256_from_value_def u256_into_value_def)

lemma u256_into_from:
  "u256_from_value w = Some x \<Longrightarrow> as_struct w = Some [a, b] \<Longrightarrow> u256_into_value x = w"
  by (auto simp: u256_from_value_def u256_into_value_def bind_Some)

definition k1_canonical :: "secp256k1_point \<Rightarrow> bool" where
  "k1_canonical p \<longleftrightarrow> (k1_is_infinity p \<longleftrightarrow> k1_x p = u256_zero \<and> k1_y p = u256_zero)"

definition r1_canonical :: "secp256r1_point \<Rightarrow> bool" where
  "r1_canonical p \<longleftrightarrow> (r1_is_infinity p \<longleftrightarrow> r1_x p = u256_zero \<and> r1_y p = u256_zero)"

lemma u256_split: "(\<And>lo hi. P \<lparr>u256_lo = lo, u256_hi = hi\<rparr>) \<Longrightarrow> P x"
  by (cases x) simp

lemma k1_roundtrip:
  "secp256k1_point_from_value (secp256k1_point_into_value \<lparr>k1_x = x, k1_y = y, k1_is_infinity = i\<rparr>) =
    Some (if i then \<lparr>k1_x = u256_zero, k1_y = u256_zero, k1_is_infinity = True\<rparr>
          else \<lparr>k1_x = x, k1_y = y, k1_is_infinity = (x = u256_zero \<and> y = u256_zero)\<rparr>)"
  by (rule u256_split [of _ x], rule u256_split [of _ y])
    (simp add: secp256k1_point_into_value_def secp256k1_point_from_value_def
      u256_from_value_def u256_zero_def)

lemma r1_roundtrip:
  "secp256r1_point_from_value (secp256r1_point_into_value \<lparr>r1_x = x, r1_y = y, r1_is_infinity = i\<rparr>) =
    Some (if i then \<lparr>r1_x = u256_zero, r1_y = u256_zero, r1_is_infinity = True\<rparr>
          else \<lparr>r1_x = x, r1_y = y, r1_is_infinity = (x = u256_zero \<and> y = u256_zero)\<rparr>)"
  by (rule u256_split [of _ x], rule u256_split [of _ y])
    (simp add: secp256r1_point_into_value_def secp256r1_point_from_value_def
      u256_from_value_def u256_zero_def)

lemma secp_point_roundtrip_parts:
  "secp256k1_point_from_value (secp256k1_point_into_value p) = Some p \<longleftrightarrow> k1_canonical p"
  "secp256r1_point_from_value (secp256r1_point_into_value q) = Some q \<longleftrightarrow> r1_canonical q"
  by (cases p; auto simp: k1_roundtrip k1_canonical_def)
    (cases q; auto simp: r1_roundtrip r1_canonical_def)

text \<open>
  A point of either curve survives the trip through its value, the flag for infinity
  included, exactly when the flag is set on the coordinates \<open>(0, 0)\<close> and on no others: the
  encoding is lossless on the points of the curves, which do not contain \<open>(0, 0)\<close>.
\<close>
theorem secp_point_roundtrip:
  "(secp256k1_point_from_value (secp256k1_point_into_value p) = Some p \<longleftrightarrow> k1_canonical p) \<and>
    (secp256r1_point_from_value (secp256r1_point_into_value q) = Some q \<longleftrightarrow> r1_canonical q)"
  using secp_point_roundtrip_parts by blast

end
