(* ===== verification/Store.thy ===== *)
theory Store
  imports Prelude "HOL-Library.Finite_Map"
begin

text \<open>
  The contract of a keyed store: what a lookup returns after an update. Dictionaries and
  contract storage both keep it; what follows from it for sequences of updates is proved once
  here, and each provider interprets the locale on its own operations. \<open>shown\<close> is what a
  lookup makes of a stored value, for a provider whose lookup wraps it up.
\<close>

locale keyed_store =
  fixes lookup :: "'d \<Rightarrow> 'k \<Rightarrow> 'r" and update :: "'d \<Rightarrow> 'k \<Rightarrow> 'v \<Rightarrow> 'd" and shown :: "'v \<Rightarrow> 'r"
  assumes lookup_update: "lookup (update d k v) k' = (if k' = k then shown v else lookup d k')"
begin

lemma lookup_same: "lookup (update d k v) k = shown v"
  by (simp add: lookup_update)

lemma lookup_other: "k' \<noteq> k \<Longrightarrow> lookup (update d k v) k' = lookup d k'"
  by (simp add: lookup_update)

text \<open>After a sequence of updates a key reads as the last value written to it.\<close>

lemma lookup_updates:
  "lookup (foldl (\<lambda>d (k, v). update d k v) d kvs) k =
    (case map_of (rev kvs) k of Some v \<Rightarrow> shown v | None \<Rightarrow> lookup d k)"
proof (induction kvs rule: rev_induct)
  case (snoc kv kvs)
  then show ?case by (cases kv) (simp add: lookup_update)
qed simp

text \<open>Updates of different keys can be exchanged, as far as any lookup can tell.\<close>

lemma lookup_update_commute:
  "k \<noteq> l \<Longrightarrow> lookup (update (update d k v) l w) = lookup (update (update d l w) k v)"
  by (rule ext) (simp add: lookup_update)

end

text \<open>A finite map with a default for the keys that are not in it.\<close>

definition default_lookup :: "'v \<Rightarrow> ('k, 'v) fmap \<Rightarrow> 'k \<Rightarrow> 'v" where
  "default_lookup def m k = (case fmlookup m k of Some v \<Rightarrow> v | None \<Rightarrow> def)"

interpretation fmap_store: keyed_store "default_lookup def" "\<lambda>m k v. fmupd k v m" "\<lambda>v. v" for def
  by unfold_locales (simp add: default_lookup_def)

end
