(* ===== verification/StubHandler.thy ===== *)
theory StubHandler
  imports Syscalls Store
begin

text \<open>
  \<open>debug_utils/sierra-emu/src/starknet.rs\<close>: \<open>StubSyscallHandler\<close>, the in-memory handler
  of the interpreter. It keeps a storage, the emitted events, the execution information and
  (never written) logs. The calls the code leaves as \<open>unimplemented!()\<close> panic. The curve
  arithmetic of \<open>k256\<close> and \<open>p256\<close>, the Keccak permutation and the SHA-2 compression
  functions belong to other crates and are parameters.
\<close>

section \<open>Bytes\<close>

definition to_be_bytes :: "u128 \<Rightarrow> u8 list" where
  "to_be_bytes w = map (\<lambda>i. ucast (drop_bit (8 * i) w)) (rev [0 ..< 16])"

definition to_be_bytes32 :: "u32 \<Rightarrow> u8 list" where
  "to_be_bytes32 w = map (\<lambda>i. ucast (drop_bit (8 * i) w)) (rev [0 ..< 4])"

definition to_be_bytes64 :: "u64 \<Rightarrow> u8 list" where
  "to_be_bytes64 w = map (\<lambda>i. ucast (drop_bit (8 * i) w)) (rev [0 ..< 8])"

text \<open>\<open>u128::from_be_bytes\<close> of a slice that has to be 16 bytes long.\<close>

definition from_be_bytes :: "u8 list \<Rightarrow> u128 option" where
  "from_be_bytes bs =
    (if length bs = 16 then Some (word_of_int (foldl (\<lambda>acc b. acc * 256 + uint b) 0 bs)) else None)"

lemma length_to_be_bytes [simp]: "length (to_be_bytes w) = 16"
  by (simp add: to_be_bytes_def)

lemma foldl_be_digits:
  "foldl (\<lambda>acc i. acc * 256 + x div 256 ^ i mod 256) c (rev [0 ..< n]) = c * 256 ^ n + x mod 256 ^ n"
  for x c :: int
proof (induction n arbitrary: c)
  case (Suc n)
  have "x mod (256 ^ n * 256) = 256 ^ n * (x div 256 ^ n mod 256) + x mod 256 ^ n"
    using mod_mult2_eq' [of x "256 ^ n" 256] zmod_zmult2_eq [of 256 x "256 ^ n"] by simp
  with Suc show ?case by (simp add: algebra_simps)
qed simp

lemma from_to_be_bytes [simp]: "from_be_bytes (to_be_bytes w) = Some w"
proof -
  have d: "uint (ucast (drop_bit (8 * i) w) :: u8) = uint w div 256 ^ i mod 256" for i
  proof -
    have "take_bit 128 (uint w) = uint w" using uint_lt2p [of w] by (simp add: take_bit_eq_mod)
    then have "uint (drop_bit (8 * i) w) = uint w div 2 ^ (8 * i)"
      by (simp add: unsigned_drop_bit_eq drop_bit_eq_div [where 'a = int])
    then show ?thesis by (simp only: unsigned_ucast_eq take_bit_eq_mod power_mult) simp
  qed
  have "foldl (\<lambda>acc b. acc * 256 + uint b) 0 (to_be_bytes w) =
      foldl (\<lambda>acc i. acc * 256 + uint w div 256 ^ i mod 256) 0 (rev [0 ..< 16])"
    unfolding to_be_bytes_def foldl_map d ..
  also have "\<dots> = uint w mod 256 ^ 16" by (subst foldl_be_digits) simp
  also have "\<dots> = uint w" using uint_lt2p [of w] by (intro mod_pos_pos_trivial) simp_all
  finally show ?thesis by (simp add: from_be_bytes_def)
qed

lemma be_digits:
  "map (\<lambda>i. word_of_int (foldl (\<lambda>acc b. acc * 256 + uint b) 0 bs div 256 ^ i)) (rev [0 ..< length bs]) = bs"
  for bs :: "u8 list"
proof (induction bs rule: rev_induct)
  case (snoc b bs)
  define v where "v = foldl (\<lambda>acc b. acc * 256 + uint b) 0 bs"
  have up: "rev [0 ..< Suc (length bs)] = map Suc (rev [0 ..< length bs]) @ [0]"
    by (subst upt_rec) (simp add: map_Suc_upt flip: rev_map)
  have b: "0 \<le> uint b" "uint b < 256" using uint_lt2p [of b] by simp_all
  have "(v * 256 + uint b) div (256 * 256 ^ i) = v div 256 ^ i" for i
    using b by (subst zdiv_zmult2_eq) simp_all
  moreover have "word_of_int (v * 256 + uint b) = b"
  proof (rule word_uint_eqI)
    have "uint (word_of_int (v * 256 + uint b) :: u8) = (v * 256 + uint b) mod 2 ^ 8"
      by (simp only: uint_word_of_int len_of_numeral_defs) simp
    also have "\<dots> = uint b" using b by simp
    finally show "uint (word_of_int (v * 256 + uint b) :: u8) = uint b" .
  qed
  ultimately show ?case
    using snoc.IH by (simp add: up v_def [symmetric] comp_def del: upt_Suc)
qed simp

lemma be_value_bound: "0 \<le> v \<and> v < 256 ^ length bs" if "v = foldl (\<lambda>acc b. acc * 256 + uint b) 0 bs"
  for bs :: "u8 list"
  using that
proof (induction bs arbitrary: v rule: rev_induct)
  case (snoc b bs)
  have "uint b < 256" using uint_lt2p [of b] by simp
  with snoc.IH [OF refl] snoc.prems show ?case by simp
qed simp

lemma to_from_be_bytes: "from_be_bytes bs = Some w \<Longrightarrow> to_be_bytes w = bs"
proof -
  assume a: "from_be_bytes bs = Some w"
  define v where "v = foldl (\<lambda>acc b. acc * 256 + uint b) 0 bs"
  from a have l: "length bs = 16" and w: "w = word_of_int v"
    by (auto simp: from_be_bytes_def v_def split: if_splits)
  have v: "0 \<le> v" "v < 2 ^ 128" using be_value_bound [OF v_def] by (simp_all add: l)
  have "ucast (drop_bit (8 * i) w) = (word_of_int (v div 256 ^ i) :: u8)" for i
  proof -
    have t: "take_bit 128 v = v" using v by (simp add: take_bit_eq_mod)
    then have u: "uint w = v" unfolding w by (simp only: uint_word_of_int_eq len_of_numeral_defs) simp
    with t have "uint (drop_bit (8 * i) w) = v div 2 ^ (8 * i)"
      by (simp add: unsigned_drop_bit_eq drop_bit_eq_div [where 'a = int])
    then have "uint (drop_bit (8 * i) w) = v div 256 ^ i" by (simp only: power_mult) simp
    then show ?thesis by (simp only: ucast_eq)
  qed
  then have "to_be_bytes w = map (\<lambda>i. word_of_int (v div 256 ^ i)) (rev [0 ..< length bs])"
    unfolding to_be_bytes_def l by (intro map_cong refl)
  also have "\<dots> = bs" unfolding v_def by (rule be_digits)
  finally show ?thesis .
qed

section \<open>Parameters\<close>

text \<open>
  The curve operations, in the order the code chains them: decoding uncompressed coordinates
  (\<open>None\<close> when they are not a point), decoding a compressed point (the outer \<open>None\<close> is the
  panic on a malformed encoding), decoding a scalar, the group operations, and the coordinates
  of the uncompressed encoding.
\<close>

datatype coordinates = Uncompressed "u8 list" "u8 list" | Identity | OtherCoordinates

record ('p, 'k) curve =
  cv_decode :: "u8 list \<Rightarrow> u8 list \<Rightarrow> 'p option"
  cv_decompress :: "u8 list \<Rightarrow> 'p option option"
  cv_scalar :: "u8 list \<Rightarrow> 'k option"
  cv_add :: "'p \<Rightarrow> 'p \<Rightarrow> 'p"
  cv_mul :: "'p \<Rightarrow> 'k \<Rightarrow> 'p"
  cv_coordinates :: "'p \<Rightarrow> coordinates"

record ('p, 'k, 'q, 'l) primitives =
  pr_k256 :: "('p, 'k) curve"
  pr_p256 :: "('q, 'l) curve"
  pr_f1600 :: "u64 list \<Rightarrow> u64 list"
  pr_compress256 :: "u32 list \<Rightarrow> u8 list \<Rightarrow> u32 list"
  pr_compress512 :: "u64 list \<Rightarrow> u8 list \<Rightarrow> u64 list"

section \<open>State\<close>

record stub_event =
  ev_keys :: "felt list"
  ev_data :: "felt list"

record contract_logs =
  cl_events :: "stub_event list"
  cl_l2_to_l1_messages :: "(felt \<times> felt list) list"

record stub_syscall_handler =
  storage :: "(u32 \<times> felt, felt) fmap"
  events :: "stub_event list"
  stub_execution_info :: execution_info_v2
  logs :: "(felt, contract_logs) fmap"

definition stub_default :: stub_syscall_handler where
  "stub_default =
    \<lparr>storage = fmempty,
     events = [],
     stub_execution_info =
       \<lparr>ei2_block_info =
          \<lparr>block_number = 0, block_timestamp = 0, sequencer_address = felt_of_int 666\<rparr>,
        ei2_tx_info =
          \<lparr>tx2_version = felt_of_int 1,
           tx2_account_contract_address = felt_of_int 1,
           tx2_max_fee = 0,
           tx2_signature = [felt_of_int 1],
           tx2_transaction_hash = felt_of_int 1,
           tx2_chain_id = felt_of_int 1,
           tx2_nonce = felt_of_int 0,
           tx2_resource_bounds = [],
           tx2_tip = 0,
           tx2_paymaster_data = [],
           tx2_nonce_data_availability_mode = 0,
           tx2_fee_data_availability_mode = 0,
           tx2_account_deployment_data = []\<rparr>,
        ei2_caller_address = felt_of_int 2,
        ei2_contract_address = felt_of_int 3,
        ei2_entry_point_selector = felt_of_int 4\<rparr>,
     logs = fmempty\<rparr>"

section \<open>Storage, events and execution information\<close>

definition stub_get_block_hash :: "u64 \<Rightarrow> (stub_syscall_handler, felt) syscall" where
  "stub_get_block_hash n gas s = Some (Inr (felt_of_int (uint n)), gas, s)"

definition stub_get_execution_info :: "(stub_syscall_handler, execution_info) syscall" where
  "stub_get_execution_info gas s =
    (let info = stub_execution_info s; tx = ei2_tx_info info in
     Some (Inr
       \<lparr>ei_block_info = ei2_block_info info,
        ei_tx_info =
          \<lparr>tx_version = tx2_version tx,
           tx_account_contract_address = tx2_account_contract_address tx,
           tx_max_fee = tx2_max_fee tx,
           tx_signature = tx2_signature tx,
           tx_transaction_hash = tx2_transaction_hash tx,
           tx_chain_id = tx2_chain_id tx,
           tx_nonce = tx2_nonce tx\<rparr>,
        ei_caller_address = ei2_caller_address info,
        ei_contract_address = ei2_contract_address info,
        ei_entry_point_selector = ei2_entry_point_selector info\<rparr>, gas, s))"

definition stub_get_execution_info_v2 :: "(stub_syscall_handler, execution_info_v2) syscall" where
  "stub_get_execution_info_v2 gas s = Some (Inr (stub_execution_info s), gas, s)"

definition stub_storage_read :: "u32 \<Rightarrow> felt \<Rightarrow> (stub_syscall_handler, felt) syscall" where
  "stub_storage_read domain addr gas s =
    (case fmlookup (storage s) (domain, addr) of
      Some v \<Rightarrow> Some (Inr v, gas, s)
    | None \<Rightarrow> Some (Inl [felt_of_text ''address not found''], gas, s))"

definition stub_storage_write :: "u32 \<Rightarrow> felt \<Rightarrow> felt \<Rightarrow> (stub_syscall_handler, unit) syscall" where
  "stub_storage_write domain addr v gas s =
    Some (Inr (), gas, s\<lparr>storage := fmupd (domain, addr) v (storage s)\<rparr>)"

definition stub_emit_event :: "felt list \<Rightarrow> felt list \<Rightarrow> (stub_syscall_handler, unit) syscall" where
  "stub_emit_event keys data gas s =
    Some (Inr (), gas, s\<lparr>events := events s @ [\<lparr>ev_keys = keys, ev_data = data\<rparr>]\<rparr>)"

section \<open>Keccak\<close>

definition KECCAK_ROUND_COST :: u64 where
  "KECCAK_ROUND_COST = 180000"

text \<open>\<open>for (i, val) in chunk.iter().enumerate() { state[i] ^= val; }\<close>\<close>

definition absorb :: "u64 list \<Rightarrow> u64 list \<Rightarrow> u64 list" where
  "absorb st chunk = map (\<lambda>(s, v). s XOR v) (zip st chunk) @ drop (length chunk) st"

fun keccak_rounds ::
  "('p, 'k, 'q, 'l) primitives \<Rightarrow> u64 list \<Rightarrow> nat list \<Rightarrow> u64 list \<Rightarrow> u64 \<Rightarrow> u64 list syscall_result \<times> u64"
where
  "keccak_rounds X input [] st gas = (Inr st, gas)"
| "keccak_rounds X input (i # is) st gas =
    (if gas < KECCAK_ROUND_COST
     then (Inl [felt_of_text ''Syscall out of gas''], gas)
     else keccak_rounds X input is
       (pr_f1600 X (absorb st (take 17 (drop (i * 17) input)))) (gas - KECCAK_ROUND_COST))"

definition stub_keccak ::
  "('p, 'k, 'q, 'l) primitives \<Rightarrow> u64 list \<Rightarrow> (stub_syscall_handler, u256) syscall" where
  "stub_keccak X input gas s =
    (if length input mod 17 \<noteq> 0
     then Some (Inl [felt_of_text ''Invalid keccak input size''], gas, s)
     else
       (case keccak_rounds X input [0 ..< length input div 17] (replicate 25 0) gas of
         (Inl e, gas') \<Rightarrow> Some (Inl e, gas', s)
       | (Inr st, gas') \<Rightarrow>
           do {
             a \<leftarrow> nth_opt st 0;
             b \<leftarrow> nth_opt st 1;
             c \<leftarrow> nth_opt st 2;
             d \<leftarrow> nth_opt st 3;
             Some (Inr \<lparr>u256_lo = (ucast a :: u128) OR push_bit 64 (ucast b),
                        u256_hi = (ucast c :: u128) OR push_bit 64 (ucast d)\<rparr>, gas', s) }))"

section \<open>Elliptic curves\<close>

text \<open>
  The methods for \<open>secp256k1\<close> and \<open>secp256r1\<close> are the same code over two crates, so the
  bodies are stated once over the curve, on plain coordinates, and wrapped into the two point
  types below. The second component of \<open>curve_point\<close> is \<open>None\<close> for the identity, which the
  code returns as \<open>(0, 0)\<close> with the flag set.
\<close>

definition u256_bytes :: "u256 \<Rightarrow> u8 list" where
  "u256_bytes x = to_be_bytes (u256_hi x) @ to_be_bytes (u256_lo x)"

definition u256_of_bytes :: "u8 list \<Rightarrow> u256 option" where
  "u256_of_bytes bs =
    do {
      assert_that (length bs = 32);
      hi \<leftarrow> from_be_bytes (take 16 bs);
      lo \<leftarrow> from_be_bytes (drop 16 bs);
      Some \<lparr>u256_lo = lo, u256_hi = hi\<rparr> }"

definition curve_new :: "('p, 'k) curve \<Rightarrow> u256 \<Rightarrow> u256 \<Rightarrow> (u256 \<times> u256) option" where
  "curve_new C x y =
    (case cv_decode C (u256_bytes x) (u256_bytes y) of Some _ \<Rightarrow> Some (x, y) | None \<Rightarrow> None)"

text \<open>The part after the group operation: outer \<open>None\<close> is a panic.\<close>

definition curve_result :: "('p, 'k) curve \<Rightarrow> 'p \<Rightarrow> (u256 \<times> u256) option option" where
  "curve_result C p =
    (case cv_coordinates C p of
      Uncompressed x y \<Rightarrow>
        do { x' \<leftarrow> u256_of_bytes x; y' \<leftarrow> u256_of_bytes y; Some (Some (x', y')) }
    | Identity \<Rightarrow> Some None
    | OtherCoordinates \<Rightarrow> None)"

definition curve_add ::
  "('p, 'k) curve \<Rightarrow> u256 \<times> u256 \<Rightarrow> u256 \<times> u256 \<Rightarrow> (u256 \<times> u256) option option" where
  "curve_add C p0 p1 =
    do {
      a \<leftarrow> cv_decode C (u256_bytes (fst p0)) (u256_bytes (snd p0));
      b \<leftarrow> cv_decode C (u256_bytes (fst p1)) (u256_bytes (snd p1));
      curve_result C (cv_add C a b) }"

text \<open>\<open>b"\0...\0invalid scalar"\<close>: eighteen zero bytes pad the text to 32.\<close>

definition curve_mul ::
  "('p, 'k) curve \<Rightarrow> u256 \<times> u256 \<Rightarrow> u256 \<Rightarrow> (u256 \<times> u256) option syscall_result option" where
  "curve_mul C p m =
    do {
      a \<leftarrow> cv_decode C (u256_bytes (fst p)) (u256_bytes (snd p));
      (case cv_scalar C (u256_bytes m) of
        None \<Rightarrow> Some (Inl [felt_of_text ''invalid scalar''])
      | Some k \<Rightarrow> do { r \<leftarrow> curve_result C (cv_mul C a k); Some (Inr r) }) }"

definition curve_get_point_from_x ::
  "('p, 'k) curve \<Rightarrow> u256 \<Rightarrow> bool \<Rightarrow> (u256 \<times> u256) option option" where
  "curve_get_point_from_x C x y_parity =
    do {
      point \<leftarrow> cv_decompress C ((2 OR (if y_parity then 1 else 0)) # u256_bytes x);
      (case point of
        None \<Rightarrow> Some None
      | Some p \<Rightarrow>
          (case cv_coordinates C p of
            Uncompressed _ y \<Rightarrow> do { y' \<leftarrow> u256_of_bytes y; Some (Some (x, y')) }
          | _ \<Rightarrow> None)) }"

definition k1_of :: "(u256 \<times> u256) option \<Rightarrow> secp256k1_point" where
  "k1_of r =
    (case r of
      Some (x, y) \<Rightarrow> \<lparr>k1_x = x, k1_y = y, k1_is_infinity = False\<rparr>
    | None \<Rightarrow> \<lparr>k1_x = u256_zero, k1_y = u256_zero, k1_is_infinity = True\<rparr>)"

definition r1_of :: "(u256 \<times> u256) option \<Rightarrow> secp256r1_point" where
  "r1_of r =
    (case r of
      Some (x, y) \<Rightarrow> \<lparr>r1_x = x, r1_y = y, r1_is_infinity = False\<rparr>
    | None \<Rightarrow> \<lparr>r1_x = u256_zero, r1_y = u256_zero, r1_is_infinity = True\<rparr>)"

definition stub_secp256k1_new ::
  "('p, 'k, 'q, 'l) primitives \<Rightarrow> u256 \<Rightarrow> u256 \<Rightarrow> (stub_syscall_handler, secp256k1_point option) syscall"
where
  "stub_secp256k1_new X x y gas s =
    Some (Inr (map_option (\<lambda>p. k1_of (Some p)) (curve_new (pr_k256 X) x y)), gas, s)"

definition stub_secp256k1_add ::
  "('p, 'k, 'q, 'l) primitives \<Rightarrow> secp256k1_point \<Rightarrow> secp256k1_point \<Rightarrow>
    (stub_syscall_handler, secp256k1_point) syscall"
where
  "stub_secp256k1_add X p0 p1 gas s =
    do { r \<leftarrow> curve_add (pr_k256 X) (k1_x p0, k1_y p0) (k1_x p1, k1_y p1); Some (Inr (k1_of r), gas, s) }"

definition stub_secp256k1_mul ::
  "('p, 'k, 'q, 'l) primitives \<Rightarrow> secp256k1_point \<Rightarrow> u256 \<Rightarrow>
    (stub_syscall_handler, secp256k1_point) syscall"
where
  "stub_secp256k1_mul X p m gas s =
    do { r \<leftarrow> curve_mul (pr_k256 X) (k1_x p, k1_y p) m; Some (map_sum id k1_of r, gas, s) }"

definition stub_secp256k1_get_point_from_x ::
  "('p, 'k, 'q, 'l) primitives \<Rightarrow> u256 \<Rightarrow> bool \<Rightarrow> (stub_syscall_handler, secp256k1_point option) syscall"
where
  "stub_secp256k1_get_point_from_x X x y_parity gas s =
    do {
      r \<leftarrow> curve_get_point_from_x (pr_k256 X) x y_parity;
      Some (Inr (map_option (\<lambda>p. k1_of (Some p)) r), gas, s) }"

definition stub_secp256k1_get_xy :: "secp256k1_point \<Rightarrow> (stub_syscall_handler, u256 \<times> u256) syscall" where
  "stub_secp256k1_get_xy p gas s = Some (Inr (k1_x p, k1_y p), gas, s)"

definition stub_secp256r1_new ::
  "('p, 'k, 'q, 'l) primitives \<Rightarrow> u256 \<Rightarrow> u256 \<Rightarrow> (stub_syscall_handler, secp256r1_point option) syscall"
where
  "stub_secp256r1_new X x y gas s =
    Some (Inr (map_option (\<lambda>p. r1_of (Some p)) (curve_new (pr_p256 X) x y)), gas, s)"

definition stub_secp256r1_add ::
  "('p, 'k, 'q, 'l) primitives \<Rightarrow> secp256r1_point \<Rightarrow> secp256r1_point \<Rightarrow>
    (stub_syscall_handler, secp256r1_point) syscall"
where
  "stub_secp256r1_add X p0 p1 gas s =
    do { r \<leftarrow> curve_add (pr_p256 X) (r1_x p0, r1_y p0) (r1_x p1, r1_y p1); Some (Inr (r1_of r), gas, s) }"

definition stub_secp256r1_mul ::
  "('p, 'k, 'q, 'l) primitives \<Rightarrow> secp256r1_point \<Rightarrow> u256 \<Rightarrow>
    (stub_syscall_handler, secp256r1_point) syscall"
where
  "stub_secp256r1_mul X p m gas s =
    do { r \<leftarrow> curve_mul (pr_p256 X) (r1_x p, r1_y p) m; Some (map_sum id r1_of r, gas, s) }"

definition stub_secp256r1_get_point_from_x ::
  "('p, 'k, 'q, 'l) primitives \<Rightarrow> u256 \<Rightarrow> bool \<Rightarrow> (stub_syscall_handler, secp256r1_point option) syscall"
where
  "stub_secp256r1_get_point_from_x X x y_parity gas s =
    do {
      r \<leftarrow> curve_get_point_from_x (pr_p256 X) x y_parity;
      Some (Inr (map_option (\<lambda>p. r1_of (Some p)) r), gas, s) }"

definition stub_secp256r1_get_xy :: "secp256r1_point \<Rightarrow> (stub_syscall_handler, u256 \<times> u256) syscall" where
  "stub_secp256r1_get_xy p gas s = Some (Inr (r1_x p, r1_y p), gas, s)"

section \<open>SHA-2 and the whole handler\<close>

definition stub_sha256_process_block ::
  "('p, 'k, 'q, 'l) primitives \<Rightarrow> u32 list \<Rightarrow> u32 list \<Rightarrow> (stub_syscall_handler, u32 list) syscall" where
  "stub_sha256_process_block X prev_state current_block gas s =
    Some (Inr (pr_compress256 X prev_state (concat (map to_be_bytes32 current_block))), gas, s)"

definition stub_sha512_process_block ::
  "('p, 'k, 'q, 'l) primitives \<Rightarrow> u64 list \<Rightarrow> u64 list \<Rightarrow> (stub_syscall_handler, u64 list) syscall" where
  "stub_sha512_process_block X prev_state current_block gas s =
    Some (Inr (pr_compress512 X prev_state (concat (map to_be_bytes64 current_block))), gas, s)"

definition stub_handler ::
  "('p, 'k, 'q, 'l) primitives \<Rightarrow> stub_syscall_handler syscall_handler" where
  "stub_handler X =
    \<lparr>get_block_hash = stub_get_block_hash,
     get_execution_info = stub_get_execution_info,
     get_execution_info_v2 = stub_get_execution_info_v2,
     get_execution_info_v3 = (\<lambda>gas s. None),
     deploy = (\<lambda>class_hash salt calldata from_zero gas s. None),
     replace_class = (\<lambda>class_hash gas s. None),
     library_call = (\<lambda>class_hash sel calldata gas s. None),
     call_contract = (\<lambda>address sel calldata gas s. None),
     storage_read = stub_storage_read,
     storage_write = stub_storage_write,
     emit_event = stub_emit_event,
     send_message_to_l1 = (\<lambda>address payload gas s. None),
     keccak = stub_keccak X,
     secp256k1_new = stub_secp256k1_new X,
     secp256k1_add = stub_secp256k1_add X,
     secp256k1_mul = stub_secp256k1_mul X,
     secp256k1_get_point_from_x = stub_secp256k1_get_point_from_x X,
     secp256k1_get_xy = stub_secp256k1_get_xy,
     secp256r1_new = stub_secp256r1_new X,
     secp256r1_add = stub_secp256r1_add X,
     secp256r1_mul = stub_secp256r1_mul X,
     secp256r1_get_point_from_x = stub_secp256r1_get_point_from_x X,
     secp256r1_get_xy = stub_secp256r1_get_xy,
     sha256_process_block = stub_sha256_process_block X,
     sha512_process_block = stub_sha512_process_block X,
     get_class_hash_at = (\<lambda>address gas s. None),
     meta_tx_v0 = (\<lambda>address sel calldata signature gas s. None)\<rparr>"

section \<open>The storage as a keyed store\<close>

lemma stub_handler_sel [simp]:
  "storage_read (stub_handler X) = stub_storage_read"
  "storage_write (stub_handler X) = stub_storage_write"
  "emit_event (stub_handler X) = stub_emit_event"
  "keccak (stub_handler X) = stub_keccak X"
  "get_execution_info (stub_handler X) = stub_get_execution_info"
  "get_execution_info_v2 (stub_handler X) = stub_get_execution_info_v2"
  "secp256k1_new (stub_handler X) = stub_secp256k1_new X"
  "secp256k1_add (stub_handler X) = stub_secp256k1_add X"
  "secp256k1_mul (stub_handler X) = stub_secp256k1_mul X"
  "secp256k1_get_xy (stub_handler X) = stub_secp256k1_get_xy"
  by (simp_all add: stub_handler_def)

definition read_result :: "stub_syscall_handler \<Rightarrow> u32 \<times> felt \<Rightarrow> felt syscall_result" where
  "read_result s k = (case stub_storage_read (fst k) (snd k) 0 s of Some (r, _) \<Rightarrow> r | None \<Rightarrow> Inl [])"

definition written :: "stub_syscall_handler \<Rightarrow> u32 \<times> felt \<Rightarrow> felt \<Rightarrow> stub_syscall_handler" where
  "written s k v = (case stub_storage_write (fst k) (snd k) v 0 s of Some (_, _, s') \<Rightarrow> s' | None \<Rightarrow> s)"

lemma stub_storage_read_result: "stub_storage_read d k gas s = Some (read_result s (d, k), gas, s)"
  by (simp add: read_result_def stub_storage_read_def split: option.split)

lemma stub_storage_write_written: "stub_storage_write d k v gas s = Some (Inr (), gas, written s (d, k) v)"
  by (simp add: written_def stub_storage_write_def)

lemma read_result_eq:
  "read_result s k =
    (case fmlookup (storage s) k of Some v \<Rightarrow> Inr v | None \<Rightarrow> Inl [felt_of_text ''address not found''])"
  by (simp add: read_result_def stub_storage_read_def split: option.split)

lemma storage_written [simp]: "storage (written s k v) = fmupd k v (storage s)"
  by (simp add: written_def stub_storage_write_def)

interpretation stub_store: keyed_store read_result written Inr
  by unfold_locales (simp add: read_result_eq)

lemma written_frame [simp]:
  "events (written s k v) = events s"
  "stub_execution_info (written s k v) = stub_execution_info s"
  "logs (written s k v) = logs s"
  by (simp_all add: written_def stub_storage_write_def)

section \<open>Keccak is a sponge, paid by the block\<close>

text \<open>
  Reference: the sponge absorbs the 17-word blocks of the input one after the other into a
  state of 25 zero words, permuting after each.
\<close>

fun blocks :: "nat \<Rightarrow> 'a list \<Rightarrow> 'a list list" where
  "blocks 0 xs = []"
| "blocks (Suc n) xs = take 17 xs # blocks n (drop 17 xs)"

definition sponge :: "('p, 'k, 'q, 'l) primitives \<Rightarrow> u64 list \<Rightarrow> u64 list list \<Rightarrow> u64 list" where
  "sponge X st bs = foldl (\<lambda>st b. pr_f1600 X (absorb st b)) st bs"

lemma keccak_rounds_ok:
  "of_nat n * (180000 :: int) \<le> uint gas \<Longrightarrow>
    \<exists>g. keccak_rounds X input [k ..< k + n] st gas = (Inr (sponge X st (blocks n (drop (k * 17) input))), g) \<and>
      uint g = uint gas - of_nat n * 180000"
proof (induction n arbitrary: k st gas)
  case 0
  then show ?case by (simp add: sponge_def)
next
  case (Suc n)
  have le: "KECCAK_ROUND_COST \<le> gas"
    using Suc.prems by (simp add: KECCAK_ROUND_COST_def word_le_def)
  then have g: "uint (gas - KECCAK_ROUND_COST) = uint gas - 180000"
    by (simp add: uint_minus_le KECCAK_ROUND_COST_def)
  have cons: "[k ..< k + Suc n] = k # [Suc k ..< Suc k + n]" by (simp add: upt_rec)
  obtain g' where "keccak_rounds X input [Suc k ..< Suc k + n]
      (pr_f1600 X (absorb st (take 17 (drop (k * 17) input)))) (gas - KECCAK_ROUND_COST) =
      (Inr (sponge X (pr_f1600 X (absorb st (take 17 (drop (k * 17) input))))
        (blocks n (drop (Suc k * 17) input))), g')"
    "uint g' = uint (gas - KECCAK_ROUND_COST) - of_nat n * 180000"
    using Suc.IH [of "gas - KECCAK_ROUND_COST" "Suc k"] Suc.prems g by auto
  then show ?case
    unfolding cons using le g by (simp add: not_less sponge_def drop_drop algebra_simps)
qed

lemma keccak_rounds_out_of_gas:
  "uint gas < of_nat n * (180000 :: int) \<Longrightarrow>
    \<exists>g. keccak_rounds X input [k ..< k + n] st gas = (Inl [felt_of_text ''Syscall out of gas''], g) \<and>
      uint g = uint gas mod 180000"
proof (induction n arbitrary: k st gas)
  case 0
  then show ?case using uint_ge_0 [of gas] by (simp add: not_less)
next
  case (Suc n)
  have cons: "[k ..< k + Suc n] = k # [Suc k ..< Suc k + n]" by (simp add: upt_rec)
  show ?case
  proof (cases "gas < KECCAK_ROUND_COST")
    case True
    then have "uint gas mod 180000 = uint gas"
      by (simp add: KECCAK_ROUND_COST_def word_less_def)
    with True show ?thesis unfolding cons by simp
  next
    case False
    then have g: "uint (gas - KECCAK_ROUND_COST) = uint gas - 180000" "180000 \<le> uint gas"
      by (simp_all add: uint_minus_le not_less KECCAK_ROUND_COST_def word_le_def)
    moreover have "(uint gas - 180000) mod 180000 = uint gas mod 180000"
      by (simp add: mod_diff_right_eq)
    ultimately show ?thesis
      unfolding cons using False Suc.IH [of "gas - KECCAK_ROUND_COST" "Suc k"] Suc.prems
      by simp
  qed
qed

section \<open>Curve points\<close>

text \<open>
  Documented behaviour of the curve crates: the coordinates of a point that is not the
  identity are 32 bytes each and decode to the point again, the encoding asked for is never a
  compressed one, and \<open>(0, 0)\<close> is not on the curve.
\<close>

definition curve_crate_ok :: "('p, 'k) curve \<Rightarrow> bool" where
  "curve_crate_ok C \<longleftrightarrow>
    (\<forall>p x y. cv_coordinates C p = Uncompressed x y \<longrightarrow>
      length x = 32 \<and> length y = 32 \<and> cv_decode C x y = Some p) \<and>
    (\<forall>p. cv_coordinates C p \<noteq> OtherCoordinates) \<and>
    cv_decode C (replicate 32 0) (replicate 32 0) = None"

lemma u256_of_bytes_Some:
  assumes "length bs = 32"
  obtains x where "u256_of_bytes bs = Some x" "u256_bytes x = bs"
proof -
  obtain hi where hi: "from_be_bytes (take 16 bs) = Some hi"
    using assms by (simp add: from_be_bytes_def)
  obtain lo where lo: "from_be_bytes (drop 16 bs) = Some lo"
    using assms by (simp add: from_be_bytes_def)
  have "u256_bytes \<lparr>u256_lo = lo, u256_hi = hi\<rparr> = bs"
    using to_from_be_bytes [OF hi] to_from_be_bytes [OF lo] by (simp add: u256_bytes_def)
  with hi lo assms that show ?thesis by (simp add: u256_of_bytes_def)
qed

lemma u256_of_to_bytes [simp]: "u256_of_bytes (u256_bytes x) = Some x"
  by (simp add: u256_of_bytes_def u256_bytes_def)

lemma u256_bytes_zero: "u256_bytes u256_zero = replicate 32 0"
proof -
  have "to_be_bytes 0 = replicate 16 0"
    by (simp add: to_be_bytes_def map_replicate_const)
  then show ?thesis by (simp add: u256_bytes_def u256_zero_def flip: replicate_add)
qed

definition on_secp :: "('p, 'k) curve \<Rightarrow> u256 \<times> u256 \<Rightarrow> bool" where
  "on_secp C p \<longleftrightarrow> curve_new C (fst p) (snd p) = Some p"

lemma on_secp_iff: "on_secp C (x, y) \<longleftrightarrow> cv_decode C (u256_bytes x) (u256_bytes y) \<noteq> None"
  by (auto simp: on_secp_def curve_new_def split: option.splits)

lemma zero_not_on_secp: "curve_crate_ok C \<Longrightarrow> \<not> on_secp C (u256_zero, u256_zero)"
  by (simp add: on_secp_iff u256_bytes_zero curve_crate_ok_def)

lemma curve_result_closed:
  assumes "curve_crate_ok C"
  shows "\<exists>r. curve_result C p = Some r \<and> (\<forall>q. r = Some q \<longrightarrow> on_secp C q)"
proof (cases "cv_coordinates C p")
  case (Uncompressed x y)
  then have l: "length x = 32" "length y = 32" "cv_decode C x y = Some p"
    using assms by (auto simp: curve_crate_ok_def)
  from l(1) obtain x' where x: "u256_of_bytes x = Some x'" "u256_bytes x' = x" by (rule u256_of_bytes_Some)
  from l(2) obtain y' where y: "u256_of_bytes y = Some y'" "u256_bytes y' = y" by (rule u256_of_bytes_Some)
  from x y l(3) Uncompressed show ?thesis by (simp add: curve_result_def on_secp_iff)
qed (use assms in \<open>auto simp: curve_result_def curve_crate_ok_def\<close>)

lemma curve_add_closed:
  assumes "curve_crate_ok C" "on_secp C p" "on_secp C q"
  shows "\<exists>r. curve_add C p q = Some r \<and> (\<forall>q. r = Some q \<longrightarrow> on_secp C q)"
  using assms curve_result_closed [OF assms(1)]
  by (cases p, cases q, auto simp: on_secp_iff curve_add_def)

lemma curve_mul_closed:
  assumes "curve_crate_ok C" "on_secp C p"
  shows "\<exists>r. curve_mul C p m = Some r \<and>
    (\<forall>e. r = Inl e \<longrightarrow> e = [felt_of_text ''invalid scalar'']) \<and>
    (\<forall>q. r = Inr (Some q) \<longrightarrow> on_secp C q)"
proof -
  obtain a where a: "cv_decode C (u256_bytes (fst p)) (u256_bytes (snd p)) = Some a"
    using assms(2) by (cases p, auto simp: on_secp_iff)
  show ?thesis
  proof (cases "cv_scalar C (u256_bytes m)")
    case (Some k)
    obtain r where "curve_result C (cv_mul C a k) = Some r" "\<forall>q. r = Some q \<longrightarrow> on_secp C q"
      using curve_result_closed [OF assms(1)] by blast
    with a Some show ?thesis by (simp add: curve_mul_def)
  qed (simp add: curve_mul_def a)
qed

text \<open>A point of either type that the handler may hold: the identity or a point of the curve.\<close>

definition k1_finite :: "('p, 'k, 'q, 'l) primitives \<Rightarrow> secp256k1_point \<Rightarrow> bool" where
  "k1_finite X p \<longleftrightarrow> \<not> k1_is_infinity p \<and> on_secp (pr_k256 X) (k1_x p, k1_y p)"

definition r1_finite :: "('p, 'k, 'q, 'l) primitives \<Rightarrow> secp256r1_point \<Rightarrow> bool" where
  "r1_finite X p \<longleftrightarrow> \<not> r1_is_infinity p \<and> on_secp (pr_p256 X) (r1_x p, r1_y p)"

lemma k1_of_closed: "(\<forall>q. r = Some q \<longrightarrow> on_secp (pr_k256 X) q) \<Longrightarrow> k1_of r = k1_of None \<or> k1_finite X (k1_of r)"
  by (cases r) (auto simp: k1_of_def k1_finite_def)

lemma r1_of_closed: "(\<forall>q. r = Some q \<longrightarrow> on_secp (pr_p256 X) q) \<Longrightarrow> r1_of r = r1_of None \<or> r1_finite X (r1_of r)"
  by (cases r) (auto simp: r1_of_def r1_finite_def)

lemma stub_secp_closed_parts:
  assumes "curve_crate_ok (pr_k256 X)" "curve_crate_ok (pr_p256 X)"
    and "k1_finite X p" "k1_finite X q" "r1_finite X u" "r1_finite X v"
  shows "\<exists>r. stub_secp256k1_add X p q gas s = Some (Inr r, gas, s) \<and> (r = k1_of None \<or> k1_finite X r)"
    and "\<exists>r. stub_secp256k1_mul X p m gas s = Some (r, gas, s) \<and>
      (case r of Inl e \<Rightarrow> e = [felt_of_text ''invalid scalar''] | Inr r \<Rightarrow> r = k1_of None \<or> k1_finite X r)"
    and "\<exists>r. stub_secp256r1_add X u v gas s = Some (Inr r, gas, s) \<and> (r = r1_of None \<or> r1_finite X r)"
    and "\<exists>r. stub_secp256r1_mul X u m gas s = Some (r, gas, s) \<and>
      (case r of Inl e \<Rightarrow> e = [felt_of_text ''invalid scalar''] | Inr r \<Rightarrow> r = r1_of None \<or> r1_finite X r)"
    and "stub_secp256k1_new X x y gas s =
      Some (Inr (if on_secp (pr_k256 X) (x, y) then Some (k1_of (Some (x, y))) else None), gas, s)"
proof -
  have k: "on_secp (pr_k256 X) (k1_x p, k1_y p)" "on_secp (pr_k256 X) (k1_x q, k1_y q)"
    and r: "on_secp (pr_p256 X) (r1_x u, r1_y u)" "on_secp (pr_p256 X) (r1_x v, r1_y v)"
    using assms(3-6) by (simp_all add: k1_finite_def r1_finite_def)
  show "\<exists>r. stub_secp256k1_add X p q gas s = Some (Inr r, gas, s) \<and> (r = k1_of None \<or> k1_finite X r)"
  proof -
    obtain t where t: "curve_add (pr_k256 X) (k1_x p, k1_y p) (k1_x q, k1_y q) = Some t"
      "\<forall>q. t = Some q \<longrightarrow> on_secp (pr_k256 X) q"
      using curve_add_closed [OF assms(1) k] by blast
    from t(1) k1_of_closed [OF t(2)] show ?thesis by (simp add: stub_secp256k1_add_def)
  qed
  show "\<exists>r. stub_secp256r1_add X u v gas s = Some (Inr r, gas, s) \<and> (r = r1_of None \<or> r1_finite X r)"
  proof -
    obtain t where t: "curve_add (pr_p256 X) (r1_x u, r1_y u) (r1_x v, r1_y v) = Some t"
      "\<forall>q. t = Some q \<longrightarrow> on_secp (pr_p256 X) q"
      using curve_add_closed [OF assms(2) r] by blast
    from t(1) r1_of_closed [OF t(2)] show ?thesis by (simp add: stub_secp256r1_add_def)
  qed
  obtain a where a: "curve_mul (pr_k256 X) (k1_x p, k1_y p) m = Some a"
    "\<forall>e. a = Inl e \<longrightarrow> e = [felt_of_text ''invalid scalar'']"
    "\<forall>q. a = Inr (Some q) \<longrightarrow> on_secp (pr_k256 X) q"
    using curve_mul_closed [OF assms(1) k(1)] by blast
  then show "\<exists>r. stub_secp256k1_mul X p m gas s = Some (r, gas, s) \<and>
      (case r of Inl e \<Rightarrow> e = [felt_of_text ''invalid scalar''] | Inr r \<Rightarrow> r = k1_of None \<or> k1_finite X r)"
    using k1_of_closed by (cases a) (auto simp: stub_secp256k1_mul_def)
  obtain b where b: "curve_mul (pr_p256 X) (r1_x u, r1_y u) m = Some b"
    "\<forall>e. b = Inl e \<longrightarrow> e = [felt_of_text ''invalid scalar'']"
    "\<forall>q. b = Inr (Some q) \<longrightarrow> on_secp (pr_p256 X) q"
    using curve_mul_closed [OF assms(2) r(1)] by blast
  then show "\<exists>r. stub_secp256r1_mul X u m gas s = Some (r, gas, s) \<and>
      (case r of Inl e \<Rightarrow> e = [felt_of_text ''invalid scalar''] | Inr r \<Rightarrow> r = r1_of None \<or> r1_finite X r)"
    using r1_of_closed by (cases b) (auto simp: stub_secp256r1_mul_def)
  show "stub_secp256k1_new X x y gas s =
      Some (Inr (if on_secp (pr_k256 X) (x, y) then Some (k1_of (Some (x, y))) else None), gas, s)"
    by (auto simp: stub_secp256k1_new_def on_secp_def curve_new_def split: option.splits)
qed

lemma stub_secp_identity_panics_parts:
  assumes "curve_crate_ok (pr_k256 X)" "curve_crate_ok (pr_p256 X)"
  shows "stub_secp256k1_add X (k1_of None) p gas s = None"
    and "stub_secp256k1_add X p (k1_of None) gas s = None"
    and "stub_secp256k1_mul X (k1_of None) m gas s = None"
    and "stub_secp256r1_add X (r1_of None) u gas s = None"
    and "stub_secp256r1_add X u (r1_of None) gas s = None"
    and "stub_secp256r1_mul X (r1_of None) m gas s = None"
  using zero_not_on_secp [OF assms(1)] zero_not_on_secp [OF assms(2)]
  by (simp_all add: on_secp_iff curve_add_def curve_mul_def k1_of_def r1_of_def
      stub_secp256k1_add_def stub_secp256k1_mul_def stub_secp256r1_add_def stub_secp256r1_mul_def
      Option.bind_eq_None_conv)

text \<open>An instance of the parameters for the witnesses.\<close>

definition toy_curve :: "((u8 list \<times> u8 list) option, u8 list) curve" where
  "toy_curve =
    \<lparr>cv_decode = (\<lambda>x y. if length x = 32 \<and> length y = 32 \<and> x \<noteq> replicate 32 0
        then Some (Some (x, y)) else None),
     cv_decompress = (\<lambda>bs. None),
     cv_scalar = (\<lambda>bs. Some bs),
     cv_add = (\<lambda>p q. if p = q then None else p),
     cv_mul = (\<lambda>p k. p),
     cv_coordinates = (\<lambda>p. case p of
         Some (x, y) \<Rightarrow> if length x = 32 \<and> length y = 32 \<and> x \<noteq> replicate 32 0
           then Uncompressed x y else Identity
       | None \<Rightarrow> Identity)\<rparr>"

definition toy_primitives ::
  "((u8 list \<times> u8 list) option, u8 list, (u8 list \<times> u8 list) option, u8 list) primitives" where
  "toy_primitives =
    \<lparr>pr_k256 = toy_curve, pr_p256 = toy_curve, pr_f1600 = rev,
     pr_compress256 = (\<lambda>st bs. rev st), pr_compress512 = (\<lambda>st bs. rev st)\<rparr>"

lemma toy_curve_ok: "curve_crate_ok toy_curve"
  by (auto simp: curve_crate_ok_def toy_curve_def split: option.splits if_splits)

lemma toy_primitives_sel [simp]:
  "pr_k256 toy_primitives = toy_curve" "pr_p256 toy_primitives = toy_curve"
  "pr_f1600 toy_primitives = rev"
  by (simp_all add: toy_primitives_def)

definition one_point :: "u256 \<times> u256" where
  "one_point = (\<lparr>u256_lo = 1, u256_hi = 0\<rparr>, \<lparr>u256_lo = 2, u256_hi = 0\<rparr>)"

lemma one_point_on: "on_secp toy_curve one_point"
proof -
  have "u256_bytes \<lparr>u256_lo = 1, u256_hi = 0\<rparr> \<noteq> u256_bytes u256_zero"
    by (metis u256_of_to_bytes option.inject u256_zero_def u256.ext_inject one_neq_zero)
  then show ?thesis
    unfolding one_point_def on_secp_iff u256_bytes_zero
    by (simp add: toy_curve_def u256_bytes_def)
qed

text \<open>
  On points of the curve the handler's arithmetic is closed and does not panic: a sum is
  a point of the curve again or the identity, a product likewise unless the scalar is
  refused, which is an error result; creating a point accepts exactly the points of the curve.
  Both curves are covered.
\<close>
theorem stub_secp_closed:
  assumes "curve_crate_ok (pr_k256 X)" "curve_crate_ok (pr_p256 X)"
    and "k1_finite X p" "k1_finite X q" "r1_finite X u" "r1_finite X v"
  shows "(\<exists>r. stub_secp256k1_add X p q gas s = Some (Inr r, gas, s) \<and> (r = k1_of None \<or> k1_finite X r)) \<and>
    (\<exists>r. stub_secp256k1_mul X p m gas s = Some (r, gas, s) \<and>
      (case r of Inl e \<Rightarrow> e = [felt_of_text ''invalid scalar''] | Inr r \<Rightarrow> r = k1_of None \<or> k1_finite X r)) \<and>
    (\<exists>r. stub_secp256r1_add X u v gas s = Some (Inr r, gas, s) \<and> (r = r1_of None \<or> r1_finite X r)) \<and>
    (\<exists>r. stub_secp256r1_mul X u m gas s = Some (r, gas, s) \<and>
      (case r of Inl e \<Rightarrow> e = [felt_of_text ''invalid scalar''] | Inr r \<Rightarrow> r = r1_of None \<or> r1_finite X r)) \<and>
    (stub_secp256k1_new X x y gas s =
      Some (Inr (if on_secp (pr_k256 X) (x, y) then Some (k1_of (Some (x, y))) else None), gas, s))"
  using stub_secp_closed_parts [OF assms] by blast

lemma stub_secp_closed_witness:
  "\<exists>r. stub_secp256k1_add toy_primitives (k1_of (Some one_point)) (k1_of (Some one_point)) 5 stub_default =
      Some (Inr r, 5, stub_default) \<and> (r = k1_of None \<or> k1_finite toy_primitives r)"
  using one_point_on toy_curve_ok
  by (intro stub_secp_closed [where u = "r1_of (Some one_point)" and v = "r1_of (Some one_point)", THEN conjunct1])
    (simp_all add: k1_finite_def r1_finite_def k1_of_def r1_of_def one_point_def)

text \<open>
  C38: The identity, which the handler's own additions return, cannot be used again: adding it
  on either side and multiplying it panic, because its encoding \<open>(0, 0)\<close> does not decode.
\<close>
theorem stub_secp_identity_panics:
  assumes "curve_crate_ok (pr_k256 X)" "curve_crate_ok (pr_p256 X)"
  shows "(stub_secp256k1_add X (k1_of None) p gas s = None) \<and>
    (stub_secp256k1_add X p (k1_of None) gas s = None) \<and>
    (stub_secp256k1_mul X (k1_of None) m gas s = None) \<and>
    (stub_secp256r1_add X (r1_of None) u gas s = None) \<and>
    (stub_secp256r1_add X u (r1_of None) gas s = None) \<and>
    (stub_secp256r1_mul X (r1_of None) m gas s = None)"
  using stub_secp_identity_panics_parts [OF assms] by blast

lemma stub_secp_identity_panics_witness:
  "stub_secp256k1_add toy_primitives (k1_of (Some one_point)) (k1_of None) 5 stub_default = None"
  using toy_curve_ok by (intro stub_secp_identity_panics [THEN conjunct2, THEN conjunct1]) simp_all

end
