(* ===== verification/NativeLayout.thy ===== *)
theory NativeLayout
  imports Sierra "HOL-Library.Word"
begin

text \<open>
  The memory layout of Sierra types in the native compiler: \<open>src/types.rs\<close> (the methods of
  \<open>TypeBuilder\<close> that look at a type only), \<open>src/types/enum.rs\<close>, \<open>src/types/circuit.rs\<close>, the layout
  functions of \<open>src/utils.rs\<close> and the compact integers of \<open>src/utils/range_ext.rs\<close>. The target
  has 64-bit pointers and \<open>u128\<close> aligned to 16.

  A \<open>Result\<close> of the crate is \<open>res\<close>: a value, one of the crate's errors, or a panic (which
  includes recursion past the stack, the fuel of the walks over types, see \<open>rec_limit\<close>).
\<close>

unbundle bit_operations_syntax

section \<open>Results\<close>

datatype native_error =
    LayoutError | RegistryError | NativeAssertion | IntegerLikeTypeExpected | UnexpectedValue
  | IntegerConversion | BoundedIntOutOfRange int int int

datatype 'a res = Ok 'a | Err native_error | Panic

fun and_then :: "'a res \<Rightarrow> ('a \<Rightarrow> 'b res) \<Rightarrow> 'b res" where
  "and_then (Ok a) f = f a"
| "and_then (Err e) f = Err e"
| "and_then Panic f = Panic"

lemma and_then_Ok [simp]: "and_then r f = Ok b \<longleftrightarrow> (\<exists>a. r = Ok a \<and> f a = Ok b)"
  by (cases r) simp_all

lemma and_then_cong [fundef_cong]:
  "r = r' \<Longrightarrow> (\<And>a. r' = Ok a \<Longrightarrow> f a = g a) \<Longrightarrow> and_then r f = and_then r' g"
  by (cases r') simp_all

fun try_fold :: "('a \<Rightarrow> 'b \<Rightarrow> 'a res) \<Rightarrow> 'a \<Rightarrow> 'b list \<Rightarrow> 'a res" where
  "try_fold f a [] = Ok a"
| "try_fold f a (x # xs) = and_then (f a x) (\<lambda>a. try_fold f a xs)"

fun map_res :: "('a \<Rightarrow> 'b res) \<Rightarrow> 'a list \<Rightarrow> 'b list res" where
  "map_res f [] = Ok []"
| "map_res f (x # xs) = and_then (f x) (\<lambda>y. and_then (map_res f xs) (\<lambda>ys. Ok (y # ys)))"

lemma map_res_Ok: "map_res f xs = Ok ys \<longleftrightarrow> list_all2 (\<lambda>x y. f x = Ok y) xs ys"
  by (induction xs arbitrary: ys) (auto simp: list_all2_Cons1)

definition ok_or :: "native_error \<Rightarrow> 'a option \<Rightarrow> 'a res" where
  "ok_or e x = (case x of Some a \<Rightarrow> Ok a | None \<Rightarrow> Err e)"

lemma ok_or_Ok [simp]: "ok_or e x = Ok a \<longleftrightarrow> x = Some a"
  by (simp add: ok_or_def split: option.splits)

section \<open>Layouts\<close>

text \<open>\<open>std::alloc::Layout\<close>: a size and an alignment, in bytes.\<close>

record layout =
  lsize :: nat
  lalign :: nat

definition pow2 :: "nat \<Rightarrow> bool" where
  "pow2 a \<longleftrightarrow> list_ex (\<lambda>k. a = 2 ^ k) [0 ..< 64]"

text \<open>The size rounded up to the alignment must not exceed \<open>isize::MAX\<close>.\<close>

definition from_size_align :: "nat \<Rightarrow> nat \<Rightarrow> layout res" where
  "from_size_align s a =
    (if pow2 a \<and> s + a \<le> 2 ^ 63 then Ok \<lparr>lsize = s, lalign = a\<rparr> else Err LayoutError)"

definition round_up :: "nat \<Rightarrow> nat \<Rightarrow> nat" where
  "round_up s a = (s + (a - 1)) div a * a"

definition pad_to_align :: "layout \<Rightarrow> layout" where
  "pad_to_align L = L\<lparr>lsize := round_up (lsize L) (lalign L)\<rparr>"

definition layout_extend :: "layout \<Rightarrow> layout \<Rightarrow> (layout \<times> nat) res" where
  "layout_extend L M =
    (let off = round_up (lsize L) (lalign M) in
     and_then (from_size_align (off + lsize M) (max (lalign L) (lalign M))) (\<lambda>N. Ok (N, off)))"

definition unit_layout :: layout where "unit_layout = \<lparr>lsize = 0, lalign = 1\<rparr>"
definition ptr_layout :: layout where "ptr_layout = \<lparr>lsize = 8, lalign = 8\<rparr>"
definition u64_layout :: layout where "u64_layout = \<lparr>lsize = 8, lalign = 8\<rparr>"

text \<open>\<open>bits\<close> of a big number, and \<open>next_power_of_two\<close> with its \<open>trailing_zeros\<close>.\<close>

fun bits :: "nat \<Rightarrow> nat" where
  "bits n = (if n = 0 then 0 else Suc (bits (n div 2)))"

declare bits.simps [simp del]

definition next_power_of_two :: "nat \<Rightarrow> nat" where
  "next_power_of_two n = 2 ^ bits (n - 1)"

definition tag_bits :: "'a list \<Rightarrow> nat" where
  "tag_bits variants = bits (length variants - 1)"

definition get_integer_layout :: "nat \<Rightarrow> layout" where
  "get_integer_layout width =
    (if width = 0 then unit_layout
     else if width \<le> 8 then \<lparr>lsize = 1, lalign = 1\<rparr>
     else if width \<le> 16 then \<lparr>lsize = 2, lalign = 2\<rparr>
     else if width \<le> 32 then \<lparr>lsize = 4, lalign = 4\<rparr>
     else if width \<le> 64 then \<lparr>lsize = 8, lalign = 8\<rparr>
     else if width \<le> 128 then \<lparr>lsize = 16, lalign = 16\<rparr>
     else \<lparr>lsize = (width + 7) div 8 * 8 div 8, lalign = 16\<rparr>)"

definition padding_needed_for :: "layout \<Rightarrow> u64 \<Rightarrow> u64" where
  "padding_needed_for L align =
    (let len = of_nat (lsize L); len_rounded_up = (len + align - 1) AND NOT (align - 1)
     in len_rounded_up - len)"

definition layout_repeat :: "layout \<Rightarrow> nat \<Rightarrow> (layout \<times> nat) res" where
  "layout_repeat L n =
    (let padded = lsize L + unat (padding_needed_for L (of_nat (lalign L))) in
     if padded * n < 2 ^ 64
     then and_then (from_size_align (padded * n) (lalign L)) (\<lambda>M. Ok (M, padded))
     else Err LayoutError)"

section \<open>Compact integers\<close>

definition range_size :: "int_range_t \<Rightarrow> int" where
  "range_size r = rng_upper r - rng_lower r"

definition big_bits :: "int \<Rightarrow> nat" where
  "big_bits i = bits (nat \<bar>i\<bar>)"

definition zero_based_bit_width :: "int_range_t \<Rightarrow> nat" where
  "zero_based_bit_width r =
    (let width =
      (if rng_lower r < 0
       then let lower_width = big_bits (\<bar>rng_lower r\<bar> - 1) + 1;
                upper = rng_upper r - 1;
                upper_width =
                  (if upper < 0 then big_bits (\<bar>upper\<bar> - 1) + 1
                   else if upper = 0 then 0 else big_bits upper + 1)
            in max lower_width upper_width
       else big_bits (rng_upper r - 1))
     in max (width mod 2 ^ 32) 1)"

definition repr_bit_width :: "int_range_t \<Rightarrow> nat" where
  "repr_bit_width r = max (big_bits (range_size r - 1) mod 2 ^ 32) 1"

text \<open>\<open>to_bytes_le\<close> of a big number, zero taking one byte, and \<open>Vec::resize\<close> with zeros.\<close>

fun to_bytes_le :: "nat \<Rightarrow> u8 list" where
  "to_bytes_le n = (if n < 256 then [of_nat n] else of_nat (n mod 256) # to_bytes_le (n div 256))"

declare to_bytes_le.simps [simp del]

definition resize :: "nat \<Rightarrow> u8 list \<Rightarrow> u8 list" where
  "resize n bs = take n bs @ replicate (n - length bs) 0"

definition from_bytes_le :: "u8 list \<Rightarrow> nat" where
  "from_bytes_le bs = foldr (\<lambda>b acc. unat b + 256 * acc) bs 0"

definition repr_encode :: "int_range_t \<Rightarrow> int \<Rightarrow> u8 list option" where
  "repr_encode r v =
    (let stored = (v - rng_lower r) mod PRIME in
     if range_size r \<le> stored then None
     else Some (resize (lsize (get_integer_layout (repr_bit_width r))) (to_bytes_le (nat stored))))"

definition repr_decode :: "int_range_t \<Rightarrow> nat \<Rightarrow> int" where
  "repr_decode r raw = (int raw AND (2 ^ repr_bit_width r - 1)) + rng_lower r"

section \<open>Walks over types\<close>

datatype target_arch = X86_64 | Aarch64

definition registry_get :: "registry \<Rightarrow> type_id \<Rightarrow> core_type res" where
  "registry_get R t = ok_or RegistryError (get_type R t)"

lemma registry_get_Ok [simp]: "registry_get R t = Ok ty \<longleftrightarrow> get_type R t = Some ty"
  by (simp add: registry_get_def)

definition EC_POINT_FELTS :: nat where "EC_POINT_FELTS = 2"
definition EC_STATE_FELTS :: nat where "EC_STATE_FELTS = 3"

definition circuit_layout :: "circuit_type \<Rightarrow> layout res" where
  "circuit_layout ct =
    (case ct of
      AddModCT \<Rightarrow> Ok (get_integer_layout 64)
    | MulModCT \<Rightarrow> Ok (get_integer_layout 64)
    | CircuitModulusCT \<Rightarrow> Ok (get_integer_layout 384)
    | U96GuaranteeCT \<Rightarrow> Ok (get_integer_layout 96)
    | AddModGateCT \<Rightarrow> Ok unit_layout
    | SubModGateCT \<Rightarrow> Ok unit_layout
    | MulModGateCT \<Rightarrow> Ok unit_layout
    | CircuitInputCT \<Rightarrow> Ok unit_layout
    | InverseGateCT \<Rightarrow> Ok unit_layout
    | CircuitCT _ \<Rightarrow> Ok unit_layout
    | CircuitDescriptorCT \<Rightarrow> Ok unit_layout
    | U96LimbsLessThanGuaranteeCT limb_count \<Rightarrow>
        and_then (layout_repeat (get_integer_layout 96) (2 * limb_count)) (\<lambda>(L, _). Ok L)
    | CircuitFailureGuaranteeCT \<Rightarrow>
        and_then (layout_repeat (get_integer_layout 96) 8) (\<lambda>(L, _). Ok L)
    | CircuitDataCT \<Rightarrow> Ok ptr_layout
    | CircuitOutputsCT \<Rightarrow>
        and_then (layout_repeat (get_integer_layout 96) 4) (\<lambda>(U, _).
        and_then (layout_extend ptr_layout U) (\<lambda>(L, _). Ok L))
    | CircuitInputAccumulatorCT \<Rightarrow>
        and_then (layout_extend (get_integer_layout 64) ptr_layout) (\<lambda>(L, _). Ok L)
    | CircuitPartialOutputsCT \<Rightarrow> Ok unit_layout)"

definition circuit_is_zst :: "circuit_type \<Rightarrow> bool" where
  "circuit_is_zst ct =
    (case ct of
      AddModGateCT \<Rightarrow> True | SubModGateCT \<Rightarrow> True | MulModGateCT \<Rightarrow> True
    | CircuitInputCT \<Rightarrow> True | InverseGateCT \<Rightarrow> True | CircuitCT _ \<Rightarrow> True
    | CircuitDescriptorCT \<Rightarrow> True
    | _ \<Rightarrow> False)"

definition circuit_is_complex :: "circuit_type \<Rightarrow> bool" where
  "circuit_is_complex ct =
    (case ct of
      CircuitInputAccumulatorCT \<Rightarrow> True | CircuitPartialOutputsCT \<Rightarrow> True
    | CircuitDataCT \<Rightarrow> True | CircuitOutputsCT \<Rightarrow> True
    | _ \<Rightarrow> False)"

definition felt_array_layout :: "nat \<Rightarrow> layout res" where
  "felt_array_layout n = and_then (layout_repeat (get_integer_layout 252) n) (\<lambda>(L, _). Ok L)"

definition starknet_layout :: "starknet_type \<Rightarrow> layout res" where
  "starknet_layout st =
    (case st of
      ClassHashST \<Rightarrow> Ok (get_integer_layout 252)
    | ContractAddressST \<Rightarrow> Ok (get_integer_layout 252)
    | StorageBaseAddressST \<Rightarrow> Ok (get_integer_layout 252)
    | StorageAddressST \<Rightarrow> Ok (get_integer_layout 252)
    | SystemST \<Rightarrow> Ok ptr_layout
    | Secp256PointST _ \<Rightarrow>
        and_then (layout_extend (get_integer_layout 256) (get_integer_layout 256)) (\<lambda>(L, _).
        and_then (layout_extend L (get_integer_layout 1)) (\<lambda>(L, _). Ok L))
    | Sha256StateHandleST \<Rightarrow> Ok ptr_layout
    | Sha512StateHandleST \<Rightarrow> Ok ptr_layout)"

definition array_layout :: "layout res" where
  "array_layout =
    and_then (layout_extend ptr_layout (get_integer_layout 32)) (\<lambda>(L, _).
    and_then (layout_extend L (get_integer_layout 32)) (\<lambda>(L, _).
    and_then (layout_extend L (get_integer_layout 32)) (\<lambda>(L, _). Ok L)))"

definition enum_step :: "layout \<Rightarrow> layout \<Rightarrow> layout \<Rightarrow> layout res" where
  "enum_step tag acc L =
    and_then (layout_extend tag L) (\<lambda>(F, _).
    from_size_align (max (lsize acc) (lsize F)) (max (lalign acc) (lalign F)))"

definition struct_step :: "layout option \<Rightarrow> layout \<Rightarrow> (layout \<times> nat) res" where
  "struct_step acc L =
    (case acc of
      Some A \<Rightarrow> layout_extend A L
    | None \<Rightarrow> Ok (L, 0))"

text \<open>The layout of a type, given the layouts of its parts.\<close>

definition layout_body :: "(core_type \<Rightarrow> layout res) \<Rightarrow> registry \<Rightarrow> core_type \<Rightarrow> layout res" where
  "layout_body part R ty =
    and_then
      (case ty of
        ArrayT _ \<Rightarrow> array_layout
      | BitwiseT \<Rightarrow> Ok u64_layout
      | BoxT _ \<Rightarrow> Ok ptr_layout
      | EcOpT \<Rightarrow> Ok u64_layout
      | EcPointT \<Rightarrow> felt_array_layout EC_POINT_FELTS
      | EcStateT \<Rightarrow> felt_array_layout EC_STATE_FELTS
      | Felt252T \<Rightarrow> Ok (get_integer_layout 252)
      | GasBuiltinT \<Rightarrow> Ok (get_integer_layout 64)
      | BuiltinCostsT \<Rightarrow> Ok ptr_layout
      | Uint8T \<Rightarrow> Ok (get_integer_layout 8)
      | Uint16T \<Rightarrow> Ok (get_integer_layout 16)
      | Uint32T \<Rightarrow> Ok (get_integer_layout 32)
      | Uint64T \<Rightarrow> Ok (get_integer_layout 64)
      | Uint128T \<Rightarrow> Ok (get_integer_layout 128)
      | Uint128MulGuaranteeT \<Rightarrow> Ok unit_layout
      | NonZeroT e \<Rightarrow> and_then (registry_get R e) (part)
      | NullableT _ \<Rightarrow> Ok ptr_layout
      | RangeCheckT \<Rightarrow> Ok u64_layout
      | UninitializedT e \<Rightarrow> and_then (registry_get R e) (part)
      | EnumT variants \<Rightarrow>
          (let tag = get_integer_layout (tag_bits variants) in
           try_fold
             (\<lambda>acc id. and_then (registry_get R id) (\<lambda>ty. and_then (part ty) (enum_step tag acc)))
             tag variants)
      | StructT members \<Rightarrow>
          and_then
            (try_fold
              (\<lambda>acc id.
                and_then (registry_get R id) (\<lambda>ty.
                and_then (part ty) (\<lambda>L.
                and_then (struct_step acc L) (\<lambda>(N, _). Ok (Some N)))))
              None members)
            (\<lambda>L. Ok (case L of Some L \<Rightarrow> L | None \<Rightarrow> unit_layout))
      | Felt252DictT _ \<Rightarrow> Ok ptr_layout
      | Felt252DictEntryT _ \<Rightarrow> and_then (layout_extend ptr_layout ptr_layout) (\<lambda>(L, _). Ok L)
      | SquashedFelt252DictT _ \<Rightarrow> Ok ptr_layout
      | PedersenT \<Rightarrow> Ok u64_layout
      | PoseidonT \<Rightarrow> Ok u64_layout
      | SpanT _ \<Rightarrow> Err NativeAssertion
      | StarknetT st \<Rightarrow> starknet_layout st
      | SegmentArenaT \<Rightarrow> Ok u64_layout
      | SnapshotT e \<Rightarrow> and_then (registry_get R e) (part)
      | Sint8T \<Rightarrow> Ok (get_integer_layout 8)
      | Sint16T \<Rightarrow> Ok (get_integer_layout 16)
      | Sint32T \<Rightarrow> Ok (get_integer_layout 32)
      | Sint64T \<Rightarrow> Ok (get_integer_layout 64)
      | Sint128T \<Rightarrow> Ok (get_integer_layout 128)
      | Bytes31T \<Rightarrow> Ok (get_integer_layout 248)
      | BoundedIntT r \<Rightarrow> Ok (get_integer_layout (repr_bit_width r))
      | BoundedIntGuaranteeT r \<Rightarrow> Ok (get_integer_layout (repr_bit_width r))
      | QM31T \<Rightarrow> and_then (layout_repeat (get_integer_layout 31) 4) (\<lambda>(L, _). Ok L)
      | GasReserveT \<Rightarrow> Ok (get_integer_layout 128)
      | ConstT e _ \<Rightarrow> and_then (registry_get R e) (part)
      | CouponT \<Rightarrow> Ok unit_layout
      | RangeCheck96T \<Rightarrow> Ok (get_integer_layout 64)
      | CircuitT ct \<Rightarrow> circuit_layout ct
      | IntRangeT e \<Rightarrow>
          and_then (registry_get R e) (\<lambda>ty.
          and_then (part ty) (\<lambda>inner.
          and_then (layout_extend inner inner) (\<lambda>(L, _). Ok L)))
      | BlakeT \<Rightarrow> Ok (get_integer_layout 64))
      (\<lambda>L. Ok (pad_to_align L))"

fun layout_fuel :: "nat \<Rightarrow> registry \<Rightarrow> core_type \<Rightarrow> layout res" where
  "layout_fuel 0 R ty = Panic"
| "layout_fuel (Suc n) R ty = layout_body (layout_fuel n R) R ty"

definition ty_layout :: "registry \<Rightarrow> core_type \<Rightarrow> layout res" where
  "ty_layout R = layout_fuel (rec_limit R) R"

definition is_builtin :: "core_type \<Rightarrow> bool" where
  "is_builtin ty =
    (case ty of
      BitwiseT \<Rightarrow> True | EcOpT \<Rightarrow> True | GasBuiltinT \<Rightarrow> True | BuiltinCostsT \<Rightarrow> True
    | RangeCheckT \<Rightarrow> True | RangeCheck96T \<Rightarrow> True | PedersenT \<Rightarrow> True | PoseidonT \<Rightarrow> True
    | CouponT \<Rightarrow> True | StarknetT SystemST \<Rightarrow> True | SegmentArenaT \<Rightarrow> True
    | CircuitT AddModCT \<Rightarrow> True | CircuitT MulModCT \<Rightarrow> True | BlakeT \<Rightarrow> True
    | _ \<Rightarrow> False)"

text \<open>The loop over the members stops at the first one that decides.\<close>

fun all_members :: "(type_id \<Rightarrow> bool res) \<Rightarrow> type_id list \<Rightarrow> bool res" where
  "all_members f [] = Ok True"
| "all_members f (m # ms) = and_then (f m) (\<lambda>b. if b then all_members f ms else Ok False)"

fun any_member :: "(type_id \<Rightarrow> bool res) \<Rightarrow> type_id list \<Rightarrow> bool res" where
  "any_member f [] = Ok False"
| "any_member f (m # ms) = and_then (f m) (\<lambda>b. if b then Ok True else any_member f ms)"

fun is_zst_fuel :: "nat \<Rightarrow> registry \<Rightarrow> core_type \<Rightarrow> bool res" where
  "is_zst_fuel 0 R ty = Panic"
| "is_zst_fuel (Suc n) R ty =
    (case ty of
      Uint128MulGuaranteeT \<Rightarrow> Ok True
    | CouponT \<Rightarrow> Ok True
    | NonZeroT e \<Rightarrow> and_then (registry_get R e) (is_zst_fuel n R)
    | UninitializedT e \<Rightarrow> and_then (registry_get R e) (is_zst_fuel n R)
    | SnapshotT e \<Rightarrow> and_then (registry_get R e) (is_zst_fuel n R)
    | EnumT variants \<Rightarrow>
        (case variants of
          [] \<Rightarrow> Ok True
        | [v] \<Rightarrow> and_then (registry_get R v) (is_zst_fuel n R)
        | _ \<Rightarrow> Ok False)
    | StructT members \<Rightarrow>
        all_members (\<lambda>m. and_then (registry_get R m) (is_zst_fuel n R)) members
    | ConstT e _ \<Rightarrow> and_then (registry_get R e) (is_zst_fuel n R)
    | SpanT _ \<Rightarrow> Err NativeAssertion
    | CircuitT ct \<Rightarrow> Ok (circuit_is_zst ct)
    | IntRangeT e \<Rightarrow> and_then (registry_get R e) (is_zst_fuel n R)
    | _ \<Rightarrow> Ok False)"

definition is_zst :: "registry \<Rightarrow> core_type \<Rightarrow> bool res" where
  "is_zst R = is_zst_fuel (rec_limit R) R"

text \<open>Felts and wide integers are returned through memory on one of the two targets only.\<close>

fun is_complex_fuel :: "nat \<Rightarrow> target_arch \<Rightarrow> registry \<Rightarrow> core_type \<Rightarrow> bool res" where
  "is_complex_fuel 0 arch R ty = Panic"
| "is_complex_fuel (Suc n) arch R ty =
    (case ty of
      ArrayT _ \<Rightarrow> Ok True
    | EcPointT \<Rightarrow> Ok True
    | EcStateT \<Rightarrow> Ok True
    | Felt252DictEntryT _ \<Rightarrow> Ok True
    | Felt252T \<Rightarrow> Ok (arch = X86_64)
    | QM31T \<Rightarrow> Ok (arch = X86_64)
    | Bytes31T \<Rightarrow> Ok (arch = X86_64)
    | StarknetT st \<Rightarrow>
        (case st of
          SystemST \<Rightarrow> Ok False
        | Secp256PointST _ \<Rightarrow> Err NativeAssertion
        | Sha256StateHandleST \<Rightarrow> Err NativeAssertion
        | Sha512StateHandleST \<Rightarrow> Err NativeAssertion
        | _ \<Rightarrow> Ok (arch = X86_64))
    | NonZeroT e \<Rightarrow> and_then (registry_get R e) (is_complex_fuel n arch R)
    | UninitializedT e \<Rightarrow> and_then (registry_get R e) (is_complex_fuel n arch R)
    | SnapshotT e \<Rightarrow> and_then (registry_get R e) (is_complex_fuel n arch R)
    | EnumT variants \<Rightarrow>
        (case variants of
          [] \<Rightarrow> Ok False
        | [v] \<Rightarrow> and_then (registry_get R v) (is_complex_fuel n arch R)
        | _ \<Rightarrow> and_then (is_zst R ty) (\<lambda>z. Ok (\<not> z)))
    | StructT _ \<Rightarrow> Ok True
    | BoundedIntT r \<Rightarrow> Ok (arch = X86_64 \<and> 128 < repr_bit_width r)
    | BoundedIntGuaranteeT r \<Rightarrow> Ok (arch = X86_64 \<and> 128 < repr_bit_width r)
    | ConstT _ _ \<Rightarrow> Err NativeAssertion
    | SpanT _ \<Rightarrow> Err NativeAssertion
    | CircuitT ct \<Rightarrow> Ok (circuit_is_complex ct)
    | _ \<Rightarrow> Ok False)"

definition is_complex :: "target_arch \<Rightarrow> registry \<Rightarrow> core_type \<Rightarrow> bool res" where
  "is_complex arch R = is_complex_fuel (rec_limit R) arch R"

fun is_memory_allocated_fuel :: "nat \<Rightarrow> registry \<Rightarrow> core_type \<Rightarrow> bool res" where
  "is_memory_allocated_fuel 0 R ty = Panic"
| "is_memory_allocated_fuel (Suc n) R ty =
    (case ty of
      EnumT variants \<Rightarrow>
        (case variants of
          [] \<Rightarrow> Ok False
        | [v] \<Rightarrow> and_then (registry_get R v) (is_memory_allocated_fuel n R)
        | _ \<Rightarrow> Ok True)
    | StructT members \<Rightarrow>
        any_member (\<lambda>m. and_then (registry_get R m) (is_memory_allocated_fuel n R)) members
    | SnapshotT e \<Rightarrow> and_then (registry_get R e) (is_memory_allocated_fuel n R)
    | ConstT e _ \<Rightarrow> and_then (registry_get R e) (is_memory_allocated_fuel n R)
    | _ \<Rightarrow> Ok False)"

definition is_memory_allocated :: "registry \<Rightarrow> core_type \<Rightarrow> bool res" where
  "is_memory_allocated R = is_memory_allocated_fuel (rec_limit R) R"

definition native_range_unsigned :: "nat \<Rightarrow> int_range_t" where
  "native_range_unsigned w = \<lparr>rng_lower = 0, rng_upper = 2 ^ w - 1 + 1\<rparr>"

definition native_range_signed :: "nat \<Rightarrow> int_range_t" where
  "native_range_signed w = \<lparr>rng_lower = - (2 ^ (w - 1)), rng_upper = 2 ^ (w - 1) - 1 + 1\<rparr>"

fun native_integer_range_fuel :: "nat \<Rightarrow> registry \<Rightarrow> core_type \<Rightarrow> int_range_t res" where
  "native_integer_range_fuel 0 R ty = Panic"
| "native_integer_range_fuel (Suc n) R ty =
    (case ty of
      Uint8T \<Rightarrow> Ok (native_range_unsigned 8)
    | Uint16T \<Rightarrow> Ok (native_range_unsigned 16)
    | Uint32T \<Rightarrow> Ok (native_range_unsigned 32)
    | Uint64T \<Rightarrow> Ok (native_range_unsigned 64)
    | Uint128T \<Rightarrow> Ok (native_range_unsigned 128)
    | Felt252T \<Rightarrow> Ok \<lparr>rng_lower = 0, rng_upper = PRIME\<rparr>
    | Sint8T \<Rightarrow> Ok (native_range_signed 8)
    | Sint16T \<Rightarrow> Ok (native_range_signed 16)
    | Sint32T \<Rightarrow> Ok (native_range_signed 32)
    | Sint64T \<Rightarrow> Ok (native_range_signed 64)
    | Sint128T \<Rightarrow> Ok (native_range_signed 128)
    | BoundedIntT r \<Rightarrow> Ok r
    | Bytes31T \<Rightarrow> Ok \<lparr>rng_lower = 0, rng_upper = 2 ^ 248\<rparr>
    | ConstT e _ \<Rightarrow> and_then (registry_get R e) (native_integer_range_fuel n R)
    | NonZeroT e \<Rightarrow> and_then (registry_get R e) (native_integer_range_fuel n R)
    | _ \<Rightarrow> Err IntegerLikeTypeExpected)"

definition native_integer_range :: "registry \<Rightarrow> core_type \<Rightarrow> int_range_t res" where
  "native_integer_range R = native_integer_range_fuel (rec_limit R) R"

fun is_bounded_int_fuel :: "nat \<Rightarrow> registry \<Rightarrow> core_type \<Rightarrow> bool res" where
  "is_bounded_int_fuel 0 R ty = Panic"
| "is_bounded_int_fuel (Suc n) R ty =
    (case ty of
      BoundedIntT _ \<Rightarrow> Ok True
    | NonZeroT e \<Rightarrow> and_then (registry_get R e) (is_bounded_int_fuel n R)
    | _ \<Rightarrow> Ok False)"

fun is_felt252_fuel :: "nat \<Rightarrow> registry \<Rightarrow> core_type \<Rightarrow> bool res" where
  "is_felt252_fuel 0 R ty = Panic"
| "is_felt252_fuel (Suc n) R ty =
    (case ty of
      Felt252T \<Rightarrow> Ok True
    | NonZeroT e \<Rightarrow> and_then (registry_get R e) (is_felt252_fuel n R)
    | _ \<Rightarrow> Ok False)"

definition variants_of :: "core_type \<Rightarrow> type_id list option" where
  "variants_of ty = (case ty of EnumT variants \<Rightarrow> Some variants | _ \<Rightarrow> None)"

definition get_layout_for_variants ::
  "registry \<Rightarrow> type_id list \<Rightarrow> (layout \<times> layout \<times> layout list) res" where
  "get_layout_for_variants R variants =
    (let tag = get_integer_layout (tag_bits variants) in
     and_then
       (try_fold
         (\<lambda>(acc, out) id.
           and_then (registry_get R id) (\<lambda>ty.
           and_then (ty_layout R ty) (\<lambda>L.
           and_then (enum_step tag acc L) (\<lambda>N. Ok (N, out @ [L])))))
         (tag, []) variants)
       (\<lambda>(L, out). Ok (L, tag, out)))"

definition get_types_total_size :: "registry \<Rightarrow> type_id list \<Rightarrow> nat res" where
  "get_types_total_size R ts =
    try_fold
      (\<lambda>total t.
        and_then (registry_get R t) (\<lambda>ty.
        and_then (ty_layout R ty) (\<lambda>L.
        if total + lsize L < 2 ^ 64 then Ok (total + lsize L) else Panic)))
      0 ts"

end
