(* ===== verification/Typing.thy ===== *)
theory Typing
  imports Values
begin

text \<open>
  What \<open>Value::is\<close> means: a result does not depend on how much stack the walk had left,
  a bound on the stack that is always enough on an acyclic registry, and the shape of the
  values each type admits. Default values are values of their type.
\<close>

section \<open>More depth never changes an answer\<close>

lemma value_is_fuel_Suc:
  "value_is_fuel n R v t = Some b \<Longrightarrow> value_is_fuel (Suc n) R v t = Some b"
proof (induction n arbitrary: v t b)
  case 0
  then show ?case by simp
next
  case (Suc n)
  from Suc.prems obtain ty where ty: "get_type R t = Some ty" by (auto simp: bind_Some)
  show ?case
  proof (cases ty)
    case (StructT ms)
    show ?thesis
    proof (cases v)
      case (Struct vs)
      have mono: "all_opt (\<lambda>(w, m). value_is_fuel n R w m) (zip vs ms) = Some b \<Longrightarrow>
          all_opt (\<lambda>(w, m). value_is_fuel (Suc n) R w m) (zip vs ms) = Some b"
        by (rule all_opt_mono) (use Suc.IH in auto)
      show ?thesis
        using Suc.prems ty StructT Struct mono
        by (auto simp del: value_is_fuel.simps(2) simp: value_is_fuel.simps(2) [of n R "Struct vs" t]
            value_is_fuel.simps(2) [of "Suc n" R "Struct vs" t] split: if_splits)
    qed (use Suc.prems ty StructT in simp_all)
  next
    case (NullableT e)
    then show ?thesis
      using Suc.prems ty Suc.IH [of v e b]
      by (cases "v = Null") (simp_all del: value_is_fuel.simps(2)
          add: value_is_fuel.simps(2) [of n R Null t] value_is_fuel.simps(2) [of "Suc n" R Null t]
            value_is_fuel.simps(2) [of n R v t] value_is_fuel.simps(2) [of "Suc n" R v t])
  qed (use Suc.prems ty Suc.IH in \<open>simp_all del: value_is_fuel.simps(2)
      add: value_is_fuel.simps(2) [of n R v t] value_is_fuel.simps(2) [of "Suc n" R v t]\<close>)
qed

lemma value_is_fuel_mono:
  assumes "value_is_fuel n R v t = Some b" and "n \<le> m"
  shows "value_is_fuel m R v t = Some b"
  using assms(2,1)
  by (induction m rule: dec_induct) (auto simp del: value_is_fuel.simps intro: value_is_fuel_Suc)

text \<open>Two walks that both answer give the same answer.\<close>

lemma value_is_fuel_det:
  "value_is_fuel n R v t = Some b \<Longrightarrow> value_is_fuel m R v t = Some c \<Longrightarrow> b = c"
  using value_is_fuel_mono [of n R v t b "max n m"] value_is_fuel_mono [of m R v t c "max n m"]
  by simp

section \<open>Enough depth\<close>

text \<open>
  The wrappers \<open>is\<close> looks through, and the nesting depth of struct values.
\<close>

definition wrapped_ty :: "core_type \<Rightarrow> type_id option" where
  "wrapped_ty ty =
    (case ty of
      NonZeroT e \<Rightarrow> Some e | SnapshotT e \<Rightarrow> Some e | SpanT e \<Rightarrow> Some e | BoxT e \<Rightarrow> Some e
    | ConstT e _ \<Rightarrow> Some e | NullableT e \<Rightarrow> Some e | _ \<Rightarrow> None)"

fun struct_depth :: "val \<Rightarrow> nat" where
  "struct_depth (Struct vs) = Suc (foldr (\<lambda>v d. max (struct_depth v) d) vs 0)"
| "struct_depth _ = 0"

lemma struct_depth_member: "v \<in> set vs \<Longrightarrow> struct_depth v < struct_depth (Struct vs)"
proof -
  have "v \<in> set vs \<Longrightarrow> struct_depth v \<le> foldr (\<lambda>v d. max (struct_depth v) d) vs 0"
    by (induction vs) auto
  then show "v \<in> set vs \<Longrightarrow> struct_depth v < struct_depth (Struct vs)" by simp
qed

text \<open>
  A registry closed on a set of types \<open>T\<close>: the types of \<open>T\<close> are declared, none is one of
  the two unsupported ones, members and wrapped types stay in \<open>T\<close>, and no chain of
  wrappers is longer than \<open>K\<close> (\<open>rk\<close> counts what is left of the chain).
\<close>

definition types_closed :: "registry \<Rightarrow> type_id set \<Rightarrow> (type_id \<Rightarrow> nat) \<Rightarrow> nat \<Rightarrow> bool" where
  "types_closed R T rk K \<longleftrightarrow>
    (\<forall>t \<in> T. rk t \<le> K \<and>
      (\<exists>ty. get_type R t = Some ty \<and> ty \<noteq> BlakeT \<and> ty \<noteq> QM31T \<and>
        (\<forall>ms. ty = StructT ms \<longrightarrow> set ms \<subseteq> T) \<and>
        (\<forall>e. wrapped_ty ty = Some e \<longrightarrow> e \<in> T \<and> rk e < rk t)))"

lemma types_closedD:
  assumes "types_closed R T rk K" and "t \<in> T"
  obtains ty where "get_type R t = Some ty" "rk t \<le> K" "ty \<noteq> BlakeT" "ty \<noteq> QM31T"
    "\<And>ms. ty = StructT ms \<Longrightarrow> set ms \<subseteq> T"
    "\<And>e. wrapped_ty ty = Some e \<Longrightarrow> e \<in> T \<and> rk e < rk t"
  using assms by (auto simp: types_closed_def)

lemma value_is_fuel_enough:
  assumes closed: "types_closed R T rk K"
  shows "t \<in> T \<Longrightarrow> struct_depth v * (K + 1) + rk t < n \<Longrightarrow> \<exists>b. value_is_fuel n R v t = Some b"
proof (induction n arbitrary: v t)
  case 0
  then show ?case by simp
next
  case (Suc n)
  obtain ty where ty: "get_type R t = Some ty" "rk t \<le> K" "ty \<noteq> BlakeT" "ty \<noteq> QM31T"
    and ms: "\<And>ms. ty = StructT ms \<Longrightarrow> set ms \<subseteq> T"
    and wr: "\<And>e. wrapped_ty ty = Some e \<Longrightarrow> e \<in> T \<and> rk e < rk t"
    using types_closedD [OF closed Suc.prems(1)] by metis
  have inner: "\<exists>b. value_is_fuel n R v e = Some b" if "wrapped_ty ty = Some e" for e
    using wr [OF that] Suc.prems(2) by (intro Suc.IH) auto
  show ?case
  proof (cases ty)
    case (StructT tys)
    show ?thesis
    proof (cases v)
      case (Struct vs)
      have "\<exists>b. value_is_fuel n R w m = Some b" if "(w, m) \<in> set (zip vs tys)" for w m
      proof (rule Suc.IH)
        have w: "w \<in> set vs" and m: "m \<in> set tys"
          using that by (auto dest: set_zip_leftD set_zip_rightD)
        show "m \<in> T" using m ms StructT by auto
        then have "rk m \<le> K" using closed by (auto simp: types_closed_def)
        moreover have "struct_depth w * (K + 1) + (K + 1) \<le> struct_depth v * (K + 1)"
          using struct_depth_member [OF w] Struct
          by (metis Suc_leI add.commute mult_Suc mult_le_mono1)
        ultimately show "struct_depth w * (K + 1) + rk m < n" using Suc.prems(2) by simp
      qed
      then have "\<exists>b. all_opt (\<lambda>(w, m). value_is_fuel n R w m) (zip vs tys) = Some b"
        by (intro all_opt_total) auto
      then show ?thesis using ty StructT Struct by auto
    qed (use ty StructT in auto)
  next
    case (NullableT e)
    then show ?thesis using ty inner [of e] by (auto simp: wrapped_ty_def)
  qed (use ty inner in \<open>auto simp: wrapped_ty_def\<close>)
qed

section \<open>The values a type admits\<close>

lemma value_is_unfold: "rec_limit R = Suc n \<Longrightarrow> value_is R v t = value_is_fuel (Suc n) R v t"
  by (simp add: value_is_def del: value_is_fuel.simps)

lemma has_type_declared: "has_type R v t \<Longrightarrow> \<exists>ty. get_type R t = Some ty"
  by (cases "rec_limit R") (auto simp: value_is_def bind_Some)

lemma has_type_limit: "has_type R v t \<Longrightarrow> 0 < rec_limit R"
  by (cases "rec_limit R") (auto simp: value_is_def)

lemma as_not_None:
  "(as_felt v \<noteq> None) = (\<exists>f. v = Felt f)"
  "(as_bytes31 v \<noteq> None) = (\<exists>f. v = Bytes31 f)"
  "(as_u8 v \<noteq> None) = (\<exists>x. v = U8 x)"
  "(as_u32 v \<noteq> None) = (\<exists>x. v = U32 x)"
  "(as_u64 v \<noteq> None) = (\<exists>x. v = U64 x)"
  "(as_u128 v \<noteq> None) = (\<exists>x. v = U128 x)"
  "(as_struct v \<noteq> None) = (\<exists>xs. v = Struct xs)"
  "(as_ec_point v \<noteq> None) = (\<exists>x y. v = EcPoint x y)"
  "(as_ec_state v \<noteq> None) = (\<exists>x y z. v = EcState x y z)"
  "(as_circuit v \<noteq> None) = (\<exists>xs. v = Circuit xs)"
  "(as_int_range v \<noteq> None) = (\<exists>x y. v = IntRange x y)"
  by (cases v; simp add: as_defs; fail)+

text \<open>
  Introduction: a value of the right shape has the type. The rules are used to check the
  results of an evaluator against its signature.
\<close>

lemma value_is_base:
  assumes "0 < rec_limit R"
  shows
    "get_type R t = Some (ArrayT e) \<Longrightarrow> has_type R (Array e xs) t"
    "get_type R t = Some (BoundedIntT r) \<Longrightarrow> has_type R (BoundedInt r i) t"
    "get_type R t = Some (EnumT vs) \<Longrightarrow> has_type R (Enum t k p) t"
    "get_type R t = Some Felt252T \<Longrightarrow> has_type R (Felt f) t"
    "get_type R t = Some Bytes31T \<Longrightarrow> has_type R (Bytes31 f) t"
    "get_type R t = Some (Felt252DictT e) \<Longrightarrow> has_type R (FeltDict e d c) t"
    "get_type R t = Some (SquashedFelt252DictT e) \<Longrightarrow> has_type R (FeltDict e d c) t"
    "get_type R t = Some (Felt252DictEntryT e) \<Longrightarrow> has_type R (FeltDictEntry e d c k') t"
    "get_type R t = Some GasBuiltinT \<Longrightarrow> has_type R (U64 g) t"
    "get_type R t = Some RangeCheckT \<Longrightarrow> has_type R Unit t"
    "get_type R t = Some SegmentArenaT \<Longrightarrow> has_type R Unit t"
    "get_type R t = Some BitwiseT \<Longrightarrow> has_type R Unit t"
    "get_type R t = Some (StarknetT SystemST) \<Longrightarrow> has_type R Unit t"
    "get_type R t = Some Uint8T \<Longrightarrow> has_type R (U8 a) t"
    "get_type R t = Some Uint16T \<Longrightarrow> has_type R (U16 b) t"
    "get_type R t = Some Uint32T \<Longrightarrow> has_type R (U32 c') t"
    "get_type R t = Some Uint64T \<Longrightarrow> has_type R (U64 g) t"
    "get_type R t = Some Uint128T \<Longrightarrow> has_type R (U128 h) t"
    "get_type R t = Some Sint8T \<Longrightarrow> has_type R (I8 a) t"
    "get_type R t = Some Sint16T \<Longrightarrow> has_type R (I16 b) t"
    "get_type R t = Some Sint32T \<Longrightarrow> has_type R (I32 c') t"
    "get_type R t = Some Sint64T \<Longrightarrow> has_type R (I64 g) t"
    "get_type R t = Some Sint128T \<Longrightarrow> has_type R (I128 h) t"
    "get_type R t = Some EcPointT \<Longrightarrow> has_type R (EcPoint f f') t"
    "get_type R t = Some EcStateT \<Longrightarrow> has_type R (EcState f f' f'') t"
    "get_type R t = Some GasReserveT \<Longrightarrow> has_type R (U128 h) t"
    "get_type R t = Some BuiltinCostsT \<Longrightarrow> has_type R (BuiltinCosts bc) t"
    "get_type R t = Some (NullableT e) \<Longrightarrow> has_type R Null t"
    "get_type R t = Some (UninitializedT e) \<Longrightarrow> has_type R (Uninitialized e') t"
    "get_type R t = Some (IntRangeT e) \<Longrightarrow> has_type R (IntRange p p') t"
  using assms
  by (cases "rec_limit R"; simp add: value_is_unfold starknet_is_def; fail)+

text \<open>Inversion: what a checked value can be.\<close>

lemma has_type_shape:
  assumes "has_type R v t"
  shows
    "get_type R t = Some (ArrayT e) \<Longrightarrow> \<exists>xs. v = Array e xs"
    "get_type R t = Some (BoundedIntT r) \<Longrightarrow> \<exists>i. v = BoundedInt r i"
    "get_type R t = Some (EnumT vs) \<Longrightarrow> \<exists>i p. v = Enum t i p"
    "get_type R t = Some Felt252T \<Longrightarrow> \<exists>f. v = Felt f"
    "get_type R t = Some (Felt252DictT e) \<Longrightarrow> \<exists>d c. v = FeltDict e d c"
    "get_type R t = Some GasBuiltinT \<Longrightarrow> \<exists>g. v = U64 g"
    "get_type R t = Some RangeCheckT \<Longrightarrow> v = Unit"
    "get_type R t = Some Uint8T \<Longrightarrow> \<exists>a. v = U8 a"
    "get_type R t = Some Uint32T \<Longrightarrow> \<exists>a. v = U32 a"
    "get_type R t = Some Uint64T \<Longrightarrow> \<exists>a. v = U64 a"
    "get_type R t = Some Uint128T \<Longrightarrow> \<exists>a. v = U128 a"
    "get_type R t = Some (StructT ms) \<Longrightarrow> \<exists>vs. v = Struct vs \<and> length vs = length ms"
proof -
  obtain n where "rec_limit R = Suc n"
    using has_type_limit [OF assms] gr0_implies_Suc by blast
  note unf = assms [unfolded value_is_unfold [OF this]]
  show "get_type R t = Some (ArrayT e) \<Longrightarrow> \<exists>xs. v = Array e xs"
    "get_type R t = Some (BoundedIntT r) \<Longrightarrow> \<exists>i. v = BoundedInt r i"
    "get_type R t = Some (EnumT vs) \<Longrightarrow> \<exists>i p. v = Enum t i p"
    "get_type R t = Some Felt252T \<Longrightarrow> \<exists>f. v = Felt f"
    "get_type R t = Some (Felt252DictT e) \<Longrightarrow> \<exists>d c. v = FeltDict e d c"
    "get_type R t = Some GasBuiltinT \<Longrightarrow> \<exists>g. v = U64 g"
    "get_type R t = Some RangeCheckT \<Longrightarrow> v = Unit"
    "get_type R t = Some Uint8T \<Longrightarrow> \<exists>a. v = U8 a"
    "get_type R t = Some Uint32T \<Longrightarrow> \<exists>a. v = U32 a"
    "get_type R t = Some Uint64T \<Longrightarrow> \<exists>a. v = U64 a"
    "get_type R t = Some Uint128T \<Longrightarrow> \<exists>a. v = U128 a"
    "get_type R t = Some (StructT ms) \<Longrightarrow> \<exists>vs. v = Struct vs \<and> length vs = length ms"
    using unf by (cases v; simp split: if_splits; fail)+
qed

lemma struct_values_are:
  assumes lim: "rec_limit R = Suc n" and ty: "get_type R t = Some (StructT ms)"
  shows "has_type R (Struct vs) t \<longleftrightarrow>
    list_all2 (\<lambda>v m. value_is_fuel n R v m = Some True) vs ms"
  using lim ty by (auto simp: value_is_def list_all2_iff)

text \<open>A struct built from members of the declared types, whose checks left one level spare.\<close>

lemma struct_has_type_if:
  assumes "has_type R (Struct vs) t" and "get_type R t = Some (StructT ms)"
  shows "list_all2 (has_type R) vs ms"
proof -
  from assms(1) obtain n where n: "rec_limit R = Suc n"
    using has_type_limit [OF assms(1)] gr0_implies_Suc by blast
  with assms have "list_all2 (\<lambda>v m. value_is_fuel n R v m = Some True) vs ms"
    by (simp add: struct_values_are)
  then show ?thesis
    by (rule list_all2_mono) (simp add: value_is_def n value_is_fuel_Suc del: value_is_fuel.simps)
qed

section \<open>Default values have their type\<close>

lemma default_for_type_fuel_is:
  "default_for_type_fuel n R t = Some v \<Longrightarrow> value_is_fuel n R v t = Some True"
proof (induction n arbitrary: t v)
  case 0
  then show ?case by simp
next
  case (Suc n)
  from Suc.prems obtain ty where ty: "get_type R t = Some ty" by (auto simp: bind_Some)
  show ?case
  proof (cases ty)
    case (StructT ms)
    with Suc.prems ty obtain vs where vs: "map_opt (default_for_type_fuel n R) ms = Some vs"
      and v: "v = Struct vs" by (auto simp: bind_Some)
    from vs have "list_all2 (\<lambda>m v. value_is_fuel n R v m = Some True) ms vs"
      unfolding map_opt_Some by (rule list_all2_mono) (rule Suc.IH)
    then have "length vs = length ms" "\<forall>(w, m) \<in> set (zip vs ms). value_is_fuel n R w m = Some True"
      by (auto simp: list_all2_conv_all_nth in_set_zip)
    with v ty StructT show ?thesis by (auto simp: split_beta)
  qed (use Suc.prems ty in \<open>auto simp: bind_Some\<close>)
qed

lemma default_for_type_is: "default_for_type R t = Some v \<Longrightarrow> has_type R v t"
  by (simp add: default_for_type_def value_is_def default_for_type_fuel_is)

section \<open>\<open>find_real_type\<close> stops at a type with a representation\<close>

lemma find_real_type_fuel_real:
  "find_real_type_fuel n R t = Some t' \<Longrightarrow>
    \<exists>ty. get_type R t' = Some ty \<and>
      (\<forall>e. ty \<noteq> BoxT e \<and> ty \<noteq> UninitializedT e \<and> ty \<noteq> SpanT e \<and> ty \<noteq> SnapshotT e)"
proof (induction n arbitrary: t)
  case (Suc n)
  from Suc.prems obtain ty where ty: "get_type R t = Some ty" by (auto simp: bind_Some)
  show ?case by (cases ty) (use Suc ty in auto)
qed simp

lemma find_real_type_idem:
  assumes "find_real_type R t = Some t'"
  shows "find_real_type R t' = Some t'"
proof -
  from assms obtain n where n: "rec_limit R = Suc n"
    by (cases "rec_limit R") (auto simp: find_real_type_def)
  from assms obtain ty where "get_type R t' = Some ty"
    "\<forall>e. ty \<noteq> BoxT e \<and> ty \<noteq> UninitializedT e \<and> ty \<noteq> SpanT e \<and> ty \<noteq> SnapshotT e"
    using find_real_type_fuel_real unfolding find_real_type_def by blast
  then show ?thesis by (cases ty) (simp_all add: find_real_type_def n)
qed

end
