(* ===== verification/Numeric.thy ===== *)
theory Numeric
  imports Typing
begin

text \<open>
  \<open>debug_utils/sierra-emu/src/utils.rs\<close>: the numeric reading of a value, the value that
  represents an integer at a type, and the range of an integer type. The locale
  \<open>machine_int\<close> is what the integer evaluators rely on: a fixed-width type encodes exactly
  the integers of its range, and a value reads back as the integer it encodes. It is
  interpreted for the ten machine integer types.
\<close>

section \<open>Operations\<close>

definition numeric_arg :: "val \<Rightarrow> int option" where
  "numeric_arg v =
    (case v of
      BoundedInt _ i \<Rightarrow> Some i
    | I8 x \<Rightarrow> Some (sint x)
    | I16 x \<Rightarrow> Some (sint x)
    | I32 x \<Rightarrow> Some (sint x)
    | I64 x \<Rightarrow> Some (sint x)
    | I128 x \<Rightarrow> Some (sint x)
    | U8 x \<Rightarrow> Some (uint x)
    | U16 x \<Rightarrow> Some (uint x)
    | U32 x \<Rightarrow> Some (uint x)
    | U64 x \<Rightarrow> Some (uint x)
    | U128 x \<Rightarrow> Some (uint x)
    | Felt f \<Rightarrow> Some (felt_int f)
    | Bytes31 f \<Rightarrow> Some (felt_int f)
    | _ \<Rightarrow> None)"

definition get_numeric_args_as_bigints :: "val list \<Rightarrow> int list option" where
  "get_numeric_args_as_bigints = map_opt numeric_arg"

fun get_value_from_integer_fuel :: "nat \<Rightarrow> registry \<Rightarrow> type_id \<Rightarrow> int \<Rightarrow> val option" where
  "get_value_from_integer_fuel 0 R t i = None"
| "get_value_from_integer_fuel (Suc n) R t i =
    do {
      ty \<leftarrow> get_type R t;
      (case ty of
        NonZeroT e \<Rightarrow> get_value_from_integer_fuel n R e i
      | Sint8T \<Rightarrow> map_option I8 (to_signed i)
      | Sint16T \<Rightarrow> map_option I16 (to_signed i)
      | Sint32T \<Rightarrow> map_option I32 (to_signed i)
      | Sint64T \<Rightarrow> map_option I64 (to_signed i)
      | Sint128T \<Rightarrow> map_option I128 (to_signed i)
      | Uint8T \<Rightarrow> map_option U8 (to_unsigned i)
      | Uint16T \<Rightarrow> map_option U16 (to_unsigned i)
      | Uint32T \<Rightarrow> map_option U32 (to_unsigned i)
      | Uint64T \<Rightarrow> map_option U64 (to_unsigned i)
      | Uint128T \<Rightarrow> map_option U128 (to_unsigned i)
      | BoundedIntT r \<Rightarrow> Some (BoundedInt r i)
      | Felt252T \<Rightarrow> Some (Felt (felt_of_int i))
      | _ \<Rightarrow> None) }"

definition get_value_from_integer :: "registry \<Rightarrow> type_id \<Rightarrow> int \<Rightarrow> val option" where
  "get_value_from_integer R = get_value_from_integer_fuel (rec_limit R) R"

text \<open>\<open>range_of<T>()\<close>: from \<open>T::min_value()\<close> to one past \<open>T::max_value()\<close>.\<close>

definition range_of_unsigned :: "nat \<Rightarrow> int_range_t" where
  "range_of_unsigned w = \<lparr>rng_lower = 0, rng_upper = (2 ^ w - 1) + 1\<rparr>"

definition range_of_signed :: "nat \<Rightarrow> int_range_t" where
  "range_of_signed w = \<lparr>rng_lower = - (2 ^ (w - 1)), rng_upper = (2 ^ (w - 1) - 1) + 1\<rparr>"

fun integer_range_fuel :: "nat \<Rightarrow> registry \<Rightarrow> type_id \<Rightarrow> int_range_t option" where
  "integer_range_fuel 0 R t = None"
| "integer_range_fuel (Suc n) R t =
    do {
      ty \<leftarrow> get_type R t;
      (case ty of
        Uint8T \<Rightarrow> Some (range_of_unsigned 8)
      | Uint16T \<Rightarrow> Some (range_of_unsigned 16)
      | Uint32T \<Rightarrow> Some (range_of_unsigned 32)
      | Uint64T \<Rightarrow> Some (range_of_unsigned 64)
      | Uint128T \<Rightarrow> Some (range_of_unsigned 128)
      | Felt252T \<Rightarrow> Some \<lparr>rng_lower = 0, rng_upper = PRIME\<rparr>
      | Sint8T \<Rightarrow> Some (range_of_signed 8)
      | Sint16T \<Rightarrow> Some (range_of_signed 16)
      | Sint32T \<Rightarrow> Some (range_of_signed 32)
      | Sint64T \<Rightarrow> Some (range_of_signed 64)
      | Sint128T \<Rightarrow> Some (range_of_signed 128)
      | BoundedIntT r \<Rightarrow> Some r
      | Bytes31T \<Rightarrow> Some \<lparr>rng_lower = 0, rng_upper = 2 ^ 248\<rparr>
      | ConstT e _ \<Rightarrow> integer_range_fuel n R e
      | NonZeroT e \<Rightarrow> integer_range_fuel n R e
      | _ \<Rightarrow> None) }"

definition integer_range :: "registry \<Rightarrow> type_id \<Rightarrow> int_range_t option" where
  "integer_range R = integer_range_fuel (rec_limit R) R"

definition in_range :: "int_range_t \<Rightarrow> int \<Rightarrow> bool" where
  "in_range r i \<longleftrightarrow> rng_lower r \<le> i \<and> i < rng_upper r"

section \<open>Reading values\<close>

lemma numeric_arg_simps [simp]:
  "numeric_arg (BoundedInt r i) = Some i"
  "numeric_arg (I8 a) = Some (sint a)"
  "numeric_arg (I16 b) = Some (sint b)"
  "numeric_arg (I32 c) = Some (sint c)"
  "numeric_arg (I64 d) = Some (sint d)"
  "numeric_arg (I128 e) = Some (sint e)"
  "numeric_arg (U8 a) = Some (uint a)"
  "numeric_arg (U16 b) = Some (uint b)"
  "numeric_arg (U32 c) = Some (uint c)"
  "numeric_arg (U64 d) = Some (uint d)"
  "numeric_arg (U128 e) = Some (uint e)"
  "numeric_arg (Felt f) = Some (felt_int f)"
  "numeric_arg (Bytes31 f) = Some (felt_int f)"
  by (simp_all add: numeric_arg_def)

lemma numeric_args_simps [simp]:
  "get_numeric_args_as_bigints [] = Some []"
  "get_numeric_args_as_bigints (v # vs) =
    do { i \<leftarrow> numeric_arg v; is \<leftarrow> get_numeric_args_as_bigints vs; Some (i # is) }"
  by (simp_all add: get_numeric_args_as_bigints_def)

section \<open>Machine integer types\<close>

text \<open>
  The contract of a machine integer type of width \<open>w\<close>: \<open>enc\<close> builds the value of an
  integer of the range, \<open>numeric_arg\<close> reads it back.
\<close>

locale machine_int =
  fixes enc :: "int \<Rightarrow> val option" and lo :: int and w :: nat
  assumes width_pos: "0 < w"
    and lo_cases: "lo = 0 \<or> lo = - (2 ^ (w - 1))"
    and enc_in_range: "lo \<le> i \<Longrightarrow> i < lo + 2 ^ w \<Longrightarrow> \<exists>v. enc i = Some v \<and> numeric_arg v = Some i"
    and enc_out_of_range: "\<not> (lo \<le> i \<and> i < lo + 2 ^ w) \<Longrightarrow> enc i = None"
begin

lemma enc_Some_range: "enc i = Some v \<Longrightarrow> lo \<le> i \<and> i < lo + 2 ^ w"
  using enc_out_of_range [of i] by (cases "lo \<le> i \<and> i < lo + 2 ^ w") auto

lemma enc_reads_back: "enc i = Some v \<Longrightarrow> numeric_arg v = Some i"
  using enc_Some_range enc_in_range by fastforce

lemma enc_inj: "enc i = Some v \<Longrightarrow> enc j = Some v \<Longrightarrow> i = j"
  using enc_reads_back [of i v] enc_reads_back [of j v] by simp

text \<open>An integer of the wrong sign or size is one step of \<open>2 ^ w\<close> away from the range.\<close>

lemma wrap_value:
  "lo + (i - lo) mod 2 ^ w =
    (if i < lo then i + 2 ^ w else if lo + 2 ^ w \<le> i then i - 2 ^ w else i)"
  if "lo - 2 ^ w \<le> i" "i < lo + 2 * 2 ^ w"
proof -
  consider "i < lo" | "lo \<le> i" "i < lo + 2 ^ w" | "lo + 2 ^ w \<le> i" by linarith
  then show ?thesis
  proof cases
    case 1
    then have "(i - lo + 2 ^ w) mod 2 ^ w = i - lo + 2 ^ w"
      using that by (intro mod_pos_pos_trivial) auto
    with 1 show ?thesis by simp
  next
    case 2
    then show ?thesis by simp
  next
    case 3
    then have "(i - lo - 2 ^ w) mod 2 ^ w = i - lo - 2 ^ w"
      using that by (intro mod_pos_pos_trivial) auto
    moreover have "(i - lo - 2 ^ w) mod 2 ^ w = (i - lo) mod 2 ^ w" by simp
    moreover have "lo \<le> i" using 3 zero_less_power [of "2 :: int" w] by linarith
    ultimately show ?thesis using 3 by simp
  qed
qed

end

lemma unsigned_machine_int:
  assumes "\<And>i. enc i = map_option C (to_unsigned i :: 'a::len word option)"
    and "\<And>x. numeric_arg (C x) = Some (uint (x :: 'a word))" and "w = LENGTH('a)"
  shows "machine_int enc 0 w"
proof
  show "0 < w" "(0 :: int) = 0 \<or> 0 = - (2 ^ (w - 1))" by (simp_all add: assms(3))
  show "\<exists>v. enc i = Some v \<and> numeric_arg v = Some i" if "0 \<le> i" "i < 0 + 2 ^ w" for i
    using that by (auto simp: assms to_unsigned_def uint_word_of_int)
  show "enc i = None" if "\<not> (0 \<le> i \<and> i < 0 + 2 ^ w)" for i
    using that by (auto simp: assms to_unsigned_def)
qed

lemma signed_machine_int:
  assumes "\<And>i. enc i = map_option C (to_signed i :: 'a::len word option)"
    and "\<And>x. numeric_arg (C x) = Some (sint (x :: 'a word))" and "w = LENGTH('a)"
  shows "machine_int enc (- (2 ^ (w - 1))) w"
proof
  have two: "- (2 ^ (w - 1)) + 2 ^ w = (2 :: int) ^ (w - 1)"
    by (simp add: assms(3) power_eq_if [of 2 "LENGTH('a)"])
  show "0 < w" "- (2 ^ (w - 1)) = (0 :: int) \<or> - (2 ^ (w - 1)) = (- (2 ^ (w - 1)) :: int)"
    by (simp_all add: assms(3))
  show "\<exists>v. enc i = Some v \<and> numeric_arg v = Some i"
    if "- (2 ^ (w - 1)) \<le> i" "i < - (2 ^ (w - 1)) + 2 ^ w" for i
    using that unfolding two by (auto simp: assms to_signed_def sint_word_of_int_small)
  show "enc i = None" if "\<not> (- (2 ^ (w - 1)) \<le> i \<and> i < - (2 ^ (w - 1)) + 2 ^ w)" for i
    using that unfolding two by (auto simp: assms to_signed_def)
qed

interpretation mi_u8: machine_int "\<lambda>i. map_option U8 (to_unsigned i)" 0 8
  by (rule unsigned_machine_int [where C = U8]) simp_all
interpretation mi_u16: machine_int "\<lambda>i. map_option U16 (to_unsigned i)" 0 16
  by (rule unsigned_machine_int [where C = U16]) simp_all
interpretation mi_u32: machine_int "\<lambda>i. map_option U32 (to_unsigned i)" 0 32
  by (rule unsigned_machine_int [where C = U32]) simp_all
interpretation mi_u64: machine_int "\<lambda>i. map_option U64 (to_unsigned i)" 0 64
  by (rule unsigned_machine_int [where C = U64]) simp_all
interpretation mi_u128: machine_int "\<lambda>i. map_option U128 (to_unsigned i)" 0 128
  by (rule unsigned_machine_int [where C = U128]) simp_all
interpretation mi_i8: machine_int "\<lambda>i. map_option I8 (to_signed i)" "- (2 ^ (8 - 1))" 8
  by (rule signed_machine_int [where C = I8]) simp_all
interpretation mi_i16: machine_int "\<lambda>i. map_option I16 (to_signed i)" "- (2 ^ (16 - 1))" 16
  by (rule signed_machine_int [where C = I16]) simp_all
interpretation mi_i32: machine_int "\<lambda>i. map_option I32 (to_signed i)" "- (2 ^ (32 - 1))" 32
  by (rule signed_machine_int [where C = I32]) simp_all
interpretation mi_i64: machine_int "\<lambda>i. map_option I64 (to_signed i)" "- (2 ^ (64 - 1))" 64
  by (rule signed_machine_int [where C = I64]) simp_all
interpretation mi_i128: machine_int "\<lambda>i. map_option I128 (to_signed i)" "- (2 ^ (128 - 1))" 128
  by (rule signed_machine_int [where C = I128]) simp_all

section \<open>The ten machine integer types, uniformly\<close>

text \<open>Least value and width of a machine integer type, and the value of an integer at it.\<close>

definition int_bounds :: "core_type \<Rightarrow> (int \<times> nat) option" where
  "int_bounds ty =
    (case ty of
      Uint8T \<Rightarrow> Some (0, 8) | Uint16T \<Rightarrow> Some (0, 16) | Uint32T \<Rightarrow> Some (0, 32)
    | Uint64T \<Rightarrow> Some (0, 64) | Uint128T \<Rightarrow> Some (0, 128)
    | Sint8T \<Rightarrow> Some (- (2 ^ (8 - 1)), 8) | Sint16T \<Rightarrow> Some (- (2 ^ (16 - 1)), 16)
    | Sint32T \<Rightarrow> Some (- (2 ^ (32 - 1)), 32) | Sint64T \<Rightarrow> Some (- (2 ^ (64 - 1)), 64)
    | Sint128T \<Rightarrow> Some (- (2 ^ (128 - 1)), 128)
    | _ \<Rightarrow> None)"

definition encode_at :: "core_type \<Rightarrow> int \<Rightarrow> val option" where
  "encode_at ty =
    (case ty of
      Uint8T \<Rightarrow> (\<lambda>i. map_option U8 (to_unsigned i))
    | Uint16T \<Rightarrow> (\<lambda>i. map_option U16 (to_unsigned i))
    | Uint32T \<Rightarrow> (\<lambda>i. map_option U32 (to_unsigned i))
    | Uint64T \<Rightarrow> (\<lambda>i. map_option U64 (to_unsigned i))
    | Uint128T \<Rightarrow> (\<lambda>i. map_option U128 (to_unsigned i))
    | Sint8T \<Rightarrow> (\<lambda>i. map_option I8 (to_signed i))
    | Sint16T \<Rightarrow> (\<lambda>i. map_option I16 (to_signed i))
    | Sint32T \<Rightarrow> (\<lambda>i. map_option I32 (to_signed i))
    | Sint64T \<Rightarrow> (\<lambda>i. map_option I64 (to_signed i))
    | Sint128T \<Rightarrow> (\<lambda>i. map_option I128 (to_signed i))
    | _ \<Rightarrow> (\<lambda>i. None))"

lemma int_bounds_cases:
  assumes "int_bounds ty = Some (lo, w)"
  obtains "ty = Uint8T" "lo = 0" "w = 8" | "ty = Uint16T" "lo = 0" "w = 16"
    | "ty = Uint32T" "lo = 0" "w = 32" | "ty = Uint64T" "lo = 0" "w = 64"
    | "ty = Uint128T" "lo = 0" "w = 128"
    | "ty = Sint8T" "lo = - (2 ^ (8 - 1))" "w = 8"
    | "ty = Sint16T" "lo = - (2 ^ (16 - 1))" "w = 16"
    | "ty = Sint32T" "lo = - (2 ^ (32 - 1))" "w = 32"
    | "ty = Sint64T" "lo = - (2 ^ (64 - 1))" "w = 64"
    | "ty = Sint128T" "lo = - (2 ^ (128 - 1))" "w = 128"
  using assms by (cases ty) (auto simp: int_bounds_def)

lemma encode_at_machine_int:
  assumes "int_bounds ty = Some (lo, w)"
  shows "machine_int (encode_at ty) lo w"
  using assms
  by (cases rule: int_bounds_cases)
    (simp_all only: encode_at_def core_type.case mi_u8.machine_int_axioms
      mi_u16.machine_int_axioms mi_u32.machine_int_axioms mi_u64.machine_int_axioms
      mi_u128.machine_int_axioms mi_i8.machine_int_axioms mi_i16.machine_int_axioms
      mi_i32.machine_int_axioms mi_i64.machine_int_axioms mi_i128.machine_int_axioms)

text \<open>\<open>t\<close> is declared as the machine integer type \<open>ty\<close>.\<close>

definition int_type_at :: "registry \<Rightarrow> type_id \<Rightarrow> core_type \<Rightarrow> int \<Rightarrow> nat \<Rightarrow> bool" where
  "int_type_at R t ty lo w \<longleftrightarrow>
    get_type R t = Some ty \<and> int_bounds ty = Some (lo, w) \<and> 0 < rec_limit R"

lemma get_value_at:
  assumes "int_type_at R t ty lo w"
  shows "get_value_from_integer R t = encode_at ty"
proof (rule ext)
  fix i
  from assms obtain n where "rec_limit R = Suc n" "get_type R t = Some ty"
    "int_bounds ty = Some (lo, w)"
    unfolding int_type_at_def using gr0_implies_Suc by blast
  from this(3,1,2) show "get_value_from_integer R t i = encode_at ty i"
    by (cases rule: int_bounds_cases) (simp_all add: get_value_from_integer_def encode_at_def)
qed

lemma integer_range_at:
  assumes "int_type_at R t ty lo w"
  shows "integer_range R t = Some \<lparr>rng_lower = lo, rng_upper = lo + 2 ^ w\<rparr>"
proof -
  from assms obtain n where "rec_limit R = Suc n" "get_type R t = Some ty"
    "int_bounds ty = Some (lo, w)"
    unfolding int_type_at_def using gr0_implies_Suc by blast
  from this(3,1,2) show ?thesis
    by (cases rule: int_bounds_cases)
      (simp_all add: integer_range_def range_of_unsigned_def range_of_signed_def)
qed

lemma encode_at_total:
  "int_bounds ty = Some (lo, w) \<Longrightarrow> lo \<le> i \<Longrightarrow> i < lo + 2 ^ w \<Longrightarrow> \<exists>v. encode_at ty i = Some v"
  using machine_int.enc_in_range [OF encode_at_machine_int] by blast

lemma encode_at_mod:
  "int_bounds ty = Some (lo, w) \<Longrightarrow> \<exists>v. encode_at ty (lo + i mod 2 ^ w) = Some v"
  by (rule encode_at_total, assumption) simp_all

lemmas encode_at_range = machine_int.enc_Some_range [OF encode_at_machine_int]
lemmas encode_at_reads = machine_int.enc_reads_back [OF encode_at_machine_int]
lemmas encode_at_wrap = machine_int.wrap_value [OF encode_at_machine_int]

text \<open>The operands of a two-argument operation, read back.\<close>

lemma encode_at_args:
  assumes "int_bounds ty = Some (lo, w)"
    and "encode_at ty a = Some va" and "encode_at ty b = Some vb"
  shows "get_numeric_args_as_bigints [va, vb] = Some [a, b]"
    and "lo \<le> a" "a < lo + 2 ^ w" "lo \<le> b" "b < lo + 2 ^ w"
  using encode_at_reads [OF assms(1,2)] encode_at_reads [OF assms(1,3)]
    encode_at_range [OF assms(1,2)] encode_at_range [OF assms(1,3)] by simp_all

end
