(* ===== verification/Sample.thy ===== *)
theory Sample
  imports Numeric
begin

text \<open>
  A small program registry with one type of each kind, and signatures over it: the concrete
  inputs at which the theorems of the development are instantiated.
\<close>

definition sample_circuit :: circuit_info where
  "sample_circuit =
    \<lparr>n_inputs = 2, gate_values = fmap_of_list [(60, 3), (61, 4)],
     add_offsets = [\<lparr>gate_lhs = 1, gate_rhs = 2, gate_output = 3\<rparr>],
     mul_offsets = [\<lparr>gate_lhs = 3, gate_rhs = 3, gate_output = 4\<rparr>]\<rparr>"

definition sample_types :: "core_type list" where
  "sample_types =
    [Felt252T, Uint8T, Uint16T, Uint32T, Uint64T, Uint128T, Sint8T, Sint16T, Sint32T, Sint64T,
     Sint128T, RangeCheckT, GasBuiltinT, ArrayT 0, StructT [0, 1], EnumT [0, 14, 16],
     StructT [], BoxT 0, NonZeroT 5, SnapshotT 13, NullableT 0, Felt252DictT 0,
     BoundedIntT \<lparr>rng_lower = - 5, rng_upper = 11\<rparr>, BoundedIntT \<lparr>rng_lower = 0, rng_upper = 4\<rparr>,
     BoundedIntT \<lparr>rng_lower = - 1, rng_upper = 3\<rparr>, Felt252DictEntryT 0, IntRangeT 1,
     StructT [5, 5], UninitializedT 0, StarknetT SystemST, GasReserveT, BuiltinCostsT,
     StructT [0, 0], SnapshotT 32, BoxT 32, Bytes31T, SegmentArenaT, SquashedFelt252DictT 0,
     BoundedIntT \<lparr>rng_lower = - 5, rng_upper = 14\<rparr>,
     BoundedIntT \<lparr>rng_lower = - 8, rng_upper = 11\<rparr>,
     BoundedIntT \<lparr>rng_lower = - 15, rng_upper = 31\<rparr>,
     BoundedIntT \<lparr>rng_lower = 0, rng_upper = 11\<rparr>,
     BoundedIntT \<lparr>rng_lower = 0, rng_upper = 3\<rparr>,
     BoundedIntT \<lparr>rng_lower = - 5, rng_upper = 0\<rparr>,
     BoundedIntT \<lparr>rng_lower = - 4, rng_upper = 11\<rparr>,
     SnapshotT 15, SnapshotT 14, ConstT 0 [GArgValue 7],
     ConstT 1 [GArgValue 200], ConstT 14 [GArgType 47, GArgType 48],
     CircuitT (CircuitCT sample_circuit)]"

definition sample_registry :: registry where
  "sample_registry =
    \<lparr>get_type = nth_opt sample_types, get_libfunc = (\<lambda>_. None), get_function = (\<lambda>_. None),
     rec_limit = Suc (Suc (Suc (Suc (Suc (Suc 0)))))\<rparr>"

definition sg_of :: "type_id list \<Rightarrow> type_id list list \<Rightarrow> signature" where
  "sg_of ps bs = \<lparr>param_signatures = ps, branch_signatures = bs\<rparr>"

lemma sample_type [simp]:
  "get_type sample_registry t = nth_opt sample_types t"
  "rec_limit sample_registry = Suc (Suc (Suc (Suc (Suc (Suc 0)))))"
  by (simp_all add: sample_registry_def)

lemma sample_types_0 [simp]:
  "nth_opt sample_types 0 = Some Felt252T"
  "nth_opt sample_types (Suc 0) = Some Uint8T"
  by (simp_all add: sample_types_def)

lemma sg_of_ty [simp]:
  "branch_ty (sg_of ps bs) i j = do { b \<leftarrow> nth_opt bs i; nth_opt b j }"
  "param_ty (sg_of ps bs) i = nth_opt ps i"
  by (simp_all add: sg_of_def branch_ty_def param_ty_def)

lemma sample_int_types:
  "int_type_at sample_registry 1 Uint8T 0 8"
  "int_type_at sample_registry (Suc 0) Uint8T 0 8"
  "int_type_at sample_registry 2 Uint16T 0 16"
  "int_type_at sample_registry 3 Uint32T 0 32"
  "int_type_at sample_registry 5 Uint128T 0 128"
  "int_type_at sample_registry 6 Sint8T (- 128) 8"
  by (simp_all add: int_type_at_def int_bounds_def sample_types_def)

end
