(* ===== verification/LayoutFacts.thy ===== *)
theory LayoutFacts
  imports NativeLayout Sample
begin

text \<open>
  What the layouts of \<open>NativeLayout\<close> guarantee: they are well formed and padded, a zero-sized
  type has size 0, an enum has room for every payload, the compact integers are lossless, and
  the compiler and the interpreter give an integer type the same range.
\<close>

lemma less_two_pow_bits: "n < 2 ^ bits n"
proof (induction n rule: bits.induct)
  case (1 n)
  show ?case
  proof (cases "n = 0")
    case True
    then show ?thesis by (simp add: bits.simps [of 0])
  next
    case False
    with "1.IH" have "n div 2 < 2 ^ bits (n div 2)" by blast
    then show ?thesis using False by (simp add: bits.simps [of n])
  qed
qed

lemma bits_le: "n < 2 ^ k \<Longrightarrow> bits n \<le> k"
proof (induction n arbitrary: k rule: bits.induct)
  case (1 n)
  show ?case
  proof (cases "n = 0")
    case True
    then show ?thesis by (simp add: bits.simps [of 0])
  next
    case False
    with "1.prems" obtain j where k: "k = Suc j" by (cases k) auto
    then have "n div 2 < 2 ^ j" using "1.prems" by simp
    then have "bits (n div 2) \<le> j" using "1.IH" False by blast
    then show ?thesis using False k by (simp add: bits.simps [of n])
  qed
qed

lemma bits_le_iff: "bits n \<le> k \<longleftrightarrow> n < 2 ^ k"
  using less_two_pow_bits [of n] bits_le [of n k] power_increasing [of "bits n" k "2 :: nat"]
  by (meson le_less_trans less_le_trans one_le_numeral)

lemma length_le_tag: "length vs \<le> 2 ^ tag_bits vs"
  using less_two_pow_bits [of "length vs - 1"] by (simp add: tag_bits_def)

section \<open>Well-formed layouts\<close>

definition wf_layout :: "layout \<Rightarrow> bool" where
  "wf_layout L \<longleftrightarrow> lalign L \<in> {1, 2, 4, 8, 16} \<and> lsize L + lalign L \<le> 2 ^ 63"

definition align_ok :: "layout \<Rightarrow> bool" where
  "align_ok L \<longleftrightarrow> lalign L \<in> {1, 2, 4, 8, 16}"

lemma wf_align: "wf_layout L \<Longrightarrow> align_ok L"
  by (simp add: wf_layout_def align_ok_def)

definition padded :: "layout \<Rightarrow> bool" where
  "padded L \<longleftrightarrow> wf_layout L \<and> lalign L dvd lsize L"

lemma round_up_le: "0 < a \<Longrightarrow> s \<le> round_up s a"
proof -
  assume "0 < a"
  then have "s + (a - 1) < (s + (a - 1)) div a * a + a"
    by (metis add.commute dividend_less_times_div mult.commute)
  then show ?thesis using \<open>0 < a\<close> unfolding round_up_def by linarith
qed

lemma round_up_dvd [simp]: "a dvd round_up s a"
  by (simp add: round_up_def)

lemma round_up_least: "s \<le> t \<Longrightarrow> a dvd t \<Longrightarrow> round_up s a \<le> t"
proof (cases "a = 0")
  case False
  assume "s \<le> t" "a dvd t"
  then obtain k where "t = a * k" by blast
  then have "(s + (a - 1)) div a \<le> (k * a + (a - 1)) div a"
    using \<open>s \<le> t\<close> by (intro div_le_mono) (simp add: mult.commute)
  also have "\<dots> = ((a - 1) + k * a) div a" by (simp only: add.commute)
  also have "\<dots> = k + (a - 1) div a" using False by (rule div_mult_self1)
  also have "\<dots> = k" using False by simp
  finally have "(s + (a - 1)) div a \<le> k" .
  then show ?thesis using \<open>t = a * k\<close> mult_le_mono1 [of _ k a] by (simp only: round_up_def mult.commute [of a k])
qed (simp add: round_up_def)

lemma round_up_id [simp]: "a dvd s \<Longrightarrow> 0 < a \<Longrightarrow> round_up s a = s"
  using round_up_least [of s s a] round_up_le [of a s] by simp

lemma round_up_zero [simp]: "0 < a \<Longrightarrow> round_up 0 a = 0"
  by simp

lemma align_pos: "align_ok L \<Longrightarrow> 0 < lalign L"
  by (auto simp: align_ok_def)

lemma wf_pos: "wf_layout L \<Longrightarrow> 0 < lalign L"
  by (auto simp: wf_layout_def)

lemma align_dvd: "a \<in> {1, 2, 4, 8, 16} \<Longrightarrow> b \<in> {1, 2, 4, 8, 16 :: nat} \<Longrightarrow> a \<le> b \<Longrightarrow> a dvd b"
  by auto

lemma pad_wf: "wf_layout L \<Longrightarrow> padded (pad_to_align L)"
proof -
  assume wf: "wf_layout L"
  have "lalign L dvd 2 ^ 63 - lalign L" using wf by (auto simp: wf_layout_def)
  moreover have "lsize L \<le> 2 ^ 63 - lalign L" using wf unfolding wf_layout_def by linarith
  ultimately have "round_up (lsize L) (lalign L) \<le> 2 ^ 63 - lalign L" by (intro round_up_least)
  then show ?thesis using wf by (auto simp: padded_def wf_layout_def pad_to_align_def)
qed

lemma pad_padded [simp]: "padded L \<Longrightarrow> pad_to_align L = L"
  using wf_pos [of L] by (cases L) (simp add: padded_def pad_to_align_def)

lemma from_size_align_Ok: "from_size_align s a = Ok L \<longleftrightarrow> pow2 a \<and> s + a \<le> 2 ^ 63 \<and> L = \<lparr>lsize = s, lalign = a\<rparr>"
  by (auto simp: from_size_align_def)

lemma max_align: "a \<in> {1, 2, 4, 8, 16} \<Longrightarrow> b \<in> {1, 2, 4, 8, 16} \<Longrightarrow> max a b \<in> {1, 2, 4, 8, 16 :: nat}"
  by (simp add: max_def)

lemma layout_extend_Ok:
  assumes "layout_extend L M = Ok (N, off)" "align_ok L" "align_ok M"
  shows "wf_layout N" "lalign N = max (lalign L) (lalign M)" "lsize N = off + lsize M"
    "lsize L \<le> off" "lalign M dvd off" "off = round_up (lsize L) (lalign M)"
proof -
  have "off = round_up (lsize L) (lalign M) \<and>
      from_size_align (off + lsize M) (max (lalign L) (lalign M)) = Ok N"
    using assms(1) by (auto simp: layout_extend_def Let_def)
  then have off: "off = round_up (lsize L) (lalign M)"
    and N: "N = \<lparr>lsize = off + lsize M, lalign = max (lalign L) (lalign M)\<rparr>"
      "off + lsize M + max (lalign L) (lalign M) \<le> 2 ^ 63"
    unfolding from_size_align_Ok by blast+
  have "max (lalign L) (lalign M) \<in> {1, 2, 4, 8, 16}"
    using assms(2,3) unfolding align_ok_def by (intro max_align) simp_all
  then show "wf_layout N" unfolding wf_layout_def using N by simp
  show "lalign N = max (lalign L) (lalign M)" "lsize N = off + lsize M"
    "lsize L \<le> off" "lalign M dvd off" "off = round_up (lsize L) (lalign M)"
    using N off round_up_le [OF align_pos [OF assms(3)]] by simp_all
qed

lemma integer_layout_wf [simp]: "w \<le> 4294967296 \<Longrightarrow> wf_layout (get_integer_layout w)"
  by (auto simp: get_integer_layout_def wf_layout_def unit_layout_def)

lemma repr_bit_width_le [simp]: "repr_bit_width r \<le> 4294967296" "0 < repr_bit_width r"
  using mod_less_divisor [of "2 ^ 32" "big_bits (range_size r - 1)"]
  by (auto simp: repr_bit_width_def max_def simp del: mod_less_divisor)

lemma layout_repeat_wf:
  "layout_repeat L n = Ok (M, k) \<Longrightarrow> align_ok L \<Longrightarrow> wf_layout M"
  by (auto simp: layout_repeat_def Let_def from_size_align_Ok wf_layout_def align_ok_def split: if_splits)

lemma integer_align_ok [simp]: "align_ok (get_integer_layout w)"
  by (simp add: align_ok_def get_integer_layout_def unit_layout_def)

lemma simple_layouts_wf [simp]: "wf_layout unit_layout" "wf_layout ptr_layout" "wf_layout u64_layout"
  "align_ok unit_layout" "align_ok ptr_layout" "align_ok u64_layout"
  by (simp_all add: wf_layout_def align_ok_def unit_layout_def ptr_layout_def u64_layout_def)

lemma try_fold_inv:
  "try_fold f a xs = Ok b \<Longrightarrow> P a \<Longrightarrow> (\<And>a x b. P a \<Longrightarrow> f a x = Ok b \<Longrightarrow> P b) \<Longrightarrow> P b"
  by (induction xs arbitrary: a) auto

lemmas layout_extend_wf = layout_extend_Ok(1)

lemma enum_step_Ok:
  assumes "enum_step tag acc L = Ok N" "align_ok tag" "align_ok acc" "align_ok L"
  shows "wf_layout N" "lsize acc \<le> lsize N" "lalign acc \<le> lalign N" "lalign L \<le> lalign N"
    "round_up (lsize tag) (lalign L) + lsize L \<le> lsize N"
proof -
  obtain F off where F: "layout_extend tag L = Ok (F, off)"
    "from_size_align (max (lsize acc) (lsize F)) (max (lalign acc) (lalign F)) = Ok N"
    using assms(1) by (auto simp: enum_step_def)
  note ext = layout_extend_Ok [OF F(1) assms(2,4)]
  have N: "lsize N = max (lsize acc) (lsize F)" "lalign N = max (lalign acc) (lalign F)"
    "max (lsize acc) (lsize F) + max (lalign acc) (lalign F) \<le> 2 ^ 63"
    using F(2) by (simp_all add: from_size_align_Ok)
  have "lalign N \<in> {1, 2, 4, 8, 16}"
    using ext(1) assms(3) unfolding N(2) wf_layout_def align_ok_def by (intro max_align) simp_all
  then show "wf_layout N" using N by (simp add: wf_layout_def)
  show "lsize acc \<le> lsize N" "lalign acc \<le> lalign N" "lalign L \<le> lalign N"
    "round_up (lsize tag) (lalign L) + lsize L \<le> lsize N"
    using N(1,2) ext by simp_all
qed

lemma struct_step_wf:
  "struct_step acc L = Ok (N, k) \<Longrightarrow> (\<And>A. acc = Some A \<Longrightarrow> wf_layout A) \<Longrightarrow> wf_layout L \<Longrightarrow> wf_layout N"
  by (cases acc) (auto simp: struct_step_def intro: layout_extend_wf wf_align)

lemma repeat_integer_wf: "layout_repeat (get_integer_layout w) n = Ok (M, k) \<Longrightarrow> wf_layout M"
  by (rule layout_repeat_wf, assumption, simp)

lemma circuit_layout_wf: "circuit_layout ct = Ok L \<Longrightarrow> wf_layout L"
proof -
  assume a: "circuit_layout ct = Ok L"
  show ?thesis
  proof (cases ct)
    case CircuitOutputsCT
    with a obtain U u v where "layout_repeat (get_integer_layout 96) 4 = Ok (U, u)"
      "layout_extend ptr_layout U = Ok (L, v)"
      by (auto simp: circuit_layout_def)
    moreover from this have "wf_layout U" by (auto dest: repeat_integer_wf)
    ultimately show ?thesis using layout_extend_wf simple_layouts_wf(5) wf_align by blast
  next
    case CircuitInputAccumulatorCT
    with a obtain v where "layout_extend (get_integer_layout 64) ptr_layout = Ok (L, v)"
      by (auto simp: circuit_layout_def)
    then show ?thesis by (rule layout_extend_wf) simp_all
  qed (use a in \<open>auto simp: circuit_layout_def dest: repeat_integer_wf\<close>)
qed

lemma extend_wf2:
  "layout_extend L M = Ok (N, k) \<Longrightarrow> layout_extend N K = Ok (L', k') \<Longrightarrow> align_ok L \<Longrightarrow>
    align_ok M \<Longrightarrow> align_ok K \<Longrightarrow> wf_layout L'"
  using layout_extend_wf wf_align by blast

lemma starknet_layout_wf: "starknet_layout st = Ok L \<Longrightarrow> wf_layout L"
  by (cases st) (auto simp: starknet_layout_def intro: extend_wf2)

lemma array_layout_eq: "array_layout = Ok \<lparr>lsize = 20, lalign = 8\<rparr>"
  by (simp add: array_layout_def layout_extend_def ptr_layout_def get_integer_layout_def
      round_up_def from_size_align_def pow2_def upt_rec)

lemma array_layout_wf: "array_layout = Ok L \<Longrightarrow> wf_layout L"
  by (auto simp: array_layout_eq wf_layout_def)

lemma felt_array_layout_wf: "felt_array_layout n = Ok L \<Longrightarrow> wf_layout L"
  by (auto simp: felt_array_layout_def intro: repeat_integer_wf)

lemma layout_body_padded:
  assumes part: "\<And>ty M. part ty = Ok M \<Longrightarrow> wf_layout M" and L: "layout_body part R ty = Ok L"
  shows "padded L"
proof (cases ty)
  case (EnumT vs)
  define tag where "tag = get_integer_layout (tag_bits vs)"
  obtain M where M: "L = pad_to_align M"
    "try_fold (\<lambda>acc id. and_then (registry_get R id) (\<lambda>ty. and_then (part ty) (enum_step tag acc))) tag vs = Ok M"
    using L EnumT by (auto simp: layout_body_def Let_def tag_def)
  have "wf_layout M" if "vs = []"
    using M(2) that by (auto simp: tag_def tag_bits_def bits.simps [of 0])
  moreover have "wf_layout M" if v: "vs = v # vs'" for v vs'
  proof -
    obtain A ty L where "part ty = Ok L" "enum_step tag tag L = Ok A"
      and fold: "try_fold (\<lambda>acc id. and_then (registry_get R id) (\<lambda>ty. and_then (part ty)
        (enum_step tag acc))) A vs' = Ok M"
      using M(2) v by auto
    then have "wf_layout A" using part wf_align by (intro enum_step_Ok(1) [of tag tag L]) (auto simp: tag_def)
    with fold show ?thesis
      by (rule try_fold_inv) (auto simp: tag_def dest!: part dest: enum_step_Ok(1) intro: wf_align)
  qed
  ultimately have "wf_layout M" by (cases vs) auto
  then show ?thesis unfolding M(1) by (rule pad_wf)
next
  case (StructT ms)
  then obtain M where M: "L = pad_to_align (case M of Some L \<Rightarrow> L | None \<Rightarrow> unit_layout)"
    "try_fold (\<lambda>acc id. and_then (registry_get R id) (\<lambda>ty. and_then (part ty) (\<lambda>L.
        and_then (struct_step acc L) (\<lambda>(N, _). Ok (Some N))))) None ms = Ok M"
    using L by (auto simp: layout_body_def)
  have "\<forall>A. M = Some A \<longrightarrow> wf_layout A"
    by (rule try_fold_inv [OF M(2)]) (auto dest!: part intro: struct_step_wf)
  then show ?thesis unfolding M(1) by (intro pad_wf) (auto split: option.splits)
next
  case (IntRangeT e)
  then obtain M N k where "layout_extend M M = Ok (N, k)" "wf_layout M" "L = pad_to_align N"
    using L part by (auto simp: layout_body_def)
  then show ?thesis using layout_extend_wf pad_wf wf_align by blast
next
  case (Felt252DictEntryT e)
  then obtain N k where "layout_extend ptr_layout ptr_layout = Ok (N, k)" "L = pad_to_align N"
    using L by (auto simp: layout_body_def)
  then show ?thesis using layout_extend_wf simple_layouts_wf(5) pad_wf by blast
qed (use L part in \<open>auto simp: layout_body_def intro!: pad_wf dest: starknet_layout_wf circuit_layout_wf
      felt_array_layout_wf repeat_integer_wf array_layout_wf\<close>)

lemma layout_fuel_padded: "layout_fuel n R ty = Ok L \<Longrightarrow> padded L"
proof (induction n arbitrary: ty L)
  case (Suc n)
  have "wf_layout M" if "layout_fuel n R ty' = Ok M" for ty' M
    using Suc.IH [OF that] by (simp add: padded_def)
  then show ?case using Suc.prems layout_body_padded [of "layout_fuel n R"] by simp
qed simp

section \<open>Fuel\<close>

lemma try_fold_mono:
  "try_fold f a xs = Ok b \<Longrightarrow> (\<And>a x b. f a x = Ok b \<Longrightarrow> g a x = Ok b) \<Longrightarrow> try_fold g a xs = Ok b"
  by (induction xs arbitrary: a) auto

lemma layout_body_mono:
  assumes part: "\<And>ty M. part ty = Ok M \<Longrightarrow> part' ty = Ok M" and L: "layout_body part R ty = Ok L"
  shows "layout_body part' R ty = Ok L"
proof (cases ty)
  case (EnumT vs)
  define tag where "tag = get_integer_layout (tag_bits vs)"
  obtain M where M: "L = pad_to_align M"
    "try_fold (\<lambda>acc id. and_then (registry_get R id) (\<lambda>ty. and_then (part ty) (enum_step tag acc))) tag vs = Ok M"
    using L EnumT by (auto simp: layout_body_def Let_def tag_def)
  have "try_fold (\<lambda>acc id. and_then (registry_get R id) (\<lambda>ty. and_then (part' ty) (enum_step tag acc))) tag vs = Ok M"
    by (rule try_fold_mono [OF M(2)]) (auto dest: part)
  with M(1) EnumT show ?thesis by (auto simp: layout_body_def Let_def tag_def)
next
  case (StructT ms)
  then obtain M where M: "L = pad_to_align (case M of Some L \<Rightarrow> L | None \<Rightarrow> unit_layout)"
    "try_fold (\<lambda>acc id. and_then (registry_get R id) (\<lambda>ty. and_then (part ty) (\<lambda>L.
        and_then (struct_step acc L) (\<lambda>(N, _). Ok (Some N))))) None ms = Ok M"
    using L by (auto simp: layout_body_def)
  have "try_fold (\<lambda>acc id. and_then (registry_get R id) (\<lambda>ty. and_then (part' ty) (\<lambda>L.
        and_then (struct_step acc L) (\<lambda>(N, _). Ok (Some N))))) None ms = Ok M"
    by (rule try_fold_mono [OF M(2)]) (auto dest: part)
  with M(1) StructT show ?thesis by (auto simp: layout_body_def)
qed (use L part in \<open>auto simp: layout_body_def\<close>)

lemma layout_fuel_Suc: "layout_fuel n R ty = Ok L \<Longrightarrow> layout_fuel (Suc n) R ty = Ok L"
proof (induction n arbitrary: ty L)
  case (Suc n)
  then show ?case using layout_body_mono [of "layout_fuel n R" "layout_fuel (Suc n) R"] by simp
qed simp

lemma ty_layout_padded: "ty_layout R ty = Ok L \<Longrightarrow> padded L"
  unfolding ty_layout_def by (rule layout_fuel_padded)

lemma ty_layout_wf: "ty_layout R ty = Ok L \<Longrightarrow> wf_layout L" "ty_layout R ty = Ok L \<Longrightarrow> align_ok L"
  using ty_layout_padded wf_align by (auto simp: padded_def)

text \<open>The layout of a type in terms of the layouts of its parts.\<close>

lemma ty_layout_body: "ty_layout R ty = Ok L \<Longrightarrow> layout_body (ty_layout R) R ty = Ok L"
proof (cases "rec_limit R")
  case (Suc n)
  assume "ty_layout R ty = Ok L"
  then have "layout_body (layout_fuel n R) R ty = Ok L" by (simp add: ty_layout_def Suc)
  then show ?thesis
    by (rule layout_body_mono [rotated]) (use layout_fuel_Suc Suc in \<open>simp add: ty_layout_def del: layout_fuel.simps\<close>)
qed (simp add: ty_layout_def)

section \<open>Zero-sized types\<close>

lemma all_members_True: "all_members f ms = Ok True \<longleftrightarrow> (\<forall>m \<in> set ms. f m = Ok True)"
  by (induction ms) (auto split: if_splits)

lemma zero_struct:
  "try_fold (\<lambda>acc id. and_then (registry_get R id) (\<lambda>ty. and_then (part ty) (\<lambda>L.
      and_then (struct_step acc L) (\<lambda>(N, _). Ok (Some N))))) acc ms = Ok M \<Longrightarrow>
    (\<And>A. acc = Some A \<Longrightarrow> lsize A = 0) \<Longrightarrow>
    (\<And>m ty L. m \<in> set ms \<Longrightarrow> get_type R m = Some ty \<Longrightarrow> part ty = Ok L \<Longrightarrow> lsize L = 0 \<and> 0 < lalign L) \<Longrightarrow>
    (case M of Some A \<Rightarrow> lsize A = 0 | None \<Rightarrow> True)"
proof (induction ms arbitrary: acc)
  case Nil
  then show ?case by (auto split: option.splits)
next
  case (Cons m ms)
  then obtain ty L N k where m: "get_type R m = Some ty" "part ty = Ok L" "struct_step acc L = Ok (N, k)"
    and rest: "try_fold (\<lambda>acc id. and_then (registry_get R id) (\<lambda>ty. and_then (part ty) (\<lambda>L.
      and_then (struct_step acc L) (\<lambda>(N, _). Ok (Some N))))) (Some N) ms = Ok M"
    by auto
  have "lsize L = 0" "0 < lalign L" using Cons.prems(3) m by auto
  then have "lsize N = 0"
    using m(3) Cons.prems(2) by (auto simp: struct_step_def layout_extend_def from_size_align_Ok split: option.splits)
  then show ?case by (intro Cons.IH [OF rest]) (use Cons.prems(3) in auto)
qed

lemma zst_fuel_layout:
  "is_zst_fuel n R ty = Ok True \<Longrightarrow> ty_layout R ty = Ok L \<Longrightarrow> lsize L = 0"
proof (induction n arbitrary: ty L)
  case (Suc n)
  note body = ty_layout_body [OF Suc.prems(2)]
  have pad: "lsize (pad_to_align M) = 0" if "lsize M = 0" "0 < lalign M" for M
    using that by (simp add: pad_to_align_def)
  have pos: "0 < lalign M" if "ty_layout R ty' = Ok M" for ty' M
    using ty_layout_wf(2) [OF that] by (rule align_pos)
  have wrapped: "lsize (pad_to_align M) = 0"
    if "get_type R e = Some ty'" "is_zst_fuel n R ty' = Ok True" "ty_layout R ty' = Ok M" for e ty' M
    using Suc.IH [OF that(2,3)] pos [OF that(3)] by (rule pad)
  show ?case
  proof (cases ty)
    case (EnumT vs)
    show ?thesis
    proof (cases vs)
      case Nil
      then show ?thesis using body EnumT
        by (auto simp: layout_body_def tag_bits_def bits.simps [of 0] get_integer_layout_def pad_to_align_def unit_layout_def)
    next
      case (Cons v vs')
      then have vs: "vs = [v]" using Suc.prems(1) EnumT by (cases vs') auto
      then obtain ty' M N where v: "get_type R v = Some ty'" "ty_layout R ty' = Ok M"
        "enum_step unit_layout unit_layout M = Ok N" "L = pad_to_align N"
        using body EnumT
        by (auto simp: layout_body_def tag_bits_def bits.simps [of 0] get_integer_layout_def)
      then have "lsize M = 0" using Suc.IH [of ty' M] Suc.prems(1) EnumT vs by auto
      then have "lsize N = 0" "0 < lalign N" using v(3) pos [OF v(2)]
        by (auto simp: enum_step_def layout_extend_def from_size_align_Ok unit_layout_def)
      then show ?thesis using v(4) pad by simp
    qed
  next
    case (StructT ms)
    then obtain M where M: "L = pad_to_align (case M of Some L \<Rightarrow> L | None \<Rightarrow> unit_layout)"
      "try_fold (\<lambda>acc id. and_then (registry_get R id) (\<lambda>ty. and_then (ty_layout R ty) (\<lambda>L.
          and_then (struct_step acc L) (\<lambda>(N, _). Ok (Some N))))) None ms = Ok M"
      using body by (auto simp: layout_body_def)
    have "\<forall>m \<in> set ms. and_then (registry_get R m) (is_zst_fuel n R) = Ok True"
      using Suc.prems(1) StructT by (simp add: all_members_True)
    then have "case M of Some A \<Rightarrow> lsize A = 0 | None \<Rightarrow> True"
      using Suc.IH pos by (intro zero_struct [OF M(2)]) auto
    moreover have "\<forall>A. M = Some A \<longrightarrow> wf_layout A"
      by (rule try_fold_inv [OF M(2)]) (auto dest!: ty_layout_wf(1) intro: struct_step_wf)
    ultimately show ?thesis
      unfolding M(1) by (intro pad) (auto simp: unit_layout_def wf_pos split: option.splits)
  next
    case (IntRangeT e)
    then obtain ty' M N k where "get_type R e = Some ty'" "ty_layout R ty' = Ok M"
      "layout_extend M M = Ok (N, k)" "L = pad_to_align N"
      using body by (auto simp: layout_body_def)
    moreover from this have "lsize M = 0" "0 < lalign M" using Suc IntRangeT pos by auto
    ultimately show ?thesis by (auto simp: layout_extend_def from_size_align_Ok intro!: pad)
  qed (use Suc.prems(1) body wrapped in \<open>auto simp: layout_body_def pad_to_align_def unit_layout_def
      circuit_is_zst_def circuit_layout_def split: circuit_type.splits\<close>)
qed simp

section \<open>Enums\<close>

definition payload_fits :: "layout \<Rightarrow> layout \<Rightarrow> layout \<Rightarrow> bool" where
  "payload_fits tag L P \<longleftrightarrow>
    (\<exists>F off. layout_extend tag P = Ok (F, off) \<and> lsize tag \<le> off \<and> lalign P dvd off \<and>
      off + lsize P \<le> lsize L \<and> lalign P \<le> lalign L)"

lemma enum_step_fits:
  assumes "enum_step tag acc P = Ok N" "align_ok tag" "align_ok acc" "align_ok P"
  shows "payload_fits tag N P" "payload_fits tag acc Q \<Longrightarrow> payload_fits tag N Q"
    "lsize acc \<le> lsize N" "align_ok N"
proof -
  note s = enum_step_Ok [OF assms]
  obtain F off where F: "layout_extend tag P = Ok (F, off)" using assms(1) by (auto simp: enum_step_def)
  note ext = layout_extend_Ok [OF F assms(2,4)]
  show "payload_fits tag N P"
    unfolding payload_fits_def using F ext s by auto
  show "payload_fits tag N Q" if "payload_fits tag acc Q"
    using that s(2,3) by (auto simp: payload_fits_def)
  show "lsize acc \<le> lsize N" "align_ok N" using s wf_align by simp_all
qed

lemma variants_fold:
  assumes "try_fold
      (\<lambda>acc id. and_then (registry_get R id) (\<lambda>ty. and_then (ty_layout R ty) (enum_step tag acc))) acc vs = Ok L"
    and "align_ok tag" "align_ok acc"
  shows "\<exists>Ls. try_fold
      (\<lambda>(acc, out) id. and_then (registry_get R id) (\<lambda>ty. and_then (ty_layout R ty) (\<lambda>L.
        and_then (enum_step tag acc L) (\<lambda>N. Ok (N, out @ [L]))))) (acc, out) vs = Ok (L, out @ Ls) \<and>
      list_all2 (\<lambda>v P. \<exists>ty. get_type R v = Some ty \<and> ty_layout R ty = Ok P \<and> payload_fits tag L P) vs Ls \<and>
      lsize acc \<le> lsize L \<and> (\<forall>Q. payload_fits tag acc Q \<longrightarrow> payload_fits tag L Q)"
  using assms(1,3)
proof (induction vs arbitrary: acc out)
  case (Cons v vs)
  obtain ty P N where v: "get_type R v = Some ty" "ty_layout R ty = Ok P" "enum_step tag acc P = Ok N"
    and rest: "try_fold (\<lambda>acc id. and_then (registry_get R id) (\<lambda>ty. and_then (ty_layout R ty)
      (enum_step tag acc))) N vs = Ok L"
    using Cons.prems(1) by auto
  note s = enum_step_fits [OF v(3) assms(2) Cons.prems(2) ty_layout_wf(2) [OF v(2)]]
  from Cons.IH [OF rest s(4), of "out @ [P]"] v s show ?case by auto
qed auto

text \<open>The two computations of an enum's layout agree up to the final padding.\<close>

lemma enum_layout_variants:
  assumes "ty_layout R (EnumT vs) = Ok M"
  obtains L Ls where "get_layout_for_variants R vs = Ok (L, get_integer_layout (tag_bits vs), Ls)"
    "M = pad_to_align L" "lsize (get_integer_layout (tag_bits vs)) \<le> lsize L"
    "list_all2 (\<lambda>v P. \<exists>ty. get_type R v = Some ty \<and> ty_layout R ty = Ok P \<and>
      payload_fits (get_integer_layout (tag_bits vs)) L P) vs Ls"
proof -
  let ?tag = "get_integer_layout (tag_bits vs)"
  obtain L where L: "M = pad_to_align L"
    "try_fold (\<lambda>acc id. and_then (registry_get R id) (\<lambda>ty. and_then (ty_layout R ty) (enum_step ?tag acc)))
      ?tag vs = Ok L"
    using ty_layout_body [OF assms] by (auto simp: layout_body_def Let_def)
  from variants_fold [OF L(2), of "[]"] L(1) that show thesis
    by (auto simp: get_layout_for_variants_def Let_def)
qed

lemma integer_layout_bits: "w \<le> 8 * lsize (get_integer_layout w)"
  by (auto simp: get_integer_layout_def unit_layout_def)

lemma variants_le_tag: "length vs \<le> 2 ^ (8 * lsize (get_integer_layout (tag_bits vs)))"
  using length_le_tag [of vs] integer_layout_bits [of "tag_bits vs"]
    power_increasing [of "tag_bits vs" _ "2 :: nat"] by (meson le_trans one_le_numeral)

section \<open>Padding\<close>

lemma pow2_iff: "pow2 a \<longleftrightarrow> (\<exists>k < 64. a = 2 ^ k)"
  by (auto simp: pow2_def list_ex_iff)

lemma and_not_mask: "x AND NOT (2 ^ k - 1) = push_bit k (drop_bit k x)" for x :: "'a::len word"
  by (rule bit_word_eqI)
    (auto simp: bit_simps simp flip: mask_eq_exp_minus_1)

lemma unat_align_down: "unat (push_bit k (drop_bit k x)) = unat x div 2 ^ k * 2 ^ k" for x :: "'a::len word"
proof -
  have d: "unat (drop_bit k x) = unat x div 2 ^ k"
    by (subst unsigned_drop_bit_eq) (simp add: drop_bit_eq_div take_bit_nat_eq_self)
  have "unat x div 2 ^ k * 2 ^ k \<le> unat x" by simp
  then have "unat x div 2 ^ k * 2 ^ k < 2 ^ LENGTH('a)" using unsigned_less [of x] by (rule le_less_trans)
  then show ?thesis
    by (subst unsigned_push_bit_eq) (simp add: d push_bit_eq_mult take_bit_nat_eq_self)
qed

lemma padding_needed_for_eq:
  assumes "k < 63" "lsize L + 2 ^ k \<le> 2 ^ 63"
  shows "unat (padding_needed_for L (2 ^ k)) = round_up (lsize L) (2 ^ k) - lsize L"
proof -
  define s where "s = lsize L"
  have pos: "(1 :: nat) \<le> 2 ^ k" by simp
  have fits: "s + (2 ^ k - 1) < 2 ^ 64" using assms(2) by (simp add: s_def)
  have "(of_nat s + 2 ^ k - 1 :: u64) = of_nat (s + (2 ^ k - 1))"
    by (simp only: of_nat_add of_nat_diff [OF pos] of_nat_power of_nat_numeral of_nat_1) (simp add: algebra_simps)
  then have "unat (of_nat s + 2 ^ k - 1 :: u64) = s + (2 ^ k - 1)"
    using fits by (simp add: unat_of_nat)
  then have up: "unat ((of_nat s + 2 ^ k - 1 :: u64) AND NOT (2 ^ k - 1)) = round_up s (2 ^ k)"
    unfolding and_not_mask unat_align_down by (simp add: round_up_def)
  have "s < 2 ^ 64" by (rule le_less_trans [OF le_add1 fits])
  then have s: "unat (of_nat s :: u64) = s" by (simp add: unat_of_nat)
  have "(of_nat s :: u64) \<le> (of_nat s + 2 ^ k - 1) AND NOT (2 ^ k - 1)"
    unfolding word_le_nat_alt up s by (rule round_up_le) simp
  then show ?thesis
    unfolding padding_needed_for_def Let_def s_def [symmetric] by (simp only: unat_sub up s)
qed

text \<open>
  The bit trick that computes padding is right for every layout: at any alignment that is
  a power of two, it gives the least number of bytes after which the next address is aligned,
  as long as the padded size fits the address space.
\<close>
theorem padding_needed_for_least:
  assumes "k < 63" "lsize L + 2 ^ k \<le> 2 ^ 63"
  shows "2 ^ k dvd lsize L + unat (padding_needed_for L (2 ^ k)) \<and>
    unat (padding_needed_for L (2 ^ k)) < 2 ^ k \<and>
    (\<forall>n. 2 ^ k dvd lsize L + n \<longrightarrow> unat (padding_needed_for L (2 ^ k)) \<le> n)"
proof -
  let ?r = "round_up (lsize L) (2 ^ k)"
  have le: "lsize L \<le> ?r" by (rule round_up_le) simp
  have "?r \<le> lsize L + (2 ^ k - 1)" by (simp add: round_up_def)
  moreover have "(1 :: nat) \<le> 2 ^ k" by simp
  ultimately have "?r - lsize L < 2 ^ k" using le by linarith
  moreover have "?r - lsize L \<le> n" if "2 ^ k dvd lsize L + n" for n
    using round_up_least [of "lsize L" "lsize L + n" "2 ^ k"] that by simp
  ultimately show ?thesis
    using le unfolding padding_needed_for_eq [OF assms]
    by auto
qed

theorem padding_needed_for_least_witness:
  "2 ^ 2 dvd lsize \<lparr>lsize = 9, lalign = 1\<rparr> + unat (padding_needed_for \<lparr>lsize = 9, lalign = 1\<rparr> (2 ^ 2)) \<and>
    unat (padding_needed_for \<lparr>lsize = 9, lalign = 1\<rparr> (2 ^ 2)) < 2 ^ 2 \<and>
    (\<forall>n. 2 ^ 2 dvd lsize \<lparr>lsize = 9, lalign = 1\<rparr> + n \<longrightarrow>
      unat (padding_needed_for \<lparr>lsize = 9, lalign = 1\<rparr> (2 ^ 2)) \<le> n)"
  by (rule padding_needed_for_least) simp_all

section \<open>Properties of layouts\<close>

text \<open>
  Every layout the compiler computes is well formed and padded: the alignment is a power
  of two up to 16, the size is a multiple of it and stays within the bound of the allocator,
  and padding it again changes nothing.
\<close>
theorem layouts_padded:
  assumes "ty_layout R ty = Ok L"
  shows "lalign L \<in> {1, 2, 4, 8, 16} \<and> lalign L dvd lsize L \<and> lsize L + lalign L \<le> 2 ^ 63 \<and>
    pad_to_align L = L"
  using ty_layout_padded [OF assms] pad_padded [of L] by (auto simp: padded_def wf_layout_def)

text \<open>
  A type the compiler takes to be zero-sized has a layout of size 0, wrappers, structs,
  enums and circuit types included.
\<close>
theorem zst_layouts_empty:
  assumes "is_zst R ty = Ok True" "ty_layout R ty = Ok L"
  shows "lsize L = 0"
  using assms unfolding is_zst_def by (rule zst_fuel_layout)

text \<open>
  C39: The layout of an enum has room for its tag and, behind it and aligned, for the payload of
  every variant; the tag has room for every variant's index, and the two computations of the
  layout, for the type and for its variants, agree up to the final padding.
\<close>
theorem enum_payloads_fit:
  assumes "ty_layout R (EnumT vs) = Ok M"
  shows "\<exists>L tag Ls. get_layout_for_variants R vs = Ok (L, tag, Ls) \<and> M = pad_to_align L \<and>
    lsize tag \<le> lsize L \<and> length vs \<le> 2 ^ (8 * lsize tag) \<and>
    list_all2 (\<lambda>v P. (\<exists>ty. get_type R v = Some ty \<and> ty_layout R ty = Ok P) \<and>
      (\<exists>F off. layout_extend tag P = Ok (F, off) \<and> lsize tag \<le> off \<and> lalign P dvd off \<and>
        off + lsize P \<le> lsize L)) vs Ls"
proof (rule enum_layout_variants [OF assms])
  fix L Ls
  assume a: "get_layout_for_variants R vs = Ok (L, get_integer_layout (tag_bits vs), Ls)"
    "M = pad_to_align L" "lsize (get_integer_layout (tag_bits vs)) \<le> lsize L"
    "list_all2 (\<lambda>v P. \<exists>ty. get_type R v = Some ty \<and> ty_layout R ty = Ok P \<and>
      payload_fits (get_integer_layout (tag_bits vs)) L P) vs Ls"
  have "list_all2 (\<lambda>v P. (\<exists>ty. get_type R v = Some ty \<and> ty_layout R ty = Ok P) \<and>
      (\<exists>F off. layout_extend (get_integer_layout (tag_bits vs)) P = Ok (F, off) \<and>
        lsize (get_integer_layout (tag_bits vs)) \<le> off \<and> lalign P dvd off \<and>
        off + lsize P \<le> lsize L)) vs Ls"
    using a(4) by (rule list_all2_mono) (auto simp: payload_fits_def)
  with a(1-3) variants_le_tag [of vs] show ?thesis by blast
qed

section \<open>Compact integers\<close>

lemma from_to_bytes_le: "from_bytes_le (to_bytes_le n) = n"
proof (induction n rule: to_bytes_le.induct)
  case (1 n)
  show ?case
  proof (cases "n < 256")
    case True
    then show ?thesis by (simp add: to_bytes_le.simps [of n] from_bytes_le_def unat_of_nat)
  next
    case False
    have "unat (of_nat (n mod 256) :: u8) = n mod 256" by (simp add: unat_of_nat)
    then show ?thesis using False "1.IH"
      by (subst to_bytes_le.simps) (simp add: from_bytes_le_def)
  qed
qed

lemma length_to_bytes_le: "n < 256 ^ k \<Longrightarrow> 0 < k \<Longrightarrow> length (to_bytes_le n) \<le> k"
proof (induction n arbitrary: k rule: to_bytes_le.induct)
  case (1 n)
  show ?case
  proof (cases "n < 256")
    case True
    then show ?thesis using "1.prems"(2) by (simp add: to_bytes_le.simps [of n])
  next
    case False
    with "1.prems" obtain j where k: "k = Suc j" "0 < j" by (cases k; cases "k - 1") auto
    then have "n div 256 < 256 ^ j" using "1.prems" by (simp add: less_mult_imp_div_less mult.commute)
    with "1.IH" False k show ?thesis by (simp add: to_bytes_le.simps [of n])
  qed
qed

lemma from_bytes_le_zeros: "from_bytes_le (bs @ replicate m 0) = from_bytes_le bs"
  by (induction bs) (auto simp: from_bytes_le_def, induction m, auto)

lemma repr_encode_decode:
  assumes "repr_encode r v = Some bs" "range_size r \<le> 2 ^ 256"
  shows "length bs = lsize (get_integer_layout (repr_bit_width r))"
    "repr_decode r (from_bytes_le bs) = (v - rng_lower r) mod PRIME + rng_lower r"
    "(v - rng_lower r) mod PRIME < range_size r"
proof -
  define stored where "stored = (v - rng_lower r) mod PRIME"
  have s: "0 \<le> stored" "stored < range_size r" "stored < PRIME"
    using assms(1) by (auto simp: stored_def repr_encode_def Let_def split: if_splits)
  define w where "w = repr_bit_width r"
  have "bits (nat (range_size r - 1)) \<le> 256"
    using assms(2) s by (simp add: bits_le_iff nat_less_iff)
  then have w: "bits (nat (range_size r - 1)) \<le> w" "0 < w"
    using s by (auto simp: w_def repr_bit_width_def big_bits_def)
  then have "nat (range_size r - 1) < 2 ^ w" by (simp add: bits_le_iff)
  then have less: "nat stored < 2 ^ w" using s by linarith
  have size: "w \<le> 8 * lsize (get_integer_layout w)" by (rule integer_layout_bits)
  have "nat stored < 256 ^ lsize (get_integer_layout w)"
    by (rule less_le_trans [OF less]) (use power_increasing [OF size, of "2 :: nat"] in \<open>simp add: power_mult\<close>)
  moreover have "0 < lsize (get_integer_layout w)" using size w(2) by linarith
  ultimately have len: "length (to_bytes_le (nat stored)) \<le> lsize (get_integer_layout w)"
    by (rule length_to_bytes_le)
  have bs: "bs = to_bytes_le (nat stored) @ replicate (lsize (get_integer_layout w) - length (to_bytes_le (nat stored))) 0"
    using assms(1) len by (auto simp: repr_encode_def Let_def stored_def [symmetric] w_def resize_def split: if_splits)
  show "length bs = lsize (get_integer_layout (repr_bit_width r))"
    using len by (simp add: bs w_def)
  have "stored AND (2 ^ w - 1) = stored"
    using s less by (simp add: take_bit_eq_mask [symmetric] mask_eq_exp_minus_1 [symmetric] take_bit_int_eq_self nat_less_iff)
  then show "repr_decode r (from_bytes_le bs) = (v - rng_lower r) mod PRIME + rng_lower r"
    using s by (simp add: repr_decode_def bs from_bytes_le_zeros from_to_bytes_le w_def [symmetric] stored_def [symmetric])
  show "(v - rng_lower r) mod PRIME < range_size r" using s by (simp add: stored_def)
qed

text \<open>
  C40: The compact representation of a bounded integer is lossless: a value is encoded exactly
  when it stands for a number of the range modulo the prime, the bytes fill the integer's
  layout, and decoding them, whatever the bits above the width, gives that number of the range.
\<close>
theorem repr_roundtrip:
  assumes "range_size r \<le> PRIME"
  shows "(repr_encode r v = None \<longleftrightarrow>
      (\<forall>i. rng_lower r \<le> i \<and> i < rng_upper r \<longrightarrow> i mod PRIME \<noteq> v mod PRIME)) \<and>
    (\<forall>i bs. rng_lower r \<le> i \<and> i < rng_upper r \<and> i mod PRIME = v mod PRIME \<and> repr_encode r v = Some bs \<longrightarrow>
      length bs = lsize (get_integer_layout (repr_bit_width r)) \<and>
      (\<forall>k. repr_decode r (from_bytes_le bs + 2 ^ repr_bit_width r * k) = i))"
proof -
  have stored: "(v - rng_lower r) mod PRIME = i - rng_lower r"
    if "rng_lower r \<le> i" "i < rng_upper r" "i mod PRIME = v mod PRIME" for i
  proof -
    have "(v - rng_lower r) mod PRIME = (i - rng_lower r) mod PRIME"
      using that(3) by (metis mod_diff_left_eq)
    also have "\<dots> = i - rng_lower r"
      using that(1,2) assms by (intro mod_pos_pos_trivial) (simp_all add: range_size_def)
    finally show ?thesis .
  qed
  have "\<exists>i. rng_lower r \<le> i \<and> i < rng_upper r \<and> i mod PRIME = v mod PRIME" if "repr_encode r v \<noteq> None"
  proof -
    define i where "i = (v - rng_lower r) mod PRIME + rng_lower r"
    have "(v - rng_lower r) mod PRIME < range_size r"
      using that by (auto simp: repr_encode_def Let_def split: if_splits)
    then have "rng_lower r \<le> i" "i < rng_upper r" by (simp_all add: i_def range_size_def)
    moreover have "i mod PRIME = v mod PRIME" by (simp add: i_def mod_simps)
    ultimately show ?thesis by blast
  qed
  moreover have "repr_encode r v \<noteq> None"
    if "rng_lower r \<le> i" "i < rng_upper r" "i mod PRIME = v mod PRIME" for i
    using stored [OF that] that(2) by (simp add: repr_encode_def Let_def range_size_def)
  moreover have "length bs = lsize (get_integer_layout (repr_bit_width r)) \<and>
      repr_decode r (from_bytes_le bs + 2 ^ repr_bit_width r * k) = i"
    if "rng_lower r \<le> i" "i < rng_upper r" "i mod PRIME = v mod PRIME" "repr_encode r v = Some bs" for i bs k
  proof -
    have "range_size r \<le> 2 ^ 256" using assms by (simp add: PRIME_def)
    note ed = repr_encode_decode [OF that(4) this]
    have "repr_decode r (from_bytes_le bs + 2 ^ repr_bit_width r * k) = repr_decode r (from_bytes_le bs)"
      by (simp add: repr_decode_def mask_eq_exp_minus_1 [symmetric] take_bit_eq_mask [symmetric] take_bit_eq_mod)
    with ed stored [OF that(1-3)] show ?thesis by simp
  qed
  ultimately show ?thesis by blast
qed

theorem repr_roundtrip_witness:
  "repr_encode \<lparr>rng_lower = - 5, rng_upper = 11\<rparr> 20 = None \<longleftrightarrow>
    (\<forall>i. - 5 \<le> i \<and> i < 11 \<longrightarrow> i mod PRIME \<noteq> 20 mod PRIME)"
  using repr_roundtrip [of "\<lparr>rng_lower = - 5, rng_upper = 11\<rparr>" 20] by (simp add: range_size_def PRIME_def)

lemma big_bits_less: "0 \<le> i \<Longrightarrow> i < 2 ^ big_bits i"
  using less_two_pow_bits [of "nat i"] by (simp add: big_bits_def nat_less_iff)

lemma big_bits_le: "\<bar>i\<bar> < 2 ^ k \<Longrightarrow> big_bits i \<le> k"
  by (simp add: big_bits_def bits_le_iff nat_less_iff)

text \<open>
  The natural width of a range has room for every number of the range: unsigned when the
  range has no negative number, in two's complement otherwise.
\<close>
theorem zero_based_width_fits:
  assumes "- (2 ^ 256) \<le> rng_lower r" "rng_upper r \<le> 2 ^ 256" "rng_lower r \<le> i" "i < rng_upper r"
  shows "if rng_lower r < 0
    then - (2 ^ (zero_based_bit_width r - 1)) \<le> i \<and> i < 2 ^ (zero_based_bit_width r - 1)
    else 0 \<le> i \<and> i < 2 ^ zero_based_bit_width r"
proof (cases "rng_lower r < 0")
  case True
  define l where "l = \<bar>rng_lower r\<bar> - 1"
  define u where "u = rng_upper r - 1"
  define uw where "uw = (if u < 0 then big_bits (\<bar>u\<bar> - 1) + 1 else if u = 0 then 0 else big_bits u + 1)"
  define w where "w = max (big_bits l + 1) uw"
  have l: "0 \<le> l" "l < 2 ^ 256" using True assms(1) by (auto simp: l_def)
  have u: "u < 2 ^ 256" "- (2 ^ 256) \<le> u" using assms by (auto simp: u_def)
  have "big_bits l \<le> 256" using l by (intro big_bits_le) simp
  moreover have "big_bits u \<le> 256" if "0 < u" using u that by (intro big_bits_le) simp
  moreover have "big_bits (\<bar>u\<bar> - 1) \<le> 256" if "u < 0" using u that by (intro big_bits_le) auto
  ultimately have "w \<le> 257" by (auto simp: w_def uw_def)
  moreover have "1 \<le> w" by (simp add: w_def)
  moreover have "zero_based_bit_width r = max (w mod 2 ^ 32) 1"
    unfolding zero_based_bit_width_def Let_def w_def uw_def l_def u_def by (simp only: if_P [OF True])
  ultimately have eq: "zero_based_bit_width r = w" by simp
  have "l < 2 ^ big_bits l" by (rule big_bits_less [OF l(1)])
  also have "(2 :: int) ^ big_bits l \<le> 2 ^ (w - 1)" by (intro power_increasing) (simp_all add: w_def)
  finally have lo: "- (2 ^ (w - 1)) \<le> i" using True assms(3) by (simp add: l_def)
  have "i < 2 ^ (w - 1)"
  proof (cases "0 < u")
    case pos: True
    have "u < 2 ^ big_bits u" using pos by (intro big_bits_less) simp
    also have "(2 :: int) ^ big_bits u \<le> 2 ^ (w - 1)" using pos by (intro power_increasing) (auto simp: w_def uw_def)
    finally show ?thesis using assms(4) by (simp add: u_def)
  next
    case False
    then have "i \<le> 0" using assms(4) by (simp add: u_def)
    also have "(0 :: int) < 2 ^ (w - 1)" by simp
    finally show ?thesis .
  qed
  with lo True show ?thesis by (simp add: eq)
next
  case False
  have u: "0 \<le> rng_upper r - 1" "rng_upper r - 1 < 2 ^ 256" using False assms by simp_all
  then have "big_bits (rng_upper r - 1) \<le> 256" by (intro big_bits_le) simp
  then have "big_bits (rng_upper r - 1) \<le> zero_based_bit_width r"
    using False by (simp add: zero_based_bit_width_def)
  then have "(2 :: int) ^ big_bits (rng_upper r - 1) \<le> 2 ^ zero_based_bit_width r" by (intro power_increasing) simp_all
  then have "i < 2 ^ zero_based_bit_width r" using big_bits_less [OF u(1)] assms(4) by linarith
  with False assms(3) show ?thesis by simp
qed

theorem zero_based_width_fits_witness:
  "- (2 ^ (zero_based_bit_width \<lparr>rng_lower = - 128, rng_upper = 128\<rparr> - 1)) \<le> (- 128 :: int) \<and>
    (- 128 :: int) < 2 ^ (zero_based_bit_width \<lparr>rng_lower = - 128, rng_upper = 128\<rparr> - 1)"
  using zero_based_width_fits [of "\<lparr>rng_lower = - 128, rng_upper = 128\<rparr>" "- 128"] by simp

section \<open>Two implementations of integer ranges\<close>

lemma integer_range_fuel_agree:
  "get_type R t = Some ty \<Longrightarrow> native_integer_range_fuel n R ty = Ok r \<longleftrightarrow> integer_range_fuel n R t = Some r"
proof (induction n arbitrary: t ty)
  case (Suc n)
  have inner: "and_then (registry_get R e) (native_integer_range_fuel n R) = Ok r \<longleftrightarrow>
      integer_range_fuel n R e = Some r" for e
  proof (cases "get_type R e")
    case None
    then show ?thesis by (cases n) (simp_all add: registry_get_def ok_or_def)
  next
    case (Some ty')
    with Suc.IH [OF Some] show ?thesis by simp
  qed
  show ?case
    using Suc.prems inner
    by (cases ty) (simp_all add: native_range_unsigned_def native_range_signed_def range_of_unsigned_def
        range_of_signed_def del: and_then_Ok)
qed simp

text \<open>
  The compiler and the interpreter agree on the integer types: for every declared type,
  one computes a range exactly when the other does, and it is the same range; types that are
  not integers are an error in the one and a panic in the other.
\<close>
theorem integer_ranges_agree:
  assumes "get_type R t = Some ty"
  shows "native_integer_range R ty = Ok r \<longleftrightarrow> integer_range R t = Some r"
  unfolding native_integer_range_def integer_range_def by (rule integer_range_fuel_agree [OF assms])

theorem integer_ranges_agree_witness:
  "native_integer_range sample_registry Uint8T = Ok (native_range_unsigned 8) \<longleftrightarrow>
    integer_range sample_registry 1 = Some (native_range_unsigned 8)"
  by (rule integer_ranges_agree) (simp add: sample_types_def)

section \<open>Layouts of sample types\<close>

lemma bits_small: "bits 0 = 0" "bits (Suc 0) = Suc 0" "bits 2 = 2" "bits (Suc (Suc 0)) = 2"
  by (simp_all add: bits.simps [of 2] bits.simps [of "Suc (Suc 0)"] bits.simps [of "Suc 0"] bits.simps [of 0])

lemma pow2_small: "pow2 (Suc 0)" "pow2 8" "pow2 16"
  by (auto simp: pow2_iff intro: exI [of _ 0] exI [of _ 3] exI [of _ 4])

lemma sample_enum_layout:
  "ty_layout sample_registry (EnumT [0, 14, 16]) = Ok \<lparr>lsize = 64, lalign = 16\<rparr>"
  "ty_layout sample_registry (StructT []) = Ok unit_layout"
  "is_zst sample_registry (StructT []) = Ok True"
  by (simp_all add: ty_layout_def is_zst_def layout_body_def tag_bits_def bits_small get_integer_layout_def
      registry_get_def ok_or_def sample_types_def enum_step_def layout_extend_def struct_step_def
      pad_to_align_def unit_layout_def round_up_def from_size_align_def pow2_small Let_def max_def)

theorem layouts_padded_witness:
  "16 \<in> {1, 2, 4, 8, 16 :: nat} \<and> (16 :: nat) dvd 64 \<and> 64 + 16 \<le> (2 :: nat) ^ 63 \<and>
    pad_to_align \<lparr>lsize = 64, lalign = 16\<rparr> = \<lparr>lsize = 64, lalign = 16\<rparr>"
  using layouts_padded [OF sample_enum_layout(1)] by simp

theorem zst_layouts_empty_witness: "lsize unit_layout = 0"
  using sample_enum_layout(3,2) by (rule zst_layouts_empty)

theorem enum_payloads_fit_witness:
  "\<exists>L tag Ls. get_layout_for_variants sample_registry [0, 14, 16] = Ok (L, tag, Ls) \<and>
    \<lparr>lsize = 64, lalign = 16\<rparr> = pad_to_align L \<and> lsize tag \<le> lsize L \<and>
    length [0 :: nat, 14, 16] \<le> 2 ^ (8 * lsize tag)"
  using enum_payloads_fit [OF sample_enum_layout(1)] by blast

end
