(* ===== verification/Externs.thy ===== *)
theory Externs
  imports Values
begin

text \<open>
  The functions of other crates that the interpreter calls, as a record of parameters, the
  named hypotheses that state their documented behaviour, and one concrete instance that
  satisfies the hypotheses (it is what the witnesses are evaluated with). The outcome of a
  libfunc, \<open>EvalAction\<close> of \<open>debug_utils/sierra-emu/src/vm.rs\<close>, is here too, because
  every evaluator returns it.
\<close>

section \<open>The outcome of a libfunc\<close>

datatype eval_action =
    NormalBranch nat "val list"
  | FunctionCall function_id "val list"

section \<open>Parameters\<close>

type_synonym affine = "felt \<times> felt"
type_synonym projective = "felt \<times> felt \<times> felt"

record externs =
  \<comment> \<open>\<open>cairo_lang_runner::token_gas_cost\<close>, \<open>CostTokenType::iter_casm_tokens\<close>\<close>
  ex_token_gas_cost :: "cost_token \<Rightarrow> nat"
  ex_casm_tokens :: "cost_token list"
  \<comment> \<open>the two costs of \<open>cairo_lang_sierra_gas::core_libfunc_cost\<close> a squash refunds\<close>
  ex_dict_unique_key_cost :: int
  ex_dict_repeated_access_cost :: int
  \<comment> \<open>\<open>num_bigint\<close> and \<open>num_integer\<close>: \<open>sqrt\<close>, \<open>modinv\<close>, \<open>extended_gcd(..).gcd\<close>\<close>
  ex_sqrt :: "int \<Rightarrow> int option"
  ex_modinv :: "nat \<Rightarrow> nat \<Rightarrow> nat option option"
  ex_gcd :: "nat \<Rightarrow> nat \<Rightarrow> nat"
  \<comment> \<open>\<open>starknet_types_core\<close>: \<open>Felt::field_div\<close>, \<open>Felt::sqrt\<close> and the curve points\<close>
  ex_field_div :: "felt \<Rightarrow> felt \<Rightarrow> felt"
  ex_felt_sqrt :: "felt \<Rightarrow> felt option"
  ex_affine_new :: "felt \<Rightarrow> felt \<Rightarrow> affine option"
  ex_affine_neg :: "affine \<Rightarrow> affine"
  ex_from_affine :: "felt \<Rightarrow> felt \<Rightarrow> projective option"
  ex_proj_add :: "projective \<Rightarrow> projective \<Rightarrow> projective"
  ex_proj_mul :: "projective \<Rightarrow> felt \<Rightarrow> projective"
  ex_to_affine :: "projective \<Rightarrow> affine option"
  ex_beta :: felt
  \<comment> \<open>\<open>starknet_crypto\<close>: \<open>pedersen_hash\<close>, \<open>poseidon_permute_comp\<close>\<close>
  ex_pedersen_hash :: "felt \<Rightarrow> felt \<Rightarrow> felt"
  ex_poseidon_permute :: "felt \<times> felt \<times> felt \<Rightarrow> felt \<times> felt \<times> felt"
  \<comment> \<open>\<open>cairo_lang_sierra\<close>: \<open>EditState\<close> on the variables of a frame, \<open>StatementIdx::next\<close>\<close>
  ex_take_vars :: "vstate \<Rightarrow> var_id list \<Rightarrow> (vstate \<times> val list) option"
  ex_put_vars :: "vstate \<Rightarrow> (var_id \<times> val) list \<Rightarrow> vstate option"
  ex_next_idx :: "statement_idx \<Rightarrow> branch_target \<Rightarrow> statement_idx"

section \<open>Documented behaviour, as named hypotheses\<close>

text \<open>\<open>sqrt\<close>: the truncated square root of a non-negative integer.\<close>

definition sqrt_ok :: "externs \<Rightarrow> bool" where
  "sqrt_ok E \<longleftrightarrow> (\<forall>n r. 0 \<le> n \<longrightarrow>
    (ex_sqrt E n = Some r \<longleftrightarrow> 0 \<le> r \<and> r * r \<le> n \<and> n < (r + 1) * (r + 1)))"

text \<open>
  \<open>modinv\<close>: the inverse modulo a non-zero modulus, as a number below the modulus, when
  there is one.
\<close>

definition modinv_ok :: "externs \<Rightarrow> bool" where
  "modinv_ok E \<longleftrightarrow> (\<forall>a m. 0 < m \<longrightarrow>
    (\<exists>res. ex_modinv E a m = Some res \<and>
      (case res of
        Some r \<Rightarrow> r < m \<and> a * r mod m = 1 mod m
      | None \<Rightarrow> (\<forall>r. a * r mod m \<noteq> 1 mod m))))"

definition gcd_ok :: "externs \<Rightarrow> bool" where
  "gcd_ok E \<longleftrightarrow> (\<forall>a b. ex_gcd E a b = gcd a b)"

text \<open>\<open>field_div\<close> inverts multiplication by a non-zero element.\<close>

definition field_div_ok :: "externs \<Rightarrow> felt \<Rightarrow> felt \<Rightarrow> bool" where
  "field_div_ok E a b \<longleftrightarrow> (b \<noteq> 0 \<longrightarrow> ex_field_div E a b * b = a)"

text \<open>
  The curve is \<open>y * y = x * x * x + x + beta\<close>: \<open>AffinePoint::new\<close> accepts the points on
  it, \<open>to_affine\<close> fails exactly at infinity, and \<open>sqrt\<close> returns a root.
\<close>

definition on_curve :: "externs \<Rightarrow> felt \<Rightarrow> felt \<Rightarrow> bool" where
  "on_curve E x y \<longleftrightarrow> y * y = x * x * x + (x + ex_beta E)"

definition curve_ok :: "externs \<Rightarrow> bool" where
  "curve_ok E \<longleftrightarrow>
    (\<forall>x y. ex_affine_new E x y = (if on_curve E x y then Some (x, y) else None)) \<and>
    (\<forall>p. ex_affine_neg E p = (fst p, - snd p)) \<and>
    (\<forall>x y z. (ex_to_affine E (x, y, z) = None) = (z = 0)) \<and>
    (\<forall>f r. ex_felt_sqrt E f = Some r \<longrightarrow> r * r = f)"

text \<open>
  \<open>take_vars\<close> removes the listed variables and returns their values in order, and fails
  when one is missing (a variable listed twice is missing the second time). \<open>put_vars\<close>
  adds variables and fails when one is already there.
\<close>

fun take_vars_spec :: "vstate \<Rightarrow> var_id list \<Rightarrow> (vstate \<times> val list) option" where
  "take_vars_spec s [] = Some (s, [])"
| "take_vars_spec s (x # xs) =
    do {
      v \<leftarrow> fmlookup s x;
      (s', vs) \<leftarrow> take_vars_spec (fmdrop x s) xs;
      Some (s', v # vs) }"

fun put_vars_spec :: "vstate \<Rightarrow> (var_id \<times> val) list \<Rightarrow> vstate option" where
  "put_vars_spec s [] = Some s"
| "put_vars_spec s ((x, v) # xvs) =
    (case fmlookup s x of
      Some _ \<Rightarrow> None
    | None \<Rightarrow> put_vars_spec (fmupd x v s) xvs)"

definition edit_state_ok :: "externs \<Rightarrow> bool" where
  "edit_state_ok E \<longleftrightarrow> ex_take_vars E = take_vars_spec \<and> ex_put_vars E = put_vars_spec"

definition next_idx_ok :: "externs \<Rightarrow> bool" where
  "next_idx_ok E \<longleftrightarrow>
    (\<forall>pc. ex_next_idx E pc Fallthrough = pc + 1) \<and> (\<forall>pc i. ex_next_idx E pc (Statement i) = i)"

section \<open>A concrete instance\<close>

text \<open>Integer square root, one bit pair at a time.\<close>

fun isqrt :: "nat \<Rightarrow> nat" where
  "isqrt n =
    (if n = 0 then 0
     else let r = 2 * isqrt (n div 4) in if (r + 1) * (r + 1) \<le> n then r + 1 else r)"

declare isqrt.simps [simp del]

lemma isqrt_bounds: "isqrt n * isqrt n \<le> n \<and> n < (isqrt n + 1) * (isqrt n + 1)"
proof (induction n rule: isqrt.induct)
  case (1 n)
  show ?case
  proof (cases "n = 0")
    case True
    then show ?thesis by (simp add: isqrt.simps [of 0])
  next
    case False
    define q where "q = isqrt (n div 4)"
    from "1.IH" [OF False] have lo: "q * q \<le> n div 4" and hi: "n div 4 < (q + 1) * (q + 1)"
      by (simp_all add: q_def)
    from lo have "4 * (q * q) \<le> n" by linarith
    moreover from hi have "n < 4 * ((q + 1) * (q + 1))"
      by (metis div_less_iff_less_mult mult.commute zero_less_numeral)
    ultimately show ?thesis
      using False by (auto simp: isqrt.simps [of n] q_def [symmetric] Let_def algebra_simps)
  qed
qed

lemma sqrt_unique:
  fixes r q n :: int
  assumes "0 \<le> r" "r * r \<le> n" "n < (r + 1) * (r + 1)"
    and "0 \<le> q" "q * q \<le> n" "n < (q + 1) * (q + 1)"
  shows "r = q"
proof -
  have "r * r < (q + 1) * (q + 1)" "q * q < (r + 1) * (r + 1)" using assms by linarith+
  moreover have "b * b \<le> a * a" if "0 \<le> b" "b \<le> a" for a b :: int
    using that by (intro mult_mono) auto
  ultimately have "r < q + 1" "q < r + 1"
    using assms(1,4) by (metis add_increasing2 leD leI zero_le_one)+
  then show ?thesis by simp
qed

definition ref_sqrt :: "int \<Rightarrow> int option" where
  "ref_sqrt n = (if n < 0 then None else Some (int (isqrt (nat n))))"

definition ref_modinv :: "nat \<Rightarrow> nat \<Rightarrow> nat option option" where
  "ref_modinv a m =
    (if m = 0 then None else Some (find (\<lambda>r. a * r mod m = 1 mod m) [0 ..< m]))"

definition ref_field_div :: "felt \<Rightarrow> felt \<Rightarrow> felt" where
  "ref_field_div a b = (if b = 1 then a else 0)"

text \<open>
  The curve and hash parameters of the instance are not the real ones: no named hypothesis
  speaks of them.
\<close>

definition ref_externs :: externs where
  "ref_externs =
    \<lparr>ex_token_gas_cost = (\<lambda>t. case t of ConstTok \<Rightarrow> 1 | _ \<Rightarrow> 100),
     ex_casm_tokens = [ConstTok, PedersenTok, BitwiseTok, EcOpTok, PoseidonTok, AddModTok, MulModTok],
     ex_dict_unique_key_cost = 1500, ex_dict_repeated_access_cost = 500,
     ex_sqrt = ref_sqrt, ex_modinv = ref_modinv, ex_gcd = gcd,
     ex_field_div = ref_field_div, 
     ex_felt_sqrt = (\<lambda>f. if f = 0 then Some 0 else None),
     ex_affine_new = (\<lambda>x y. if y * y = x * x * x + (x + 0) then Some (x, y) else None),
     ex_affine_neg = (\<lambda>(x, y). (x, - y)),
     ex_from_affine = (\<lambda>x y. Some (x, y, 1)), ex_proj_add = (\<lambda>p q. q),
     ex_proj_mul = (\<lambda>p k. p), ex_to_affine = (\<lambda>(x, y, z). if z = 0 then None else Some (x, y)),
     ex_beta = 0,
     ex_pedersen_hash = (\<lambda>a b. a + b), ex_poseidon_permute = (\<lambda>(a, b, c). (b, c, a)),
     ex_take_vars = take_vars_spec, ex_put_vars = put_vars_spec,
     ex_next_idx = (\<lambda>pc t. case t of Fallthrough \<Rightarrow> pc + 1 | Statement i \<Rightarrow> i)\<rparr>"

lemma ref_externs_sel [simp]:
  "ex_token_gas_cost ref_externs t = (case t of ConstTok \<Rightarrow> 1 | _ \<Rightarrow> 100)"
  "ex_casm_tokens ref_externs =
    [ConstTok, PedersenTok, BitwiseTok, EcOpTok, PoseidonTok, AddModTok, MulModTok]"
  "ex_dict_unique_key_cost ref_externs = 1500"
  "ex_dict_repeated_access_cost ref_externs = 500"
  "ex_sqrt ref_externs = ref_sqrt" "ex_modinv ref_externs = ref_modinv"
  "ex_gcd ref_externs = gcd" "ex_field_div ref_externs = ref_field_div"
  "ex_take_vars ref_externs = take_vars_spec" "ex_put_vars ref_externs = put_vars_spec"
  "ex_next_idx ref_externs pc Fallthrough = pc + 1"
  "ex_next_idx ref_externs pc (Statement i) = i"
  by (simp_all add: ref_externs_def)

lemma ref_sqrt_ok: "sqrt_ok ref_externs"
  unfolding sqrt_ok_def
proof (intro allI impI)
  fix n r :: int
  assume n: "0 \<le> n"
  have "isqrt (nat n) * isqrt (nat n) \<le> nat n"
    "nat n < (isqrt (nat n) + 1) * (isqrt (nat n) + 1)"
    using isqrt_bounds [of "nat n"] by blast+
  then have "int (isqrt (nat n) * isqrt (nat n)) \<le> n"
    "n < int ((isqrt (nat n) + 1) * (isqrt (nat n) + 1))"
    using n by linarith+
  then have b: "int (isqrt (nat n)) * int (isqrt (nat n)) \<le> n"
    "n < (int (isqrt (nat n)) + 1) * (int (isqrt (nat n)) + 1)"
    by (simp_all add: algebra_simps)
  show "(ex_sqrt ref_externs n = Some r) = (0 \<le> r \<and> r * r \<le> n \<and> n < (r + 1) * (r + 1))"
    using b n sqrt_unique [of r n "int (isqrt (nat n))"]
    by (auto simp: ref_externs_def ref_sqrt_def)
qed

lemma ref_modinv_ok: "modinv_ok ref_externs"
  unfolding modinv_ok_def
proof (intro allI impI)
  fix a m :: nat
  assume m: "0 < m"
  show "\<exists>res. ex_modinv ref_externs a m = Some res \<and>
      (case res of None \<Rightarrow> \<forall>r. a * r mod m \<noteq> 1 mod m | Some r \<Rightarrow> r < m \<and> a * r mod m = 1 mod m)"
  proof (cases "find (\<lambda>r. a * r mod m = 1 mod m) [0 ..< m]")
    case None
    then have none: "a * r mod m \<noteq> 1 mod m" if "r < m" for r
      using that by (auto simp: find_None_iff)
    have "a * r mod m \<noteq> 1 mod m" for r
      using none [of "r mod m"] m by (simp add: mod_mult_right_eq)
    then show ?thesis using None m by (simp add: ref_externs_def ref_modinv_def)
  next
    case (Some r)
    then have "r < m" "a * r mod m = 1 mod m" by (auto simp: find_Some_iff)
    then show ?thesis using Some m by (simp add: ref_externs_def ref_modinv_def)
  qed
qed

lemma ref_curve_ok: "curve_ok ref_externs"
  by (auto simp: curve_ok_def on_curve_def ref_externs_def)

lemma ref_gcd_ok: "gcd_ok ref_externs"
  by (simp add: gcd_ok_def ref_externs_def)

lemma ref_edit_state_ok: "edit_state_ok ref_externs"
  by (simp add: edit_state_ok_def ref_externs_def)

lemma ref_next_idx_ok: "next_idx_ok ref_externs"
  by (simp add: next_idx_ok_def ref_externs_def)

section \<open>Taking and putting variables\<close>

lemma map_lookup_drop:
  "map (fmlookup (fmdrop x s)) xs = map Some vs \<longleftrightarrow>
    x \<notin> set xs \<and> map (fmlookup s) xs = map Some vs"
proof (induction xs arbitrary: vs)
  case (Cons y ys)
  have "fmlookup (fmdrop x s) y = (if y = x then None else fmlookup s y)" by simp
  then show ?case by (cases vs) (auto simp: Cons.IH simp del: fmlookup_drop)
qed simp

lemma take_vars_spec_Some:
  "take_vars_spec s xs = Some (s', vs) \<longleftrightarrow>
    distinct xs \<and> map (fmlookup s) xs = map Some vs \<and> s' = fmdrop_set (set xs) s"
proof (induction xs arbitrary: s s' vs)
  case Nil
  then show ?case by auto
next
  case (Cons x xs)
  have drop: "fmdrop_set (set xs) (fmdrop x s) = fmdrop_set (set (x # xs)) s"
    by (rule fmap_ext) auto
  have "take_vars_spec s (x # xs) = Some (s', vs) \<longleftrightarrow>
      (\<exists>v ws. fmlookup s x = Some v \<and> vs = v # ws \<and>
        take_vars_spec (fmdrop x s) xs = Some (s', ws))"
    by (auto simp: bind_Some)
  then show ?case
    unfolding Cons.IH map_lookup_drop drop by (cases vs) auto
qed

lemma put_vars_spec_Some:
  "put_vars_spec s xvs = Some s' \<longleftrightarrow>
    distinct (map fst xvs) \<and> set (map fst xvs) \<inter> fset (fmdom s) = {} \<and>
    s' = s ++\<^sub>f fmap_of_list xvs"
proof (induction xvs arbitrary: s)
  case Nil
  then show ?case by auto
next
  case (Cons xv xvs)
  obtain x v where xv: "xv = (x, v)" by (cases xv)
  have upd: "fmupd x v s ++\<^sub>f fmap_of_list xvs = s ++\<^sub>f fmap_of_list ((x, v) # xvs)"
    if "x \<notin> set (map fst xvs)"
  proof (rule fmap_ext)
    fix y
    from that have none: "map_of xvs x = None"
      by (auto simp: map_of_eq_None_iff)
    have add: "fmlookup (m ++\<^sub>f fmap_of_list ys) y =
        (case map_of ys y of Some w \<Rightarrow> Some w | None \<Rightarrow> fmlookup m y)"
      for m :: vstate and ys
      by (simp add: fmadd.rep_eq fmap_of_list.rep_eq map_add_def)
    show "fmlookup (fmupd x v s ++\<^sub>f fmap_of_list xvs) y =
        fmlookup (s ++\<^sub>f fmap_of_list ((x, v) # xvs)) y"
      unfolding add using none by (cases "map_of xvs y") auto
  qed
  show ?case
    using Cons.IH [of "fmupd x v s"] upd xv
    by (auto split: option.splits simp: fmdom_notI)
qed

end
