(* ===== verification/NativeValues.thy ===== *)
theory NativeValues
  imports LayoutFacts Syscalls Externs
begin

text \<open>
  \<open>src/values.rs\<close>: the values the native compiler's callers pass and receive, \<open>Value::to_ptr\<close>,
  which writes a value into memory in the representation compiled code expects, and
  \<open>Value::from_ptr\<close>, which reads it back.

  Memory is a partial map from addresses to cells: a cell that was not written is undefined,
  and reading it is a \<open>Panic\<close>. A pointer takes eight cells, which only make sense together, and
  addresses are unbounded: running out of memory is not modelled. The two arenas (the caller's \<open>Bump\<close> and the one of the execution
  in \<open>src/runtime.rs\<close>) are the \<open>bumpalo\<close> crate's: where an allocation lands is a parameter.
  A dictionary is a Rust object that lives in the arena, so it is kept in a store of its own,
  under its address. \<open>debug_name\<close> fields take no part in comparisons and are left out.
\<close>

section \<open>Values\<close>

datatype (plugins only: size code) nval =
    NFelt252 felt
  | NBytes31 "u8 list"
  | NArray "nval list"
  | NStruct "nval list"
  | NEnum nat nval
  | NFelt252Dict "(felt, nval) fmap"
  | NUint8 u8
  | NUint16 u16
  | NUint32 u32
  | NUint64 u64
  | NUint128 u128
  | NSint8 i8
  | NSint16 i16
  | NSint32 i32
  | NSint64 i64
  | NSint128 i128
  | NEcPoint felt felt
  | NEcState felt felt
  | NQM31 u32 u32 u32 u32
  | NSecp256K1Point secp256k1_point
  | NSecp256R1Point secp256r1_point
  | NBoundedInt felt int_range_t
  | NIntRange nval nval
  | NNull

section \<open>Memory\<close>

record felt_dict =
  fd_mappings :: "(felt, nat) fmap"
  fd_capacity :: nat
  fd_layout :: layout
  fd_elements :: nat
  fd_count :: u64

datatype cell = Byte u8 | PtrPart nat nat

record heap =
  hp_mem :: "nat \<Rightarrow> cell option"
  hp_blocks :: "(nat \<times> nat) list"
  hp_dicts :: "nat \<Rightarrow> felt_dict option"

text \<open>
  What belongs to other crates: where a block is placed next to the blocks there are, and how
  many entries a \<open>HashMap\<close> holds after \<open>reserve\<close>.
\<close>

record allocator =
  al_place :: "(nat \<times> nat) list \<Rightarrow> layout \<Rightarrow> nat"
  al_capacity :: "nat \<Rightarrow> nat"

definition alloc_layout :: "allocator \<Rightarrow> layout \<Rightarrow> heap \<Rightarrow> nat \<times> heap" where
  "alloc_layout A L h =
    (let p = al_place A (hp_blocks h) L in (p, h\<lparr>hp_blocks := (p, lsize L) # hp_blocks h\<rparr>))"

definition write_cells :: "nat \<Rightarrow> cell list \<Rightarrow> heap \<Rightarrow> heap" where
  "write_cells p cs h =
    h\<lparr>hp_mem := (\<lambda>a. if p \<le> a \<and> a < p + length cs then Some (cs ! (a - p)) else hp_mem h a)\<rparr>"

definition ptr_cells :: "nat \<Rightarrow> cell list" where
  "ptr_cells q = map (PtrPart q) [0 ..< 8]"

text \<open>\<open>copy_nonoverlapping\<close>: undefined bytes are copied as such.\<close>

definition copy_bytes :: "nat \<Rightarrow> nat \<Rightarrow> nat \<Rightarrow> heap \<Rightarrow> heap" where
  "copy_bytes src dst n h =
    h\<lparr>hp_mem := (\<lambda>a. if dst \<le> a \<and> a < dst + n then hp_mem h (src + (a - dst)) else hp_mem h a)\<rparr>"

definition read_cells :: "heap \<Rightarrow> nat \<Rightarrow> nat \<Rightarrow> cell list res" where
  "read_cells h p n =
    (case map_opt (\<lambda>i. hp_mem h (p + i)) [0 ..< n] of Some cs \<Rightarrow> Ok cs | None \<Rightarrow> Panic)"

fun as_byte :: "cell \<Rightarrow> u8 option" where
  "as_byte (Byte b) = Some b"
| "as_byte (PtrPart _ _) = None"

definition read_bytes :: "heap \<Rightarrow> nat \<Rightarrow> nat \<Rightarrow> u8 list res" where
  "read_bytes h p n =
    and_then (read_cells h p n) (\<lambda>cs.
    case map_opt as_byte cs of Some bs \<Rightarrow> Ok bs | None \<Rightarrow> Panic)"

definition read_ptr :: "heap \<Rightarrow> nat \<Rightarrow> nat res" where
  "read_ptr h p =
    and_then (read_cells h p 8) (\<lambda>cs.
    case hd cs of
      PtrPart q _ \<Rightarrow> if cs = ptr_cells q then Ok q else Panic
    | Byte _ \<Rightarrow> Panic)"

definition le_bytes :: "nat \<Rightarrow> nat \<Rightarrow> u8 list" where
  "le_bytes n x = map (\<lambda>i. of_nat (x div 256 ^ i)) [0 ..< n]"

definition read_uint :: "heap \<Rightarrow> nat \<Rightarrow> nat \<Rightarrow> nat res" where
  "read_uint h p n = and_then (read_bytes h p n) (\<lambda>bs. Ok (from_bytes_le bs))"

definition nonnull :: "nat \<Rightarrow> nat res" where
  "nonnull p = (if p = 0 then Err NativeAssertion else Ok p)"

text \<open>Allocating a block and writing it.\<close>

definition alloc_cells :: "allocator \<Rightarrow> layout \<Rightarrow> cell list \<Rightarrow> heap \<Rightarrow> nat \<times> heap" where
  "alloc_cells A L cs h = (let (p, h) = alloc_layout A L h in (p, write_cells p cs h))"

definition alloc_bytes :: "allocator \<Rightarrow> layout \<Rightarrow> u8 list \<Rightarrow> heap \<Rightarrow> nat \<times> heap" where
  "alloc_bytes A L bs = alloc_cells A L (map Byte bs)"

definition alloc_ptr :: "allocator \<Rightarrow> nat \<Rightarrow> heap \<Rightarrow> nat \<times> heap" where
  "alloc_ptr A q = alloc_cells A ptr_layout (ptr_cells q)"

section \<open>Felts in memory\<close>

text \<open>\<open>felt252_bigint\<close>: a negative integer wraps once around the prime.\<close>

definition felt252_bigint :: "int \<Rightarrow> felt res" where
  "felt252_bigint i =
    (if i < 0 then (if PRIME < \<bar>i\<bar> then Panic else Ok (felt_of_int (PRIME - \<bar>i\<bar>)))
     else Ok (felt_of_int i))"

definition felt_bytes_le :: "felt \<Rightarrow> u8 list" where
  "felt_bytes_le f = le_bytes 32 (nat (felt_int f))"

definition felt_from_slot :: "u8 list \<Rightarrow> felt" where
  "felt_from_slot slot =
    felt_of_int (int (from_bytes_le (slot[31 := (slot ! 31) AND 0x0F])))"

definition to_projective :: "felt \<Rightarrow> felt \<Rightarrow> felt \<times> felt \<times> felt" where
  "to_projective x y = (if x = 0 \<and> y = 0 then (0, 1, 0) else (x, y, 1))"

section \<open>Writing values\<close>

definition resolve_type :: "registry \<Rightarrow> core_type \<Rightarrow> core_type res" where
  "resolve_type R ty = (case ty of SnapshotT e \<Rightarrow> registry_get R e | _ \<Rightarrow> Ok ty)"

text \<open>\<open>Layout::new::<FeltDict>()\<close>.\<close>

definition FELT_DICT_LAYOUT :: layout where
  "FELT_DICT_LAYOUT = \<lparr>lsize = 80, lalign = 8\<rparr>"

definition dict_new :: "allocator \<Rightarrow> nat \<Rightarrow> nat \<Rightarrow> heap \<Rightarrow> nat \<times> felt_dict \<times> heap" where
  "dict_new A sz al h =
    (let (p, h) = alloc_layout A FELT_DICT_LAYOUT h in
     (p, \<lparr>fd_mappings = fmempty, fd_capacity = 0, fd_layout = \<lparr>lsize = sz, lalign = al\<rparr>, fd_elements = 0,
          fd_count = 0\<rparr>, h))"

definition arena_alloc :: "allocator \<Rightarrow> nat \<Rightarrow> nat \<Rightarrow> heap \<Rightarrow> (nat \<times> heap) res" where
  "arena_alloc A sz al h =
    (case from_size_align sz al of Ok L \<Rightarrow> Ok (alloc_layout A L h) | _ \<Rightarrow> Panic)"

definition alloc_felts :: "allocator \<Rightarrow> felt list \<Rightarrow> heap \<Rightarrow> (nat \<times> heap) res" where
  "alloc_felts A fs h =
    and_then (felt_array_layout (length fs)) (\<lambda>L.
    Ok (alloc_bytes A (pad_to_align L) (concat (map felt_bytes_le fs)) h))"

text \<open>
  The elements of an array, the members of a struct and the entries of a dictionary, each
  written by \<open>w\<close> and copied to its place. The record of a dictionary is kept in hand while it
  is being filled and stored at the end: nothing else has its address before.
\<close>

fun write_elems ::
  "(nval \<Rightarrow> heap \<Rightarrow> (nat \<times> heap) res) \<Rightarrow> nat \<Rightarrow> nat \<Rightarrow> nval list \<Rightarrow> heap \<Rightarrow> heap res" where
  "write_elems w stride dst [] h = Ok h"
| "write_elems w stride dst (v # vs) h =
    and_then (w v h) (\<lambda>(p, h).
    write_elems w stride (dst + stride) vs (copy_bytes p dst stride h))"

fun write_members ::
  "registry \<Rightarrow> (type_id \<Rightarrow> nval \<Rightarrow> heap \<Rightarrow> (nat \<times> heap) res) \<Rightarrow> layout option \<Rightarrow>
    (type_id \<times> nval) list \<Rightarrow> heap \<Rightarrow> (layout option \<times> (layout \<times> nat \<times> nat) list \<times> heap) res" where
  "write_members R w acc [] h = Ok (acc, [], h)"
| "write_members R w acc ((m, v) # mvs) h =
    and_then (registry_get R m) (\<lambda>ty.
    and_then (ty_layout R ty) (\<lambda>L.
    and_then (struct_step acc L) (\<lambda>(N, off).
    and_then (w m v h) (\<lambda>(p, h).
    and_then (write_members R w (Some N) mvs h) (\<lambda>(acc, data, h).
    Ok (acc, (L, off, p) # data, h))))))"

definition copy_members :: "nat \<Rightarrow> (layout \<times> nat \<times> nat) list \<Rightarrow> heap \<Rightarrow> heap" where
  "copy_members dst data h = foldl (\<lambda>h (L, off, p). copy_bytes p (dst + off) (lsize L) h) h data"

fun write_entries ::
  "(nval \<Rightarrow> heap \<Rightarrow> (nat \<times> heap) res) \<Rightarrow> layout \<Rightarrow> nat \<Rightarrow> (felt, nat) fmap \<Rightarrow> (felt \<times> nval) list \<Rightarrow> heap \<Rightarrow>
    ((felt, nat) fmap \<times> heap) res" where
  "write_entries w L elements m [] h = Ok (m, h)"
| "write_entries w L elements m ((k, v) # kvs) h =
    and_then (w v h) (\<lambda>(p, h).
    (let index = fcard (fmdom m) in
     write_entries w L elements (fmupd k index m) kvs
       (copy_bytes p (elements + lsize (pad_to_align L) * index) (lsize L) h)))"

definition entries_of :: "(felt, nval) fmap \<Rightarrow> (felt \<times> nval) list" where
  "entries_of m = map (\<lambda>k. (k, the (fmlookup m k))) (sorted_list_of_fset (fmdom m))"

text \<open>A box, and a nullable that is not null: the payload goes to the execution arena.\<close>

definition write_boxed ::
  "registry \<Rightarrow> allocator \<Rightarrow> (type_id \<Rightarrow> nval \<Rightarrow> heap \<Rightarrow> (nat \<times> heap) res) \<Rightarrow> type_id \<Rightarrow> nval \<Rightarrow> heap \<Rightarrow>
    (nat \<times> heap) res" where
  "write_boxed R A w e v h =
    and_then (registry_get R e) (\<lambda>ty.
    and_then (ty_layout R ty) (\<lambda>L.
    and_then (w e v h) (\<lambda>(p, h).
    and_then (arena_alloc A (lsize L) (lalign L) h) (\<lambda>(payload, h).
    Ok (alloc_ptr A payload (copy_bytes p payload (lsize L) h))))))"

definition write_array ::
  "registry \<Rightarrow> allocator \<Rightarrow> (type_id \<Rightarrow> nval \<Rightarrow> heap \<Rightarrow> (nat \<times> heap) res) \<Rightarrow> type_id \<Rightarrow> nval list \<Rightarrow> heap \<Rightarrow>
    (nat \<times> heap) res" where
  "write_array R A w e data h =
    and_then (registry_get R e) (\<lambda>ty.
    and_then (ty_layout R ty) (\<lambda>L.
    let elem_layout = pad_to_align L; len = length data in
    if 2 ^ 32 \<le> len then Err IntegerConversion
    else
      and_then
        (if len = 0 then Ok (0, h)
         else if 2 ^ 64 \<le> lsize elem_layout * len then Panic
         else and_then (from_size_align (lsize elem_layout * len) (lalign elem_layout)) (\<lambda>B.
              Ok (alloc_layout A B h))) (\<lambda>(data_ptr, h).
      and_then (write_elems (w e) (lsize elem_layout) data_ptr data h) (\<lambda>h.
      let (target, h) = alloc_layout A \<lparr>lsize = 24, lalign = 8\<rparr> h in
      Ok (target,
        write_cells target
          (ptr_cells data_ptr @ map Byte (le_bytes 4 0 @ le_bytes 4 len @ le_bytes 4 len)) h)))))"

definition write_struct ::
  "registry \<Rightarrow> allocator \<Rightarrow> (type_id \<Rightarrow> nval \<Rightarrow> heap \<Rightarrow> (nat \<times> heap) res) \<Rightarrow> type_id list \<Rightarrow> nval list \<Rightarrow> heap \<Rightarrow>
    (nat \<times> heap) res" where
  "write_struct R A w ms vs h =
    and_then (write_members R w None (zip ms vs) h) (\<lambda>(L, data, h).
    let (p, h) = alloc_layout A (pad_to_align (case L of Some L \<Rightarrow> L | None \<Rightarrow> unit_layout)) h in
    Ok (p, copy_members p data h))"

definition tag_bytes :: "layout \<Rightarrow> nat \<Rightarrow> u8 list res" where
  "tag_bytes tag_layout tag =
    (if lsize tag_layout \<in> {0, 1, 2, 4, 8} then Ok (le_bytes (lsize tag_layout) tag)
     else Err NativeAssertion)"

definition write_enum ::
  "registry \<Rightarrow> allocator \<Rightarrow> (type_id \<Rightarrow> nval \<Rightarrow> heap \<Rightarrow> (nat \<times> heap) res) \<Rightarrow> type_id list \<Rightarrow> nat \<Rightarrow> nval \<Rightarrow> heap \<Rightarrow>
    (nat \<times> heap) res" where
  "write_enum R A w variants tag v h =
    (if tag < length variants
     then
       and_then (w (variants ! tag) v h) (\<lambda>(payload, h).
       and_then (get_layout_for_variants R variants) (\<lambda>(L, tag_layout, variant_layouts).
       let (p, h) = alloc_layout A L h in
       and_then (tag_bytes tag_layout tag) (\<lambda>bs.
       and_then (layout_extend tag_layout (variant_layouts ! tag)) (\<lambda>(_, off).
       Ok (p, copy_bytes payload (p + off) (lsize (variant_layouts ! tag)) (write_cells p (map Byte bs) h))))))
     else Err NativeAssertion)"

definition write_dict ::
  "registry \<Rightarrow> allocator \<Rightarrow> (type_id \<Rightarrow> nval \<Rightarrow> heap \<Rightarrow> (nat \<times> heap) res) \<Rightarrow> type_id \<Rightarrow> (felt, nval) fmap \<Rightarrow>
    heap \<Rightarrow> (nat \<times> heap) res" where
  "write_dict R A w e m h =
    and_then (registry_get R e) (\<lambda>ty.
    and_then (ty_layout R ty) (\<lambda>L.
    let (dict_ptr, dict, h) = dict_new A (lsize L) (lalign L) h;
        capacity = al_capacity A (fcard (fmdom m)) in
    and_then
      (if m = fmempty then Ok (0, h)
       else if 2 ^ 64 \<le> lsize (pad_to_align L) * capacity then Panic
       else arena_alloc A (lsize (pad_to_align L) * capacity) (lalign L) h) (\<lambda>(elements, h).
    and_then (write_entries (w e) L elements (fd_mappings dict) (entries_of m) h) (\<lambda>(mappings, h).
    let dict = dict\<lparr>fd_elements := elements, fd_mappings := mappings, fd_capacity := capacity\<rparr> in
    Ok (alloc_ptr A dict_ptr
          (h\<lparr>hp_dicts := (hp_dicts h)(dict_ptr \<mapsto> dict)\<rparr>))))))"

definition write_bounded ::
  "allocator \<Rightarrow> core_type \<Rightarrow> felt \<Rightarrow> int_range_t \<Rightarrow> heap \<Rightarrow> (nat \<times> heap) res" where
  "write_bounded A rty f own h =
    (if rng_upper own \<le> rng_lower own
     then Err (BoundedIntOutOfRange (felt_int f) (rng_lower own) (rng_upper own))
     else
       and_then
         (case rty of
           BoundedIntT r \<Rightarrow> Ok r
         | BoundedIntGuaranteeT r \<Rightarrow> Ok r
         | _ \<Rightarrow> Err UnexpectedValue) (\<lambda>r.
       case repr_encode r (felt_int f) of
         None \<Rightarrow> Err (BoundedIntOutOfRange (felt_int f) (rng_lower r) (rng_upper r))
       | Some data \<Rightarrow> Ok (alloc_bytes A (get_integer_layout (repr_bit_width r)) data h)))"

definition write_int_range ::
  "registry \<Rightarrow> allocator \<Rightarrow> (type_id \<Rightarrow> nval \<Rightarrow> heap \<Rightarrow> (nat \<times> heap) res) \<Rightarrow> type_id \<Rightarrow> nval \<Rightarrow> nval \<Rightarrow> heap \<Rightarrow>
    (nat \<times> heap) res" where
  "write_int_range R A w e x y h =
    and_then (registry_get R e) (\<lambda>ty.
    and_then (ty_layout R ty) (\<lambda>L.
    and_then (w e x h) (\<lambda>(px, h).
    and_then (layout_extend L L) (\<lambda>(S, y_offset).
    and_then (w e y h) (\<lambda>(py, h).
    let (p, h) = alloc_layout A (pad_to_align S) h in
    Ok (p, copy_bytes py (p + y_offset) (lsize L) (copy_bytes px p (lsize L) h)))))))"

definition write_inline ::
  "registry \<Rightarrow> allocator \<Rightarrow> (type_id \<Rightarrow> nval \<Rightarrow> heap \<Rightarrow> (nat \<times> heap) res) \<Rightarrow> core_type \<Rightarrow> nval \<Rightarrow> heap \<Rightarrow>
    (nat \<times> heap) res" where
  "write_inline R A w rty v h =
    (case v of
      NFelt252 f \<Rightarrow>
        and_then (felt252_bigint (felt_int f)) (\<lambda>f.
        Ok (alloc_bytes A (get_integer_layout 252) (felt_bytes_le f) h))
    | NBoundedInt f own \<Rightarrow> write_bounded A rty f own h
    | NBytes31 bs \<Rightarrow> Ok (alloc_bytes A (get_integer_layout 248) bs h)
    | NArray data \<Rightarrow> (case rty of ArrayT e \<Rightarrow> write_array R A w e data h | _ \<Rightarrow> Err UnexpectedValue)
    | NStruct vs \<Rightarrow> (case rty of StructT ms \<Rightarrow> write_struct R A w ms vs h | _ \<Rightarrow> Err UnexpectedValue)
    | NEnum tag v \<Rightarrow>
        (case rty of EnumT variants \<Rightarrow> write_enum R A w variants tag v h | _ \<Rightarrow> Err UnexpectedValue)
    | NFelt252Dict m \<Rightarrow>
        (case rty of Felt252DictT e \<Rightarrow> write_dict R A w e m h | _ \<Rightarrow> Err UnexpectedValue)
    | NUint8 x \<Rightarrow> Ok (alloc_bytes A \<lparr>lsize = 1, lalign = 1\<rparr> (le_bytes 1 (unat x)) h)
    | NUint16 x \<Rightarrow> Ok (alloc_bytes A \<lparr>lsize = 2, lalign = 2\<rparr> (le_bytes 2 (unat x)) h)
    | NUint32 x \<Rightarrow> Ok (alloc_bytes A \<lparr>lsize = 4, lalign = 4\<rparr> (le_bytes 4 (unat x)) h)
    | NUint64 x \<Rightarrow> Ok (alloc_bytes A \<lparr>lsize = 8, lalign = 8\<rparr> (le_bytes 8 (unat x)) h)
    | NUint128 x \<Rightarrow> Ok (alloc_bytes A \<lparr>lsize = 16, lalign = 16\<rparr> (le_bytes 16 (unat x)) h)
    | NSint8 x \<Rightarrow> Ok (alloc_bytes A \<lparr>lsize = 1, lalign = 1\<rparr> (le_bytes 1 (unat x)) h)
    | NSint16 x \<Rightarrow> Ok (alloc_bytes A \<lparr>lsize = 2, lalign = 2\<rparr> (le_bytes 2 (unat x)) h)
    | NSint32 x \<Rightarrow> Ok (alloc_bytes A \<lparr>lsize = 4, lalign = 4\<rparr> (le_bytes 4 (unat x)) h)
    | NSint64 x \<Rightarrow> Ok (alloc_bytes A \<lparr>lsize = 8, lalign = 8\<rparr> (le_bytes 8 (unat x)) h)
    | NSint128 x \<Rightarrow> Ok (alloc_bytes A \<lparr>lsize = 16, lalign = 16\<rparr> (le_bytes 16 (unat x)) h)
    | NEcPoint a b \<Rightarrow>
        and_then (felt252_bigint (felt_int a)) (\<lambda>a.
        and_then (felt252_bigint (felt_int b)) (\<lambda>b. alloc_felts A [a, b] h))
    | NEcState x y \<Rightarrow>
        (let (a, b, c) = to_projective x y in
         and_then (felt252_bigint (felt_int a)) (\<lambda>a.
         and_then (felt252_bigint (felt_int b)) (\<lambda>b.
         and_then (felt252_bigint (felt_int c)) (\<lambda>c. alloc_felts A [a, b, c] h))))
    | NQM31 _ _ _ _ \<Rightarrow> Err NativeAssertion
    | NSecp256K1Point _ \<Rightarrow> Err NativeAssertion
    | NSecp256R1Point _ \<Rightarrow> Err NativeAssertion
    | NNull \<Rightarrow> Err NativeAssertion
    | NIntRange x y \<Rightarrow>
        (case rty of IntRangeT e \<Rightarrow> write_int_range R A w e x y h | _ \<Rightarrow> Err NativeAssertion))"

fun to_ptr_fuel ::
  "nat \<Rightarrow> registry \<Rightarrow> allocator \<Rightarrow> type_id \<Rightarrow> nval \<Rightarrow> heap \<Rightarrow> (nat \<times> heap) res" where
  "to_ptr_fuel 0 R A t v h = Panic"
| "to_ptr_fuel (Suc n) R A t v h =
    and_then (registry_get R t) (\<lambda>ty.
    and_then (resolve_type R ty) (\<lambda>rty.
    case rty of
      NullableT e \<Rightarrow>
        if v = NNull then Ok (alloc_ptr A 0 h)
        else write_boxed R A (to_ptr_fuel n R A) e v h
    | BoxT e \<Rightarrow> write_boxed R A (to_ptr_fuel n R A) e v h
    | _ \<Rightarrow> write_inline R A (to_ptr_fuel n R A) rty v h))"

definition to_ptr :: "registry \<Rightarrow> allocator \<Rightarrow> type_id \<Rightarrow> nval \<Rightarrow> heap \<Rightarrow> (nat \<times> heap) res" where
  "to_ptr R = to_ptr_fuel (rec_limit R) R"

section \<open>Reading values\<close>

definition read_felt :: "heap \<Rightarrow> nat \<Rightarrow> felt res" where
  "read_felt h p = and_then (read_bytes h p 32) (\<lambda>bs. Ok (felt_from_slot bs))"

fun read_elems :: "(nat \<Rightarrow> nval res) \<Rightarrow> nat \<Rightarrow> nat \<Rightarrow> nat list \<Rightarrow> nval list res" where
  "read_elems r stride data_ptr [] = Ok []"
| "read_elems r stride data_ptr (i # is) =
    and_then (nonnull (data_ptr + stride * i)) (\<lambda>p.
    and_then (r p) (\<lambda>v.
    and_then (read_elems r stride data_ptr is) (\<lambda>vs. Ok (v # vs))))"

definition read_array ::
  "registry \<Rightarrow> (type_id \<Rightarrow> nat \<Rightarrow> nval res) \<Rightarrow> heap \<Rightarrow> nat \<Rightarrow> type_id \<Rightarrow> nval res" where
  "read_array R r h p e =
    and_then (registry_get R e) (\<lambda>ty.
    and_then (ty_layout R ty) (\<lambda>L.
    and_then (layout_extend ptr_layout (get_integer_layout 32)) (\<lambda>(P, start_off).
    and_then (nonnull (p + start_off)) (\<lambda>q.
    and_then (read_uint h q 4) (\<lambda>start.
    and_then (layout_extend P (get_integer_layout 32)) (\<lambda>(P, end_off).
    and_then (nonnull (p + end_off)) (\<lambda>q.
    and_then (read_uint h q 4) (\<lambda>end_value.
    and_then (layout_extend P (get_integer_layout 32)) (\<lambda>_.
    and_then (read_ptr h p) (\<lambda>data_ptr.
    if data_ptr = 0 then Ok (NArray [])
    else if end_value < start then Err NativeAssertion
    else
      and_then (read_elems (r e) (lsize (pad_to_align L)) data_ptr [start ..< end_value]) (\<lambda>vs.
      Ok (NArray vs))))))))))))"

fun read_members ::
  "registry \<Rightarrow> (type_id \<Rightarrow> nat \<Rightarrow> nval res) \<Rightarrow> nat \<Rightarrow> layout option \<Rightarrow> type_id list \<Rightarrow> nval list res" where
  "read_members R r p acc [] = Ok []"
| "read_members R r p acc (m # ms) =
    and_then (registry_get R m) (\<lambda>ty.
    and_then (ty_layout R ty) (\<lambda>L.
    and_then (struct_step acc L) (\<lambda>(N, off).
    and_then (nonnull (p + off)) (\<lambda>q.
    and_then (r m q) (\<lambda>v.
    and_then (read_members R r p (Some N) ms) (\<lambda>vs. Ok (v # vs)))))))"

definition read_enum ::
  "registry \<Rightarrow> (type_id \<Rightarrow> nat \<Rightarrow> nval res) \<Rightarrow> heap \<Rightarrow> nat \<Rightarrow> type_id list \<Rightarrow> nval res" where
  "read_enum R r h p variants =
    and_then (get_layout_for_variants R variants) (\<lambda>(_, tag_layout, variant_layouts).
    and_then
      (case variants of
        [] \<Rightarrow> Err NativeAssertion
      | [_] \<Rightarrow> Ok 0
      | _ \<Rightarrow>
          if lsize tag_layout \<in> {1, 2, 4, 8} then read_uint h p (lsize tag_layout)
          else Err NativeAssertion) (\<lambda>tag_value.
    let tag_value = tag_value AND (next_power_of_two (length variants) - 1) in
    if length variants \<le> tag_value then Panic
    else
      and_then (layout_extend tag_layout (variant_layouts ! tag_value)) (\<lambda>(_, off).
      and_then (nonnull (p + off)) (\<lambda>q.
      and_then (r (variants ! tag_value) q) (\<lambda>payload.
      Ok (NEnum tag_value payload))))))"

fun read_entries ::
  "(nat \<Rightarrow> nval res) \<Rightarrow> felt_dict \<Rightarrow> (felt \<times> nat) list \<Rightarrow> (felt, nval) fmap \<Rightarrow> (felt, nval) fmap res" where
  "read_entries r d [] out = Ok out"
| "read_entries r d ((k, index) # kis) out =
    and_then (nonnull (fd_elements d + lsize (pad_to_align (fd_layout d)) * index)) (\<lambda>p.
    and_then (r p) (\<lambda>v. read_entries r d kis (fmupd k v out)))"

definition read_dict ::
  "(type_id \<Rightarrow> nat \<Rightarrow> nval res) \<Rightarrow> heap \<Rightarrow> nat \<Rightarrow> type_id \<Rightarrow> nval res" where
  "read_dict r h p e =
    and_then (read_ptr h p) (\<lambda>dict_ptr.
    case hp_dicts h dict_ptr of
      None \<Rightarrow> Panic
    | Some d \<Rightarrow>
        and_then
          (read_entries (r e) d
            (map (\<lambda>k. (k, the (fmlookup (fd_mappings d) k))) (sorted_list_of_fset (fmdom (fd_mappings d))))
            fmempty) (\<lambda>m. Ok (NFelt252Dict m)))"

definition read_ec_state :: "externs \<Rightarrow> heap \<Rightarrow> nat \<Rightarrow> nval res" where
  "read_ec_state E h p =
    and_then (read_felt h p) (\<lambda>x.
    and_then (read_felt h (p + 32)) (\<lambda>y.
    and_then (read_felt h (p + 64)) (\<lambda>z.
    Ok (case ex_to_affine E (x, y, z) of Some (x, y) \<Rightarrow> NEcState x y | None \<Rightarrow> NEcState 0 0))))"

definition read_u128 :: "heap \<Rightarrow> nat \<Rightarrow> u128 res" where
  "read_u128 h p = and_then (read_uint h p 16) (\<lambda>x. Ok (of_nat x))"

definition read_u256 :: "heap \<Rightarrow> nat \<Rightarrow> u256 res" where
  "read_u256 h p =
    and_then (read_u128 h p) (\<lambda>lo. and_then (read_u128 h (p + 16)) (\<lambda>hi.
    Ok \<lparr>u256_lo = lo, u256_hi = hi\<rparr>))"

text \<open>A byte that is neither 0 nor 1 is no \<open>bool\<close>.\<close>

definition read_bool :: "heap \<Rightarrow> nat \<Rightarrow> bool res" where
  "read_bool h p =
    and_then (read_uint h p 1) (\<lambda>x. if x = 0 then Ok False else if x = 1 then Ok True else Panic)"

definition read_secp :: "secp_point_type \<Rightarrow> heap \<Rightarrow> nat \<Rightarrow> nval res" where
  "read_secp curve h p =
    and_then (read_u256 h p) (\<lambda>x.
    and_then (read_u256 h (p + 32)) (\<lambda>y.
    and_then (read_bool h (p + 64)) (\<lambda>infinity.
    Ok (case curve of
      K1 \<Rightarrow> NSecp256K1Point \<lparr>k1_x = x, k1_y = y, k1_is_infinity = infinity\<rparr>
    | R1 \<Rightarrow> NSecp256R1Point \<lparr>r1_x = x, r1_y = y, r1_is_infinity = infinity\<rparr>))))"

definition read_starknet :: "heap \<Rightarrow> nat \<Rightarrow> starknet_type \<Rightarrow> nval res" where
  "read_starknet h p st =
    (case st of
      ClassHashST \<Rightarrow> and_then (read_felt h p) (\<lambda>f. Ok (NFelt252 f))
    | ContractAddressST \<Rightarrow> and_then (read_felt h p) (\<lambda>f. Ok (NFelt252 f))
    | StorageBaseAddressST \<Rightarrow> and_then (read_felt h p) (\<lambda>f. Ok (NFelt252 f))
    | StorageAddressST \<Rightarrow> and_then (read_felt h p) (\<lambda>f. Ok (NFelt252 f))
    | SystemST \<Rightarrow> Err NativeAssertion
    | Secp256PointST curve \<Rightarrow> read_secp curve h p
    | Sha256StateHandleST \<Rightarrow> Err NativeAssertion
    | Sha512StateHandleST \<Rightarrow> Err NativeAssertion)"

definition read_bounded :: "heap \<Rightarrow> nat \<Rightarrow> int_range_t \<Rightarrow> nval res" where
  "read_bounded h p r =
    and_then (read_uint h p ((repr_bit_width r + 7) div 8 * 8 div 8)) (\<lambda>raw.
    Ok (NBoundedInt (felt_of_int (repr_decode r raw)) r))"

definition read_int_range ::
  "registry \<Rightarrow> (type_id \<Rightarrow> nat \<Rightarrow> nval res) \<Rightarrow> nat \<Rightarrow> type_id \<Rightarrow> nval res" where
  "read_int_range R r p e =
    and_then (registry_get R e) (\<lambda>ty.
    and_then (ty_layout R ty) (\<lambda>L.
    and_then (nonnull p) (\<lambda>p.
    and_then (r e p) (\<lambda>x.
    and_then (layout_extend L L) (\<lambda>(_, off).
    and_then (nonnull (p + off)) (\<lambda>q.
    and_then (r e q) (\<lambda>y. Ok (NIntRange x y))))))))"

fun from_ptr_fuel ::
  "nat \<Rightarrow> registry \<Rightarrow> externs \<Rightarrow> heap \<Rightarrow> type_id \<Rightarrow> nat \<Rightarrow> nval res" where
  "from_ptr_fuel 0 R E h t p = Panic"
| "from_ptr_fuel (Suc n) R E h t p =
    and_then (registry_get R t) (\<lambda>ty.
    case ty of
      ArrayT e \<Rightarrow> read_array R (from_ptr_fuel n R E h) h p e
    | BoxT e \<Rightarrow> and_then (read_ptr h p) (\<lambda>inner. from_ptr_fuel n R E h e inner)
    | EcPointT \<Rightarrow>
        and_then (read_felt h p) (\<lambda>x. and_then (read_felt h (p + 32)) (\<lambda>y. Ok (NEcPoint x y)))
    | EcStateT \<Rightarrow> read_ec_state E h p
    | QM31T \<Rightarrow>
        and_then (read_uint h p 4) (\<lambda>a.
        and_then (read_uint h (p + 4) 4) (\<lambda>b.
        and_then (read_uint h (p + 8) 4) (\<lambda>c.
        and_then (read_uint h (p + 12) 4) (\<lambda>d.
        Ok (NQM31 (of_nat a) (of_nat b) (of_nat c) (of_nat d))))))
    | Felt252T \<Rightarrow> and_then (read_felt h p) (\<lambda>f. Ok (NFelt252 f))
    | Uint8T \<Rightarrow> and_then (read_uint h p 1) (\<lambda>x. Ok (NUint8 (of_nat x)))
    | Uint16T \<Rightarrow> and_then (read_uint h p 2) (\<lambda>x. Ok (NUint16 (of_nat x)))
    | Uint32T \<Rightarrow> and_then (read_uint h p 4) (\<lambda>x. Ok (NUint32 (of_nat x)))
    | Uint64T \<Rightarrow> and_then (read_uint h p 8) (\<lambda>x. Ok (NUint64 (of_nat x)))
    | Uint128T \<Rightarrow> and_then (read_uint h p 16) (\<lambda>x. Ok (NUint128 (of_nat x)))
    | Sint8T \<Rightarrow> and_then (read_uint h p 1) (\<lambda>x. Ok (NSint8 (of_nat x)))
    | Sint16T \<Rightarrow> and_then (read_uint h p 2) (\<lambda>x. Ok (NSint16 (of_nat x)))
    | Sint32T \<Rightarrow> and_then (read_uint h p 4) (\<lambda>x. Ok (NSint32 (of_nat x)))
    | Sint64T \<Rightarrow> and_then (read_uint h p 8) (\<lambda>x. Ok (NSint64 (of_nat x)))
    | Sint128T \<Rightarrow> and_then (read_uint h p 16) (\<lambda>x. Ok (NSint128 (of_nat x)))
    | NonZeroT e \<Rightarrow> from_ptr_fuel n R E h e p
    | NullableT e \<Rightarrow>
        and_then (read_ptr h p) (\<lambda>inner.
        if inner = 0 then Ok NNull else from_ptr_fuel n R E h e inner)
    | EnumT variants \<Rightarrow> read_enum R (from_ptr_fuel n R E h) h p variants
    | StructT ms \<Rightarrow>
        and_then (read_members R (from_ptr_fuel n R E h) p None ms) (\<lambda>vs. Ok (NStruct vs))
    | Felt252DictT e \<Rightarrow> read_dict (from_ptr_fuel n R E h) h p e
    | SquashedFelt252DictT e \<Rightarrow> read_dict (from_ptr_fuel n R E h) h p e
    | StarknetT st \<Rightarrow> read_starknet h p st
    | SnapshotT e \<Rightarrow> from_ptr_fuel n R E h e p
    | Bytes31T \<Rightarrow> and_then (read_bytes h p 31) (\<lambda>bs. Ok (NBytes31 bs))
    | BoundedIntT r \<Rightarrow> read_bounded h p r
    | BoundedIntGuaranteeT r \<Rightarrow> read_bounded h p r
    | CircuitT U96GuaranteeCT \<Rightarrow>
        and_then (read_uint h p 12) (\<lambda>x.
        Ok (NBoundedInt (felt_of_int (int x)) \<lparr>rng_lower = 0, rng_upper = 2 ^ 96\<rparr>))
    | IntRangeT e \<Rightarrow> read_int_range R (from_ptr_fuel n R E h) p e
    | GasReserveT \<Rightarrow> and_then (read_uint h p 16) (\<lambda>x. Ok (NUint128 (of_nat x)))
    | _ \<Rightarrow> Err NativeAssertion)"

definition from_ptr :: "registry \<Rightarrow> externs \<Rightarrow> heap \<Rightarrow> type_id \<Rightarrow> nat \<Rightarrow> nval res" where
  "from_ptr R = from_ptr_fuel (rec_limit R) R"

end
