(* ===== verification/Utf8.thy ===== *)
theory Utf8
  imports StubHandler
begin

text \<open>
  The bytes of a felt and the texts of the standard library: what \<open>String::from_utf8\<close> accepts.
\<close>

text \<open>\<open>Felt::to_bytes_be\<close>: 32 bytes, the most significant first.\<close>

definition felt_bytes_be :: "felt \<Rightarrow> u8 list" where
  "felt_bytes_be f = map (\<lambda>i. word_of_int (felt_int f div 256 ^ i)) (rev [0 ..< 32])"

text \<open>
  What \<open>String::from_utf8\<close> accepts: no overlong form, no surrogate, nothing past U+10FFFF.
\<close>

definition continuation :: "u8 \<Rightarrow> bool" where
  "continuation b \<longleftrightarrow> 0x80 \<le> b \<and> b \<le> 0xBF"

fun valid_utf8 :: "u8 list \<Rightarrow> bool" where
  "valid_utf8 [] = True"
| "valid_utf8 (a # bs) =
    (if a \<le> 0x7F then valid_utf8 bs
     else if 0xC2 \<le> a \<and> a \<le> 0xDF then
       (case bs of b # bs \<Rightarrow> continuation b \<and> valid_utf8 bs | _ \<Rightarrow> False)
     else if 0xE0 \<le> a \<and> a \<le> 0xEF then
       (case bs of
         b # c # bs \<Rightarrow>
           (if a = 0xE0 then 0xA0 \<le> b \<and> b \<le> 0xBF
            else if a = 0xED then 0x80 \<le> b \<and> b \<le> 0x9F
            else continuation b) \<and> continuation c \<and> valid_utf8 bs
       | _ \<Rightarrow> False)
     else if 0xF0 \<le> a \<and> a \<le> 0xF4 then
       (case bs of
         b # c # d # bs \<Rightarrow>
           (if a = 0xF0 then 0x90 \<le> b \<and> b \<le> 0xBF
            else if a = 0xF4 then 0x80 \<le> b \<and> b \<le> 0x8F
            else continuation b) \<and> continuation c \<and> continuation d \<and> valid_utf8 bs
       | _ \<Rightarrow> False)
     else False)"

definition string_from_utf8 :: "u8 list \<Rightarrow> u8 list option" where
  "string_from_utf8 bs = (if valid_utf8 bs then Some bs else None)"

text \<open>A short text put into a felt is its last bytes.\<close>

lemma ascii_utf8: "\<forall>b \<in> set bs. b < 128 \<Longrightarrow> valid_utf8 bs"
proof (induction bs)
  case (Cons b bs)
  then have "b \<le> 0x7F" by (simp add: word_le_nat_alt word_less_nat_alt)
  with Cons show ?case by simp
qed simp

lemma unat_of_char: "unat (of_char c :: u8) = of_char c"
proof -
  have "take_bit 8 (of_char c :: nat) = of_char c"
    by (simp add: take_bit_nat_eq_self)
  then have "unat (of_nat (of_char c) :: u8) = of_char c"
    by (simp only: unsigned_of_nat len_of_numeral_defs) simp
  then show ?thesis by (simp only: of_nat_of_char)
qed

lemma felt_bytes_be_text:
  assumes "length s \<le> 31"
  shows "felt_bytes_be (felt_of_text s) = replicate (32 - length s) 0 @ map of_char s"
proof -
  define bs :: "u8 list" where "bs = replicate (32 - length s) 0 @ map of_char s"
  define v where "v = foldl (\<lambda>acc b. acc * 256 + uint b) 0 bs"
  have char: "uint (of_char c :: u8) = int (of_char c)" for c
    by (simp only: uint_nat unat_of_char)
  have zeros: "foldl (\<lambda>acc b. acc * 256 + uint b) 0 (replicate n (0 :: u8)) = 0" for n
    by (induction n) simp_all
  have v: "v = be_value (map of_char s)"
    by (simp add: v_def bs_def zeros be_value_def foldl_map char)
  have "v = foldl (\<lambda>acc b. acc * 256 + uint b) 0 (map of_char s :: u8 list)"
    by (simp add: v_def bs_def zeros)
  from be_value_bound [OF this] have "0 \<le> v" "v < 256 ^ length s" by simp_all
  moreover have "(256 :: int) ^ length s \<le> 256 ^ 31" using assms by (intro power_increasing) simp_all
  ultimately have "felt_int (felt_of_text s) = v"
    by (simp add: felt_of_text_def v [symmetric] PRIME_shape)
  then have "felt_bytes_be (felt_of_text s) = map (\<lambda>i. word_of_int (v div 256 ^ i)) (rev [0 ..< length bs])"
    using assms by (simp add: felt_bytes_be_def bs_def)
  also have "\<dots> = bs" unfolding v_def by (rule be_digits)
  finally show ?thesis by (simp add: bs_def)
qed

end
