(* ===== verification/NativeStub.thy ===== *)
theory NativeStub
  imports StubHandler NativeValues Utf8
begin

text \<open>
  \<open>src/starknet_stub.rs\<close>: the system call handler of the tests of compiled contracts. It keeps
  a storage per contract, the deployed contracts and the classes they may have, logs, the
  execution information and the builtins that inner calls used, and charges gas for every
  call. An inner call runs compiled code with the handler itself: the executor is a parameter,
  like the curves, hashes and constants of other crates. Also \<open>DummySyscallHandler\<close> of
  \<open>src/starknet.rs\<close>.
\<close>

section \<open>Parameters\<close>

text \<open>
  An affine point of a curve of \<open>ark\<close>, its coordinates as numbers below the modulus of the
  base field, and the operations the code uses. \<open>ac_ys\<close> gives the two square roots for an
  \<open>x\<close>, the smaller first.
\<close>

record affine =
  af_x :: nat
  af_y :: nat
  af_infinity :: bool

record ark_curve =
  ac_base :: nat
  ac_scalar :: nat
  ac_on_curve :: "affine \<Rightarrow> bool"
  ac_in_subgroup :: "affine \<Rightarrow> bool"
  ac_plus :: "affine \<Rightarrow> affine \<Rightarrow> affine"
  ac_times :: "affine \<Rightarrow> nat \<Rightarrow> affine"
  ac_ys :: "nat \<Rightarrow> (nat \<times> nat) option"

section \<open>State\<close>

record builtin_stats =
  bs_range_check :: nat
  bs_pedersen :: nat
  bs_bitwise :: nat
  bs_ec_op :: nat
  bs_poseidon :: nat
  bs_segment_arena :: nat
  bs_range_check96 :: nat
  bs_add_mod :: nat
  bs_mul_mod :: nat
  bs_blake :: nat

text \<open>\<open>BuiltinStats::default()\<close>.\<close>

definition no_builtins :: builtin_stats where
  "no_builtins = \<lparr>bs_range_check = 0, bs_pedersen = 0, bs_bitwise = 0, bs_ec_op = 0, bs_poseidon = 0,
    bs_segment_arena = 0, bs_range_check96 = 0, bs_add_mod = 0, bs_mul_mod = 0, bs_blake = 0\<rparr>"

text \<open>Counters are \<open>usize\<close>; a sum that does not fit panics with overflow checks on.\<close>

definition usize_sum :: "nat \<Rightarrow> nat \<Rightarrow> nat option" where
  "usize_sum a b = (if a + b < 2 ^ 64 then Some (a + b) else None)"

definition builtin_stats_add :: "builtin_stats \<Rightarrow> builtin_stats \<Rightarrow> builtin_stats option" where
  "builtin_stats_add a b =
    do {
      rc \<leftarrow> usize_sum (bs_range_check a) (bs_range_check b);
      pedersen \<leftarrow> usize_sum (bs_pedersen a) (bs_pedersen b);
      bitwise \<leftarrow> usize_sum (bs_bitwise a) (bs_bitwise b);
      ec_op \<leftarrow> usize_sum (bs_ec_op a) (bs_ec_op b);
      poseidon \<leftarrow> usize_sum (bs_poseidon a) (bs_poseidon b);
      arena \<leftarrow> usize_sum (bs_segment_arena a) (bs_segment_arena b);
      rc96 \<leftarrow> usize_sum (bs_range_check96 a) (bs_range_check96 b);
      add_mod \<leftarrow> usize_sum (bs_add_mod a) (bs_add_mod b);
      mul_mod \<leftarrow> usize_sum (bs_mul_mod a) (bs_mul_mod b);
      blake \<leftarrow> usize_sum (bs_blake a) (bs_blake b);
      Some \<lparr>bs_range_check = rc, bs_pedersen = pedersen, bs_bitwise = bitwise, bs_ec_op = ec_op,
        bs_poseidon = poseidon, bs_segment_arena = arena, bs_range_check96 = rc96,
        bs_add_mod = add_mod, bs_mul_mod = mul_mod, bs_blake = blake\<rparr> }"

text \<open>The fields of \<open>ContractInfo\<close> that are read: function identifiers are numbers.\<close>

record contract_info =
  ci_constructor :: "nat option"
  ci_externals :: "(felt, nat) fmap"

record 'x native_stub =
  ns_executor :: "'x option"
  ns_storage :: "(felt, (felt, felt) fmap) fmap"
  ns_deployed_contracts :: "(felt, felt) fmap"
  ns_logs :: "(felt, contract_logs) fmap"
  ns_execution_info :: execution_info
  ns_block_hash :: "(u64, felt) fmap"
  ns_contracts_info :: "(felt, contract_info) fmap"
  ns_builtin_counters :: builtin_stats

record execution_result =
  er_remaining_gas :: "u64 option"
  er_return_value :: nval
  er_builtin_stats :: builtin_stats

text \<open>
  Other crates and the executor. \<open>nx_invoke\<close> is \<open>invoke_dynamic_with_syscall_handler\<close>: entry
  point, arguments, gas and the handler before; the result and the handler after. \<open>None\<close> is a
  panic or an error, on which the caller panics.
\<close>

record 'x native_world =
  nx_invoke :: "'x \<Rightarrow> nat \<Rightarrow> nval list \<Rightarrow> u64 option \<Rightarrow> 'x native_stub \<Rightarrow> (execution_result \<times> 'x native_stub) option"
  nx_entry_point_cost :: u64
  nx_pedersen_array :: "felt list \<Rightarrow> felt"
  nx_f1600 :: "u64 list \<Rightarrow> u64 list"
  nx_compress256 :: "u32 list \<Rightarrow> u8 list \<Rightarrow> u32 list"
  nx_compress512 :: "u64 list \<Rightarrow> u8 list \<Rightarrow> u64 list"
  nx_k1 :: ark_curve
  nx_r1 :: ark_curve

section \<open>Gas\<close>

definition GAS_STEP :: u64 where "GAS_STEP = 100"
definition GAS_RANGE_CHECK :: u64 where "GAS_RANGE_CHECK = 70"
definition GAS_BITWISE :: u64 where "GAS_BITWISE = 594"
definition GAS_ENTRY_POINT :: "'x native_world \<Rightarrow> u64" where
  "GAS_ENTRY_POINT X = nx_entry_point_cost X + 500 * GAS_STEP"
definition GAS_CALL_CONTRACT :: "'x native_world \<Rightarrow> u64" where
  "GAS_CALL_CONTRACT X = 10 * GAS_STEP + GAS_ENTRY_POINT X"
definition GAS_DEPLOY :: "'x native_world \<Rightarrow> u64" where
  "GAS_DEPLOY X = 200 * GAS_STEP + GAS_ENTRY_POINT X"
definition GAS_LIBRARY_CALL :: "'x native_world \<Rightarrow> u64" where
  "GAS_LIBRARY_CALL X = GAS_CALL_CONTRACT X"
definition GAS_EMIT_EVENT :: u64 where "GAS_EMIT_EVENT = 10 * GAS_STEP"
definition GAS_GET_BLOCK_HASH :: u64 where "GAS_GET_BLOCK_HASH = 50 * GAS_STEP"
definition GAS_GET_EXECUTION_INFO :: u64 where "GAS_GET_EXECUTION_INFO = 10 * GAS_STEP"
definition GAS_GET_CLASS_HASH_AT :: u64 where "GAS_GET_CLASS_HASH_AT = 50 * GAS_STEP"
definition GAS_KECCAK :: u64 where "GAS_KECCAK = 0"
definition GAS_KECCAK_ROUND :: u64 where "GAS_KECCAK_ROUND = 180000"
definition GAS_SHA256 :: u64 where
  "GAS_SHA256 = 1852 * GAS_STEP + 65 * GAS_RANGE_CHECK + 1115 * GAS_BITWISE"
definition GAS_SHA512 :: u64 where
  "GAS_SHA512 = 4733 * GAS_STEP + 65 * GAS_RANGE_CHECK + 3320 * GAS_BITWISE"
definition GAS_REPLACE_CLASS :: u64 where "GAS_REPLACE_CLASS = 50 * GAS_STEP"
definition GAS_SECP_ADD :: u64 where "GAS_SECP_ADD = 254 * GAS_STEP + 29 * GAS_RANGE_CHECK"
definition GAS_SECP_FROM_X :: u64 where "GAS_SECP_FROM_X = 260 * GAS_STEP + 29 * GAS_RANGE_CHECK"
definition GAS_SECP_GET_XY :: u64 where "GAS_SECP_GET_XY = 24 * GAS_STEP + 9 * GAS_RANGE_CHECK"
definition GAS_SECP_MUL :: u64 where "GAS_SECP_MUL = 121810 * GAS_STEP + 10739 * GAS_RANGE_CHECK"
definition GAS_SECP_NEW :: u64 where "GAS_SECP_NEW = 340 * GAS_STEP + 36 * GAS_RANGE_CHECK"
definition GAS_SEND_MESSAGE :: u64 where "GAS_SEND_MESSAGE = 50 * GAS_STEP"
definition GAS_STORAGE_READ :: u64 where "GAS_STORAGE_READ = 50 * GAS_STEP"
definition GAS_STORAGE_WRITE :: u64 where "GAS_STORAGE_WRITE = 50 * GAS_STEP"

definition deduct_gas :: "u64 \<Rightarrow> u64 \<Rightarrow> u64 syscall_result" where
  "deduct_gas gas price =
    (if gas < price then Inl [felt_of_text ''Syscall out of gas''] else Inr (gas - price))"

text \<open>\<open>deduct_gas(gas, price)?\<close> and the rest of the call.\<close>

definition charged :: "u64 \<Rightarrow> ('s, 'a) syscall \<Rightarrow> ('s, 'a) syscall" where
  "charged price body gas s =
    (case deduct_gas gas price of Inl e \<Rightarrow> Some (Inl e, gas, s) | Inr gas \<Rightarrow> body gas s)"

section \<open>Curves\<close>

definition u256_to_biguint :: "u256 \<Rightarrow> nat" where
  "u256_to_biguint x = 2 ^ 128 * unat (u256_hi x) + unat (u256_lo x)"

text \<open>\<open>BigInt<4>\<close>: four words, the lowest first.\<close>

definition big4int_to_u256 :: "u64 list \<Rightarrow> u256 option" where
  "big4int_to_u256 b_int =
    do {
      (a, b, c, d) \<leftarrow> (case b_int of [a, b, c, d] \<Rightarrow> Some (a, b, c, d) | _ \<Rightarrow> None);
      Some \<lparr>u256_lo = ucast a OR push_bit 64 (ucast b), u256_hi = ucast c OR push_bit 64 (ucast d)\<rparr> }"

definition big4int :: "nat \<Rightarrow> u64 list" where
  "big4int n = map (\<lambda>i. of_nat (n div 2 ^ (64 * i))) [0 ..< 4]"

text \<open>Numbers become field elements modulo the modulus.\<close>

definition affine_of :: "ark_curve \<Rightarrow> u256 \<Rightarrow> u256 \<Rightarrow> bool \<Rightarrow> affine" where
  "affine_of C x y inf' =
    \<lparr>af_x = u256_to_biguint x mod ac_base C, af_y = u256_to_biguint y mod ac_base C, af_infinity = inf'\<rparr>"

definition k1_from_affine :: "affine \<Rightarrow> secp256k1_point option" where
  "k1_from_affine p =
    do {
      x \<leftarrow> big4int_to_u256 (big4int (af_x p));
      y \<leftarrow> big4int_to_u256 (big4int (af_y p));
      Some \<lparr>k1_x = x, k1_y = y, k1_is_infinity = af_infinity p\<rparr> }"

definition r1_from_affine :: "affine \<Rightarrow> secp256r1_point option" where
  "r1_from_affine p =
    do {
      x \<leftarrow> big4int_to_u256 (big4int (af_x p));
      y \<leftarrow> big4int_to_u256 (big4int (af_y p));
      Some \<lparr>r1_x = x, r1_y = y, r1_is_infinity = af_infinity p\<rparr> }"

definition k1_to_affine :: "ark_curve \<Rightarrow> secp256k1_point \<Rightarrow> affine" where
  "k1_to_affine C p = affine_of C (k1_x p) (k1_y p) (k1_is_infinity p)"

definition r1_to_affine :: "ark_curve \<Rightarrow> secp256r1_point \<Rightarrow> affine" where
  "r1_to_affine C p = affine_of C (r1_x p) (r1_y p) (r1_is_infinity p)"

definition affine_identity :: affine where
  "affine_identity = \<lparr>af_x = 0, af_y = 0, af_infinity = True\<rparr>"

definition maybe_affine :: "ark_curve \<Rightarrow> nat \<Rightarrow> nat \<Rightarrow> affine option" where
  "maybe_affine C x y =
    (let ec_point = (if x = 0 \<and> y = 0 then affine_identity
                     else \<lparr>af_x = x, af_y = y, af_infinity = False\<rparr>) in
     if ac_on_curve C ec_point \<and> ac_in_subgroup C ec_point then Some ec_point else None)"

definition invalid_argument :: "felt list" where
  "invalid_argument = [felt_of_int 0x496e76616c696420617267756d656e74]"

definition point_new :: "ark_curve \<Rightarrow> u256 \<Rightarrow> u256 \<Rightarrow> affine option syscall_result" where
  "point_new C x y =
    (let x = u256_to_biguint x; y = u256_to_biguint y in
     if ac_base C \<le> x \<or> ac_base C \<le> y then Inl invalid_argument
     else Inr (maybe_affine C (x mod ac_base C) (y mod ac_base C)))"

definition point_mul :: "ark_curve \<Rightarrow> affine \<Rightarrow> u256 \<Rightarrow> affine" where
  "point_mul C p m = ac_times C p (u256_to_biguint m mod ac_scalar C)"

definition point_from_x :: "ark_curve \<Rightarrow> u256 \<Rightarrow> bool \<Rightarrow> affine option syscall_result" where
  "point_from_x C x y_parity =
    (let x = u256_to_biguint x in
     if ac_base C \<le> x then Inl invalid_argument
     else
       (let x = x mod ac_base C in
        Inr (case ac_ys C x of
          None \<Rightarrow> None
        | Some (lesser, other) \<Rightarrow>
            (let y = (if odd lesser = y_parity then lesser else other);
                 p = \<lparr>af_x = x, af_y = y, af_infinity = False\<rparr> in
             if ac_in_subgroup C p then Some p else None))))"

section \<open>Inner calls\<close>

definition felt_values :: "nval list \<Rightarrow> felt list option" where
  "felt_values = map_opt (\<lambda>v. case v of NFelt252 f \<Rightarrow> Some f | _ \<Rightarrow> None)"

text \<open>
  \<open>None\<close> is the error for a value of another shape, on which the caller panics; the result is a
  success or a panic of the contract.
\<close>

definition read_contract_result :: "nval \<Rightarrow> felt list syscall_result option" where
  "read_contract_result value' =
    (case value' of
      NEnum tag payload \<Rightarrow>
        (if tag = 0 then
          (case payload of
            NStruct [NStruct [NArray values]] \<Rightarrow> map_option Inr (felt_values values)
          | _ \<Rightarrow> None)
         else if tag = 1 then
          (case payload of
            NStruct [_, NArray values] \<Rightarrow> map_option Inl (felt_values values)
          | _ \<Rightarrow> None)
         else None)
    | _ \<Rightarrow> None)"

definition call_entry_point ::
  "'x native_world \<Rightarrow> nat \<Rightarrow> felt list \<Rightarrow> ('x native_stub, felt list) syscall" where
  "call_entry_point X entry_point calldata gas s =
    do {
      assert_that (unat gas + unat (nx_entry_point_cost X) < 2 ^ 64);
      let inner_gas = gas + nx_entry_point_cost X;
      executor \<leftarrow> ns_executor s;
      (result, s) \<leftarrow> nx_invoke X executor entry_point [NStruct [NArray (map NFelt252 calldata)]] (Some inner_gas) s;
      counters \<leftarrow> builtin_stats_add (ns_builtin_counters s) (er_builtin_stats result);
      let s = s\<lparr>ns_builtin_counters := counters\<rparr>;
      let gas = (case er_remaining_gas result of Some g \<Rightarrow> g | None \<Rightarrow> gas);
      r \<leftarrow> read_contract_result (er_return_value result);
      Some (r, gas, s) }"

text \<open>The addresses of the execution information.\<close>

definition context_of :: "'x native_stub \<Rightarrow> felt \<times> felt" where
  "context_of s = (ei_contract_address (ns_execution_info s), ei_caller_address (ns_execution_info s))"

definition set_context :: "felt \<times> felt \<Rightarrow> 'x native_stub \<Rightarrow> 'x native_stub" where
  "set_context c s =
    s\<lparr>ns_execution_info := (ns_execution_info s)\<lparr>ei_caller_address := snd c, ei_contract_address := fst c\<rparr>\<rparr>"

definition open_caller_context :: "felt \<times> felt \<Rightarrow> 'x native_stub \<Rightarrow> (felt \<times> felt) \<times> 'x native_stub" where
  "open_caller_context c s = (context_of s, set_context c s)"

definition close_caller_context :: "felt \<times> felt \<Rightarrow> 'x native_stub \<Rightarrow> 'x native_stub" where
  "close_caller_context c s = set_context c s"

text \<open>\<open>err.push(text)\<close>.\<close>

definition with_text :: "string \<Rightarrow> 'a syscall_result \<Rightarrow> 'a syscall_result" where
  "with_text msg r = (case r of Inl e \<Rightarrow> Inl (e @ [felt_of_text msg]) | Inr v \<Rightarrow> Inr v)"

section \<open>The handler\<close>

definition native_get_block_hash :: "u64 \<Rightarrow> ('x native_stub, felt) syscall" where
  "native_get_block_hash n =
    charged GAS_GET_BLOCK_HASH (\<lambda>gas s.
      Some (case fmlookup (ns_block_hash s) n of
          Some h \<Rightarrow> Inr h
        | None \<Rightarrow> Inl [felt_of_text ''GET_BLOCK_HASH_NOT_SET''], gas, s))"

definition native_get_execution_info :: "('x native_stub, execution_info) syscall" where
  "native_get_execution_info =
    charged GAS_GET_EXECUTION_INFO (\<lambda>gas s. Some (Inr (ns_execution_info s), gas, s))"

definition native_get_execution_info_v2 :: "('x native_stub, execution_info_v2) syscall" where
  "native_get_execution_info_v2 =
    charged GAS_GET_EXECUTION_INFO (\<lambda>gas s.
      let info = ns_execution_info s; tx = ei_tx_info info in
      Some (Inr
        \<lparr>ei2_block_info = ei_block_info info,
         ei2_tx_info =
           \<lparr>tx2_version = tx_version tx,
            tx2_account_contract_address = tx_account_contract_address tx,
            tx2_max_fee = tx_max_fee tx,
            tx2_signature = tx_signature tx,
            tx2_transaction_hash = tx_transaction_hash tx,
            tx2_chain_id = tx_chain_id tx,
            tx2_nonce = tx_nonce tx,
            tx2_resource_bounds = [],
            tx2_tip = 0,
            tx2_paymaster_data = [],
            tx2_nonce_data_availability_mode = 0,
            tx2_fee_data_availability_mode = 0,
            tx2_account_deployment_data = []\<rparr>,
         ei2_caller_address = ei_caller_address info,
         ei2_contract_address = ei_contract_address info,
         ei2_entry_point_selector = ei_entry_point_selector info\<rparr>, gas, s))"

definition native_get_execution_info_v3 :: "('x native_stub, execution_info_v3) syscall" where
  "native_get_execution_info_v3 =
    charged GAS_GET_EXECUTION_INFO (\<lambda>gas s.
      let info = ns_execution_info s; tx = ei_tx_info info in
      Some (Inr
        \<lparr>ei3_block_info = ei_block_info info,
         ei3_tx_info =
           \<lparr>tx2_version = tx_version tx,
            tx2_account_contract_address = tx_account_contract_address tx,
            tx2_max_fee = tx_max_fee tx,
            tx2_signature = tx_signature tx,
            tx2_transaction_hash = tx_transaction_hash tx,
            tx2_chain_id = tx_chain_id tx,
            tx2_nonce = tx_nonce tx,
            tx2_resource_bounds = [],
            tx2_tip = 0,
            tx2_paymaster_data = [],
            tx2_nonce_data_availability_mode = 0,
            tx2_fee_data_availability_mode = 0,
            tx2_account_deployment_data = [],
            tx3_proof_facts = []\<rparr>,
         ei3_caller_address = ei_caller_address info,
         ei3_contract_address = ei_contract_address info,
         ei3_entry_point_selector = ei_entry_point_selector info\<rparr>, gas, s))"

definition CONTRACT_ADDRESS_BOUND :: int where
  "CONTRACT_ADDRESS_BOUND = 0x7ffffffffffffffffffffffffffffffffffffffffffffffffffffffffffff00"

definition CONTRACT_ADDRESS_PREFIX :: felt where
  "CONTRACT_ADDRESS_PREFIX = felt_of_int 0x535441524b4e45545f434f4e54524143545f41444452455353"

definition deployed_address :: "'x native_world \<Rightarrow> felt \<Rightarrow> felt \<Rightarrow> felt \<Rightarrow> felt list \<Rightarrow> felt" where
  "deployed_address X deployer_address salt class_hash calldata =
    felt_of_int (felt_int (nx_pedersen_array X
      [CONTRACT_ADDRESS_PREFIX, deployer_address, salt, class_hash, nx_pedersen_array X calldata])
      mod CONTRACT_ADDRESS_BOUND)"

definition native_deploy ::
  "'x native_world \<Rightarrow> felt \<Rightarrow> felt \<Rightarrow> felt list \<Rightarrow> bool \<Rightarrow> ('x native_stub, felt \<times> felt list) syscall" where
  "native_deploy X class_hash salt calldata deploy_from_zero =
    charged (GAS_DEPLOY X) (\<lambda>gas s.
      let deployer_address =
            (if deploy_from_zero then felt_of_int 0 else ei_contract_address (ns_execution_info s));
          addr = deployed_address X deployer_address salt class_hash calldata
      in case fmlookup (ns_contracts_info s) class_hash of
          None \<Rightarrow> Some (Inl [felt_of_text ''CLASS_HASH_NOT_FOUND''], gas, s)
        | Some contract_info \<Rightarrow>
            (let old = fmlookup (ns_deployed_contracts s) addr;
                 s = s\<lparr>ns_deployed_contracts := fmupd addr class_hash (ns_deployed_contracts s)\<rparr>
             in if old \<noteq> None then Some (Inl [felt_of_text ''CONTRACT_ALREADY_DEPLOYED''], gas, s)
             else
               (case ci_constructor contract_info of
                 Some constructor \<Rightarrow>
                   do {
                     let (old_addrs, s) = open_caller_context (addr, deployer_address) s;
                     (res, gas, s) \<leftarrow> call_entry_point X constructor calldata gas s;
                     let s = close_caller_context old_addrs s;
                     Some (with_text ''CONSTRUCTOR_FAILED'' (map_sum (\<lambda>e. e) (\<lambda>res. (addr, res)) res), gas, s) }
               | None \<Rightarrow>
                   if calldata = [] then Some (Inr (addr, []), gas, s)
                   else
                     Some (Inl [felt_of_text ''INVALID_CALLDATA_LEN''], gas,
                       s\<lparr>ns_deployed_contracts := fmdrop addr (ns_deployed_contracts s)\<rparr>))))"

definition native_replace_class :: "felt \<Rightarrow> ('x native_stub, unit) syscall" where
  "native_replace_class class_hash =
    charged GAS_REPLACE_CLASS (\<lambda>gas s.
      if fmlookup (ns_contracts_info s) class_hash = None
      then Some (Inl [felt_of_text ''CLASS_HASH_NOT_FOUND''], gas, s)
      else Some (Inr (), gas,
        s\<lparr>ns_deployed_contracts := fmupd (ei_contract_address (ns_execution_info s)) class_hash (ns_deployed_contracts s)\<rparr>))"

definition native_library_call ::
  "'x native_world \<Rightarrow> felt \<Rightarrow> felt \<Rightarrow> felt list \<Rightarrow> ('x native_stub, felt list) syscall" where
  "native_library_call X class_hash function_selector calldata =
    charged (GAS_LIBRARY_CALL X) (\<lambda>gas s.
      case fmlookup (ns_contracts_info s) class_hash of
        None \<Rightarrow> Some (Inl [felt_of_text ''CLASS_HASH_NOT_DECLARED''], gas, s)
      | Some contract_info \<Rightarrow>
          (case fmlookup (ci_externals contract_info) function_selector of
            None \<Rightarrow>
              Some (Inl [felt_of_text ''ENTRYPOINT_NOT_FOUND'', felt_of_text ''ENTRYPOINT_FAILED''], gas, s)
          | Some entry_point \<Rightarrow>
              do {
                (res, gas, s) \<leftarrow> call_entry_point X entry_point calldata gas s;
                Some (with_text ''ENTRYPOINT_FAILED'' res, gas, s) }))"

text \<open>A deployed contract whose class is not known panics.\<close>

definition native_call_contract ::
  "'x native_world \<Rightarrow> felt \<Rightarrow> felt \<Rightarrow> felt list \<Rightarrow> ('x native_stub, felt list) syscall" where
  "native_call_contract X address entry_point_selector calldata =
    charged (GAS_CALL_CONTRACT X) (\<lambda>gas s.
      case fmlookup (ns_deployed_contracts s) address of
        None \<Rightarrow>
          Some (Inl [felt_of_text ''CONTRACT_NOT_DEPLOYED'', felt_of_text ''ENTRYPOINT_FAILED''], gas, s)
      | Some class_hash \<Rightarrow>
          do {
            contract_info \<leftarrow> fmlookup (ns_contracts_info s) class_hash;
            (case fmlookup (ci_externals contract_info) entry_point_selector of
              None \<Rightarrow>
                Some (Inl [felt_of_text ''ENTRYPOINT_NOT_FOUND'', felt_of_text ''ENTRYPOINT_FAILED''], gas, s)
            | Some entry_point \<Rightarrow>
                do {
                  let (old_addrs, s) = open_caller_context (address, ei_contract_address (ns_execution_info s)) s;
                  (res, gas, s) \<leftarrow> call_entry_point X entry_point calldata gas s;
                  let s = close_caller_context old_addrs s;
                  Some (with_text ''ENTRYPOINT_FAILED'' res, gas, s) }) })"

definition contract_storage :: "'x native_stub \<Rightarrow> felt \<Rightarrow> (felt, felt) fmap" where
  "contract_storage s contract =
    (case fmlookup (ns_storage s) contract of Some m \<Rightarrow> m | None \<Rightarrow> fmempty)"

definition native_storage_read :: "u32 \<Rightarrow> felt \<Rightarrow> ('x native_stub, felt) syscall" where
  "native_storage_read address_domain address =
    charged GAS_STORAGE_READ (\<lambda>gas s.
      if address_domain \<noteq> 0 then Some (Inl [felt_of_text ''Unsupported address domain''], gas, s)
      else
        (let contract = ei_contract_address (ns_execution_info s) in
         Some (Inr (case Option.bind (fmlookup (ns_storage s) contract) (\<lambda>m. fmlookup m address) of
             Some v \<Rightarrow> v | None \<Rightarrow> felt_of_int 0), gas, s)))"

definition native_storage_write :: "u32 \<Rightarrow> felt \<Rightarrow> felt \<Rightarrow> ('x native_stub, unit) syscall" where
  "native_storage_write address_domain address v =
    charged GAS_STORAGE_WRITE (\<lambda>gas s.
      if address_domain \<noteq> 0 then Some (Inl [felt_of_text ''Unsupported address domain''], gas, s)
      else
        (let contract = ei_contract_address (ns_execution_info s) in
         Some (Inr (), gas,
           s\<lparr>ns_storage := fmupd contract (fmupd address v (contract_storage s contract)) (ns_storage s)\<rparr>)))"

definition contract_logs_of :: "'x native_stub \<Rightarrow> felt \<Rightarrow> contract_logs" where
  "contract_logs_of s contract =
    (case fmlookup (ns_logs s) contract of
      Some l \<Rightarrow> l | None \<Rightarrow> \<lparr>cl_events = [], cl_l2_to_l1_messages = []\<rparr>)"

definition native_emit_event :: "felt list \<Rightarrow> felt list \<Rightarrow> ('x native_stub, unit) syscall" where
  "native_emit_event keys data =
    charged GAS_EMIT_EVENT (\<lambda>gas s.
      let contract = ei_contract_address (ns_execution_info s);
          l = contract_logs_of s contract
      in Some (Inr (), gas,
        s\<lparr>ns_logs := fmupd contract
          (l\<lparr>cl_events := cl_events l @ [\<lparr>ev_keys = keys, ev_data = data\<rparr>]\<rparr>) (ns_logs s)\<rparr>))"

definition native_send_message_to_l1 :: "felt \<Rightarrow> felt list \<Rightarrow> ('x native_stub, unit) syscall" where
  "native_send_message_to_l1 to_address payload =
    charged GAS_SEND_MESSAGE (\<lambda>gas s.
      let contract = ei_contract_address (ns_execution_info s);
          l = contract_logs_of s contract
      in Some (Inr (), gas,
        s\<lparr>ns_logs := fmupd contract
          (l\<lparr>cl_l2_to_l1_messages := cl_l2_to_l1_messages l @ [(to_address, payload)]\<rparr>) (ns_logs s)\<rparr>))"

text \<open>The blocks of \<open>chunks(17)\<close>.\<close>

function chunks :: "'a list \<Rightarrow> nat \<Rightarrow> 'a list list" where
  "chunks xs n = (if xs = [] \<or> n = 0 then [] else take n xs # chunks (drop n xs) n)"
  by pat_completeness auto
termination by (relation "measure (\<lambda>(xs, n). length xs)") auto

declare chunks.simps [simp del]

fun native_keccak_rounds ::
  "'x native_world \<Rightarrow> u64 list list \<Rightarrow> u64 list \<Rightarrow> u64 \<Rightarrow> u64 list syscall_result \<times> u64" where
  "native_keccak_rounds X [] st gas = (Inr st, gas)"
| "native_keccak_rounds X (chunk # cs) st gas =
    (case deduct_gas gas GAS_KECCAK_ROUND of
      Inl e \<Rightarrow> (Inl e, gas)
    | Inr gas \<Rightarrow> native_keccak_rounds X cs (nx_f1600 X (absorb st chunk)) gas)"

definition native_keccak :: "'x native_world \<Rightarrow> u64 list \<Rightarrow> ('x native_stub, u256) syscall" where
  "native_keccak X input =
    charged GAS_KECCAK (\<lambda>gas s.
      if length input mod 17 \<noteq> 0
      then Some (Inl [felt_of_int 0x496e76616c696420696e707574206c656e677468], gas, s)
      else
        (case native_keccak_rounds X (chunks input 17) (replicate 25 0) gas of
          (Inl e, gas') \<Rightarrow> Some (Inl e, gas', s)
        | (Inr st, gas') \<Rightarrow>
            do {
              a \<leftarrow> nth_opt st 0;
              b \<leftarrow> nth_opt st 1;
              c \<leftarrow> nth_opt st 2;
              d \<leftarrow> nth_opt st 3;
              Some (Inr \<lparr>u256_lo = (ucast a :: u128) OR push_bit 64 (ucast b),
                         u256_hi = (ucast c :: u128) OR push_bit 64 (ucast d)\<rparr>, gas', s) }))"

definition native_secp256k1_new ::
  "'x native_world \<Rightarrow> u256 \<Rightarrow> u256 \<Rightarrow> ('x native_stub, secp256k1_point option) syscall" where
  "native_secp256k1_new X x y =
    charged GAS_SECP_NEW (\<lambda>gas s.
      case point_new (nx_k1 X) x y of
        Inl e \<Rightarrow> Some (Inl e, gas, s)
      | Inr None \<Rightarrow> Some (Inr None, gas, s)
      | Inr (Some p) \<Rightarrow> do { p \<leftarrow> k1_from_affine p; Some (Inr (Some p), gas, s) })"

definition native_secp256k1_add ::
  "'x native_world \<Rightarrow> secp256k1_point \<Rightarrow> secp256k1_point \<Rightarrow> ('x native_stub, secp256k1_point) syscall" where
  "native_secp256k1_add X p0 p1 =
    charged GAS_SECP_ADD (\<lambda>gas s.
      do {
        r \<leftarrow> k1_from_affine (ac_plus (nx_k1 X) (k1_to_affine (nx_k1 X) p0) (k1_to_affine (nx_k1 X) p1));
        Some (Inr r, gas, s) })"

definition native_secp256k1_mul ::
  "'x native_world \<Rightarrow> secp256k1_point \<Rightarrow> u256 \<Rightarrow> ('x native_stub, secp256k1_point) syscall" where
  "native_secp256k1_mul X p m =
    charged GAS_SECP_MUL (\<lambda>gas s.
      do {
        r \<leftarrow> k1_from_affine (point_mul (nx_k1 X) (k1_to_affine (nx_k1 X) p) m);
        Some (Inr r, gas, s) })"

definition native_secp256k1_get_point_from_x ::
  "'x native_world \<Rightarrow> u256 \<Rightarrow> bool \<Rightarrow> ('x native_stub, secp256k1_point option) syscall" where
  "native_secp256k1_get_point_from_x X x y_parity =
    charged GAS_SECP_FROM_X (\<lambda>gas s.
      case point_from_x (nx_k1 X) x y_parity of
        Inl e \<Rightarrow> Some (Inl e, gas, s)
      | Inr None \<Rightarrow> Some (Inr None, gas, s)
      | Inr (Some p) \<Rightarrow> do { p \<leftarrow> k1_from_affine p; Some (Inr (Some p), gas, s) })"

definition native_secp256k1_get_xy :: "secp256k1_point \<Rightarrow> ('x native_stub, u256 \<times> u256) syscall" where
  "native_secp256k1_get_xy p =
    charged GAS_SECP_GET_XY (\<lambda>gas s. Some (Inr (k1_x p, k1_y p), gas, s))"

definition native_secp256r1_new ::
  "'x native_world \<Rightarrow> u256 \<Rightarrow> u256 \<Rightarrow> ('x native_stub, secp256r1_point option) syscall" where
  "native_secp256r1_new X x y =
    charged GAS_SECP_NEW (\<lambda>gas s.
      case point_new (nx_r1 X) x y of
        Inl e \<Rightarrow> Some (Inl e, gas, s)
      | Inr None \<Rightarrow> Some (Inr None, gas, s)
      | Inr (Some p) \<Rightarrow> do { p \<leftarrow> r1_from_affine p; Some (Inr (Some p), gas, s) })"

definition native_secp256r1_add ::
  "'x native_world \<Rightarrow> secp256r1_point \<Rightarrow> secp256r1_point \<Rightarrow> ('x native_stub, secp256r1_point) syscall" where
  "native_secp256r1_add X p0 p1 =
    charged GAS_SECP_ADD (\<lambda>gas s.
      do {
        r \<leftarrow> r1_from_affine (ac_plus (nx_r1 X) (r1_to_affine (nx_r1 X) p0) (r1_to_affine (nx_r1 X) p1));
        Some (Inr r, gas, s) })"

definition native_secp256r1_mul ::
  "'x native_world \<Rightarrow> secp256r1_point \<Rightarrow> u256 \<Rightarrow> ('x native_stub, secp256r1_point) syscall" where
  "native_secp256r1_mul X p m =
    charged GAS_SECP_MUL (\<lambda>gas s.
      do {
        r \<leftarrow> r1_from_affine (point_mul (nx_r1 X) (r1_to_affine (nx_r1 X) p) m);
        Some (Inr r, gas, s) })"

definition native_secp256r1_get_point_from_x ::
  "'x native_world \<Rightarrow> u256 \<Rightarrow> bool \<Rightarrow> ('x native_stub, secp256r1_point option) syscall" where
  "native_secp256r1_get_point_from_x X x y_parity =
    charged GAS_SECP_FROM_X (\<lambda>gas s.
      case point_from_x (nx_r1 X) x y_parity of
        Inl e \<Rightarrow> Some (Inl e, gas, s)
      | Inr None \<Rightarrow> Some (Inr None, gas, s)
      | Inr (Some p) \<Rightarrow> do { p \<leftarrow> r1_from_affine p; Some (Inr (Some p), gas, s) })"

definition native_secp256r1_get_xy :: "secp256r1_point \<Rightarrow> ('x native_stub, u256 \<times> u256) syscall" where
  "native_secp256r1_get_xy p =
    charged GAS_SECP_GET_XY (\<lambda>gas s. Some (Inr (r1_x p, r1_y p), gas, s))"

text \<open>The words of a block, in big-endian bytes.\<close>

definition native_sha256_process_block ::
  "'x native_world \<Rightarrow> u32 list \<Rightarrow> u32 list \<Rightarrow> ('x native_stub, u32 list) syscall" where
  "native_sha256_process_block X st block =
    charged GAS_SHA256 (\<lambda>gas s.
      let data_as_bytes = concat (map to_be_bytes32 block) in
      Some (Inr (nx_compress256 X st data_as_bytes), gas, s))"

definition native_sha512_process_block ::
  "'x native_world \<Rightarrow> u64 list \<Rightarrow> u64 list \<Rightarrow> ('x native_stub, u64 list) syscall" where
  "native_sha512_process_block X st block =
    charged GAS_SHA512 (\<lambda>gas s.
      let data_as_bytes = concat (map to_be_bytes64 block) in
      Some (Inr (nx_compress512 X st data_as_bytes), gas, s))"

definition native_get_class_hash_at :: "felt \<Rightarrow> ('x native_stub, felt) syscall" where
  "native_get_class_hash_at contract_address =
    charged GAS_GET_CLASS_HASH_AT (\<lambda>gas s.
      Some (Inr (case fmlookup (ns_deployed_contracts s) contract_address of
          Some h \<Rightarrow> h | None \<Rightarrow> felt_of_int 0), gas, s))"

text \<open>\<open>todo!\<close>.\<close>

definition native_meta_tx_v0 ::
  "felt \<Rightarrow> felt \<Rightarrow> felt list \<Rightarrow> felt list \<Rightarrow> ('x native_stub, felt list) syscall" where
  "native_meta_tx_v0 address entry_point_selector calldata sig gas s = None"

definition native_handler :: "'x native_world \<Rightarrow> 'x native_stub syscall_handler" where
  "native_handler X =
    \<lparr>get_block_hash = native_get_block_hash,
     get_execution_info = native_get_execution_info,
     get_execution_info_v2 = native_get_execution_info_v2,
     get_execution_info_v3 = native_get_execution_info_v3,
     deploy = native_deploy X,
     replace_class = native_replace_class,
     library_call = native_library_call X,
     call_contract = native_call_contract X,
     storage_read = native_storage_read,
     storage_write = native_storage_write,
     emit_event = native_emit_event,
     send_message_to_l1 = native_send_message_to_l1,
     keccak = native_keccak X,
     secp256k1_new = native_secp256k1_new X,
     secp256k1_add = native_secp256k1_add X,
     secp256k1_mul = native_secp256k1_mul X,
     secp256k1_get_point_from_x = native_secp256k1_get_point_from_x X,
     secp256k1_get_xy = native_secp256k1_get_xy,
     secp256r1_new = native_secp256r1_new X,
     secp256r1_add = native_secp256r1_add X,
     secp256r1_mul = native_secp256r1_mul X,
     secp256r1_get_point_from_x = native_secp256r1_get_point_from_x X,
     secp256r1_get_xy = native_secp256r1_get_xy,
     sha256_process_block = native_sha256_process_block X,
     sha512_process_block = native_sha512_process_block X,
     get_class_hash_at = native_get_class_hash_at,
     meta_tx_v0 = native_meta_tx_v0\<rparr>"

text \<open>The handler for programs without system calls: every call is \<open>unimplemented!\<close>.\<close>

definition dummy_handler :: "'s syscall_handler" where
  "dummy_handler =
    \<lparr>get_block_hash = \<lambda>_ _ _. None,
     get_execution_info = \<lambda>_ _. None,
     get_execution_info_v2 = \<lambda>_ _. None,
     get_execution_info_v3 = \<lambda>_ _. None,
     deploy = \<lambda>_ _ _ _ _ _. None,
     replace_class = \<lambda>_ _ _. None,
     library_call = \<lambda>_ _ _ _ _. None,
     call_contract = \<lambda>_ _ _ _ _. None,
     storage_read = \<lambda>_ _ _ _. None,
     storage_write = \<lambda>_ _ _ _ _. None,
     emit_event = \<lambda>_ _ _ _. None,
     send_message_to_l1 = \<lambda>_ _ _ _. None,
     keccak = \<lambda>_ _ _. None,
     secp256k1_new = \<lambda>_ _ _ _. None,
     secp256k1_add = \<lambda>_ _ _ _. None,
     secp256k1_mul = \<lambda>_ _ _ _. None,
     secp256k1_get_point_from_x = \<lambda>_ _ _ _. None,
     secp256k1_get_xy = \<lambda>_ _ _. None,
     secp256r1_new = \<lambda>_ _ _ _. None,
     secp256r1_add = \<lambda>_ _ _ _. None,
     secp256r1_mul = \<lambda>_ _ _ _. None,
     secp256r1_get_point_from_x = \<lambda>_ _ _ _. None,
     secp256r1_get_xy = \<lambda>_ _ _. None,
     sha256_process_block = \<lambda>_ _ _ _. None,
     sha512_process_block = \<lambda>_ _ _ _. None,
     get_class_hash_at = \<lambda>_ _ _. None,
     meta_tx_v0 = \<lambda>_ _ _ _ _ _. None\<rparr>"

section \<open>Cheatcodes\<close>

text \<open>
  The name of a cheatcode: the bytes of the selector without the leading zeros. A missing
  input, a number that does not fit its field and an unknown name panic.
\<close>

definition cheat_name :: "felt \<Rightarrow> u8 list option" where
  "cheat_name selector =
    do { bs \<leftarrow> string_from_utf8 (felt_bytes_be selector); Some (dropWhile (\<lambda>b. b = 0) bs) }"

definition is_text :: "u8 list \<Rightarrow> string \<Rightarrow> bool" where
  "is_text bs t \<longleftrightarrow> bs = map of_char t"

definition set_block_info :: "(block_info \<Rightarrow> block_info) \<Rightarrow> 'x native_stub \<Rightarrow> 'x native_stub" where
  "set_block_info f s = s\<lparr>ns_execution_info := (ns_execution_info s)\<lparr>ei_block_info := f (ei_block_info (ns_execution_info s))\<rparr>\<rparr>"

definition set_tx_info :: "(tx_info \<Rightarrow> tx_info) \<Rightarrow> 'x native_stub \<Rightarrow> 'x native_stub" where
  "set_tx_info f s = s\<lparr>ns_execution_info := (ns_execution_info s)\<lparr>ei_tx_info := f (ei_tx_info (ns_execution_info s))\<rparr>\<rparr>"

definition pop_log :: "felt \<Rightarrow> 'x native_stub \<Rightarrow> felt list \<times> 'x native_stub" where
  "pop_log contract s =
    (case fmlookup (ns_logs s) contract of
      None \<Rightarrow> ([], s)
    | Some l \<Rightarrow>
        (case cl_events l of
          [] \<Rightarrow> ([], s)
        | ev # evs \<Rightarrow>
            (felt_of_int (int (length (ev_keys ev))) # ev_keys ev @ felt_of_int (int (length (ev_data ev))) # ev_data ev,
             s\<lparr>ns_logs := fmupd contract (l\<lparr>cl_events := evs\<rparr>) (ns_logs s)\<rparr>)))"

definition pop_message :: "felt \<Rightarrow> 'x native_stub \<Rightarrow> felt list \<times> 'x native_stub" where
  "pop_message contract s =
    (case fmlookup (ns_logs s) contract of
      None \<Rightarrow> ([], s)
    | Some l \<Rightarrow>
        (case cl_l2_to_l1_messages l of
          [] \<Rightarrow> ([], s)
        | (to_address, payload) # ms \<Rightarrow>
            (to_address # felt_of_int (int (length payload)) # payload,
             s\<lparr>ns_logs := fmupd contract (l\<lparr>cl_l2_to_l1_messages := ms\<rparr>) (ns_logs s)\<rparr>)))"

definition native_cheatcode ::
  "felt \<Rightarrow> felt list \<Rightarrow> 'x native_stub \<Rightarrow> (felt list \<times> 'x native_stub) option" where
  "native_cheatcode selector input s =
    (case cheat_name selector of
      None \<Rightarrow> Some ([], s)
    | Some name \<Rightarrow>
        if is_text name ''set_sequencer_address''
        then do { x \<leftarrow> nth_opt input 0; Some ([], set_block_info (\<lambda>b. b\<lparr>sequencer_address := x\<rparr>) s) }
        else if is_text name ''set_caller_address''
        then do {
          x \<leftarrow> nth_opt input 0;
          Some ([], s\<lparr>ns_execution_info := (ns_execution_info s)\<lparr>ei_caller_address := x\<rparr>\<rparr>) }
        else if is_text name ''set_contract_address''
        then do {
          x \<leftarrow> nth_opt input 0;
          Some ([], s\<lparr>ns_execution_info := (ns_execution_info s)\<lparr>ei_contract_address := x\<rparr>\<rparr>) }
        else if is_text name ''set_account_contract_address''
        then do { x \<leftarrow> nth_opt input 0; Some ([], set_tx_info (\<lambda>t. t\<lparr>tx_account_contract_address := x\<rparr>) s) }
        else if is_text name ''set_transaction_hash''
        then do { x \<leftarrow> nth_opt input 0; Some ([], set_tx_info (\<lambda>t. t\<lparr>tx_transaction_hash := x\<rparr>) s) }
        else if is_text name ''set_nonce''
        then do { x \<leftarrow> nth_opt input 0; Some ([], set_tx_info (\<lambda>t. t\<lparr>tx_nonce := x\<rparr>) s) }
        else if is_text name ''set_version''
        then do { x \<leftarrow> nth_opt input 0; Some ([], set_tx_info (\<lambda>t. t\<lparr>tx_version := x\<rparr>) s) }
        else if is_text name ''set_chain_id''
        then do { x \<leftarrow> nth_opt input 0; Some ([], set_tx_info (\<lambda>t. t\<lparr>tx_chain_id := x\<rparr>) s) }
        else if is_text name ''set_max_fee''
        then do {
          x \<leftarrow> nth_opt input 0;
          max_fee \<leftarrow> to_unsigned (felt_int x);
          Some ([], set_tx_info (\<lambda>t. t\<lparr>tx_max_fee := max_fee\<rparr>) s) }
        else if is_text name ''set_block_number''
        then do {
          x \<leftarrow> nth_opt input 0;
          n \<leftarrow> to_unsigned (felt_int x);
          Some ([], set_block_info (\<lambda>b. b\<lparr>block_number := n\<rparr>) s) }
        else if is_text name ''set_block_timestamp''
        then do {
          x \<leftarrow> nth_opt input 0;
          n \<leftarrow> to_unsigned (felt_int x);
          Some ([], set_block_info (\<lambda>b. b\<lparr>block_timestamp := n\<rparr>) s) }
        else if is_text name ''set_block_hash''
        then do {
          x \<leftarrow> nth_opt input 0;
          n \<leftarrow> to_unsigned (felt_int x);
          h \<leftarrow> nth_opt input 1;
          Some ([], s\<lparr>ns_block_hash := fmupd n h (ns_block_hash s)\<rparr>) }
        else if is_text name ''set_signature''
        then Some ([], set_tx_info (\<lambda>t. t\<lparr>tx_signature := input\<rparr>) s)
        else if is_text name ''pop_log''
        then do { x \<leftarrow> nth_opt input 0; Some (pop_log x s) }
        else if is_text name ''pop_l2_to_l1_message''
        then do { x \<leftarrow> nth_opt input 0; Some (pop_message x s) }
        else None)"

end
