(* ===== verification/IntOps.thy ===== *)
theory IntOps
  imports Sample Externs
begin

text \<open>
  \<open>debug_utils/sierra-emu/src/vm/int.rs\<close>: the integer libfuncs. Each \<open>eval_*\<close> is the
  function of that name; the four dispatchers are \<open>eval_signed\<close>, \<open>eval_i128\<close>,
  \<open>eval_unsigned\<close> and \<open>eval_uint128\<close>. The lemmas are stated once for the ten machine
  integer types, through the contract \<open>machine_int\<close> of \<open>Numeric\<close>.
\<close>

section \<open>Overflowing operations\<close>

text \<open>
  \<open>OverflowingAdd::overflowing_add\<close> and its companion: the wrapped result, and whether the
  exact result did not fit.
\<close>

definition unsigned_overflowing ::
  "int_operator \<Rightarrow> 'a::len word \<Rightarrow> 'a word \<Rightarrow> 'a word \<times> bool" where
  "unsigned_overflowing op x y =
    (case op of
      OverflowingAdd \<Rightarrow> (x + y, 2 ^ LENGTH('a) \<le> uint x + uint y)
    | OverflowingSub \<Rightarrow> (x - y, x < y))"

definition signed_overflowing ::
  "int_operator \<Rightarrow> 'a::len word \<Rightarrow> 'a word \<Rightarrow> 'a word \<times> bool" where
  "signed_overflowing op x y =
    (case op of
      OverflowingAdd \<Rightarrow> (x + y, sint (x + y) \<noteq> sint x + sint y)
    | OverflowingSub \<Rightarrow> (x - y, sint (x - y) \<noteq> sint x - sint y))"

text \<open>The inner function \<open>overflowing_op\<close>, for an unsigned and a signed \<open>T\<close>.\<close>

definition overflowing_op_u ::
  "'a::len itself \<Rightarrow> int \<Rightarrow> int \<Rightarrow> int_operator \<Rightarrow> (int \<times> bool) option" where
  "overflowing_op_u T lhs rhs op =
    do {
      l \<leftarrow> (to_unsigned lhs :: 'a word option);
      r \<leftarrow> to_unsigned rhs;
      let (result, had_overflow) = unsigned_overflowing op l r;
      Some (uint result, had_overflow) }"

definition overflowing_op_i ::
  "'a::len itself \<Rightarrow> int \<Rightarrow> int \<Rightarrow> int_operator \<Rightarrow> (int \<times> bool) option" where
  "overflowing_op_i T lhs rhs op =
    do {
      l \<leftarrow> (to_signed lhs :: 'a word option);
      r \<leftarrow> to_signed rhs;
      let (result, had_overflow) = signed_overflowing op l r;
      Some (sint result, had_overflow) }"

definition apply_overflowing_op_for_type ::
  "registry \<Rightarrow> type_id \<Rightarrow> int \<Rightarrow> int \<Rightarrow> int_operator \<Rightarrow> (int \<times> bool) option" where
  "apply_overflowing_op_for_type R t lhs rhs op =
    do {
      ty \<leftarrow> get_type R t;
      (case ty of
        Sint8T \<Rightarrow> overflowing_op_i TYPE(8) lhs rhs op
      | Sint16T \<Rightarrow> overflowing_op_i TYPE(16) lhs rhs op
      | Sint32T \<Rightarrow> overflowing_op_i TYPE(32) lhs rhs op
      | Sint64T \<Rightarrow> overflowing_op_i TYPE(64) lhs rhs op
      | Sint128T \<Rightarrow> overflowing_op_i TYPE(128) lhs rhs op
      | Uint8T \<Rightarrow> overflowing_op_u TYPE(8) lhs rhs op
      | Uint16T \<Rightarrow> overflowing_op_u TYPE(16) lhs rhs op
      | Uint32T \<Rightarrow> overflowing_op_u TYPE(32) lhs rhs op
      | Uint64T \<Rightarrow> overflowing_op_u TYPE(64) lhs rhs op
      | Uint128T \<Rightarrow> overflowing_op_u TYPE(128) lhs rhs op
      | _ \<Rightarrow> None) }"

section \<open>Evaluators\<close>

definition eval_int_const :: "registry \<Rightarrow> signature \<Rightarrow> int \<Rightarrow> val list \<Rightarrow> eval_action option" where
  "eval_int_const R sg c args =
    do {
      int_ty \<leftarrow> branch_ty sg 0 0;
      v \<leftarrow> get_value_from_integer R int_ty c;
      Some (NormalBranch 0 [v]) }"

definition eval_bitwise :: "registry \<Rightarrow> signature \<Rightarrow> val list \<Rightarrow> eval_action option" where
  "eval_bitwise R sg args =
    do {
      bitwise \<leftarrow> nth_opt args 0;
      as_unit bitwise;
      is \<leftarrow> get_numeric_args_as_bigints (drop 1 args);
      (lhs, rhs) \<leftarrow> args2 is;
      int_ty \<leftarrow> branch_ty sg 0 1;
      a \<leftarrow> get_value_from_integer R int_ty (lhs AND rhs);
      b \<leftarrow> get_value_from_integer R int_ty (lhs OR rhs);
      c \<leftarrow> get_value_from_integer R int_ty (lhs XOR rhs);
      Some (NormalBranch 0 [bitwise, a, c, b]) }"

definition eval_diff :: "registry \<Rightarrow> signature \<Rightarrow> val list \<Rightarrow> eval_action option" where
  "eval_diff R sg args =
    do {
      range_check \<leftarrow> nth_opt args 0;
      as_unit range_check;
      is \<leftarrow> get_numeric_args_as_bigints (drop 1 args);
      (lhs, rhs) \<leftarrow> args2 is;
      int_ty \<leftarrow> branch_ty sg 0 1;
      let res = lhs - rhs;
      (if res < 0
       then do {
         range \<leftarrow> integer_range R int_ty;
         v \<leftarrow> get_value_from_integer R int_ty (rng_upper range + res);
         Some (NormalBranch 1 [range_check, v]) }
       else do {
         v \<leftarrow> get_value_from_integer R int_ty res;
         Some (NormalBranch 0 [range_check, v]) }) }"

definition eval_divmod :: "registry \<Rightarrow> signature \<Rightarrow> val list \<Rightarrow> eval_action option" where
  "eval_divmod R sg args =
    do {
      range_check \<leftarrow> nth_opt args 0;
      as_unit range_check;
      is \<leftarrow> get_numeric_args_as_bigints (drop 1 args);
      (lhs, rhs) \<leftarrow> args2 is;
      int_ty \<leftarrow> branch_ty sg 0 1;
      res \<leftarrow> big_div lhs rhs;
      rem \<leftarrow> big_rem lhs rhs;
      res \<leftarrow> get_value_from_integer R int_ty res;
      rem \<leftarrow> get_value_from_integer R int_ty rem;
      Some (NormalBranch 0 [range_check, res, rem]) }"

definition eval_equal :: "val list \<Rightarrow> eval_action option" where
  "eval_equal args =
    do {
      (lhs, rhs) \<leftarrow> args2 args;
      Some (NormalBranch (if lhs = rhs then 1 else 0) []) }"

definition eval_from_felt :: "registry \<Rightarrow> signature \<Rightarrow> val list \<Rightarrow> eval_action option" where
  "eval_from_felt R sg args =
    do {
      (range_check, v) \<leftarrow> args2 args;
      as_unit range_check;
      value_felt \<leftarrow> as_felt v;
      int_ty \<leftarrow> branch_ty sg 0 1;
      range \<leftarrow> integer_range R int_ty;
      let i = felt_signed value_felt;
      (if rng_lower range \<le> i \<and> i < rng_upper range
       then do {
         w \<leftarrow> get_value_from_integer R int_ty i;
         Some (NormalBranch 0 [range_check, w]) }
       else Some (NormalBranch 1 [range_check])) }"

definition eval_u128_from_felt :: "val list \<Rightarrow> eval_action option" where
  "eval_u128_from_felt args =
    do {
      (range_check, v) \<leftarrow> args2 args;
      as_unit range_check;
      f \<leftarrow> as_felt v;
      let bound = felt_of_int (2 ^ 128 - 1) + 1;
      (if f < bound
       then do {
         x \<leftarrow> to_unsigned (felt_int f);
         Some (NormalBranch 0 [range_check, U128 x]) }
       else do {
         overflow \<leftarrow> to_unsigned (felt_int f mod felt_int bound);
         new_value \<leftarrow> to_unsigned (felt_int f div felt_int bound);
         Some (NormalBranch 1 [range_check, U128 new_value, U128 overflow]) }) }"

definition eval_int_is_zero :: "registry \<Rightarrow> signature \<Rightarrow> val list \<Rightarrow> eval_action option" where
  "eval_int_is_zero R sg args =
    do {
      is \<leftarrow> get_numeric_args_as_bigints args;
      i \<leftarrow> args1 is;
      int_ty \<leftarrow> branch_ty sg 1 0;
      (if i = 0 then Some (NormalBranch 0 [])
       else do {
         v \<leftarrow> get_value_from_integer R int_ty i;
         Some (NormalBranch 1 [v]) }) }"

definition eval_operation ::
  "registry \<Rightarrow> signature \<Rightarrow> int_operator \<Rightarrow> val list \<Rightarrow> eval_action option" where
  "eval_operation R sg op args =
    do {
      range_check \<leftarrow> nth_opt args 0;
      as_unit range_check;
      is \<leftarrow> get_numeric_args_as_bigints (drop 1 args);
      (lhs, rhs) \<leftarrow> args2 is;
      int_ty \<leftarrow> param_ty sg 1;
      (res, had_overflow) \<leftarrow> apply_overflowing_op_for_type R int_ty lhs rhs op;
      res \<leftarrow> get_value_from_integer R int_ty res;
      Some (NormalBranch (if had_overflow then 1 else 0) [range_check, res]) }"

definition eval_square_root ::
  "externs \<Rightarrow> registry \<Rightarrow> signature \<Rightarrow> val list \<Rightarrow> eval_action option" where
  "eval_square_root E R sg args =
    do {
      range_check \<leftarrow> nth_opt args 0;
      as_unit range_check;
      is \<leftarrow> get_numeric_args_as_bigints (drop 1 args);
      i \<leftarrow> args1 is;
      int_ty \<leftarrow> branch_ty sg 0 1;
      res \<leftarrow> ex_sqrt E i;
      v \<leftarrow> get_value_from_integer R int_ty res;
      Some (NormalBranch 0 [range_check, v]) }"

definition eval_to_felt :: "val list \<Rightarrow> eval_action option" where
  "eval_to_felt args =
    do {
      is \<leftarrow> get_numeric_args_as_bigints args;
      i \<leftarrow> args1 is;
      Some (NormalBranch 0 [Felt (felt_of_int i)]) }"

definition eval_widemul :: "registry \<Rightarrow> signature \<Rightarrow> val list \<Rightarrow> eval_action option" where
  "eval_widemul R sg args =
    do {
      is \<leftarrow> get_numeric_args_as_bigints args;
      (lhs, rhs) \<leftarrow> args2 is;
      int_ty \<leftarrow> branch_ty sg 0 0;
      v \<leftarrow> get_value_from_integer R int_ty (lhs * rhs);
      Some (NormalBranch 0 [v]) }"

definition eval_guarantee_mul :: "val list \<Rightarrow> eval_action option" where
  "eval_guarantee_mul args =
    do {
      (a, b) \<leftarrow> args2 args;
      lhs \<leftarrow> as_u128 a;
      rhs \<leftarrow> as_u128 b;
      let result = uint lhs * uint rhs;
      high \<leftarrow> to_unsigned (drop_bit 128 result);
      low \<leftarrow> to_unsigned (result AND (2 ^ 128 - 1));
      Some (NormalBranch 0 [U128 high, U128 low, Unit]) }"

definition eval_guarantee_verify :: "val list \<Rightarrow> eval_action option" where
  "eval_guarantee_verify args =
    do {
      (range_check, verify) \<leftarrow> args2 args;
      as_unit range_check;
      as_unit verify;
      Some (NormalBranch 0 [range_check]) }"

text \<open>\<open>u128::swap_bytes\<close>: byte \<open>i\<close> moves to position \<open>15 - i\<close>.\<close>

definition swap_bytes :: "u128 \<Rightarrow> u128" where
  "swap_bytes x =
    fold (\<lambda>i acc. acc OR push_bit (8 * (15 - i)) (take_bit 8 (drop_bit (8 * i) x))) [0 ..< 16] 0"

definition eval_byte_reverse :: "val list \<Rightarrow> eval_action option" where
  "eval_byte_reverse args =
    do {
      (bitwise, v) \<leftarrow> args2 args;
      as_unit bitwise;
      x \<leftarrow> as_u128 v;
      Some (NormalBranch 0 [bitwise, U128 (swap_bytes x)]) }"

section \<open>Dispatchers\<close>

definition eval_signed :: "registry \<Rightarrow> signature \<Rightarrow> sint_lib \<Rightarrow> val list \<Rightarrow> eval_action option" where
  "eval_signed R sg selector args =
    (case selector of
      SintConst c \<Rightarrow> eval_int_const R sg c args
    | SintDiff \<Rightarrow> eval_diff R sg args
    | SintEqual \<Rightarrow> eval_equal args
    | SintFromFelt252 \<Rightarrow> eval_from_felt R sg args
    | SintOperation op \<Rightarrow> eval_operation R sg op args
    | SintToFelt252 \<Rightarrow> eval_to_felt args
    | SintWideMul \<Rightarrow> eval_widemul R sg args)"

definition eval_i128 :: "registry \<Rightarrow> signature \<Rightarrow> sint128_lib \<Rightarrow> val list \<Rightarrow> eval_action option" where
  "eval_i128 R sg selector args =
    (case selector of
      Sint128Const c \<Rightarrow> eval_int_const R sg c args
    | Sint128Diff \<Rightarrow> eval_diff R sg args
    | Sint128Equal \<Rightarrow> eval_equal args
    | Sint128FromFelt252 \<Rightarrow> eval_from_felt R sg args
    | Sint128Operation op \<Rightarrow> eval_operation R sg op args
    | Sint128ToFelt252 \<Rightarrow> eval_to_felt args)"

definition eval_unsigned ::
  "externs \<Rightarrow> registry \<Rightarrow> signature \<Rightarrow> uint_lib \<Rightarrow> val list \<Rightarrow> eval_action option" where
  "eval_unsigned E R sg selector args =
    (case selector of
      UintConst c \<Rightarrow> eval_int_const R sg c args
    | UintBitwise \<Rightarrow> eval_bitwise R sg args
    | UintDivmod \<Rightarrow> eval_divmod R sg args
    | UintEqual \<Rightarrow> eval_equal args
    | UintFromFelt252 \<Rightarrow> eval_from_felt R sg args
    | UintOperation op \<Rightarrow> eval_operation R sg op args
    | UintIsZero \<Rightarrow> eval_int_is_zero R sg args
    | UintSquareRoot \<Rightarrow> eval_square_root E R sg args
    | UintToFelt252 \<Rightarrow> eval_to_felt args
    | UintWideMul \<Rightarrow> eval_widemul R sg args)"

definition eval_uint128 ::
  "externs \<Rightarrow> registry \<Rightarrow> signature \<Rightarrow> uint128_lib \<Rightarrow> val list \<Rightarrow> eval_action option" where
  "eval_uint128 E R sg selector args =
    (case selector of
      Uint128Const c \<Rightarrow> eval_int_const R sg c args
    | Uint128Operation op \<Rightarrow> eval_operation R sg op args
    | Uint128SquareRoot \<Rightarrow> eval_square_root E R sg args
    | Uint128Equal \<Rightarrow> eval_equal args
    | Uint128ToFelt252 \<Rightarrow> eval_to_felt args
    | Uint128FromFelt252 \<Rightarrow> eval_u128_from_felt args
    | Uint128IsZero \<Rightarrow> eval_int_is_zero R sg args
    | Uint128Divmod \<Rightarrow> eval_divmod R sg args
    | Uint128Bitwise \<Rightarrow> eval_bitwise R sg args
    | Uint128GuaranteeMul \<Rightarrow> eval_guarantee_mul args
    | Uint128MulGuaranteeVerify \<Rightarrow> eval_guarantee_verify args
    | Uint128ByteReverse \<Rightarrow> eval_byte_reverse args)"

section \<open>Overflowing operations wrap\<close>

definition exact_op :: "int_operator \<Rightarrow> int \<Rightarrow> int \<Rightarrow> int" where
  "exact_op op a b = (case op of OverflowingAdd \<Rightarrow> a + b | OverflowingSub \<Rightarrow> a - b)"

lemma overflowing_op_u_wraps:
  assumes "w = LENGTH('a::len)" and "0 \<le> a" "a < 2 ^ w" and "0 \<le> b" "b < 2 ^ w"
  shows "overflowing_op_u TYPE('a) a b op =
    Some (exact_op op a b mod 2 ^ w, \<not> (0 \<le> exact_op op a b \<and> exact_op op a b < 2 ^ w))"
proof -
  have u: "to_unsigned i = Some (word_of_int i :: 'a word)" "uint (word_of_int i :: 'a word) = i"
    if "0 \<le> i" "i < 2 ^ w" for i
    using that assms(1) by (simp_all add: to_unsigned_def uint_word_of_int)
  show ?thesis
    using assms(2-) u(1)[of a] u(1)[of b] u(2)[of a] u(2)[of b]
    by (cases op)
      (auto simp: overflowing_op_u_def unsigned_overflowing_def exact_op_def uint_word_ariths
        word_less_def assms(1) [symmetric] take_bit_eq_mod not_less)
qed

lemma sint_wraps:
  "sint (word_of_int i :: 'a::len word) =
    - (2 ^ (LENGTH('a) - 1)) + (i + 2 ^ (LENGTH('a) - 1)) mod 2 ^ LENGTH('a)"
  by (simp add: sint_sbintrunc' signed_take_bit_eq_take_bit_shift take_bit_eq_mod
      flip: One_nat_def)

lemma overflowing_op_i_wraps:
  assumes "w = LENGTH('a::len)" and "lo = - (2 ^ (w - 1))"
    and "lo \<le> a" "a < lo + 2 ^ w" and "lo \<le> b" "b < lo + 2 ^ w"
  shows "overflowing_op_i TYPE('a) a b op =
    Some (lo + (exact_op op a b - lo) mod 2 ^ w,
      \<not> (lo \<le> exact_op op a b \<and> exact_op op a b < lo + 2 ^ w))"
proof -
  have two: "lo + 2 ^ w = 2 ^ (w - 1)"
    using assms(1,2) by (simp add: power_eq_if [of 2 "LENGTH('a)"])
  have s: "to_signed i = Some (word_of_int i :: 'a word)"
    if "lo \<le> i" "i < lo + 2 ^ w" for i
    using that assms(1,2) unfolding two by (simp add: to_signed_def)
  have v: "sint (word_of_int i :: 'a word) = i" if "lo \<le> i" "i < lo + 2 ^ w" for i
    using that assms(1,2) unfolding two by (simp add: sint_word_of_int_small)
  have wrap: "sint (word_of_int i :: 'a word) = lo + (i - lo) mod 2 ^ w" for i
    using assms(1,2) by (simp add: sint_wraps)
  have fits: "(lo + (i - lo) mod 2 ^ w = i) = (lo \<le> i \<and> i < lo + 2 ^ w)" for i :: int
  proof
    assume eq: "lo + (i - lo) mod 2 ^ w = i"
    have "0 \<le> (i - lo) mod 2 ^ w" "(i - lo) mod 2 ^ w < 2 ^ w" by simp_all
    with eq show "lo \<le> i \<and> i < lo + 2 ^ w" by linarith
  next
    assume "lo \<le> i \<and> i < lo + 2 ^ w"
    then have "(i - lo) mod 2 ^ w = i - lo" by (intro mod_pos_pos_trivial) auto
    then show "lo + (i - lo) mod 2 ^ w = i" by simp
  qed
  have sum: "(word_of_int a :: 'a word) + word_of_int b = word_of_int (a + b)"
    "(word_of_int a :: 'a word) - word_of_int b = word_of_int (a - b)" by simp_all
  have "signed_overflowing op (word_of_int a :: 'a word) (word_of_int b) =
    (word_of_int (exact_op op a b),
      sint (word_of_int (exact_op op a b) :: 'a word) \<noteq> exact_op op a b)"
    by (cases op) (simp_all only: signed_overflowing_def exact_op_def sum v [OF assms(3,4)]
        v [OF assms(5,6)] int_operator.case)
  then show ?thesis
    using fits [of "exact_op op a b"]
    by (simp add: overflowing_op_i_def s [OF assms(3,4)] s [OF assms(5,6)] wrap)
qed

lemma apply_overflowing_wraps:
  assumes t: "int_type_at R t ty lo w"
    and "lo \<le> a" "a < lo + 2 ^ w" and "lo \<le> b" "b < lo + 2 ^ w"
  shows "apply_overflowing_op_for_type R t a b op =
    Some (lo + (exact_op op a b - lo) mod 2 ^ w,
      \<not> (lo \<le> exact_op op a b \<and> exact_op op a b < lo + 2 ^ w))"
proof -
  from t have ty: "get_type R t = Some ty" and b: "int_bounds ty = Some (lo, w)"
    by (simp_all add: int_type_at_def)
  from b assms(2-) ty show ?thesis
    by (cases rule: int_bounds_cases)
      (simp_all add: apply_overflowing_op_for_type_def overflowing_op_u_wraps
        overflowing_op_i_wraps del: power_numeral)
qed

section \<open>What the evaluators compute\<close>

text \<open>
  Addition and subtraction at each of the ten machine integer types: when the exact
  result fits the type, branch 0 returns it; when it does not, branch 1 returns the result
  moved by \<open>2 ^ w\<close> back into the range. There is no third outcome and no panic.
\<close>

theorem eval_operation_exact:
  fixes op :: int_operator and a b :: int
  assumes "param_ty sg 1 = Some t" and "int_type_at R t ty lo w"
    and "encode_at ty a = Some va" and "encode_at ty b = Some vb"
  defines "e \<equiv> exact_op op a b"
  shows "\<exists>v. eval_operation R sg op [Unit, va, vb] =
      Some (NormalBranch (if lo \<le> e \<and> e < lo + 2 ^ w then 0 else 1) [Unit, v]) \<and>
    encode_at ty (if e < lo then e + 2 ^ w else if lo + 2 ^ w \<le> e then e - 2 ^ w else e) = Some v"
proof -
  from assms(2) have b: "int_bounds ty = Some (lo, w)" by (simp add: int_type_at_def)
  note ab = encode_at_args [OF b assms(3,4)]
  have lo: "lo = 0 \<or> lo = - (2 ^ (w - 1))" "0 < w"
    using machine_int.lo_cases [OF encode_at_machine_int [OF b]]
      machine_int.width_pos [OF encode_at_machine_int [OF b]] by simp_all
  then have half: "2 * (2 :: int) ^ (w - 1) = 2 ^ w" by (cases w) simp_all
  have "lo - 2 ^ w \<le> e" "e < lo + 2 * 2 ^ w"
    using ab(2-5) lo half unfolding e_def exact_op_def by (cases op; auto)+
  note wrap = encode_at_wrap [OF b this]
  obtain v where v: "encode_at ty (lo + (e - lo) mod 2 ^ w) = Some v"
    using encode_at_mod [OF b] by blast
  have "eval_operation R sg op [Unit, va, vb] =
      Some (NormalBranch (if lo \<le> e \<and> e < lo + 2 ^ w then 0 else 1) [Unit, v])"
    using assms(1) ab(1) apply_overflowing_wraps [OF assms(2) ab(2-5), of op] v
      get_value_at [OF assms(2)]
    by (simp add: eval_operation_def e_def)
  with v wrap show ?thesis by auto
qed

lemma eval_operation_exact_witness:
  "\<exists>v. eval_operation sample_registry (sg_of [11, 1, 1] []) OverflowingAdd [Unit, U8 200, U8 100] =
      Some (NormalBranch 1 [Unit, v]) \<and> encode_at Uint8T 44 = Some v"
  using eval_operation_exact [where sg = "sg_of [11, 1, 1] []" and t = 1 and
      R = sample_registry and ty = Uint8T and lo = 0 and w = 8 and a = 200 and b = 100 and
      va = "U8 200" and vb = "U8 100" and op = OverflowingAdd]
  by (simp add: sample_int_types int_bounds_def encode_at_def to_unsigned_def to_signed_def exact_op_def)

text \<open>
  The difference of two integers of a signed or an unsigned type, as a value of the
  unsigned type of that width: branch 0 returns \<open>a - b\<close> when \<open>b\<close> is not greater, branch 1
  returns \<open>2 ^ w + (a - b)\<close> when it is, so that the result is always \<open>a - b\<close> modulo \<open>2 ^ w\<close>.
\<close>

theorem eval_diff_mod:
  assumes "branch_ty sg 0 1 = Some t" and "int_type_at R t uty 0 w"
    and "int_bounds ty = Some (lo, w)"
    and "encode_at ty a = Some va" and "encode_at ty b = Some vb"
  shows "\<exists>v. eval_diff R sg [Unit, va, vb] = Some (NormalBranch (if b \<le> a then 0 else 1) [Unit, v]) \<and>
    encode_at uty ((a - b) mod 2 ^ w) = Some v"
proof -
  from assms(2) have b: "int_bounds uty = Some (0, w)" by (simp add: int_type_at_def)
  note ab = encode_at_args [OF assms(3-5)]
  obtain v where v: "encode_at uty ((a - b) mod 2 ^ w) = Some v"
    using encode_at_mod [OF b, of "a - b"] by auto
  have "(a - b) mod 2 ^ w = (if b \<le> a then a - b else 2 ^ w + (a - b))"
  proof (cases "b \<le> a")
    case True
    then show ?thesis using ab(2-5) by (intro trans [OF mod_pos_pos_trivial]) auto
  next
    case False
    then have "(a - b + 2 ^ w) mod 2 ^ w = a - b + 2 ^ w"
      using ab(2-5) by (intro mod_pos_pos_trivial) auto
    with False show ?thesis by simp
  qed
  with v show ?thesis
    using assms(1) ab(1) get_value_at [OF assms(2)] integer_range_at [OF assms(2)]
    by (auto simp: eval_diff_def)
qed

lemma eval_diff_mod_witness:
  "\<exists>v. eval_diff sample_registry (sg_of [] [[11, 1]]) [Unit, I8 (- 14), I8 (- 2)] =
      Some (NormalBranch 1 [Unit, v]) \<and> encode_at Uint8T 244 = Some v"
  using eval_diff_mod [where sg = "sg_of [] [[11, 1]]" and t = 1 and R = sample_registry and
      uty = Uint8T and ty = Sint8T and lo = "- 128" and w = 8 and a = "- 14" and b = "- 2" and
      va = "I8 (- 14)" and vb = "I8 (- 2)"]
  by (simp add: sample_int_types int_bounds_def encode_at_def to_unsigned_def to_signed_def exact_op_def)

text \<open>
  Division of unsigned integers by a non-zero divisor returns the quotient and the
  remainder of Euclidean division, and a zero divisor panics.
\<close>

theorem eval_divmod_euclid:
  assumes "branch_ty sg 0 1 = Some t" and "int_type_at R t ty 0 w"
    and "encode_at ty a = Some va" and "encode_at ty b = Some vb"
  shows "if b = 0 then eval_divmod R sg [Unit, va, vb] = None
    else \<exists>vq vr. eval_divmod R sg [Unit, va, vb] = Some (NormalBranch 0 [Unit, vq, vr]) \<and>
      encode_at ty (a div b) = Some vq \<and> encode_at ty (a mod b) = Some vr"
proof -
  from assms(2) have bd: "int_bounds ty = Some (0, w)" by (simp add: int_type_at_def)
  note ab = encode_at_args [OF bd assms(3,4)]
  show ?thesis
  proof (cases "b = 0")
    case True
    with assms(1) ab(1) show ?thesis by (simp add: eval_divmod_def big_div_def)
  next
    case False
    with ab have pos: "0 < b" "0 \<le> a" by simp_all
    then have "a div b \<le> a" "a mod b < b" by (simp_all add: zdiv_mono2 [of a 1 b, simplified])
    with ab pos obtain vq vr where q: "encode_at ty (a div b) = Some vq"
      and r: "encode_at ty (a mod b) = Some vr"
      using encode_at_total [OF bd, of "a div b"] encode_at_total [OF bd, of "a mod b"]
      by (metis add_0 order.strict_trans order.strict_trans1 pos_imp_zdiv_nonneg_iff
          pos_mod_sign)
    with False pos show ?thesis
      using assms(1) ab(1) get_value_at [OF assms(2)]
      by (simp add: eval_divmod_def big_div_def big_rem_def tdiv_nonneg tmod_nonneg)
  qed
qed

lemma eval_divmod_euclid_witness:
  "\<exists>vq vr. eval_divmod sample_registry (sg_of [] [[11, 1, 1]]) [Unit, U8 200, U8 7] =
      Some (NormalBranch 0 [Unit, vq, vr]) \<and>
    encode_at Uint8T 28 = Some vq \<and> encode_at Uint8T 4 = Some vr"
  using eval_divmod_euclid [where sg = "sg_of [] [[11, 1, 1]]" and t = 1 and
      R = sample_registry and ty = Uint8T and w = 8 and a = 200 and b = 7 and
      va = "U8 200" and vb = "U8 7"]
  by (simp add: sample_int_types int_bounds_def encode_at_def to_unsigned_def to_signed_def exact_op_def)

text \<open>
  Conversion from a field element to a machine integer type reads the element as the
  integer nearest zero that it stands for, and succeeds exactly when that integer is in the
  range of the type.
\<close>

theorem eval_from_felt_exact:
  assumes "branch_ty sg 0 1 = Some t" and "int_type_at R t ty lo w"
  shows "if lo \<le> felt_signed f \<and> felt_signed f < lo + 2 ^ w
    then \<exists>v. eval_from_felt R sg [Unit, Felt f] = Some (NormalBranch 0 [Unit, v]) \<and>
      encode_at ty (felt_signed f) = Some v
    else eval_from_felt R sg [Unit, Felt f] = Some (NormalBranch 1 [Unit])"
proof -
  from assms(2) have bd: "int_bounds ty = Some (lo, w)" by (simp add: int_type_at_def)
  show ?thesis
    using assms(1) get_value_at [OF assms(2)] integer_range_at [OF assms(2)]
      encode_at_total [OF bd, of "felt_signed f"]
    by (auto simp: eval_from_felt_def)
qed

lemma eval_from_felt_exact_witness:
  "eval_from_felt sample_registry (sg_of [] [[11, 6]]) [Unit, Felt (felt_of_int 200)] =
    Some (NormalBranch 1 [Unit])"
  using eval_from_felt_exact [where sg = "sg_of [] [[11, 6]]" and t = 6 and
      R = sample_registry and ty = Sint8T and lo = "- 128" and w = 8 and f = "felt_of_int 200"]
  by (simp add: sample_int_types felt_signed_def PRIME_def)

lemma int_bounds_felt:
  assumes "int_bounds ty = Some (lo, w)" and "lo \<le> i" "i < lo + 2 ^ w"
  shows "felt_signed (felt_of_int i) = i"
proof (rule felt_signed_of_int)
  have "- (2 ^ 127) \<le> lo \<and> lo + 2 ^ w \<le> 2 ^ 128"
    using assms(1) by (cases rule: int_bounds_cases) simp_all
  moreover have "2 ^ 128 < PRIME div 2" "(2 :: int) ^ 127 < 2 ^ 128" by (simp_all add: PRIME_def)
  ultimately have "- (PRIME div 2) \<le> i" "i \<le> PRIME div 2"
    using assms(2,3) by linarith+
  then show "- (PRIME div 2) \<le> i" "i \<le> PRIME div 2" by simp_all
qed

text \<open>
  A machine integer converted to a field element and back is the same value, for all ten
  types: negative numbers go through the upper half of the field.
\<close>

theorem to_felt_from_felt:
  assumes "branch_ty sg 0 1 = Some t" and "int_type_at R t ty lo w"
    and "encode_at ty a = Some v"
  shows "\<exists>f. eval_to_felt [v] = Some (NormalBranch 0 [Felt f]) \<and>
    eval_from_felt R sg [Unit, Felt f] = Some (NormalBranch 0 [Unit, v])"
proof -
  from assms(2) have bd: "int_bounds ty = Some (lo, w)" by (simp add: int_type_at_def)
  note a = encode_at_reads [OF bd assms(3)] encode_at_range [OF bd assms(3)]
  have "felt_signed (felt_of_int a) = a"
    using a(2) by (intro int_bounds_felt [OF bd]) simp_all
  then show ?thesis
    using a assms(1,3) get_value_at [OF assms(2)] integer_range_at [OF assms(2)]
    by (simp add: eval_to_felt_def eval_from_felt_def)
qed

lemma to_felt_from_felt_witness:
  "\<exists>f. eval_to_felt [I8 (- 3)] = Some (NormalBranch 0 [Felt f]) \<and>
    eval_from_felt sample_registry (sg_of [] [[11, 6]]) [Unit, Felt f] =
      Some (NormalBranch 0 [Unit, I8 (- 3)])"
  using to_felt_from_felt [where sg = "sg_of [] [[11, 6]]" and t = 6 and
      R = sample_registry and ty = Sint8T and lo = "- 128" and w = 8 and a = "- 3" and
      v = "I8 (- 3)"]
  by (simp add: sample_int_types int_bounds_def encode_at_def to_unsigned_def to_signed_def exact_op_def)

text \<open>
  The conversion of a field element to \<open>u128\<close> returns it when it is below \<open>2 ^ 128\<close> and
  otherwise its two halves, high half first, whose recombination is the element. It never
  panics.
\<close>

theorem eval_u128_from_felt_split:
  "if felt_int f < 2 ^ 128
   then \<exists>x. eval_u128_from_felt [Unit, Felt f] = Some (NormalBranch 0 [Unit, U128 x]) \<and>
     uint x = felt_int f
   else \<exists>hi lo. eval_u128_from_felt [Unit, Felt f] =
       Some (NormalBranch 1 [Unit, U128 hi, U128 lo]) \<and>
     uint hi * 2 ^ 128 + uint lo = felt_int f"
proof -
  define B where "B = felt_of_int (2 ^ 128 - 1) + 1"
  have B: "felt_int B = 2 ^ 128"
    by (simp add: B_def PRIME_def)
  have f: "0 \<le> felt_int f" "felt_int f < PRIME" by simp_all
  then have hi: "0 \<le> felt_int f div 2 ^ 128" "felt_int f div 2 ^ 128 < 2 ^ 128"
    by (auto simp: PRIME_def pos_imp_zdiv_nonneg_iff)
  show ?thesis
    unfolding eval_u128_from_felt_def B_def [symmetric]
    using hi by (simp add: less_felt_def B to_unsigned_def uint_word_of_int)
qed

text \<open>
  The guaranteed multiplication of two \<open>u128\<close> values returns the two halves of the exact
  256-bit product.
\<close>

theorem eval_guarantee_mul_exact:
  "\<exists>hi lo. eval_guarantee_mul [U128 a, U128 b] = Some (NormalBranch 0 [U128 hi, U128 lo, Unit]) \<and>
    uint hi * 2 ^ 128 + uint lo = uint a * uint b"
proof -
  have "uint a < 2 ^ 128" "uint b < 2 ^ 128" using unsigned_less [of a] unsigned_less [of b] by simp_all
  then have "uint a * uint b < 2 ^ 128 * 2 ^ 128"
    by (intro mult_strict_mono) simp_all
  then have hi: "uint a * uint b div 2 ^ 128 < 2 ^ 128" "0 \<le> uint a * uint b div 2 ^ 128"
    by (auto simp: div_less_iff_less_mult pos_imp_zdiv_nonneg_iff)
  have lo: "i AND 340282366920938463463374607431768211455 =
      i mod 340282366920938463463374607431768211456" for i :: int
    using take_bit_eq_mask [of 128 i]
    by (simp add: mask_eq_exp_minus_1 take_bit_eq_mod)
  show ?thesis
    using hi by (simp add: eval_guarantee_mul_def lo drop_bit_eq_div to_unsigned_def
        uint_word_of_int Let_def)
qed

section \<open>Square roots, wide products, bitwise operations, byte reversal\<close>

text \<open>
  The square root of an unsigned integer is the greatest integer whose square is not
  above it, and always fits the half-width type of the result.
\<close>

theorem eval_square_root_floor:
  assumes "sqrt_ok E" and "branch_ty sg 0 1 = Some t" and "int_type_at R t hty 0 h"
    and "int_bounds ty = Some (0, 2 * h)" and "encode_at ty a = Some va"
  shows "\<exists>r v. eval_square_root E R sg [Unit, va] = Some (NormalBranch 0 [Unit, v]) \<and>
    encode_at hty r = Some v \<and> 0 \<le> r \<and> r * r \<le> a \<and> a < (r + 1) * (r + 1)"
proof -
  from assms(3) have bd: "int_bounds hty = Some (0, h)" by (simp add: int_type_at_def)
  note a = encode_at_reads [OF assms(4,5)] encode_at_range [OF assms(4,5)]
  define r where "r = int (isqrt (nat a))"
  have "int (isqrt (nat a) * isqrt (nat a)) \<le> a"
    "a < int ((isqrt (nat a) + 1) * (isqrt (nat a) + 1))"
    using isqrt_bounds [of "nat a"] a(2) by linarith+
  then have r: "0 \<le> r" "r * r \<le> a" "a < (r + 1) * (r + 1)"
    by (simp_all add: r_def algebra_simps)
  have "r < 2 ^ h"
  proof (rule ccontr)
    assume "\<not> r < 2 ^ h"
    then have "2 ^ h * 2 ^ h \<le> r * r" by (intro mult_mono) (use r in simp_all)
    with r a show False by (simp add: mult_2 power_add)
  qed
  then obtain v where v: "encode_at hty r = Some v"
    using encode_at_total [OF bd, of r] r by auto
  have "ex_sqrt E a = Some r"
    using assms(1) a r unfolding sqrt_ok_def by simp
  with v r a assms(2) get_value_at [OF assms(3)] show ?thesis
    by (intro exI [of _ r] exI [of _ v]) (simp add: eval_square_root_def)
qed

lemma eval_square_root_floor_witness:
  "\<exists>r v. eval_square_root ref_externs sample_registry (sg_of [] [[11, 1]]) [Unit, U16 1000] =
      Some (NormalBranch 0 [Unit, v]) \<and>
    encode_at Uint8T r = Some v \<and> 0 \<le> r \<and> r * r \<le> 1000 \<and> 1000 < (r + 1) * (r + 1)"
  using eval_square_root_floor [where E = ref_externs and sg = "sg_of [] [[11, 1]]" and t = 1 and
      R = sample_registry and hty = Uint8T and h = 8 and ty = Uint16T and a = 1000 and
      va = "U16 1000"]
  by (simp add: ref_sqrt_ok sample_int_types int_bounds_def encode_at_def to_unsigned_def)

text \<open>
  The wide product of two integers of the same type, signed or unsigned, is exact in the
  type of twice the width: it never wraps and never panics.
\<close>

theorem eval_widemul_exact:
  assumes "branch_ty sg 0 0 = Some t" and "int_type_at R t wty wlo (2 * w)"
    and "int_bounds ty = Some (lo, w)" and "wlo = 0 \<longleftrightarrow> lo = 0"
    and "encode_at ty a = Some va" and "encode_at ty b = Some vb"
  shows "\<exists>v. eval_widemul R sg [va, vb] = Some (NormalBranch 0 [v]) \<and>
    encode_at wty (a * b) = Some v"
proof -
  from assms(2) have bd: "int_bounds wty = Some (wlo, 2 * w)" by (simp add: int_type_at_def)
  note ab = encode_at_args [OF assms(3,5,6)]
  have half: "2 * (2 :: int) ^ (w - 1) = 2 ^ w" "2 * (2 :: int) ^ (2 * w - 1) = 2 ^ w * 2 ^ w"
    using machine_int.width_pos [OF encode_at_machine_int [OF assms(3)]]
    by (simp_all flip: power_add power_Suc add: mult_2)
  have "wlo \<le> a * b \<and> a * b < wlo + 2 ^ (2 * w)"
  proof (cases "lo = 0")
    case True
    with ab assms(4) have "a * b < 2 ^ w * 2 ^ w" by (intro mult_strict_mono) auto
    with True ab assms(4) show ?thesis by (simp add: mult_2 power_add)
  next
    case False
    define m where "m = (2 :: int) ^ (w - 1)"
    have "2 ^ w = 2 * m" "0 < m" by (simp_all only: m_def half) simp
    moreover from this half(2) have "2 * (2 :: int) ^ (2 * w - 1) = 2 * (2 * (m * m))"
      by (simp only: mult.assoc mult.left_commute)
    ultimately have m: "2 ^ w = 2 * m" "(2 :: int) ^ (2 * w - 1) = 2 * (m * m)" "0 < m"
      by simp_all
    from False have lo: "lo = - m"
      using machine_int.lo_cases [OF encode_at_machine_int [OF assms(3)]] by (simp add: m_def)
    from False have wlo: "wlo = - (2 * (m * m))"
      using machine_int.lo_cases [OF encode_at_machine_int [OF bd]] assms(4) m by auto
    have "\<bar>a\<bar> \<le> m" "\<bar>b\<bar> \<le> m" using ab m lo by auto
    then have "\<bar>a * b\<bar> \<le> m * m"
      unfolding abs_mult using m by (intro mult_mono) auto
    then have "a * b \<le> m * m" "- (m * m) \<le> a * b" by (simp_all add: abs_le_iff)
    moreover have "0 < m * m" using m by simp
    moreover have "wlo + 2 ^ (2 * w) = 2 * (m * m)"
      unfolding wlo mult_2 [of w] power_add m(1) by simp
    ultimately show ?thesis unfolding wlo by linarith
  qed
  then obtain v where "encode_at wty (a * b) = Some v" using encode_at_total [OF bd] by blast
  with ab(1) assms(1) get_value_at [OF assms(2)] show ?thesis
    by (auto simp: eval_widemul_def)
qed

lemma eval_widemul_exact_witness:
  "\<exists>v. eval_widemul sample_registry (sg_of [] [[2]]) [U8 200, U8 100] = Some (NormalBranch 0 [v]) \<and>
    encode_at Uint16T 20000 = Some v"
  using eval_widemul_exact [where sg = "sg_of [] [[2]]" and t = 2 and
      R = sample_registry and wty = Uint16T and wlo = 0 and ty = Uint8T and lo = 0 and w = 8 and
      a = 200 and b = 100 and va = "U8 200" and vb = "U8 100"]
  by (simp add: sample_int_types int_bounds_def encode_at_def to_unsigned_def to_signed_def exact_op_def)

lemma bit_fold_or:
  "bit (fold (\<lambda>i acc. acc OR f i) xs z) n \<longleftrightarrow> bit z n \<or> (\<exists>i \<in> set xs. bit (f i) n)"
  for z :: "'a::len word"
  by (induction xs arbitrary: z) (auto simp: bit_or_iff)

lemma bit_swap_bytes:
  "bit (swap_bytes x) n \<longleftrightarrow> n < 128 \<and> bit x (8 * (15 - n div 8) + n mod 8)"
proof -
  have byte: "bit (push_bit (8 * (15 - i)) (take_bit 8 (drop_bit (8 * i) x))) n \<longleftrightarrow>
      8 * (15 - i) \<le> n \<and> n < 128 \<and> n - 8 * (15 - i) < 8 \<and> bit x (8 * i + (n - 8 * (15 - i)))"
    for i
    by (simp add: bit_push_bit_iff bit_take_bit_iff bit_drop_bit_eq)
  have "bit (swap_bytes x) n \<longleftrightarrow> (\<exists>i < 16. 8 * (15 - i) \<le> n \<and> n < 128 \<and> n - 8 * (15 - i) < 8 \<and>
      bit x (8 * i + (n - 8 * (15 - i))))"
    unfolding swap_bytes_def bit_fold_or set_upt byte by (simp only: bit_0_eq) auto
  also have "\<dots> \<longleftrightarrow> n < 128 \<and> bit x (8 * (15 - n div 8) + n mod 8)"
  proof
    assume "\<exists>i < 16. 8 * (15 - i) \<le> n \<and> n < 128 \<and> n - 8 * (15 - i) < 8 \<and>
      bit x (8 * i + (n - 8 * (15 - i)))"
    then obtain i where i: "i < 16" "8 * (15 - i) \<le> n" "n < 128" "n - 8 * (15 - i) < 8"
      and b: "bit x (8 * i + (n - 8 * (15 - i)))" by blast
    define m where "m = n - 8 * (15 - i)"
    have n: "n = 8 * (15 - i) + m" "m < 8" using i by (simp_all add: m_def)
    then have "n div 8 = 15 - i" "n mod 8 = m" by simp_all
    moreover have "15 - (15 - i) = i" using i by simp
    ultimately show "n < 128 \<and> bit x (8 * (15 - n div 8) + n mod 8)"
      using b i(3) by (simp only: m_def [symmetric])
  next
    assume n: "n < 128 \<and> bit x (8 * (15 - n div 8) + n mod 8)"
    then have d: "n div 8 \<le> 15" using div_le_mono [of n 127 8] by simp
    then have "8 * (15 - (15 - n div 8)) = 8 * (n div 8)" by simp
    with n d show "\<exists>i < 16. 8 * (15 - i) \<le> n \<and> n < 128 \<and> n - 8 * (15 - i) < 8 \<and>
      bit x (8 * i + (n - 8 * (15 - i)))"
      by (intro exI [of _ "15 - n div 8"])
        (simp add: minus_mult_div_eq_mod)
  qed
  finally show ?thesis .
qed

text \<open>
  Byte reversal of a \<open>u128\<close> moves the bit at position \<open>m\<close> of byte \<open>15 - k\<close> to position
  \<open>m\<close> of byte \<open>k\<close>, and applied to its own result it gives the value back.
\<close>

theorem eval_byte_reverse_involution:
  "\<exists>y. eval_byte_reverse [Unit, U128 x] = Some (NormalBranch 0 [Unit, U128 y]) \<and>
    (\<forall>k m. bit y (8 * k + m) = (k < 16 \<and> bit x (8 * (15 - k) + m)) \<or> 8 \<le> m) \<and>
    eval_byte_reverse [Unit, U128 y] = Some (NormalBranch 0 [Unit, U128 x])"
proof -
  have "bit (swap_bytes x) (8 * k + m) = (k < 16 \<and> bit x (8 * (15 - k) + m)) \<or> 8 \<le> m" for k m
  proof (cases "m < 8")
    case True
    then have "8 * k + m < 128 \<longleftrightarrow> k < 16" by presburger
    with True show ?thesis by (simp add: bit_swap_bytes)
  qed simp
  moreover have "swap_bytes (swap_bytes x) = x"
  proof (rule bit_word_eqI)
    fix n
    assume "n < LENGTH(128)"
    then have n: "n < 128" by simp
    define j where "j = 8 * (15 - n div 8) + n mod 8"
    have "n div 8 \<le> 15" using n by simp
    then have "j div 8 = 15 - n div 8" "j mod 8 = n mod 8" "j < 128"
      by (simp_all add: j_def)
    with n \<open>n div 8 \<le> 15\<close> show "bit (swap_bytes (swap_bytes x)) n = bit x n"
      unfolding bit_swap_bytes j_def [symmetric] by simp
  qed
  ultimately show ?thesis
    by (intro exI [of _ "swap_bytes x"]) (simp add: eval_byte_reverse_def)
qed

end
