(* ===== verification/GasOps.thy ===== *)
theory GasOps
  imports Sample Externs
begin

text \<open>
  \<open>debug_utils/sierra-emu/src/gas.rs\<close> (the gas metadata, the prices of the cost tokens) and
  the gas libfuncs of \<open>vm/gas.rs\<close>, \<open>vm/gas_reserve.rs\<close> and \<open>vm/coupon.rs\<close>. The metadata
  itself is computed by another crate: \<open>gas_metadata\<close> holds the two maps the code reads.
\<close>

section \<open>Gas metadata\<close>

record gas_metadata =
  variable_values :: "statement_idx \<times> cost_token \<Rightarrow> int option"
  function_costs :: "(function_id \<times> (cost_token \<times> int) list) list"

datatype gas_metadata_error =
    ApChangeError | CostError
  | NotEnoughGas u64 u64 \<comment> \<open>required, available\<close>

definition builtin_costs_default :: "externs \<Rightarrow> builtin_costs" where
  "builtin_costs_default E =
    \<lparr>bc_const = of_nat (ex_token_gas_cost E ConstTok),
     bc_pedersen = of_nat (ex_token_gas_cost E PedersenTok),
     bc_bitwise = of_nat (ex_token_gas_cost E BitwiseTok),
     bc_ecop = of_nat (ex_token_gas_cost E EcOpTok),
     bc_poseidon = of_nat (ex_token_gas_cost E PoseidonTok),
     bc_add_mod = of_nat (ex_token_gas_cost E AddModTok),
     bc_mul_mod = of_nat (ex_token_gas_cost E MulModTok),
     bc_blake = of_nat (ex_token_gas_cost E BlakeTok)\<rparr>"

definition builtin_costs_array :: "builtin_costs \<Rightarrow> u64 list" where
  "builtin_costs_array c =
    [bc_const c, bc_pedersen c, bc_bitwise c, bc_ecop c, bc_poseidon c, bc_add_mod c,
     bc_mul_mod c, bc_blake c]"

text \<open>
  The sum runs in \<open>usize\<close>, 64 bits wide; a negative count panics in \<open>into_or_panic\<close> and an
  overflow panics too.
\<close>

definition usize_checked :: "int \<Rightarrow> int option" where
  "usize_checked i = (if 0 \<le> i \<and> i < 2 ^ 64 then Some i else None)"

fun required_sum :: "externs \<Rightarrow> (cost_token \<times> int) list \<Rightarrow> int \<Rightarrow> int option" where
  "required_sum E [] acc = Some acc"
| "required_sum E ((tok, c) # cs) acc =
    do {
      c \<leftarrow> usize_checked c;
      p \<leftarrow> usize_checked (c * int (ex_token_gas_cost E tok));
      acc \<leftarrow> usize_checked (acc + p);
      required_sum E cs acc }"

definition initial_required_gas ::
  "externs \<Rightarrow> gas_metadata \<Rightarrow> function_id \<Rightarrow> u64 option option" where
  "initial_required_gas E G func =
    (if function_costs G = [] then Some None
     else do {
       costs \<leftarrow> map_of (function_costs G) func;
       s \<leftarrow> required_sum E costs 0;
       Some (Some (word_of_int s)) })"

definition get_initial_available_gas ::
  "externs \<Rightarrow> gas_metadata \<Rightarrow> function_id \<Rightarrow> u64 option \<Rightarrow> (gas_metadata_error + u64) option" where
  "get_initial_available_gas E G func available =
    (case available of
      None \<Rightarrow> Some (Inr 0)
    | Some available_gas \<Rightarrow>
        do {
          r \<leftarrow> initial_required_gas E G func;
          (case r of
            None \<Rightarrow> Some (Inr 0)
          | Some required_gas \<Rightarrow>
              Some (case checked_sub available_gas required_gas of
                Some g \<Rightarrow> Inr g
              | None \<Rightarrow> Inl (NotEnoughGas required_gas available_gas))) })"

text \<open>
  A cost that does not fit \<open>u64\<close> panics in \<open>expect\<close>; the outer option is the panic, the
  inner one the missing cost.
\<close>

definition get_gas_cost_for_statement_and_cost_token_type ::
  "gas_metadata \<Rightarrow> statement_idx \<Rightarrow> cost_token \<Rightarrow> u64 option option" where
  "get_gas_cost_for_statement_and_cost_token_type G idx tok =
    (case variable_values G (idx, tok) of
      None \<Rightarrow> Some None
    | Some x \<Rightarrow> map_option Some (to_unsigned x))"

fun push_costs ::
  "gas_metadata \<Rightarrow> statement_idx \<Rightarrow> cost_token list \<Rightarrow> (u64 \<times> cost_token) list option" where
  "push_costs G idx [] = Some []"
| "push_costs G idx (tok # toks) =
    do {
      r \<leftarrow> get_gas_cost_for_statement_and_cost_token_type G idx tok;
      costs \<leftarrow> push_costs G idx toks;
      Some (case r of
        Some c \<Rightarrow> if 0 < c then (c, tok) # costs else costs
      | None \<Rightarrow> costs) }"

definition get_gas_costs_for_statement ::
  "externs \<Rightarrow> gas_metadata \<Rightarrow> statement_idx \<Rightarrow> (u64 \<times> cost_token) list option" where
  "get_gas_costs_for_statement E G idx = push_costs G idx (ex_casm_tokens E)"

section \<open>Gas libfuncs\<close>

definition builtin_costs_index :: "cost_token \<Rightarrow> nat option" where
  "builtin_costs_index tok =
    (case tok of
      ConstTok \<Rightarrow> Some 0 | PedersenTok \<Rightarrow> Some 1 | BitwiseTok \<Rightarrow> Some 2 | EcOpTok \<Rightarrow> Some 3
    | PoseidonTok \<Rightarrow> Some 4 | AddModTok \<Rightarrow> Some 5 | MulModTok \<Rightarrow> Some 6 | BlakeTok \<Rightarrow> Some 7
    | OtherTok _ \<Rightarrow> None)"

text \<open>The loop that three of the evaluators share, on the running total.\<close>

fun total_gas_cost :: "u64 list \<Rightarrow> (u64 \<times> cost_token) list \<Rightarrow> u64 \<Rightarrow> u64 option" where
  "total_gas_cost prices [] tot = Some tot"
| "total_gas_cost prices ((count, tok) # cs) tot =
    (if count = 0 then total_gas_cost prices cs tot
     else do {
       i \<leftarrow> builtin_costs_index tok;
       p \<leftarrow> nth_opt prices i;
       cost_value \<leftarrow> checked_mul count p;
       tot \<leftarrow> checked_add tot cost_value;
       total_gas_cost prices cs tot })"

definition eval_builtin_withdraw_gas ::
  "externs \<Rightarrow> gas_metadata \<Rightarrow> statement_idx \<Rightarrow> val list \<Rightarrow> eval_action option" where
  "eval_builtin_withdraw_gas E G idx args =
    do {
      (range_check, g, c) \<leftarrow> args3 args;
      as_unit range_check;
      gas \<leftarrow> as_u64 g;
      costs \<leftarrow> as_builtin_costs c;
      gas_cost \<leftarrow> get_gas_costs_for_statement E G idx;
      tot \<leftarrow> total_gas_cost (builtin_costs_array costs) gas_cost 0;
      let new_gas = saturating_sub gas tot;
      Some (if tot \<le> gas
        then NormalBranch 0 [range_check, U64 new_gas]
        else NormalBranch 1 [range_check, U64 gas]) }"

definition eval_withdraw_gas ::
  "externs \<Rightarrow> gas_metadata \<Rightarrow> statement_idx \<Rightarrow> builtin_costs \<Rightarrow> val list \<Rightarrow> eval_action option" where
  "eval_withdraw_gas E G idx costs args =
    do {
      (range_check, g) \<leftarrow> args2 args;
      as_unit range_check;
      gas \<leftarrow> as_u64 g;
      gas_cost \<leftarrow> get_gas_costs_for_statement E G idx;
      tot \<leftarrow> total_gas_cost (builtin_costs_array costs) gas_cost 0;
      let new_gas = saturating_sub gas tot;
      Some (if tot \<le> gas
        then NormalBranch 0 [range_check, U64 new_gas]
        else NormalBranch 1 [range_check, U64 gas]) }"

definition eval_redeposit_gas ::
  "externs \<Rightarrow> gas_metadata \<Rightarrow> statement_idx \<Rightarrow> builtin_costs \<Rightarrow> val list \<Rightarrow> eval_action option" where
  "eval_redeposit_gas E G idx costs args =
    do {
      g \<leftarrow> args1 args;
      gas \<leftarrow> as_u64 g;
      gas_cost \<leftarrow> get_gas_costs_for_statement E G idx;
      tot \<leftarrow> total_gas_cost (builtin_costs_array costs) gas_cost 0;
      let new_gas = saturating_add gas tot;
      Some (NormalBranch 0 [U64 new_gas]) }"

definition eval_get_available_gas :: "val list \<Rightarrow> eval_action option" where
  "eval_get_available_gas args =
    do {
      gas_val \<leftarrow> args1 args;
      gas \<leftarrow> as_u64 gas_val;
      Some (NormalBranch 0 [gas_val, U128 (ucast gas)]) }"

definition eval_get_builtin_costs :: "builtin_costs \<Rightarrow> eval_action option" where
  "eval_get_builtin_costs costs = Some (NormalBranch 0 [BuiltinCosts costs])"

definition eval_gas ::
  "externs \<Rightarrow> gas_metadata \<Rightarrow> statement_idx \<Rightarrow> builtin_costs \<Rightarrow> gas_lib \<Rightarrow> val list \<Rightarrow>
    eval_action option" where
  "eval_gas E G idx costs selector args =
    (case selector of
      WithdrawGas \<Rightarrow> eval_withdraw_gas E G idx costs args
    | RedepositGas \<Rightarrow> eval_redeposit_gas E G idx costs args
    | GetAvailableGas \<Rightarrow> eval_get_available_gas args
    | BuiltinWithdrawGas \<Rightarrow> eval_builtin_withdraw_gas E G idx args
    | GetBuiltinCosts \<Rightarrow> eval_get_builtin_costs costs
    | GetUnspentGas \<Rightarrow> None)"

section \<open>Gas reserves and coupons\<close>

definition eval_gas_reserve_create :: "val list \<Rightarrow> eval_action option" where
  "eval_gas_reserve_create args =
    do {
      (range_check, g, a) \<leftarrow> args3 args;
      as_unit range_check;
      gas \<leftarrow> as_u64 g;
      amount \<leftarrow> as_u128 a;
      (if amount \<le> ucast gas
       then do {
         spare_gas \<leftarrow> checked_sub gas (ucast amount);
         Some (NormalBranch 0 [range_check, U64 spare_gas, U128 amount]) }
       else Some (NormalBranch 1 [range_check, U64 gas])) }"

definition eval_gas_reserve_utilize :: "val list \<Rightarrow> eval_action option" where
  "eval_gas_reserve_utilize args =
    do {
      (g, a) \<leftarrow> args2 args;
      gas \<leftarrow> as_u64 g;
      amount \<leftarrow> as_u128 a;
      updated_gas \<leftarrow> checked_add gas (ucast amount);
      Some (NormalBranch 0 [U64 updated_gas]) }"

definition eval_gas_reserve :: "gas_reserve_lib \<Rightarrow> val list \<Rightarrow> eval_action option" where
  "eval_gas_reserve selector args =
    (case selector of
      GasReserveCreate \<Rightarrow> eval_gas_reserve_create args
    | GasReserveUtilize \<Rightarrow> eval_gas_reserve_utilize args)"

definition eval_buy :: "val list \<Rightarrow> eval_action option" where
  "eval_buy args = Some (NormalBranch 0 [Unit])"

definition eval_refund :: "val list \<Rightarrow> eval_action option" where
  "eval_refund args = Some (NormalBranch 0 [])"

definition eval_coupon :: "coupon_lib \<Rightarrow> val list \<Rightarrow> eval_action option" where
  "eval_coupon selector args =
    (case selector of CouponBuy \<Rightarrow> eval_buy args | CouponRefund \<Rightarrow> eval_refund args)"

section \<open>The price of a statement\<close>

text \<open>
  Specification: the price of a list of costs, as an unbounded integer. A token that has no
  price, or a price list that is too short, has no price.
\<close>

definition token_price :: "builtin_costs \<Rightarrow> cost_token \<Rightarrow> int" where
  "token_price c tok =
    (case tok of
      ConstTok \<Rightarrow> uint (bc_const c) | PedersenTok \<Rightarrow> uint (bc_pedersen c)
    | BitwiseTok \<Rightarrow> uint (bc_bitwise c) | EcOpTok \<Rightarrow> uint (bc_ecop c)
    | PoseidonTok \<Rightarrow> uint (bc_poseidon c) | AddModTok \<Rightarrow> uint (bc_add_mod c)
    | MulModTok \<Rightarrow> uint (bc_mul_mod c) | BlakeTok \<Rightarrow> uint (bc_blake c)
    | OtherTok _ \<Rightarrow> 0)"

definition price :: "builtin_costs \<Rightarrow> (u64 \<times> cost_token) list \<Rightarrow> int" where
  "price c costs = (\<Sum>(count, tok) \<leftarrow> costs. uint count * token_price c tok)"

definition priced :: "(u64 \<times> cost_token) list \<Rightarrow> bool" where
  "priced costs \<longleftrightarrow> (\<forall>(count, tok) \<in> set costs. builtin_costs_index tok \<noteq> None)"

lemma price_simps [simp]:
  "price c [] = 0"
  "price c ((count, tok) # cs) = uint count * token_price c tok + price c cs"
  by (simp_all add: price_def)

lemma token_price_nonneg [simp]: "0 \<le> token_price c tok"
  by (cases tok) (simp_all add: token_price_def)

lemma price_nonneg: "0 \<le> price c costs"
  by (induction costs) auto

lemma builtin_price:
  assumes "builtin_costs_index tok = Some i"
  shows "\<exists>p. nth_opt (builtin_costs_array c) i = Some p \<and> uint p = token_price c tok"
  using assms by (cases tok) (auto simp: builtin_costs_index_def token_price_def builtin_costs_array_def)

text \<open>The loop computes the price, and panics exactly when it does not fit 64 bits.\<close>

lemma total_gas_cost_price:
  assumes "priced costs"
  shows "total_gas_cost (builtin_costs_array c) costs acc =
    (if uint acc + price c costs < 2 ^ 64 then Some (word_of_int (uint acc + price c costs)) else None)"
  using assms
proof (induction costs arbitrary: acc)
  case Nil
  have "uint acc < 2 ^ 64" using unsigned_less [of acc] by simp
  then show ?case by simp
next
  case (Cons x cs)
  obtain count tok where x: "x = (count, tok)" by (cases x)
  from Cons.prems x have cs: "priced cs" and i: "builtin_costs_index tok \<noteq> None"
    by (auto simp: priced_def)
  show ?case
  proof (cases "count = 0")
    case True
    with Cons.IH [OF cs] x show ?thesis by simp
  next
    case False
    from i obtain i where i: "builtin_costs_index tok = Some i" by blast
    from builtin_price [OF this, of c] obtain p
      where p: "nth_opt (builtin_costs_array c) i = Some p" "uint p = token_price c tok" by blast
    define m where "m = uint count * token_price c tok"
    have nn: "0 \<le> m" "0 \<le> price c cs" "0 \<le> uint acc"
      by (simp_all add: m_def price_nonneg)
    show ?thesis
    proof (cases "m < 2 ^ 64 \<and> uint acc + m < 2 ^ 64")
      case True
      then obtain q s where q: "checked_mul count p = Some q" and s: "checked_add acc q = Some s"
        and us: "uint s = uint acc + m"
        using p(2) by (auto simp: m_def checked_mul_def checked_add_def uint_word_ariths
            take_bit_eq_mod)
      have "total_gas_cost (builtin_costs_array c) (x # cs) acc =
          total_gas_cost (builtin_costs_array c) cs s"
        using x False i p q s by (simp del: nth_opt_Some)
      moreover have "uint s + price c cs = uint acc + price c (x # cs)"
        by (simp add: us x m_def)
      ultimately show ?thesis using Cons.IH [OF cs, of s] by (simp only:)
    next
      case False
      have none: "do { cost_value \<leftarrow> checked_mul count p; tot \<leftarrow> checked_add acc cost_value;
          total_gas_cost (builtin_costs_array c) cs tot } = None"
      proof (cases "checked_mul count p")
        case (Some q)
        then have "uint q = m" "m < 2 ^ 64" using p(2) by (auto simp: checked_mul_Some m_def)
        with False have "checked_add acc q = None" by (simp add: checked_add_def)
        with Some show ?thesis by simp
      qed simp
      have "\<not> uint acc + (m + price c cs) < 2 ^ 64" using False nn by linarith
      then show ?thesis
        using x \<open>count \<noteq> 0\<close> i p none by (simp add: m_def del: nth_opt_Some)
    qed
  qed
qed

section \<open>What the gas libfuncs compute\<close>

lemma price_word:
  assumes "price c costs < 2 ^ 64"
  shows "uint (word_of_int (price c costs) :: u64) = price c costs"
  using assms price_nonneg [of c costs] by (simp add: uint_word_of_int)

text \<open>
  C34: Withdrawing gas takes the exact price of the statement: when the gas covers the price,
  branch 0 returns what is left, and otherwise branch 1 returns the gas untouched. The
  decision is made on the unbounded price, so no wrap-around can let a withdrawal through.
\<close>

theorem eval_withdraw_gas_exact:
  assumes "get_gas_costs_for_statement E G idx = Some costs" and "priced costs"
  shows "eval_withdraw_gas E G idx c [Unit, U64 gas] =
    (if 2 ^ 64 \<le> price c costs then None
     else if price c costs \<le> uint gas
     then Some (NormalBranch 0 [Unit, U64 (gas - word_of_int (price c costs))])
     else Some (NormalBranch 1 [Unit, U64 gas]))"
  using assms price_word [of c costs]
  by (simp add: eval_withdraw_gas_def total_gas_cost_price saturating_sub_def word_le_def)

lemma eval_withdraw_gas_exact_witness:
  "eval_withdraw_gas ref_externs
      \<lparr>variable_values = (\<lambda>(i, t). if i = 7 \<and> t = ConstTok then Some 30 else None), function_costs = []\<rparr>
      7 (builtin_costs_default ref_externs) [Unit, U64 100] =
    Some (NormalBranch 0 [Unit, U64 70])"
  using eval_withdraw_gas_exact [where E = ref_externs and idx = 7 and
      G = "\<lparr>variable_values = (\<lambda>(i, t). if i = 7 \<and> t = ConstTok then Some 30 else None),
        function_costs = []\<rparr>" and costs = "[(30, ConstTok)]" and
      c = "builtin_costs_default ref_externs" and gas = 100]
  by (simp add: get_gas_costs_for_statement_def priced_def
      get_gas_cost_for_statement_and_cost_token_type_def to_unsigned_def
      builtin_costs_index_def token_price_def builtin_costs_default_def)

text \<open>
  Gas that was withdrawn at a statement and redeposited at the same price is back to the
  amount before the withdrawal.
\<close>

theorem redeposit_after_withdraw:
  assumes "get_gas_costs_for_statement E G idx = Some costs" and "priced costs"
    and "get_gas_costs_for_statement E G idx' = Some costs"
    and "eval_withdraw_gas E G idx c [Unit, U64 gas] = Some (NormalBranch 0 [Unit, U64 left])"
  shows "eval_redeposit_gas E G idx' c [U64 left] = Some (NormalBranch 0 [U64 gas])"
proof -
  have p: "price c costs < 2 ^ 64" and le: "price c costs \<le> uint gas"
    and left: "left = gas - word_of_int (price c costs)"
    using assms price_word [of c costs]
    by (auto simp: eval_withdraw_gas_def total_gas_cost_price saturating_sub_def word_le_def
        split: if_splits)
  have "word_of_int (price c costs) \<le> gas"
    using le price_word [OF p] by (simp add: word_le_def)
  then have "uint left = uint gas - price c costs"
    using price_word [OF p] by (simp add: left uint_minus_le)
  moreover have "uint gas < 2 ^ 64" using unsigned_less [of gas] by simp
  ultimately have "saturating_add left (word_of_int (price c costs)) = gas"
    using price_word [OF p] by (simp add: saturating_add_def left)
  with assms(2,3) p show ?thesis
    by (simp add: eval_redeposit_gas_def total_gas_cost_price)
qed

lemma redeposit_after_withdraw_witness:
  "eval_redeposit_gas ref_externs
      \<lparr>variable_values = (\<lambda>(i, t). if t = ConstTok then Some 30 else None), function_costs = []\<rparr>
      9 (builtin_costs_default ref_externs) [U64 70] = Some (NormalBranch 0 [U64 100])"
  using redeposit_after_withdraw [where E = ref_externs and idx = 7 and idx' = 9 and
      G = "\<lparr>variable_values = (\<lambda>(i, t). if t = ConstTok then Some 30 else None),
        function_costs = []\<rparr>" and costs = "[(30, ConstTok)]" and
      c = "builtin_costs_default ref_externs" and gas = 100 and left = 70]
  by (simp add: get_gas_costs_for_statement_def priced_def
      get_gas_cost_for_statement_and_cost_token_type_def to_unsigned_def eval_withdraw_gas_def
      builtin_costs_index_def token_price_def builtin_costs_default_def builtin_costs_array_def
      checked_mul_def checked_add_def saturating_sub_def)

text \<open>
  A gas reserve splits the gas: creating one moves exactly its amount out of the gas when
  there is that much and leaves the gas alone otherwise, and utilizing it gives all of it back.
\<close>

theorem gas_reserve_conserves:
  "if uint amount \<le> uint gas
   then \<exists>spare. eval_gas_reserve_create [Unit, U64 gas, U128 amount] =
       Some (NormalBranch 0 [Unit, U64 spare, U128 amount]) \<and>
     uint spare + uint amount = uint gas \<and>
     eval_gas_reserve_utilize [U64 spare, U128 amount] = Some (NormalBranch 0 [U64 gas])
   else eval_gas_reserve_create [Unit, U64 gas, U128 amount] = Some (NormalBranch 1 [Unit, U64 gas])"
proof -
  have up: "uint (ucast gas :: u128) = uint gas"
    by (simp add: uint_up_ucast is_up)
  have g: "uint gas < 2 ^ 64" using unsigned_less [of gas] by simp
  show ?thesis
  proof (cases "uint amount \<le> uint gas")
    case True
    then have down: "uint (ucast amount :: u64) = uint amount"
      using g by (simp add: unsigned_ucast_eq take_bit_eq_mod)
    with True have le: "(ucast amount :: u64) \<le> gas" by (simp add: word_le_def)
    then have "uint (gas - ucast amount) = uint gas - uint amount"
      by (simp add: uint_minus_le down)
    with True g le down up show ?thesis
      by (simp add: eval_gas_reserve_create_def eval_gas_reserve_utilize_def checked_sub_def
          checked_add_def word_le_def)
  qed (simp add: eval_gas_reserve_create_def word_le_def up)
qed

lemma required_sum_exact:
  assumes "\<forall>(tok, n) \<in> set costs. 0 \<le> n"
  shows "required_sum E costs acc = Some s \<Longrightarrow>
    s = acc + (\<Sum>(tok, n) \<leftarrow> costs. n * int (ex_token_gas_cost E tok)) \<and> (costs \<noteq> [] \<longrightarrow> 0 \<le> s \<and> s < 2 ^ 64)"
  using assms
proof (induction costs arbitrary: acc)
  case (Cons x cs)
  obtain tok n where x: "x = (tok, n)" by (cases x)
  from Cons.prems(1) x have acc: "0 \<le> acc + n * int (ex_token_gas_cost E tok)"
    "acc + n * int (ex_token_gas_cost E tok) < 2 ^ 64"
    and rest: "required_sum E cs (acc + n * int (ex_token_gas_cost E tok)) = Some s"
    by (auto simp: bind_Some usize_checked_def split: if_splits)
  from Cons.IH [OF rest] Cons.prems(2) acc rest x show ?case
    by (cases cs) auto
qed simp

text \<open>
  The gas a run starts with is what is available minus the exact cost of entering the
  function, and an error that reports both amounts when that is more than what is available.
\<close>

theorem get_initial_available_gas_exact:
  assumes "map_of (function_costs G) func = Some costs" and "\<forall>(tok, n) \<in> set costs. 0 \<le> n"
    and "required_sum E costs 0 = Some s"
  shows "s = (\<Sum>(tok, n) \<leftarrow> costs. n * int (ex_token_gas_cost E tok)) \<and>
    get_initial_available_gas E G func (Some avail) =
      Some (if s \<le> uint avail then Inr (avail - word_of_int s)
            else Inl (NotEnoughGas (word_of_int s) avail))"
proof -
  from required_sum_exact [OF assms(2,3)] assms(3)
  have s: "s = (\<Sum>(tok, n) \<leftarrow> costs. n * int (ex_token_gas_cost E tok))" "0 \<le> s" "s < 2 ^ 64"
    by (cases costs; simp)+
  then have "uint (word_of_int s :: u64) = s" by (simp add: uint_word_of_int)
  with assms s show ?thesis
    by (cases "function_costs G")
      (auto simp: get_initial_available_gas_def initial_required_gas_def checked_sub_def word_le_def)
qed

lemma get_initial_available_gas_exact_witness:
  "get_initial_available_gas ref_externs
      \<lparr>variable_values = (\<lambda>_. None), function_costs = [(3, [(ConstTok, 40), (PedersenTok, 2)])]\<rparr>
      3 (Some 200) = Some (Inl (NotEnoughGas 240 200))"
  using get_initial_available_gas_exact [where E = ref_externs and func = 3 and
      G = "\<lparr>variable_values = (\<lambda>_. None), function_costs = [(3, [(ConstTok, 40), (PedersenTok, 2)])]\<rparr>"
      and costs = "[(ConstTok, 40), (PedersenTok, 2)]" and s = 240 and avail = 200]
  by (simp add: usize_checked_def)

end
