(* ===== verification/BoundedIntOps.thy ===== *)
theory BoundedIntOps
  imports Sample Externs
begin

text \<open>
  The bounded integers: \<open>debug_utils/sierra-emu/src/vm/bounded_int.rs\<close>, the conversions
  between integer types of \<open>vm/cast.rs\<close> and the integer ranges of \<open>vm/int_range.rs\<close>. The
  evaluators add, subtract and multiply without looking at the range of the result; the
  lemmas say when the range of the signature makes that sound.
\<close>

section \<open>Bounded integer libfuncs\<close>

text \<open>
  The match on the result type that five of the evaluators repeat: a bounded integer, or a
  non-zero wrapper of one.
\<close>

definition bounded_range :: "registry \<Rightarrow> type_id \<Rightarrow> int_range_t option" where
  "bounded_range R t =
    do {
      ty \<leftarrow> get_type R t;
      (case ty of
        BoundedIntT r \<Rightarrow> Some r
      | NonZeroT e \<Rightarrow>
          do { ty' \<leftarrow> get_type R e; (case ty' of BoundedIntT r \<Rightarrow> Some r | _ \<Rightarrow> None) }
      | _ \<Rightarrow> None) }"

definition bounded_range_strict :: "registry \<Rightarrow> type_id \<Rightarrow> int_range_t option" where
  "bounded_range_strict R t =
    do { ty \<leftarrow> get_type R t; (case ty of BoundedIntT r \<Rightarrow> Some r | _ \<Rightarrow> None) }"

definition eval_bounded_add :: "registry \<Rightarrow> signature \<Rightarrow> val list \<Rightarrow> eval_action option" where
  "eval_bounded_add R sg args =
    do {
      is \<leftarrow> get_numeric_args_as_bigints args;
      (lhs, rhs) \<leftarrow> args2 is;
      t \<leftarrow> branch_ty sg 0 0;
      range \<leftarrow> bounded_range R t;
      Some (NormalBranch 0 [BoundedInt range (lhs + rhs)]) }"

definition eval_bounded_sub :: "registry \<Rightarrow> signature \<Rightarrow> val list \<Rightarrow> eval_action option" where
  "eval_bounded_sub R sg args =
    do {
      is \<leftarrow> get_numeric_args_as_bigints args;
      (lhs, rhs) \<leftarrow> args2 is;
      t \<leftarrow> branch_ty sg 0 0;
      range \<leftarrow> bounded_range R t;
      Some (NormalBranch 0 [BoundedInt range (lhs - rhs)]) }"

definition eval_bounded_mul :: "registry \<Rightarrow> signature \<Rightarrow> val list \<Rightarrow> eval_action option" where
  "eval_bounded_mul R sg args =
    do {
      is \<leftarrow> get_numeric_args_as_bigints args;
      (lhs, rhs) \<leftarrow> args2 is;
      t \<leftarrow> branch_ty sg 0 0;
      range \<leftarrow> bounded_range R t;
      Some (NormalBranch 0 [BoundedInt range (lhs * rhs)]) }"

definition eval_div_rem :: "registry \<Rightarrow> signature \<Rightarrow> val list \<Rightarrow> eval_action option" where
  "eval_div_rem R sg args =
    do {
      range_check \<leftarrow> nth_opt args 0;
      as_unit range_check;
      is \<leftarrow> get_numeric_args_as_bigints (drop 1 args);
      (lhs, rhs) \<leftarrow> args2 is;
      quo \<leftarrow> big_div lhs rhs;
      rem \<leftarrow> big_rem lhs rhs;
      qt \<leftarrow> branch_ty sg 0 1;
      quo_range \<leftarrow> bounded_range_strict R qt;
      rt \<leftarrow> branch_ty sg 0 2;
      rem_range \<leftarrow> bounded_range_strict R rt;
      assert_that (in_range quo_range quo);
      assert_that (in_range rem_range rem);
      Some (NormalBranch 0 [range_check, BoundedInt quo_range quo, BoundedInt rem_range rem]) }"

definition eval_constrain :: "registry \<Rightarrow> signature \<Rightarrow> int \<Rightarrow> val list \<Rightarrow> eval_action option" where
  "eval_constrain R sg boundary args =
    do {
      range_check \<leftarrow> nth_opt args 0;
      as_unit range_check;
      is \<leftarrow> get_numeric_args_as_bigints (drop 1 args);
      i \<leftarrow> args1 is;
      (if i < boundary
       then do {
         t \<leftarrow> branch_ty sg 0 1;
         range \<leftarrow> bounded_range R t;
         Some (NormalBranch 0 [range_check, BoundedInt range i]) }
       else do {
         t \<leftarrow> branch_ty sg 1 1;
         range \<leftarrow> bounded_range R t;
         Some (NormalBranch 1 [range_check, BoundedInt range i]) }) }"

definition eval_bounded_is_zero :: "registry \<Rightarrow> signature \<Rightarrow> val list \<Rightarrow> eval_action option" where
  "eval_bounded_is_zero R sg args =
    do {
      is \<leftarrow> get_numeric_args_as_bigints args;
      i \<leftarrow> args1 is;
      int_ty \<leftarrow> branch_ty sg 1 0;
      (if i = 0 then Some (NormalBranch 0 [])
       else do {
         v \<leftarrow> get_value_from_integer R int_ty i;
         Some (NormalBranch 1 [v]) }) }"

definition eval_wrap_non_zero :: "val list \<Rightarrow> eval_action option" where
  "eval_wrap_non_zero args = do { v \<leftarrow> args1 args; Some (NormalBranch 0 [v]) }"

text \<open>The match of \<open>eval_trim\<close>: the integer types and bounded integers, no field elements.\<close>

definition trim_arg :: "val \<Rightarrow> int option" where
  "trim_arg v =
    (case v of
      I8 x \<Rightarrow> Some (sint x) | I16 x \<Rightarrow> Some (sint x) | I32 x \<Rightarrow> Some (sint x)
    | I64 x \<Rightarrow> Some (sint x) | I128 x \<Rightarrow> Some (sint x)
    | U8 x \<Rightarrow> Some (uint x) | U16 x \<Rightarrow> Some (uint x) | U32 x \<Rightarrow> Some (uint x)
    | U64 x \<Rightarrow> Some (uint x) | U128 x \<Rightarrow> Some (uint x)
    | BoundedInt _ i \<Rightarrow> Some i
    | _ \<Rightarrow> None)"

definition eval_trim :: "registry \<Rightarrow> signature \<Rightarrow> int \<Rightarrow> val list \<Rightarrow> eval_action option" where
  "eval_trim R sg trimmed_value args =
    do {
      v \<leftarrow> args1 args;
      i \<leftarrow> trim_arg v;
      let is_invalid = (i = trimmed_value);
      t \<leftarrow> branch_ty sg 1 0;
      range \<leftarrow> bounded_range_strict R t;
      Some (if \<not> is_invalid then NormalBranch 1 [BoundedInt range i] else NormalBranch 0 []) }"

definition eval_bounded_guarantee_verify :: "val list \<Rightarrow> eval_action option" where
  "eval_bounded_guarantee_verify args =
    do {
      range_check \<leftarrow> nth_opt args 0;
      as_unit range_check;
      Some (NormalBranch 0 [range_check]) }"

definition u32_limb :: "u128 \<Rightarrow> nat \<Rightarrow> val" where
  "u32_limb x shift =
    BoundedInt \<lparr>rng_lower = 0, rng_upper = (2 ^ 32 - 1) + 1\<rparr>
      (uint (ucast (drop_bit shift x) :: u32))"

definition eval_u128_to_u32_guarantees :: "val list \<Rightarrow> eval_action option" where
  "eval_u128_to_u32_guarantees args =
    do {
      v \<leftarrow> args1 args;
      x \<leftarrow> as_u128 v;
      Some (NormalBranch 0 [u32_limb x 0, u32_limb x 32, u32_limb x 64, u32_limb x 96]) }"

definition eval_bounded_int ::
  "registry \<Rightarrow> signature \<Rightarrow> bounded_int_lib \<Rightarrow> val list \<Rightarrow> eval_action option" where
  "eval_bounded_int R sg selector args =
    (case selector of
      BIAdd \<Rightarrow> eval_bounded_add R sg args
    | BISub \<Rightarrow> eval_bounded_sub R sg args
    | BIMul \<Rightarrow> eval_bounded_mul R sg args
    | BIDivRem \<Rightarrow> eval_div_rem R sg args
    | BIConstrain boundary \<Rightarrow> eval_constrain R sg boundary args
    | BIIsZero \<Rightarrow> eval_bounded_is_zero R sg args
    | BIWrapNonZero \<Rightarrow> eval_wrap_non_zero args
    | BITrimMin trimmed \<Rightarrow> eval_trim R sg trimmed args
    | BITrimMax trimmed \<Rightarrow> eval_trim R sg trimmed args
    | BIGuaranteeVerify \<Rightarrow> eval_bounded_guarantee_verify args
    | BIU128ToU32Guarantees \<Rightarrow> eval_u128_to_u32_guarantees args)"

section \<open>Casts\<close>

definition eval_downcast ::
  "registry \<Rightarrow> int_range_t \<Rightarrow> type_id \<Rightarrow> val list \<Rightarrow> eval_action option" where
  "eval_downcast R to_range to_ty args =
    do {
      range_check \<leftarrow> nth_opt args 0;
      as_unit range_check;
      is \<leftarrow> get_numeric_args_as_bigints (drop 1 args);
      i \<leftarrow> args1 is;
      (if in_range to_range i
       then do {
         v \<leftarrow> get_value_from_integer R to_ty i;
         Some (NormalBranch 0 [range_check, v]) }
       else Some (NormalBranch 1 [range_check])) }"

definition eval_upcast :: "registry \<Rightarrow> signature \<Rightarrow> val list \<Rightarrow> eval_action option" where
  "eval_upcast R sg args =
    do {
      is \<leftarrow> get_numeric_args_as_bigints args;
      i \<leftarrow> args1 is;
      int_ty \<leftarrow> branch_ty sg 0 0;
      v \<leftarrow> get_value_from_integer R int_ty i;
      Some (NormalBranch 0 [v]) }"

definition eval_cast :: "registry \<Rightarrow> signature \<Rightarrow> cast_lib \<Rightarrow> val list \<Rightarrow> eval_action option" where
  "eval_cast R sg selector args =
    (case selector of
      Downcast to_range to_ty \<Rightarrow> eval_downcast R to_range to_ty args
    | Upcast \<Rightarrow> eval_upcast R sg args)"

section \<open>Integer ranges\<close>

definition eval_try_new :: "registry \<Rightarrow> signature \<Rightarrow> val list \<Rightarrow> eval_action option" where
  "eval_try_new R sg args =
    do {
      range_check \<leftarrow> nth_opt args 0;
      as_unit range_check;
      is \<leftarrow> get_numeric_args_as_bigints (drop 1 args);
      (x, y) \<leftarrow> args2 is;
      int_ty \<leftarrow> param_ty sg 1;
      (if x < y
       then do {
         x \<leftarrow> get_value_from_integer R int_ty x;
         y \<leftarrow> get_value_from_integer R int_ty y;
         Some (NormalBranch 0 [range_check, IntRange x y]) }
       else do {
         y \<leftarrow> get_value_from_integer R int_ty y;
         Some (NormalBranch 1 [range_check, IntRange y y]) }) }"

definition eval_int_range_pop_front ::
  "registry \<Rightarrow> signature \<Rightarrow> val list \<Rightarrow> eval_action option" where
  "eval_int_range_pop_front R sg args =
    do {
      v \<leftarrow> args1 args;
      (x, y) \<leftarrow> as_int_range v;
      is \<leftarrow> get_numeric_args_as_bigints [x, y];
      (x, y) \<leftarrow> args2 is;
      t \<leftarrow> param_ty sg 0;
      ty \<leftarrow> get_type R t;
      int_ty \<leftarrow> (case ty of IntRangeT e \<Rightarrow> Some e | _ \<Rightarrow> None);
      (if x < y
       then do {
         x_plus_1 \<leftarrow> get_value_from_integer R int_ty (x + 1);
         x \<leftarrow> get_value_from_integer R int_ty x;
         y \<leftarrow> get_value_from_integer R int_ty y;
         Some (NormalBranch 1 [IntRange x_plus_1 y, x]) }
       else Some (NormalBranch 0 [])) }"

definition eval_int_range ::
  "registry \<Rightarrow> signature \<Rightarrow> int_range_lib \<Rightarrow> val list \<Rightarrow> eval_action option" where
  "eval_int_range R sg selector args =
    (case selector of
      IntRangeTryNew \<Rightarrow> eval_try_new R sg args
    | IntRangePopFront \<Rightarrow> eval_int_range_pop_front R sg args)"

section \<open>Ranges of results\<close>

text \<open>
  Specification: the least range that holds every sum, difference or product of members of
  two ranges, which is the range the result type of these libfuncs has.
\<close>

definition range_add :: "int_range_t \<Rightarrow> int_range_t \<Rightarrow> int_range_t" where
  "range_add a b =
    \<lparr>rng_lower = rng_lower a + rng_lower b, rng_upper = rng_upper a + rng_upper b - 1\<rparr>"

definition range_sub :: "int_range_t \<Rightarrow> int_range_t \<Rightarrow> int_range_t" where
  "range_sub a b =
    \<lparr>rng_lower = rng_lower a - (rng_upper b - 1), rng_upper = rng_upper a - rng_lower b\<rparr>"

definition range_mul :: "int_range_t \<Rightarrow> int_range_t \<Rightarrow> int_range_t" where
  "range_mul a b =
    (let ps = [rng_lower a * rng_lower b, rng_lower a * (rng_upper b - 1),
               (rng_upper a - 1) * rng_lower b, (rng_upper a - 1) * (rng_upper b - 1)]
     in \<lparr>rng_lower = Min (set ps), rng_upper = Max (set ps) + 1\<rparr>)"

lemma between_mul:
  fixes x y z l u :: int
  assumes "l \<le> x" "x \<le> u"
  shows "min (l * y) (u * y) \<le> x * y \<and> x * y \<le> max (l * y) (u * y)"
proof (cases "0 \<le> y")
  case True
  with assms have "l * y \<le> x * y" "x * y \<le> u * y" by (simp_all add: mult_right_mono)
  then show ?thesis by linarith
next
  case False
  with assms have "u * y \<le> x * y" "x * y \<le> l * y" by (simp_all add: mult_right_mono_neg)
  then show ?thesis by linarith
qed

lemma range_mul_sound:
  assumes "in_range a x" "in_range b y"
  shows "in_range (range_mul a b) (x * y)"
proof -
  define al au bl bu where "al = rng_lower a" and "au = rng_upper a - 1"
    and "bl = rng_lower b" and "bu = rng_upper b - 1"
  have x: "al \<le> x" "x \<le> au" and y: "bl \<le> y" "y \<le> bu"
    using assms by (simp_all add: in_range_def al_def au_def bl_def bu_def)
  note m1 = between_mul [OF x, of y]
  note m2 = between_mul [OF y, of al, unfolded mult.commute [of _ al]]
    and m3 = between_mul [OF y, of au, unfolded mult.commute [of _ au]]
  have "Min {al * bl, al * bu, au * bl, au * bu} \<le> x * y"
    "x * y \<le> Max {al * bl, al * bu, au * bl, au * bu}"
    using m1 m2 m3 by (auto simp: min_le_iff_disj le_max_iff_disj)
  then show ?thesis
    by (simp add: in_range_def range_mul_def Let_def al_def au_def bl_def bu_def)
qed

lemma range_add_sound: "in_range a x \<Longrightarrow> in_range b y \<Longrightarrow> in_range (range_add a b) (x + y)"
  by (simp add: in_range_def range_add_def)

lemma range_sub_sound: "in_range a x \<Longrightarrow> in_range b y \<Longrightarrow> in_range (range_sub a b) (x - y)"
  by (simp add: in_range_def range_sub_def)

text \<open>The result type of a libfunc is a bounded integer, or a non-zero one, of range \<open>r\<close>.\<close>

definition bounded_at :: "registry \<Rightarrow> type_id \<Rightarrow> int_range_t \<Rightarrow> bool" where
  "bounded_at R t r \<longleftrightarrow>
    get_type R t = Some (BoundedIntT r) \<or>
    (\<exists>e. get_type R t = Some (NonZeroT e) \<and> get_type R e = Some (BoundedIntT r))"

lemma bounded_range_at [simp]: "bounded_at R t r \<Longrightarrow> bounded_range R t = Some r"
  by (auto simp: bounded_at_def bounded_range_def)

text \<open>
  Bounded addition, subtraction and multiplication return the exact result, and when the
  result type has the range that interval arithmetic gives, the result lies in that range
  although the evaluators never check it.
\<close>

theorem bounded_arith_in_range:
  assumes "numeric_arg v = Some x" "in_range a x" and "numeric_arg w = Some y" "in_range b y"
    and "branch_ty sg_add 0 0 = Some ta" "bounded_at R ta (range_add a b)"
    and "branch_ty sg_sub 0 0 = Some ts" "bounded_at R ts (range_sub a b)"
    and "branch_ty sg_mul 0 0 = Some tm" "bounded_at R tm (range_mul a b)"
  shows "eval_bounded_add R sg_add [v, w] =
      Some (NormalBranch 0 [BoundedInt (range_add a b) (x + y)]) \<and> in_range (range_add a b) (x + y) \<and>
    eval_bounded_sub R sg_sub [v, w] =
      Some (NormalBranch 0 [BoundedInt (range_sub a b) (x - y)]) \<and> in_range (range_sub a b) (x - y) \<and>
    eval_bounded_mul R sg_mul [v, w] =
      Some (NormalBranch 0 [BoundedInt (range_mul a b) (x * y)]) \<and> in_range (range_mul a b) (x * y)"
  using assms range_add_sound range_sub_sound range_mul_sound
  by (simp_all add: eval_bounded_add_def eval_bounded_sub_def eval_bounded_mul_def)

lemma bounded_arith_in_range_witness:
  "eval_bounded_mul sample_registry (sg_of [] [[40]])
      [BoundedInt \<lparr>rng_lower = - 5, rng_upper = 11\<rparr> (- 3), BoundedInt \<lparr>rng_lower = 0, rng_upper = 4\<rparr> 2] =
    Some (NormalBranch 0 [BoundedInt \<lparr>rng_lower = - 15, rng_upper = 31\<rparr> (- 6)])"
  using bounded_arith_in_range [where R = sample_registry and
      v = "BoundedInt \<lparr>rng_lower = - 5, rng_upper = 11\<rparr> (- 3)" and x = "- 3" and
      a = "\<lparr>rng_lower = - 5, rng_upper = 11\<rparr>" and
      w = "BoundedInt \<lparr>rng_lower = 0, rng_upper = 4\<rparr> 2" and y = 2 and
      b = "\<lparr>rng_lower = 0, rng_upper = 4\<rparr>" and
      sg_add = "sg_of [] [[38]]" and ta = 38 and sg_sub = "sg_of [] [[39]]" and ts = 39 and
      sg_mul = "sg_of [] [[40]]" and tm = 40]
  by (simp add: in_range_def bounded_at_def sample_types_def range_add_def range_sub_def
      range_mul_def)

text \<open>
  Bounded division of a non-negative dividend by a positive divisor passes both of its
  assertions when the quotient and remainder types have the ranges the operands imply, and
  returns the quotient and remainder of Euclidean division.
\<close>

theorem eval_div_rem_in_range:
  assumes "numeric_arg v = Some x" "in_range a x" "0 \<le> rng_lower a"
    and "numeric_arg w = Some y" "in_range b y" "0 < rng_lower b"
    and "branch_ty sg 0 1 = Some tq" "get_type R tq = Some (BoundedIntT
      \<lparr>rng_lower = rng_lower a div (rng_upper b - 1),
       rng_upper = (rng_upper a - 1) div rng_lower b + 1\<rparr>)"
    and "branch_ty sg 0 2 = Some tr"
    "get_type R tr = Some (BoundedIntT \<lparr>rng_lower = 0, rng_upper = rng_upper b - 1\<rparr>)"
  shows "\<exists>rq rr. eval_div_rem R sg [Unit, v, w] =
    Some (NormalBranch 0 [Unit, BoundedInt rq (x div y), BoundedInt rr (x mod y)])"
proof -
  have x: "rng_lower a \<le> x" "x \<le> rng_upper a - 1" and y: "rng_lower b \<le> y" "y \<le> rng_upper b - 1"
    using assms(2,5) by (simp_all add: in_range_def)
  have pos: "0 \<le> x" "0 < y" using x y assms(3,6) by linarith+
  have "rng_lower a div (rng_upper b - 1) \<le> x div (rng_upper b - 1)"
    using x y pos by (intro zdiv_mono1) auto
  also have "\<dots> \<le> x div y" using y pos by (intro zdiv_mono2) auto
  finally have lo: "rng_lower a div (rng_upper b - 1) \<le> x div y" .
  have "x div y \<le> x div rng_lower b" using y pos assms(6) by (intro zdiv_mono2) auto
  also have "\<dots> \<le> (rng_upper a - 1) div rng_lower b" using x assms(6) by (intro zdiv_mono1) auto
  finally have hi: "x div y \<le> (rng_upper a - 1) div rng_lower b" .
  have "x mod y < y" "0 \<le> x mod y" using pos by simp_all
  with y have rem: "0 \<le> x mod y" "x mod y < rng_upper b - 1" by linarith+
  show ?thesis
    using assms lo hi rem pos
    by (simp add: eval_div_rem_def bounded_range_strict_def in_range_def big_div_def big_rem_def
        tdiv_nonneg tmod_nonneg)
qed

lemma eval_div_rem_in_range_witness:
  "\<exists>rq rr. eval_div_rem sample_registry (sg_of [] [[11, 41, 42]])
      [Unit, U8 10, BoundedInt \<lparr>rng_lower = 1, rng_upper = 4\<rparr> 3] =
    Some (NormalBranch 0 [Unit, BoundedInt rq 3, BoundedInt rr 1])"
  using eval_div_rem_in_range [where R = sample_registry and sg = "sg_of [] [[11, 41, 42]]" and
      v = "U8 10" and x = 10 and a = "\<lparr>rng_lower = 0, rng_upper = 11\<rparr>" and
      w = "BoundedInt \<lparr>rng_lower = 1, rng_upper = 4\<rparr> 3" and y = 3 and
      b = "\<lparr>rng_lower = 1, rng_upper = 4\<rparr>" and tq = 41 and tr = 42]
  by (simp add: in_range_def sample_types_def)

text \<open>
  Constraining at a boundary inside the range splits it: branch 0 gets the values below
  the boundary at the lower range, branch 1 the others at the upper range, and in both cases
  the value is unchanged and inside the range it is tagged with.
\<close>

theorem eval_constrain_splits:
  assumes "numeric_arg v = Some x" "in_range r x"
    and "branch_ty sg 0 1 = Some t_below" "bounded_at R t_below (r\<lparr>rng_upper := boundary\<rparr>)"
    and "branch_ty sg 1 1 = Some t_above" "bounded_at R t_above (r\<lparr>rng_lower := boundary\<rparr>)"
  shows "\<exists>r'. in_range r' x \<and> eval_constrain R sg boundary [Unit, v] =
    Some (NormalBranch (if x < boundary then 0 else 1) [Unit, BoundedInt r' x])"
  using assms by (auto simp: eval_constrain_def in_range_def)

lemma eval_constrain_splits_witness:
  "\<exists>r'. in_range r' 7 \<and> eval_constrain sample_registry (sg_of [] [[11, 43], [11, 41]]) 0
      [Unit, BoundedInt \<lparr>rng_lower = - 5, rng_upper = 11\<rparr> 7] =
    Some (NormalBranch 1 [Unit, BoundedInt r' 7])"
  using eval_constrain_splits [where R = sample_registry and
      sg = "sg_of [] [[11, 43], [11, 41]]" and boundary = 0 and
      v = "BoundedInt \<lparr>rng_lower = - 5, rng_upper = 11\<rparr> 7" and x = 7 and
      r = "\<lparr>rng_lower = - 5, rng_upper = 11\<rparr>" and t_below = 43 and t_above = 41]
  by (simp add: in_range_def bounded_at_def sample_types_def)

text \<open>
  Trimming the least or the greatest value of a range takes branch 0 exactly on that
  value; any other value keeps its number and lies in the trimmed range.
\<close>

theorem eval_trim_exact:
  assumes "trim_arg v = Some x" "in_range r x" "branch_ty sg 1 0 = Some t"
    and "trimmed = rng_lower r \<and> r' = r\<lparr>rng_lower := rng_lower r + 1\<rparr> \<or>
      trimmed = rng_upper r - 1 \<and> r' = r\<lparr>rng_upper := rng_upper r - 1\<rparr>"
    and "get_type R t = Some (BoundedIntT r')"
  shows "if x = trimmed then eval_trim R sg trimmed [v] = Some (NormalBranch 0 [])
    else eval_trim R sg trimmed [v] = Some (NormalBranch 1 [BoundedInt r' x]) \<and> in_range r' x"
  using assms by (auto simp: eval_trim_def bounded_range_strict_def in_range_def)

lemma eval_trim_exact_witness:
  "eval_trim sample_registry (sg_of [] [[], [44]]) (- 5)
      [BoundedInt \<lparr>rng_lower = - 5, rng_upper = 11\<rparr> (- 4)] =
    Some (NormalBranch 1 [BoundedInt \<lparr>rng_lower = - 4, rng_upper = 11\<rparr> (- 4)])"
  using eval_trim_exact [where R = sample_registry and sg = "sg_of [] [[], [44]]" and
      trimmed = "- 5" and v = "BoundedInt \<lparr>rng_lower = - 5, rng_upper = 11\<rparr> (- 4)" and
      x = "- 4" and r = "\<lparr>rng_lower = - 5, rng_upper = 11\<rparr>" and
      r' = "\<lparr>rng_lower = - 4, rng_upper = 11\<rparr>" and t = 44]
  by (simp add: in_range_def trim_arg_def sample_types_def)

section \<open>Limbs\<close>

lemma limb_div:
  "uint (ucast (drop_bit n x) :: u32) = uint x div 2 ^ n mod 2 ^ 32" for x :: u128
proof -
  have "take_bit 128 (uint x) = uint x"
    using unsigned_less [of x] by (simp add: take_bit_int_eq_self_iff)
  then have "uint (drop_bit n x) = uint x div 2 ^ n"
    by (simp add: unsigned_drop_bit_eq) (simp add: drop_bit_eq_div)
  then show ?thesis by (simp add: unsigned_ucast_eq take_bit_eq_mod)
qed

text \<open>
  The four limbs of a \<open>u128\<close> are in the range they are tagged with, and weighted by the
  powers of \<open>2 ^ 32\<close>, lowest first, they add up to the value.
\<close>

theorem eval_u128_limbs:
  "\<exists>r a b c d. eval_u128_to_u32_guarantees [U128 x] =
      Some (NormalBranch 0 [BoundedInt r a, BoundedInt r b, BoundedInt r c, BoundedInt r d]) \<and>
    in_range r a \<and> in_range r b \<and> in_range r c \<and> in_range r d \<and>
    a + b * 2 ^ 32 + c * 2 ^ 64 + d * 2 ^ 96 = uint x"
proof -
  define n where "n = uint x"
  have n: "0 \<le> n" "n < 2 ^ 128" using unsigned_less [of x] by (simp_all add: n_def)
  have "n div 2 ^ 32 div 2 ^ 32 = n div 2 ^ 64" "n div 2 ^ 64 div 2 ^ 32 = n div 2 ^ 96"
    by (simp_all flip: zdiv_zmult2_eq)
  then have split: "n = 2 ^ 32 * (n div 2 ^ 32) + n mod 2 ^ 32"
    "n div 2 ^ 32 = 2 ^ 32 * (n div 2 ^ 64) + n div 2 ^ 32 mod 2 ^ 32"
    "n div 2 ^ 64 = 2 ^ 32 * (n div 2 ^ 96) + n div 2 ^ 64 mod 2 ^ 32"
    by (metis mult_div_mod_eq)+
  have "n div 2 ^ 96 < 2 ^ 32" "0 \<le> n div 2 ^ 96"
    using n by (simp_all add: div_less_iff_less_mult pos_imp_zdiv_nonneg_iff)
  then have top: "n div 2 ^ 96 mod 2 ^ 32 = n div 2 ^ 96" by simp
  define a b c d where "a = n mod 2 ^ 32" and "b = n div 2 ^ 32 mod 2 ^ 32"
    and "c = n div 2 ^ 64 mod 2 ^ 32" and "d = n div 2 ^ 96 mod 2 ^ 32"
  define q1 q2 q3 where "q1 = n div 2 ^ 32" and "q2 = n div 2 ^ 64" and "q3 = n div 2 ^ 96"
  have "n = 2 ^ 32 * q1 + a" "q1 = 2 ^ 32 * q2 + b" "q2 = 2 ^ 32 * q3 + c" "d = q3"
    using split top unfolding q1_def q2_def q3_def a_def b_def c_def d_def by blast+
  then have "a + b * 2 ^ 32 + c * 2 ^ 64 + d * 2 ^ 96 = n" by simp
  moreover have "0 \<le> a" "a < 2 ^ 32" "0 \<le> b" "b < 2 ^ 32" "0 \<le> c" "c < 2 ^ 32" "0 \<le> d" "d < 2 ^ 32"
    by (simp_all add: a_def b_def c_def d_def)
  moreover have "eval_u128_to_u32_guarantees [U128 x] = Some (NormalBranch 0
      (map (BoundedInt \<lparr>rng_lower = 0, rng_upper = (2 ^ 32 - 1) + 1\<rparr>) [a, b, c, d]))"
    unfolding eval_u128_to_u32_guarantees_def u32_limb_def limb_div a_def b_def c_def d_def n_def
    by simp
  ultimately show ?thesis
    unfolding n_def
    by (intro exI [of _ "\<lparr>rng_lower = 0, rng_upper = (2 ^ 32 - 1) + 1\<rparr>"] exI [of _ a]
        exI [of _ b] exI [of _ c] exI [of _ d]) (simp add: in_range_def)
qed

section \<open>Casts and ranges of machine integers\<close>

text \<open>
  A downcast between machine integer types succeeds exactly when the integer fits the
  target type, and casting the result back up gives the original value.
\<close>

theorem downcast_upcast:
  assumes "int_type_at R ft fty flo fw" "encode_at fty x = Some v"
    and "int_type_at R tt tty tlo tw" "branch_ty sg 0 0 = Some ft"
  defines "r \<equiv> \<lparr>rng_lower = tlo, rng_upper = tlo + 2 ^ tw\<rparr>"
  shows "if in_range r x
    then \<exists>w. eval_downcast R r tt [Unit, v] = Some (NormalBranch 0 [Unit, w]) \<and>
      encode_at tty x = Some w \<and> eval_upcast R sg [w] = Some (NormalBranch 0 [v])
    else eval_downcast R r tt [Unit, v] = Some (NormalBranch 1 [Unit])"
proof -
  from assms have f: "int_bounds fty = Some (flo, fw)" and t: "int_bounds tty = Some (tlo, tw)"
    by (simp_all add: int_type_at_def)
  note v = encode_at_reads [OF f assms(2)]
  show ?thesis
  proof (cases "in_range r x")
    case True
    then obtain w where w: "encode_at tty x = Some w"
      using encode_at_total [OF t, of x] by (auto simp: r_def in_range_def)
    with True v assms(2,4) encode_at_reads [OF t w] get_value_at [OF assms(1)]
      get_value_at [OF assms(3)] show ?thesis
      by (simp add: eval_downcast_def eval_upcast_def)
  qed (use v in \<open>simp add: eval_downcast_def\<close>)
qed

lemma downcast_upcast_witness:
  "\<exists>w. eval_downcast sample_registry \<lparr>rng_lower = - 128, rng_upper = 128\<rparr> 6 [Unit, U8 100] =
      Some (NormalBranch 0 [Unit, w]) \<and> encode_at Sint8T 100 = Some w \<and>
    eval_upcast sample_registry (sg_of [] [[1]]) [w] = Some (NormalBranch 0 [U8 100])"
  using downcast_upcast [where R = sample_registry and ft = 1 and fty = Uint8T and flo = 0 and
      fw = 8 and x = 100 and v = "U8 100" and tt = 6 and tty = Sint8T and tlo = "- 128" and
      tw = 8 and sg = "sg_of [] [[1]]"]
  by (simp add: sample_int_types in_range_def encode_at_def to_unsigned_def)

text \<open>Popping a range until it is empty, with \<open>n\<close> calls allowed.\<close>

fun drain :: "registry \<Rightarrow> signature \<Rightarrow> nat \<Rightarrow> val \<Rightarrow> val list option" where
  "drain R sg 0 v = None"
| "drain R sg (Suc n) v =
    do {
      a \<leftarrow> eval_int_range_pop_front R sg [v];
      (case a of
        NormalBranch b [] \<Rightarrow> if b = 0 then Some [] else None
      | NormalBranch b [v', w] \<Rightarrow>
          if b = 1 then do { ws \<leftarrow> drain R sg n v'; Some (w # ws) } else None
      | _ \<Rightarrow> None) }"

lemma drain_range:
  assumes "int_type_at R t ty lo w" "param_ty sg 0 = Some rt" "get_type R rt = Some (IntRangeT t)"
  shows "encode_at ty x = Some vx \<Longrightarrow> encode_at ty y = Some vy \<Longrightarrow> nat (y - x) < n \<Longrightarrow>
    \<exists>ws. drain R sg n (IntRange vx vy) = Some ws \<and> map (encode_at ty) [x .. y - 1] = map Some ws"
proof (induction n arbitrary: x vx)
  case 0
  then show ?case by simp
next
  case (Suc n)
  from assms(1) have bd: "int_bounds ty = Some (lo, w)" by (simp add: int_type_at_def)
  note args = encode_at_args [OF bd Suc.prems(1,2)]
  show ?case
  proof (cases "x < y")
    case True
    then obtain vx' where x': "encode_at ty (x + 1) = Some vx'"
      using args encode_at_total [OF bd, of "x + 1"] by auto
    have "nat (y - (x + 1)) < n" using True Suc.prems(3) by linarith
    from Suc.IH [OF x' Suc.prems(2) this] obtain ws
      where ws: "drain R sg n (IntRange vx' vy) = Some ws"
        "map (encode_at ty) [x + 1 .. y - 1] = map Some ws" by blast
    have "[x .. y - 1] = x # [x + 1 .. y - 1]" using True by (simp add: upto_rec1)
    with True encode_at_reads [OF bd Suc.prems(1)] encode_at_reads [OF bd Suc.prems(2)] ws x' Suc.prems(1,2) assms(2,3) get_value_at [OF assms(1)] show ?thesis
      by (simp add: eval_int_range_pop_front_def)
  next
    case False
    with encode_at_reads [OF bd Suc.prems(1)] encode_at_reads [OF bd Suc.prems(2)] False assms(2,3)
    show ?thesis by (simp add: eval_int_range_pop_front_def)
  qed
qed

text \<open>
  An integer range built from \<open>x\<close> and \<open>y\<close> enumerates by repeated popping exactly the
  integers from \<open>x\<close> up to \<open>y - 1\<close> in order and then reports that it is empty; a range
  whose bounds are the wrong way round is created empty.
\<close>

theorem int_range_enumerates:
  assumes "int_type_at R t ty lo w" "param_ty sg 0 = Some rt" "get_type R rt = Some (IntRangeT t)"
    and "param_ty sg_new 1 = Some t"
    and "encode_at ty x = Some vx" "encode_at ty y = Some vy" "nat (y - x) < n"
  shows "\<exists>rv ws. eval_try_new R sg_new [Unit, vx, vy] =
      Some (NormalBranch (if x < y then 0 else 1) [Unit, rv]) \<and>
    drain R sg n rv = Some ws \<and> map (encode_at ty) [x .. y - 1] = map Some ws"
proof -
  from assms(1) have bd: "int_bounds ty = Some (lo, w)" by (simp add: int_type_at_def)
  note reads = encode_at_reads [OF bd assms(5)] encode_at_reads [OF bd assms(6)]
  note drain = drain_range [OF assms(1-3)]
  show ?thesis
  proof (cases "x < y")
    case True
    with drain [OF assms(5-7)] reads assms(4-6) get_value_at [OF assms(1)] show ?thesis
      by (simp add: eval_try_new_def)
  next
    case False
    with drain [OF assms(6,6), of n] reads assms(4-7) get_value_at [OF assms(1)] show ?thesis
      by (simp add: eval_try_new_def)
  qed
qed

lemma int_range_enumerates_witness:
  "\<exists>rv ws. eval_try_new sample_registry (sg_of [11, 1, 1] []) [Unit, U8 253, U8 255] =
      Some (NormalBranch 0 [Unit, rv]) \<and>
    drain sample_registry (sg_of [26] []) 3 rv = Some ws \<and>
    map (encode_at Uint8T) [253 .. 254] = map Some ws"
  using int_range_enumerates [where R = sample_registry and t = 1 and ty = Uint8T and lo = 0 and
      w = 8 and sg = "sg_of [26] []" and rt = 26 and sg_new = "sg_of [11, 1, 1] []" and
      x = 253 and y = 255 and vx = "U8 253" and vy = "U8 255" and n = 3]
  by (simp add: sample_int_types sample_types_def encode_at_def to_unsigned_def)

end
