(* ===== verification/WideIntOps.thy ===== *)
theory WideIntOps
  imports Sample Externs
begin

text \<open>
  \<open>debug_utils/sierra-emu/src/vm/uint256.rs\<close> and \<open>uint512.rs\<close>: 256-bit and 512-bit
  unsigned integers, kept in structs of 128-bit limbs (lowest first) and computed on as
  \<open>BigUint\<close>. The lemmas show that limbs and numbers correspond and that no conversion back
  to limbs can panic.
\<close>

section \<open>Conversions\<close>

definition u128_of_nat :: "nat \<Rightarrow> u128 option" where
  "u128_of_nat n = to_unsigned (int n)"

definition u256_to_biguint :: "u128 \<Rightarrow> u128 \<Rightarrow> nat" where
  "u256_to_biguint lo hi = unat lo + push_bit 128 (unat hi)"

definition u256_to_value :: "nat \<Rightarrow> val option" where
  "u256_to_value n =
    do {
      hi \<leftarrow> u128_of_nat (drop_bit 128 n);
      lo \<leftarrow> u128_of_nat (n AND (2 ^ 128 - 1));
      Some (Struct [U128 lo, U128 hi]) }"

definition u516_to_value :: "nat \<Rightarrow> val option" where
  "u516_to_value n =
    do {
      let upper_u256 = drop_bit 256 n;
      hi1 \<leftarrow> u128_of_nat (drop_bit 128 upper_u256);
      lo1 \<leftarrow> u128_of_nat (upper_u256 AND (2 ^ 128 - 1));
      let lower_u256 = n AND (2 ^ 256 - 1);
      hi \<leftarrow> u128_of_nat (drop_bit 128 lower_u256);
      lo \<leftarrow> u128_of_nat (lower_u256 AND (2 ^ 128 - 1));
      Some (Struct [U128 lo, U128 hi, U128 lo1, U128 hi1]) }"

text \<open>\<open>let [Value::U128(lo), Value::U128(hi)] = fields.try_into().unwrap() else { panic!() }\<close>\<close>

definition as_u128_pair :: "val list \<Rightarrow> (u128 \<times> u128) option" where
  "as_u128_pair vs =
    do {
      (a, b) \<leftarrow> args2 vs;
      lo \<leftarrow> as_u128 a;
      hi \<leftarrow> as_u128 b;
      Some (lo, hi) }"

section \<open>256-bit integers\<close>

definition eval_inv_mod_n :: "externs \<Rightarrow> val list \<Rightarrow> eval_action option" where
  "eval_inv_mod_n E args =
    do {
      (range_check, vx, vm) \<leftarrow> args3 args;
      as_unit range_check;
      fx \<leftarrow> as_struct vx;
      fm \<leftarrow> as_struct vm;
      (x_lo, x_hi) \<leftarrow> as_u128_pair fx;
      (mod_lo, mod_hi) \<leftarrow> as_u128_pair fm;
      let x = u256_to_biguint x_lo x_hi;
      let modulo = u256_to_biguint mod_lo mod_hi;
      inv \<leftarrow> ex_modinv E x modulo;
      (case inv of
        None \<Rightarrow> Some (NormalBranch 1 [range_check, Unit, Unit])
      | Some r \<Rightarrow>
          if r = 0 then Some (NormalBranch 1 [range_check, Unit, Unit])
          else do {
            v \<leftarrow> u256_to_value r;
            Some (NormalBranch 0
              [range_check, v, Unit, Unit, Unit, Unit, Unit, Unit, Unit, Unit]) }) }"

definition eval_u256_is_zero :: "val list \<Rightarrow> eval_action option" where
  "eval_u256_is_zero args =
    do {
      v \<leftarrow> args1 args;
      fields \<leftarrow> as_struct v;
      (lo, hi) \<leftarrow> as_u128_pair fields;
      Some (if lo = 0 \<and> hi = 0 then NormalBranch 0 [] else NormalBranch 1 [Struct fields]) }"

definition big_udiv :: "nat \<Rightarrow> nat \<Rightarrow> nat option" where
  "big_udiv a b = (if b = 0 then None else Some (a div b))"

definition big_urem :: "nat \<Rightarrow> nat \<Rightarrow> nat option" where
  "big_urem a b = (if b = 0 then None else Some (a mod b))"

definition eval_u256_divmod :: "val list \<Rightarrow> eval_action option" where
  "eval_u256_divmod args =
    do {
      (range_check, l, r) \<leftarrow> args3 args;
      as_unit range_check;
      l \<leftarrow> as_struct l;
      r \<leftarrow> as_struct r;
      (lhs_lo, lhs_hi) \<leftarrow> as_u128_pair l;
      let lhs = u256_to_biguint lhs_lo lhs_hi;
      (rhs_lo, rhs_hi) \<leftarrow> as_u128_pair r;
      let rhs = u256_to_biguint rhs_lo rhs_hi;
      quo \<leftarrow> big_udiv lhs rhs;
      modulo \<leftarrow> big_urem lhs rhs;
      q \<leftarrow> u256_to_value quo;
      m \<leftarrow> u256_to_value modulo;
      Some (NormalBranch 0 [range_check, q, m, Unit]) }"

definition eval_u256_square_root :: "externs \<Rightarrow> val list \<Rightarrow> eval_action option" where
  "eval_u256_square_root E args =
    do {
      (range_check, l) \<leftarrow> args2 args;
      as_unit range_check;
      l \<leftarrow> as_struct l;
      (lhs_lo, lhs_hi) \<leftarrow> as_u128_pair l;
      let lhs = u256_to_biguint lhs_lo lhs_hi;
      r \<leftarrow> ex_sqrt E (int lhs);
      sqrt_lo \<leftarrow> to_unsigned r;
      Some (NormalBranch 0 [range_check, U128 sqrt_lo]) }"

definition eval_uint256 :: "externs \<Rightarrow> uint256_lib \<Rightarrow> val list \<Rightarrow> eval_action option" where
  "eval_uint256 E selector args =
    (case selector of
      Uint256IsZero \<Rightarrow> eval_u256_is_zero args
    | Uint256Divmod \<Rightarrow> eval_u256_divmod args
    | Uint256SquareRoot \<Rightarrow> eval_u256_square_root E args
    | Uint256InvModN \<Rightarrow> eval_inv_mod_n E args)"

section \<open>512-bit integers\<close>

definition eval_u512_divmod :: "val list \<Rightarrow> eval_action option" where
  "eval_u512_divmod args =
    do {
      (range_check, l, r) \<leftarrow> args3 args;
      as_unit range_check;
      l \<leftarrow> as_struct l;
      r \<leftarrow> as_struct r;
      (v0, v1, v2, v3) \<leftarrow> args4 l;
      div_0 \<leftarrow> as_u128 v0;
      div_1 \<leftarrow> as_u128 v1;
      div_2 \<leftarrow> as_u128 v2;
      div_3 \<leftarrow> as_u128 v3;
      let lhs = (u256_to_biguint div_0 div_1 OR push_bit 256 (u256_to_biguint div_2 div_3));
      (divisor_0, divisor_1) \<leftarrow> as_u128_pair r;
      let rhs = u256_to_biguint divisor_0 divisor_1;
      quo \<leftarrow> big_udiv lhs rhs;
      modulo \<leftarrow> big_urem lhs rhs;
      q \<leftarrow> u516_to_value quo;
      m \<leftarrow> u256_to_value modulo;
      Some (NormalBranch 0 [range_check, q, m, Unit, Unit, Unit, Unit, Unit]) }"

definition eval_uint512 :: "uint512_lib \<Rightarrow> val list \<Rightarrow> eval_action option" where
  "eval_uint512 selector args =
    (case selector of Uint512DivModU256 \<Rightarrow> eval_u512_divmod args)"

section \<open>Limbs and numbers\<close>

text \<open>
  Specification: the struct of 128-bit limbs, lowest first, that represents a number below
  \<open>2 ^ (128 * k)\<close>.
\<close>

fun limbs :: "nat \<Rightarrow> nat \<Rightarrow> u128 list" where
  "limbs 0 n = []"
| "limbs (Suc k) n = of_nat (n mod 2 ^ 128) # limbs k (n div 2 ^ 128)"

fun limbs_value :: "u128 list \<Rightarrow> nat" where
  "limbs_value [] = 0"
| "limbs_value (x # xs) = unat x + 2 ^ 128 * limbs_value xs"

definition limb_struct :: "nat \<Rightarrow> nat \<Rightarrow> val" where
  "limb_struct k n = Struct (map U128 (limbs k n))"

lemma unat_u128_less: "unat (x :: u128) < 2 ^ 128"
  using unsigned_less [of x] by simp

lemma limbs_of_value: "limbs (length xs) (limbs_value xs) = xs"
proof (induction xs)
  case (Cons x xs)
  have "(unat x + 2 ^ 128 * limbs_value xs) mod 2 ^ 128 = unat x"
    "(unat x + 2 ^ 128 * limbs_value xs) div 2 ^ 128 = limbs_value xs"
    using unat_u128_less [of x] by simp_all
  with Cons show ?case by simp
qed simp

lemma value_of_limbs: "n < 2 ^ (128 * k) \<Longrightarrow> limbs_value (limbs k n) = n"
proof (induction k arbitrary: n)
  case (Suc k)
  have "n div 2 ^ 128 < 2 ^ (128 * k)"
    using Suc.prems by (simp add: div_less_iff_less_mult power_add)
  with Suc.IH have "limbs_value (limbs k (n div 2 ^ 128)) = n div 2 ^ 128" by blast
  moreover have "unat (of_nat (n mod 2 ^ 128) :: u128) = n mod 2 ^ 128"
    by (simp add: unat_of_nat)
  ultimately show ?case by simp
qed simp

lemma limbs_value_less: "limbs_value xs < 2 ^ (128 * length xs)"
proof (induction xs)
  case (Cons x xs)
  have "unat x + 2 ^ 128 * limbs_value xs < 2 ^ 128 + 2 ^ 128 * limbs_value xs"
    using unat_u128_less [of x] by simp
  also have "\<dots> = 2 ^ 128 * Suc (limbs_value xs)" by simp
  also have "\<dots> \<le> 2 ^ 128 * 2 ^ (128 * length xs)"
    using Cons by (intro mult_le_mono2) simp
  finally show ?case by (simp add: power_add)
qed simp

lemma u256_biguint_limbs: "u256_to_biguint lo hi = limbs_value [lo, hi]"
  by (simp add: u256_to_biguint_def push_bit_eq_mult mult.commute)

lemma u128_of_nat_small: "n < 2 ^ 128 \<Longrightarrow> u128_of_nat n = Some (of_nat n)"
  by (simp add: u128_of_nat_def to_unsigned_def)

lemma and_mask_nat: "n AND (2 ^ k - 1) = n mod 2 ^ k" for n :: nat
  using take_bit_eq_mask [of k n] by (simp add: mask_eq_exp_minus_1 take_bit_eq_mod)

lemma u256_value_limbs: "n < 2 ^ 256 \<Longrightarrow> u256_to_value n = Some (limb_struct 2 n)"
  unfolding u256_to_value_def and_mask_nat drop_bit_eq_div
  by (simp add: u128_of_nat_small limb_struct_def numeral_2_eq_2 div_less_iff_less_mult)

lemma u516_value_limbs: "n < 2 ^ 512 \<Longrightarrow> u516_to_value n = Some (limb_struct 4 n)"
proof -
  assume n: "n < 2 ^ 512"
  have four: "(4 :: nat) = Suc (Suc (Suc (Suc 0)))" by simp
  have split: "n div 2 ^ 256 = n div 2 ^ 128 div 2 ^ 128"
    "n mod 2 ^ 256 mod 2 ^ 128 = n mod 2 ^ 128"
    "n mod 2 ^ 256 div 2 ^ 128 = n div 2 ^ 128 mod 2 ^ 128"
    by (simp_all add: div_mult2_eq [symmetric] mod_mod_cancel mod_mult2_eq [of n "2 ^ 128" "2 ^ 128", simplified])
  have "n div 2 ^ 128 div 2 ^ 128 div 2 ^ 128 < 2 ^ 128"
    using n by (simp add: div_mult2_eq [symmetric] div_less_iff_less_mult)
  then show ?thesis
    unfolding u516_to_value_def and_mask_nat drop_bit_eq_div split Let_def
    by (simp add: u128_of_nat_small limb_struct_def four)
qed

section \<open>What the evaluators compute\<close>

lemma as_u128_pair_U128 [simp]: "as_u128_pair [U128 lo, U128 hi] = Some (lo, hi)"
  by (simp add: as_u128_pair_def)

lemma limbs_value_2: "limbs_value [lo, hi] < 2 ^ 256"
  using limbs_value_less [of "[lo, hi]"] by simp

lemma limbs_value_4: "limbs_value [a, b, c, d] < 2 ^ 512"
  using limbs_value_less [of "[a, b, c, d]"] by simp

lemma limb_struct_value: "length xs = k \<Longrightarrow> limb_struct k (limbs_value xs) = Struct (map U128 xs)"
  using limbs_of_value [of xs] by (simp add: limb_struct_def)

text \<open>
  The number of two 128-bit limbs converts back to the struct of exactly those limbs, and
  the number of four limbs likewise: neither conversion can panic or mix the limbs up.
\<close>

theorem u256_value_roundtrip:
  "u256_to_value (u256_to_biguint lo hi) = Some (Struct [U128 lo, U128 hi]) \<and>
   u516_to_value (limbs_value [lo, hi, lo', hi']) =
     Some (Struct [U128 lo, U128 hi, U128 lo', U128 hi'])"
  unfolding u256_biguint_limbs u256_value_limbs [OF limbs_value_2]
    u516_value_limbs [OF limbs_value_4]
  using limb_struct_value [of "[lo, hi]" 2] limb_struct_value [of "[lo, hi, lo', hi']" 4]
  by (simp del: limbs_value.simps)

text \<open>
  256-bit division returns the Euclidean quotient and remainder as limbs, and panics only
  on a zero divisor.
\<close>

theorem eval_u256_divmod_euclid:
  fixes n0 n1 m0 m1 :: u128
  defines "n \<equiv> limbs_value [n0, n1]" and "m \<equiv> limbs_value [m0, m1]"
  shows "eval_u256_divmod [Unit, Struct [U128 n0, U128 n1], Struct [U128 m0, U128 m1]] =
    (if m = 0 then None
     else Some (NormalBranch 0 [Unit, limb_struct 2 (n div m), limb_struct 2 (n mod m), Unit]))"
proof -
  have "n div m < 2 ^ 256" "n mod m < 2 ^ 256"
    using limbs_value_2 [of n0 n1] div_le_dividend [of n m] mod_less_eq_dividend [of n m]
    unfolding n_def m_def by (blast intro: le_less_trans)+
  then show ?thesis
    by (simp add: eval_u256_divmod_def u256_biguint_limbs big_udiv_def big_urem_def Let_def
        u256_value_limbs flip: n_def m_def del: limbs_value.simps)
qed

text \<open>
  Division of a 512-bit number by a 256-bit one returns the Euclidean quotient in four
  limbs and the remainder in two, and panics only on a zero divisor.
\<close>

theorem eval_u512_divmod_euclid:
  fixes n0 n1 n2 n3 m0 m1 :: u128
  defines "n \<equiv> limbs_value [n0, n1, n2, n3]" and "m \<equiv> limbs_value [m0, m1]"
  shows "eval_u512_divmod
      [Unit, Struct [U128 n0, U128 n1, U128 n2, U128 n3], Struct [U128 m0, U128 m1]] =
    (if m = 0 then None
     else Some (NormalBranch 0 [Unit, limb_struct 4 (n div m), limb_struct 2 (n mod m),
       Unit, Unit, Unit, Unit, Unit]))"
proof -
  have "limbs_value [n0, n1] OR push_bit 256 (limbs_value [n2, n3]) =
      limbs_value [n0, n1] + push_bit 256 (limbs_value [n2, n3])"
  proof (rule disjunctive_add [symmetric])
    fix k
    have "take_bit 256 (limbs_value [n0, n1]) = limbs_value [n0, n1]"
      using limbs_value_2 [of n0 n1] by (simp add: take_bit_nat_eq_self_iff)
    then have "bit (limbs_value [n0, n1]) k \<Longrightarrow> k < 256"
      by (metis bit_take_bit_iff)
    then show "\<not> bit (limbs_value [n0, n1]) k \<or> \<not> bit (push_bit 256 (limbs_value [n2, n3])) k"
      by (auto simp: bit_push_bit_iff)
  qed
  then have n: "u256_to_biguint n0 n1 OR push_bit 256 (u256_to_biguint n2 n3) = n"
    unfolding u256_biguint_limbs by (simp add: push_bit_eq_mult n_def)
  have "n div m < 2 ^ 512" "n mod m < 2 ^ 256" if "m \<noteq> 0"
  proof -
    show "n div m < 2 ^ 512"
      using limbs_value_4 [of n0 n1 n2 n3] div_le_dividend [of n m]
      unfolding n_def by (blast intro: le_less_trans)
    show "n mod m < 2 ^ 256"
      using that limbs_value_2 [of m0 m1] mod_less_divisor [of m n]
      unfolding m_def by (meson gr0I less_trans)
  qed
  moreover have "u256_to_biguint m0 m1 = m" by (simp add: u256_biguint_limbs m_def)
  ultimately show ?thesis
    by (simp add: eval_u512_divmod_def n big_udiv_def big_urem_def Let_def
        u256_value_limbs u516_value_limbs)
qed

text \<open>
  The square root of a 256-bit number is the greatest number whose square is not above
  it, and always fits the 128 bits it is returned in.
\<close>

theorem eval_u256_square_root_floor:
  assumes "sqrt_ok E"
  shows "\<exists>r. eval_u256_square_root E [Unit, Struct [U128 lo, U128 hi]] =
      Some (NormalBranch 0 [Unit, U128 r]) \<and>
    unat r * unat r \<le> limbs_value [lo, hi] \<and>
    limbs_value [lo, hi] < (unat r + 1) * (unat r + 1)"
proof -
  define n where "n = limbs_value [lo, hi]"
  define s where "s = isqrt n"
  note s = isqrt_bounds [of n, folded s_def]
  have "s < 2 ^ 128"
  proof (rule ccontr)
    assume "\<not> s < 2 ^ 128"
    then have "2 ^ 128 * 2 ^ 128 \<le> s * s" by (intro mult_le_mono) simp_all
    then have "2 ^ 128 * 2 ^ 128 \<le> n" using s by linarith
    moreover have "n < 2 ^ 256" unfolding n_def by (rule limbs_value_2)
    ultimately show False by simp
  qed
  then have u: "to_unsigned (int s) = Some (of_nat s :: u128)" "unat (of_nat s :: u128) = s"
    by (simp_all add: to_unsigned_def unat_of_nat)
  have "int (s * s) \<le> int n" "int n < int ((s + 1) * (s + 1))" using s by (simp_all only: of_nat_le_iff of_nat_less_iff)
  then have "ex_sqrt E (int n) = Some (int s)"
    using assms unfolding sqrt_ok_def by (simp add: algebra_simps)
  then have "eval_u256_square_root E [Unit, Struct [U128 lo, U128 hi]] =
      Some (NormalBranch 0 [Unit, U128 (of_nat s)])"
    by (simp add: eval_u256_square_root_def u256_biguint_limbs u flip: n_def del: limbs_value.simps)
  with s u(2) show ?thesis unfolding n_def [symmetric] by auto
qed

lemma eval_u256_square_root_floor_witness:
  "\<exists>r. eval_u256_square_root ref_externs [Unit, Struct [U128 10, U128 1]] =
      Some (NormalBranch 0 [Unit, U128 r]) \<and>
    unat r * unat r \<le> limbs_value [10, 1] \<and> limbs_value [10, 1] < (unat r + 1) * (unat r + 1)"
  using eval_u256_square_root_floor [where E = ref_externs and lo = 10 and hi = 1] ref_sqrt_ok
  by blast

text \<open>
  The inverse of a 256-bit number modulo \<open>m > 1\<close>: branch 0 returns a number
  below \<open>m\<close> whose product with \<open>x\<close> is 1 modulo \<open>m\<close>, and branch 1 is taken only when there is none.
\<close>

theorem eval_inv_mod_n_inverts:
  fixes x_lo x_hi m_lo m_hi :: u128
  assumes "modinv_ok E"
  defines "x \<equiv> limbs_value [x_lo, x_hi]" and "m \<equiv> limbs_value [m_lo, m_hi]"
  assumes "1 < m"
  shows "(\<exists>r < m. x * r mod m = 1 \<and>
      eval_inv_mod_n E [Unit, Struct [U128 x_lo, U128 x_hi], Struct [U128 m_lo, U128 m_hi]] =
        Some (NormalBranch 0 [Unit, limb_struct 2 r, Unit, Unit, Unit, Unit, Unit, Unit, Unit, Unit])) \<or>
    (\<forall>r. x * r mod m \<noteq> 1) \<and>
      eval_inv_mod_n E [Unit, Struct [U128 x_lo, U128 x_hi], Struct [U128 m_lo, U128 m_hi]] =
        Some (NormalBranch 1 [Unit, Unit, Unit])"
proof -
  have one: "1 mod m = 1" using \<open>1 < m\<close> by simp
  obtain res where res: "ex_modinv E x m = Some res"
    and ok: "case res of Some r \<Rightarrow> r < m \<and> x * r mod m = 1 mod m | None \<Rightarrow> \<forall>r. x * r mod m \<noteq> 1 mod m"
    using assms(1) \<open>1 < m\<close> unfolding modinv_ok_def by (meson less_trans zero_less_one)
  have u: "u256_to_biguint x_lo x_hi = x" "u256_to_biguint m_lo m_hi = m"
    by (simp_all add: u256_biguint_limbs x_def m_def)
  show ?thesis
  proof (cases res)
    case None
    with ok res one show ?thesis by (simp add: eval_inv_mod_n_def u)
  next
    case (Some r)
    with ok one have r: "r < m" "x * r mod m = 1" by simp_all
    then have "r \<noteq> 0" by (intro notI) simp
    moreover have "r < 2 ^ 256"
      using r(1) limbs_value_2 [of m_lo m_hi] unfolding m_def by (rule less_trans)
    ultimately show ?thesis
      using r res Some by (auto simp: eval_inv_mod_n_def u u256_value_limbs)
  qed
qed

lemma eval_inv_mod_n_inverts_witness:
  "\<exists>r < 7. 3 * r mod 7 = 1 \<and>
    eval_inv_mod_n ref_externs [Unit, Struct [U128 3, U128 0], Struct [U128 7, U128 0]] =
      Some (NormalBranch 0 [Unit, limb_struct 2 r, Unit, Unit, Unit, Unit, Unit, Unit, Unit, Unit])"
proof -
  have "3 * (5 :: nat) mod 7 = 1" by simp
  then have "\<not> (\<forall>r :: nat. 3 * r mod 7 \<noteq> 1)" by blast
  then show ?thesis
    using eval_inv_mod_n_inverts [where E = ref_externs and x_lo = 3 and x_hi = 0 and m_lo = 7 and m_hi = 0]
      ref_modinv_ok by auto
qed

end
