(* ===== verification/FeltOps.thy ===== *)
theory FeltOps
  imports Sample Externs
begin

text \<open>
  \<open>debug_utils/sierra-emu/src/vm/felt252.rs\<close> and \<open>vm/bytes31.rs\<close>: the field libfuncs and
  the 31-byte strings, which are field elements below \<open>2 ^ 248\<close>.
\<close>

section \<open>Field elements\<close>

definition eval_felt_operation :: "externs \<Rightarrow> felt252_lib \<Rightarrow> val list \<Rightarrow> felt option" where
  "eval_felt_operation E info args =
    (case info of
      FeltBinaryWithVar op \<Rightarrow>
        do {
          (a, b) \<leftarrow> args2 args;
          lhs \<leftarrow> as_felt a;
          rhs \<leftarrow> as_felt b;
          (case op of
            FeltAdd \<Rightarrow> Some (lhs + rhs)
          | FeltSub \<Rightarrow> Some (lhs - rhs)
          | FeltMul \<Rightarrow> Some (lhs * rhs)
          | FeltDiv \<Rightarrow> if rhs = 0 then None else Some (ex_field_div E lhs rhs)) }
    | _ \<Rightarrow> None)"

definition eval_felt_const :: "int \<Rightarrow> val list \<Rightarrow> eval_action option" where
  "eval_felt_const c args = Some (NormalBranch 0 [Felt (felt_of_int c)])"

definition eval_felt_is_zero :: "val list \<Rightarrow> eval_action option" where
  "eval_felt_is_zero args =
    do {
      v \<leftarrow> args1 args;
      f \<leftarrow> as_felt v;
      Some (if f = 0 then NormalBranch 0 [] else NormalBranch 1 [Felt f]) }"

definition eval_felt252 :: "externs \<Rightarrow> felt252_lib \<Rightarrow> val list \<Rightarrow> eval_action option" where
  "eval_felt252 E selector args =
    (case selector of
      FeltConst c \<Rightarrow> eval_felt_const c args
    | FeltIsZero \<Rightarrow> eval_felt_is_zero args
    | _ \<Rightarrow> do { res \<leftarrow> eval_felt_operation E selector args; Some (NormalBranch 0 [Felt res]) })"

section \<open>31-byte strings\<close>

definition eval_bytes31_const :: "int \<Rightarrow> val list \<Rightarrow> eval_action option" where
  "eval_bytes31_const c args = Some (NormalBranch 0 [Bytes31 (felt_of_int c)])"

definition eval_bytes31_from_felt :: "val list \<Rightarrow> eval_action option" where
  "eval_bytes31_from_felt args =
    do {
      (range_check, v) \<leftarrow> args2 args;
      as_unit range_check;
      f \<leftarrow> as_felt v;
      let max = felt_of_int (2 ^ 248 - 1);
      Some (if f \<le> max then NormalBranch 0 [range_check, Bytes31 f]
            else NormalBranch 1 [range_check]) }"

definition eval_bytes31_to_felt252 :: "val list \<Rightarrow> eval_action option" where
  "eval_bytes31_to_felt252 args =
    do { v \<leftarrow> args1 args; f \<leftarrow> as_bytes31 v; Some (NormalBranch 0 [Felt f]) }"

definition eval_bytes31 :: "bytes31_lib \<Rightarrow> val list \<Rightarrow> eval_action option" where
  "eval_bytes31 selector args =
    (case selector of
      Bytes31Const c \<Rightarrow> eval_bytes31_const c args
    | Bytes31ToFelt252 \<Rightarrow> eval_bytes31_to_felt252 args
    | Bytes31TryFromFelt252 \<Rightarrow> eval_bytes31_from_felt args)"

section \<open>What the evaluators compute\<close>

text \<open>
  Field addition, subtraction and multiplication are arithmetic modulo the prime on any
  integers the operands stand for; division undoes multiplication by a non-zero divisor and
  panics on zero.
\<close>

theorem eval_felt252_arith:
  assumes "field_div_ok E (felt_of_int a) (felt_of_int b)"
  shows "eval_felt252 E (FeltBinaryWithVar FeltAdd) [Felt (felt_of_int a), Felt (felt_of_int b)] =
      Some (NormalBranch 0 [Felt (felt_of_int (a + b))]) \<and>
    eval_felt252 E (FeltBinaryWithVar FeltSub) [Felt (felt_of_int a), Felt (felt_of_int b)] =
      Some (NormalBranch 0 [Felt (felt_of_int (a - b))]) \<and>
    eval_felt252 E (FeltBinaryWithVar FeltMul) [Felt (felt_of_int a), Felt (felt_of_int b)] =
      Some (NormalBranch 0 [Felt (felt_of_int (a * b))]) \<and>
    (if b mod PRIME = 0
     then eval_felt252 E (FeltBinaryWithVar FeltDiv) [Felt (felt_of_int a), Felt (felt_of_int b)] = None
     else \<exists>q. eval_felt252 E (FeltBinaryWithVar FeltDiv) [Felt (felt_of_int a), Felt (felt_of_int b)] =
         Some (NormalBranch 0 [Felt q]) \<and>
       eval_felt252 E (FeltBinaryWithVar FeltMul) [Felt q, Felt (felt_of_int b)] =
         Some (NormalBranch 0 [Felt (felt_of_int a)]))"
proof -
  have "felt_of_int b = 0 \<longleftrightarrow> b mod PRIME = 0" by (simp add: zero_felt_def)
  then show ?thesis
    using assms
    by (simp add: eval_felt252_def eval_felt_operation_def felt_of_int_hom field_div_ok_def)
qed

lemma eval_felt252_arith_witness:
  "eval_felt252 ref_externs (FeltBinaryWithVar FeltSub) [Felt (felt_of_int 3), Felt (felt_of_int 1)] =
    Some (NormalBranch 0 [Felt (felt_of_int 2)])"
proof -
  have "field_div_ok ref_externs (felt_of_int 3) (felt_of_int 1)"
    by (simp add: field_div_ok_def ref_field_div_def one_felt_def [symmetric])
  from eval_felt252_arith [OF this] show ?thesis by simp
qed

text \<open>
  A field element converts to a 31-byte string exactly when it is below \<open>2 ^ 248\<close>, and
  converting the string back gives the element.
\<close>

theorem bytes31_roundtrip:
  "if felt_int f < 2 ^ 248
   then eval_bytes31 Bytes31TryFromFelt252 [Unit, Felt f] = Some (NormalBranch 0 [Unit, Bytes31 f]) \<and>
     eval_bytes31 Bytes31ToFelt252 [Bytes31 f] = Some (NormalBranch 0 [Felt f])
   else eval_bytes31 Bytes31TryFromFelt252 [Unit, Felt f] = Some (NormalBranch 1 [Unit])"
proof -
  define m where "m = felt_of_int (2 ^ 248 - 1)"
  have "felt_int m = 2 ^ 248 - 1" by (simp add: m_def PRIME_def)
  then have "f \<le> m \<longleftrightarrow> felt_int f < 2 ^ 248" unfolding less_eq_felt_def by linarith
  then show ?thesis
    unfolding eval_bytes31_def eval_bytes31_from_felt_def eval_bytes31_to_felt252_def
      m_def [symmetric]
    by simp
qed

end
