(* ===== verification/ArrayOps.thy ===== *)
theory ArrayOps
  imports Sample Externs
begin

text \<open>
  \<open>debug_utils/sierra-emu/src/vm/array.rs\<close>. An array value is a list tagged with its
  element type; the lemmas describe every operation as the operation on the list.
\<close>

section \<open>Evaluators\<close>

definition eval_span_from_tuple :: "registry \<Rightarrow> signature \<Rightarrow> val list \<Rightarrow> eval_action option" where
  "eval_span_from_tuple R sg args =
    do {
      v \<leftarrow> args1 args;
      data \<leftarrow> as_struct v;
      t \<leftarrow> branch_ty sg 0 0;
      t \<leftarrow> find_real_type R t;
      e \<leftarrow> get_array_ty R t;
      Some (NormalBranch 0 [Array e data]) }"

definition eval_tuple_from_span :: "registry \<Rightarrow> type_id \<Rightarrow> val list \<Rightarrow> eval_action option" where
  "eval_tuple_from_span R t args =
    do {
      v \<leftarrow> args1 args;
      (_, data) \<leftarrow> as_array v;
      members \<leftarrow> get_struct_ty R t;
      let tuple_len = length members;
      Some (if length data = tuple_len then NormalBranch 0 [Struct data] else NormalBranch 1 []) }"

definition eval_array_new :: "registry \<Rightarrow> signature \<Rightarrow> val list \<Rightarrow> eval_action option" where
  "eval_array_new R sg args =
    do {
      args0 args;
      t \<leftarrow> branch_ty sg 0 0;
      e \<leftarrow> get_array_ty R t;
      Some (NormalBranch 0 [Array e []]) }"

definition eval_append :: "registry \<Rightarrow> signature \<Rightarrow> val list \<Rightarrow> eval_action option" where
  "eval_append R sg args =
    do {
      (v, item) \<leftarrow> args2 args;
      (ty, data) \<leftarrow> as_array v;
      p \<leftarrow> param_ty sg 1;
      assert_that (p = ty);
      ok \<leftarrow> value_is R item ty;
      assert_that ok;
      Some (NormalBranch 0 [Array ty (data @ [item])]) }"

definition eval_array_get :: "val list \<Rightarrow> eval_action option" where
  "eval_array_get args =
    do {
      (range_check, v, i) \<leftarrow> args3 args;
      as_unit range_check;
      (_, data) \<leftarrow> as_array v;
      index \<leftarrow> as_u32 i;
      Some (case nth_opt data (unat index) of
          Some x \<Rightarrow> NormalBranch 0 [range_check, x]
        | None \<Rightarrow> NormalBranch 1 [range_check]) }"

text \<open>\<open>data.get(a..b)\<close>\<close>

definition get_range :: "'a list \<Rightarrow> nat \<Rightarrow> nat \<Rightarrow> 'a list option" where
  "get_range xs a b = (if a \<le> b \<and> b \<le> length xs then Some (take (b - a) (drop a xs)) else None)"

definition eval_slice :: "val list \<Rightarrow> eval_action option" where
  "eval_slice args =
    do {
      (range_check, v, s, l) \<leftarrow> args4 args;
      as_unit range_check;
      (ty, data) \<leftarrow> as_array v;
      start \<leftarrow> as_u32 s;
      len \<leftarrow> as_u32 l;
      end' \<leftarrow> checked_add start len;
      Some (case get_range data (unat start) (unat end') of
          Some xs \<Rightarrow> NormalBranch 0 [range_check, Array ty xs]
        | None \<Rightarrow> NormalBranch 1 [range_check]) }"

definition eval_len :: "val list \<Rightarrow> eval_action option" where
  "eval_len args =
    do {
      v \<leftarrow> args1 args;
      (_, data) \<leftarrow> as_array v;
      array_len \<leftarrow> to_unsigned (int (length data));
      Some (NormalBranch 0 [U32 array_len]) }"

definition eval_array_pop_front :: "val list \<Rightarrow> eval_action option" where
  "eval_array_pop_front args =
    do {
      v \<leftarrow> args1 args;
      (ty, data) \<leftarrow> as_array v;
      (case data of
        x # new_data \<Rightarrow> Some (NormalBranch 0 [Array ty new_data, x])
      | [] \<Rightarrow> Some (NormalBranch 1 [Array ty data])) }"

definition eval_pop_front_consume :: "val list \<Rightarrow> eval_action option" where
  "eval_pop_front_consume args =
    do {
      v \<leftarrow> args1 args;
      (ty, data) \<leftarrow> as_array v;
      (case data of
        x # new_data \<Rightarrow> Some (NormalBranch 0 [Array ty new_data, x])
      | [] \<Rightarrow> Some (NormalBranch 1 [])) }"

definition eval_snapshot_pop_front :: "registry \<Rightarrow> type_id \<Rightarrow> val list \<Rightarrow> eval_action option" where
  "eval_snapshot_pop_front R t args =
    do {
      v \<leftarrow> args1 args;
      (ty, data) \<leftarrow> as_array v;
      (case data of
        x # new_data \<Rightarrow>
          do {
            ok \<leftarrow> value_is R x t;
            assert_that ok;
            Some (NormalBranch 0 [Array ty new_data, x]) }
      | [] \<Rightarrow> Some (NormalBranch 1 [Array ty data])) }"

definition eval_snapshot_pop_back :: "registry \<Rightarrow> type_id \<Rightarrow> val list \<Rightarrow> eval_action option" where
  "eval_snapshot_pop_back R t args =
    do {
      v \<leftarrow> args1 args;
      (ty, data) \<leftarrow> as_array v;
      (if data \<noteq> []
       then do {
         let new_data = drop (length data - 1) data;
         x \<leftarrow> nth_opt new_data 0;
         ok \<leftarrow> value_is R x t;
         assert_that ok;
         Some (NormalBranch 0 [Array ty (take (length data - 1) data), x]) }
       else Some (NormalBranch 1 [Array ty data])) }"

definition eval_snapshot_multi_pop_front ::
  "registry \<Rightarrow> type_id \<Rightarrow> val list \<Rightarrow> eval_action option" where
  "eval_snapshot_multi_pop_front R popped_ty args =
    do {
      (rangecheck, v) \<leftarrow> args2 args;
      (ty, data) \<leftarrow> as_array v;
      members \<leftarrow> get_struct_ty R popped_ty;
      let n = length members;
      (if n \<le> length data
       then do {
         let x = Struct (take n data);
         ok \<leftarrow> value_is R x popped_ty;
         assert_that ok;
         Some (NormalBranch 0 [rangecheck, Array ty (drop n data), x]) }
       else Some (NormalBranch 1 [rangecheck, Array ty data])) }"

definition eval_snapshot_multi_pop_back ::
  "registry \<Rightarrow> type_id \<Rightarrow> val list \<Rightarrow> eval_action option" where
  "eval_snapshot_multi_pop_back R popped_ty args =
    do {
      (rangecheck, v) \<leftarrow> args2 args;
      (ty, data) \<leftarrow> as_array v;
      members \<leftarrow> get_struct_ty R popped_ty;
      let n = length members;
      (if n \<le> length data
       then do {
         let x = Struct (drop (length data - n) data);
         ok \<leftarrow> value_is R x popped_ty;
         assert_that ok;
         Some (NormalBranch 0 [rangecheck, Array ty (take (length data - n) data), x]) }
       else Some (NormalBranch 1 [rangecheck, Array ty data])) }"

definition eval_array :: "registry \<Rightarrow> signature \<Rightarrow> array_lib \<Rightarrow> val list \<Rightarrow> eval_action option" where
  "eval_array R sg selector args =
    (case selector of
      ArrayNew \<Rightarrow> eval_array_new R sg args
    | ArraySpanFromTuple _ \<Rightarrow> eval_span_from_tuple R sg args
    | ArrayTupleFromSpan t \<Rightarrow> eval_tuple_from_span R t args
    | ArrayAppend _ \<Rightarrow> eval_append R sg args
    | ArrayPopFront _ \<Rightarrow> eval_array_pop_front args
    | ArrayPopFrontConsume _ \<Rightarrow> eval_pop_front_consume args
    | ArrayGet _ \<Rightarrow> eval_array_get args
    | ArraySlice _ \<Rightarrow> eval_slice args
    | ArrayLen _ \<Rightarrow> eval_len args
    | ArraySnapshotPopFront t \<Rightarrow> eval_snapshot_pop_front R t args
    | ArraySnapshotPopBack t \<Rightarrow> eval_snapshot_pop_back R t args
    | ArraySnapshotMultiPopFront t \<Rightarrow> eval_snapshot_multi_pop_front R t args
    | ArraySnapshotMultiPopBack t \<Rightarrow> eval_snapshot_multi_pop_back R t args)"

section \<open>Sequences\<close>

text \<open>
  Specification: an array whose elements all have the element type. The interpreter does not
  keep this by itself, \<open>Value::is\<close> only looks at the tag; the operations do.
\<close>

definition array_ok :: "registry \<Rightarrow> type_id \<Rightarrow> val list \<Rightarrow> bool" where
  "array_ok R e xs \<longleftrightarrow> (\<forall>x \<in> set xs. has_type R x e)"

lemma array_ok_simps [simp]:
  "array_ok R e []"
  "array_ok R e (x # xs) \<longleftrightarrow> has_type R x e \<and> array_ok R e xs"
  "array_ok R e (xs @ ys) \<longleftrightarrow> array_ok R e xs \<and> array_ok R e ys"
  by (auto simp: array_ok_def)

lemma array_ok_part: "array_ok R e xs \<Longrightarrow> array_ok R e (take n xs) \<and> array_ok R e (drop n xs)"
  by (auto simp: array_ok_def dest: in_set_takeD in_set_dropD)

lemma snapshot_pop_back_snoc:
  "eval_snapshot_pop_back R e [Array e (xs @ [x])] =
    do { ok \<leftarrow> value_is R x e; assert_that ok; Some (NormalBranch 0 [Array e xs, x]) }"
  by (simp add: eval_snapshot_pop_back_def)

text \<open>
  Arrays are sequences: appending puts a well-typed item at the back, popping takes items
  off the front (and off the back of a snapshot) in order, an empty array takes the other
  branch unchanged, and each operation keeps every element of the element type.
\<close>

theorem array_sequence:
  assumes "param_ty sg 1 = Some e" "array_ok R e xs" "has_type R x e"
  shows "eval_append R sg [Array e xs, x] = Some (NormalBranch 0 [Array e (xs @ [x])]) \<and>
    array_ok R e (xs @ [x]) \<and>
    eval_array_pop_front [Array e (x # xs)] = Some (NormalBranch 0 [Array e xs, x]) \<and>
    eval_snapshot_pop_front R e [Array e (x # xs)] = Some (NormalBranch 0 [Array e xs, x]) \<and>
    eval_snapshot_pop_back R e [Array e (xs @ [x])] = Some (NormalBranch 0 [Array e xs, x]) \<and>
    eval_array_pop_front [Array e []] = Some (NormalBranch 1 [Array e []]) \<and>
    eval_pop_front_consume [Array e []] = Some (NormalBranch 1 []) \<and>
    eval_snapshot_pop_back R e [Array e []] = Some (NormalBranch 1 [Array e []])"
  using assms
  by (simp add: eval_append_def eval_array_pop_front_def eval_snapshot_pop_front_def
      snapshot_pop_back_snoc eval_pop_front_consume_def eval_snapshot_pop_back_def [of _ _ "[Array e []]"])

lemma array_sequence_witness:
  "eval_append sample_registry (sg_of [13, 0] []) [Array 0 [Felt 1], Felt 0] =
    Some (NormalBranch 0 [Array 0 [Felt 1, Felt 0]])"
  using array_sequence [where R = sample_registry and sg = "sg_of [13, 0] []" and e = 0 and
      xs = "[Felt 1]" and x = "Felt 0"]
  by (simp add: value_is_unfold)

text \<open>
  Reading an element, the length and a slice agree with the list: an index in range gives
  the element and any other index the failure branch; a slice is the elements from its start
  on, and fails exactly when it runs past the end, provided its end is a 32-bit number.
\<close>

theorem array_lookup:
  assumes "length xs < 2 ^ 32" and "uint s + uint l < 2 ^ 32"
  shows "eval_array_get [Unit, Array e xs, U32 i] =
      Some (if unat i < length xs then NormalBranch 0 [Unit, xs ! unat i] else NormalBranch 1 [Unit]) \<and>
    eval_len [Array e xs] = Some (NormalBranch 0 [U32 (of_nat (length xs))]) \<and>
    eval_slice [Unit, Array e xs, U32 s, U32 l] =
      Some (if unat s + unat l \<le> length xs
            then NormalBranch 0 [Unit, Array e (take (unat l) (drop (unat s) xs))]
            else NormalBranch 1 [Unit])"
proof -
  from assms(2) obtain t where t: "checked_add s l = Some t" "uint t = uint s + uint l"
    by (auto simp: checked_add_def uint_word_ariths take_bit_eq_mod)
  then have "unat t = unat s + unat l"
    by (simp add: nat_add_distrib flip: nat_uint_eq)
  with t assms(1) show ?thesis
    by (auto simp: eval_array_get_def eval_len_def eval_slice_def get_range_def nth_opt_def
        to_unsigned_def)
qed

lemma array_lookup_witness:
  "eval_slice [Unit, Array 0 [Felt 0, Felt 1, Felt 2], U32 1, U32 2] =
    Some (NormalBranch 0 [Unit, Array 0 [Felt 1, Felt 2]])"
  using array_lookup [where xs = "[Felt 0, Felt 1, Felt 2]" and s = 1 and l = 2 and e = 0]
  by simp

text \<open>
  A slice whose end does not fit 32 bits panics instead of taking the failure branch.
\<close>

theorem eval_slice_overflow:
  assumes "2 ^ 32 \<le> uint s + uint l"
  shows "eval_slice [Unit, Array e xs, U32 s, U32 l] = None"
  using assms by (simp add: eval_slice_def checked_add_def)

lemma eval_slice_overflow_witness:
  "eval_slice [Unit, Array 0 [], U32 (- 1), U32 1] = None"
  using eval_slice_overflow [where s = "- 1" and l = 1 and e = 0 and xs = "[]"]
  by (simp add: uint_max_word)

text \<open>
  Popping several elements at once from the front or the back splits a well-typed array
  at that many elements and returns them, in order, as a struct of the requested type; with
  too few elements the array comes back unchanged on the other branch.
\<close>

theorem array_multi_pop:
  assumes "get_type R t = Some (StructT ms)" "length ms = length ys"
    and "has_type R (Struct ys) t" "length zs < length ms"
  shows "eval_snapshot_multi_pop_front R t [rc, Array e (ys @ xs)] =
      Some (NormalBranch 0 [rc, Array e xs, Struct ys]) \<and>
    eval_snapshot_multi_pop_back R t [rc, Array e (xs @ ys)] =
      Some (NormalBranch 0 [rc, Array e xs, Struct ys]) \<and>
    eval_snapshot_multi_pop_front R t [rc, Array e zs] = Some (NormalBranch 1 [rc, Array e zs]) \<and>
    eval_snapshot_multi_pop_back R t [rc, Array e zs] = Some (NormalBranch 1 [rc, Array e zs])"
proof -
  have "get_struct_ty R t = Some ms" using assms(1) by simp
  then show ?thesis
    using assms by (simp add: eval_snapshot_multi_pop_front_def eval_snapshot_multi_pop_back_def)
qed

lemma array_multi_pop_witness:
  "eval_snapshot_multi_pop_back sample_registry 32 [Unit, Array 0 [Felt 0, Felt 1, Felt 2]] =
    Some (NormalBranch 0 [Unit, Array 0 [Felt 0], Struct [Felt 1, Felt 2]])"
  using array_multi_pop [where R = sample_registry and t = 32 and ms = "[0, 0]" and
      ys = "[Felt 1, Felt 2]" and zs = "[]" and rc = Unit and e = 0 and xs = "[Felt 0]"]
  by (simp add: sample_types_def value_is_unfold)

text \<open>
  A struct of well-typed members becomes a span with the same elements, and the span
  becomes the same struct again; a span of another length does not.
\<close>

theorem tuple_span_roundtrip:
  assumes "branch_ty sg 0 0 = Some st" "find_real_type R st = Some at" "get_type R at = Some (ArrayT e)"
    and "get_type R t = Some (StructT ms)" "length xs = length ms"
  shows "eval_span_from_tuple R sg [Struct xs] = Some (NormalBranch 0 [Array e xs]) \<and>
    eval_tuple_from_span R t [Array e xs] = Some (NormalBranch 0 [Struct xs]) \<and>
    (length ys \<noteq> length ms \<longrightarrow> eval_tuple_from_span R t [Array e ys] = Some (NormalBranch 1 []))"
proof -
  have "get_struct_ty R t = Some ms" "get_array_ty R at = Some e" using assms by simp_all
  then show ?thesis
    using assms by (simp add: eval_span_from_tuple_def eval_tuple_from_span_def)
qed

lemma tuple_span_roundtrip_witness:
  "eval_span_from_tuple sample_registry (sg_of [] [[19]]) [Struct [Felt 0, Felt 1]] =
    Some (NormalBranch 0 [Array 0 [Felt 0, Felt 1]])"
  using tuple_span_roundtrip [where R = sample_registry and sg = "sg_of [] [[19]]" and st = 19 and
      at = 13 and e = 0 and t = 32 and ms = "[0, 0]" and xs = "[Felt 0, Felt 1]"]
  by (simp add: sample_types_def find_real_type_def)

end
