(* ===== verification/DataOps.thy ===== *)
theory DataOps
  imports Sample Externs
begin

text \<open>
  The libfuncs that move data without computing on it, all under
  \<open>debug_utils/sierra-emu/src/vm/\<close>: \<open>enum.rs\<close>, \<open>struct.rs\<close>, \<open>bool.rs\<close>, \<open>box.rs\<close>,
  \<open>nullable.rs\<close>, \<open>mem.rs\<close>, \<open>dup.rs\<close>, \<open>drop.rs\<close>, \<open>snapshot_take.rs\<close>, \<open>jump.rs\<close>,
  \<open>branch_align.rs\<close>, \<open>ap_tracking.rs\<close> and \<open>function_call.rs\<close>.
\<close>

section \<open>Enums\<close>

definition eval_enum_init :: "registry \<Rightarrow> signature \<Rightarrow> nat \<Rightarrow> nat \<Rightarrow> val list \<Rightarrow> eval_action option" where
  "eval_enum_init R sg n_variants index args =
    do {
      v \<leftarrow> args1 args;
      self_ty \<leftarrow> branch_ty sg 0 0;
      variants \<leftarrow> get_enum_ty R self_ty;
      assert_that (n_variants = length variants);
      assert_that (index < n_variants);
      vt \<leftarrow> nth_opt variants index;
      ok \<leftarrow> value_is R v vt;
      assert_that ok;
      Some (NormalBranch 0 [Enum self_ty index v]) }"

definition eval_from_bounded_int :: "signature \<Rightarrow> val list \<Rightarrow> eval_action option" where
  "eval_from_bounded_int sg args =
    do {
      v \<leftarrow> args1 args;
      (_, i) \<leftarrow> as_bounded v;
      self_ty \<leftarrow> branch_ty sg 0 0;
      index \<leftarrow> (to_unsigned i :: u64 option);
      Some (NormalBranch 0 [Enum self_ty (unat index) (Struct [])]) }"

definition eval_enum_match :: "registry \<Rightarrow> signature \<Rightarrow> val list \<Rightarrow> eval_action option" where
  "eval_enum_match R sg args =
    do {
      v \<leftarrow> args1 args;
      (self_ty, index, payload) \<leftarrow> as_enum v;
      p \<leftarrow> param_ty sg 0;
      assert_that (self_ty = p);
      t \<leftarrow> branch_ty sg index 0;
      ok \<leftarrow> value_is R payload t;
      assert_that ok;
      Some (NormalBranch index [payload]) }"

definition eval_snapshot_match :: "registry \<Rightarrow> signature \<Rightarrow> val list \<Rightarrow> eval_action option" where
  "eval_snapshot_match R sg args =
    do {
      v \<leftarrow> args1 args;
      (self_ty, index, payload) \<leftarrow> as_enum v;
      p \<leftarrow> param_ty sg 0;
      inner \<leftarrow> get_snapshot_ty R p;
      assert_that (inner = self_ty);
      t \<leftarrow> branch_ty sg index 0;
      ok \<leftarrow> value_is R payload t;
      assert_that ok;
      Some (NormalBranch index [payload]) }"

definition eval_enum :: "registry \<Rightarrow> signature \<Rightarrow> enum_lib \<Rightarrow> val list \<Rightarrow> eval_action option" where
  "eval_enum R sg selector args =
    (case selector of
      EnumInit n index \<Rightarrow> eval_enum_init R sg n index args
    | EnumFromBoundedInt \<Rightarrow> eval_from_bounded_int sg args
    | EnumMatch \<Rightarrow> eval_enum_match R sg args
    | EnumSnapshotMatch \<Rightarrow> eval_snapshot_match R sg args
    | EnumBoxedMatch \<Rightarrow> None)"

section \<open>Structs\<close>

definition eval_construct :: "registry \<Rightarrow> signature \<Rightarrow> val list \<Rightarrow> eval_action option" where
  "eval_construct R sg args =
    do {
      t \<leftarrow> branch_ty sg 0 0;
      members \<leftarrow> get_struct_ty R t;
      assert_that (length args = length members);
      ok \<leftarrow> values_are R args members;
      assert_that ok;
      Some (NormalBranch 0 [Struct args]) }"

definition eval_deconstruct :: "registry \<Rightarrow> signature \<Rightarrow> val list \<Rightarrow> eval_action option" where
  "eval_deconstruct R sg args =
    do {
      v \<leftarrow> args1 args;
      vs \<leftarrow> as_struct v;
      t \<leftarrow> param_ty sg 0;
      members \<leftarrow> get_struct_ty R t;
      assert_that (length vs = length members);
      ok \<leftarrow> values_are R vs members;
      assert_that ok;
      Some (NormalBranch 0 vs) }"

definition eval_snapshot_deconstruct :: "registry \<Rightarrow> signature \<Rightarrow> val list \<Rightarrow> eval_action option" where
  "eval_snapshot_deconstruct R sg args =
    do {
      v \<leftarrow> args1 args;
      vs \<leftarrow> as_struct v;
      p \<leftarrow> param_ty sg 0;
      snapshot_ty \<leftarrow> get_snapshot_ty R p;
      members \<leftarrow> get_struct_ty R snapshot_ty;
      assert_that (length vs = length members);
      ok \<leftarrow> values_are R vs members;
      assert_that ok;
      Some (NormalBranch 0 vs) }"

definition eval_struct :: "registry \<Rightarrow> signature \<Rightarrow> struct_lib \<Rightarrow> val list \<Rightarrow> eval_action option" where
  "eval_struct R sg selector args =
    (case selector of
      StructConstruct \<Rightarrow> eval_construct R sg args
    | StructDeconstruct \<Rightarrow> eval_deconstruct R sg args
    | StructSnapshotDeconstruct \<Rightarrow> eval_snapshot_deconstruct R sg args
    | StructBoxedDeconstruct \<Rightarrow> None)"

section \<open>Booleans\<close>

definition bool_index :: "bool \<Rightarrow> nat" where
  "bool_index b = (if b then 1 else 0)"

definition eval_and :: "val list \<Rightarrow> eval_action option" where
  "eval_and args =
    do {
      (a, b) \<leftarrow> args2 args;
      (self_ty, lhs, payload) \<leftarrow> as_enum a;
      (_, rhs, _) \<leftarrow> as_enum b;
      Some (NormalBranch 0 [Enum self_ty (bool_index (lhs \<noteq> 0 \<and> rhs \<noteq> 0)) payload]) }"

definition eval_not :: "val list \<Rightarrow> eval_action option" where
  "eval_not args =
    do {
      a \<leftarrow> args1 args;
      (self_ty, lhs, payload) \<leftarrow> as_enum a;
      Some (NormalBranch 0 [Enum self_ty (bool_index (lhs = 0)) payload]) }"

definition eval_xor :: "val list \<Rightarrow> eval_action option" where
  "eval_xor args =
    do {
      (a, b) \<leftarrow> args2 args;
      (self_ty, lhs, payload) \<leftarrow> as_enum a;
      (_, rhs, _) \<leftarrow> as_enum b;
      Some (NormalBranch 0 [Enum self_ty (bool_index ((lhs \<noteq> 0) \<noteq> (rhs \<noteq> 0))) payload]) }"

definition eval_or :: "val list \<Rightarrow> eval_action option" where
  "eval_or args =
    do {
      (a, b) \<leftarrow> args2 args;
      (self_ty, lhs, payload) \<leftarrow> as_enum a;
      (_, rhs, _) \<leftarrow> as_enum b;
      Some (NormalBranch 0 [Enum self_ty (bool_index (lhs \<noteq> 0 \<or> rhs \<noteq> 0)) payload]) }"

definition eval_bool_to_felt252 :: "val list \<Rightarrow> eval_action option" where
  "eval_bool_to_felt252 args =
    do {
      a \<leftarrow> args1 args;
      (_, lhs, _) \<leftarrow> as_enum a;
      Some (NormalBranch 0 [Felt (felt_of_int (int lhs))]) }"

definition eval_bool :: "bool_lib \<Rightarrow> val list \<Rightarrow> eval_action option" where
  "eval_bool selector args =
    (case selector of
      BoolAnd \<Rightarrow> eval_and args
    | BoolNot \<Rightarrow> eval_not args
    | BoolXor \<Rightarrow> eval_xor args
    | BoolOr \<Rightarrow> eval_or args
    | BoolToFelt252 \<Rightarrow> eval_bool_to_felt252 args)"

section \<open>Boxes, nullables and memory\<close>

text \<open>Boxes have no run-time representation: the three operations return their argument.\<close>

definition eval_unbox :: "val list \<Rightarrow> eval_action option" where
  "eval_unbox args = do { v \<leftarrow> args1 args; Some (NormalBranch 0 [v]) }"

definition eval_into_box :: "val list \<Rightarrow> eval_action option" where
  "eval_into_box args = do { v \<leftarrow> args1 args; Some (NormalBranch 0 [v]) }"

definition eval_box_forward_snapshot :: "val list \<Rightarrow> eval_action option" where
  "eval_box_forward_snapshot args = do { v \<leftarrow> args1 args; Some (NormalBranch 0 [v]) }"

definition eval_box :: "box_lib \<Rightarrow> val list \<Rightarrow> eval_action option" where
  "eval_box selector args =
    (case selector of
      BoxInto \<Rightarrow> eval_into_box args
    | BoxLocalInto \<Rightarrow> eval_into_box args
    | BoxUnbox \<Rightarrow> eval_unbox args
    | BoxForwardSnapshot \<Rightarrow> eval_box_forward_snapshot args)"

definition eval_null :: "val list \<Rightarrow> eval_action option" where
  "eval_null args = do { args0 args; Some (NormalBranch 0 [Null]) }"

definition eval_nullable_from_box :: "val list \<Rightarrow> eval_action option" where
  "eval_nullable_from_box args = do { v \<leftarrow> args1 args; Some (NormalBranch 0 [v]) }"

definition eval_match_nullable :: "val list \<Rightarrow> eval_action option" where
  "eval_match_nullable args =
    do {
      v \<leftarrow> args1 args;
      Some (if v = Null then NormalBranch 0 [] else NormalBranch 1 [v]) }"

definition eval_nullable_forward_snapshot :: "val list \<Rightarrow> eval_action option" where
  "eval_nullable_forward_snapshot args = do { v \<leftarrow> args1 args; Some (NormalBranch 0 [v]) }"

definition eval_nullable :: "nullable_lib \<Rightarrow> val list \<Rightarrow> eval_action option" where
  "eval_nullable selector args =
    (case selector of
      NullableNull \<Rightarrow> eval_null args
    | NullableFromBox \<Rightarrow> eval_nullable_from_box args
    | NullableMatch \<Rightarrow> eval_match_nullable args
    | NullableForwardSnapshot \<Rightarrow> eval_nullable_forward_snapshot args)"

definition eval_store_temp :: "val list \<Rightarrow> eval_action option" where
  "eval_store_temp args = do { v \<leftarrow> args1 args; Some (NormalBranch 0 [v]) }"

definition eval_store_local :: "registry \<Rightarrow> val list \<Rightarrow> eval_action option" where
  "eval_store_local R args =
    do {
      (u, v) \<leftarrow> args2 args;
      ty \<leftarrow> as_uninit u;
      ok \<leftarrow> value_is R v ty;
      assert_that ok;
      Some (NormalBranch 0 [v]) }"

definition eval_finalize_locals :: "val list \<Rightarrow> eval_action option" where
  "eval_finalize_locals args = do { args0 args; Some (NormalBranch 0 []) }"

definition eval_alloc_local :: "type_id \<Rightarrow> val list \<Rightarrow> eval_action option" where
  "eval_alloc_local ty args = do { args0 args; Some (NormalBranch 0 [Uninitialized ty]) }"

definition eval_rename :: "val list \<Rightarrow> eval_action option" where
  "eval_rename args = do { v \<leftarrow> args1 args; Some (NormalBranch 0 [v]) }"

definition eval_mem :: "registry \<Rightarrow> mem_lib \<Rightarrow> val list \<Rightarrow> eval_action option" where
  "eval_mem R selector args =
    (case selector of
      StoreTemp \<Rightarrow> eval_store_temp args
    | StoreLocal \<Rightarrow> eval_store_local R args
    | FinalizeLocals \<Rightarrow> eval_finalize_locals args
    | AllocLocal ty \<Rightarrow> eval_alloc_local ty args
    | MemRename \<Rightarrow> eval_rename args)"

section \<open>Copies, drops and jumps\<close>

definition eval_dup :: "val list \<Rightarrow> eval_action option" where
  "eval_dup args = do { v \<leftarrow> args1 args; Some (NormalBranch 0 [v, v]) }"

definition eval_drop :: "val list \<Rightarrow> eval_action option" where
  "eval_drop args = do { _ \<leftarrow> args1 args; Some (NormalBranch 0 []) }"

definition eval_snapshot_take :: "val list \<Rightarrow> eval_action option" where
  "eval_snapshot_take args = do { v \<leftarrow> args1 args; Some (NormalBranch 0 [v, v]) }"

definition eval_jump :: "val list \<Rightarrow> eval_action option" where
  "eval_jump args = do { args0 args; Some (NormalBranch 0 []) }"

definition eval_branch_align :: "val list \<Rightarrow> eval_action option" where
  "eval_branch_align args = do { args0 args; Some (NormalBranch 0 []) }"

definition eval_revoke :: "val list \<Rightarrow> eval_action option" where
  "eval_revoke args = do { args0 args; Some (NormalBranch 0 []) }"

definition eval_enable :: "val list \<Rightarrow> eval_action option" where
  "eval_enable args = do { args0 args; Some (NormalBranch 0 []) }"

definition eval_disable :: "val list \<Rightarrow> eval_action option" where
  "eval_disable args = do { args0 args; Some (NormalBranch 0 []) }"

definition eval_ap_tracking :: "ap_tracking_lib \<Rightarrow> val list \<Rightarrow> eval_action option" where
  "eval_ap_tracking selector args =
    (case selector of
      ApRevoke \<Rightarrow> eval_revoke args
    | ApEnable \<Rightarrow> eval_enable args
    | ApDisable \<Rightarrow> eval_disable args)"

definition eval_unwrap_non_zero :: "val list \<Rightarrow> eval_action option" where
  "eval_unwrap_non_zero args = do { v \<leftarrow> args1 args; Some (NormalBranch 0 [v]) }"

section \<open>Function calls\<close>

definition eval_function_call :: "registry \<Rightarrow> sierra_function \<Rightarrow> val list \<Rightarrow> eval_action option" where
  "eval_function_call R f args =
    do {
      assert_that (length args = length (fn_params f));
      ok \<leftarrow> values_are R args (map snd (fn_params f));
      assert_that ok;
      Some (FunctionCall (fn_id f) args) }"

text \<open>\<open>args.len() - 1\<close> underflows on an empty list; \<open>zip\<close> stops at the last parameter.\<close>

definition eval_coupon_call :: "registry \<Rightarrow> sierra_function \<Rightarrow> val list \<Rightarrow> eval_action option" where
  "eval_coupon_call R f args =
    do {
      assert_that (0 < length args);
      assert_that (length args - 1 = length (fn_params f));
      ok \<leftarrow> values_are R args (map snd (fn_params f));
      assert_that ok;
      Some (FunctionCall (fn_id f) (butlast args)) }"

section \<open>What the evaluators do\<close>

text \<open>
  An enum variant built from a payload of the variant's type is a value of the enum type,
  and matching it takes the branch of its own index and returns the payload; matching a
  snapshot of it does the same.
\<close>

theorem enum_init_match:
  assumes "branch_ty sg 0 0 = Some t" "get_type R t = Some (EnumT variants)"
    and "i < length variants" "has_type R v (variants ! i)"
    and "param_ty msg 0 = Some t" "branch_ty msg i 0 = Some (variants ! i)"
    and "param_ty ssg 0 = Some st" "get_type R st = Some (SnapshotT t)"
    and "branch_ty ssg i 0 = Some (variants ! i)"
  shows "\<exists>e. eval_enum R sg (EnumInit (length variants) i) [v] = Some (NormalBranch 0 [e]) \<and>
    has_type R e t \<and>
    eval_enum R msg EnumMatch [e] = Some (NormalBranch i [v]) \<and>
    eval_enum R ssg EnumSnapshotMatch [e] = Some (NormalBranch i [v])"
proof -
  have "0 < rec_limit R" using has_type_limit [OF assms(4)] .
  then have "has_type R (Enum t i v) t" using value_is_base(3) assms(2) by blast
  moreover have "get_enum_ty R t = Some variants" "get_snapshot_ty R st = Some t"
    using assms by simp_all
  ultimately show ?thesis
    using assms
    by (simp add: eval_enum_def eval_enum_init_def eval_enum_match_def eval_snapshot_match_def
        nth_opt_def)
qed

lemma enum_init_match_witness:
  "\<exists>e. eval_enum sample_registry (sg_of [] [[15]]) (EnumInit 3 2) [Struct []] =
      Some (NormalBranch 0 [e]) \<and>
    has_type sample_registry e 15 \<and>
    eval_enum sample_registry (sg_of [15] [[0], [14], [16]]) EnumMatch [e] =
      Some (NormalBranch 2 [Struct []])"
  using enum_init_match [where R = sample_registry and sg = "sg_of [] [[15]]" and t = 15 and
      variants = "[0, 14, 16]" and i = 2 and v = "Struct []" and
      msg = "sg_of [15] [[0], [14], [16]]" and ssg = "sg_of [45] [[0], [14], [16]]" and st = 45]
  by (auto simp: sample_types_def value_is_unfold numeral_3_eq_3)

text \<open>
  A struct built from members of the declared types comes apart into the same members,
  also through a snapshot; a member of a wrong type, or a wrong number of members, panics.
\<close>

theorem struct_construct_deconstruct:
  assumes "branch_ty sg 0 0 = Some t" "get_type R t = Some (StructT ms)"
    and "param_ty dsg 0 = Some t" "param_ty ssg 0 = Some st" "get_type R st = Some (SnapshotT t)"
  shows "if length vs = length ms \<and> list_all2 (has_type R) vs ms
    then eval_struct R sg StructConstruct vs = Some (NormalBranch 0 [Struct vs]) \<and>
      eval_struct R dsg StructDeconstruct [Struct vs] = Some (NormalBranch 0 vs) \<and>
      eval_struct R ssg StructSnapshotDeconstruct [Struct vs] = Some (NormalBranch 0 vs)
    else eval_struct R sg StructConstruct vs = None \<and>
      eval_struct R dsg StructDeconstruct [Struct vs] = None"
proof -
  have g: "get_struct_ty R t = Some ms" "get_snapshot_ty R st = Some t" using assms by simp_all
  show ?thesis
  proof (cases "length vs = length ms")
    case len: True
    show ?thesis
    proof (cases "values_are R vs ms = Some True")
      case True
      then have "list_all2 (has_type R) vs ms" using values_are_True [OF len] by simp
      with len True g assms show ?thesis
        by (simp add: eval_struct_def eval_construct_def eval_deconstruct_def
            eval_snapshot_deconstruct_def)
    next
      case False
      then have "\<not> list_all2 (has_type R) vs ms" using values_are_True [OF len] by simp
      moreover from False have "values_are R vs ms = None \<or> values_are R vs ms = Some False"
        by (metis (full_types) option.exhaust)
      ultimately show ?thesis using len g assms
        by (auto simp: eval_struct_def eval_construct_def eval_deconstruct_def)
    qed
  next
    case False
    with g assms show ?thesis
      by (simp add: eval_struct_def eval_construct_def eval_deconstruct_def assert_that_def)
  qed
qed

lemma struct_construct_deconstruct_witness:
  "eval_struct sample_registry (sg_of [] [[14]]) StructConstruct [Felt 1, U8 2] =
      Some (NormalBranch 0 [Struct [Felt 1, U8 2]]) \<and>
    eval_struct sample_registry (sg_of [14] []) StructDeconstruct [Struct [Felt 1, U8 2]] =
      Some (NormalBranch 0 [Felt 1, U8 2])"
  using struct_construct_deconstruct [where R = sample_registry and sg = "sg_of [] [[14]]" and
      t = 14 and ms = "[0, 1]" and dsg = "sg_of [14] []" and ssg = "sg_of [46] []" and st = 46 and
      vs = "[Felt 1, U8 2]"]
  by (simp add: sample_types_def value_is_unfold)

text \<open>
  The boolean operations on enum indices are the logical ones, keep the enum type and the
  payload of their first operand, and reading the result as a field element gives 0 or 1.
\<close>

theorem bool_ops_logic:
  "eval_bool BoolAnd [Enum t (bool_index a) p, Enum t (bool_index b) q] =
      Some (NormalBranch 0 [Enum t (bool_index (a \<and> b)) p]) \<and>
    eval_bool BoolOr [Enum t (bool_index a) p, Enum t (bool_index b) q] =
      Some (NormalBranch 0 [Enum t (bool_index (a \<or> b)) p]) \<and>
    eval_bool BoolXor [Enum t (bool_index a) p, Enum t (bool_index b) q] =
      Some (NormalBranch 0 [Enum t (bool_index (a \<noteq> b)) p]) \<and>
    eval_bool BoolNot [Enum t (bool_index a) p] = Some (NormalBranch 0 [Enum t (bool_index (\<not> a)) p]) \<and>
    eval_bool BoolToFelt252 [Enum t (bool_index a) p] = Some (NormalBranch 0 [Felt (if a then 1 else 0)])"
  by (simp add: eval_bool_def eval_and_def eval_or_def eval_xor_def eval_not_def
      eval_bool_to_felt252_def bool_index_def zero_felt_def one_felt_def)

text \<open>
  A nullable made from a box matches as the boxed value and \<open>null\<close> matches as null,
  provided the boxed value is not itself null; a local takes only a value of its type.
\<close>

theorem nullable_match:
  assumes "v \<noteq> Null"
  shows "\<exists>n. eval_box BoxInto [v] = Some (NormalBranch 0 [n]) \<and>
    eval_nullable NullableFromBox [n] = Some (NormalBranch 0 [n]) \<and>
    eval_nullable NullableMatch [n] = Some (NormalBranch 1 [v]) \<and>
    eval_box BoxUnbox [n] = Some (NormalBranch 0 [v]) \<and>
    eval_nullable NullableNull [] = Some (NormalBranch 0 [Null]) \<and>
    eval_nullable NullableMatch [Null] = Some (NormalBranch 0 [])"
  using assms
  by (simp add: eval_box_def eval_into_box_def eval_unbox_def eval_nullable_def
      eval_nullable_from_box_def eval_match_nullable_def eval_null_def)

lemma nullable_match_witness:
  "eval_nullable NullableMatch [Felt 0] = Some (NormalBranch 1 [Felt 0])"
  using nullable_match [of "Felt 0"] by (auto simp: eval_box_def eval_into_box_def)

text \<open>
  Allocating a local and storing into it returns the stored value when it has the type of
  the local, and panics when it does not.
\<close>

theorem store_local_checked:
  assumes "value_is R v t = Some b"
  shows "\<exists>u. eval_mem R (AllocLocal t) [] = Some (NormalBranch 0 [u]) \<and>
    eval_mem R StoreLocal [u, v] = (if b then Some (NormalBranch 0 [v]) else None)"
  using assms
  by (simp add: eval_mem_def eval_alloc_local_def eval_store_local_def assert_that_def)

lemma store_local_checked_witness:
  "\<exists>u. eval_mem sample_registry (AllocLocal 1) [] = Some (NormalBranch 0 [u]) \<and>
    eval_mem sample_registry StoreLocal [u, Felt 0] = None"
  using store_local_checked [where R = sample_registry and v = "Felt 0" and t = 1 and b = False]
  by (simp add: value_is_unfold as_u8_def)

text \<open>
  A function call goes through exactly when the arguments are as many as the parameters
  and each has its parameter's type, and hands the same arguments on; a call with a coupon
  checks and hands on all arguments but the coupon.
\<close>

theorem function_call_checked:
  assumes "length args = length (fn_params f)"
  shows "(eval_function_call R f args = Some a) =
      (list_all2 (has_type R) args (map snd (fn_params f)) \<and> a = FunctionCall (fn_id f) args) \<and>
    (eval_coupon_call R f (args @ [coupon]) = Some a) =
      (list_all2 (has_type R) args (map snd (fn_params f)) \<and> a = FunctionCall (fn_id f) args)"
proof -
  have len: "length args = length (map snd (fn_params f))" using assms by simp
  have zip: "zip (args @ [coupon]) (map snd (fn_params f)) = zip args (map snd (fn_params f))"
    using len by (simp add: zip_append1)
  have "values_are R (args @ [coupon]) (map snd (fn_params f)) =
      values_are R args (map snd (fn_params f))"
    by (simp add: values_are_def zip)
  then show ?thesis
    using assms values_are_True [OF len, of R]
    by (auto simp: eval_function_call_def eval_coupon_call_def bind_Some)
qed

lemma function_call_checked_witness:
  "eval_coupon_call sample_registry
      \<lparr>fn_id = 5, fn_params = [(0, 0)], fn_ret_types = [], fn_entry_point = 0\<rparr> [Felt 1, Unit] =
    Some (FunctionCall 5 [Felt 1])"
  using function_call_checked [where R = sample_registry and args = "[Felt 1]" and coupon = Unit and
      f = "\<lparr>fn_id = 5, fn_params = [(0, 0)], fn_ret_types = [], fn_entry_point = 0\<rparr>" and
      a = "FunctionCall 5 [Felt 1]"]
  by (simp add: value_is_unfold)

end
