(* ===== verification/DictOps.thy ===== *)
theory DictOps
  imports Sample Externs Store
begin

text \<open>
  \<open>debug_utils/sierra-emu/src/vm/felt252_dict.rs\<close> and \<open>vm/felt252_dict_entry.rs\<close>:
  dictionaries from field elements, with the count of accesses that the squash refund is
  computed from. A key that was never written reads as the default of the element type.
\<close>

section \<open>Evaluators\<close>

definition eval_dict_new :: "registry \<Rightarrow> signature \<Rightarrow> val list \<Rightarrow> eval_action option" where
  "eval_dict_new R sg args =
    do {
      segment_arena \<leftarrow> args1 args;
      as_unit segment_arena;
      t \<leftarrow> branch_ty sg 0 1;
      ty \<leftarrow> get_dict_ty R t;
      Some (NormalBranch 0 [segment_arena, FeltDict ty fmempty 0]) }"

text \<open>The refund per access is a constant of type \<open>i32\<close>, cast to \<open>u64\<close>.\<close>

definition gas_refund_per_access :: "externs \<Rightarrow> u64" where
  "gas_refund_per_access E =
    word_of_int (ex_dict_unique_key_cost E - ex_dict_repeated_access_cost E)"

definition eval_squash :: "externs \<Rightarrow> val list \<Rightarrow> eval_action option" where
  "eval_squash E args =
    do {
      (range_check, g, segment_arena, d) \<leftarrow> args4 args;
      as_unit range_check;
      gas_builtin \<leftarrow> as_u64 g;
      as_unit segment_arena;
      (ty, data, count) \<leftarrow> as_dict d;
      refund \<leftarrow> checked_mul (saturating_sub count (of_nat (fcard (fmdom data)))) (gas_refund_per_access E);
      new_gas_builtin \<leftarrow> checked_add gas_builtin refund;
      Some (NormalBranch 0 [range_check, U64 new_gas_builtin, segment_arena, FeltDict ty data count]) }"

definition eval_dict :: "externs \<Rightarrow> registry \<Rightarrow> signature \<Rightarrow> dict_lib \<Rightarrow> val list \<Rightarrow> eval_action option" where
  "eval_dict E R sg selector args =
    (case selector of
      DictNew \<Rightarrow> eval_dict_new R sg args
    | DictSquash \<Rightarrow> eval_squash E args)"

text \<open>The default value is computed before \<open>or_insert\<close>, whether or not the key is there.\<close>

definition eval_entry_get :: "registry \<Rightarrow> type_id \<Rightarrow> val list \<Rightarrow> eval_action option" where
  "eval_entry_get R info_ty args =
    do {
      (d, k) \<leftarrow> args2 args;
      (ty, data, count) \<leftarrow> as_dict d;
      key \<leftarrow> as_felt k;
      assert_that (info_ty = ty);
      def \<leftarrow> default_for_type R ty;
      let (data, v) = (case fmlookup data key of
          Some v \<Rightarrow> (data, v)
        | None \<Rightarrow> (fmupd key def data, def));
      count \<leftarrow> checked_add count 1;
      Some (NormalBranch 0 [FeltDictEntry ty data count key, v]) }"

definition eval_entry_finalize :: "registry \<Rightarrow> type_id \<Rightarrow> val list \<Rightarrow> eval_action option" where
  "eval_entry_finalize R info_ty args =
    do {
      (d, v) \<leftarrow> args2 args;
      (ty, data, count, key) \<leftarrow> as_dict_entry d;
      assert_that (info_ty = ty);
      ok \<leftarrow> value_is R v ty;
      assert_that ok;
      Some (NormalBranch 0 [FeltDict ty (fmupd key v data) count]) }"

definition eval_dict_entry :: "registry \<Rightarrow> dict_entry_lib \<Rightarrow> val list \<Rightarrow> eval_action option" where
  "eval_dict_entry R selector args =
    (case selector of
      DictEntryGet ty \<Rightarrow> eval_entry_get R ty args
    | DictEntryFinalize ty \<Rightarrow> eval_entry_finalize R ty args)"

section \<open>Dictionaries as maps\<close>

text \<open>One access: open the entry of a key, then close it with a value.\<close>

definition dict_access :: "registry \<Rightarrow> type_id \<Rightarrow> val \<Rightarrow> felt \<Rightarrow> val \<Rightarrow> (val \<times> val) option" where
  "dict_access R ty d key v =
    do {
      a \<leftarrow> eval_entry_get R ty [d, Felt key];
      (case a of
        NormalBranch b [e, old] \<Rightarrow>
          do {
            c \<leftarrow> eval_entry_finalize R ty [e, v];
            (case c of NormalBranch b' [d'] \<Rightarrow> Some (old, d') | _ \<Rightarrow> None) }
      | _ \<Rightarrow> None) }"

fun dict_accesses :: "registry \<Rightarrow> type_id \<Rightarrow> val \<Rightarrow> (felt \<times> val) list \<Rightarrow> val option" where
  "dict_accesses R ty d [] = Some d"
| "dict_accesses R ty d ((k, v) # kvs) =
    do { (_, d') \<leftarrow> dict_access R ty d k v; dict_accesses R ty d' kvs }"

lemma dict_access_step:
  assumes "default_for_type R ty = Some def" "has_type R v ty" "uint count + 1 < 2 ^ 64"
  shows "dict_access R ty (FeltDict ty data count) k v =
    Some (default_lookup def data k, FeltDict ty (fmupd k v data) (count + 1))"
proof -
  have c: "checked_add count 1 = Some (count + 1)" using assms(3) by (simp add: checked_add_def)
  have twice: "fmupd k v (fmupd k w data) = fmupd k v data" for w by (rule fmap_ext) simp
  show ?thesis
    using assms(1,2) c twice
    by (cases "fmlookup data k")
      (simp_all add: dict_access_def eval_entry_get_def eval_entry_finalize_def default_lookup_def)
qed

lemma dict_accesses_fold:
  assumes "default_for_type R ty = Some def"
  shows "\<forall>(k, v) \<in> set kvs. has_type R v ty \<Longrightarrow> uint count + int (length kvs) < 2 ^ 64 \<Longrightarrow>
    dict_accesses R ty (FeltDict ty data count) kvs =
      Some (FeltDict ty (foldl (\<lambda>m (k, v). fmupd k v m) data kvs) (count + of_nat (length kvs)))"
proof (induction kvs arbitrary: data count)
  case (Cons kv kvs)
  obtain k v where kv: "kv = (k, v)" by (cases kv)
  have "uint (count + 1) = uint count + 1"
    using Cons.prems(2) by (simp add: uint_word_ariths take_bit_eq_mod)
  then have "dict_accesses R ty (FeltDict ty (fmupd k v data) (count + 1)) kvs =
      Some (FeltDict ty (foldl (\<lambda>m (k, v). fmupd k v m) (fmupd k v data) kvs)
        (count + 1 + of_nat (length kvs)))"
    using Cons.prems by (intro Cons.IH) (auto simp: kv)
  moreover have "dict_access R ty (FeltDict ty data count) k v =
      Some (default_lookup def data k, FeltDict ty (fmupd k v data) (count + 1))"
    using Cons.prems assms by (intro dict_access_step) (auto simp: kv)
  ultimately show ?case by (simp add: kv algebra_simps)
qed simp

text \<open>
  C35: After any sequence of well-typed accesses to a new dictionary, looking up a key gives
  the last value stored under it, or the default of the element type when there was none,
  and the dictionary has counted every access.
\<close>

theorem dict_reads_last_write:
  assumes "branch_ty sg 0 1 = Some dt" "get_type R dt = Some (Felt252DictT ty)"
    and "default_for_type R ty = Some def" "\<forall>(k, v) \<in> set kvs. has_type R v ty"
    and "int (length kvs) + 1 < 2 ^ 64"
  shows "\<exists>d d'. eval_dict_new R sg [Unit] = Some (NormalBranch 0 [Unit, d]) \<and>
    dict_accesses R ty d kvs = Some d' \<and>
    (\<exists>e. eval_entry_get R ty [d', Felt k] = Some (NormalBranch 0
      [e, (case map_of (rev kvs) k of Some v \<Rightarrow> v | None \<Rightarrow> def)])) \<and>
    (\<exists>m. d' = FeltDict ty m (of_nat (length kvs)))"
proof -
  define m where "m = foldl (\<lambda>m (k, v). fmupd k v m) fmempty kvs"
  have new: "eval_dict_new R sg [Unit] = Some (NormalBranch 0 [Unit, FeltDict ty fmempty 0])"
    using assms(1,2) get_ty_fwd(4) [OF assms(2)] by (simp add: eval_dict_new_def)
  have acc: "dict_accesses R ty (FeltDict ty fmempty 0) kvs =
      Some (FeltDict ty m (of_nat (length kvs)))"
    using dict_accesses_fold [OF assms(3,4), of 0 fmempty] assms(5) by (simp add: m_def)
  have "uint (of_nat (length kvs) :: u64) = int (length kvs)"
    using assms(5) by (simp add: uint_nat unat_of_nat)
  then have "checked_add (of_nat (length kvs) :: u64) 1 = Some (of_nat (length kvs) + 1)"
    using assms(5) by (simp add: checked_add_def)
  moreover have "default_lookup def m k = (case map_of (rev kvs) k of Some v \<Rightarrow> v | None \<Rightarrow> def)"
    unfolding m_def fmap_store.lookup_updates
    by (cases "map_of (rev kvs) k") (simp_all add: default_lookup_def)
  ultimately have "\<exists>e. eval_entry_get R ty [FeltDict ty m (of_nat (length kvs)), Felt k] =
      Some (NormalBranch 0 [e, (case map_of (rev kvs) k of Some v \<Rightarrow> v | None \<Rightarrow> def)])"
    using assms(3) by (cases "fmlookup m k") (simp_all add: eval_entry_get_def default_lookup_def)
  with new acc show ?thesis by blast
qed

lemma dict_reads_last_write_witness:
  "\<exists>d d'. eval_dict_new sample_registry (sg_of [] [[36, 21]]) [Unit] = Some (NormalBranch 0 [Unit, d]) \<and>
    dict_accesses sample_registry 0 d [(1, Felt 1), (0, Felt 0), (1, Felt 0)] = Some d' \<and>
    (\<exists>e. eval_entry_get sample_registry 0 [d', Felt 1] = Some (NormalBranch 0 [e, Felt 0]))"
  using dict_reads_last_write [where R = sample_registry and sg = "sg_of [] [[36, 21]]" and dt = 21 and
      ty = 0 and def = "Felt 0" and kvs = "[(1, Felt 1), (0, Felt 0), (1, Felt 0)]" and k = 1]
  by (auto simp: sample_types_def default_for_type_def value_is_unfold)

text \<open>
  Squashing refunds the fixed amount for every access beyond the first to each key: with
  \<open>n\<close> accesses to \<open>m\<close> distinct keys the gas grows by exactly \<open>(n - m)\<close> times the refund,
  as long as the sum fits 64 bits.
\<close>

theorem eval_squash_refund:
  assumes "int (fcard (fmdom data)) \<le> uint n"
    and "uint gas + (uint n - int (fcard (fmdom data))) * uint (gas_refund_per_access E) < 2 ^ 64"
  shows "\<exists>g. eval_squash E [Unit, U64 gas, Unit, FeltDict ty data n] =
      Some (NormalBranch 0 [Unit, U64 g, Unit, FeltDict ty data n]) \<and>
    uint g = uint gas + (uint n - int (fcard (fmdom data))) * uint (gas_refund_per_access E)"
proof -
  define m where "m = fcard (fmdom data)"
  have "int m < 2 ^ 64" using assms(1) uint_lt2p [of n] by (simp add: m_def)
  then have m: "uint (of_nat m :: u64) = int m" by (simp add: uint_nat unat_of_nat)
  have s: "uint (saturating_sub n (of_nat m)) = uint n - int m"
    using assms(1) m unfolding m_def by (simp add: uint_saturating_sub)
  define p where "p = (uint n - int m) * uint (gas_refund_per_access E)"
  have p: "0 \<le> p" "p < 2 ^ 64" "uint gas + p < 2 ^ 64"
    using assms by (simp_all add: p_def m_def) (smt (verit) uint_ge_0)
  then obtain q where q: "checked_mul (saturating_sub n (of_nat m)) (gas_refund_per_access E) = Some q"
    "uint q = p"
    by (auto simp: checked_mul_def s p_def uint_word_ariths take_bit_eq_mod)
  with p obtain g where g: "checked_add gas q = Some g" "uint g = uint gas + p"
    by (auto simp: checked_add_def uint_word_ariths take_bit_eq_mod)
  from q g show ?thesis
    by (simp add: eval_squash_def m_def p_def)
qed

lemma eval_squash_refund_witness:
  "\<exists>g. eval_squash ref_externs [Unit, U64 100, Unit, FeltDict 0 fmempty 3] =
      Some (NormalBranch 0 [Unit, U64 g, Unit, FeltDict 0 fmempty 3]) \<and> uint g = 3100"
  using eval_squash_refund [where E = ref_externs and gas = 100 and ty = 0 and data = fmempty and n = 3]
  by (simp add: gas_refund_per_access_def fcard_fempty)

end
