(* ===== verification/ConstOps.thy ===== *)
theory ConstOps
  imports Sample Externs
begin

text \<open>
  \<open>debug_utils/sierra-emu/src/vm/const.rs\<close>: constants. A constant type carries its data as
  generic arguments, some of which are further constant types; \<open>const_inner\<close> is the function
  \<open>inner\<close> that builds the value. The lemma says that data that follows the shape of its
  type always builds a value of that type.
\<close>

section \<open>Evaluators\<close>

definition const_value :: "generic_arg list \<Rightarrow> int option" where
  "const_value data = (case data of [GArgValue i] \<Rightarrow> Some i | _ \<Rightarrow> None)"

fun enum_data :: "generic_arg list \<Rightarrow> (int \<times> type_id) option" where
  "enum_data [GArgValue i, GArgType p] = Some (i, p)"
| "enum_data _ = None"

fun const_inner_fuel :: "nat \<Rightarrow> registry \<Rightarrow> type_id \<Rightarrow> generic_arg list \<Rightarrow> val option" where
  "const_inner_fuel 0 R t data = None"
| "const_inner_fuel (Suc n) R t data =
    do {
      ty \<leftarrow> get_type R t;
      (case ty of
        BoundedIntT r \<Rightarrow>
          (case data of
            [GArgType t'] \<Rightarrow>
              do { (inner_ty, inner_data) \<leftarrow> get_const_ty R t'; const_inner_fuel n R inner_ty inner_data }
          | [GArgValue i] \<Rightarrow>
              do { assert_that (rng_lower r \<le> i \<and> i < rng_upper r); Some (BoundedInt r i) }
          | _ \<Rightarrow> None)
      | Felt252T \<Rightarrow> do { i \<leftarrow> const_value data; Some (Felt (felt_of_int i)) }
      | NonZeroT _ \<Rightarrow>
          (case data of
            [GArgType t'] \<Rightarrow>
              do { (inner_ty, inner_data) \<leftarrow> get_const_ty R t'; const_inner_fuel n R inner_ty inner_data }
          | _ \<Rightarrow> None)
      | Bytes31T \<Rightarrow> do { i \<leftarrow> const_value data; Some (Bytes31 (felt_of_int i)) }
      | Sint128T \<Rightarrow> do { i \<leftarrow> const_value data; map_option I128 (to_signed i) }
      | Sint64T \<Rightarrow> do { i \<leftarrow> const_value data; map_option I64 (to_signed i) }
      | Sint32T \<Rightarrow> do { i \<leftarrow> const_value data; map_option I32 (to_signed i) }
      | Sint16T \<Rightarrow> do { i \<leftarrow> const_value data; map_option I16 (to_signed i) }
      | Sint8T \<Rightarrow> do { i \<leftarrow> const_value data; map_option I8 (to_signed i) }
      | Uint128T \<Rightarrow>
          (case data of
            [GArgValue i] \<Rightarrow> map_option U128 (to_unsigned i)
          | [GArgType t'] \<Rightarrow>
              do { (inner_ty, inner_data) \<leftarrow> get_const_ty R t'; const_inner_fuel n R inner_ty inner_data }
          | _ \<Rightarrow> None)
      | Uint64T \<Rightarrow> do { i \<leftarrow> const_value data; map_option U64 (to_unsigned i) }
      | Uint32T \<Rightarrow>
          (case data of
            [GArgValue i] \<Rightarrow> map_option U32 (to_unsigned i)
          | [GArgType t'] \<Rightarrow>
              do { (inner_ty, inner_data) \<leftarrow> get_const_ty R t'; const_inner_fuel n R inner_ty inner_data }
          | _ \<Rightarrow> None)
      | Uint16T \<Rightarrow> do { i \<leftarrow> const_value data; map_option U16 (to_unsigned i) }
      | Uint8T \<Rightarrow> do { i \<leftarrow> const_value data; map_option U8 (to_unsigned i) }
      | StructT _ \<Rightarrow>
          do {
            fields \<leftarrow> map_opt (\<lambda>field.
              (case field of
                GArgType const_field_ty \<Rightarrow>
                  do {
                    (inner_ty, inner_data) \<leftarrow> get_const_ty R const_field_ty;
                    const_inner_fuel n R inner_ty inner_data }
              | _ \<Rightarrow> None)) data;
            Some (Struct fields) }
      | EcPointT \<Rightarrow>
          (case data of
            [GArgValue x, GArgValue y] \<Rightarrow> Some (EcPoint (felt_of_int x) (felt_of_int y))
          | _ \<Rightarrow> None)
      | EnumT _ \<Rightarrow>
          do {
            (value_idx, payload_ty) \<leftarrow> enum_data data;
            (_, inner_data) \<leftarrow> get_const_ty R payload_ty;
            payload \<leftarrow> const_inner_fuel n R payload_ty inner_data;
            index \<leftarrow> (to_unsigned value_idx :: u64 option);
            Some (Enum t (unat index) payload) }
      | ConstT inner_ty inner_data \<Rightarrow> const_inner_fuel n R inner_ty inner_data
      | StarknetT selector \<Rightarrow>
          (if selector \<in> {ClassHashST, ContractAddressST, StorageAddressST, StorageBaseAddressST}
           then do { i \<leftarrow> const_value data; Some (Felt (felt_of_int i)) }
           else None)
      | _ \<Rightarrow> None) }"

definition const_inner :: "registry \<Rightarrow> type_id \<Rightarrow> generic_arg list \<Rightarrow> val option" where
  "const_inner R = const_inner_fuel (rec_limit R) R"

definition eval_as_immediate :: "registry \<Rightarrow> type_id \<Rightarrow> val list \<Rightarrow> eval_action option" where
  "eval_as_immediate R const_type args =
    do {
      args0 args;
      (inner_ty, inner_data) \<leftarrow> get_const_ty R const_type;
      v \<leftarrow> const_inner R inner_ty inner_data;
      Some (NormalBranch 0 [v]) }"

definition eval_as_box :: "registry \<Rightarrow> type_id \<Rightarrow> val list \<Rightarrow> eval_action option" where
  "eval_as_box R const_type args =
    do {
      args0 args;
      (inner_ty, inner_data) \<leftarrow> get_const_ty R const_type;
      v \<leftarrow> const_inner R inner_ty inner_data;
      Some (NormalBranch 0 [v]) }"

definition eval_const :: "registry \<Rightarrow> const_lib \<Rightarrow> val list \<Rightarrow> eval_action option" where
  "eval_const R selector args =
    (case selector of
      ConstAsBox t \<Rightarrow> eval_as_box R t args
    | ConstAsImmediate t \<Rightarrow> eval_as_immediate R t args)"

section \<open>Well-formed constants\<close>

text \<open>
  Specification: \<open>data\<close> has the shape of a constant of type \<open>t\<close>. Integers are in the range
  of their type, fields of a struct are constants of the member types in order, and a nested
  constant is of the type it is nested in.
\<close>

definition nested_const ::
  "registry \<Rightarrow> (type_id \<Rightarrow> generic_arg list \<Rightarrow> bool) \<Rightarrow> type_id \<Rightarrow> generic_arg \<Rightarrow> bool" where
  "nested_const R ok t a =
    (case a of
      GArgType t' \<Rightarrow>
        (case get_const_ty R t' of Some (u, d) \<Rightarrow> u = t \<and> ok u d | None \<Rightarrow> False)
    | _ \<Rightarrow> False)"

fun const_ok :: "nat \<Rightarrow> registry \<Rightarrow> type_id \<Rightarrow> generic_arg list \<Rightarrow> bool" where
  "const_ok 0 R t data = False"
| "const_ok (Suc n) R t data =
    (case get_type R t of
      None \<Rightarrow> False
    | Some ty \<Rightarrow>
        (case ty of
          BoundedIntT r \<Rightarrow>
            (case data of
              [GArgValue i] \<Rightarrow> in_range r i
            | [a] \<Rightarrow> nested_const R (const_ok n R) t a
            | _ \<Rightarrow> False)
        | NonZeroT e \<Rightarrow> (case data of [a] \<Rightarrow> nested_const R (const_ok n R) e a | _ \<Rightarrow> False)
        | StructT ms \<Rightarrow> list_all2 (\<lambda>m a. nested_const R (const_ok n R) m a) ms data
        | ConstT e d \<Rightarrow> const_ok n R e d
        | Felt252T \<Rightarrow> const_value data \<noteq> None
        | Bytes31T \<Rightarrow> const_value data \<noteq> None
        | EnumT vs \<Rightarrow>
            (case enum_data data of
              Some (i, p) \<Rightarrow>
                0 \<le> i \<and> i < 2 ^ 64 \<and>
                (case get_const_ty R p of Some (u, d) \<Rightarrow> const_ok n R p d | None \<Rightarrow> False)
            | None \<Rightarrow> False)
        | _ \<Rightarrow>
            (case int_bounds ty of
              Some (lo, w) \<Rightarrow>
                (case const_value data of Some i \<Rightarrow> lo \<le> i \<and> i < lo + 2 ^ w | None \<Rightarrow> False)
            | None \<Rightarrow> False)))"

lemma const_value_Some [simp]: "const_value data = Some i \<longleftrightarrow> data = [GArgValue i]"
  by (cases data rule: list.exhaust; simp add: const_value_def split: list.splits generic_arg.splits)

lemma const_value_single [simp]: "const_value [GArgValue i] = Some i"
  by simp

lemma enum_data_Some [simp]: "enum_data data = Some (i, p) \<longleftrightarrow> data = [GArgValue i, GArgType p]"
  by (cases data rule: enum_data.cases) auto

lemma nested_constD:
  assumes "nested_const R ok t a"
  obtains t' d where "a = GArgType t'" "get_const_ty R t' = Some (t, d)" "ok t d"
  using assms by (cases a) (auto simp: nested_const_def split: option.splits)

lemma map_opt_fields:
  assumes "\<And>m d. const_ok n R m d \<Longrightarrow> \<exists>v. const_inner_fuel n R m d = Some v \<and> value_is_fuel n R v m = Some True"
  shows "list_all2 (\<lambda>m a. nested_const R (const_ok n R) m a) ms data \<Longrightarrow>
    \<exists>vs. map_opt (\<lambda>field. (case field of
        GArgType c \<Rightarrow> do { (u, d) \<leftarrow> get_const_ty R c; const_inner_fuel n R u d } | _ \<Rightarrow> None)) data = Some vs \<and>
      list_all2 (\<lambda>v m. value_is_fuel n R v m = Some True) vs ms"
proof (induction ms arbitrary: data)
  case (Cons m ms)
  then obtain a rest where data: "data = a # rest" and a: "nested_const R (const_ok n R) m a"
    and rest: "list_all2 (\<lambda>m a. nested_const R (const_ok n R) m a) ms rest"
    by (cases data) auto
  from a obtain t' d where a': "a = GArgType t'" "get_const_ty R t' = Some (m, d)" "const_ok n R m d"
    by (rule nested_constD)
  from assms [OF a'(3)] obtain v where "const_inner_fuel n R m d = Some v"
    "value_is_fuel n R v m = Some True" by blast
  with Cons.IH [OF rest] a' data show ?case by (auto simp del: get_ty_Some)
qed simp

lemma const_ok_builds:
  "const_ok n R t data \<Longrightarrow>
    \<exists>v. const_inner_fuel n R t data = Some v \<and> value_is_fuel n R v t = Some True"
proof (induction n arbitrary: t data)
  case 0
  then show ?case by simp
next
  case (Suc n)
  from Suc.prems obtain ty where ty: "get_type R t = Some ty" by (auto split: option.splits)
  have nested: "\<exists>c d v. a = GArgType c \<and> get_const_ty R c = Some (e, d) \<and>
      const_inner_fuel n R e d = Some v \<and> value_is_fuel n R v e = Some True"
    if "nested_const R (const_ok n R) e a" for e a
    using that by (elim nested_constD) (use Suc.IH in blast)
  show ?case
  proof (cases ty)
    case (BoundedIntT r)
    with Suc.prems ty obtain a where data: "data = [a]"
      and a: "(\<exists>i. a = GArgValue i \<and> in_range r i) \<or> nested_const R (const_ok n R) t a"
      by (auto split: list.splits generic_arg.splits)
    from a show ?thesis
    proof
      assume "\<exists>i. a = GArgValue i \<and> in_range r i"
      with data ty BoundedIntT show ?thesis by (auto simp: in_range_def)
    next
      assume "nested_const R (const_ok n R) t a"
      from nested [OF this] obtain c d v where v: "a = GArgType c" "get_const_ty R c = Some (t, d)"
        "const_inner_fuel n R t d = Some v" "value_is_fuel n R v t = Some True" by blast
      moreover note value_is_fuel_Suc [OF v(4)]
      moreover have "const_inner_fuel (Suc n) R t data = Some v"
        using v data ty BoundedIntT by (simp del: get_ty_Some)
      ultimately show ?thesis by blast
    qed
  next
    case (NonZeroT e)
    with Suc.prems ty obtain a where data: "data = [a]" and a: "nested_const R (const_ok n R) e a"
      by (auto split: list.splits)
    from nested [OF a] show ?thesis using data ty NonZeroT by (auto simp del: get_ty_Some)
  next
    case (StructT ms)
    with Suc.prems ty have "list_all2 (\<lambda>m a. nested_const R (const_ok n R) m a) ms data" by simp
    from map_opt_fields [OF Suc.IH this] obtain vs
      where vs: "map_opt (\<lambda>field. (case field of
        GArgType c \<Rightarrow> do { (u, d) \<leftarrow> get_const_ty R c; const_inner_fuel n R u d } | _ \<Rightarrow> None)) data = Some vs"
        "list_all2 (\<lambda>v m. value_is_fuel n R v m = Some True) vs ms"
      by blast
    then have "value_is_fuel (Suc n) R (Struct vs) t = Some True"
      using ty StructT by (auto simp: list_all2_iff)
    moreover have "const_inner_fuel (Suc n) R t data = Some (Struct vs)"
      using vs(1) ty StructT by simp
    ultimately show ?thesis by blast
  next
    case (EnumT vs)
    with Suc.prems ty obtain i p u d where data: "data = [GArgValue i, GArgType p]"
      and i: "0 \<le> i" "i < 2 ^ 64" and c: "get_const_ty R p = Some (u, d)" and ok: "const_ok n R p d"
      by (auto split: option.splits simp del: get_ty_Some)
    from Suc.IH [OF ok] obtain v where "const_inner_fuel n R p d = Some v" by blast
    with data i c ty EnumT show ?thesis by (auto simp: to_unsigned_def simp del: get_ty_Some)
  next
    case (ConstT e d)
    with Suc.prems ty have "const_ok n R e d" by simp
    from Suc.IH [OF this] show ?thesis using ty ConstT by simp
  qed (use Suc.prems ty in \<open>auto simp: int_bounds_def to_unsigned_def to_signed_def as_defs
      split: option.splits\<close>)
qed

text \<open>
  A constant whose data has the shape of its type always builds a value of that type,
  nested constants, structs and enums included: no match of the code is left out and no
  conversion can fail.
\<close>

theorem eval_const_typed:
  assumes "get_type R ct = Some (ConstT t data)" "const_ok (rec_limit R) R t data"
  shows "\<exists>v. eval_const R (ConstAsImmediate ct) [] = Some (NormalBranch 0 [v]) \<and>
    eval_const R (ConstAsBox ct) [] = Some (NormalBranch 0 [v]) \<and> has_type R v t"
  using const_ok_builds [OF assms(2)] get_ty_fwd(6) [OF assms(1)]
  by (auto simp: eval_const_def eval_as_immediate_def eval_as_box_def const_inner_def value_is_def
      simp del: get_ty_Some)

lemma eval_const_typed_witness:
  "\<exists>v. eval_const sample_registry (ConstAsImmediate 49) [] = Some (NormalBranch 0 [v]) \<and>
    has_type sample_registry v 14"
  using eval_const_typed [where R = sample_registry and ct = 49 and t = 14 and
      data = "[GArgType 47, GArgType 48]"]
  by (auto simp: sample_types_def nested_const_def get_const_ty_def int_bounds_def const_value_def)

end
