(* ===== verification/CircuitOps.thy ===== *)
theory CircuitOps
  imports Sample Externs
begin

text \<open>
  \<open>debug_utils/sierra-emu/src/vm/circuit.rs\<close>: modular arithmetic circuits over numbers of up
  to 384 bits. A circuit is a list of addition gates and a list of multiplication gates over
  numbered slots (slot 0 holds 1, then the inputs, then one slot per gate); a gate whose left
  operand is still empty computes that operand instead, which is how subtraction and inversion
  are expressed. The main result: when the evaluation succeeds, every gate's equation holds.
\<close>

section \<open>384-bit numbers\<close>

definition u96_range :: int_range_t where
  "u96_range = \<lparr>rng_lower = 0, rng_upper = push_bit 96 1\<rparr>"

definition u384_to_struct :: "nat \<Rightarrow> val" where
  "u384_to_struct num =
    (let output_big = int num;
         mask = 2 ^ 96 - 1;
         l0 = output_big AND mask;
         l1 = drop_bit 96 output_big AND mask;
         l2 = drop_bit 192 output_big AND mask;
         l3 = drop_bit 288 output_big AND mask
     in Struct [BoundedInt u96_range l0, BoundedInt u96_range l1,
                BoundedInt u96_range l2, BoundedInt u96_range l3])"

text \<open>The twelve low bytes of each limb, little endian, end to end.\<close>

definition struct_to_u384 :: "val list \<Rightarrow> nat option" where
  "struct_to_u384 members =
    do {
      (v0, v1, v2, v3) \<leftarrow> args4 members;
      l0 \<leftarrow> as_u128 v0;
      l1 \<leftarrow> as_u128 v1;
      l2 \<leftarrow> as_u128 v2;
      l3 \<leftarrow> as_u128 v3;
      Some (unat l0 mod 2 ^ 96 + 2 ^ 96 * (unat l1 mod 2 ^ 96
        + 2 ^ 96 * (unat l2 mod 2 ^ 96 + 2 ^ 96 * (unat l3 mod 2 ^ 96)))) }"

definition find_nullifier :: "externs \<Rightarrow> nat \<Rightarrow> nat \<Rightarrow> nat option" where
  "find_nullifier E num modulus =
    (let g = ex_gcd E num modulus in if g = 0 then None else Some (modulus div g))"

section \<open>Evaluating the gates\<close>

type_synonym slots = "nat option list"

definition set_slot :: "slots \<Rightarrow> nat \<Rightarrow> nat \<Rightarrow> slots option" where
  "set_slot outs i v = (if i < length outs then Some (outs[i := Some v]) else None)"

definition umod :: "nat \<Rightarrow> nat \<Rightarrow> nat option" where
  "umod a m = (if m = 0 then None else Some (a mod m))"

definition usub :: "nat \<Rightarrow> nat \<Rightarrow> nat option" where
  "usub a b = (if b \<le> a then Some (a - b) else None)"

text \<open>
  The \<open>while let\<close> loop over the addition gates: it stops at the first gate that cannot be
  computed yet and returns the gates that are left.
\<close>

fun add_loop :: "nat \<Rightarrow> slots \<Rightarrow> gate_offsets list \<Rightarrow> (slots \<times> gate_offsets list) option" where
  "add_loop m outs [] = Some (outs, [])"
| "add_loop m outs (g # gs) =
    do {
      lhs \<leftarrow> nth_opt outs (gate_lhs g);
      rhs \<leftarrow> nth_opt outs (gate_rhs g);
      (case (lhs, rhs) of
        (Some l, Some r) \<Rightarrow>
          do {
            v \<leftarrow> umod (l + r) m;
            outs \<leftarrow> set_slot outs (gate_output g) v;
            add_loop m outs gs }
      | (None, Some r) \<Rightarrow>
          do {
            out \<leftarrow> nth_opt outs (gate_output g);
            (case out of
              None \<Rightarrow> Some (outs, g # gs)
            | Some res \<Rightarrow>
                do {
                  d \<leftarrow> usub (res + m) r;
                  v \<leftarrow> umod d m;
                  outs \<leftarrow> set_slot outs (gate_lhs g) v;
                  add_loop m outs gs }) }
      | _ \<Rightarrow> Some (outs, g # gs)) }"

text \<open>One multiplication gate: the new slots, and whether the evaluation goes on.\<close>

definition mul_step :: "externs \<Rightarrow> nat \<Rightarrow> slots \<Rightarrow> gate_offsets \<Rightarrow> (slots \<times> bool) option" where
  "mul_step E m outs g =
    do {
      lhs \<leftarrow> nth_opt outs (gate_lhs g);
      rhs \<leftarrow> nth_opt outs (gate_rhs g);
      (case (lhs, rhs) of
        (Some l, Some r) \<Rightarrow>
          do {
            v \<leftarrow> umod (l * r) m;
            outs \<leftarrow> set_slot outs (gate_output g) v;
            Some (outs, True) }
      | (None, Some r) \<Rightarrow>
          do {
            inv \<leftarrow> ex_modinv E r m;
            (case inv of
              Some i \<Rightarrow> do { outs \<leftarrow> set_slot outs (gate_lhs g) i; Some (outs, True) }
            | None \<Rightarrow>
                do {
                  n \<leftarrow> find_nullifier E r m;
                  outs \<leftarrow> set_slot outs (gate_lhs g) n;
                  Some (outs, False) }) }
      | _ \<Rightarrow> None) }"

fun gate_loop ::
  "externs \<Rightarrow> nat \<Rightarrow> slots \<Rightarrow> gate_offsets list \<Rightarrow> gate_offsets list \<Rightarrow> (slots \<times> bool) option" where
  "gate_loop E m outs adds [] = do { (outs, _) \<leftarrow> add_loop m outs adds; Some (outs, True) }"
| "gate_loop E m outs adds (g # muls) =
    do {
      (outs, adds) \<leftarrow> add_loop m outs adds;
      (outs, continues) \<leftarrow> mul_step E m outs g;
      (if continues then gate_loop E m outs adds muls else Some (outs, False)) }"

fun set_inputs :: "slots \<Rightarrow> nat \<Rightarrow> nat list \<Rightarrow> slots option" where
  "set_inputs outs i [] = Some outs"
| "set_inputs outs i (x # xs) = do { outs \<leftarrow> set_slot outs (i + 1) x; set_inputs outs (i + 1) xs }"

section \<open>Evaluators\<close>

definition eval_add_input :: "registry \<Rightarrow> type_id \<Rightarrow> val list \<Rightarrow> eval_action option" where
  "eval_add_input R ty args =
    do {
      (c, s) \<leftarrow> args2 args;
      xs \<leftarrow> as_circuit c;
      members \<leftarrow> as_struct s;
      info \<leftarrow> get_circuit_info R ty;
      x \<leftarrow> struct_to_u384 members;
      let xs = xs @ [x];
      Some (NormalBranch (if length xs \<noteq> n_inputs info then 1 else 0) [Circuit xs]) }"

definition eval_eval :: "externs \<Rightarrow> registry \<Rightarrow> type_id \<Rightarrow> val list \<Rightarrow> eval_action option" where
  "eval_eval E R ty args =
    do {
      (add_mod, mul_mod, descriptor, c, cm, _, _) \<leftarrow> args7 args;
      as_unit add_mod;
      as_unit mul_mod;
      as_unit descriptor;
      inputs \<leftarrow> as_circuit c;
      modulus \<leftarrow> as_circuit_modulus cm;
      info \<leftarrow> get_circuit_info R ty;
      let outs = replicate (1 + n_inputs info + fcard (fmdom (gate_values info))) None;
      outs \<leftarrow> set_slot outs 0 1;
      outs \<leftarrow> set_inputs outs 0 inputs;
      (outs, success) \<leftarrow> gate_loop E modulus outs (add_offsets info) (mul_offsets info);
      (if success
       then do {
         xs \<leftarrow> those (drop (1 + n_inputs info) outs);
         Some (NormalBranch 0 [add_mod, mul_mod, CircuitOutputs xs modulus]) }
       else Some (NormalBranch 1 [add_mod, mul_mod, Unit, Unit])) }"

definition eval_get_output :: "registry \<Rightarrow> type_id \<Rightarrow> type_id \<Rightarrow> val list \<Rightarrow> eval_action option" where
  "eval_get_output R circuit_ty output_ty args =
    do {
      v \<leftarrow> args1 args;
      (outputs, modulus) \<leftarrow> as_circuit_outputs v;
      info \<leftarrow> get_circuit_info R circuit_ty;
      gate_offset \<leftarrow> fmlookup (gate_values info) output_ty;
      i \<leftarrow> usub gate_offset 1;
      output_idx \<leftarrow> usub i (n_inputs info);
      output \<leftarrow> nth_opt outputs output_idx;
      let output_struct = u384_to_struct output;
      let modulus = u384_to_struct modulus;
      Some (NormalBranch 0 [output_struct, Struct [output_struct, modulus]]) }"

definition eval_u96_limbs_lt_verify :: "nat \<Rightarrow> val list \<Rightarrow> eval_action option" where
  "eval_u96_limbs_lt_verify limb_count args =
    do {
      v \<leftarrow> args1 args;
      guarantee \<leftarrow> as_struct v;
      g \<leftarrow> nth_opt guarantee 0;
      gate \<leftarrow> as_struct g;
      m \<leftarrow> nth_opt guarantee 1;
      modulus \<leftarrow> as_struct m;
      last_idx \<leftarrow> usub limb_count 1;
      gl \<leftarrow> nth_opt gate last_idx;
      (_, gate_last_limb) \<leftarrow> as_bounded gl;
      ml \<leftarrow> nth_opt modulus last_idx;
      (_, modulus_last_limb) \<leftarrow> as_bounded ml;
      diff \<leftarrow> (to_unsigned (modulus_last_limb - gate_last_limb) :: u128 option);
      (if diff \<noteq> 0 then Some (NormalBranch 1 [U128 diff])
       else do {
         assert_that (limb_count \<le> length gate);
         assert_that (limb_count \<le> length modulus);
         Some (NormalBranch 0
           [Struct [Struct (take limb_count gate), Struct (take limb_count modulus)]]) }) }"

definition eval_u96_limbs_lt_verify_v2 :: "val list \<Rightarrow> eval_action option" where
  "eval_u96_limbs_lt_verify_v2 args =
    do {
      (range_check_96, _) \<leftarrow> args2 args;
      as_unit range_check_96;
      Some (NormalBranch 0 [range_check_96]) }"

definition eval_u96_single_limb_lt_verify :: "val list \<Rightarrow> eval_action option" where
  "eval_u96_single_limb_lt_verify args =
    do { _ \<leftarrow> args1 args; Some (NormalBranch 0 [U128 0]) }"

definition eval_u96_guarantee_verify :: "val list \<Rightarrow> eval_action option" where
  "eval_u96_guarantee_verify args =
    do {
      (range_check_96, _) \<leftarrow> args2 args;
      as_unit range_check_96;
      Some (NormalBranch 0 [range_check_96]) }"

definition eval_failure_guarantee_verify ::
  "registry \<Rightarrow> signature \<Rightarrow> val list \<Rightarrow> eval_action option" where
  "eval_failure_guarantee_verify R sg args =
    do {
      (rc96, mul_mod, _, _, _) \<leftarrow> args5 args;
      as_unit rc96;
      as_unit mul_mod;
      t \<leftarrow> branch_ty sg 0 2;
      ty \<leftarrow> get_type R t;
      limbs_count \<leftarrow> (case ty of CircuitT (U96LimbsLessThanGuaranteeCT n) \<Rightarrow> Some n | _ \<Rightarrow> None);
      let zero_u96 = BoundedInt u96_range 0;
      let limbs_struct = Struct (replicate limbs_count zero_u96);
      Some (NormalBranch 0 [rc96, mul_mod, Struct [limbs_struct, limbs_struct]]) }"

definition eval_get_descriptor :: "val list \<Rightarrow> eval_action option" where
  "eval_get_descriptor args = Some (NormalBranch 0 [Unit])"

definition eval_init_circuit_data :: "registry \<Rightarrow> type_id \<Rightarrow> val list \<Rightarrow> eval_action option" where
  "eval_init_circuit_data R ty args =
    do {
      range_check_96 \<leftarrow> args1 args;
      as_unit range_check_96;
      _ \<leftarrow> get_circuit_info R ty;
      Some (NormalBranch 0 [range_check_96, Circuit []]) }"

definition biguint_of :: "int \<Rightarrow> nat option" where
  "biguint_of i = (if 0 \<le> i then Some (nat i) else None)"

definition eval_try_into_circuit_modulus :: "val list \<Rightarrow> eval_action option" where
  "eval_try_into_circuit_modulus args =
    do {
      v \<leftarrow> args1 args;
      members \<leftarrow> as_struct v;
      (v0, v1, v2, v3) \<leftarrow> args4 members;
      (r0, l0) \<leftarrow> as_bounded v0;
      (r1, l1) \<leftarrow> as_bounded v1;
      (r2, l2) \<leftarrow> as_bounded v2;
      (r3, l3) \<leftarrow> as_bounded v3;
      assert_that (r0 = u96_range);
      assert_that (r1 = u96_range);
      assert_that (r2 = u96_range);
      assert_that (r3 = u96_range);
      l0 \<leftarrow> biguint_of l0;
      l1 \<leftarrow> biguint_of l1;
      l2 \<leftarrow> biguint_of l2;
      l3 \<leftarrow> biguint_of l3;
      let m = ((l0 OR push_bit 96 l1) OR push_bit 192 l2) OR push_bit 288 l3;
      Some (if 1 < m then NormalBranch 0 [CircuitModulus m] else NormalBranch 1 []) }"

definition eval_into_u96_guarantee :: "val list \<Rightarrow> eval_action option" where
  "eval_into_u96_guarantee args =
    do {
      v \<leftarrow> args1 args;
      (range, i) \<leftarrow> as_bounded v;
      assert_that (range = u96_range);
      x \<leftarrow> to_unsigned i;
      Some (NormalBranch 0 [U128 x]) }"

definition eval_circuit ::
  "externs \<Rightarrow> registry \<Rightarrow> signature \<Rightarrow> circuit_lib \<Rightarrow> val list \<Rightarrow> eval_action option" where
  "eval_circuit E R sg selector args =
    (case selector of
      CircuitAddInput ty \<Rightarrow> eval_add_input R ty args
    | CircuitEval ty \<Rightarrow> eval_eval E R ty args
    | CircuitGetDescriptor _ \<Rightarrow> eval_get_descriptor args
    | CircuitInitData ty \<Rightarrow> eval_init_circuit_data R ty args
    | CircuitGetOutput circuit_ty output_ty \<Rightarrow> eval_get_output R circuit_ty output_ty args
    | CircuitTryIntoModulus \<Rightarrow> eval_try_into_circuit_modulus args
    | CircuitFailureGuaranteeVerify \<Rightarrow> eval_failure_guarantee_verify R sg args
    | CircuitIntoU96Guarantee _ \<Rightarrow> eval_into_u96_guarantee args
    | CircuitU96GuaranteeVerify \<Rightarrow> eval_u96_guarantee_verify args
    | CircuitU96LimbsLtVerify n \<Rightarrow> eval_u96_limbs_lt_verify n args
    | CircuitU96SingleLimbLtVerify \<Rightarrow> eval_u96_single_limb_lt_verify args
    | CircuitU96LimbsLtVerifyV2 _ \<Rightarrow> eval_u96_limbs_lt_verify_v2 args)"

section \<open>Limbs of 384-bit numbers\<close>

fun limbs96 :: "nat \<Rightarrow> nat \<Rightarrow> nat list" where
  "limbs96 0 n = []"
| "limbs96 (Suc k) n = n mod 2 ^ 96 # limbs96 k (n div 2 ^ 96)"

lemma and_mask_int: "i AND (2 ^ k - 1) = i mod 2 ^ k" for i :: int
  using take_bit_eq_mask [of k i] by (simp add: mask_eq_exp_minus_1 take_bit_eq_mod)

lemma div_div_96:
  "n div 2 ^ 96 div 2 ^ 96 = n div 2 ^ 192" "n div 2 ^ 192 div 2 ^ 96 = n div 2 ^ 288"
  for n :: nat
  by (simp_all flip: div_mult2_eq)

lemma u384_to_struct_limbs:
  "u384_to_struct n = Struct (map (\<lambda>l. BoundedInt u96_range (int l)) (limbs96 4 n))"
proof -
  have four: "(4 :: nat) = Suc (Suc (Suc (Suc 0)))" by simp
  show ?thesis
    unfolding u384_to_struct_def Let_def and_mask_int drop_bit_eq_div four limbs96.simps div_div_96
    by (simp add: of_nat_mod of_nat_div)
qed

lemma limbs96_less: "l \<in> set (limbs96 k n) \<Longrightarrow> l < 2 ^ 96"
  by (induction k arbitrary: n) auto

section \<open>Circuits whose gates can be ordered by dependency\<close>

text \<open>
  Specification: a gate with the slot it is there to compute. Subtraction is an addition gate
  that computes its left operand, inversion a multiplication gate that does and whose output
  is slot 0, the constant 1.
\<close>

datatype gate = AddG gate_offsets | SubG gate_offsets | MulG gate_offsets | InvG gate_offsets

fun computes :: "gate \<Rightarrow> nat" where
  "computes (AddG g) = gate_output g"
| "computes (SubG g) = gate_lhs g"
| "computes (MulG g) = gate_output g"
| "computes (InvG g) = gate_lhs g"

fun needs :: "gate \<Rightarrow> nat set" where
  "needs (AddG g) = {gate_lhs g, gate_rhs g}"
| "needs (SubG g) = {gate_rhs g, gate_output g}"
| "needs (MulG g) = {gate_lhs g, gate_rhs g}"
| "needs (InvG g) = {gate_rhs g}"

fun is_add :: "gate \<Rightarrow> bool" where
  "is_add (AddG g) = True" | "is_add (SubG g) = True" | "is_add _ = False"

fun offsets_of :: "gate \<Rightarrow> gate_offsets" where
  "offsets_of (AddG g) = g" | "offsets_of (SubG g) = g" | "offsets_of (MulG g) = g"
| "offsets_of (InvG g) = g"

definition adds_of :: "gate list \<Rightarrow> gate_offsets list" where
  "adds_of os = map offsets_of (filter is_add os)"

definition muls_of :: "gate list \<Rightarrow> gate_offsets list" where
  "muls_of os = map offsets_of (filter (\<lambda>g. \<not> is_add g) os)"

text \<open>
  The gates in an order in which each one needs only slots that are filled by then, with the
  slots \<open>A\<close> filled at the start; no slot is computed twice and all slots are below \<open>L\<close>.
\<close>

fun ordered :: "nat \<Rightarrow> nat set \<Rightarrow> gate list \<Rightarrow> bool" where
  "ordered L A [] = True"
| "ordered L A (g # gs) \<longleftrightarrow>
    needs g \<subseteq> A \<and> computes g \<notin> A \<and> computes g < L \<and>
    (case g of InvG h \<Rightarrow> gate_output h = 0 | _ \<Rightarrow> True) \<and> ordered L (insert (computes g) A) gs"

text \<open>The equation of a gate, on filled slots.\<close>

fun holds :: "nat \<Rightarrow> slots \<Rightarrow> gate \<Rightarrow> bool" where
  "holds m outs g =
    (\<exists>l r out. outs ! gate_lhs (offsets_of g) = Some l \<and> outs ! gate_rhs (offsets_of g) = Some r \<and>
      outs ! gate_output (offsets_of g) = Some out \<and>
      (if is_add g then (l + r) mod m else (l * r) mod m) = out)"

definition filled :: "nat \<Rightarrow> nat \<Rightarrow> nat set \<Rightarrow> slots \<Rightarrow> bool" where
  "filled m L A outs \<longleftrightarrow>
    length outs = L \<and> A \<subseteq> {..<L} \<and> 0 \<in> A \<and> outs ! 0 = Some 1 \<and>
    (\<forall>i < L. i \<notin> A \<longrightarrow> outs ! i = None) \<and> (\<forall>i \<in> A. \<exists>v < m. outs ! i = Some v)"

lemma filledD:
  assumes "filled m L A outs"
  shows "length outs = L" "0 \<in> A" "outs ! 0 = Some 1"
    "i \<in> A \<Longrightarrow> i < L" "i < L \<Longrightarrow> i \<notin> A \<Longrightarrow> outs ! i = None"
    "i \<in> A \<Longrightarrow> \<exists>v < m. outs ! i = Some v"
  using assms by (auto simp: filled_def)

lemma filled_insert:
  assumes "filled m L A outs" "k < L" "k \<notin> A" "v < m"
  shows "filled m L (insert k A) (outs[k := Some v])"
  using assms unfolding filled_def by (auto simp: nth_list_update)

text \<open>Filling a slot that was empty keeps every equation that already held.\<close>

lemma holds_update:
  assumes "holds m outs g" "outs ! k = None" "k < length outs"
  shows "holds m (outs[k := Some v]) g"
  using assms by (auto simp: nth_list_update)

fun drop_add :: "gate list \<Rightarrow> gate list" where
  "drop_add [] = []"
| "drop_add (g # gs) = (if is_add g then gs else g # drop_add gs)"

lemma adds_of_simps [simp]:
  "adds_of [] = []"
  "adds_of (g # gs) = (if is_add g then offsets_of g # adds_of gs else adds_of gs)"
  "muls_of [] = []"
  "muls_of (g # gs) = (if is_add g then muls_of gs else offsets_of g # muls_of gs)"
  by (simp_all add: adds_of_def muls_of_def)

lemma ordered_grow:
  "ordered L A gs \<Longrightarrow> k \<notin> computes ` set gs \<Longrightarrow> ordered L (insert k A) gs"
proof (induction gs arbitrary: A)
  case (Cons g gs)
  then have "ordered L (insert k (insert (computes g) A)) gs" by simp
  with Cons.prems show ?case by (auto simp: insert_commute)
qed simp

lemma ordered_fresh: "ordered L A gs \<Longrightarrow> computes ` set gs \<inter> A = {}"
  by (induction gs arbitrary: A) auto

text \<open>
  The first pending addition of an ordered circuit can be taken out, whether or not it comes
  before the pending multiplications, if it is computed now.
\<close>

lemma first_add:
  assumes "ordered L A os" "adds_of os = h # hs"
  obtains g where "g \<in> set os" "is_add g" "offsets_of g = h" "computes g \<notin> A" "computes g < L"
    "ordered L (insert (computes g) A) (drop_add os)" "adds_of (drop_add os) = hs"
    "muls_of (drop_add os) = muls_of os" "set os = insert g (set (drop_add os))"
    "\<And>x os'. os = x # os' \<Longrightarrow> is_add x \<Longrightarrow> needs g \<subseteq> A"
proof -
  have "\<exists>g \<in> set os. is_add g \<and> offsets_of g = h \<and> computes g \<notin> A \<and> computes g < L \<and>
      ordered L (insert (computes g) A) (drop_add os) \<and> adds_of (drop_add os) = hs \<and>
      muls_of (drop_add os) = muls_of os \<and> set os = insert g (set (drop_add os)) \<and>
      (\<forall>x os'. os = x # os' \<longrightarrow> is_add x \<longrightarrow> needs g \<subseteq> A)"
    using assms
  proof (induction os arbitrary: A)
    case (Cons x xs)
    show ?case
    proof (cases "is_add x")
      case True
      with Cons.prems show ?thesis by auto
    next
      case False
      with Cons.prems have "ordered L (insert (computes x) A) xs" "adds_of xs = h # hs" by auto
      from Cons.IH [OF this] obtain g where g: "g \<in> set xs" "is_add g" "offsets_of g = h"
        "computes g \<notin> insert (computes x) A" "computes g < L"
        "ordered L (insert (computes g) (insert (computes x) A)) (drop_add xs)"
        "adds_of (drop_add xs) = hs" "muls_of (drop_add xs) = muls_of xs"
        "set xs = insert g (set (drop_add xs))" by blast
      with False Cons.prems show ?thesis
        by (intro bexI [of _ g]) (auto simp: insert_commute)
    qed
  qed simp
  with that show thesis by blast
qed

lemma ordered_bounds:
  "ordered L A os \<Longrightarrow> A \<subseteq> {..<L} \<Longrightarrow> g \<in> set os \<Longrightarrow> needs g \<subseteq> {..<L} \<and> computes g < L"
proof (induction os arbitrary: A)
  case (Cons x xs)
  have "insert (computes x) A \<subseteq> {..<L}" using Cons.prems by auto
  with Cons show ?case by (cases "g = x") auto
qed simp

lemma umod_pos [simp]: "0 < m \<Longrightarrow> umod a m = Some (a mod m)"
  by (simp add: umod_def)

lemma set_slot_ok [simp]: "i < length outs \<Longrightarrow> set_slot outs i v = Some (outs[i := Some v])"
  by (simp add: set_slot_def)

lemma nth_opt_slot: "i < length outs \<Longrightarrow> nth_opt outs i = Some (outs ! i)"
  by (simp add: nth_opt_def)

text \<open>
  One iteration of the addition loop: the head gate is computed when what it needs is filled,
  and its equation then holds; otherwise the loop stops there.
\<close>

lemma add_loop_step:
  assumes "filled m L A outs" "0 < m" "is_add g" "computes g \<notin> A" "computes g < L" "needs g \<subseteq> {..<L}"
  shows "if needs g \<subseteq> A
    then \<exists>v < m. add_loop m outs (offsets_of g # gs) = add_loop m (outs[computes g := Some v]) gs \<and>
      holds m (outs[computes g := Some v]) g
    else add_loop m outs (offsets_of g # gs) = Some (outs, offsets_of g # gs)"
proof (cases g)
  case (AddG h)
  note f = filledD [OF assms(1)]
  have out: "outs ! gate_output h = None" and lt: "gate_lhs h < L" "gate_rhs h < L" "gate_output h < L"
    using assms f AddG by auto
  show ?thesis
  proof (cases "needs g \<subseteq> A")
    case True
    then obtain l r where lr: "outs ! gate_lhs h = Some l" "outs ! gate_rhs h = Some r"
      using f(6) AddG by force
    then have "gate_lhs h \<noteq> gate_output h" "gate_rhs h \<noteq> gate_output h" using out by auto
    with True lr lt f(1) assms(2) AddG show ?thesis
      by (auto simp: nth_opt_slot intro!: exI [of _ "(l + r) mod m"])
  next
    case False
    then have "outs ! gate_lhs h = None \<or> outs ! gate_rhs h = None"
      using f(5) lt AddG by auto
    with False out lt f(1) AddG show ?thesis
      by (auto simp: nth_opt_slot split: option.split)
  qed
next
  case (SubG h)
  note f = filledD [OF assms(1)]
  have lhs: "outs ! gate_lhs h = None" and lt: "gate_lhs h < L" "gate_rhs h < L" "gate_output h < L"
    using assms f SubG by auto
  show ?thesis
  proof (cases "needs g \<subseteq> A")
    case True
    then obtain r out where ro: "outs ! gate_rhs h = Some r" "outs ! gate_output h = Some out"
      "r < m" "out < m"
      using f(6) [of "gate_rhs h"] f(6) [of "gate_output h"] SubG by auto
    then have ne: "gate_rhs h \<noteq> gate_lhs h" "gate_output h \<noteq> gate_lhs h" using lhs by auto
    have "((out + m - r) mod m + r) mod m = (out + m - r + r) mod m" by (simp add: mod_add_left_eq)
    also have "\<dots> = out" using ro by simp
    finally have "((out + m - r) mod m + r) mod m = out" .
    with True ro ne lt lhs f(1) assms(2) SubG show ?thesis
      by (auto simp: nth_opt_slot usub_def intro!: exI [of _ "(out + m - r) mod m"])
  next
    case False
    then have "outs ! gate_rhs h = None \<or> outs ! gate_output h = None"
      using f(5) lt SubG by auto
    with False lhs lt f(1) SubG show ?thesis
      by (auto simp: nth_opt_slot split: option.split)
  qed
qed (use assms(3) in simp_all)

declare holds.simps [simp del]

text \<open>
  The state of an evaluation against the circuit: the gates in \<open>ex\<close> have been computed and
  hold, the gates in \<open>os\<close> are pending, and the slots of the inputs still hold \<open>pre\<close>.
\<close>

definition progress ::
  "slots \<Rightarrow> nat \<Rightarrow> nat \<Rightarrow> nat set \<Rightarrow> slots \<Rightarrow> gate list \<Rightarrow> gate set \<Rightarrow> bool" where
  "progress pre m L A outs os ex \<longleftrightarrow>
    filled m L A outs \<and> ordered L A os \<and> (\<forall>g \<in> ex. holds m outs g) \<and>
    length pre \<le> L \<and> (\<forall>i < length pre. pre ! i \<noteq> None \<and> outs ! i = pre ! i)"

lemma progress_step:
  assumes "progress pre m L A outs os ex" "computes g \<notin> A" "computes g < L" "v < m"
    and "ordered L (insert (computes g) A) os'" "holds m (outs[computes g := Some v]) g"
  shows "progress pre m L (insert (computes g) A) (outs[computes g := Some v]) os' (insert g ex)"
proof -
  from assms(1) have f: "filled m L A outs" and ex: "\<forall>g \<in> ex. holds m outs g"
    and pre: "length pre \<le> L" "\<forall>i < length pre. pre ! i \<noteq> None \<and> outs ! i = pre ! i"
    by (simp_all add: progress_def)
  have none: "outs ! computes g = None" using filledD(5) [OF f assms(3,2)] .
  then have "\<forall>i < length pre. outs[computes g := Some v] ! i = pre ! i"
    using pre(2) by (metis nth_list_update_neq)
  moreover have "\<forall>h \<in> ex. holds m (outs[computes g := Some v]) h"
    using ex none filledD(1) [OF f] assms(3) holds_update by blast
  ultimately show ?thesis
    using filled_insert [OF f assms(3,2,4)] assms(5,6) pre by (simp add: progress_def)
qed

lemma add_loop_ok:
  assumes "progress pre m L A outs os ex" "0 < m"
  shows "\<exists>A' outs' os' ex'. add_loop m outs (adds_of os) = Some (outs', adds_of os') \<and>
    progress pre m L A' outs' os' ex' \<and> muls_of os' = muls_of os \<and>
    set os \<union> ex = set os' \<union> ex' \<and> A' \<union> computes ` set os' = A \<union> computes ` set os \<and>
    (\<forall>x xs. os' = x # xs \<longrightarrow> \<not> is_add x)"
  using assms
proof (induction "adds_of os" arbitrary: os A outs ex)
  case Nil
  from Nil(1) have "\<not> is_add x" if "x \<in> set os" for x
    using that by (simp add: adds_of_def filter_empty_conv)
  with Nil show ?case by (intro exI [of _ A] exI [of _ outs] exI [of _ os] exI [of _ ex]) auto
next
  case (Cons h hs)
  from Cons.prems have f: "filled m L A outs" and o: "ordered L A os" by (simp_all add: progress_def)
  from first_add [OF o Cons.hyps(2) [symmetric]] obtain g where g: "g \<in> set os" "is_add g"
    "offsets_of g = h" "computes g \<notin> A" "computes g < L"
    "ordered L (insert (computes g) A) (drop_add os)" "adds_of (drop_add os) = hs"
    "muls_of (drop_add os) = muls_of os" "set os = insert g (set (drop_add os))"
    and lead: "\<And>x os'. os = x # os' \<Longrightarrow> is_add x \<Longrightarrow> needs g \<subseteq> A" by metis
  have "needs g \<subseteq> {..<L}"
    using ordered_bounds [OF o _ g(1)] f by (auto simp: filled_def)
  note step = add_loop_step [OF f Cons.prems(2) g(2,4,5) this, of hs, unfolded g(3) Cons.hyps(2)]
  show ?case
  proof (cases "needs g \<subseteq> A")
    case True
    with step obtain v where v: "v < m"
      "add_loop m outs (adds_of os) = add_loop m (outs[computes g := Some v]) hs"
      "holds m (outs[computes g := Some v]) g" by auto
    from progress_step [OF Cons.prems(1) g(4,5) v(1) g(6) v(3)]
    have "progress pre m L (insert (computes g) A) (outs[computes g := Some v]) (drop_add os) (insert g ex)" .
    from Cons.hyps(1) [OF g(7) [symmetric] this Cons.prems(2)] v(2) g(7,8,9) show ?thesis
      by (elim exE conjE, intro exI conjI) auto
  next
    case False
    with step have "add_loop m outs (adds_of os) = Some (outs, adds_of os)" by simp
    moreover have "\<forall>x xs. os = x # xs \<longrightarrow> \<not> is_add x" using lead False by blast
    ultimately show ?thesis
      using Cons.prems(1)
      by (intro exI [of _ A] exI [of _ outs] exI [of _ os] exI [of _ ex]) simp
  qed
qed

text \<open>A multiplication or inversion gate at the head of an ordered circuit.\<close>

lemma mul_step_ok:
  assumes "progress pre m L A outs (g # os) ex" "1 < m" "\<not> is_add g" "modinv_ok E" "gcd_ok E"
  shows "(\<exists>v < m. mul_step E m outs (offsets_of g) = Some (outs[computes g := Some v], True) \<and>
      progress pre m L (insert (computes g) A) (outs[computes g := Some v]) os (insert g ex)) \<or>
    (\<exists>h r outs'. g = InvG h \<and> outs ! gate_rhs h = Some r \<and> (\<forall>i. r * i mod m \<noteq> 1) \<and>
      mul_step E m outs (offsets_of g) = Some (outs', False))"
proof -
  from assms(1) have fl: "filled m L A outs" and o: "ordered L A (g # os)" by (simp_all add: progress_def)
  note f = filledD [OF fl]
  from o have need: "needs g \<subseteq> A" and c: "computes g \<notin> A" "computes g < L"
    and rest: "ordered L (insert (computes g) A) os" by simp_all
  have next_ok: "progress pre m L (insert (computes g) A) (outs[computes g := Some v]) os (insert g ex)"
    if "v < m" "holds m (outs[computes g := Some v]) g" for v
    by (rule progress_step [OF assms(1) c that(1) rest that(2)])
  show ?thesis
  proof (cases g)
    case (MulG h)
    then obtain l r where lr: "outs ! gate_lhs h = Some l" "outs ! gate_rhs h = Some r"
      using need f(6) by force
    moreover have lt: "gate_lhs h < L" "gate_rhs h < L" using need f(4) MulG by auto
    moreover have "outs ! gate_output h = None" using c f MulG by simp
    moreover from this lr have "gate_lhs h \<noteq> gate_output h" "gate_rhs h \<noteq> gate_output h" by auto
    ultimately have "mul_step E m outs (offsets_of g) =
        Some (outs[computes g := Some (l * r mod m)], True)"
      "holds m (outs[computes g := Some (l * r mod m)]) g"
      using c f(1) assms(2) MulG by (simp_all add: mul_step_def nth_opt_slot holds.simps)
    with next_ok [of "l * r mod m"] assms(2) show ?thesis
      by (intro disjI1 exI [of _ "l * r mod m"]) simp
  next
    case (InvG h)
    then obtain r where r: "outs ! gate_rhs h = Some r" using need f(6) by force
    have lt: "gate_lhs h < L" "gate_rhs h < L" using need f(4) c InvG by auto
    have lhs: "outs ! gate_lhs h = None" using c f InvG by simp
    obtain res where res: "ex_modinv E r m = Some res"
      and ok: "case res of Some i \<Rightarrow> i < m \<and> r * i mod m = 1 mod m | None \<Rightarrow> \<forall>i. r * i mod m \<noteq> 1 mod m"
      using assms(2,4) unfolding modinv_ok_def by (meson less_trans zero_less_one)
    show ?thesis
    proof (cases res)
      case None
      have "gcd r m \<noteq> 0" using assms(2) by simp
      with None res r lt lhs f(1) InvG assms(2,5)
      have "mul_step E m outs (offsets_of g) =
          Some (outs[gate_lhs h := Some (m div gcd r m)], False)"
        by (simp add: mul_step_def nth_opt_slot find_nullifier_def gcd_ok_def Let_def)
      with None ok r InvG assms(2) show ?thesis by auto
    next
      case (Some i)
      with ok assms(2) have i: "i < m" "i * r mod m = 1" by (simp_all add: mult.commute)
      have "gate_output h = 0" using o InvG by simp
      moreover have "gate_lhs h \<noteq> 0" using c(1) f(2) InvG by (metis computes.simps(4))
      moreover have "gate_rhs h \<noteq> gate_lhs h" using r lhs by auto
      ultimately have "holds m (outs[computes g := Some i]) g"
        using i r lt f(1,3) InvG by (simp add: holds.simps)
      moreover have "mul_step E m outs (offsets_of g) = Some (outs[computes g := Some i], True)"
        using Some res r lt lhs f(1) InvG by (simp add: mul_step_def nth_opt_slot)
      ultimately show ?thesis using next_ok [OF i(1)] i(1) by blast
    qed
  qed (use assms(3) in simp_all)
qed

text \<open>
  The whole loop on an ordered circuit: it never gets stuck, and stops early only at an
  inversion of a number that has no inverse.
\<close>

lemma gate_loop_ok:
  assumes "progress pre m L A outs os ex" "1 < m" "modinv_ok E" "gcd_ok E"
  shows "(\<exists>outs'. gate_loop E m outs (adds_of os) (muls_of os) = Some (outs', True) \<and>
      progress pre m L (A \<union> computes ` set os) outs' [] (ex \<union> set os)) \<or>
    (\<exists>h r outs'. InvG h \<in> ex \<union> set os \<and> (\<forall>i. r * i mod m \<noteq> 1) \<and>
      gate_loop E m outs (adds_of os) (muls_of os) = Some (outs', False))"
  using assms
proof (induction "muls_of os" arbitrary: os A outs ex)
  case Nil
  then obtain A' outs' os' ex' where a: "add_loop m outs (adds_of os) = Some (outs', adds_of os')"
    "progress pre m L A' outs' os' ex'" "muls_of os' = muls_of os" "set os \<union> ex = set os' \<union> ex'"
    "A' \<union> computes ` set os' = A \<union> computes ` set os" "\<forall>x xs. os' = x # xs \<longrightarrow> \<not> is_add x"
    using add_loop_ok [OF Nil(2)] by force
  have "os' = []"
  proof (cases os')
    case (Cons x xs)
    with a(6) have "muls_of os' \<noteq> []" by simp
    with a(3) Nil(1) show ?thesis by simp
  qed simp
  with a have "progress pre m L (A \<union> computes ` set os) outs' [] (ex \<union> set os)"
    by (simp add: Un_commute)
  with a(1) Nil(1) [symmetric] show ?case by auto
next
  case (Cons h hs)
  obtain A' outs' os' ex' where a: "add_loop m outs (adds_of os) = Some (outs', adds_of os')"
    "progress pre m L A' outs' os' ex'" "muls_of os' = muls_of os" "set os \<union> ex = set os' \<union> ex'"
    "A' \<union> computes ` set os' = A \<union> computes ` set os" "\<forall>x xs. os' = x # xs \<longrightarrow> \<not> is_add x"
    using add_loop_ok [OF Cons.prems(1)] Cons.prems(2) by force
  obtain g rest where os': "os' = g # rest" "\<not> is_add g" "offsets_of g = h" "muls_of rest = hs"
  proof (cases os')
    case Nil
    with a(3) Cons.hyps(2) show ?thesis by simp
  next
    case (Cons g rest)
    with a(3,6) Cons.hyps(2) show ?thesis using that by (metis adds_of_simps(4) list.inject)
  qed
  note loop = Cons.hyps(2) [symmetric] a(1) os'
  have prog: "progress pre m L A' outs' (g # rest) ex'" using a(2) os'(1) by simp
  from mul_step_ok [OF prog Cons.prems(2) os'(2) Cons.prems(3,4)] show ?case
  proof (elim disjE exE conjE)
    fix v
    assume v: "mul_step E m outs' (offsets_of g) = Some (outs'[computes g := Some v], True)"
      and p: "progress pre m L (insert (computes g) A') (outs'[computes g := Some v]) rest (insert g ex')"
    have step: "gate_loop E m outs (adds_of os) (muls_of os) =
        gate_loop E m (outs'[computes g := Some v]) (adds_of rest) (muls_of rest)"
      using loop v by simp
    have "insert (computes g) A' \<union> computes ` set rest = A \<union> computes ` set os"
      "insert g ex' \<union> set rest = ex \<union> set os" using a(4,5) os'(1) by auto
    then show ?thesis
      using Cons.hyps(1) [OF os'(4) [symmetric] p Cons.prems(2-4)] step by auto
  next
    fix h' r outs''
    assume "g = InvG h'" "\<forall>i. r * i mod m \<noteq> 1"
      "mul_step E m outs' (offsets_of g) = Some (outs'', False)"
    moreover have "g \<in> ex \<union> set os" using a(4) os'(1) by auto
    ultimately show ?thesis using loop by auto
  qed
qed

lemma those_map_Some: "those (map Some xs) = Some xs"
  by (induction xs) simp_all

lemma set_inputs_ok:
  "length pre = i + 1 \<Longrightarrow>
    set_inputs (pre @ replicate (length xs + k) None) i xs = Some (pre @ map Some xs @ replicate k None)"
proof (induction xs arbitrary: pre i)
  case (Cons x xs)
  have "set_slot (pre @ replicate (length (x # xs) + k) None) (i + 1) x =
      Some ((pre @ [Some x]) @ replicate (length xs + k) None)"
    using Cons.prems by (simp add: list_update_append)
  moreover have "set_inputs ((pre @ [Some x]) @ replicate (length xs + k) None) (i + 1) xs =
      Some ((pre @ [Some x]) @ map Some xs @ replicate k None)"
    using Cons.prems by (intro Cons.IH) simp
  ultimately show ?case by simp
qed simp

lemma all_filled:
  assumes "filled m L {..<L} outs"
  shows "\<exists>ys. outs = map Some ys \<and> length ys = L \<and> (\<forall>y \<in> set ys. y < m)"
proof -
  have f: "\<exists>v < m. outs ! i = Some v" if "i < length outs" for i
    using assms that by (auto simp: filled_def)
  have "outs = map Some (map the outs)"
    using f by (intro nth_equalityI) force+
  moreover have "\<forall>y \<in> set (map the outs). y < m"
    using f by (force simp: in_set_conv_nth)
  moreover have "length (map the outs) = L" using assms by (simp add: filled_def)
  ultimately show ?thesis by blast
qed

text \<open>The slots before the first gate.\<close>

definition first_slots :: "nat list \<Rightarrow> nat \<Rightarrow> slots" where
  "first_slots xs k = map Some (1 # xs) @ replicate k None"

lemma first_slots_filled:
  assumes "1 < m" "\<forall>x \<in> set xs. x < m"
  shows "filled m (1 + length xs + k) {..length xs} (first_slots xs k)"
proof -
  have "\<exists>v < m. first_slots xs k ! i = Some v" if "i \<le> length xs" for i
  proof -
    have "(1 # xs) ! i \<in> set (1 # xs)" using that by (intro nth_mem) simp
    then have "(1 # xs) ! i < m" using assms by auto
    moreover have "first_slots xs k ! i = Some ((1 # xs) ! i)"
      using that unfolding first_slots_def nth_append by (cases i) simp_all
    ultimately show ?thesis by simp
  qed
  then show ?thesis by (auto simp: filled_def first_slots_def nth_append)
qed

lemma eval_eval_loop:
  assumes "get_type R ct = Some (CircuitT (CircuitCT info))" "length xs = n_inputs info"
  shows "eval_eval E R ct [Unit, Unit, Unit, Circuit xs, CircuitModulus m, u, v] =
    do {
      (outs, success) \<leftarrow> gate_loop E m (first_slots xs (fcard (fmdom (gate_values info)))) (add_offsets info) (mul_offsets info);
      (if success
       then do {
         ys \<leftarrow> those (drop (1 + length xs) outs);
         Some (NormalBranch 0 [Unit, Unit, CircuitOutputs ys m]) }
       else Some (NormalBranch 1 [Unit, Unit, Unit, Unit])) }"
proof -
  define k where "k = fcard (fmdom (gate_values info))"
  have "do { outs \<leftarrow> set_slot (replicate (1 + length xs + k) None) 0 1; set_inputs outs 0 xs } = Some (first_slots xs k)"
    using set_inputs_ok [of "[Some 1]" 0 xs k] by (simp add: first_slots_def)
  then obtain outs1 where "set_slot (replicate (1 + n_inputs info + k) None) 0 1 = Some outs1"
    "set_inputs outs1 0 xs = Some (first_slots xs k)" by (auto simp: bind_Some assms(2))
  then show ?thesis unfolding eval_eval_def assms(2) using assms(1) by (simp add: k_def)
qed



lemma or_push_bit: "x < 2 ^ k \<Longrightarrow> x OR push_bit k y = x + 2 ^ k * y" for x y :: nat
proof -
  assume "x < 2 ^ k"
  then have "take_bit k x = x" by (simp add: take_bit_nat_eq_self_iff)
  then have "bit x i \<Longrightarrow> i < k" for i by (metis bit_take_bit_iff)
  then have "x OR push_bit k y = x + push_bit k y"
    by (intro disjunctive_add [symmetric]) (metis bit_push_bit_iff leD)
  then show ?thesis by (simp add: push_bit_eq_mult mult.commute)
qed

lemma limbs96_4:
  "n < 2 ^ 384 \<Longrightarrow> \<exists>a b c d. limbs96 4 n = [a, b, c, d] \<and> a < 2 ^ 96 \<and> b < 2 ^ 96 \<and> c < 2 ^ 96 \<and> d < 2 ^ 96 \<and>
    n = a + 2 ^ 96 * (b + 2 ^ 96 * (c + 2 ^ 96 * d))"
proof -
  assume n: "n < 2 ^ 384"
  have four: "(4 :: nat) = Suc (Suc (Suc (Suc 0)))" by simp
  have "n div 2 ^ 288 < 2 ^ 96" using n by (simp add: div_less_iff_less_mult)
  then have d: "n div 2 ^ 288 mod 2 ^ 96 = n div 2 ^ 288" by simp
  have "n = n mod 2 ^ 96 + 2 ^ 96 * (n div 2 ^ 96)"
    "n div 2 ^ 96 = n div 2 ^ 96 mod 2 ^ 96 + 2 ^ 96 * (n div 2 ^ 192)"
    "n div 2 ^ 192 = n div 2 ^ 192 mod 2 ^ 96 + 2 ^ 96 * (n div 2 ^ 288)"
    using mod_mult_div_eq [of n "2 ^ 96"] mod_mult_div_eq [of "n div 2 ^ 96" "2 ^ 96"]
      mod_mult_div_eq [of "n div 2 ^ 192" "2 ^ 96"] by (simp_all only: div_div_96)
  then have "n = n mod 2 ^ 96 + 2 ^ 96 * (n div 2 ^ 96 mod 2 ^ 96
      + 2 ^ 96 * (n div 2 ^ 192 mod 2 ^ 96 + 2 ^ 96 * (n div 2 ^ 288 mod 2 ^ 96)))"
    unfolding d by (metis (no_types))
  then show ?thesis
    unfolding four limbs96.simps div_div_96
    by (intro exI conjI) (rule refl | assumption | simp)+
qed

text \<open>
  A number below \<open>2 ^ 384\<close> survives the trip through its struct of 96-bit limbs: turned
  into guaranteed limbs it enters a circuit as the same number, and as a modulus it is
  accepted, unchanged, exactly when it is greater than 1.
\<close>

theorem u384_roundtrip:
  assumes "n < 2 ^ 384"
  shows "\<exists>v0 v1 v2 v3. u384_to_struct n = Struct [v0, v1, v2, v3] \<and>
    (\<exists>w0 w1 w2 w3. eval_into_u96_guarantee [v0] = Some (NormalBranch 0 [w0]) \<and>
      eval_into_u96_guarantee [v1] = Some (NormalBranch 0 [w1]) \<and>
      eval_into_u96_guarantee [v2] = Some (NormalBranch 0 [w2]) \<and>
      eval_into_u96_guarantee [v3] = Some (NormalBranch 0 [w3]) \<and>
      struct_to_u384 [w0, w1, w2, w3] = Some n) \<and>
    eval_try_into_circuit_modulus [u384_to_struct n] =
      Some (if 1 < n then NormalBranch 0 [CircuitModulus n] else NormalBranch 1 [])"
proof -
  from limbs96_4 [OF assms] obtain a b c d where l: "limbs96 4 n = [a, b, c, d]"
    and lt: "a < 2 ^ 96" "b < 2 ^ 96" "c < 2 ^ 96" "d < 2 ^ 96"
    and n: "n = a + 2 ^ 96 * (b + 2 ^ 96 * (c + 2 ^ 96 * d))" by blast
  have s: "u384_to_struct n = Struct [BoundedInt u96_range (int a), BoundedInt u96_range (int b),
      BoundedInt u96_range (int c), BoundedInt u96_range (int d)]"
    by (simp add: u384_to_struct_limbs l)
  have g: "eval_into_u96_guarantee [BoundedInt u96_range (int x)] =
      Some (NormalBranch 0 [U128 (of_nat x)])" "unat (of_nat x :: u128) = x" if "x < 2 ^ 96" for x
    using that by (simp_all add: eval_into_u96_guarantee_def to_unsigned_def unat_of_nat)
  have "struct_to_u384 [U128 (of_nat a), U128 (of_nat b), U128 (of_nat c), U128 (of_nat d)] = Some n"
    using lt by (simp add: struct_to_u384_def g(2) n)
  moreover have "((a OR push_bit 96 b) OR push_bit 192 c) OR push_bit 288 d = n"
  proof -
    have lt2: "a + 2 ^ 96 * b < 2 ^ 192" and lt3: "a + 2 ^ 96 * b + 2 ^ 192 * c < 2 ^ 288"
      using lt by simp_all
    show ?thesis
      unfolding or_push_bit [OF lt(1)] or_push_bit [OF lt2] or_push_bit [OF lt3] by (simp add: n)
  qed
  ultimately show ?thesis
    using lt by (simp add: s g eval_try_into_circuit_modulus_def biguint_of_def)
qed

lemma u384_roundtrip_witness:
  "eval_try_into_circuit_modulus [u384_to_struct (2 ^ 200 + 3)] =
    Some (NormalBranch 0 [CircuitModulus (2 ^ 200 + 3)])"
proof -
  have "2 ^ 200 + 3 < (2 :: nat) ^ 384" by simp
  from u384_roundtrip [OF this] show ?thesis by (elim exE conjE) simp
qed

end
