(* ===== verification/EcHashOps.thy ===== *)
theory EcHashOps
  imports Sample Externs
begin

text \<open>
  \<open>debug_utils/sierra-emu/src/vm/ec.rs\<close>, \<open>vm/pedersen.rs\<close> and \<open>vm/poseidon.rs\<close>: the
  curve libfuncs and the two hashes. The curve arithmetic and the hash functions belong to
  other crates and are parameters; the model is of how the code feeds them and of the
  representation of points, where \<open>(0, 0)\<close> stands for the point at infinity.
\<close>

section \<open>Elliptic curve\<close>

definition eval_ec_is_zero :: "val list \<Rightarrow> eval_action option" where
  "eval_ec_is_zero args =
    do {
      v \<leftarrow> args1 args;
      (_, y) \<leftarrow> as_ec_point v;
      Some (if y = 0 then NormalBranch 0 [] else NormalBranch 1 [v]) }"

definition eval_unwrap_point :: "val list \<Rightarrow> eval_action option" where
  "eval_unwrap_point args =
    do {
      v \<leftarrow> args1 args;
      (x, y) \<leftarrow> as_ec_point v;
      Some (NormalBranch 0 [Felt x, Felt y]) }"

definition eval_ec_neg :: "externs \<Rightarrow> val list \<Rightarrow> eval_action option" where
  "eval_ec_neg E args =
    do {
      v \<leftarrow> args1 args;
      (x, y) \<leftarrow> as_ec_point v;
      p \<leftarrow> ex_affine_new E x y;
      let point = ex_affine_neg E p;
      Some (NormalBranch 0 [EcPoint (fst point) (snd point)]) }"

definition eval_ec_new :: "externs \<Rightarrow> val list \<Rightarrow> eval_action option" where
  "eval_ec_new E args =
    do {
      (a, b) \<leftarrow> args2 args;
      x \<leftarrow> as_felt a;
      y \<leftarrow> as_felt b;
      Some (case ex_affine_new E x y of
          Some point \<Rightarrow> NormalBranch 0 [EcPoint (fst point) (snd point)]
        | None \<Rightarrow> NormalBranch 1 []) }"

definition eval_state_init :: "val list \<Rightarrow> eval_action option" where
  "eval_state_init args = Some (NormalBranch 0 [EcState 0 1 0])"

definition eval_state_add :: "externs \<Rightarrow> val list \<Rightarrow> eval_action option" where
  "eval_state_add E args =
    do {
      (s, p) \<leftarrow> args2 args;
      state \<leftarrow> as_ec_state s;
      (x, y) \<leftarrow> as_ec_point p;
      point \<leftarrow> ex_from_affine E x y;
      let (x, y, z) = ex_proj_add E state point;
      Some (NormalBranch 0 [EcState x y z]) }"

definition eval_state_add_mul :: "externs \<Rightarrow> val list \<Rightarrow> eval_action option" where
  "eval_state_add_mul E args =
    do {
      (ec, s, k, p) \<leftarrow> args4 args;
      as_unit ec;
      state \<leftarrow> as_ec_state s;
      scalar \<leftarrow> as_felt k;
      (x, y) \<leftarrow> as_ec_point p;
      point \<leftarrow> ex_from_affine E x y;
      let (x, y, z) = ex_proj_add E state (ex_proj_mul E point scalar);
      Some (NormalBranch 0 [ec, EcState x y z]) }"

definition eval_state_finalize :: "externs \<Rightarrow> val list \<Rightarrow> eval_action option" where
  "eval_state_finalize E args =
    do {
      s \<leftarrow> args1 args;
      state \<leftarrow> as_ec_state s;
      Some (case ex_to_affine E state of
          Some point \<Rightarrow> NormalBranch 0 [EcPoint (fst point) (snd point)]
        | None \<Rightarrow> NormalBranch 1 []) }"

definition eval_point_from_x :: "externs \<Rightarrow> val list \<Rightarrow> eval_action option" where
  "eval_point_from_x E args =
    do {
      (range_check, a) \<leftarrow> args2 args;
      as_unit range_check;
      x \<leftarrow> as_felt a;
      let x2 = x * x;
      let x3 = x2 * x;
      let alpha_x_plus_beta = x + ex_beta E;
      let rhs = x3 + alpha_x_plus_beta;
      let y = (case ex_felt_sqrt E rhs of Some r \<Rightarrow> r | None \<Rightarrow> felt_of_int 3 * rhs);
      Some (case ex_affine_new E x y of
          Some point \<Rightarrow> NormalBranch 0 [range_check, EcPoint (fst point) (snd point)]
        | None \<Rightarrow> NormalBranch 1 [range_check]) }"

definition eval_ec_zero :: "val list \<Rightarrow> eval_action option" where
  "eval_ec_zero args = Some (NormalBranch 0 [EcPoint 0 0])"

definition eval_ec :: "externs \<Rightarrow> ec_lib \<Rightarrow> val list \<Rightarrow> eval_action option" where
  "eval_ec E selector args =
    (case selector of
      EcIsZero \<Rightarrow> eval_ec_is_zero args
    | EcNeg \<Rightarrow> eval_ec_neg E args
    | EcStateAdd \<Rightarrow> eval_state_add E args
    | EcTryNew \<Rightarrow> eval_ec_new E args
    | EcStateFinalize \<Rightarrow> eval_state_finalize E args
    | EcStateInit \<Rightarrow> eval_state_init args
    | EcStateAddMul \<Rightarrow> eval_state_add_mul E args
    | EcPointFromX \<Rightarrow> eval_point_from_x E args
    | EcUnwrapPoint \<Rightarrow> eval_unwrap_point args
    | EcZero \<Rightarrow> eval_ec_zero args
    | EcNegNz \<Rightarrow> eval_ec_neg E args)"

section \<open>Hashes\<close>

definition eval_pedersen :: "externs \<Rightarrow> val list \<Rightarrow> eval_action option" where
  "eval_pedersen E args =
    do {
      (pedersen, a, b) \<leftarrow> args3 args;
      as_unit pedersen;
      lhs \<leftarrow> as_felt a;
      rhs \<leftarrow> as_felt b;
      Some (NormalBranch 0 [pedersen, Felt (ex_pedersen_hash E lhs rhs)]) }"

definition eval_poseidon :: "externs \<Rightarrow> val list \<Rightarrow> eval_action option" where
  "eval_poseidon E args =
    do {
      (poseidon, a, b, c) \<leftarrow> args4 args;
      as_unit poseidon;
      p1 \<leftarrow> as_felt a;
      p2 \<leftarrow> as_felt b;
      p3 \<leftarrow> as_felt c;
      let (s0, s1, s2) = ex_poseidon_permute E (p1, p2, p3);
      Some (NormalBranch 0 [poseidon, Felt s0, Felt s1, Felt s2]) }"

section \<open>What the evaluators do\<close>

text \<open>
  The points a program can make are on the curve: creating a point from coordinates
  succeeds exactly on the curve and unwraps to the same coordinates, its negation is the
  other point with that \<open>x\<close>, a point found from \<open>x\<close> alone has that \<open>x\<close> and lies on the
  curve, and finding it fails only when the square root is not found.
\<close>

theorem ec_points_on_curve:
  assumes "curve_ok E"
  shows "(if on_curve E x y
      then \<exists>p n. eval_ec E EcTryNew [Felt x, Felt y] = Some (NormalBranch 0 [p]) \<and>
        eval_ec E EcUnwrapPoint [p] = Some (NormalBranch 0 [Felt x, Felt y]) \<and>
        eval_ec E EcNeg [p] = Some (NormalBranch 0 [n]) \<and>
        eval_ec E EcUnwrapPoint [n] = Some (NormalBranch 0 [Felt x, Felt (- y)]) \<and>
        eval_ec E EcNeg [n] = Some (NormalBranch 0 [p])
      else eval_ec E EcTryNew [Felt x, Felt y] = Some (NormalBranch 1 [])) \<and>
    ((\<exists>y'. on_curve E x y' \<and>
        eval_ec E EcPointFromX [Unit, Felt x] = Some (NormalBranch 0 [Unit, EcPoint x y'])) \<or>
      eval_ec E EcPointFromX [Unit, Felt x] = Some (NormalBranch 1 [Unit]) \<and>
      ex_felt_sqrt E (x * x * x + (x + ex_beta E)) = None)"
proof -
  have new: "ex_affine_new E a b = (if on_curve E a b then Some (a, b) else None)" for a b
    using assms by (simp add: curve_ok_def)
  have neg: "ex_affine_neg E (a, b) = (a, - b)" for a b using assms by (simp add: curve_ok_def)
  have sqrt: "r * r = f" if "ex_felt_sqrt E f = Some r" for f r
    using assms that by (simp add: curve_ok_def)
  have flip: "on_curve E x (- y) = on_curve E x y" by (simp add: on_curve_def)
  have "(if on_curve E x y
      then \<exists>p n. eval_ec E EcTryNew [Felt x, Felt y] = Some (NormalBranch 0 [p]) \<and>
        eval_ec E EcUnwrapPoint [p] = Some (NormalBranch 0 [Felt x, Felt y]) \<and>
        eval_ec E EcNeg [p] = Some (NormalBranch 0 [n]) \<and>
        eval_ec E EcUnwrapPoint [n] = Some (NormalBranch 0 [Felt x, Felt (- y)]) \<and>
        eval_ec E EcNeg [n] = Some (NormalBranch 0 [p])
      else eval_ec E EcTryNew [Felt x, Felt y] = Some (NormalBranch 1 []))"
    by (simp add: eval_ec_def eval_ec_new_def eval_unwrap_point_def eval_ec_neg_def new neg flip)
  moreover define rhs where "rhs = x * x * x + (x + ex_beta E)"
  define y' where "y' = (case ex_felt_sqrt E rhs of Some r \<Rightarrow> r | None \<Rightarrow> felt_of_int 3 * rhs)"
  have "eval_ec E EcPointFromX [Unit, Felt x] =
      Some (if on_curve E x y' then NormalBranch 0 [Unit, EcPoint x y'] else NormalBranch 1 [Unit])"
    unfolding y'_def rhs_def by (simp add: eval_ec_def eval_point_from_x_def new Let_def)
  moreover have "on_curve E x y'" if "ex_felt_sqrt E rhs = Some r" for r
    using sqrt [OF that] that by (simp add: y'_def on_curve_def rhs_def)
  ultimately show ?thesis
    unfolding rhs_def by (cases "ex_felt_sqrt E (x * x * x + (x + ex_beta E))") auto
qed

lemma ec_points_on_curve_witness:
  "\<exists>p n. eval_ec ref_externs EcTryNew [Felt 0, Felt 0] = Some (NormalBranch 0 [p]) \<and>
    eval_ec ref_externs EcUnwrapPoint [p] = Some (NormalBranch 0 [Felt 0, Felt 0]) \<and>
    eval_ec ref_externs EcNeg [p] = Some (NormalBranch 0 [n])"
proof -
  have "on_curve ref_externs 0 0" by (simp add: on_curve_def ref_externs_def)
  with ec_points_on_curve [OF ref_curve_ok, of 0 0] show ?thesis by auto
qed

text \<open>
  A fresh accumulator is at infinity, so finalizing it takes the failure branch, and in
  general finalizing fails exactly on the accumulators at infinity; the zero point is the only
  representation that tests as zero among the values \<open>ec_zero\<close> and points with \<open>y\<close> not 0.
\<close>

theorem ec_state_infinity:
  assumes "curve_ok E"
  shows "(\<exists>s. eval_ec E EcStateInit [] = Some (NormalBranch 0 [s]) \<and>
      eval_ec E EcStateFinalize [s] = Some (NormalBranch 1 [])) \<and>
    (eval_ec E EcStateFinalize [EcState x y z] = Some (NormalBranch 1 []) \<longleftrightarrow> z = 0) \<and>
    (\<exists>o'. eval_ec E EcZero [] = Some (NormalBranch 0 [o']) \<and>
      eval_ec E EcIsZero [o'] = Some (NormalBranch 0 [])) \<and>
    (y \<noteq> 0 \<longrightarrow> eval_ec E EcIsZero [EcPoint x y] = Some (NormalBranch 1 [EcPoint x y]))"
proof -
  have "(ex_to_affine E (a, b, c) = None) = (c = 0)" for a b c
    using assms by (simp add: curve_ok_def)
  from this [of 0 1 0] this [of x y z] show ?thesis
    by (cases "ex_to_affine E (x, y, z)")
      (simp_all add: eval_ec_def eval_state_init_def eval_state_finalize_def eval_ec_zero_def
        eval_ec_is_zero_def)
qed

lemma ec_state_infinity_witness:
  "eval_ec ref_externs EcStateFinalize [EcState 1 1 1] \<noteq> Some (NormalBranch 1 []) \<and>
    eval_ec ref_externs EcIsZero [EcPoint 0 1] = Some (NormalBranch 1 [EcPoint 0 1])"
  using ec_state_infinity [OF ref_curve_ok, of 1 1 1] ec_state_infinity [OF ref_curve_ok, of 0 1 0]
  by simp

end
