(* ===== verification/StarknetOps.thy ===== *)
theory StarknetOps
  imports StubHandler Externs Sample
begin

text \<open>
  \<open>debug_utils/sierra-emu/src/vm/starknet.rs\<close>: the Starknet library functions. Those that
  make a system call take the handler and its state, and return the state beside the outcome;
  the others leave it alone. The error branch of a call carries the felts of the error in an
  array whose element type is read off the signature.
\<close>

section \<open>Shared shapes\<close>

text \<open>The element type of the array in variable 2 of a branch.\<close>

definition branch_felt_ty :: "registry \<Rightarrow> signature \<Rightarrow> nat \<Rightarrow> type_id option" where
  "branch_felt_ty R sg i = do { t \<leftarrow> branch_ty sg i 2; get_array_ty R t }"

definition felt_array :: "type_id \<Rightarrow> felt list \<Rightarrow> val" where
  "felt_array ty fs = Array ty (map Felt fs)"

text \<open>\<open>let [Value::Array { data, .. }]: [Value; 1] = s.try_into().unwrap()\<close>, and reading every
  element as one variant.\<close>

definition span_data :: "val \<Rightarrow> val list option" where
  "span_data w = do { vs \<leftarrow> as_struct w; v \<leftarrow> args1 vs; (_, data) \<leftarrow> as_array v; Some data }"

definition span_felts :: "val \<Rightarrow> felt list option" where
  "span_felts w = do { data \<leftarrow> span_data w; map_opt as_felt data }"

text \<open>
  The two outcomes of a call as branches: the values of a success behind the gas and the
  system, and the error felts as an array on branch \<open>i\<close>.
\<close>

definition syscall_branches ::
  "nat \<Rightarrow> val \<Rightarrow> type_id \<Rightarrow> ('a \<Rightarrow> val list) \<Rightarrow> 'a syscall_result \<times> u64 \<times> 's \<Rightarrow> eval_action \<times> 's" where
  "syscall_branches i system felt_ty ok r =
    (case r of
      (Inr a, gas, s) \<Rightarrow> (NormalBranch 0 (U64 gas # system # ok a), s)
    | (Inl e, gas, s) \<Rightarrow> (NormalBranch i [U64 gas, system, felt_array felt_ty e], s))"

lemma syscall_branches_simps [simp]:
  "syscall_branches i system t ok (Inr a, gas, s) = (NormalBranch 0 (U64 gas # system # ok a), s)"
  "syscall_branches i system t ok (Inl e, gas, s) =
    (NormalBranch i [U64 gas, system, felt_array t e], s)"
  by (simp_all add: syscall_branches_def)

lemma span_felts_Some [simp]:
  "(span_felts w = Some fs) = (\<exists>t. w = Struct [Array t (map Felt fs)])"
proof
  assume "span_felts w = Some fs"
  then show "\<exists>t. w = Struct [Array t (map Felt fs)]"
    by (auto simp: span_felts_def span_data_def bind_Some map_opt_Some list_all2_conv_all_nth
        intro!: nth_equalityI)
qed (auto simp: span_felts_def span_data_def map_opt_Some list_all2_conv_all_nth)

lemma span_felts_exact [simp]: "span_felts (Struct [Array t (map Felt fs)]) = Some fs"
  by simp

section \<open>Elliptic curve calls\<close>

definition point_option_value :: "type_id \<Rightarrow> val option \<Rightarrow> val" where
  "point_option_value enum_ty p =
    (case p of Some v \<Rightarrow> Enum enum_ty 0 v | None \<Rightarrow> Enum enum_ty 1 (Struct []))"

text \<open>
  \<open>Result::map\<close> on the result of a call, and the match on the result that looks the types
  up on the branch it is on.
\<close>

definition map_result :: "('a \<Rightarrow> 'b) \<Rightarrow> ('a syscall_result \<times> u64 \<times> 's) option \<Rightarrow>
    ('b syscall_result \<times> u64 \<times> 's) option" where
  "map_result f r = map_option (\<lambda>(x, gas, s). (map_sum id f x, gas, s)) r"

definition secp_point_branches ::
  "registry \<Rightarrow> signature \<Rightarrow> val \<Rightarrow> val option syscall_result \<times> u64 \<times> 's \<Rightarrow> (eval_action \<times> 's) option" where
  "secp_point_branches R sg system r =
    (case r of
      (Inr p, gas, s) \<Rightarrow>
        do {
          enum_ty \<leftarrow> branch_ty sg 0 2;
          Some (NormalBranch 0 [U64 gas, system, point_option_value enum_ty p], s) }
    | (Inl payload, gas, s) \<Rightarrow>
        do {
          felt_ty \<leftarrow> branch_felt_ty R sg 1;
          Some (NormalBranch 1 [U64 gas, system, felt_array felt_ty payload], s) })"

definition eval_secp256_new ::
  "'s syscall_handler \<Rightarrow> registry \<Rightarrow> signature \<Rightarrow> secp_point_type \<Rightarrow> val list \<Rightarrow> 's \<Rightarrow>
    (eval_action \<times> 's) option" where
  "eval_secp256_new H R sg secp_type args s =
    do {
      (v0, system, v2, v3) \<leftarrow> args4 args;
      gas \<leftarrow> as_u64 v0;
      as_unit system;
      as_struct v2;
      as_struct v3;
      x \<leftarrow> u256_from_value v2;
      y \<leftarrow> u256_from_value v3;
      r \<leftarrow> (case secp_type of
              K1 \<Rightarrow> map_result (map_option secp256k1_point_into_value) (secp256k1_new H x y gas s)
            | R1 \<Rightarrow> map_result (map_option secp256r1_point_into_value) (secp256r1_new H x y gas s));
      secp_point_branches R sg system r }"

definition eval_secp256_add ::
  "'s syscall_handler \<Rightarrow> secp_point_type \<Rightarrow> val list \<Rightarrow> 's \<Rightarrow> (eval_action \<times> 's) option" where
  "eval_secp256_add H secp_type args s =
    do {
      (v0, system, v2, v3) \<leftarrow> args4 args;
      gas \<leftarrow> as_u64 v0;
      as_unit system;
      r \<leftarrow> (case secp_type of
              K1 \<Rightarrow>
                do {
                  x \<leftarrow> secp256k1_point_from_value v2;
                  y \<leftarrow> secp256k1_point_from_value v3;
                  map_result secp256k1_point_into_value (secp256k1_add H x y gas s) }
            | R1 \<Rightarrow>
                do {
                  x \<leftarrow> secp256r1_point_from_value v2;
                  y \<leftarrow> secp256r1_point_from_value v3;
                  map_result secp256r1_point_into_value (secp256r1_add H x y gas s) });
      (case r of
        (Inr x, gas', s') \<Rightarrow> Some (NormalBranch 0 [U64 gas', system, x], s')
      | (Inl e, gas', s') \<Rightarrow> Some (NormalBranch 1 [U64 gas', system, Struct (map Felt e)], s')) }"

definition eval_secp256_mul ::
  "'s syscall_handler \<Rightarrow> secp_point_type \<Rightarrow> val list \<Rightarrow> 's \<Rightarrow> (eval_action \<times> 's) option" where
  "eval_secp256_mul H secp_type args s =
    do {
      (v0, system, v2, v3) \<leftarrow> args4 args;
      gas \<leftarrow> as_u64 v0;
      as_unit system;
      n \<leftarrow> u256_from_value v3;
      r \<leftarrow> (case secp_type of
              K1 \<Rightarrow>
                do {
                  x \<leftarrow> secp256k1_point_from_value v2;
                  map_result secp256k1_point_into_value (secp256k1_mul H x n gas s) }
            | R1 \<Rightarrow>
                do {
                  x \<leftarrow> secp256r1_point_from_value v2;
                  map_result secp256r1_point_into_value (secp256r1_mul H x n gas s) });
      (case r of
        (Inr x, gas', s') \<Rightarrow> Some (NormalBranch 0 [U64 gas', system, x], s')
      | (Inl e, gas', s') \<Rightarrow> Some (NormalBranch 1 [U64 gas', system, Struct (map Felt e)], s')) }"

definition eval_secp256_get_point_from_x ::
  "'s syscall_handler \<Rightarrow> registry \<Rightarrow> signature \<Rightarrow> secp_point_type \<Rightarrow> val list \<Rightarrow> 's \<Rightarrow>
    (eval_action \<times> 's) option" where
  "eval_secp256_get_point_from_x H R sg secp_type args s =
    do {
      (v0, system, v2, v3) \<leftarrow> args4 args;
      gas \<leftarrow> as_u64 v0;
      as_unit system;
      as_struct v2;
      (_, index, _) \<leftarrow> as_enum v3;
      x \<leftarrow> u256_from_value v2;
      let y_parity = (index = 1);
      r \<leftarrow> (case secp_type of
              K1 \<Rightarrow> map_result (map_option secp256k1_point_into_value)
                     (secp256k1_get_point_from_x H x y_parity gas s)
            | R1 \<Rightarrow> map_result (map_option secp256r1_point_into_value)
                     (secp256r1_get_point_from_x H x y_parity gas s));
      secp_point_branches R sg system r }"

text \<open>The error branch has the number 0 in the code, as written here.\<close>

definition eval_secp256_get_xy ::
  "'s syscall_handler \<Rightarrow> registry \<Rightarrow> signature \<Rightarrow> secp_point_type \<Rightarrow> val list \<Rightarrow> 's \<Rightarrow>
    (eval_action \<times> 's) option" where
  "eval_secp256_get_xy H R sg secp_type args s =
    do {
      (v0, system, v2) \<leftarrow> args3 args;
      gas \<leftarrow> as_u64 v0;
      as_unit system;
      r \<leftarrow> (case secp_type of
              K1 \<Rightarrow> do { p \<leftarrow> secp256k1_point_from_value v2; secp256k1_get_xy H p gas s }
            | R1 \<Rightarrow> do { p \<leftarrow> secp256r1_point_from_value v2; secp256r1_get_xy H p gas s });
      (case r of
        (Inr (x, y), gas', s') \<Rightarrow>
          Some (NormalBranch 0 [U64 gas', system, u256_into_value x, u256_into_value y], s')
      | (Inl payload, gas', s') \<Rightarrow>
          do {
            felt_ty \<leftarrow> branch_felt_ty R sg 1;
            Some (NormalBranch 0 [U64 gas', system, felt_array felt_ty payload], s') }) }"

section \<open>Class hashes, addresses and storage addresses\<close>

text \<open>The bound of the three checked conversions, as the decimal literal of the code.\<close>

definition ADDRESS_BOUND :: int where
  "ADDRESS_BOUND = 3618502788666131106986593281521497120414687020801267626233049500247285301248"

definition eval_class_hash_const :: "int \<Rightarrow> val list \<Rightarrow> eval_action option" where
  "eval_class_hash_const c args = Some (NormalBranch 0 [Felt (felt_of_int c)])"

definition eval_storage_base_address_const :: "int \<Rightarrow> val list \<Rightarrow> eval_action option" where
  "eval_storage_base_address_const c args = Some (NormalBranch 0 [Felt (felt_of_int c)])"

definition eval_contract_address_const :: "int \<Rightarrow> val list \<Rightarrow> eval_action option" where
  "eval_contract_address_const c args = Some (NormalBranch 0 [Felt (felt_of_int c)])"

definition eval_class_hash_try_from_felt :: "val list \<Rightarrow> eval_action option" where
  "eval_class_hash_try_from_felt args =
    do {
      (range_check, v) \<leftarrow> args2 args;
      as_unit range_check;
      x \<leftarrow> as_felt v;
      Some (if x < felt_of_int ADDRESS_BOUND then NormalBranch 0 [range_check, Felt x]
            else NormalBranch 1 [range_check]) }"

definition eval_contract_address_try_from_felt :: "val list \<Rightarrow> eval_action option" where
  "eval_contract_address_try_from_felt args =
    do {
      (range_check, v) \<leftarrow> args2 args;
      as_unit range_check;
      x \<leftarrow> as_felt v;
      Some (if x < felt_of_int ADDRESS_BOUND then NormalBranch 0 [range_check, Felt x]
            else NormalBranch 1 [range_check]) }"

definition eval_storage_address_try_from_felt :: "val list \<Rightarrow> eval_action option" where
  "eval_storage_address_try_from_felt args =
    do {
      (range_check, v) \<leftarrow> args2 args;
      as_unit range_check;
      x \<leftarrow> as_felt v;
      Some (if x < felt_of_int ADDRESS_BOUND then NormalBranch 0 [range_check, Felt x]
            else NormalBranch 1 [range_check]) }"

definition eval_storage_base_address_from_felt :: "val list \<Rightarrow> eval_action option" where
  "eval_storage_base_address_from_felt args =
    do { (range_check, v) \<leftarrow> args2 args; Some (NormalBranch 0 [range_check, v]) }"

definition eval_storage_address_to_felt :: "val list \<Rightarrow> eval_action option" where
  "eval_storage_address_to_felt args = do { v \<leftarrow> args1 args; Some (NormalBranch 0 [v]) }"

definition eval_contract_address_to_felt :: "val list \<Rightarrow> eval_action option" where
  "eval_contract_address_to_felt args = do { v \<leftarrow> args1 args; Some (NormalBranch 0 [v]) }"

definition eval_class_hash_to_felt :: "val list \<Rightarrow> eval_action option" where
  "eval_class_hash_to_felt args = do { v \<leftarrow> args1 args; Some (NormalBranch 0 [v]) }"

definition eval_storage_address_from_base :: "val list \<Rightarrow> eval_action option" where
  "eval_storage_address_from_base args = do { v \<leftarrow> args1 args; Some (NormalBranch 0 [v]) }"

definition eval_storage_address_from_base_and_offset :: "val list \<Rightarrow> eval_action option" where
  "eval_storage_address_from_base_and_offset args =
    do {
      (v0, v1) \<leftarrow> args2 args;
      x \<leftarrow> as_felt v0;
      offset \<leftarrow> as_u8 v1;
      Some (NormalBranch 0 [Felt (x + felt_of_int (uint offset))]) }"

section \<open>Calls on contracts, storage and events\<close>

definition eval_call_contract ::
  "'s syscall_handler \<Rightarrow> registry \<Rightarrow> signature \<Rightarrow> val list \<Rightarrow> 's \<Rightarrow> (eval_action \<times> 's) option" where
  "eval_call_contract H R sg args s =
    do {
      (v0, system, v2, v3, v4) \<leftarrow> args5 args;
      gas \<leftarrow> as_u64 v0;
      address \<leftarrow> as_felt v2;
      entry_point_selector \<leftarrow> as_felt v3;
      as_struct v4;
      calldata \<leftarrow> span_felts v4;
      felt_ty \<leftarrow> branch_felt_ty R sg 1;
      r \<leftarrow> call_contract H address entry_point_selector calldata gas s;
      Some (syscall_branches 1 system felt_ty (\<lambda>fs. [Struct [felt_array felt_ty fs]]) r) }"

definition eval_storage_read ::
  "'s syscall_handler \<Rightarrow> registry \<Rightarrow> signature \<Rightarrow> val list \<Rightarrow> 's \<Rightarrow> (eval_action \<times> 's) option" where
  "eval_storage_read H R sg args s =
    do {
      (v0, system, v2, v3) \<leftarrow> args4 args;
      gas \<leftarrow> as_u64 v0;
      address_domain \<leftarrow> as_u32 v2;
      storage_key \<leftarrow> as_felt v3;
      felt_ty \<leftarrow> branch_felt_ty R sg 1;
      r \<leftarrow> storage_read H address_domain storage_key gas s;
      Some (syscall_branches 1 system felt_ty (\<lambda>x. [Felt x]) r) }"

definition eval_storage_write ::
  "'s syscall_handler \<Rightarrow> registry \<Rightarrow> signature \<Rightarrow> val list \<Rightarrow> 's \<Rightarrow> (eval_action \<times> 's) option" where
  "eval_storage_write H R sg args s =
    do {
      (v0, system, v2, v3, v4) \<leftarrow> args5 args;
      gas \<leftarrow> as_u64 v0;
      address_domain \<leftarrow> as_u32 v2;
      storage_key \<leftarrow> as_felt v3;
      x \<leftarrow> as_felt v4;
      felt_ty \<leftarrow> branch_felt_ty R sg 1;
      r \<leftarrow> storage_write H address_domain storage_key x gas s;
      Some (syscall_branches 1 system felt_ty (\<lambda>_. []) r) }"

definition eval_emit_event ::
  "'s syscall_handler \<Rightarrow> registry \<Rightarrow> signature \<Rightarrow> val list \<Rightarrow> 's \<Rightarrow> (eval_action \<times> 's) option" where
  "eval_emit_event H R sg args s =
    do {
      (v0, system, v2, v3) \<leftarrow> args4 args;
      gas \<leftarrow> as_u64 v0;
      keys \<leftarrow> span_felts v2;
      data \<leftarrow> span_felts v3;
      felt_ty \<leftarrow> branch_felt_ty R sg 1;
      r \<leftarrow> emit_event H keys data gas s;
      Some (syscall_branches 1 system felt_ty (\<lambda>_. []) r) }"

definition eval_get_block_hash ::
  "'s syscall_handler \<Rightarrow> registry \<Rightarrow> signature \<Rightarrow> val list \<Rightarrow> 's \<Rightarrow> (eval_action \<times> 's) option" where
  "eval_get_block_hash H R sg args s =
    do {
      (v0, system, v2) \<leftarrow> args3 args;
      gas \<leftarrow> as_u64 v0;
      n \<leftarrow> as_u64 v2;
      felt_ty \<leftarrow> branch_felt_ty R sg 1;
      r \<leftarrow> get_block_hash H n gas s;
      Some (syscall_branches 1 system felt_ty (\<lambda>x. [Felt x]) r) }"

definition eval_get_execution_info ::
  "'s syscall_handler \<Rightarrow> registry \<Rightarrow> signature \<Rightarrow> val list \<Rightarrow> 's \<Rightarrow> (eval_action \<times> 's) option" where
  "eval_get_execution_info H R sg args s =
    do {
      (v0, system) \<leftarrow> args2 args;
      gas \<leftarrow> as_u64 v0;
      felt_ty \<leftarrow> branch_felt_ty R sg 1;
      r \<leftarrow> get_execution_info H gas s;
      Some (syscall_branches 1 system felt_ty (\<lambda>info. [execution_info_into_value info felt_ty]) r) }"

text \<open>
  The walk to the element type of the resource bounds: each step goes into the current type
  when it has the expected form and stays where it is otherwise.
\<close>

definition into_box :: "registry \<Rightarrow> type_id \<Rightarrow> type_id option" where
  "into_box R t = do { ty \<leftarrow> get_type R t; case ty of BoxT e \<Rightarrow> Some e | _ \<Rightarrow> Some t }"
definition into_member :: "registry \<Rightarrow> nat \<Rightarrow> type_id \<Rightarrow> type_id option" where
  "into_member R i t = do { ty \<leftarrow> get_type R t; case ty of StructT ms \<Rightarrow> nth_opt ms i | _ \<Rightarrow> Some t }"
definition into_snapshot :: "registry \<Rightarrow> type_id \<Rightarrow> type_id option" where
  "into_snapshot R t = do { ty \<leftarrow> get_type R t; case ty of SnapshotT e \<Rightarrow> Some e | _ \<Rightarrow> Some t }"
definition into_array :: "registry \<Rightarrow> type_id \<Rightarrow> type_id option" where
  "into_array R t = do { ty \<leftarrow> get_type R t; case ty of ArrayT e \<Rightarrow> Some e | _ \<Rightarrow> Some t }"

definition eval_get_execution_info_v2 ::
  "'s syscall_handler \<Rightarrow> registry \<Rightarrow> signature \<Rightarrow> val list \<Rightarrow> 's \<Rightarrow> (eval_action \<times> 's) option" where
  "eval_get_execution_info_v2 H R sg args s =
    do {
      (v0, system) \<leftarrow> args2 args;
      gas \<leftarrow> as_u64 v0;
      felt_ty \<leftarrow> branch_felt_ty R sg 1;
      r \<leftarrow> get_execution_info_v2 H gas s;
      t \<leftarrow> branch_ty sg 0 2;
      t \<leftarrow> into_box R t;
      t \<leftarrow> into_member R 1 t;
      t \<leftarrow> into_box R t;
      t \<leftarrow> into_member R 7 t;
      t \<leftarrow> into_member R 0 t;
      t \<leftarrow> into_snapshot R t;
      bounds_ty \<leftarrow> into_array R t;
      Some (syscall_branches 1 system felt_ty
        (\<lambda>info. [execution_info_v2_into_value info felt_ty bounds_ty]) r) }"

definition eval_get_execution_info_v3 ::
  "registry \<Rightarrow> signature \<Rightarrow> val list \<Rightarrow> eval_action option" where
  "eval_get_execution_info_v3 R sg args =
    do {
      (v0, system) \<leftarrow> args2 args;
      gas \<leftarrow> as_u64 v0;
      felt_ty \<leftarrow> branch_felt_ty R sg 1;
      Some (NormalBranch 1 [U64 gas, system,
        felt_array felt_ty [felt_of_text ''get_execution_info_v3 not yet wired in sierra-emu'']]) }"

definition eval_deploy ::
  "'s syscall_handler \<Rightarrow> registry \<Rightarrow> signature \<Rightarrow> val list \<Rightarrow> 's \<Rightarrow> (eval_action \<times> 's) option" where
  "eval_deploy H R sg args s =
    do {
      (v0, system, v2, v3, v4, v5) \<leftarrow> args6 args;
      gas \<leftarrow> as_u64 v0;
      class_hash \<leftarrow> as_felt v2;
      contract_address_salt \<leftarrow> as_felt v3;
      as_struct v4;
      (_, index, _) \<leftarrow> as_enum v5;
      calldata \<leftarrow> span_felts v4;
      felt_ty \<leftarrow> branch_felt_ty R sg 1;
      r \<leftarrow> deploy H class_hash contract_address_salt calldata (index \<noteq> 0) gas s;
      Some (syscall_branches 1 system felt_ty (\<lambda>(address, fs). [Felt address, Struct [felt_array felt_ty fs]]) r) }"

definition eval_keccak ::
  "'s syscall_handler \<Rightarrow> registry \<Rightarrow> signature \<Rightarrow> val list \<Rightarrow> 's \<Rightarrow> (eval_action \<times> 's) option" where
  "eval_keccak H R sg args s =
    do {
      (v0, system, v2) \<leftarrow> args3 args;
      gas \<leftarrow> as_u64 v0;
      data \<leftarrow> span_data v2;
      input \<leftarrow> map_opt as_u64 data;
      r \<leftarrow> keccak H input gas s;
      felt_ty \<leftarrow> branch_felt_ty R sg 1;
      Some (syscall_branches 1 system felt_ty (\<lambda>h. [u256_into_value h]) r) }"

definition eval_library_call ::
  "'s syscall_handler \<Rightarrow> registry \<Rightarrow> signature \<Rightarrow> val list \<Rightarrow> 's \<Rightarrow> (eval_action \<times> 's) option" where
  "eval_library_call H R sg args s =
    do {
      (v0, system, v2, v3, v4) \<leftarrow> args5 args;
      gas \<leftarrow> as_u64 v0;
      class_hash \<leftarrow> as_felt v2;
      function_selector \<leftarrow> as_felt v3;
      as_struct v4;
      calldata \<leftarrow> span_felts v4;
      felt_ty \<leftarrow> branch_felt_ty R sg 1;
      r \<leftarrow> library_call H class_hash function_selector calldata gas s;
      Some (syscall_branches 1 system felt_ty (\<lambda>fs. [Struct [felt_array felt_ty fs]]) r) }"

definition eval_replace_class ::
  "'s syscall_handler \<Rightarrow> registry \<Rightarrow> signature \<Rightarrow> val list \<Rightarrow> 's \<Rightarrow> (eval_action \<times> 's) option" where
  "eval_replace_class H R sg args s =
    do {
      (v0, system, v2) \<leftarrow> args3 args;
      gas \<leftarrow> as_u64 v0;
      class_hash \<leftarrow> as_felt v2;
      felt_ty \<leftarrow> branch_felt_ty R sg 1;
      r \<leftarrow> replace_class H class_hash gas s;
      Some (syscall_branches 1 system felt_ty (\<lambda>_. []) r) }"

definition eval_send_message_to_l1 ::
  "'s syscall_handler \<Rightarrow> registry \<Rightarrow> signature \<Rightarrow> val list \<Rightarrow> 's \<Rightarrow> (eval_action \<times> 's) option" where
  "eval_send_message_to_l1 H R sg args s =
    do {
      (v0, system, v2, v3) \<leftarrow> args4 args;
      gas \<leftarrow> as_u64 v0;
      address \<leftarrow> as_felt v2;
      payload \<leftarrow> span_felts v3;
      felt_ty \<leftarrow> branch_felt_ty R sg 1;
      r \<leftarrow> send_message_to_l1 H address payload gas s;
      Some (syscall_branches 1 system felt_ty (\<lambda>_. []) r) }"

section \<open>SHA-2, class hashes and meta transactions\<close>

definition eval_sha256_state_handle_init :: "val list \<Rightarrow> eval_action option" where
  "eval_sha256_state_handle_init args = do { v \<leftarrow> args1 args; Some (NormalBranch 0 [v]) }"

definition eval_sha256_state_handle_digest :: "val list \<Rightarrow> eval_action option" where
  "eval_sha256_state_handle_digest args = do { v \<leftarrow> args1 args; Some (NormalBranch 0 [v]) }"

definition eval_sha256_process_block ::
  "'s syscall_handler \<Rightarrow> registry \<Rightarrow> signature \<Rightarrow> val list \<Rightarrow> 's \<Rightarrow> (eval_action \<times> 's) option" where
  "eval_sha256_process_block H R sg args s =
    do {
      (v0, system, v2, v3) \<leftarrow> args4 args;
      gas \<leftarrow> as_u64 v0;
      prev_vs \<leftarrow> as_struct v2;
      block_vs \<leftarrow> as_struct v3;
      prev_state \<leftarrow> map_opt as_u32 prev_vs;
      assert_that (length prev_state = 8);
      current_block \<leftarrow> map_opt as_u32 block_vs;
      assert_that (length current_block = 16);
      felt_ty \<leftarrow> branch_felt_ty R sg 1;
      r \<leftarrow> sha256_process_block H prev_state current_block gas s;
      Some (syscall_branches 1 system felt_ty (\<lambda>st. [Struct (map U32 st)]) r) }"

definition eval_sha512_state_handle_init :: "val list \<Rightarrow> eval_action option" where
  "eval_sha512_state_handle_init args = do { v \<leftarrow> args1 args; Some (NormalBranch 0 [v]) }"

definition eval_sha512_state_handle_digest :: "val list \<Rightarrow> eval_action option" where
  "eval_sha512_state_handle_digest args = do { v \<leftarrow> args1 args; Some (NormalBranch 0 [v]) }"

definition eval_sha512_process_block ::
  "'s syscall_handler \<Rightarrow> registry \<Rightarrow> signature \<Rightarrow> val list \<Rightarrow> 's \<Rightarrow> (eval_action \<times> 's) option" where
  "eval_sha512_process_block H R sg args s =
    do {
      (v0, system, v2, v3) \<leftarrow> args4 args;
      gas \<leftarrow> as_u64 v0;
      prev_vs \<leftarrow> as_struct v2;
      block_vs \<leftarrow> as_struct v3;
      prev_state \<leftarrow> map_opt as_u64 prev_vs;
      assert_that (length prev_state = 8);
      current_block \<leftarrow> map_opt as_u64 block_vs;
      assert_that (length current_block = 16);
      felt_ty \<leftarrow> branch_felt_ty R sg 1;
      r \<leftarrow> sha512_process_block H prev_state current_block gas s;
      Some (syscall_branches 1 system felt_ty (\<lambda>st. [Struct (map U64 st)]) r) }"

definition eval_get_class_hash_at ::
  "'s syscall_handler \<Rightarrow> registry \<Rightarrow> signature \<Rightarrow> val list \<Rightarrow> 's \<Rightarrow> (eval_action \<times> 's) option" where
  "eval_get_class_hash_at H R sg args s =
    do {
      (v0, system, v2) \<leftarrow> args3 args;
      gas \<leftarrow> as_u64 v0;
      as_unit system;
      contract_address \<leftarrow> as_felt v2;
      felt_ty \<leftarrow> branch_felt_ty R sg 1;
      r \<leftarrow> get_class_hash_at H contract_address gas s;
      Some (syscall_branches 1 system felt_ty (\<lambda>x. [Felt x]) r) }"

definition eval_meta_tx_v0 ::
  "'s syscall_handler \<Rightarrow> registry \<Rightarrow> signature \<Rightarrow> val list \<Rightarrow> 's \<Rightarrow> (eval_action \<times> 's) option" where
  "eval_meta_tx_v0 H R sg args s =
    do {
      (v0, system, v2, v3, v4, v5) \<leftarrow> args6 args;
      gas \<leftarrow> as_u64 v0;
      as_unit system;
      address \<leftarrow> as_felt v2;
      entry_point_selector \<leftarrow> as_felt v3;
      (calldata_ty, calldata_vs) \<leftarrow> as_array v4;
      (signature_ty, signature_vs) \<leftarrow> as_array v5;
      p4 \<leftarrow> param_ty sg 4;
      assert_that (p4 = calldata_ty);
      p5 \<leftarrow> param_ty sg 5;
      assert_that (p5 = signature_ty);
      calldata \<leftarrow> map_opt as_felt calldata_vs;
      signature \<leftarrow> map_opt as_felt signature_vs;
      felt_ty \<leftarrow> branch_felt_ty R sg 0;
      r \<leftarrow> meta_tx_v0 H address entry_point_selector calldata signature gas s;
      Some (syscall_branches 1 system felt_ty (\<lambda>fs. [felt_array felt_ty fs]) r) }"

section \<open>The dispatcher\<close>

definition keep_state :: "'s \<Rightarrow> eval_action option \<Rightarrow> (eval_action \<times> 's) option" where
  "keep_state s r = map_option (\<lambda>a. (a, s)) r"

definition eval_starknet ::
  "'s syscall_handler \<Rightarrow> registry \<Rightarrow> signature \<Rightarrow> starknet_lib \<Rightarrow> val list \<Rightarrow> 's \<Rightarrow>
    (eval_action \<times> 's) option" where
  "eval_starknet H R sg selector args s =
    (case selector of
      CallContract \<Rightarrow> eval_call_contract H R sg args s
    | ClassHashConst c \<Rightarrow> keep_state s (eval_class_hash_const c args)
    | ClassHashTryFromFelt252 \<Rightarrow> keep_state s (eval_class_hash_try_from_felt args)
    | ClassHashToFelt252 \<Rightarrow> keep_state s (eval_class_hash_to_felt args)
    | ContractAddressConst c \<Rightarrow> keep_state s (eval_contract_address_const c args)
    | ContractAddressTryFromFelt252 \<Rightarrow> keep_state s (eval_contract_address_try_from_felt args)
    | ContractAddressToFelt252 \<Rightarrow> keep_state s (eval_contract_address_to_felt args)
    | StorageRead \<Rightarrow> eval_storage_read H R sg args s
    | StorageWrite \<Rightarrow> eval_storage_write H R sg args s
    | StorageBaseAddressConst c \<Rightarrow> keep_state s (eval_storage_base_address_const c args)
    | StorageBaseAddressFromFelt252 \<Rightarrow> keep_state s (eval_storage_base_address_from_felt args)
    | StorageAddressFromBase \<Rightarrow> keep_state s (eval_storage_address_from_base args)
    | StorageAddressFromBaseAndOffset \<Rightarrow> keep_state s (eval_storage_address_from_base_and_offset args)
    | StorageAddressToFelt252 \<Rightarrow> keep_state s (eval_storage_address_to_felt args)
    | StorageAddressTryFromFelt252 \<Rightarrow> keep_state s (eval_storage_address_try_from_felt args)
    | EmitEvent \<Rightarrow> eval_emit_event H R sg args s
    | GetBlockHash \<Rightarrow> eval_get_block_hash H R sg args s
    | GetExecutionInfo \<Rightarrow> eval_get_execution_info H R sg args s
    | GetExecutionInfoV2 \<Rightarrow> eval_get_execution_info_v2 H R sg args s
    | Deploy \<Rightarrow> eval_deploy H R sg args s
    | Keccak \<Rightarrow> eval_keccak H R sg args s
    | Sha256ProcessBlock \<Rightarrow> eval_sha256_process_block H R sg args s
    | Sha256StateHandleInit \<Rightarrow> keep_state s (eval_sha256_state_handle_init args)
    | Sha256StateHandleDigest \<Rightarrow> keep_state s (eval_sha256_state_handle_digest args)
    | Sha512ProcessBlock \<Rightarrow> eval_sha512_process_block H R sg args s
    | Sha512StateHandleInit \<Rightarrow> keep_state s (eval_sha512_state_handle_init args)
    | Sha512StateHandleDigest \<Rightarrow> keep_state s (eval_sha512_state_handle_digest args)
    | LibraryCall \<Rightarrow> eval_library_call H R sg args s
    | ReplaceClass \<Rightarrow> eval_replace_class H R sg args s
    | SendMessageToL1 \<Rightarrow> eval_send_message_to_l1 H R sg args s
    | Testing \<Rightarrow> None
    | GetClassHashAt \<Rightarrow> eval_get_class_hash_at H R sg args s
    | MetaTxV0 \<Rightarrow> eval_meta_tx_v0 H R sg args s
    | GetExecutionInfoV3 \<Rightarrow> keep_state s (eval_get_execution_info_v3 R sg args)
    | Secp256 secp_type op \<Rightarrow>
        (case op of
          SecpNew \<Rightarrow> eval_secp256_new H R sg secp_type args s
        | SecpAdd \<Rightarrow> eval_secp256_add H secp_type args s
        | SecpMul \<Rightarrow> eval_secp256_mul H secp_type args s
        | SecpGetPointFromX \<Rightarrow> eval_secp256_get_point_from_x H R sg secp_type args s
        | SecpGetXy \<Rightarrow> eval_secp256_get_xy H R sg secp_type args s))"

section \<open>Storage and events seen by a program\<close>

lemma branch_felt_ty_error [simp]:
  "branch_felt_ty sample_registry (sg_of ps [outs, [12, 29, 13]]) 1 = Some 0"
  "branch_felt_ty sample_registry (sg_of ps [outs, [12, 29, 13]]) (Suc 0) = Some 0"
  by (simp_all add: branch_felt_ty_def sample_types_def)

text \<open>A sequence of writes as the program makes them, each of which has to succeed.\<close>

fun eval_writes ::
  "'s syscall_handler \<Rightarrow> registry \<Rightarrow> signature \<Rightarrow> u64 \<Rightarrow> ((u32 \<times> felt) \<times> felt) list \<Rightarrow> 's \<Rightarrow> 's option"
where
  "eval_writes H R sg gas [] s = Some s"
| "eval_writes H R sg gas (((d, k), v) # ws) s =
    do {
      (a, s') \<leftarrow> eval_storage_write H R sg [U64 gas, Unit, U32 d, Felt k, Felt v] s;
      assert_that (a = NormalBranch 0 [U64 gas, Unit]);
      eval_writes H R sg gas ws s' }"

lemma eval_storage_write_stub:
  "branch_felt_ty R sg 1 = Some t \<Longrightarrow>
    eval_storage_write (stub_handler X) R sg [U64 gas, Unit, U32 d, Felt k, Felt v] s =
      Some (NormalBranch 0 [U64 gas, Unit], written s (d, k) v)"
  by (simp add: eval_storage_write_def stub_storage_write_written)

lemma eval_writes_stub:
  "branch_felt_ty R sg 1 = Some t \<Longrightarrow>
    eval_writes (stub_handler X) R sg gas ws s = Some (foldl (\<lambda>s (k, v). written s k v) s ws)"
  by (induction ws arbitrary: s)
    (auto simp: eval_storage_write_stub simp del: stub_handler_sel split: prod.splits)

lemma writes_frame:
  "events (foldl (\<lambda>s (k, v). written s k v) s ws) = events s"
  by (induction ws arbitrary: s) (auto split: prod.splits)

text \<open>
  Contract storage as a program sees it through the interpreter and the in-memory
  handler: after any sequence of writes, which all succeed, a read gives the last value written
  under that domain and key, and a key never written gives what it gave before the sequence,
  the error of an unknown address in a fresh storage. Gas and events are untouched.
\<close>
theorem storage_reads_last_write:
  assumes "branch_felt_ty R sgw 1 = Some t" and "branch_felt_ty R sgr 1 = Some t"
  shows "\<exists>s'. eval_writes (stub_handler X) R sgw gas ws s = Some s' \<and> events s' = events s \<and>
    eval_storage_read (stub_handler X) R sgr [U64 gas, Unit, U32 d, Felt k] s' =
      Some (case map_of (rev ws) (d, k) of
          Some v \<Rightarrow> NormalBranch 0 [U64 gas, Unit, Felt v]
        | None \<Rightarrow> (case fmlookup (storage s) (d, k) of
            Some v \<Rightarrow> NormalBranch 0 [U64 gas, Unit, Felt v]
          | None \<Rightarrow> NormalBranch 1
              [U64 gas, Unit, Array t [Felt (felt_of_text ''address not found'')]]), s')"
proof -
  define s' where "s' = foldl (\<lambda>s (k, v). written s k v) s ws"
  have "read_result s' (d, k) =
      (case map_of (rev ws) (d, k) of Some v \<Rightarrow> Inr v | None \<Rightarrow> read_result s (d, k))"
    unfolding s'_def by (rule stub_store.lookup_updates)
  then have "eval_storage_read (stub_handler X) R sgr [U64 gas, Unit, U32 d, Felt k] s' =
      Some (case map_of (rev ws) (d, k) of
          Some v \<Rightarrow> NormalBranch 0 [U64 gas, Unit, Felt v]
        | None \<Rightarrow> (case fmlookup (storage s) (d, k) of
            Some v \<Rightarrow> NormalBranch 0 [U64 gas, Unit, Felt v]
          | None \<Rightarrow> NormalBranch 1
              [U64 gas, Unit, Array t [Felt (felt_of_text ''address not found'')]]), s')"
    using assms(2)
    by (simp add: eval_storage_read_def stub_storage_read_result read_result_eq felt_array_def
        split: option.splits)
  with eval_writes_stub [OF assms(1), of X gas ws s] writes_frame [of s ws] show ?thesis
    by (auto simp: s'_def)
qed

lemma storage_reads_last_write_witness:
  "\<exists>s'. eval_writes (stub_handler toy_primitives) sample_registry (sg_of [] [[12, 29], [12, 29, 13]]) 9
        [((0, 5), 1), ((0, 6), 2), ((0, 5), 3)] stub_default = Some s' \<and>
    eval_storage_read (stub_handler toy_primitives) sample_registry
      (sg_of [] [[12, 29, 0], [12, 29, 13]]) [U64 9, Unit, U32 0, Felt 5] s' =
      Some (NormalBranch 0 [U64 9, Unit, Felt 3], s')"
  using storage_reads_last_write [where R = sample_registry and sgw = "sg_of [] [[12, 29], [12, 29, 13]]" and
      sgr = "sg_of [] [[12, 29, 0], [12, 29, 13]]" and t = 0 and X = toy_primitives and gas = 9 and
      ws = "[((0, 5), 1), ((0, 6), 2), ((0, 5), 3)]" and s = stub_default and d = 0 and k = 5]
  by (auto simp del: sg_of_ty)

text \<open>
  Emitted events accumulate in order: each successful emission appends one event with
  exactly the keys and data the program passed, and leaves storage, gas and everything else in
  the handler alone.
\<close>
theorem eval_emit_event_appends:
  assumes "branch_felt_ty R sg 1 = Some t"
  shows "eval_emit_event (stub_handler X) R sg
      [U64 gas, system, Struct [Array ka (map Felt keys)], Struct [Array da (map Felt data)]] s =
    Some (NormalBranch 0 [U64 gas, system],
      s\<lparr>events := events s @ [\<lparr>ev_keys = keys, ev_data = data\<rparr>]\<rparr>)"
  using assms by (simp add: eval_emit_event_def stub_emit_event_def)

lemma eval_emit_event_appends_witness:
  "eval_emit_event (stub_handler toy_primitives) sample_registry (sg_of [] [[12, 29], [12, 29, 13]])
      [U64 9, Unit, Struct [Array 0 (map Felt [1])], Struct [Array 0 (map Felt [2, 3])]] stub_default =
    Some (NormalBranch 0 [U64 9, Unit],
      stub_default\<lparr>events := events stub_default @ [\<lparr>ev_keys = [1], ev_data = [2, 3]\<rparr>]\<rparr>)"
  by (rule eval_emit_event_appends) simp

section \<open>Keccak seen by a program\<close>

lemma length_absorb [simp]: "length (absorb st c) = length st"
  by (simp add: absorb_def)

lemma length_sponge: "(\<And>st. length (pr_f1600 X st) = length st) \<Longrightarrow> length (sponge X st bs) = length st"
  unfolding sponge_def by (induction bs arbitrary: st) simp_all

lemma eval_keccak_sponge_parts:
  fixes input :: "u64 list" and gas :: u64
  assumes "branch_felt_ty R sg 1 = Some t" and "\<And>st. length (pr_f1600 X st) = length st"
  defines "n \<equiv> length input div 17"
  shows "length input mod 17 \<noteq> 0 \<Longrightarrow>
      eval_keccak (stub_handler X) R sg [U64 gas, system, Struct [Array ty (map U64 input)]] s =
        Some (NormalBranch 1 [U64 gas, system,
          Array t [Felt (felt_of_text ''Invalid keccak input size'')]], s)"
    and "length input mod 17 = 0 \<Longrightarrow> int n * 180000 \<le> uint gas \<Longrightarrow>
      \<exists>g. eval_keccak (stub_handler X) R sg [U64 gas, system, Struct [Array ty (map U64 input)]] s =
          Some (NormalBranch 0 [U64 g, system,
            (let st = sponge X (replicate 25 0) (blocks n input)
             in Struct [U128 (ucast (st ! 0) OR push_bit 64 (ucast (st ! 1))),
                        U128 (ucast (st ! 2) OR push_bit 64 (ucast (st ! 3)))])], s) \<and>
        uint g = uint gas - int n * 180000"
    and "length input mod 17 = 0 \<Longrightarrow> uint gas < int n * 180000 \<Longrightarrow>
      \<exists>g. eval_keccak (stub_handler X) R sg [U64 gas, system, Struct [Array ty (map U64 input)]] s =
          Some (NormalBranch 1 [U64 g, system,
            Array t [Felt (felt_of_text ''Syscall out of gas'')]], s) \<and>
        uint g = uint gas mod 180000"
proof -
  have u: "map_opt as_u64 (map U64 input) = Some input"
    by (simp add: map_opt_Some list_all2_conv_all_nth)
  have call: "eval_keccak (stub_handler X) R sg [U64 gas, system, Struct [Array ty (map U64 input)]] s =
      do { r \<leftarrow> stub_keccak X input gas s; Some (syscall_branches 1 system t (\<lambda>h. [u256_into_value h]) r) }"
    using assms(1) u by (simp add: eval_keccak_def span_data_def)
  show "length input mod 17 \<noteq> 0 \<Longrightarrow>
      eval_keccak (stub_handler X) R sg [U64 gas, system, Struct [Array ty (map U64 input)]] s =
        Some (NormalBranch 1 [U64 gas, system,
          Array t [Felt (felt_of_text ''Invalid keccak input size'')]], s)"
    by (simp add: call stub_keccak_def felt_array_def)
  show "\<exists>g. eval_keccak (stub_handler X) R sg [U64 gas, system, Struct [Array ty (map U64 input)]] s =
          Some (NormalBranch 1 [U64 g, system,
            Array t [Felt (felt_of_text ''Syscall out of gas'')]], s) \<and>
        uint g = uint gas mod 180000"
    if "length input mod 17 = 0" and "uint gas < int n * 180000"
    using keccak_rounds_out_of_gas [OF that(2), of X input 0 "replicate 25 0"] that(1)
    by (auto simp: call stub_keccak_def felt_array_def n_def)
  show "\<exists>g. eval_keccak (stub_handler X) R sg [U64 gas, system, Struct [Array ty (map U64 input)]] s =
          Some (NormalBranch 0 [U64 g, system,
            (let st = sponge X (replicate 25 0) (blocks n input)
             in Struct [U128 (ucast (st ! 0) OR push_bit 64 (ucast (st ! 1))),
                        U128 (ucast (st ! 2) OR push_bit 64 (ucast (st ! 3)))])], s) \<and>
        uint g = uint gas - int n * 180000"
    if "length input mod 17 = 0" and "int n * 180000 \<le> uint gas"
  proof -
    note fits = that
    define st where "st = sponge X (replicate 25 0) (blocks n input)"
    have l: "length st = 25" unfolding st_def by (simp add: length_sponge [OF assms(2)])
    obtain g where "keccak_rounds X input [0 ..< n] (replicate 25 0) gas = (Inr st, g)"
      "uint g = uint gas - int n * 180000"
      using keccak_rounds_ok [OF fits(2), of X input 0 "replicate 25 0"] by (auto simp: st_def)
    then show ?thesis
      using fits(1) l by (simp add: call stub_keccak_def nth_opt_def u256_into_value_def Let_def
          flip: n_def st_def)
  qed
qed

text \<open>
  The Keccak call computes the sponge over the 17-word blocks of its input and returns
  the first four words, low half first. It costs 180000 gas for each block: with enough gas
  exactly that much is taken, with less the call fails after using up all the whole blocks the
  gas pays for, and an input that is not a sequence of blocks fails without any cost.
\<close>
theorem eval_keccak_sponge:
  fixes input :: "u64 list" and gas :: u64
  assumes "branch_felt_ty R sg 1 = Some t" and "\<And>st. length (pr_f1600 X st) = length st"
  defines "n \<equiv> length input div 17"
  shows "(length input mod 17 \<noteq> 0 \<longrightarrow> eval_keccak (stub_handler X) R sg [U64 gas, system, Struct [Array ty (map U64 input)]] s =
        Some (NormalBranch 1 [U64 gas, system,
          Array t [Felt (felt_of_text ''Invalid keccak input size'')]], s)) \<and>
    (length input mod 17 = 0 \<longrightarrow> int n * 180000 \<le> uint gas \<longrightarrow> (\<exists>g. eval_keccak (stub_handler X) R sg [U64 gas, system, Struct [Array ty (map U64 input)]] s =
          Some (NormalBranch 0 [U64 g, system,
            (let st = sponge X (replicate 25 0) (blocks n input)
             in Struct [U128 (ucast (st ! 0) OR push_bit 64 (ucast (st ! 1))),
                        U128 (ucast (st ! 2) OR push_bit 64 (ucast (st ! 3)))])], s) \<and>
        uint g = uint gas - int n * 180000)) \<and>
    (length input mod 17 = 0 \<longrightarrow> uint gas < int n * 180000 \<longrightarrow> (\<exists>g. eval_keccak (stub_handler X) R sg [U64 gas, system, Struct [Array ty (map U64 input)]] s =
          Some (NormalBranch 1 [U64 g, system,
            Array t [Felt (felt_of_text ''Syscall out of gas'')]], s) \<and>
        uint g = uint gas mod 180000))"
  unfolding n_def by (intro conjI impI; rule eval_keccak_sponge_parts [OF assms(1,2)]; assumption)

lemma eval_keccak_sponge_witness:
  "\<exists>g. eval_keccak (stub_handler toy_primitives) sample_registry (sg_of [] [[12, 29, 5], [12, 29, 13]])
        [U64 200000, Unit, Struct [Array 4 (map U64 (replicate 17 1))]] stub_default =
      Some (NormalBranch 0 [U64 g, Unit,
        (let st = sponge toy_primitives (replicate 25 0) (blocks 1 (replicate 17 1))
         in Struct [U128 (ucast (st ! 0) OR push_bit 64 (ucast (st ! 1))),
                    U128 (ucast (st ! 2) OR push_bit 64 (ucast (st ! 3)))])], stub_default) \<and>
    uint g = 20000"
  using eval_keccak_sponge [where R = sample_registry and sg = "sg_of [] [[12, 29, 5], [12, 29, 13]]" and
      t = 0 and X = toy_primitives and input = "replicate 17 1" and gas = 200000 and ty = 4 and
      system = Unit and s = stub_default]
  by simp

section \<open>Addresses\<close>

lemma ADDRESS_BOUND_eq: "ADDRESS_BOUND = 2 ^ 251"
  by (simp add: ADDRESS_BOUND_def)

lemma address_conversions_parts:
  shows "eval_class_hash_try_from_felt [Unit, Felt x] =
      Some (if felt_int x < 2 ^ 251 then NormalBranch 0 [Unit, Felt x] else NormalBranch 1 [Unit])"
    and "eval_contract_address_try_from_felt [Unit, Felt x] =
      Some (if felt_int x < 2 ^ 251 then NormalBranch 0 [Unit, Felt x] else NormalBranch 1 [Unit])"
    and "eval_storage_address_try_from_felt [Unit, Felt x] =
      Some (if felt_int x < 2 ^ 251 then NormalBranch 0 [Unit, Felt x] else NormalBranch 1 [Unit])"
    and "felt_int b < 2 ^ 251 - 256 \<Longrightarrow>
      \<exists>a. eval_storage_address_from_base_and_offset [Felt b, U8 i] = Some (NormalBranch 0 [Felt a]) \<and>
        felt_int a = felt_int b + uint i \<and>
        eval_storage_address_try_from_felt [Unit, Felt a] = Some (NormalBranch 0 [Unit, Felt a])"
proof -
  have lt: "x < felt_of_int ADDRESS_BOUND \<longleftrightarrow> felt_int x < 2 ^ 251" for x
  proof -
    have "felt_int (felt_of_int ADDRESS_BOUND) = 2 ^ 251"
      unfolding ADDRESS_BOUND_eq using pow2_lt_PRIME [of 251] by (simp only: felt_int_of_int) simp
    then show ?thesis by (simp only: less_felt_def)
  qed
  show "eval_class_hash_try_from_felt [Unit, Felt x] =
      Some (if felt_int x < 2 ^ 251 then NormalBranch 0 [Unit, Felt x] else NormalBranch 1 [Unit])"
    by (simp add: eval_class_hash_try_from_felt_def lt)
  show "eval_contract_address_try_from_felt [Unit, Felt x] =
      Some (if felt_int x < 2 ^ 251 then NormalBranch 0 [Unit, Felt x] else NormalBranch 1 [Unit])"
    by (simp add: eval_contract_address_try_from_felt_def lt)
  show st: "eval_storage_address_try_from_felt [Unit, Felt x] =
      Some (if felt_int x < 2 ^ 251 then NormalBranch 0 [Unit, Felt x] else NormalBranch 1 [Unit])" for x
    by (simp add: eval_storage_address_try_from_felt_def lt)
  assume b: "felt_int b < 2 ^ 251 - 256"
  define a where "a = b + felt_of_int (uint i)"
  have i: "0 \<le> uint i" "uint i < 256" using uint_lt2p [of i] by simp_all
  have p: "(2 :: int) ^ 251 < PRIME" by (rule pow2_lt_PRIME) simp
  have "felt_int a = (felt_int b + uint i) mod PRIME"
    by (simp add: a_def mod_simps)
  also have "\<dots> = felt_int b + uint i"
    using felt_int_range(1) [of b] i b p by (intro mod_pos_pos_trivial) linarith+
  finally have a: "felt_int a = felt_int b + uint i" .
  then have "felt_int a < 2 ^ 251" using b i by linarith
  then have "eval_storage_address_try_from_felt [Unit, Felt a] = Some (NormalBranch 0 [Unit, Felt a])"
    by (simp only: st if_True)
  with a show "\<exists>a. eval_storage_address_from_base_and_offset [Felt b, U8 i] = Some (NormalBranch 0 [Felt a]) \<and>
        felt_int a = felt_int b + uint i \<and>
        eval_storage_address_try_from_felt [Unit, Felt a] = Some (NormalBranch 0 [Unit, Felt a])"
    by (auto simp: eval_storage_address_from_base_and_offset_def a_def)
qed

text \<open>
  The three checked conversions accept exactly the field elements below \<open>2 ^ 251\<close> and
  return them unchanged. An address inside a storage region is the base plus the offset as a
  number, without wrapping around the field, for every base the protocol admits (below
  \<open>2 ^ 251 - 256\<close>) and every offset, and is itself a valid storage address.
\<close>
theorem address_conversions:
    "(eval_class_hash_try_from_felt [Unit, Felt x] =
      Some (if felt_int x < 2 ^ 251 then NormalBranch 0 [Unit, Felt x] else NormalBranch 1 [Unit])) \<and>
    (eval_contract_address_try_from_felt [Unit, Felt x] =
      Some (if felt_int x < 2 ^ 251 then NormalBranch 0 [Unit, Felt x] else NormalBranch 1 [Unit])) \<and>
    (eval_storage_address_try_from_felt [Unit, Felt x] =
      Some (if felt_int x < 2 ^ 251 then NormalBranch 0 [Unit, Felt x] else NormalBranch 1 [Unit])) \<and>
    (felt_int b < 2 ^ 251 - 256 \<longrightarrow> (\<exists>a. eval_storage_address_from_base_and_offset [Felt b, U8 i] = Some (NormalBranch 0 [Felt a]) \<and>
        felt_int a = felt_int b + uint i \<and>
        eval_storage_address_try_from_felt [Unit, Felt a] = Some (NormalBranch 0 [Unit, Felt a])))"
  using address_conversions_parts by blast

lemma address_conversions_witness:
  "\<exists>a. eval_storage_address_from_base_and_offset [Felt 1, U8 255] = Some (NormalBranch 0 [Felt a]) \<and>
      felt_int a = felt_int 1 + uint (255 :: u8) \<and>
      eval_storage_address_try_from_felt [Unit, Felt a] = Some (NormalBranch 0 [Unit, Felt a])"
  by (rule address_conversions [THEN conjunct2, THEN conjunct2, THEN conjunct2, THEN mp]) simp

section \<open>Results have their declared types\<close>

text \<open>
  The signature of a call as the language declares it: the gas and the system come back on
  both branches, followed by the outputs or by an array of felts.
\<close>

definition syscall_sig :: "registry \<Rightarrow> signature \<Rightarrow> (type_id \<Rightarrow> type_id list \<Rightarrow> bool) \<Rightarrow> bool" where
  "syscall_sig R sg ok \<longleftrightarrow>
    (\<exists>g sy outs e f. branch_signatures sg = [g # sy # outs, [g, sy, e]] \<and>
      get_type R g = Some GasBuiltinT \<and> get_type R sy = Some (StarknetT SystemST) \<and>
      get_type R e = Some (ArrayT f) \<and> ok f outs)"

definition span_ty :: "registry \<Rightarrow> type_id \<Rightarrow> type_id \<Rightarrow> bool" where
  "span_ty R f t \<longleftrightarrow> (\<exists>s a. get_type R t = Some (StructT [s]) \<and>
    get_type R s = Some (SnapshotT a) \<and> get_type R a = Some (ArrayT f))"

definition u256_ty :: "registry \<Rightarrow> type_id \<Rightarrow> bool" where
  "u256_ty R t \<longleftrightarrow> (\<exists>a b. get_type R t = Some (StructT [a, b]) \<and>
    get_type R a = Some Uint128T \<and> get_type R b = Some Uint128T)"

text \<open>The outputs of each call.\<close>

fun syscall_outs :: "registry \<Rightarrow> starknet_lib \<Rightarrow> type_id \<Rightarrow> type_id list \<Rightarrow> bool" where
  "syscall_outs R CallContract f outs = (\<exists>t. outs = [t] \<and> span_ty R f t)"
| "syscall_outs R LibraryCall f outs = (\<exists>t. outs = [t] \<and> span_ty R f t)"
| "syscall_outs R StorageRead f outs = (\<exists>t. outs = [t] \<and> get_type R t = Some Felt252T)"
| "syscall_outs R StorageWrite f outs = (outs = [])"
| "syscall_outs R EmitEvent f outs = (outs = [])"
| "syscall_outs R GetBlockHash f outs = (\<exists>t. outs = [t] \<and> get_type R t = Some Felt252T)"
| "syscall_outs R Deploy f outs = (\<exists>c t. outs = [c, t] \<and>
    get_type R c = Some (StarknetT ContractAddressST) \<and> span_ty R f t)"
| "syscall_outs R Keccak f outs = (\<exists>t. outs = [t] \<and> u256_ty R t)"
| "syscall_outs R Sha256ProcessBlock f outs =
    (\<exists>t. outs = [t] \<and> get_type R t = Some (StarknetT Sha256StateHandleST))"
| "syscall_outs R Sha512ProcessBlock f outs =
    (\<exists>t. outs = [t] \<and> get_type R t = Some (StarknetT Sha512StateHandleST))"
| "syscall_outs R ReplaceClass f outs = (outs = [])"
| "syscall_outs R SendMessageToL1 f outs = (outs = [])"
| "syscall_outs R GetClassHashAt f outs =
    (\<exists>t. outs = [t] \<and> get_type R t = Some (StarknetT ClassHashST))"
| "syscall_outs R (Secp256 k SecpNew) f outs = (\<exists>t vs. outs = [t] \<and> get_type R t = Some (EnumT vs))"
| "syscall_outs R (Secp256 k SecpGetPointFromX) f outs =
    (\<exists>t vs. outs = [t] \<and> get_type R t = Some (EnumT vs))"
| "syscall_outs R _ f outs = False"

definition typed_outcome :: "registry \<Rightarrow> signature \<Rightarrow> eval_action \<Rightarrow> bool" where
  "typed_outcome R sg a \<longleftrightarrow>
    (\<exists>i vs ts. a = NormalBranch i vs \<and> nth_opt (branch_signatures sg) i = Some ts \<and>
      list_all2 (has_type R) vs ts)"

lemma starknet_base_types:
  assumes "0 < rec_limit R"
  shows "get_type R t = Some (StarknetT ContractAddressST) \<Longrightarrow> has_type R (Felt x) t"
    and "get_type R t = Some (StarknetT ClassHashST) \<Longrightarrow> has_type R (Felt x) t"
    and "get_type R t = Some (StarknetT Sha256StateHandleST) \<Longrightarrow> has_type R (Struct ws) t"
    and "get_type R t = Some (StarknetT Sha512StateHandleST) \<Longrightarrow> has_type R (Struct ws) t"
  using assms by (cases "rec_limit R"; simp add: value_is_unfold starknet_is_def; fail)+

lemma span_has_type:
  assumes "3 \<le> rec_limit R" "span_ty R f t"
  shows "has_type R (Struct [felt_array f fs]) t"
proof -
  obtain n where "rec_limit R = Suc (Suc (Suc n))"
    using assms(1) by (metis Suc_le_D numeral_3_eq_3 Suc_le_mono)
  with assms(2) show ?thesis by (auto simp: span_ty_def value_is_def felt_array_def)
qed

lemma u256_has_type:
  assumes "3 \<le> rec_limit R" "u256_ty R t"
  shows "has_type R (u256_into_value x) t"
proof -
  obtain n where "rec_limit R = Suc (Suc n)"
    using assms(1) by (metis Suc_le_D numeral_3_eq_3 Suc_le_mono)
  with assms(2) show ?thesis by (auto simp: u256_ty_def value_is_def u256_into_value_def)
qed

lemma syscall_branches_typed:
  assumes lim: "3 \<le> rec_limit R" and sg: "syscall_sig R sg (\<lambda>f outs. outs_ok f outs)"
    and ty: "branch_felt_ty R sg 1 = Some t"
    and ok: "\<And>a outs. outs_ok t outs \<Longrightarrow> list_all2 (has_type R) (ok a) outs"
  shows "typed_outcome R sg (fst (syscall_branches 1 Unit t ok r))"
proof -
  have lim0: "0 < rec_limit R" using lim by simp
  obtain g sy outs e f where s: "branch_signatures sg = [g # sy # outs, [g, sy, e]]"
    "get_type R g = Some GasBuiltinT" "get_type R sy = Some (StarknetT SystemST)"
    "get_type R e = Some (ArrayT f)" "outs_ok f outs"
    using sg by (auto simp: syscall_sig_def)
  have f: "f = t" using ty s by (auto simp: branch_felt_ty_def branch_ty_def)
  obtain x gas st where r: "r = (x, gas, st)" by (cases r)
  show ?thesis
    using s ok [of outs] value_is_base [OF lim0] unfolding r f
    by (cases x) (auto simp: typed_outcome_def felt_array_def)
qed

lemma secp_point_branches_typed:
  assumes lim: "3 \<le> rec_limit R"
    and sg: "syscall_sig R sg (\<lambda>f outs. \<exists>t vs. outs = [t] \<and> get_type R t = Some (EnumT vs))"
    and r: "secp_point_branches R sg Unit r = Some (a, s)"
  shows "typed_outcome R sg a"
proof -
  have lim0: "0 < rec_limit R" using lim by simp
  obtain x gas st where xr: "r = (x, gas, st)" by (cases r)
  show ?thesis
    using sg r value_is_base [OF lim0] unfolding xr
    by (cases x) (auto simp: syscall_sig_def secp_point_branches_def typed_outcome_def felt_array_def
      branch_felt_ty_def branch_ty_def bind_Some point_option_value_def split: option.splits)
qed



lemma secp_errors_untyped_parts:
  assumes sg: "branch_signatures sg = [g # sy # outs, [g, sy, e]]" "get_type R e = Some (ArrayT f)"
    and err: "secp256k1_add H p q gas s = Some (Inl err, gas', s')"
      "secp256k1_mul H p m gas s = Some (Inl err, gas', s')"
      "secp256k1_get_xy H p gas s = Some (Inl err, gas', s')"
    and canon: "k1_canonical p" "k1_canonical q"
  shows "\<exists>a. eval_secp256_add H K1 [U64 gas, Unit, secp256k1_point_into_value p, secp256k1_point_into_value q] s =
      Some (a, s') \<and> \<not> typed_outcome R sg a"
    and "\<exists>a. eval_secp256_mul H K1 [U64 gas, Unit, secp256k1_point_into_value p, u256_into_value m] s =
      Some (a, s') \<and> \<not> typed_outcome R sg a"
    and "length outs = 2 \<Longrightarrow>
      \<exists>a. eval_secp256_get_xy H R sg K1 [U64 gas, Unit, secp256k1_point_into_value p] s = Some (a, s') \<and>
        \<not> typed_outcome R sg a"
proof -
  have pq: "secp256k1_point_from_value (secp256k1_point_into_value p) = Some p"
    "secp256k1_point_from_value (secp256k1_point_into_value q) = Some q"
    using canon k1_roundtrip by (cases p, cases q, auto simp: k1_canonical_def)+
  have no_struct: "\<not> has_type R (Struct ws) e" for ws
    using has_type_shape(1) [of R "Struct ws" e f] sg(2) by auto
  show "\<exists>a. eval_secp256_add H K1 [U64 gas, Unit, secp256k1_point_into_value p, secp256k1_point_into_value q] s =
      Some (a, s') \<and> \<not> typed_outcome R sg a"
    using sg no_struct by (simp add: eval_secp256_add_def pq err map_result_def typed_outcome_def)
  show "\<exists>a. eval_secp256_mul H K1 [U64 gas, Unit, secp256k1_point_into_value p, u256_into_value m] s =
      Some (a, s') \<and> \<not> typed_outcome R sg a"
    using sg no_struct by (simp add: eval_secp256_mul_def pq err map_result_def typed_outcome_def)
  show "\<exists>a. eval_secp256_get_xy H R sg K1 [U64 gas, Unit, secp256k1_point_into_value p] s = Some (a, s') \<and>
        \<not> typed_outcome R sg a" if "length outs = 2"
    using sg that
    by (auto simp: eval_secp256_get_xy_def pq err typed_outcome_def branch_felt_ty_def branch_ty_def
        dest: list_all2_lengthD)
qed

text \<open>
  C33: The error results of the remaining curve calls are not typed: adding and multiplying
  return the error felts as a struct where the signature declares an array, and reading the
  coordinates takes the success branch with one value too few. The interpreter's own check of
  the outcome fails on each of them, so a contract never sees these errors.
\<close>
theorem secp_errors_untyped:
  assumes sg: "branch_signatures sg = [g # sy # outs, [g, sy, e]]" "get_type R e = Some (ArrayT f)"
    and err: "secp256k1_add H p q gas s = Some (Inl err, gas', s')"
      "secp256k1_mul H p m gas s = Some (Inl err, gas', s')"
      "secp256k1_get_xy H p gas s = Some (Inl err, gas', s')"
    and canon: "k1_canonical p" "k1_canonical q"
  shows "(\<exists>a. eval_secp256_add H K1 [U64 gas, Unit, secp256k1_point_into_value p, secp256k1_point_into_value q] s =
      Some (a, s') \<and> \<not> typed_outcome R sg a) \<and>
    (\<exists>a. eval_secp256_mul H K1 [U64 gas, Unit, secp256k1_point_into_value p, u256_into_value m] s =
      Some (a, s') \<and> \<not> typed_outcome R sg a) \<and>
    (length outs = 2 \<longrightarrow> (\<exists>a. eval_secp256_get_xy H R sg K1 [U64 gas, Unit, secp256k1_point_into_value p] s = Some (a, s') \<and>
        \<not> typed_outcome R sg a))"
  using secp_errors_untyped_parts [OF assms] by blast

lemma secp_errors_untyped_witness:
  "\<exists>a. eval_secp256_mul
      (stub_handler toy_primitives
        \<lparr>secp256k1_add := \<lambda>p q gas s. Some (Inl [1], gas, s),
         secp256k1_mul := \<lambda>p m gas s. Some (Inl [1], gas, s),
         secp256k1_get_xy := \<lambda>p gas s. Some (Inl [1], gas, s)\<rparr>) K1
      [U64 7, Unit, secp256k1_point_into_value (k1_of None), u256_into_value u256_zero] stub_default =
      Some (a, stub_default) \<and> \<not> typed_outcome sample_registry (sg_of [] [[12, 29, 27], [12, 29, 13]]) a"
proof (rule secp_errors_untyped [THEN conjunct2, THEN conjunct1])
  show "branch_signatures (sg_of [] [[12, 29, 27], [12, 29, 13]]) = [12 # 29 # [27], [12, 29, 13]]"
    by (simp add: sg_of_def)
  show "k1_canonical (k1_of None)" "k1_canonical (k1_of None)"
    by (simp_all add: k1_canonical_def k1_of_def)
qed (simp_all add: sample_types_def)

end
