(* ===== verification/Dispatch.thy ===== *)
theory Dispatch
  imports IntOps GasOps BoundedIntOps WideIntOps FeltOps ArrayOps DataOps DictOps ConstOps
    CircuitOps EcHashOps StarknetOps
begin

text \<open>
  The dispatcher \<open>eval\<close> of \<open>debug_utils/sierra-emu/src/vm.rs\<close>, which hands an invocation to
  the evaluator of its library function, and the fact that only the two call libfuncs ever ask
  the interpreter to push a frame.
\<close>

section \<open>The dispatcher\<close>

definition eval ::
  "externs \<Rightarrow> 's syscall_handler \<Rightarrow> registry \<Rightarrow> gas_metadata \<Rightarrow> statement_idx \<Rightarrow> builtin_costs \<Rightarrow>
    libfunc_id \<Rightarrow> val list \<Rightarrow> 's \<Rightarrow> (eval_action \<times> 's) option" where
  "eval E H R G idx costs lf args s =
    do {
      l \<leftarrow> get_libfunc R lf;
      let sg = lf_signature l;
      (case lf_selector l of
        ApTrackingL sel \<Rightarrow> keep_state s (eval_ap_tracking sel args)
      | ArrayL sel \<Rightarrow> keep_state s (eval_array R sg sel args)
      | BoolL sel \<Rightarrow> keep_state s (eval_bool sel args)
      | BoundedIntL sel \<Rightarrow> keep_state s (eval_bounded_int R sg sel args)
      | BoxL sel \<Rightarrow> keep_state s (eval_box sel args)
      | BranchAlignL \<Rightarrow> keep_state s (eval_branch_align args)
      | Bytes31L sel \<Rightarrow> keep_state s (eval_bytes31 sel args)
      | CastL sel \<Rightarrow> keep_state s (eval_cast R sg sel args)
      | CircuitL sel \<Rightarrow> keep_state s (eval_circuit E R sg sel args)
      | ConstL sel \<Rightarrow> keep_state s (eval_const R sel args)
      | CouponL sel \<Rightarrow> keep_state s (eval_coupon sel args)
      | DebugL \<Rightarrow> None
      | DropL \<Rightarrow> keep_state s (eval_drop args)
      | DupL \<Rightarrow> keep_state s (eval_dup args)
      | EcL sel \<Rightarrow> keep_state s (eval_ec E sel args)
      | EnumL sel \<Rightarrow> keep_state s (eval_enum R sg sel args)
      | Felt252L sel \<Rightarrow> keep_state s (eval_felt252 E sel args)
      | Felt252DictL sel \<Rightarrow> keep_state s (eval_dict E R sg sel args)
      | Felt252DictEntryL sel \<Rightarrow> keep_state s (eval_dict_entry R sel args)
      | FunctionCallL f \<Rightarrow> keep_state s (eval_function_call R f args)
      | CouponCallL f \<Rightarrow> keep_state s (eval_coupon_call R f args)
      | GasL sel \<Rightarrow> keep_state s (eval_gas E G idx costs sel args)
      | MemL sel \<Rightarrow> keep_state s (eval_mem R sel args)
      | NullableL sel \<Rightarrow> keep_state s (eval_nullable sel args)
      | PedersenL \<Rightarrow> keep_state s (eval_pedersen E args)
      | PoseidonL \<Rightarrow> keep_state s (eval_poseidon E args)
      | Sint8L sel \<Rightarrow> keep_state s (eval_signed R sg sel args)
      | Sint16L sel \<Rightarrow> keep_state s (eval_signed R sg sel args)
      | Sint32L sel \<Rightarrow> keep_state s (eval_signed R sg sel args)
      | Sint64L sel \<Rightarrow> keep_state s (eval_signed R sg sel args)
      | Sint128L sel \<Rightarrow> keep_state s (eval_i128 R sg sel args)
      | Uint8L sel \<Rightarrow> keep_state s (eval_unsigned E R sg sel args)
      | Uint16L sel \<Rightarrow> keep_state s (eval_unsigned E R sg sel args)
      | Uint32L sel \<Rightarrow> keep_state s (eval_unsigned E R sg sel args)
      | Uint64L sel \<Rightarrow> keep_state s (eval_unsigned E R sg sel args)
      | Uint128L sel \<Rightarrow> keep_state s (eval_uint128 E R sg sel args)
      | Uint256L sel \<Rightarrow> keep_state s (eval_uint256 E sel args)
      | Uint512L sel \<Rightarrow> keep_state s (eval_uint512 sel args)
      | StructL sel \<Rightarrow> keep_state s (eval_struct R sg sel args)
      | SnapshotTakeL \<Rightarrow> keep_state s (eval_snapshot_take args)
      | StarknetL sel \<Rightarrow> eval_starknet H R sg sel args s
      | UnconditionalJumpL \<Rightarrow> keep_state s (eval_jump args)
      | UnwrapNonZeroL \<Rightarrow> keep_state s (eval_unwrap_non_zero args)
      | IntRangeL sel \<Rightarrow> keep_state s (eval_int_range R sg sel args)
      | GasReserveL sel \<Rightarrow> keep_state s (eval_gas_reserve sel args)
      | BlakeL \<Rightarrow> None
      | QM31L \<Rightarrow> None
      | Felt252SquashedDictL \<Rightarrow> None
      | TraceL \<Rightarrow> None
      | UnsafePanicL \<Rightarrow> None
      | DummyFunctionCallL \<Rightarrow> None) }"

section \<open>Who calls\<close>

text \<open>A computation none of whose results is a call.\<close>

definition no_call :: "eval_action option \<Rightarrow> bool" where
  "no_call r \<longleftrightarrow> (\<forall>f as. r \<noteq> Some (FunctionCall f as))"

lemmas outcome_splits = if_splits option.splits prod.splits list.splits

lemmas intOps_defs [eval_defs] =
  eval_int_const_def eval_bitwise_def eval_diff_def eval_divmod_def eval_equal_def
  eval_from_felt_def eval_u128_from_felt_def eval_int_is_zero_def eval_operation_def
  eval_square_root_def eval_to_felt_def eval_widemul_def eval_guarantee_mul_def
  eval_guarantee_verify_def eval_byte_reverse_def eval_signed_def eval_i128_def eval_unsigned_def
  eval_uint128_def

lemmas gasOps_defs [eval_defs] =
  eval_builtin_withdraw_gas_def eval_withdraw_gas_def eval_redeposit_gas_def
  eval_get_available_gas_def eval_get_builtin_costs_def eval_gas_def eval_gas_reserve_create_def
  eval_gas_reserve_utilize_def eval_gas_reserve_def eval_buy_def eval_refund_def eval_coupon_def

lemmas boundedIntOps_defs [eval_defs] =
  eval_bounded_add_def eval_bounded_sub_def eval_bounded_mul_def eval_div_rem_def
  eval_constrain_def eval_bounded_is_zero_def eval_wrap_non_zero_def eval_trim_def
  eval_bounded_guarantee_verify_def eval_u128_to_u32_guarantees_def eval_bounded_int_def
  eval_downcast_def eval_upcast_def eval_cast_def eval_try_new_def eval_int_range_pop_front_def
  eval_int_range_def

lemmas wideIntOps_defs [eval_defs] =
  eval_inv_mod_n_def eval_u256_is_zero_def eval_u256_divmod_def eval_u256_square_root_def
  eval_uint256_def eval_u512_divmod_def eval_uint512_def

lemmas feltOps_defs [eval_defs] =
  eval_felt_const_def eval_felt_is_zero_def eval_felt252_def eval_bytes31_const_def
  eval_bytes31_from_felt_def eval_bytes31_to_felt252_def eval_bytes31_def

lemmas arrayOps_defs [eval_defs] =
  eval_span_from_tuple_def eval_tuple_from_span_def eval_array_new_def eval_append_def
  eval_array_get_def eval_slice_def eval_len_def eval_array_pop_front_def
  eval_pop_front_consume_def eval_snapshot_pop_front_def eval_snapshot_pop_back_def
  eval_snapshot_multi_pop_front_def eval_snapshot_multi_pop_back_def eval_array_def

lemmas dataOps_defs [eval_defs] =
  eval_enum_init_def eval_from_bounded_int_def eval_enum_match_def eval_snapshot_match_def
  eval_enum_def eval_construct_def eval_deconstruct_def eval_snapshot_deconstruct_def
  eval_struct_def eval_and_def eval_not_def eval_xor_def eval_or_def eval_bool_to_felt252_def
  eval_bool_def eval_unbox_def eval_into_box_def eval_box_forward_snapshot_def eval_box_def
  eval_null_def eval_nullable_from_box_def eval_match_nullable_def
  eval_nullable_forward_snapshot_def eval_nullable_def eval_store_temp_def eval_store_local_def
  eval_finalize_locals_def eval_alloc_local_def eval_rename_def eval_mem_def eval_dup_def
  eval_drop_def eval_snapshot_take_def eval_jump_def eval_branch_align_def eval_revoke_def
  eval_enable_def eval_disable_def eval_ap_tracking_def eval_unwrap_non_zero_def

lemmas dictOps_defs [eval_defs] =
  eval_dict_new_def eval_squash_def eval_dict_def eval_entry_get_def eval_entry_finalize_def
  eval_dict_entry_def

lemmas constOps_defs [eval_defs] =
  eval_as_immediate_def eval_as_box_def eval_const_def

lemmas circuitOps_defs [eval_defs] =
  eval_add_input_def eval_eval_def eval_get_output_def eval_u96_limbs_lt_verify_def
  eval_u96_limbs_lt_verify_v2_def eval_u96_single_limb_lt_verify_def eval_u96_guarantee_verify_def
  eval_failure_guarantee_verify_def eval_get_descriptor_def eval_init_circuit_data_def
  eval_try_into_circuit_modulus_def eval_into_u96_guarantee_def eval_circuit_def

lemmas ecHashOps_defs [eval_defs] =
  eval_ec_is_zero_def eval_unwrap_point_def eval_ec_neg_def eval_ec_new_def eval_state_init_def
  eval_state_add_def eval_state_add_mul_def eval_state_finalize_def eval_point_from_x_def
  eval_ec_zero_def eval_ec_def eval_pedersen_def eval_poseidon_def

lemmas starknetOps_defs [eval_defs] =
  eval_class_hash_const_def eval_storage_base_address_const_def eval_contract_address_const_def
  eval_class_hash_try_from_felt_def eval_contract_address_try_from_felt_def
  eval_storage_address_try_from_felt_def eval_storage_base_address_from_felt_def
  eval_storage_address_to_felt_def eval_contract_address_to_felt_def eval_class_hash_to_felt_def
  eval_storage_address_from_base_def eval_storage_address_from_base_and_offset_def
  eval_get_execution_info_v3_def eval_sha256_state_handle_init_def
  eval_sha256_state_handle_digest_def eval_sha512_state_handle_init_def
  eval_sha512_state_handle_digest_def

lemma eval_ap_tracking_no_call [simp]: "no_call (eval_ap_tracking sel args)"
  by (cases sel; auto simp: dataOps_defs no_call_def bind_Some Let_def split: outcome_splits)

lemma eval_array_no_call [simp]: "no_call (eval_array R sg sel args)"
  by (cases sel; auto simp: arrayOps_defs no_call_def bind_Some Let_def split: outcome_splits)

lemma eval_bool_no_call [simp]: "no_call (eval_bool sel args)"
  by (cases sel; auto simp: dataOps_defs no_call_def bind_Some Let_def split: outcome_splits)

lemma eval_bounded_int_no_call [simp]: "no_call (eval_bounded_int R sg sel args)"
  by (cases sel; auto simp: boundedIntOps_defs no_call_def bind_Some Let_def split: outcome_splits)

lemma eval_box_no_call [simp]: "no_call (eval_box sel args)"
  by (cases sel; auto simp: dataOps_defs no_call_def bind_Some Let_def split: outcome_splits)

lemma eval_branch_align_no_call [simp]: "no_call (eval_branch_align args)"
  by (auto simp: dataOps_defs no_call_def bind_Some Let_def split: outcome_splits)

lemma eval_bytes31_no_call [simp]: "no_call (eval_bytes31 sel args)"
  by (cases sel; auto simp: feltOps_defs no_call_def bind_Some Let_def split: outcome_splits)

lemma eval_cast_no_call [simp]: "no_call (eval_cast R sg sel args)"
  by (cases sel; auto simp: boundedIntOps_defs no_call_def bind_Some Let_def split: outcome_splits)

lemma eval_circuit_no_call [simp]: "no_call (eval_circuit E R sg sel args)"
  by (cases sel; auto simp: circuitOps_defs no_call_def bind_Some Let_def split: outcome_splits)

lemma eval_const_no_call [simp]: "no_call (eval_const R sel args)"
  by (cases sel; auto simp: constOps_defs no_call_def bind_Some Let_def split: outcome_splits)

lemma eval_coupon_no_call [simp]: "no_call (eval_coupon sel args)"
  by (cases sel; auto simp: gasOps_defs no_call_def bind_Some Let_def split: outcome_splits)

lemma eval_drop_no_call [simp]: "no_call (eval_drop args)"
  by (auto simp: dataOps_defs no_call_def bind_Some Let_def split: outcome_splits)

lemma eval_dup_no_call [simp]: "no_call (eval_dup args)"
  by (auto simp: dataOps_defs no_call_def bind_Some Let_def split: outcome_splits)

lemma eval_ec_no_call [simp]: "no_call (eval_ec E sel args)"
  by (cases sel; auto simp: ecHashOps_defs no_call_def bind_Some Let_def split: outcome_splits)

lemma eval_enum_no_call [simp]: "no_call (eval_enum R sg sel args)"
  by (cases sel; auto simp: dataOps_defs no_call_def bind_Some Let_def split: outcome_splits)

lemma eval_felt252_no_call [simp]: "no_call (eval_felt252 E sel args)"
  by (cases sel; auto simp: feltOps_defs no_call_def bind_Some Let_def split: outcome_splits)

lemma eval_dict_no_call [simp]: "no_call (eval_dict E R sg sel args)"
  by (cases sel; auto simp: dictOps_defs no_call_def bind_Some Let_def split: outcome_splits)

lemma eval_dict_entry_no_call [simp]: "no_call (eval_dict_entry R sel args)"
  by (cases sel; auto simp: dictOps_defs no_call_def bind_Some Let_def split: outcome_splits)

lemma eval_gas_no_call [simp]: "no_call (eval_gas E G idx costs sel args)"
  by (cases sel; auto simp: gasOps_defs no_call_def bind_Some Let_def split: outcome_splits)

lemma eval_mem_no_call [simp]: "no_call (eval_mem R sel args)"
  by (cases sel; auto simp: dataOps_defs no_call_def bind_Some Let_def split: outcome_splits)

lemma eval_nullable_no_call [simp]: "no_call (eval_nullable sel args)"
  by (cases sel; auto simp: dataOps_defs no_call_def bind_Some Let_def split: outcome_splits)

lemma eval_pedersen_no_call [simp]: "no_call (eval_pedersen E args)"
  by (auto simp: ecHashOps_defs no_call_def bind_Some Let_def split: outcome_splits)

lemma eval_poseidon_no_call [simp]: "no_call (eval_poseidon E args)"
  by (auto simp: ecHashOps_defs no_call_def bind_Some Let_def split: outcome_splits)

lemma eval_signed_no_call [simp]: "no_call (eval_signed R sg sel args)"
  by (cases sel; auto simp: intOps_defs no_call_def bind_Some Let_def split: outcome_splits)

lemma eval_i128_no_call [simp]: "no_call (eval_i128 R sg sel args)"
  by (cases sel; auto simp: intOps_defs no_call_def bind_Some Let_def split: outcome_splits)

lemma eval_unsigned_no_call [simp]: "no_call (eval_unsigned E R sg sel args)"
  by (cases sel; auto simp: intOps_defs no_call_def bind_Some Let_def split: outcome_splits)

lemma eval_uint128_no_call [simp]: "no_call (eval_uint128 E R sg sel args)"
  by (cases sel; auto simp: intOps_defs no_call_def bind_Some Let_def split: outcome_splits)

lemma eval_uint256_no_call [simp]: "no_call (eval_uint256 E sel args)"
  by (cases sel; auto simp: wideIntOps_defs no_call_def bind_Some Let_def split: outcome_splits)

lemma eval_uint512_no_call [simp]: "no_call (eval_uint512 sel args)"
  by (cases sel; auto simp: wideIntOps_defs no_call_def bind_Some Let_def split: outcome_splits)

lemma eval_struct_no_call [simp]: "no_call (eval_struct R sg sel args)"
  by (cases sel; auto simp: dataOps_defs no_call_def bind_Some Let_def split: outcome_splits)

lemma eval_snapshot_take_no_call [simp]: "no_call (eval_snapshot_take args)"
  by (auto simp: dataOps_defs no_call_def bind_Some Let_def split: outcome_splits)

lemma eval_jump_no_call [simp]: "no_call (eval_jump args)"
  by (auto simp: dataOps_defs no_call_def bind_Some Let_def split: outcome_splits)

lemma eval_unwrap_non_zero_no_call [simp]: "no_call (eval_unwrap_non_zero args)"
  by (auto simp: dataOps_defs no_call_def bind_Some Let_def split: outcome_splits)

lemma eval_int_range_no_call [simp]: "no_call (eval_int_range R sg sel args)"
  by (cases sel; auto simp: boundedIntOps_defs no_call_def bind_Some Let_def split: outcome_splits)

lemma eval_gas_reserve_no_call [simp]: "no_call (eval_gas_reserve sel args)"
  by (cases sel; auto simp: gasOps_defs no_call_def bind_Some Let_def split: outcome_splits)

text \<open>The Starknet evaluators, over the shapes they share.\<close>

lemma syscall_branches_no_call [simp]: "syscall_branches i system t ok r \<noteq> (FunctionCall f as, s)"
  by (auto simp: syscall_branches_def split: sum.splits prod.splits)

lemma secp_point_branches_no_call [simp]: "secp_point_branches R sg system r \<noteq> Some (FunctionCall f as, s)"
  by (auto simp: secp_point_branches_def bind_Some split: sum.splits prod.splits)

lemma eval_secp256_no_call [simp]:
  "eval_secp256_new H R sg k args s \<noteq> Some (FunctionCall f as, s')"
  "eval_secp256_add H k args s \<noteq> Some (FunctionCall f as, s')"
  "eval_secp256_mul H k args s \<noteq> Some (FunctionCall f as, s')"
  "eval_secp256_get_point_from_x H R sg k args s \<noteq> Some (FunctionCall f as, s')"
  "eval_secp256_get_xy H R sg k args s \<noteq> Some (FunctionCall f as, s')"
  by (auto simp: eval_secp256_new_def eval_secp256_add_def eval_secp256_mul_def Let_def
      eval_secp256_get_point_from_x_def eval_secp256_get_xy_def bind_Some split: sum.splits prod.splits)

lemma eval_starknet_no_call: "eval_starknet H R sg sel args s \<noteq> Some (FunctionCall f as, s')"
proof (cases sel)
  case (Secp256 k op)
  then show ?thesis by (cases op) (simp_all add: eval_starknet_def)
qed (auto simp: eval_starknet_def keep_state_def bind_Some starknetOps_defs
    eval_call_contract_def eval_library_call_def eval_storage_read_def eval_storage_write_def
    eval_emit_event_def eval_get_block_hash_def eval_deploy_def eval_keccak_def
    eval_get_execution_info_def eval_get_execution_info_v2_def eval_meta_tx_v0_def
    eval_sha256_process_block_def eval_sha512_process_block_def eval_replace_class_def
    eval_send_message_to_l1_def eval_get_class_hash_at_def split: if_splits)

lemma keep_state_call: "no_call r \<Longrightarrow> keep_state s r \<noteq> Some (FunctionCall f as, s')"
  by (auto simp: keep_state_def no_call_def)

text \<open>Only the two call libfuncs call, and they call their own function on checked arguments.\<close>

lemma eval_function_call_iff:
  "eval_function_call R f args = Some a \<longleftrightarrow>
    list_all2 (has_type R) args (map snd (fn_params f)) \<and> a = FunctionCall (fn_id f) args"
proof (cases "length args = length (fn_params f)")
  case True
  then have "length args = length (map snd (fn_params f))" by simp
  from values_are_True [OF this, of R] True show ?thesis
    by (auto simp: eval_function_call_def bind_Some)
next
  case False
  then show ?thesis by (auto simp: eval_function_call_def dest: list_all2_lengthD)
qed

lemma eval_coupon_call_SomeD:
  assumes "eval_coupon_call R f args = Some a"
  shows "list_all2 (has_type R) (butlast args) (map snd (fn_params f)) \<and> a = FunctionCall (fn_id f) (butlast args)"
proof -
  have c: "0 < length args" "length args - 1 = length (fn_params f)"
    "values_are R args (map snd (fn_params f)) = Some True" "a = FunctionCall (fn_id f) (butlast args)"
    using assms by (auto simp: eval_coupon_call_def bind_Some)
  then obtain as cp where as: "args = as @ [cp]" by (metis length_greater_0_conv rev_exhaust)
  have l: "length as = length (map snd (fn_params f))" using c(2) as by simp
  then have "zip args (map snd (fn_params f)) = zip as (map snd (fn_params f))"
    by (simp add: as zip_append1)
  then have "values_are R as (map snd (fn_params f)) = Some True"
    using c(3) by (simp add: values_are_def)
  with values_are_True [OF l, of R] c(4) as show ?thesis by simp
qed

lemma eval_call:
  assumes "eval E H R G idx costs lf args s = Some (FunctionCall fid as, s')"
  shows "\<exists>l f. get_libfunc R lf = Some l \<and> fid = fn_id f \<and>
    (lf_selector l = FunctionCallL f \<and> as = args \<or> lf_selector l = CouponCallL f \<and> as = butlast args) \<and>
    list_all2 (has_type R) as (map snd (fn_params f))"
proof -
  obtain l where l: "get_libfunc R lf = Some l"
    using assms by (cases "get_libfunc R lf") (simp_all add: eval_def)
  show ?thesis
  proof (cases "lf_selector l")
    case (FunctionCallL f)
    then show ?thesis
      using assms l eval_function_call_iff [of R f args] by (auto simp: eval_def keep_state_def)
  next
    case (CouponCallL f)
    then show ?thesis
      using assms l eval_coupon_call_SomeD [of R f args] by (auto simp: eval_def keep_state_def)
  qed (use assms l in \<open>simp_all add: eval_def keep_state_call eval_starknet_no_call\<close>)
qed

end
