(* ===== verification/Machine.thy ===== *)
theory Machine
  imports Dispatch
begin

text \<open>
  \<open>debug_utils/sierra-emu/src/vm.rs\<close>: the virtual machine. Its state is a stack of frames,
  each a function's variables and program counter; \<open>step\<close> runs one statement, a call pushes
  a frame and a return pops it and hands the values to the frame below. \<open>dump.rs\<close>: the
  trace of the states before each step and the reading of a contract's result from the last.

  The stack is the list \<open>frames\<close> with the running frame first. A panic is \<open>None\<close>; the loops
  \<open>run\<close> and \<open>run_with_trace\<close> may go on for ever and take fuel.
\<close>

section \<open>State\<close>

record sierra_frame =
  frame_function_id :: function_id
  frame_state :: vstate
  frame_pc :: statement_idx

record contract_entry_point =
  ep_selector :: nat
  ep_function_idx :: nat

record contract_entry_points =
  ep_constructor :: "contract_entry_point list"
  ep_external :: "contract_entry_point list"
  ep_l1_handler :: "contract_entry_point list"

record virtual_machine =
  vm_program :: program
  vm_registry :: registry
  frames :: "sierra_frame list"
  vm_gas :: gas_metadata
  entry_points :: "contract_entry_points option"
  vm_builtin_costs :: builtin_costs

definition all_entry_points :: "contract_entry_points \<Rightarrow> contract_entry_point list" where
  "all_entry_points eps = ep_constructor eps @ ep_external eps @ ep_l1_handler eps"

section \<open>Construction\<close>

text \<open>
  The registry and the gas metadata are computed by other crates: \<open>mk_registry\<close> and
  \<open>mk_gas\<close> stand for \<open>ProgramRegistry::new\<close> and \<open>GasMetadata::new\<close>, \<open>None\<close> being an
  error, which the code unwraps. The configuration is the part the code chooses.
\<close>

record metadata_config =
  function_set_costs :: "(function_id \<times> (cost_token \<times> nat) list) list"
  linear_gas_solver :: bool
  linear_ap_change_solver :: bool
  skip_non_linear_solver_comparisons :: bool
  compute_runtime_costs :: bool

definition vm_new ::
  "externs \<Rightarrow> (program \<Rightarrow> registry option) \<Rightarrow> (program \<Rightarrow> metadata_config option \<Rightarrow> gas_metadata option) \<Rightarrow>
    metadata_config \<Rightarrow> program \<Rightarrow> virtual_machine option" where
  "vm_new E mk_registry mk_gas default_config P =
    do {
      R \<leftarrow> mk_registry P;
      G \<leftarrow> mk_gas P (Some default_config);
      Some \<lparr>vm_program = P, vm_registry = R, frames = [], vm_gas = G, entry_points = None,
            vm_builtin_costs = builtin_costs_default E\<rparr> }"

definition no_eq_solver :: "nat \<Rightarrow> nat \<Rightarrow> bool" where
  "no_eq_solver major minor =
    (if major < 1 then False else if major = 1 then 4 \<le> minor else True)"

definition starknet_config :: "nat \<Rightarrow> contract_entry_points \<Rightarrow> nat \<Rightarrow> nat \<Rightarrow> metadata_config" where
  "starknet_config entry_point_cost eps major minor =
    \<lparr>function_set_costs =
       map (\<lambda>x. (ep_function_idx x, [(ConstTok, entry_point_cost)])) (all_entry_points eps),
     linear_gas_solver = no_eq_solver major minor,
     linear_ap_change_solver = no_eq_solver major minor,
     skip_non_linear_solver_comparisons = False,
     compute_runtime_costs = False\<rparr>"

definition vm_new_starknet ::
  "externs \<Rightarrow> (program \<Rightarrow> registry option) \<Rightarrow> (program \<Rightarrow> metadata_config option \<Rightarrow> gas_metadata option) \<Rightarrow>
    nat \<Rightarrow> program \<Rightarrow> contract_entry_points \<Rightarrow> nat \<Rightarrow> nat \<Rightarrow> virtual_machine option" where
  "vm_new_starknet E mk_registry mk_gas entry_point_cost P eps major minor =
    do {
      R \<leftarrow> mk_registry P;
      G \<leftarrow> mk_gas P (Some (starknet_config entry_point_cost eps major minor));
      Some \<lparr>vm_program = P, vm_registry = R, frames = [], vm_gas = G, entry_points = Some eps,
            vm_builtin_costs = builtin_costs_default E\<rparr> }"

section \<open>Pushing a frame\<close>

text \<open>Collecting pairs into an \<open>OrderedHashMap\<close>: a later pair replaces an earlier one.\<close>

definition collect_state :: "(var_id \<times> val) list \<Rightarrow> vstate" where
  "collect_state kvs = foldl (\<lambda>m (k, v). fmupd k v m) fmempty kvs"

definition push_frame :: "function_id \<Rightarrow> val list \<Rightarrow> virtual_machine \<Rightarrow> virtual_machine option" where
  "push_frame fid args vm =
    do {
      f \<leftarrow> get_function (vm_registry vm) fid;
      assert_that (length args = length (fn_params f));
      ok \<leftarrow> values_are (vm_registry vm) args (map snd (fn_params f));
      assert_that ok;
      Some (vm\<lparr>frames :=
        \<lparr>frame_function_id = fid,
         frame_state = collect_state (zip (map fst (fn_params f)) args),
         frame_pc = fn_entry_point f\<rparr> # frames vm\<rparr>) }"

text \<open>
  The argument of a contract's entry point for a parameter type. The calldata goes into the
  struct around a snapshot of an array.
\<close>

definition calldata_array_ty :: "registry \<Rightarrow> type_id list \<Rightarrow> type_id option" where
  "calldata_array_ty R members =
    do {
      m \<leftarrow> nth_opt members 0;
      inner \<leftarrow> get_snapshot_ty R m;
      get_array_ty R inner }"

definition contract_arg ::
  "registry \<Rightarrow> u64 \<Rightarrow> val list \<Rightarrow> builtin_costs \<Rightarrow> type_id \<Rightarrow> val option" where
  "contract_arg R initial_gas args costs t =
    do {
      ty \<leftarrow> get_type R t;
      (case ty of
        GasBuiltinT \<Rightarrow> Some (U64 initial_gas)
      | StructT members \<Rightarrow>
          do { felt_ty \<leftarrow> calldata_array_ty R members; Some (Struct [Array felt_ty args]) }
      | BuiltinCostsT \<Rightarrow> Some (BuiltinCosts costs)
      | StarknetT SystemST \<Rightarrow> Some Unit
      | RangeCheckT \<Rightarrow> Some Unit
      | RangeCheck96T \<Rightarrow> Some Unit
      | CircuitT MulModCT \<Rightarrow> Some Unit
      | CircuitT AddModCT \<Rightarrow> Some Unit
      | PedersenT \<Rightarrow> Some Unit
      | PoseidonT \<Rightarrow> Some Unit
      | BitwiseT \<Rightarrow> Some Unit
      | EcOpT \<Rightarrow> Some Unit
      | SegmentArenaT \<Rightarrow> Some Unit
      | _ \<Rightarrow> None) }"

text \<open>
  \<open>function.signature.param_types\<close> and the types of \<open>function.params\<close> are the same list in a
  program, so the model keeps one of them.
\<close>

definition call_contract_vm ::
  "externs \<Rightarrow> felt \<Rightarrow> u64 \<Rightarrow> felt list \<Rightarrow> builtin_costs option \<Rightarrow> virtual_machine \<Rightarrow> virtual_machine option" where
  "call_contract_vm E selector initial_gas calldata costs vm =
    do {
      let c = (case costs of Some c \<Rightarrow> c | None \<Rightarrow> builtin_costs_default E);
      let vm = vm\<lparr>vm_builtin_costs := c\<rparr>;
      eps \<leftarrow> entry_points vm;
      ep \<leftarrow> find (\<lambda>x. ep_selector x = nat (felt_int selector)) (all_entry_points eps);
      f \<leftarrow> nth_opt (funcs (vm_program vm)) (ep_function_idx ep);
      args \<leftarrow> map_opt (contract_arg (vm_registry vm) initial_gas (map Felt calldata) c)
                (map snd (fn_params f));
      push_frame (fn_id f) args vm }"

text \<open>
  \<open>call_program\<close> supplies the implicit arguments and takes the others from the caller's
  list, in order.
\<close>

fun program_args :: "registry \<Rightarrow> u64 \<Rightarrow> type_id list \<Rightarrow> val list \<Rightarrow> val list option" where
  "program_args R gas [] vs = Some []"
| "program_args R gas (t # ts) vs =
    do {
      ty \<leftarrow> get_type R t;
      (v, vs) \<leftarrow>
        (case ty of
          GasBuiltinT \<Rightarrow> Some (U64 gas, vs)
        | RangeCheckT \<Rightarrow> Some (Unit, vs)
        | RangeCheck96T \<Rightarrow> Some (Unit, vs)
        | BitwiseT \<Rightarrow> Some (Unit, vs)
        | EcOpT \<Rightarrow> Some (Unit, vs)
        | PedersenT \<Rightarrow> Some (Unit, vs)
        | PoseidonT \<Rightarrow> Some (Unit, vs)
        | SegmentArenaT \<Rightarrow> Some (Unit, vs)
        | CircuitT AddModCT \<Rightarrow> Some (Unit, vs)
        | CircuitT MulModCT \<Rightarrow> Some (Unit, vs)
        | StarknetT st \<Rightarrow> (case st of SystemST \<Rightarrow> Some (Unit, vs) | _ \<Rightarrow> None)
        | _ \<Rightarrow> (case vs of v # vs \<Rightarrow> Some (v, vs) | [] \<Rightarrow> None));
      rest \<leftarrow> program_args R gas ts vs;
      Some (v # rest) }"

definition call_program ::
  "externs \<Rightarrow> sierra_function \<Rightarrow> u64 \<Rightarrow> val list \<Rightarrow> virtual_machine \<Rightarrow> virtual_machine option" where
  "call_program E f initial_gas args vm =
    do {
      req \<leftarrow> initial_required_gas E (vm_gas vm) (fn_id f);
      required_gas \<leftarrow> req;
      gas \<leftarrow> checked_sub initial_gas required_gas;
      vs \<leftarrow> program_args (vm_registry vm) gas (map snd (fn_params f)) args;
      push_frame (fn_id f) vs vm }"

section \<open>One step\<close>

text \<open>
  An invocation: take the arguments out of the frame, evaluate, check the outcome against the
  statement and the signature, and either store the results and move on or push the frame of
  the callee, leaving this one at the statement.
\<close>

definition step_invocation ::
  "externs \<Rightarrow> 's syscall_handler \<Rightarrow> virtual_machine \<Rightarrow> sierra_frame \<Rightarrow> sierra_frame list \<Rightarrow>
    libfunc_id \<Rightarrow> var_id list \<Rightarrow> branch_info list \<Rightarrow> 's \<Rightarrow> (virtual_machine \<times> 's) option" where
  "step_invocation E H vm frame rest lf args branches s =
    do {
      let R = vm_registry vm;
      (st, vs) \<leftarrow> ex_take_vars E (frame_state frame) args;
      (action, s') \<leftarrow> eval E H R (vm_gas vm) (frame_pc frame) (vm_builtin_costs vm) lf vs s;
      (case action of
        NormalBranch i results \<Rightarrow>
          do {
            b \<leftarrow> nth_opt branches i;
            assert_that (length results = length (br_results b));
            l \<leftarrow> get_libfunc R lf;
            tys \<leftarrow> nth_opt (branch_signatures (lf_signature l)) i;
            ok \<leftarrow> values_are R results tys;
            assert_that ok;
            st' \<leftarrow> ex_put_vars E st (zip (br_results b) results);
            Some (vm\<lparr>frames :=
              frame\<lparr>frame_pc := ex_next_idx E (frame_pc frame) (br_target b),
                    frame_state := st'\<rparr> # rest\<rparr>, s') }
      | FunctionCall fid as \<Rightarrow>
          do {
            f \<leftarrow> get_function R fid;
            Some (vm\<lparr>frames :=
              \<lparr>frame_function_id = fid,
               frame_state = collect_state (zip (map fst (fn_params f)) as),
               frame_pc = fn_entry_point f\<rparr> #
              frame\<lparr>frame_state := st\<rparr> # rest\<rparr>, s') }) }"

text \<open>A return: the values go to the statement the frame below is waiting at.\<close>

definition step_return ::
  "externs \<Rightarrow> virtual_machine \<Rightarrow> sierra_frame \<Rightarrow> sierra_frame list \<Rightarrow> var_id list \<Rightarrow> virtual_machine option" where
  "step_return E vm frame rest ids =
    (case rest of
      [] \<Rightarrow> Some (vm\<lparr>frames := []\<rparr>)
    | prev # rest' \<Rightarrow>
        do {
          (st, vs) \<leftarrow> ex_take_vars E (frame_state frame) ids;
          assert_that (st = fmempty);
          stmt \<leftarrow> nth_opt (statements (vm_program vm)) (frame_pc prev);
          b \<leftarrow> (case stmt of
                  Invocation _ _ branches \<Rightarrow> args1 branches
                | Return _ \<Rightarrow> None);
          assert_that (length (br_results b) = length vs);
          st' \<leftarrow> ex_put_vars E (frame_state prev) (zip (br_results b) vs);
          Some (vm\<lparr>frames :=
            prev\<lparr>frame_pc := ex_next_idx E (frame_pc prev) (br_target b),
                 frame_state := st'\<rparr> # rest'\<rparr>) })"

text \<open>
  \<open>step\<close> returns the statement it ran and the variables before it, or \<open>None\<close> (inside the
  outer \<open>Some\<close>) when no frame is left.
\<close>

definition step ::
  "externs \<Rightarrow> 's syscall_handler \<Rightarrow> virtual_machine \<Rightarrow> 's \<Rightarrow>
    ((statement_idx \<times> vstate) option \<times> virtual_machine \<times> 's) option" where
  "step E H vm s =
    (case frames vm of
      [] \<Rightarrow> Some (None, vm, s)
    | frame # rest \<Rightarrow>
        do {
          stmt \<leftarrow> nth_opt (statements (vm_program vm)) (frame_pc frame);
          (vm', s') \<leftarrow>
            (case stmt of
              Invocation lf args branches \<Rightarrow> step_invocation E H vm frame rest lf args branches s
            | Return ids \<Rightarrow> do { vm' \<leftarrow> step_return E vm frame rest ids; Some (vm', s) });
          Some (Some (frame_pc frame, frame_state frame), vm', s') })"

section \<open>Runs\<close>

record state_dump =
  statement_idx :: statement_idx
  items :: vstate

record program_trace =
  states :: "state_dump list"

datatype 'a outcome = Done 'a | Panicked | OutOfFuel

fun map_outcome :: "('a \<Rightarrow> 'b) \<Rightarrow> 'a outcome \<Rightarrow> 'b outcome" where
  "map_outcome f (Done a) = Done (f a)"
| "map_outcome f Panicked = Panicked"
| "map_outcome f OutOfFuel = OutOfFuel"

definition dump_of :: "statement_idx \<times> vstate \<Rightarrow> state_dump" where
  "dump_of p = \<lparr>statement_idx = fst p, items = snd p\<rparr>"

definition trace_push :: "program_trace \<Rightarrow> state_dump \<Rightarrow> program_trace" where
  "trace_push tr d = tr\<lparr>states := states tr @ [d]\<rparr>"

fun run_with_trace_loop ::
  "nat \<Rightarrow> externs \<Rightarrow> 's syscall_handler \<Rightarrow> program_trace \<Rightarrow> virtual_machine \<Rightarrow> 's \<Rightarrow>
    (program_trace \<times> virtual_machine \<times> 's) outcome" where
  "run_with_trace_loop 0 E H tr vm s = OutOfFuel"
| "run_with_trace_loop (Suc n) E H tr vm s =
    (case step E H vm s of
      None \<Rightarrow> Panicked
    | Some (None, vm', s') \<Rightarrow> Done (tr, vm', s')
    | Some (Some p, vm', s') \<Rightarrow> run_with_trace_loop n E H (trace_push tr (dump_of p)) vm' s')"

definition run_with_trace ::
  "nat \<Rightarrow> externs \<Rightarrow> 's syscall_handler \<Rightarrow> virtual_machine \<Rightarrow> 's \<Rightarrow>
    (program_trace \<times> virtual_machine \<times> 's) outcome" where
  "run_with_trace n E H vm s = run_with_trace_loop n E H \<lparr>states = []\<rparr> vm s"

fun run_loop ::
  "nat \<Rightarrow> externs \<Rightarrow> 's syscall_handler \<Rightarrow> state_dump option \<Rightarrow> virtual_machine \<Rightarrow> 's \<Rightarrow>
    (state_dump option \<times> virtual_machine \<times> 's) outcome" where
  "run_loop 0 E H latest vm s = OutOfFuel"
| "run_loop (Suc n) E H latest vm s =
    (case step E H vm s of
      None \<Rightarrow> Panicked
    | Some (None, vm', s') \<Rightarrow> Done (latest, vm', s')
    | Some (Some p, vm', s') \<Rightarrow> run_loop n E H (Some (dump_of p)) vm' s')"

end
