(* ===== verification/MachineTyping.thy ===== *)
theory MachineTyping
  imports Machine
begin

text \<open>
  Type safety of the virtual machine. A typing of a program gives each reachable statement
  the types of the variables that are live before it and the function it belongs to. In a
  program that is well typed under it, the machine's own checks on variables, returns and
  calls never fail, every value a frame holds has the type its variable is declared with, and
  a step can only panic inside an evaluator or on an outcome that is not the one its signature
  declares.
\<close>

section \<open>Typings\<close>

type_synonym tenv = "(var_id, type_id) fmap"

record program_typing =
  env_at :: "statement_idx \<Rightarrow> tenv option"
  fn_at :: "statement_idx \<Rightarrow> sierra_function option"

fun take_tys :: "tenv \<Rightarrow> var_id list \<Rightarrow> (tenv \<times> type_id list) option" where
  "take_tys T [] = Some (T, [])"
| "take_tys T (x # xs) =
    do {
      t \<leftarrow> fmlookup T x;
      (T', ts) \<leftarrow> take_tys (fmdrop x T) xs;
      Some (T', t # ts) }"

fun put_tys :: "tenv \<Rightarrow> (var_id \<times> type_id) list \<Rightarrow> tenv option" where
  "put_tys T [] = Some T"
| "put_tys T ((x, t) # xts) =
    (case fmlookup T x of
      Some _ \<Rightarrow> None
    | None \<Rightarrow> put_tys (fmupd x t T) xts)"

definition param_env :: "(var_id \<times> type_id) list \<Rightarrow> tenv" where
  "param_env ps = foldl (\<lambda>m (k, t). fmupd k t m) fmempty ps"

text \<open>
  A branch stores its results next to the variables that were not consumed, and its target
  expects exactly those.
\<close>

definition wt_branch ::
  "externs \<Rightarrow> program_typing \<Rightarrow> statement_idx \<Rightarrow> tenv \<Rightarrow> branch_info \<Rightarrow> type_id list \<Rightarrow> bool" where
  "wt_branch E \<Theta> pc T b tys \<longleftrightarrow>
    length (br_results b) = length tys \<and>
    put_tys T (zip (br_results b) tys) \<noteq> None \<and>
    env_at \<Theta> (ex_next_idx E pc (br_target b)) = put_tys T (zip (br_results b) tys) \<and>
    fn_at \<Theta> (ex_next_idx E pc (br_target b)) = fn_at \<Theta> pc"

definition callee :: "core_libfunc \<Rightarrow> sierra_function option" where
  "callee lf = (case lf of FunctionCallL f \<Rightarrow> Some f | CouponCallL f \<Rightarrow> Some f | _ \<Rightarrow> None)"

definition wt_invocation ::
  "externs \<Rightarrow> registry \<Rightarrow> program_typing \<Rightarrow> statement_idx \<Rightarrow> tenv \<Rightarrow> libfunc_id \<Rightarrow> var_id list \<Rightarrow>
    branch_info list \<Rightarrow> bool" where
  "wt_invocation E R \<Theta> pc T lf args branches \<longleftrightarrow>
    (\<exists>l T'. get_libfunc R lf = Some l \<and>
      take_tys T args = Some (T', param_signatures (lf_signature l)) \<and>
      list_all2 (wt_branch E \<Theta> pc T') branches (branch_signatures (lf_signature l)) \<and>
      (\<forall>f. callee (lf_selector l) = Some f \<longrightarrow>
        get_function R (fn_id f) = Some f \<and> branch_signatures (lf_signature l) = [fn_ret_types f]))"

definition wt_stmt :: "externs \<Rightarrow> program \<Rightarrow> registry \<Rightarrow> program_typing \<Rightarrow> statement_idx \<Rightarrow> bool" where
  "wt_stmt E P R \<Theta> pc \<longleftrightarrow>
    (\<exists>stmt T f. nth_opt (statements P) pc = Some stmt \<and> env_at \<Theta> pc = Some T \<and> fn_at \<Theta> pc = Some f \<and>
      (case stmt of
        Invocation lf args branches \<Rightarrow> wt_invocation E R \<Theta> pc T lf args branches
      | Return ids \<Rightarrow> take_tys T ids = Some (fmempty, fn_ret_types f)))"

definition wt_program :: "externs \<Rightarrow> program \<Rightarrow> registry \<Rightarrow> program_typing \<Rightarrow> bool" where
  "wt_program E P R \<Theta> \<longleftrightarrow>
    (\<forall>pc. env_at \<Theta> pc \<noteq> None \<longrightarrow> wt_stmt E P R \<Theta> pc) \<and>
    (\<forall>fid f. get_function R fid = Some f \<longrightarrow>
      env_at \<Theta> (fn_entry_point f) = Some (param_env (fn_params f)) \<and>
      fn_at \<Theta> (fn_entry_point f) = Some f)"

section \<open>Conformance\<close>

definition conf :: "registry \<Rightarrow> vstate \<Rightarrow> tenv \<Rightarrow> bool" where
  "conf R st T \<longleftrightarrow> fmrel (\<lambda>v t. has_type R v t) st T"

text \<open>
  A frame below the running one waits, at a call, for the values of the function above it:
  what it still holds conforms to what the call left, and with the results it conforms to the
  statement after the call. The outermost frame runs the function \<open>f0\<close>.
\<close>

fun conf_callers ::
  "externs \<Rightarrow> program \<Rightarrow> registry \<Rightarrow> program_typing \<Rightarrow> sierra_function \<Rightarrow> sierra_function \<Rightarrow>
    sierra_frame list \<Rightarrow> bool" where
  "conf_callers E P R \<Theta> f0 f [] = (f = f0)"
| "conf_callers E P R \<Theta> f0 f (fr # frs) =
    (\<exists>lf args b T g.
      nth_opt (statements P) (frame_pc fr) = Some (Invocation lf args [b]) \<and>
      conf R (frame_state fr) T \<and>
      wt_branch E \<Theta> (frame_pc fr) T b (fn_ret_types f) \<and>
      fn_at \<Theta> (frame_pc fr) = Some g \<and>
      conf_callers E P R \<Theta> f0 g frs)"

definition conf_frames ::
  "externs \<Rightarrow> program \<Rightarrow> registry \<Rightarrow> program_typing \<Rightarrow> sierra_function \<Rightarrow> sierra_frame list \<Rightarrow> bool" where
  "conf_frames E P R \<Theta> f0 frs \<longleftrightarrow>
    (case frs of
      [] \<Rightarrow> True
    | fr # rest \<Rightarrow>
        \<exists>T f. env_at \<Theta> (frame_pc fr) = Some T \<and> fn_at \<Theta> (frame_pc fr) = Some f \<and>
          conf R (frame_state fr) T \<and> conf_callers E P R \<Theta> f0 f rest)"

definition conf_vm :: "externs \<Rightarrow> program_typing \<Rightarrow> sierra_function \<Rightarrow> virtual_machine \<Rightarrow> bool" where
  "conf_vm E \<Theta> f0 vm \<longleftrightarrow> conf_frames E (vm_program vm) (vm_registry vm) \<Theta> f0 (frames vm)"

lemma conf_empty [simp]: "conf R fmempty fmempty"
  by (simp add: conf_def fmrel_iff)

lemma conf_empty_inv: "conf R st fmempty \<Longrightarrow> st = fmempty"
  unfolding conf_def by (rule fmap_ext) (auto dest: fmrelD)

lemma conf_lookup:
  assumes "conf R st T" "fmlookup T x = Some t"
  obtains v where "fmlookup st x = Some v" "has_type R v t"
  using assms fmrelD [of "\<lambda>v t. has_type R v t" st T x] by (auto simp: conf_def option_rel_Some2)

lemma conf_lookup_None: "conf R st T \<Longrightarrow> fmlookup T x = None \<Longrightarrow> fmlookup st x = None"
  using fmrelD [of "\<lambda>v t. has_type R v t" st T x] by (auto simp: conf_def)

lemma conf_drop: "conf R st T \<Longrightarrow> conf R (fmdrop x st) (fmdrop x T)"
  unfolding conf_def by (rule fmrel_drop)

lemma conf_upd: "conf R st T \<Longrightarrow> has_type R v t \<Longrightarrow> conf R (fmupd x v st) (fmupd x t T)"
  unfolding conf_def by (rule fmrel_upd)

lemma take_conf:
  "conf R st T \<Longrightarrow> take_tys T xs = Some (T', ts) \<Longrightarrow>
    \<exists>st' vs. take_vars_spec st xs = Some (st', vs) \<and> conf R st' T' \<and> list_all2 (has_type R) vs ts"
proof (induction xs arbitrary: st T ts)
  case (Cons x xs)
  from Cons.prems(2) obtain t us where t: "fmlookup T x = Some t" "ts = t # us"
    "take_tys (fmdrop x T) xs = Some (T', us)"
    by (auto simp: bind_Some)
  from Cons.prems(1) t(1) obtain v where v: "fmlookup st x = Some v" "has_type R v t" by (rule conf_lookup)
  from Cons.IH [OF conf_drop [OF Cons.prems(1)] t(3)] v t(2) show ?case by auto
qed simp

lemma put_conf:
  "conf R st T \<Longrightarrow> put_tys T (zip xs ts) = Some T' \<Longrightarrow> list_all2 (has_type R) vs ts \<Longrightarrow>
    length xs = length ts \<Longrightarrow>
    \<exists>st'. put_vars_spec st (zip xs vs) = Some st' \<and> conf R st' T'"
proof (induction xs arbitrary: st T ts vs)
  case (Cons x xs)
  from Cons.prems(3,4) obtain t us v ws where ts: "ts = t # us" "vs = v # ws" "has_type R v t"
    "list_all2 (has_type R) ws us" "length xs = length us"
    by (auto simp: list_all2_Cons2 Suc_length_conv)
  from Cons.prems(2) ts(1) have n: "fmlookup T x = None" "put_tys (fmupd x t T) (zip xs us) = Some T'"
    by (auto split: option.splits)
  from Cons.IH [OF conf_upd [OF Cons.prems(1) ts(3)] n(2) ts(4,5)]
    conf_lookup_None [OF Cons.prems(1) n(1)] ts(2) show ?case by auto
qed simp

lemma collect_conf_from:
  "conf R st T \<Longrightarrow> list_all2 (has_type R) vs (map snd ps) \<Longrightarrow>
    conf R (foldl (\<lambda>m (k, v). fmupd k v m) st (zip (map fst ps) vs))
      (foldl (\<lambda>m (k, t). fmupd k t m) T ps)"
proof (induction ps arbitrary: st T vs)
  case (Cons p ps)
  then obtain v ws where "vs = v # ws" "has_type R v (snd p)" "list_all2 (has_type R) ws (map snd ps)"
    by (auto simp: list_all2_Cons2)
  with Cons conf_upd show ?case by (cases p) auto
qed simp

lemma collect_conf:
  "list_all2 (has_type R) vs (map snd ps) \<Longrightarrow> conf R (collect_state (zip (map fst ps) vs)) (param_env ps)"
  unfolding collect_state_def param_env_def by (rule collect_conf_from) simp_all

section \<open>Safety of a step\<close>

lemma wt_programD:
  assumes "wt_program E P R \<Theta>" "env_at \<Theta> pc = Some T"
  obtains stmt f where "nth_opt (statements P) pc = Some stmt" "fn_at \<Theta> pc = Some f"
    "\<And>lf args branches. stmt = Invocation lf args branches \<Longrightarrow> wt_invocation E R \<Theta> pc T lf args branches"
    "\<And>ids. stmt = Return ids \<Longrightarrow> take_tys T ids = Some (fmempty, fn_ret_types f)"
proof -
  have "wt_stmt E P R \<Theta> pc" using assms by (auto simp: wt_program_def)
  then obtain stmt f where s: "nth_opt (statements P) pc = Some stmt" "fn_at \<Theta> pc = Some f"
    "case stmt of
        Invocation lf args branches \<Rightarrow> wt_invocation E R \<Theta> pc T lf args branches
      | Return ids \<Rightarrow> take_tys T ids = Some (fmempty, fn_ret_types f)"
    unfolding wt_stmt_def using assms(2) by auto
  show thesis by (rule that [OF s(1,2)]) (use s(3) in auto)
qed

text \<open>
  An outcome is accepted exactly when it is typed; storing it then succeeds and the frame
  conforms to the next statement.
\<close>

lemma branch_conf:
  assumes "edit_state_ok E" "conf R st T" "wt_branch E \<Theta> pc T b tys" "list_all2 (has_type R) vs tys"
  obtains st' T' where "ex_put_vars E st (zip (br_results b) vs) = Some st'"
    "env_at \<Theta> (ex_next_idx E pc (br_target b)) = Some T'" "conf R st' T'"
    "fn_at \<Theta> (ex_next_idx E pc (br_target b)) = fn_at \<Theta> pc"
    "length vs = length (br_results b)"
proof -
  obtain T' where T': "put_tys T (zip (br_results b) tys) = Some T'"
    using assms(3) by (auto simp: wt_branch_def)
  have len: "length (br_results b) = length tys" using assms(3) by (simp add: wt_branch_def)
  obtain st' where "put_vars_spec st (zip (br_results b) vs) = Some st'" "conf R st' T'"
    using put_conf [OF assms(2) T' assms(4) len] by blast
  then show thesis
    using assms(1,3) T' len list_all2_lengthD [OF assms(4)]
    by (intro that [of st' T']) (simp_all add: edit_state_ok_def wt_branch_def)
qed

text \<open>What an invocation's panic can be blamed on.\<close>

definition eval_fault ::
  "externs \<Rightarrow> 's syscall_handler \<Rightarrow> virtual_machine \<Rightarrow> 's \<Rightarrow> bool" where
  "eval_fault E H vm s \<longleftrightarrow>
    (\<exists>fr rest lf args branches st vs l. frames vm = fr # rest \<and>
      nth_opt (statements (vm_program vm)) (frame_pc fr) = Some (Invocation lf args branches) \<and>
      ex_take_vars E (frame_state fr) args = Some (st, vs) \<and>
      get_libfunc (vm_registry vm) lf = Some l \<and>
      list_all2 (has_type (vm_registry vm)) vs (param_signatures (lf_signature l)) \<and>
      (case eval E H (vm_registry vm) (vm_gas vm) (frame_pc fr) (vm_builtin_costs vm) lf vs s of
        None \<Rightarrow> True
      | Some (FunctionCall _ _, _) \<Rightarrow> False
      | Some (NormalBranch i results, _) \<Rightarrow>
          \<not> typed_outcome (vm_registry vm) (lf_signature l) (NormalBranch i results)))"

definition same_setting :: "virtual_machine \<Rightarrow> virtual_machine \<Rightarrow> bool" where
  "same_setting vm vm' \<longleftrightarrow> vm_program vm' = vm_program vm \<and> vm_registry vm' = vm_registry vm \<and>
    vm_gas vm' = vm_gas vm \<and> entry_points vm' = entry_points vm \<and>
    vm_builtin_costs vm' = vm_builtin_costs vm"

lemma step_return_safe:
  assumes ok: "edit_state_ok E"
    and "conf R (frame_state fr) T" "take_tys T ids = Some (fmempty, fn_ret_types f)"
    and "conf_callers E (vm_program vm) R \<Theta> f0 f rest" "vm_registry vm = R"
  shows "\<exists>vm'. step_return E vm fr rest ids = Some vm' \<and> conf_vm E \<Theta> f0 vm' \<and> same_setting vm vm'"
proof (cases rest)
  case Nil
  then show ?thesis by (simp add: step_return_def conf_vm_def conf_frames_def same_setting_def)
next
  case (Cons prev rest')
  obtain vs where vs: "take_vars_spec (frame_state fr) ids = Some (fmempty, vs)"
    "list_all2 (has_type R) vs (fn_ret_types f)"
    using take_conf [OF assms(2,3)] conf_empty_inv by blast
  obtain lf args b T' g where prev: "nth_opt (statements (vm_program vm)) (frame_pc prev) = Some (Invocation lf args [b])"
    "conf R (frame_state prev) T'" "wt_branch E \<Theta> (frame_pc prev) T' b (fn_ret_types f)"
    "fn_at \<Theta> (frame_pc prev) = Some g" "conf_callers E (vm_program vm) R \<Theta> f0 g rest'"
    using assms(4) Cons by auto
  obtain st' T'' where "ex_put_vars E (frame_state prev) (zip (br_results b) vs) = Some st'"
    "env_at \<Theta> (ex_next_idx E (frame_pc prev) (br_target b)) = Some T''" "conf R st' T''"
    "fn_at \<Theta> (ex_next_idx E (frame_pc prev) (br_target b)) = fn_at \<Theta> (frame_pc prev)"
    "length vs = length (br_results b)"
    using branch_conf [OF ok prev(2,3) vs(2)] .
  with vs(1) prev ok Cons assms(5) show ?thesis
    by (simp add: step_return_def edit_state_ok_def conf_vm_def conf_frames_def same_setting_def
        del: nth_opt_Some)
qed

lemma step_invocation_safe:
  assumes ok: "edit_state_ok E" and wt: "wt_program E (vm_program vm) R \<Theta>"
    and fr: "frames vm = fr # rest" "conf R (frame_state fr) T" "fn_at \<Theta> (frame_pc fr) = Some f"
      "conf_callers E (vm_program vm) R \<Theta> f0 f rest" "vm_registry vm = R"
    and st: "nth_opt (statements (vm_program vm)) (frame_pc fr) = Some (Invocation lf args branches)"
    and wti: "wt_invocation E R \<Theta> (frame_pc fr) T lf args branches"
  shows "(case step_invocation E H vm fr rest lf args branches s of
      None \<Rightarrow> eval_fault E H vm s
    | Some (vm', s') \<Rightarrow> conf_vm E \<Theta> f0 vm' \<and> same_setting vm vm')"
proof -
  obtain l T' where l: "get_libfunc R lf = Some l"
    "take_tys T args = Some (T', param_signatures (lf_signature l))"
    "list_all2 (wt_branch E \<Theta> (frame_pc fr) T') branches (branch_signatures (lf_signature l))"
    "\<And>f. callee (lf_selector l) = Some f \<Longrightarrow>
      get_function R (fn_id f) = Some f \<and> branch_signatures (lf_signature l) = [fn_ret_types f]"
    using wti by (auto simp: wt_invocation_def)
  obtain stv vs where vs: "ex_take_vars E (frame_state fr) args = Some (stv, vs)" "conf R stv T'"
    "list_all2 (has_type R) vs (param_signatures (lf_signature l))"
    using take_conf [OF fr(2) l(2)] ok by (auto simp: edit_state_ok_def)
  define ev where "ev = eval E H R (vm_gas vm) (frame_pc fr) (vm_builtin_costs vm) lf vs s"
  have fault: "eval_fault E H vm s"
    if "case ev of None \<Rightarrow> True | Some (FunctionCall _ _, _) \<Rightarrow> False
      | Some (NormalBranch i results, _) \<Rightarrow> \<not> typed_outcome R (lf_signature l) (NormalBranch i results)"
    using that fr st vs l(1) unfolding eval_fault_def ev_def by blast
  note unf = step_invocation_def Let_def fr(5) vs(1) ev_def [symmetric]
  consider (none) "ev = None"
    | (call) fid as s' where "ev = Some (FunctionCall fid as, s')"
    | (branch) i results s' where "ev = Some (NormalBranch i results, s')"
    by (cases ev) (auto, metis eval_action.exhaust)
  then show ?thesis
  proof cases
    case none
    with fault show ?thesis by (simp add: unf)
  next
    case call
    obtain g where g: "fid = fn_id g" "callee (lf_selector l) = Some g"
      "list_all2 (has_type R) as (map snd (fn_params g))"
      using eval_call [OF call [unfolded ev_def]] l(1) by (auto simp: callee_def)
    with l(4) have g': "get_function R fid = Some g" "branch_signatures (lf_signature l) = [fn_ret_types g]"
      by auto
    with l(3) obtain b where b: "branches = [b]" "wt_branch E \<Theta> (frame_pc fr) T' b (fn_ret_types g)"
      by (auto simp: list_all2_Cons2)
    have "env_at \<Theta> (fn_entry_point g) = Some (param_env (fn_params g))" "fn_at \<Theta> (fn_entry_point g) = Some g"
      using wt g'(1) by (auto simp: wt_program_def)
    with call g' b collect_conf [OF g(3)] vs(2) fr st show ?thesis
      by (auto simp: unf conf_vm_def conf_frames_def same_setting_def simp del: nth_opt_Some)
  next
    case branch
    show ?thesis
    proof (cases "typed_outcome R (lf_signature l) (NormalBranch i results)")
      case True
      then obtain tys where tys: "nth_opt (branch_signatures (lf_signature l)) i = Some tys"
        "list_all2 (has_type R) results tys"
        by (auto simp: typed_outcome_def simp del: nth_opt_Some)
      then obtain b where b: "nth_opt branches i = Some b" "wt_branch E \<Theta> (frame_pc fr) T' b tys"
        using l(3) by (auto simp: list_all2_conv_all_nth)
      obtain st' T'' where p: "ex_put_vars E stv (zip (br_results b) results) = Some st'"
        "env_at \<Theta> (ex_next_idx E (frame_pc fr) (br_target b)) = Some T''" "conf R st' T''"
        "fn_at \<Theta> (ex_next_idx E (frame_pc fr) (br_target b)) = fn_at \<Theta> (frame_pc fr)"
        "length results = length (br_results b)"
        using branch_conf [OF ok vs(2) b(2) tys(2)] .
      have "values_are R results tys = Some True"
        using tys(2) values_are_True [OF list_all2_lengthD [OF tys(2)]] by simp
      with branch tys(1) b(1) p l(1) fr show ?thesis
        by (simp add: unf conf_vm_def conf_frames_def same_setting_def del: nth_opt_Some)
    next
      case False
      then have "eval_fault E H vm s" using branch by (intro fault) simp
      moreover have "step_invocation E H vm fr rest lf args branches s = None"
      proof (rule ccontr)
        assume "step_invocation E H vm fr rest lf args branches s \<noteq> None"
        then obtain b tys where b: "nth_opt branches i = Some b" "length results = length (br_results b)"
          "nth_opt (branch_signatures (lf_signature l)) i = Some tys" "values_are R results tys = Some True"
          using branch l(1) by (auto simp: unf bind_Some simp del: nth_opt_Some)
        then have "wt_branch E \<Theta> (frame_pc fr) T' b tys"
          using l(3) by (auto simp: list_all2_conv_all_nth)
        then have "list_all2 (has_type R) results tys"
          using b values_are_True [of results tys R] by (simp add: wt_branch_def)
        with b(3) False show False by (simp add: typed_outcome_def)
      qed
      ultimately show ?thesis by simp
    qed
  qed
qed

lemma step_safe:
  assumes "edit_state_ok E" "wt_program E (vm_program vm) (vm_registry vm) \<Theta>" "conf_vm E \<Theta> f0 vm"
  shows "(case step E H vm s of
      None \<Rightarrow> eval_fault E H vm s
    | Some (r, vm', s') \<Rightarrow> conf_vm E \<Theta> f0 vm' \<and> same_setting vm vm')"
proof (cases "frames vm")
  case Nil
  then show ?thesis using assms(3) by (simp add: step_def same_setting_def)
next
  case (Cons fr rest)
  obtain T f where fr: "env_at \<Theta> (frame_pc fr) = Some T" "fn_at \<Theta> (frame_pc fr) = Some f"
    "conf (vm_registry vm) (frame_state fr) T"
    "conf_callers E (vm_program vm) (vm_registry vm) \<Theta> f0 f rest"
    using assms(3) Cons by (auto simp: conf_vm_def conf_frames_def)
  obtain stmt f' where st: "nth_opt (statements (vm_program vm)) (frame_pc fr) = Some stmt"
    "fn_at \<Theta> (frame_pc fr) = Some f'"
    "\<And>lf args branches. stmt = Invocation lf args branches \<Longrightarrow>
      wt_invocation E (vm_registry vm) \<Theta> (frame_pc fr) T lf args branches"
    "\<And>ids. stmt = Return ids \<Longrightarrow> take_tys T ids = Some (fmempty, fn_ret_types f')"
    by (rule wt_programD [OF assms(2) fr(1)]) (rule that; assumption)
  show ?thesis
  proof (cases stmt)
    case (Invocation lf args branches)
    have "(case step_invocation E H vm fr rest lf args branches s of
        None \<Rightarrow> eval_fault E H vm s
      | Some (vm', s') \<Rightarrow> conf_vm E \<Theta> f0 vm' \<and> same_setting vm vm')"
      using step_invocation_safe [OF assms(1,2) Cons fr(3,2,4) refl _ st(3) [OF Invocation]]
        st(1) Invocation by simp
    moreover have "step E H vm s = map_option (\<lambda>(vm', s'). (Some (frame_pc fr, frame_state fr), vm', s'))
        (step_invocation E H vm fr rest lf args branches s)"
      unfolding step_def Cons list.case st(1) Invocation statement.case Option.bind.bind_lunit
      by (cases "step_invocation E H vm fr rest lf args branches s") simp_all
    ultimately show ?thesis
      by (cases "step_invocation E H vm fr rest lf args branches s") auto
  next
    case (Return ids)
    obtain vm' where "step_return E vm fr rest ids = Some vm'" "conf_vm E \<Theta> f0 vm'" "same_setting vm vm'"
      using step_return_safe [OF assms(1) fr(3) _ fr(4) refl] st(2,4) fr(2) Return by auto
    then show ?thesis using Cons st(1) Return by (simp add: step_def del: nth_opt_Some)
  qed
qed

end
