(* ===== verification/MachineRuns.thy ===== *)
theory MachineRuns
  imports MachineTyping
begin

text \<open>
  Complete executions of the virtual machine: the fuelled loops agree with a step relation,
  the two loops of the code agree with each other, a typed program keeps its typing along a
  whole run and can only panic where an evaluator does, and a call leaves the frames of its
  callers alone until it returns.
\<close>

section \<open>Executions\<close>

inductive exec ::
  "externs \<Rightarrow> 's syscall_handler \<Rightarrow> virtual_machine \<Rightarrow> 's \<Rightarrow> state_dump list \<Rightarrow>
    virtual_machine \<Rightarrow> 's \<Rightarrow> bool"
  for E :: externs and H :: "'s syscall_handler"
where
  exec_end: "step E H vm s = Some (None, vm', s') \<Longrightarrow> exec E H vm s [] vm' s'"
| exec_step: "step E H vm s = Some (Some p, vm', s') \<Longrightarrow> exec E H vm' s' ds vm'' s'' \<Longrightarrow>
    exec E H vm s (dump_of p # ds) vm'' s''"

inductive reachable ::
  "externs \<Rightarrow> 's syscall_handler \<Rightarrow> virtual_machine \<Rightarrow> 's \<Rightarrow> virtual_machine \<Rightarrow> 's \<Rightarrow> bool"
  for E :: externs and H :: "'s syscall_handler"
where
  reach_refl: "reachable E H vm s vm s"
| reach_step: "step E H vm s = Some (Some p, vm', s') \<Longrightarrow> reachable E H vm' s' vm'' s'' \<Longrightarrow>
    reachable E H vm s vm'' s''"

inductive_cases exec_NilE: "exec E H vm s [] vm' s'"
inductive_cases exec_ConsE: "exec E H vm s (d # ds) vm' s'"

lemma bind_map_option: "(r \<bind> (\<lambda>(a, b). Some (c, a, b))) = map_option (\<lambda>(a, b). (c, a, b)) r"
  by (cases r) auto

lemma step_Nil: "frames vm = [] \<Longrightarrow> step E H vm s = Some (None, vm, s)"
  by (simp add: step_def)

lemma step_Cons:
  assumes "frames vm = fr # rest"
  shows "step E H vm s = map_option (\<lambda>(vm', s'). (Some (frame_pc fr, frame_state fr), vm', s'))
    (nth_opt (statements (vm_program vm)) (frame_pc fr) \<bind>
      (\<lambda>stmt. case stmt of
        Invocation lf args branches \<Rightarrow> step_invocation E H vm fr rest lf args branches s
      | Return ids \<Rightarrow> map_option (\<lambda>vm'. (vm', s)) (step_return E vm fr rest ids)))"
proof -
  have "(do { vm' \<leftarrow> step_return E vm fr rest ids; Some (vm', s) }) =
      map_option (\<lambda>vm'. (vm', s)) (step_return E vm fr rest ids)" for ids
    by (cases "step_return E vm fr rest ids") simp_all
  then show ?thesis
    unfolding step_def assms list.case
    by (cases "nth_opt (statements (vm_program vm)) (frame_pc fr)") (simp_all only: bind_map_option Option.bind.simps option.map)
qed

lemma step_CasesE:
  assumes "frames vm = fr # rest"
  obtains (panic) "step E H vm s = None"
  | (step) vm' s' where "step E H vm s = Some (Some (frame_pc fr, frame_state fr), vm', s')"
  unfolding step_Cons [OF assms] by (smt (verit) map_option_eq_Some option.exhaust split_beta)

lemma step_end_iff: "step E H vm s = Some (None, vm', s') \<longleftrightarrow> frames vm = [] \<and> vm' = vm \<and> s' = s"
proof (cases "frames vm")
  case (Cons fr rest)
  then show ?thesis by (rule step_CasesE [of _ _ _ E H s]) (simp_all add: Cons)
qed (auto simp: step_Nil)

lemma step_outcomeE:
  obtains (panic) "step E H vm s = None" | (stop) vm1 s1 where "step E H vm s = Some (None, vm1, s1)"
    | (go) p vm1 s1 where "step E H vm s = Some (Some p, vm1, s1)"
proof (cases "step E H vm s")
  case (Some x)
  obtain r vm1 s1 where "x = (r, vm1, s1)" by (cases x)
  with Some that show ?thesis by (cases r) auto
qed (rule that)

lemma step_frames:
  assumes "step E H vm s = Some (Some p, vm', s')"
  obtains fr rest where "frames vm = fr # rest" "p = (frame_pc fr, frame_state fr)"
proof (cases "frames vm")
  case Nil
  with assms show ?thesis by (simp add: step_Nil)
next
  case (Cons fr rest)
  then show ?thesis by (rule step_CasesE [of _ _ _ E H s]) (use assms that Cons in simp_all)
qed

text \<open>The loops: an execution is what they compute, and its length bounds the fuel they need.\<close>

lemma run_with_trace_loop_exec:
  "run_with_trace_loop n E H tr vm s = Done (tr', vm', s') \<longleftrightarrow>
    (\<exists>ds. exec E H vm s ds vm' s' \<and> length ds < n \<and> tr' = tr\<lparr>states := states tr @ ds\<rparr>)"
proof (induction n arbitrary: tr vm s)
  case (Suc n)
  show ?case
  proof (cases rule: step_outcomeE [of E H vm s])
    case panic
    then show ?thesis by (auto elim: exec.cases)
  next
    case (stop vm1 s1)
    have "exec E H vm s ds vm' s' \<longleftrightarrow> ds = [] \<and> vm' = vm1 \<and> s' = s1" for ds
      using stop by (auto intro: exec_end elim: exec.cases)
    with stop show ?thesis by auto
  next
    case (go p vm1 s1)
    have ex: "exec E H vm s ds vm' s' \<longleftrightarrow> (\<exists>es. ds = dump_of p # es \<and> exec E H vm1 s1 es vm' s')" for ds
      using go by (auto intro: exec_step elim: exec.cases)
    show ?thesis using go by (auto simp: ex Suc.IH trace_push_def)
  qed
qed simp

lemma run_with_trace_loop_panics:
  "run_with_trace_loop n E H tr vm s = Panicked \<Longrightarrow>
    \<exists>vm' s'. reachable E H vm s vm' s' \<and> step E H vm' s' = None"
proof (induction n arbitrary: tr vm s)
  case (Suc n)
  then show ?case
    by (auto split: option.splits) (blast intro: reach_refl reach_step)+
qed simp


lemma exec_deterministic:
  "exec E H vm s ds vm' s' \<Longrightarrow> exec E H vm s ds2 vm2 s2 \<Longrightarrow> ds2 = ds \<and> vm2 = vm' \<and> s2 = s'"
proof (induction arbitrary: ds2 vm2 s2 rule: exec.induct)
  case (exec_end vm s vm' s')
  then show ?case by (auto elim: exec.cases)
next
  case (exec_step vm s p vm' s' ds vm'' s'')
  from exec_step.prems exec_step.hyps(1) exec_step.IH show ?case by (auto elim: exec.cases)
qed

lemma exec_end_frames: "exec E H vm s ds vm' s' \<Longrightarrow> frames vm' = []"
  by (induction rule: exec.induct) (auto simp: step_end_iff)

section \<open>The two loops\<close>

definition last_opt :: "'a list \<Rightarrow> 'a option" where
  "last_opt xs = (case rev xs of [] \<Rightarrow> None | x # _ \<Rightarrow> Some x)"

lemma last_opt_simps [simp]: "last_opt [] = None" "last_opt (xs @ [x]) = Some x"
  by (simp_all add: last_opt_def)

lemma run_loop_trace:
  "run_loop n E H (last_opt (states tr)) vm s =
    map_outcome (\<lambda>(tr, vm', s'). (last_opt (states tr), vm', s')) (run_with_trace_loop n E H tr vm s)"
proof (induction n arbitrary: tr vm s)
  case (Suc n)
  have push: "last_opt (states (trace_push tr d)) = Some d" for d
    by (simp add: trace_push_def)
  show ?case
    by (simp split: option.splits prod.splits)
      (use Suc.IH [of "trace_push tr (dump_of p)" for p] push in force)
qed simp

section \<open>Typed runs\<close>

lemma reachable_typed:
  "reachable E H vm s vm' s' \<Longrightarrow> edit_state_ok E \<Longrightarrow>
    wt_program E (vm_program vm) (vm_registry vm) \<Theta> \<Longrightarrow> conf_vm E \<Theta> f0 vm \<Longrightarrow>
    conf_vm E \<Theta> f0 vm' \<and> same_setting vm vm'"
proof (induction rule: reachable.induct)
  case (reach_refl vm s)
  then show ?case by (simp add: same_setting_def)
next
  case (reach_step vm s p vm' s' vm'' s'')
  from step_safe [OF reach_step.prems, of H s] reach_step.hyps(1)
  have "conf_vm E \<Theta> f0 vm'" "same_setting vm vm'" by auto
  with reach_step show ?case by (auto simp: same_setting_def)
qed

lemma exec_typed:
  "exec E H vm s ds vm' s' \<Longrightarrow> edit_state_ok E \<Longrightarrow>
    wt_program E (vm_program vm) (vm_registry vm) \<Theta> \<Longrightarrow> conf_vm E \<Theta> f0 vm \<Longrightarrow>
    \<forall>d \<in> set ds. \<exists>T. env_at \<Theta> (statement_idx d) = Some T \<and> conf (vm_registry vm) (items d) T"
proof (induction rule: exec.induct)
  case (exec_step vm s p vm' s' ds vm'' s'')
  from step_safe [OF exec_step.prems, of H s] exec_step.hyps(1)
  have next_ok: "conf_vm E \<Theta> f0 vm'" "same_setting vm vm'" by auto
  obtain fr rest where fr: "frames vm = fr # rest" "p = (frame_pc fr, frame_state fr)"
    using exec_step.hyps(1) by (rule step_frames)
  have "\<exists>T. env_at \<Theta> (statement_idx (dump_of p)) = Some T \<and> conf (vm_registry vm) (items (dump_of p)) T"
    using exec_step.prems(3) fr by (auto simp: conf_vm_def conf_frames_def dump_of_def)
  with exec_step.IH exec_step.prems next_ok show ?case by (auto simp: same_setting_def)
qed simp

text \<open>An invocation that goes through: what it has read, evaluated, checked and stored.\<close>

lemma step_invocationE:
  assumes "step_invocation E H vm fr rest lf args branches s = Some (vm', s')"
  obtains (branch) st vs i results b l tys st' where
      "ex_take_vars E (frame_state fr) args = Some (st, vs)"
      "eval E H (vm_registry vm) (vm_gas vm) (frame_pc fr) (vm_builtin_costs vm) lf vs s =
        Some (NormalBranch i results, s')"
      "nth_opt branches i = Some b" "length results = length (br_results b)"
      "get_libfunc (vm_registry vm) lf = Some l"
      "nth_opt (branch_signatures (lf_signature l)) i = Some tys"
      "values_are (vm_registry vm) results tys = Some True"
      "ex_put_vars E st (zip (br_results b) results) = Some st'"
      "vm' = vm\<lparr>frames := fr\<lparr>frame_pc := ex_next_idx E (frame_pc fr) (br_target b),
        frame_state := st'\<rparr> # rest\<rparr>"
    | (call) st vs fid as f where
      "ex_take_vars E (frame_state fr) args = Some (st, vs)"
      "eval E H (vm_registry vm) (vm_gas vm) (frame_pc fr) (vm_builtin_costs vm) lf vs s =
        Some (FunctionCall fid as, s')"
      "get_function (vm_registry vm) fid = Some f"
      "vm' = vm\<lparr>frames := \<lparr>frame_function_id = fid,
        frame_state = collect_state (zip (map fst (fn_params f)) as),
        frame_pc = fn_entry_point f\<rparr> # fr\<lparr>frame_state := st\<rparr> # rest\<rparr>"
proof -
  obtain st vs where tv: "ex_take_vars E (frame_state fr) args = Some (st, vs)"
    using assms by (cases "ex_take_vars E (frame_state fr) args") (auto simp: step_invocation_def)
  obtain action s1 where ev: "eval E H (vm_registry vm) (vm_gas vm) (frame_pc fr) (vm_builtin_costs vm) lf vs s =
      Some (action, s1)"
    using assms tv
    by (cases "eval E H (vm_registry vm) (vm_gas vm) (frame_pc fr) (vm_builtin_costs vm) lf vs s")
      (auto simp: step_invocation_def)
  note si = assms [unfolded step_invocation_def Let_def tv ev Option.bind.bind_lunit prod.case]
  show thesis
  proof (cases action)
    case (NormalBranch i results)
    note si = si [unfolded NormalBranch eval_action.case]
    obtain b l tys st' where
      "nth_opt branches i = Some b" "length results = length (br_results b)"
      "get_libfunc (vm_registry vm) lf = Some l"
      "nth_opt (branch_signatures (lf_signature l)) i = Some tys"
      "values_are (vm_registry vm) results tys = Some True"
      "ex_put_vars E st (zip (br_results b) results) = Some st'"
      "s1 = s'"
      "vm' = vm\<lparr>frames := fr\<lparr>frame_pc := ex_next_idx E (frame_pc fr) (br_target b),
        frame_state := st'\<rparr> # rest\<rparr>"
      using si by (auto simp: bind_Some simp del: nth_opt_Some)
    with tv ev NormalBranch show thesis by (auto intro: branch)
  next
    case (FunctionCall fid as)
    note si = si [unfolded FunctionCall eval_action.case]
    obtain f where "get_function (vm_registry vm) fid = Some f" "s1 = s'"
      "vm' = vm\<lparr>frames := \<lparr>frame_function_id = fid,
        frame_state = collect_state (zip (map fst (fn_params f)) as),
        frame_pc = fn_entry_point f\<rparr> # fr\<lparr>frame_state := st\<rparr> # rest\<rparr>"
      using si by (auto simp: bind_Some simp del: nth_opt_Some)
    with tv ev FunctionCall show thesis by (auto intro: call)
  qed
qed

lemma step_invocation_frames:
  "step_invocation E H vm fr rest lf args branches s = Some (vm', s') \<Longrightarrow>
    \<exists>fr'. frames vm' = fr' # rest \<or> (\<exists>g. frames vm' = g # fr' # rest)"
  by (erule step_invocationE) simp_all

text \<open>The last step of an execution is the return of the outermost frame.\<close>

lemma final_step:
  assumes "edit_state_ok E" "wt_program E (vm_program vm) (vm_registry vm) \<Theta>" "conf_vm E \<Theta> f0 vm"
    and "step E H vm s = Some (Some p, vm', s')" "frames vm' = []"
  shows "\<exists>ids vs. nth_opt (statements (vm_program vm)) (fst p) = Some (Return ids) \<and>
    take_vars_spec (snd p) ids = Some (fmempty, vs) \<and> list_all2 (has_type (vm_registry vm)) vs (fn_ret_types f0)"
proof -
  obtain fr rest where fr: "frames vm = fr # rest" "p = (frame_pc fr, frame_state fr)"
    using assms(4) by (rule step_frames)
  obtain T f where T: "env_at \<Theta> (frame_pc fr) = Some T" "fn_at \<Theta> (frame_pc fr) = Some f"
    "conf (vm_registry vm) (frame_state fr) T"
    "conf_callers E (vm_program vm) (vm_registry vm) \<Theta> f0 f rest"
    using assms(3) fr(1) by (auto simp: conf_vm_def conf_frames_def)
  obtain stmt f' where st: "nth_opt (statements (vm_program vm)) (frame_pc fr) = Some stmt"
    "fn_at \<Theta> (frame_pc fr) = Some f'"
    "\<And>ids. stmt = Return ids \<Longrightarrow> take_tys T ids = Some (fmempty, fn_ret_types f')"
    by (rule wt_programD [OF assms(2) T(1)]) (rule that; assumption)
  obtain ids where ids: "stmt = Return ids" "rest = []"
  proof (cases stmt)
    case (Invocation lf args branches)
    with assms(4,5) fr st(1) show ?thesis
      by (auto simp: step_Cons [OF fr(1)] simp del: nth_opt_Some dest!: step_invocation_frames)
  next
    case (Return ids)
    with assms(4,5) fr st(1) that show ?thesis
      by (cases rest) (auto simp: step_Cons [OF fr(1)] step_return_def bind_Some simp del: nth_opt_Some)
  qed
  have "f' = f0" using T(2,4) st(2) ids(2) by simp
  with take_conf [OF T(3) st(3) [OF ids(1)]] conf_empty_inv st(1) ids(1) fr(2) show ?thesis by auto
qed

lemma exec_last_typed:
  "exec E H vm s ds vm' s' \<Longrightarrow> edit_state_ok E \<Longrightarrow>
    wt_program E (vm_program vm) (vm_registry vm) \<Theta> \<Longrightarrow> conf_vm E \<Theta> f0 vm \<Longrightarrow> frames vm \<noteq> [] \<Longrightarrow>
    \<exists>ids vs. ds \<noteq> [] \<and> nth_opt (statements (vm_program vm)) (statement_idx (last ds)) = Some (Return ids) \<and>
      take_vars_spec (items (last ds)) ids = Some (fmempty, vs) \<and>
      list_all2 (has_type (vm_registry vm)) vs (fn_ret_types f0)"
proof (induction rule: exec.induct)
  case (exec_end vm s vm' s')
  then show ?case by (simp add: step_end_iff)
next
  case (exec_step vm s p vm' s' ds vm'' s'')
  from step_safe [OF exec_step.prems(1-3), of H s] exec_step.hyps(1)
  have next_ok: "conf_vm E \<Theta> f0 vm'" "same_setting vm vm'" by auto
  show ?case
  proof (cases "frames vm' = []")
    case True
    then have "ds = []" using exec_step.hyps(2) by (auto simp: step_Nil elim: exec.cases)
    with final_step [OF exec_step.prems(1-3) exec_step.hyps(1) True] show ?thesis
      by (simp add: dump_of_def)
  next
    case False
    with exec_step.IH exec_step.prems next_ok show ?thesis by (auto simp: same_setting_def)
  qed
qed

section \<open>Entering a program\<close>

lemma push_frame_conf:
  assumes "wt_program E (vm_program vm) (vm_registry vm) \<Theta>" "frames vm = []"
    and "push_frame fid args vm = Some vm'" "get_function (vm_registry vm) fid = Some f"
  shows "conf_vm E \<Theta> f vm'" "same_setting vm vm'" "frames vm' \<noteq> []"
proof -
  have a: "length args = length (map snd (fn_params f))"
    "values_are (vm_registry vm) args (map snd (fn_params f)) = Some True"
    and vm': "vm' = vm\<lparr>frames := [\<lparr>frame_function_id = fid,
      frame_state = collect_state (zip (map fst (fn_params f)) args), frame_pc = fn_entry_point f\<rparr>]\<rparr>"
    using assms(2-4) by (auto simp: push_frame_def bind_Some)
  have "env_at \<Theta> (fn_entry_point f) = Some (param_env (fn_params f))" "fn_at \<Theta> (fn_entry_point f) = Some f"
    using assms(1,4) by (auto simp: wt_program_def)
  moreover have "list_all2 (has_type (vm_registry vm)) args (map snd (fn_params f))"
    using a values_are_True by blast
  ultimately show "conf_vm E \<Theta> f vm'" "same_setting vm vm'" "frames vm' \<noteq> []"
    using collect_conf by (auto simp: vm' conf_vm_def conf_frames_def same_setting_def)
qed

lemma call_program_push:
  "call_program E f gas args vm = Some vm' \<Longrightarrow> \<exists>vs. push_frame (fn_id f) vs vm = Some vm'"
  by (auto simp: call_program_def bind_Some)

end
