(* ===== verification/RunSafety.thy ===== *)
theory RunSafety
  imports MachineRuns StubHandler
begin

text \<open>
  The safety of whole runs, stated over the machine's entry points and loops, and a small
  program (a function that doubles its argument by calling one that adds two) at which the
  statements are evaluated.
\<close>

section \<open>A program with a call\<close>

definition double_fn :: sierra_function where
  "double_fn = \<lparr>fn_id = 0, fn_params = [(0, 0)], fn_ret_types = [0], fn_entry_point = 0\<rparr>"

definition sum_fn :: sierra_function where
  "sum_fn = \<lparr>fn_id = 1, fn_params = [(0, 0), (1, 0)], fn_ret_types = [0], fn_entry_point = 3\<rparr>"

definition to_next :: "var_id list \<Rightarrow> branch_info list" where
  "to_next xs = [\<lparr>br_target = Fallthrough, br_results = xs\<rparr>]"

definition call_statements :: "statement list" where
  "call_statements =
    [Invocation 10 [0] (to_next [1, 2]), Invocation 11 [1, 2] (to_next [3]), Return [3],
     Invocation 12 [0, 1] (to_next [2]), Return [2]]"

definition call_program_text :: program where
  "call_program_text = \<lparr>statements = call_statements, funcs = [double_fn, sum_fn]\<rparr>"

definition call_libfunc :: "libfunc_id \<Rightarrow> concrete_libfunc option" where
  "call_libfunc i =
    (if i = 10 then Some \<lparr>lf_signature = sg_of [0] [[0, 0]], lf_selector = DupL\<rparr>
     else if i = 11 then Some \<lparr>lf_signature = sg_of [0, 0] [[0]], lf_selector = FunctionCallL sum_fn\<rparr>
     else if i = 12 then Some \<lparr>lf_signature = sg_of [0, 0] [[0]],
       lf_selector = Felt252L (FeltBinaryWithVar FeltAdd)\<rparr>
     else None)"

definition call_registry :: registry where
  "call_registry =
    \<lparr>get_type = nth_opt sample_types, get_libfunc = call_libfunc,
     get_function = (\<lambda>i. if i = 0 then Some double_fn else if i = 1 then Some sum_fn else None),
     rec_limit = Suc (Suc (Suc (Suc (Suc (Suc 0)))))\<rparr>"

definition call_vm :: virtual_machine where
  "call_vm =
    \<lparr>vm_program = call_program_text, vm_registry = call_registry, frames = [],
     vm_gas = \<lparr>variable_values = (\<lambda>_. None), function_costs = [(0, [(ConstTok, 100)])]\<rparr>, entry_points = None,
     vm_builtin_costs = builtin_costs_default ref_externs\<rparr>"

definition call_env :: "(statement_idx \<times> var_id list \<times> sierra_function) list" where
  "call_env = [(0, [0], double_fn), (1, [1, 2], double_fn), (2, [3], double_fn),
    (3, [0, 1], sum_fn), (4, [2], sum_fn)]"

definition call_typing :: program_typing where
  "call_typing =
    \<lparr>env_at = (\<lambda>pc. map_option (\<lambda>(xs, f). param_env (map (\<lambda>x. (x, 0)) xs)) (map_of call_env pc)),
     fn_at = (\<lambda>pc. map_option snd (map_of call_env pc))\<rparr>"

lemmas call_defs = call_vm_def call_program_text_def call_registry_def call_typing_def
  call_env_def call_statements_def call_libfunc_def double_fn_def sum_fn_def to_next_def

lemma call_types: "get_type call_registry = get_type sample_registry" "rec_limit call_registry = rec_limit sample_registry"
  by (simp_all add: call_registry_def sample_registry_def)

lemma call_wt: "wt_program ref_externs (vm_program call_vm) (vm_registry call_vm) call_typing"
proof -
  have upd: "fmupd (a::nat) (0::nat) (fmupd b 0 T) = fmupd b 0 (fmupd a 0 T)" for a b T
    by (rule fmap_ext) auto
  have "wt_stmt ref_externs call_program_text call_registry call_typing pc"
    if "env_at call_typing pc \<noteq> None" for pc
  proof -
    have "pc \<in> {0, 1, 2, 3, 4}"
      using that by (auto simp: call_typing_def call_env_def split: if_splits)
    then show ?thesis
      by (auto simp: wt_stmt_def wt_invocation_def wt_branch_def call_defs sg_of_def param_env_def
          callee_def nth_opt_def upd fmdrop_fmupd)
  qed
  then show ?thesis
    by (auto simp: wt_program_def call_vm_def call_registry_def param_env_def split: if_splits)
      (simp_all add: call_typing_def call_env_def double_fn_def sum_fn_def param_env_def)
qed

definition call_started :: virtual_machine where
  "call_started = call_vm\<lparr>frames := [\<lparr>frame_function_id = 0,
    frame_state = fmap_of_list [(0, Felt 21)], frame_pc = 0\<rparr>]\<rparr>"

lemma call_gas: "initial_required_gas ref_externs (vm_gas call_vm) 0 = Some (Some 100)"
  by (simp add: initial_required_gas_def call_vm_def usize_checked_def)

lemma call_push: "push_frame 0 [Felt 21] call_vm = Some call_started"
  by (simp add: push_frame_def call_vm_def call_started_def double_fn_def collect_state_def
        values_are_def value_is_def call_types fmap_of_list_simps) (simp add: call_registry_def double_fn_def
        values_are_def value_is_def call_types fmap_of_list_simps collect_state_def)

lemma call_start: "call_program ref_externs double_fn 150 [Felt 21] call_vm = Some call_started"
proof -
  have fields: "fn_id double_fn = 0" "map snd (fn_params double_fn) = [0]" "vm_registry call_vm = call_registry"
    by (simp_all add: double_fn_def call_vm_def)
  have "checked_sub (150 :: u64) 100 = Some 50" by (simp add: checked_sub_def)
  moreover have "program_args call_registry 50 [0] [Felt 21] = Some [Felt 21]"
    by (simp add: call_types)
  ultimately show ?thesis
    unfolding call_program_def fields using call_gas call_push
    by (simp del: program_args.simps)
qed

text \<open>Its execution: five steps, of which the third and the fourth run the inner function.\<close>

definition vars_at :: "(var_id \<times> felt) list \<Rightarrow> vstate" where
  "vars_at xs = fmap_of_list (map (\<lambda>(x, i). (x, Felt i)) xs)"

definition outer_frame :: "statement_idx \<Rightarrow> (var_id \<times> felt) list \<Rightarrow> sierra_frame" where
  "outer_frame pc xs = \<lparr>frame_function_id = 0, frame_state = vars_at xs, frame_pc = pc\<rparr>"

definition inner_frame :: "statement_idx \<Rightarrow> (var_id \<times> felt) list \<Rightarrow> sierra_frame" where
  "inner_frame pc xs = \<lparr>frame_function_id = 1, frame_state = vars_at xs, frame_pc = pc\<rparr>"

lemma call_started_frames: "call_started = call_vm\<lparr>frames := [outer_frame 0 [(0, 21)]]\<rparr>"
  by (simp add: call_started_def outer_frame_def vars_at_def)

lemma call_steps:
  fixes H :: "'s syscall_handler"
    and s :: 's
  defines "st vm \<equiv> step ref_externs H vm s"
  shows "st (call_vm\<lparr>frames := [outer_frame 0 [(0, 21)]]\<rparr>) =
      Some (Some (0, vars_at [(0, 21)]), call_vm\<lparr>frames := [outer_frame 1 [(1, 21), (2, 21)]]\<rparr>, s)"
    and "st (call_vm\<lparr>frames := [outer_frame 1 [(1, 21), (2, 21)]]\<rparr>) =
      Some (Some (1, vars_at [(1, 21), (2, 21)]),
        call_vm\<lparr>frames := [inner_frame 3 [(0, 21), (1, 21)], outer_frame 1 []]\<rparr>, s)"
    and "st (call_vm\<lparr>frames := [inner_frame 3 [(0, 21), (1, 21)], outer_frame 1 []]\<rparr>) =
      Some (Some (3, vars_at [(0, 21), (1, 21)]),
        call_vm\<lparr>frames := [inner_frame 4 [(2, 42)], outer_frame 1 []]\<rparr>, s)"
    and "st (call_vm\<lparr>frames := [inner_frame 4 [(2, 42)], outer_frame 1 []]\<rparr>) =
      Some (Some (4, vars_at [(2, 42)]), call_vm\<lparr>frames := [outer_frame 2 [(3, 42)]]\<rparr>, s)"
    and "st (call_vm\<lparr>frames := [outer_frame 2 [(3, 42)]]\<rparr>) =
      Some (Some (2, vars_at [(3, 42)]), call_vm\<lparr>frames := []\<rparr>, s)"
proof -
  have ty: "value_is call_registry (Felt x) 0 = Some True" for x
    by (simp add: value_is_def call_types)
  have swap: "fmupd 2 v (fmupd (Suc 0) w m) = fmupd (Suc 0) w (fmupd 2 v m)"
    "fmupd (Suc 0) v (fmupd 0 w m) = fmupd 0 w (fmupd (Suc 0) v m)" for v w and m :: vstate
    by (simp_all add: fmupd_reorder_neq)
  note mach = st_def step_def step_invocation_def step_return_def nth_opt_def
  note prog = call_vm_def call_program_text_def call_statements_def to_next_def outer_frame_def
    inner_frame_def vars_at_def fmap_of_list_simps fmdrop_fmupd
  have reg: "get_libfunc call_registry = call_libfunc"
    "get_function call_registry 1 = Some sum_fn" "get_function call_registry (Suc 0) = Some sum_fn"
    by (simp_all add: call_registry_def)
  note ev = reg call_libfunc_def sg_of_def eval_def keep_state_def eval_dup_def args_defs
    eval_function_call_def eval_felt252_def eval_felt_operation_def sum_fn_def values_are_def collect_state_def ty
  show "st (call_vm\<lparr>frames := [outer_frame 0 [(0, 21)]]\<rparr>) =
      Some (Some (0, vars_at [(0, 21)]), call_vm\<lparr>frames := [outer_frame 1 [(1, 21), (2, 21)]]\<rparr>, s)"
    "st (call_vm\<lparr>frames := [outer_frame 1 [(1, 21), (2, 21)]]\<rparr>) =
      Some (Some (1, vars_at [(1, 21), (2, 21)]),
        call_vm\<lparr>frames := [inner_frame 3 [(0, 21), (1, 21)], outer_frame 1 []]\<rparr>, s)"
   "st (call_vm\<lparr>frames := [inner_frame 3 [(0, 21), (1, 21)], outer_frame 1 []]\<rparr>) =
      Some (Some (3, vars_at [(0, 21), (1, 21)]),
        call_vm\<lparr>frames := [inner_frame 4 [(2, 42)], outer_frame 1 []]\<rparr>, s)"
   "st (call_vm\<lparr>frames := [inner_frame 4 [(2, 42)], outer_frame 1 []]\<rparr>) =
      Some (Some (4, vars_at [(2, 42)]), call_vm\<lparr>frames := [outer_frame 2 [(3, 42)]]\<rparr>, s)"
   "st (call_vm\<lparr>frames := [outer_frame 2 [(3, 42)]]\<rparr>) =
      Some (Some (2, vars_at [(3, 42)]), call_vm\<lparr>frames := []\<rparr>, s)"
    by (simp_all add: mach prog ev swap)
qed

section \<open>Type safety\<close>

text \<open>
  C2: In a well-typed program every step from a state that conforms to the typing either ends
  in a state that conforms again, with the program, the registry, the gas metadata and the
  builtin costs unchanged, or panics in an evaluator that had got arguments of the types its
  signature declares, or on an outcome that is not the one its signature declares: taking and
  storing variables, looking up statements, returning and calling never panic.
\<close>
theorem step_type_safe:
  assumes "edit_state_ok E" "wt_program E (vm_program vm) (vm_registry vm) \<Theta>" "conf_vm E \<Theta> f0 vm"
  shows "(case step E H vm s of
      None \<Rightarrow> eval_fault E H vm s
    | Some (r, vm', s') \<Rightarrow> conf_vm E \<Theta> f0 vm' \<and> same_setting vm vm')"
  using assms by (rule step_safe)

lemma call_conf:
  "conf_vm ref_externs call_typing double_fn call_started"
  "vm_program call_started = vm_program call_vm" "vm_registry call_started = vm_registry call_vm"
proof -
  show "conf_vm ref_externs call_typing double_fn call_started"
    by (rule push_frame_conf(1) [OF call_wt _ call_push]) (simp_all add: call_vm_def call_registry_def)
qed (simp_all add: call_started_def)

theorem step_type_safe_witness:
  "case step ref_externs (stub_handler toy_primitives) call_started stub_default of
      None \<Rightarrow> eval_fault ref_externs (stub_handler toy_primitives) call_started stub_default
    | Some (r, vm', s') \<Rightarrow> conf_vm ref_externs call_typing double_fn vm' \<and> same_setting call_started vm'"
  by (rule step_type_safe) (use call_wt call_conf ref_edit_state_ok in simp_all)

text \<open>
  C1: A run of a well-typed program from \<open>call_program\<close>, whatever the fuel: when it ends, no
  frame is left, every state of the trace holds exactly the variables the typing gives its
  statement, with values of their types, and the last one is at a return whose variables are
  all there is and have the function's return types; when it panics, it does so at a reachable
  state where an evaluator is at fault.
\<close>
theorem run_type_safe:
  assumes "edit_state_ok E" "wt_program E (vm_program vm) (vm_registry vm) \<Theta>" "frames vm = []"
    and "get_function (vm_registry vm) (fn_id f) = Some f" "call_program E f gas args vm = Some vm0"
  shows "(case run_with_trace n E H vm0 s of
      Done (tr, vm', s') \<Rightarrow>
        frames vm' = [] \<and>
        (\<forall>d \<in> set (states tr). \<exists>T. env_at \<Theta> (statement_idx d) = Some T \<and>
          conf (vm_registry vm) (items d) T) \<and>
        (\<exists>ids vs. states tr \<noteq> [] \<and>
          nth_opt (statements (vm_program vm)) (statement_idx (last (states tr))) = Some (Return ids) \<and>
          take_vars_spec (items (last (states tr))) ids = Some (fmempty, vs) \<and>
          list_all2 (has_type (vm_registry vm)) vs (fn_ret_types f))
    | Panicked \<Rightarrow> \<exists>vm1 s1. reachable E H vm0 s vm1 s1 \<and> eval_fault E H vm1 s1
    | OutOfFuel \<Rightarrow> True)"
proof -
  obtain vs where push: "push_frame (fn_id f) vs vm = Some vm0"
    using call_program_push [OF assms(5)] by auto
  note start = push_frame_conf [OF assms(2,3) push assms(4)]
  have wt: "wt_program E (vm_program vm0) (vm_registry vm0) \<Theta>" "vm_registry vm0 = vm_registry vm"
    "vm_program vm0 = vm_program vm"
    using assms(2) start(2) by (simp_all add: same_setting_def)
  show ?thesis
  proof (cases "run_with_trace n E H vm0 s")
    case (Done r)
    obtain tr vm' s' where r: "r = (tr, vm', s')" by (cases r)
    with Done obtain ds where ds: "exec E H vm0 s ds vm' s'" "states tr = ds"
      by (auto simp: run_with_trace_def run_with_trace_loop_exec)
    show ?thesis
      using exec_end_frames [OF ds(1)] exec_typed [OF ds(1) assms(1) wt(1) start(1)]
        exec_last_typed [OF ds(1) assms(1) wt(1) start(1,3)]
      by (simp add: Done r ds(2) wt(2,3))
  next
    case Panicked
    then obtain vm1 s1 where at: "reachable E H vm0 s vm1 s1" "step E H vm1 s1 = None"
      unfolding run_with_trace_def by (blast dest: run_with_trace_loop_panics)
    have "conf_vm E \<Theta> f vm1" "same_setting vm0 vm1"
      using reachable_typed [OF at(1) assms(1) wt(1) start(1)] by simp_all
    then have "eval_fault E H vm1 s1"
      using step_safe [of E vm1 \<Theta> f H s1] assms(1) wt(1) at(2) by (simp add: same_setting_def)
    with at(1) Panicked show ?thesis by auto
  qed simp
qed

theorem run_type_safe_witness:
  "case run_with_trace 6 ref_externs (stub_handler toy_primitives) call_started stub_default of
      Done (tr, vm', s') \<Rightarrow>
        frames vm' = [] \<and>
        (\<forall>d \<in> set (states tr). \<exists>T. env_at call_typing (statement_idx d) = Some T \<and>
          conf (vm_registry call_vm) (items d) T) \<and>
        (\<exists>ids vs. states tr \<noteq> [] \<and>
          nth_opt (statements (vm_program call_vm)) (statement_idx (last (states tr))) = Some (Return ids) \<and>
          take_vars_spec (items (last (states tr))) ids = Some (fmempty, vs) \<and>
          list_all2 (has_type (vm_registry call_vm)) vs (fn_ret_types double_fn))
    | Panicked \<Rightarrow> \<exists>vm1 s1.
        reachable ref_externs (stub_handler toy_primitives) call_started stub_default vm1 s1 \<and>
        eval_fault ref_externs (stub_handler toy_primitives) vm1 s1
    | OutOfFuel \<Rightarrow> True"
  by (rule run_type_safe [OF ref_edit_state_ok call_wt _ _ call_start])
    (simp_all add: call_vm_def call_registry_def double_fn_def)

section \<open>Calls\<close>

text \<open>
  A return into \<open>caller\<close>: the frame above it is at a return, its variables are exactly the
  returned ones, and the caller moves past its call with what it held and the results.
\<close>

definition returns_into ::
  "externs \<Rightarrow> sierra_frame \<Rightarrow> sierra_frame list \<Rightarrow> virtual_machine \<Rightarrow> virtual_machine \<Rightarrow> bool" where
  "returns_into E caller rest vm vm' \<longleftrightarrow>
    (\<exists>fr ids vs lf args b.
      frames vm = fr # caller # rest \<and>
      nth_opt (statements (vm_program vm)) (frame_pc fr) = Some (Return ids) \<and>
      take_vars_spec (frame_state fr) ids = Some (fmempty, vs) \<and>
      nth_opt (statements (vm_program vm)) (frame_pc caller) = Some (Invocation lf args [b]) \<and>
      length vs = length (br_results b) \<and>
      set (br_results b) \<inter> fset (fmdom (frame_state caller)) = {} \<and>
      vm' = vm\<lparr>frames := caller\<lparr>frame_pc := ex_next_idx E (frame_pc caller) (br_target b),
        frame_state := frame_state caller ++\<^sub>f fmap_of_list (zip (br_results b) vs)\<rparr> # rest\<rparr>)"

lemma step_return_into:
  assumes "edit_state_ok E" "step_return E vm fr (caller # rest) ids = Some vm'"
    and "frames vm = fr # caller # rest"
    and "nth_opt (statements (vm_program vm)) (frame_pc fr) = Some (Return ids)"
  shows "returns_into E caller rest vm vm'"
proof -
  obtain vs stmt b st' where r: "take_vars_spec (frame_state fr) ids = Some (fmempty, vs)"
    "nth_opt (statements (vm_program vm)) (frame_pc caller) = Some stmt"
    "(case stmt of Invocation _ _ branches \<Rightarrow> args1 branches | Return _ \<Rightarrow> None) = Some b"
    "length (br_results b) = length vs"
    "put_vars_spec (frame_state caller) (zip (br_results b) vs) = Some st'"
    "vm' = vm\<lparr>frames := caller\<lparr>frame_pc := ex_next_idx E (frame_pc caller) (br_target b),
      frame_state := st'\<rparr> # rest\<rparr>"
    using assms(1,2) by (auto simp: step_return_def edit_state_ok_def bind_Some simp del: nth_opt_Some)
  obtain lf args branches where st: "stmt = Invocation lf args branches" "branches = [b]"
    using r(3) by (cases stmt) auto
  show ?thesis
    unfolding returns_into_def
    by (intro exI [of _ fr] exI [of _ ids] exI [of _ vs] exI [of _ lf] exI [of _ args] exI [of _ b])
      (use r st assms(3,4) in \<open>simp add: put_vars_spec_Some del: nth_opt_Some\<close>)
qed

lemma step_above:
  assumes "step E H vm s = Some (Some p, vm', s')" "frames vm = higher @ caller # rest" "higher \<noteq> []"
    and "edit_state_ok E"
  shows "(\<exists>higher'. higher' \<noteq> [] \<and> frames vm' = higher' @ caller # rest) \<or>
    s' = s \<and> returns_into E caller rest vm vm'"
proof -
  obtain fr fs where "higher = fr # fs" using assms(3) by (cases higher) auto
  then have fr: "frames vm = fr # fs @ caller # rest" using assms(2) by simp
  obtain stmt where st: "nth_opt (statements (vm_program vm)) (frame_pc fr) = Some stmt"
    using assms(1) by (auto simp: step_Cons [OF fr] bind_Some simp del: nth_opt_Some)
  show ?thesis
  proof (cases stmt)
    case (Invocation lf args branches)
    then have "step_invocation E H vm fr (fs @ caller # rest) lf args branches s = Some (vm', s')"
      using assms(1) st by (auto simp: step_Cons [OF fr] simp del: nth_opt_Some)
    then obtain fr' where "frames vm' = (fr' # fs) @ caller # rest \<or>
        (\<exists>g. frames vm' = (g # fr' # fs) @ caller # rest)"
      by (auto dest: step_invocation_frames)
    then show ?thesis by blast
  next
    case (Return ids)
    then have r: "step_return E vm fr (fs @ caller # rest) ids = Some vm'" "s' = s"
      using assms(1) st by (auto simp: step_Cons [OF fr] simp del: nth_opt_Some)
    show ?thesis
    proof (cases fs)
      case Nil
      with r fr Return st assms(4) show ?thesis by (auto intro: step_return_into)
    next
      case (Cons prev fs')
      with r obtain prev' where "frames vm' = (prev' # fs') @ caller # rest"
        by (auto simp: step_return_def bind_Some simp del: nth_opt_Some)
      then show ?thesis by blast
    qed
  qed
qed

lemma call_isolation_above:
  "reachable E H vm s vm' s' \<Longrightarrow> edit_state_ok E \<Longrightarrow> frames vm = higher @ caller # rest \<Longrightarrow> higher \<noteq> [] \<Longrightarrow>
    (\<exists>higher'. higher' \<noteq> [] \<and> frames vm' = higher' @ caller # rest) \<or>
    (\<exists>vm1 s1 vm2. reachable E H vm s vm1 s1 \<and> returns_into E caller rest vm1 vm2 \<and>
      reachable E H vm2 s1 vm' s')"
proof (induction arbitrary: higher rule: reachable.induct)
  case (reach_step vm s p vm' s' vm'' s'')
  from step_above [OF reach_step.hyps(1) reach_step.prems(2,3,1)] show ?case
  proof (elim disjE exE conjE)
    fix higher'
    assume "higher' \<noteq> []" "frames vm' = higher' @ caller # rest"
    with reach_step.IH [OF reach_step.prems(1)] show ?thesis
      by (blast intro: reachable.reach_step [OF reach_step.hyps(1)])
  qed (use reach_step.hyps(2) in \<open>blast intro: reach_refl\<close>)
qed blast

text \<open>
  C5: A call leaves every frame below it alone: at any state reachable from one with a frame
  above \<open>caller\<close>, either \<open>caller\<close> and the frames under it are still as they were, below the
  frames the callee has by then, or the callee has got to a return whose variables are exactly
  its results, and the caller has gone on past its call with the variables it held and those
  results, under the names of the call's branch.
\<close>
theorem call_isolation:
  assumes "edit_state_ok E" "reachable E H vm s vm' s'" "frames vm = fr # caller # rest"
  shows "(\<exists>higher. higher \<noteq> [] \<and> frames vm' = higher @ caller # rest) \<or>
    (\<exists>vm1 s1 vm2. reachable E H vm s vm1 s1 \<and> returns_into E caller rest vm1 vm2 \<and>
      reachable E H vm2 s1 vm' s')"
  using call_isolation_above [OF assms(2,1), of "[fr]"] assms(3) by simp

definition inner_end :: virtual_machine where
  "inner_end = call_vm\<lparr>frames := [inner_frame 4 [(2, 42)], outer_frame 1 []]\<rparr>"

definition outer_end :: virtual_machine where
  "outer_end = call_vm\<lparr>frames := [outer_frame 2 [(3, 42)]]\<rparr>"

theorem call_isolation_witness:
  "\<exists>vm1 s1 vm2. reachable ref_externs (stub_handler toy_primitives) inner_end stub_default vm1 s1 \<and>
    returns_into ref_externs (outer_frame 1 []) [] vm1 vm2 \<and>
    reachable ref_externs (stub_handler toy_primitives) vm2 s1 outer_end stub_default"
proof -
  let ?H = "stub_handler toy_primitives"
  have "reachable ref_externs ?H inner_end stub_default outer_end stub_default"
    unfolding inner_end_def outer_end_def by (rule reach_step [OF call_steps(4) reach_refl])
  from call_isolation [OF ref_edit_state_ok this, of "inner_frame 4 [(2, 42)]" "outer_frame 1 []" "[]"]
  have "(\<exists>higher. higher \<noteq> [] \<and> frames outer_end = higher @ [outer_frame 1 []]) \<or>
    (\<exists>vm1 s1 vm2. reachable ref_externs ?H inner_end stub_default vm1 s1 \<and>
      returns_into ref_externs (outer_frame 1 []) [] vm1 vm2 \<and>
      reachable ref_externs ?H vm2 s1 outer_end stub_default)"
    by (simp add: inner_end_def)
  moreover have "frames outer_end \<noteq> higher @ [outer_frame 1 []]" if "higher \<noteq> []" for higher
    using that by (cases higher) (auto simp: outer_end_def)
  ultimately show ?thesis by blast
qed

end
