(* ===== verification/Trace.thy ===== *)
theory Trace
  imports RunSafety Utf8
begin

text \<open>
  \<open>debug_utils/sierra-emu/src/dump.rs\<close>: reading a contract's result from the state before its
  last statement; \<open>run\<close> and \<open>run_contract\<close> of \<open>vm.rs\<close>, which end with it; and the entry points
  of \<open>lib.rs\<close>. A \<open>String\<close> is the list of its UTF-8 bytes. Results are nested options: the outer
  \<open>None\<close> is a panic, the inner one the code's own \<open>None\<close>.
\<close>

section \<open>The result of a contract\<close>

record contract_execution_result =
  remaining_gas :: u64
  failure_flag :: bool
  return_values :: "felt list"
  error_msg :: "u8 list option"

text \<open>The locals of \<open>from_state\<close>.\<close>

record result_acc =
  acc_gas :: "u64 option"
  acc_error :: "u8 list option"
  acc_failed :: bool
  acc_values :: "felt list"

definition felts_in :: "val list \<Rightarrow> felt list" where
  "felts_in vs = List.map_filter as_felt vs"

text \<open>
  The array of a successful result lies two structs deep, the one of an error is the second
  field; any other shape adds nothing, and a struct too short for the index panics.
\<close>

definition read_success :: "val list \<Rightarrow> felt list option" where
  "read_success inner =
    do {
      v \<leftarrow> nth_opt inner 0;
      (case v of
        Struct inner' \<Rightarrow>
          do {
            w \<leftarrow> nth_opt inner' 0;
            Some (case w of Array _ data \<Rightarrow> felts_in data | _ \<Rightarrow> []) }
      | _ \<Rightarrow> Some []) }"

definition error_text :: "val list \<Rightarrow> u8 list option" where
  "error_text data =
    string_from_utf8 (List.filter (\<lambda>b. b \<noteq> 0) (concat (map felt_bytes_be (felts_in data))))"

definition read_error :: "val list \<Rightarrow> u8 list option option" where
  "read_error inner =
    do {
      v \<leftarrow> nth_opt inner 1;
      (case v of
        Array _ data \<Rightarrow> map_option Some (error_text data)
      | _ \<Rightarrow> Some None) }"

definition read_value :: "result_acc \<Rightarrow> val \<Rightarrow> result_acc option option" where
  "read_value r v =
    (case v of
      U64 gas \<Rightarrow> Some (Some (r\<lparr>acc_gas := Some gas\<rparr>))
    | Enum _ index payload \<Rightarrow>
        (let r = r\<lparr>acc_failed := index \<noteq> 0\<rparr> in
         case payload of
           Struct inner \<Rightarrow>
             if index = 0
             then do {
               vs \<leftarrow> read_success inner;
               Some (Some (r\<lparr>acc_values := acc_values r @ vs\<rparr>)) }
             else do {
               msg \<leftarrow> read_error inner;
               Some (Some (case msg of Some m \<Rightarrow> r\<lparr>acc_error := Some m\<rparr> | None \<Rightarrow> r)) }
         | _ \<Rightarrow> Some (Some r))
    | Unit \<Rightarrow> Some (Some r)
    | _ \<Rightarrow> Some None)"

fun read_values :: "result_acc \<Rightarrow> val list \<Rightarrow> result_acc option option" where
  "read_values r [] = Some (Some r)"
| "read_values r (v # vs) =
    do {
      x \<leftarrow> read_value r v;
      (case x of None \<Rightarrow> Some None | Some r \<Rightarrow> read_values r vs) }"

text \<open>The values of a \<open>BTreeMap\<close>, in the order of the keys.\<close>

definition values_in_order :: "vstate \<Rightarrow> val list" where
  "values_in_order st = map (\<lambda>x. the (fmlookup st x)) (sorted_list_of_fset (fmdom st))"

definition from_state :: "state_dump \<Rightarrow> contract_execution_result option option" where
  "from_state d =
    do {
      x \<leftarrow> read_values \<lparr>acc_gas = None, acc_error = None, acc_failed = False, acc_values = []\<rparr>
            (values_in_order (items d));
      Some (case x of
        None \<Rightarrow> None
      | Some r \<Rightarrow>
          Some \<lparr>remaining_gas = (case acc_gas r of Some g \<Rightarrow> g | None \<Rightarrow> 0),
                failure_flag = acc_failed r, return_values = acc_values r,
                error_msg = acc_error r\<rparr>) }"

definition from_trace :: "program_trace \<Rightarrow> contract_execution_result option option" where
  "from_trace tr = (case last_opt (states tr) of None \<Rightarrow> Some None | Some d \<Rightarrow> from_state d)"

definition return_value :: "program_trace \<Rightarrow> val option" where
  "return_value tr =
    do {
      d \<leftarrow> last_opt (states tr);
      Some (case last_opt (values_in_order (items d)) of Some v \<Rightarrow> v | None \<Rightarrow> Unit) }"

section \<open>Runs that read the result\<close>

definition run ::
  "nat \<Rightarrow> externs \<Rightarrow> 's syscall_handler \<Rightarrow> virtual_machine \<Rightarrow> 's \<Rightarrow>
    (contract_execution_result option \<times> virtual_machine \<times> 's) outcome" where
  "run n E H vm s =
    (case run_loop n E H None vm s of
      Done (latest, vm', s') \<Rightarrow>
        (case (case latest of None \<Rightarrow> Some None | Some d \<Rightarrow> from_state d) of
          None \<Rightarrow> Panicked
        | Some r \<Rightarrow> Done (r, vm', s'))
    | Panicked \<Rightarrow> Panicked
    | OutOfFuel \<Rightarrow> OutOfFuel)"

definition run_contract ::
  "nat \<Rightarrow> externs \<Rightarrow> 's syscall_handler \<Rightarrow> (program \<Rightarrow> registry option) \<Rightarrow>
    (program \<Rightarrow> metadata_config option \<Rightarrow> gas_metadata option) \<Rightarrow> nat \<Rightarrow> program \<Rightarrow>
    contract_entry_points \<Rightarrow> nat \<Rightarrow> nat \<Rightarrow> felt \<Rightarrow> u64 \<Rightarrow> felt list \<Rightarrow> builtin_costs option \<Rightarrow> 's \<Rightarrow>
    (contract_execution_result option \<times> virtual_machine \<times> 's) outcome" where
  "run_contract n E H mk_registry mk_gas ep_cost P eps major minor selector gas calldata costs s =
    (case do {
        vm \<leftarrow> vm_new_starknet E mk_registry mk_gas ep_cost P eps major minor;
        call_contract_vm E selector gas calldata costs vm } of
      None \<Rightarrow> Panicked
    | Some vm \<Rightarrow> run n E H vm s)"

section \<open>Results\<close>

text \<open>
  C10: The loop \<open>run\<close> keeps only the last state and \<open>run_with_trace\<close> all of them, and they agree: it
  returns what \<open>from_trace\<close> reads from the trace, leaves the same machine and handler behind,
  and panics or runs out of fuel exactly when the other loop does, or when reading the last
  state panics.
\<close>
theorem run_agrees_with_trace:
  "run n E H vm s =
    (case run_with_trace n E H vm s of
      Done (tr, vm', s') \<Rightarrow> (case from_trace tr of None \<Rightarrow> Panicked | Some r \<Rightarrow> Done (r, vm', s'))
    | Panicked \<Rightarrow> Panicked
    | OutOfFuel \<Rightarrow> OutOfFuel)"
  using run_loop_trace [of n E H "\<lparr>states = []\<rparr>" vm s]
  by (cases "run_with_trace n E H vm s") (auto simp: run_def run_with_trace_def from_trace_def)

text \<open>Implicit arguments and gas around the result.\<close>

lemma read_values_append:
  "read_values r (xs @ ys) =
    do { x \<leftarrow> read_values r xs; (case x of None \<Rightarrow> Some None | Some r \<Rightarrow> read_values r ys) }"
proof (induction xs arbitrary: r)
  case (Cons x xs)
  show ?case by (cases "read_value r x") (auto simp: Cons.IH split: option.splits)
qed simp

lemma read_values_units: "set us \<subseteq> {Unit} \<Longrightarrow> read_values r us = Some (Some r)"
  by (induction us) (auto simp: read_value_def)

lemma felts_in_map [simp]: "felts_in (map Felt xs) = xs"
  by (induction xs) (simp_all add: felts_in_def List.map_filter_def)

lemma contract_result_decoded_parts:
  assumes "values_in_order (items d) = us @ U64 g # ws @ [Enum t i (Struct p)]"
    and "set us \<subseteq> {Unit}" "set ws \<subseteq> {Unit}"
  shows "i = 0 \<Longrightarrow> p = [Struct [Array t' (map Felt xs)]] \<Longrightarrow>
      from_state d = Some (Some \<lparr>remaining_gas = g, failure_flag = False, return_values = xs,
        error_msg = None\<rparr>)"
    and "0 < i \<Longrightarrow> p = [v, Array t' (map Felt xs)] \<Longrightarrow>
      from_state d = map_option (\<lambda>msg. Some \<lparr>remaining_gas = g, failure_flag = True,
        return_values = [], error_msg = Some msg\<rparr>) (error_text (map Felt xs))"
  using assms
  by (simp_all add: from_state_def read_values_append read_values_units read_value_def
      read_success_def read_error_def split: option.splits)
    (cases "error_text (map Felt xs)"; simp)

lemma error_text_texts:
  assumes "\<forall>s \<in> set ss. length s \<le> 31 \<and> (\<forall>c \<in> set s. (of_char c :: nat) \<in> {1 ..< 128})"
  shows "error_text (map (\<lambda>s. Felt (felt_of_text s)) ss) = Some (concat (map (map of_char) ss))"
proof -
  have char: "(of_char c :: u8) \<noteq> 0 \<and> (of_char c :: u8) < 128" if "(of_char c :: nat) \<in> {1 ..< 128}" for c
  proof -
    have "unat (of_char c :: u8) \<noteq> unat (0 :: u8)" "unat (of_char c :: u8) < unat (128 :: u8)"
      using that by (simp_all add: unat_of_char)
    then show ?thesis by (auto simp: word_less_nat_alt)
  qed
  have "List.filter (\<lambda>b. b \<noteq> 0) (felt_bytes_be (felt_of_text s)) = map of_char s" if "s \<in> set ss" for s
    using assms that char by (auto simp: felt_bytes_be_text filter_empty_conv intro!: filter_True)
  then have "List.filter (\<lambda>b. b \<noteq> 0) (concat (map felt_bytes_be (map felt_of_text ss))) =
      concat (map (map of_char) ss)"
    by (induction ss) auto
  moreover have "valid_utf8 (concat (map (map of_char) ss))"
    using assms char by (intro ascii_utf8) auto
  moreover have "felts_in (map (\<lambda>s. Felt (felt_of_text s)) ss) = map felt_of_text ss"
    using felts_in_map [of "map felt_of_text ss"] by (simp add: comp_def)
  ultimately show ?thesis by (simp only: error_text_def string_from_utf8_def) simp
qed

text \<open>
  The messages the system calls put into felts come out again: a list of ASCII texts
  without null characters, each short enough for a felt, is read back as their concatenation.
\<close>
theorem error_message_roundtrip:
  assumes "\<forall>s \<in> set ss. length s \<le> 31 \<and> (\<forall>c \<in> set s. (of_char c :: nat) \<in> {1 ..< 128})"
  shows "error_text (map (\<lambda>s. Felt (felt_of_text s)) ss) = Some (concat (map (map of_char) ss))"
  using assms by (rule error_text_texts)

theorem error_message_roundtrip_witness:
  "error_text [Felt (felt_of_text ''address not found'')] = Some (map of_char ''address not found'')"
  using error_message_roundtrip [of "[''address not found'']"] by simp

text \<open>A failing storage read, as the contract returns it.\<close>

definition failed_state :: state_dump where
  "failed_state = \<lparr>statement_idx = 2, items = fmap_of_list
    [(5, Unit), (7, U64 90), (8, Unit),
     (9, Enum 3 1 (Struct [Struct [], Array 13 (map Felt [felt_of_text ''address not found''])]))]\<rparr>"

text \<open>
  What a contract's last state means: with the variables in order being implicit arguments,
  the gas, implicit arguments and an enum, the result has that gas; the first variant is a
  success with the felts of the array two structs deep, any other one a failure with the text
  of the felts of the second field, and reading panics exactly when that text is not UTF-8.
\<close>
theorem contract_result_decoded:
  assumes "values_in_order (items d) = us @ U64 g # ws @ [Enum t i (Struct p)]"
    and "set us \<subseteq> {Unit}" "set ws \<subseteq> {Unit}"
  shows "(i = 0 \<longrightarrow> p = [Struct [Array t' (map Felt xs)]] \<longrightarrow> from_state d = Some (Some \<lparr>remaining_gas = g, failure_flag = False, return_values = xs,
        error_msg = None\<rparr>)) \<and>
    (0 < i \<longrightarrow> p = [v, Array t' (map Felt xs)] \<longrightarrow> from_state d = map_option (\<lambda>msg. Some \<lparr>remaining_gas = g, failure_flag = True,
        return_values = [], error_msg = Some msg\<rparr>) (error_text (map Felt xs)))"
  using contract_result_decoded_parts [OF assms] by blast

theorem contract_result_decoded_witness:
  "from_state failed_state = map_option (\<lambda>msg. Some \<lparr>remaining_gas = 90, failure_flag = True,
     return_values = [], error_msg = Some msg\<rparr>) (error_text (map Felt [felt_of_text ''address not found'']))"
proof (rule contract_result_decoded [where us = "[Unit]" and ws = "[Unit]" and i = 1, THEN conjunct2, THEN mp, THEN mp])
  show "values_in_order (items failed_state) = [Unit] @ U64 90 # [Unit] @
      [Enum 3 1 (Struct [Struct [], Array 13 (map Felt [felt_of_text ''address not found''])])]"
    by (simp add: values_in_order_def failed_state_def fmap_of_list_simps sorted_list_of_fset.rep_eq)
qed simp_all

end
