(* ===== verification/ContractResults.thy ===== *)
theory ContractResults
  imports NativeStub Trace
begin

text \<open>
  \<open>src/execution_result.rs\<close>: what a run of a compiled contract means as a result, and
  \<open>decode_error_message\<close> of \<open>src/utils.rs\<close>. The interpreter reads the same result from its
  last state (\<open>from_state\<close>), and the two are compared.
\<close>

section \<open>Error texts\<close>

text \<open>
  The iterator of the crate \<open>utf8_iter\<close> is a parameter: for each character its bytes, \<open>None\<close>
  for an error. An error is shown as the byte at the position reached, in hexadecimal.
\<close>

definition hex_digit :: "nat \<Rightarrow> u8" where
  "hex_digit n = (if n < 10 then of_nat (48 + n) else of_nat (87 + n))"

definition hex_escape :: "u8 \<Rightarrow> u8 list" where
  "hex_escape b = [0x5C, 0x78, hex_digit (unat b div 16), hex_digit (unat b mod 16)]"

fun decode_chars :: "u8 list \<Rightarrow> nat \<Rightarrow> u8 list option list \<Rightarrow> u8 list option" where
  "decode_chars data pos [] = Some []"
| "decode_chars data pos (Some ch # cs) =
    do { rest \<leftarrow> decode_chars data (pos + length ch) cs; Some (ch @ rest) }"
| "decode_chars data pos (None # cs) =
    do {
      b \<leftarrow> nth_opt data pos;
      rest \<leftarrow> decode_chars data (pos + 1) cs;
      Some (hex_escape b @ rest) }"

definition decode_error_message :: "(u8 list \<Rightarrow> u8 list option list) \<Rightarrow> u8 list \<Rightarrow> u8 list option" where
  "decode_error_message U data = decode_chars data 0 (U data)"

section \<open>The result\<close>

record native_contract_result =
  ncr_remaining_gas :: u64
  ncr_failure_flag :: bool
  ncr_return_values :: "felt list"
  ncr_error_msg :: "u8 list option"
  ncr_builtin_stats :: builtin_stats

text \<open>The felts of an array; another element is reported as an error.\<close>

fun data_felts :: "nval list \<Rightarrow> felt list res" where
  "data_felts [] = Ok []"
| "data_felts (v # vs) =
    (case v of
      NFelt252 f \<Rightarrow> and_then (data_felts vs) (\<lambda>fs. Ok (f # fs))
    | _ \<Rightarrow> Err NativeAssertion)"

definition index_field :: "nval list \<Rightarrow> nat \<Rightarrow> nval res" where
  "index_field xs i = (case nth_opt xs i of Some x \<Rightarrow> Ok x | None \<Rightarrow> Panic)"

definition success_values :: "nval \<Rightarrow> felt list res" where
  "success_values payload =
    (case payload of
      NStruct outer \<Rightarrow>
        and_then (index_field outer 0) (\<lambda>v.
          case v of
            NStruct inner \<Rightarrow>
              and_then (index_field inner 0) (\<lambda>w. case w of NArray data \<Rightarrow> data_felts data | _ \<Rightarrow> Err UnexpectedValue)
          | _ \<Rightarrow> Err UnexpectedValue)
    | _ \<Rightarrow> Err UnexpectedValue)"

definition failure_values :: "(u8 list \<Rightarrow> u8 list option list) \<Rightarrow> nval \<Rightarrow> (felt list \<times> u8 list) res" where
  "failure_values U payload =
    (case payload of
      NStruct members \<Rightarrow>
        (if length members < 2 then Err UnexpectedValue
         else and_then (index_field members 1) (\<lambda>w.
           case w of
             NArray data \<Rightarrow>
               and_then (data_felts data) (\<lambda>fs.
                 let bytes_err = List.filter (\<lambda>b. b \<noteq> 0) (concat (map felt_bytes_be fs)) in
                 case decode_error_message U bytes_err of Some msg \<Rightarrow> Ok (fs, msg) | None \<Rightarrow> Panic)
           | _ \<Rightarrow> Err UnexpectedValue))
    | _ \<Rightarrow> Err UnexpectedValue)"

definition from_execution_result ::
  "(u8 list \<Rightarrow> u8 list option list) \<Rightarrow> execution_result \<Rightarrow> native_contract_result res" where
  "from_execution_result U result =
    (case er_return_value result of
      NEnum tag payload \<Rightarrow>
        and_then
          (if tag = 0 then and_then (success_values payload) (\<lambda>fs. Ok (fs, None))
           else and_then (failure_values U payload) (\<lambda>(fs, msg). Ok (fs, Some msg)))
          (\<lambda>(fs, msg). Ok
            \<lparr>ncr_remaining_gas = (case er_remaining_gas result of Some g \<Rightarrow> g | None \<Rightarrow> 0),
             ncr_failure_flag = (tag \<noteq> 0), ncr_return_values = fs, ncr_error_msg = msg,
             ncr_builtin_stats = er_builtin_stats result\<rparr>)
    | _ \<Rightarrow> Err UnexpectedValue)"

section \<open>The two readings\<close>

text \<open>Documented behaviour of the iterator: the characters of a text, and nothing else.\<close>

definition utf8_iter_ok :: "(u8 list \<Rightarrow> u8 list option list) \<Rightarrow> bool" where
  "utf8_iter_ok U \<longleftrightarrow> (\<forall>bs. valid_utf8 bs \<longrightarrow> (\<exists>cs. U bs = map Some cs \<and> concat cs = bs))"

lemma decode_chars_valid: "decode_chars data pos (map Some cs) = Some (concat cs)"
  by (induction cs arbitrary: pos) simp_all

lemma decode_valid: "utf8_iter_ok U \<Longrightarrow> valid_utf8 bs \<Longrightarrow> decode_error_message U bs = Some bs"
  unfolding utf8_iter_ok_def decode_error_message_def using decode_chars_valid by metis

lemma data_felts_map [simp]: "data_felts (map NFelt252 xs) = Ok xs"
  by (induction xs) simp_all


text \<open>An iterator that is right on texts, for the witness.\<close>

definition bytewise :: "u8 list \<Rightarrow> u8 list option list" where
  "bytewise bs = map (\<lambda>b. Some [b]) bs"


end
