(* ===== verification/NativeStubFacts.thy ===== *)
theory NativeStubFacts
  imports NativeStub CircuitOps
begin

text \<open>
  What the handler of the native tests guarantees: the price of every call, the addresses
  around inner calls, storage per contract, deployments, and its agreement with the handler of
  the interpreter.
\<close>

section \<open>An instance of the parameters\<close>

definition toy_ark :: ark_curve where
  "toy_ark =
    \<lparr>ac_base = 7, ac_scalar = 2,
     ac_on_curve = (\<lambda>p. p = affine_identity \<or> p = \<lparr>af_x = 1, af_y = 2, af_infinity = False\<rparr>),
     ac_in_subgroup = (\<lambda>p. True),
     ac_plus = (\<lambda>p q. if p = affine_identity then q else if q = affine_identity then p else affine_identity),
     ac_times = (\<lambda>p k. if odd k then p else affine_identity),
     ac_ys = (\<lambda>x. if x = 1 then Some (2, 2) else None)\<rparr>"

definition toy_world :: "unit native_world" where
  "toy_world =
    \<lparr>nx_invoke = (\<lambda>_ f args gas s.
       Some (\<lparr>er_remaining_gas = gas, er_return_value = NEnum 0 (NStruct [NStruct [NArray []]]),
              er_builtin_stats = no_builtins\<rparr>,
         set_context (felt_of_int 0, felt_of_int 0) (s\<lparr>ns_builtin_counters := no_builtins\<rparr>))),
     nx_entry_point_cost = 10000,
     nx_pedersen_array = (\<lambda>xs. felt_of_int (int (length xs))),
     nx_f1600 = rev, nx_compress256 = (\<lambda>st bs. rev st), nx_compress512 = (\<lambda>st bs. rev st),
     nx_k1 = toy_ark, nx_r1 = toy_ark\<rparr>"

text \<open>Class 9 with an external function and no constructor, deployed at address 8.\<close>

definition toy_stub :: "unit native_stub" where
  "toy_stub =
    \<lparr>ns_executor = Some (), ns_storage = fmempty,
     ns_deployed_contracts = fmap_of_list [(felt_of_int 8, felt_of_int 9)],
     ns_logs = fmempty,
     ns_execution_info =
       \<lparr>ei_block_info = \<lparr>block_number = 0, block_timestamp = 0, sequencer_address = felt_of_int 666\<rparr>,
        ei_tx_info = \<lparr>tx_version = felt_of_int 1, tx_account_contract_address = felt_of_int 1, tx_max_fee = 0,
          tx_signature = [], tx_transaction_hash = felt_of_int 1, tx_chain_id = felt_of_int 1, tx_nonce = felt_of_int 0\<rparr>,
        ei_caller_address = felt_of_int 2, ei_contract_address = felt_of_int 3, ei_entry_point_selector = felt_of_int 4\<rparr>,
     ns_block_hash = fmempty,
     ns_contracts_info = fmap_of_list [(felt_of_int 9, \<lparr>ci_constructor = None, ci_externals = fmap_of_list [(felt_of_int 4, 0)]\<rparr>)],
     ns_builtin_counters = no_builtins\<rparr>"

section \<open>Gas\<close>

definition out_of_gas :: "felt list" where
  "out_of_gas = [felt_of_text ''Syscall out of gas'']"

lemma charged_simp:
  "charged price body gas s = (if gas < price then Some (Inl out_of_gas, gas, s) else body (gas - price) s)"
  by (simp add: charged_def deduct_gas_def out_of_gas_def)

text \<open>A call that costs the same whatever it does: refused for less gas, without any effect.\<close>

definition fixed_price :: "u64 \<Rightarrow> ('s, 'a) syscall \<Rightarrow> bool" where
  "fixed_price price call \<longleftrightarrow>
    (\<forall>gas s. gas < price \<longrightarrow> call gas s = Some (Inl out_of_gas, gas, s)) \<and>
    (\<forall>gas s r gas' s'. price \<le> gas \<longrightarrow> call gas s = Some (r, gas', s') \<longrightarrow> gas' = gas - price)"

lemma fixed_price_charged:
  assumes "\<And>gas s r gas' s'. body gas s = Some (r, gas', s') \<Longrightarrow> gas' = gas"
  shows "fixed_price price (charged price body)"
  using assms by (fastforce simp: fixed_price_def charged_simp not_less)

named_theorems native_defs
lemmas [native_defs] = native_get_block_hash_def native_get_execution_info_def native_get_execution_info_v2_def
  native_get_execution_info_v3_def native_replace_class_def native_storage_read_def native_storage_write_def
  native_emit_event_def native_send_message_to_l1_def native_secp256k1_new_def native_secp256k1_add_def
  native_secp256k1_mul_def native_secp256k1_get_point_from_x_def native_secp256k1_get_xy_def
  native_secp256r1_new_def native_secp256r1_add_def native_secp256r1_mul_def
  native_secp256r1_get_point_from_x_def native_secp256r1_get_xy_def native_sha256_process_block_def
  native_sha512_process_block_def native_get_class_hash_at_def

text \<open>
  Every system call but the inner calls and the hash has one price: with less gas it
  returns the out-of-gas error and changes nothing, with enough it takes exactly its price,
  whatever its result.
\<close>

theorem native_prices:
  "fixed_price GAS_GET_BLOCK_HASH (native_get_block_hash n :: ('x native_stub, felt) syscall) \<and>
   fixed_price GAS_GET_EXECUTION_INFO (native_get_execution_info :: ('x native_stub, execution_info) syscall) \<and>
   fixed_price GAS_GET_EXECUTION_INFO (native_get_execution_info_v2 :: ('x native_stub, execution_info_v2) syscall) \<and>
   fixed_price GAS_GET_EXECUTION_INFO (native_get_execution_info_v3 :: ('x native_stub, execution_info_v3) syscall) \<and>
   fixed_price GAS_REPLACE_CLASS (native_replace_class h :: ('x native_stub, unit) syscall) \<and>
   fixed_price GAS_STORAGE_READ (native_storage_read d k :: ('x native_stub, felt) syscall) \<and>
   fixed_price GAS_STORAGE_WRITE (native_storage_write d k v :: ('x native_stub, unit) syscall) \<and>
   fixed_price GAS_EMIT_EVENT (native_emit_event keys data :: ('x native_stub, unit) syscall) \<and>
   fixed_price GAS_SEND_MESSAGE (native_send_message_to_l1 a payload :: ('x native_stub, unit) syscall) \<and>
   fixed_price GAS_SECP_NEW (native_secp256k1_new X x y) \<and> fixed_price GAS_SECP_ADD (native_secp256k1_add X p q) \<and>
   fixed_price GAS_SECP_MUL (native_secp256k1_mul X p m) \<and>
   fixed_price GAS_SECP_FROM_X (native_secp256k1_get_point_from_x X x parity) \<and>
   fixed_price GAS_SECP_GET_XY (native_secp256k1_get_xy p :: ('x native_stub, u256 \<times> u256) syscall) \<and>
   fixed_price GAS_SECP_NEW (native_secp256r1_new X x y) \<and> fixed_price GAS_SECP_ADD (native_secp256r1_add X u w) \<and>
   fixed_price GAS_SECP_MUL (native_secp256r1_mul X u m) \<and>
   fixed_price GAS_SECP_FROM_X (native_secp256r1_get_point_from_x X x parity) \<and>
   fixed_price GAS_SECP_GET_XY (native_secp256r1_get_xy u :: ('x native_stub, u256 \<times> u256) syscall) \<and>
   fixed_price GAS_SHA256 (native_sha256_process_block X st block) \<and>
   fixed_price GAS_SHA512 (native_sha512_process_block X st' block') \<and>
   fixed_price GAS_GET_CLASS_HASH_AT (native_get_class_hash_at a :: ('x native_stub, felt) syscall)"
  unfolding native_defs
  by (intro conjI fixed_price_charged)
    (auto simp: Let_def split: if_splits sum.splits option.splits simp: bind_Some)

section \<open>Inner calls\<close>

lemma context_set [simp]: "context_of (set_context c s) = c"
  by (cases c) (simp add: context_of_def set_context_def)

lemma context_of_updates [simp]:
  "context_of (s\<lparr>ns_deployed_contracts := d\<rparr>) = context_of s"
  "context_of (s\<lparr>ns_builtin_counters := b\<rparr>) = context_of s"
  by (simp_all add: context_of_def)

lemma charged_cases:
  assumes "charged price body gas s = Some (r, gas', s')"
  obtains (refused) "gas < price" "r = Inl out_of_gas" "gas' = gas" "s' = s"
  | (paid) "price \<le> gas" "body (gas - price) s = Some (r, gas', s')"
  using assms by (auto simp: charged_simp not_less split: if_split_asm)

lemma call_contract_context:
  assumes "native_call_contract X a sel calldata gas s = Some (r, gas', s')"
  shows "context_of s' = context_of s"
  using assms unfolding native_call_contract_def
proof (cases rule: charged_cases)
  case paid
  then show ?thesis
    by (auto simp: open_caller_context_def close_caller_context_def bind_Some split: option.split_asm)
qed simp

lemma deploy_context:
  assumes "native_deploy X h salt calldata from_zero gas s = Some (d, gas', s')"
  shows "context_of s' = context_of s"
  using assms unfolding native_deploy_def
proof (cases rule: charged_cases)
  case paid
  then show ?thesis
    by (auto simp: open_caller_context_def close_caller_context_def bind_Some Let_def split: option.split_asm if_split_asm)
qed simp

text \<open>
  C22: Calling a contract and deploying one leave the contract and caller addresses as they
  were, whatever the inner code did to them, also when the inner call fails.
\<close>

theorem native_context_restored:
  "(native_call_contract X a sel calldata gas s = Some (r, gas', s') \<longrightarrow> context_of s' = context_of s) \<and>
   (native_deploy X h salt calldata from_zero gas s = Some (d, gas', s') \<longrightarrow> context_of s' = context_of s)"
  by (intro conjI impI; erule call_contract_context deploy_context)

lemma native_context_restored_witness:
  "\<exists>r gas' s'. native_call_contract toy_world (felt_of_int 8) (felt_of_int 4) [] 100000 toy_stub = Some (r, gas', s') \<and>
    context_of s' = (felt_of_int 3, felt_of_int 2)"
proof -
  obtain r gas' s' where run: "native_call_contract toy_world (felt_of_int 8) (felt_of_int 4) [] 100000 toy_stub = Some (r, gas', s')"
    by (simp add: native_call_contract_def charged_simp toy_stub_def toy_world_def GAS_CALL_CONTRACT_def GAS_ENTRY_POINT_def
        GAS_STEP_def open_caller_context_def close_caller_context_def call_entry_point_def Let_def set_context_def
        builtin_stats_add_def usize_sum_def no_builtins_def read_contract_result_def felt_values_def)
  then have "context_of s' = context_of toy_stub" using native_context_restored by blast
  then show ?thesis using run by (simp add: context_of_def toy_stub_def)
qed

section \<open>Deployments\<close>

text \<open>
  C27: Deploying again what is deployed fails, but not without an effect: the class of the
  contract, which it may have replaced since, is the deployed one again.
\<close>

theorem native_deploy_overwrites:
  assumes "GAS_DEPLOY X \<le> gas" "fmlookup (ns_contracts_info s) class_hash = Some info"
    and "addr = deployed_address X (if from_zero then felt_of_int 0 else ei_contract_address (ns_execution_info s)) salt class_hash calldata"
    and "fmlookup (ns_deployed_contracts s) addr = Some h"
  shows "\<exists>s'. native_deploy X class_hash salt calldata from_zero gas s =
      Some (Inl [felt_of_text ''CONTRACT_ALREADY_DEPLOYED''], gas - GAS_DEPLOY X, s') \<and>
    fmlookup (ns_deployed_contracts s') addr = Some class_hash"
proof -
  have "\<not> gas < GAS_DEPLOY X" using assms(1) by (simp add: not_less)
  then show ?thesis using assms(2-4) by (simp add: native_deploy_def charged_simp Let_def)
qed

lemma native_deploy_overwrites_witness:
  "\<exists>s'. native_deploy toy_world (felt_of_int 9) (felt_of_int 0) [] True 100000
      (toy_stub\<lparr>ns_deployed_contracts := fmap_of_list [(deployed_address toy_world (felt_of_int 0) (felt_of_int 0) (felt_of_int 9) [], felt_of_int 7)]\<rparr>) =
    Some (Inl [felt_of_text ''CONTRACT_ALREADY_DEPLOYED''], 20000, s') \<and>
    fmlookup (ns_deployed_contracts s') (deployed_address toy_world (felt_of_int 0) (felt_of_int 0) (felt_of_int 9) []) = Some (felt_of_int 9)"
proof -
  have price: "GAS_DEPLOY toy_world = 80000"
    by (simp add: GAS_DEPLOY_def GAS_ENTRY_POINT_def GAS_STEP_def toy_world_def)
  show ?thesis
    using native_deploy_overwrites [where X = toy_world and gas = 100000 and class_hash = "felt_of_int 9" and from_zero = True
        and salt = "felt_of_int 0" and calldata = "[]" and h = "felt_of_int 7" and info = "\<lparr>ci_constructor = None, ci_externals = fmap_of_list [(felt_of_int 4, 0)]\<rparr>"
        and s = "toy_stub\<lparr>ns_deployed_contracts := fmap_of_list [(deployed_address toy_world (felt_of_int 0) (felt_of_int 0) (felt_of_int 9) [], felt_of_int 7)]\<rparr>"]
    unfolding price by (simp add: toy_stub_def)
qed

section \<open>No panics\<close>

text \<open>Every deployed contract has a class that is declared.\<close>

definition declared :: "'x native_stub \<Rightarrow> bool" where
  "declared s \<longleftrightarrow>
    (\<forall>a h. fmlookup (ns_deployed_contracts s) a = Some h \<longrightarrow> fmlookup (ns_contracts_info s) h \<noteq> None)"

text \<open>
  What the handler expects of the executor: a run returns, with a value of a contract and
  builtin counters that can be added, and leaves the handler it was given as sound as it was.
\<close>

definition executor_ok :: "'x native_world \<Rightarrow> bool" where
  "executor_ok X \<longleftrightarrow>
    (\<forall>x f args gas s. declared s \<longrightarrow>
      (\<exists>res s'. nx_invoke X x f args gas s = Some (res, s') \<and> declared s' \<and>
        builtin_stats_add (ns_builtin_counters s') (er_builtin_stats res) \<noteq> None \<and>
        read_contract_result (er_return_value res) \<noteq> None))"

lemma declared_updates [simp]:
  "declared (set_context c s) = declared s"
  "declared (s\<lparr>ns_builtin_counters := b\<rparr>) = declared s"
  by (simp_all add: declared_def set_context_def)

lemma declared_deployed:
  "declared s \<Longrightarrow> fmlookup (ns_contracts_info s) h \<noteq> None \<Longrightarrow>
    declared (s\<lparr>ns_deployed_contracts := fmupd a h (ns_deployed_contracts s)\<rparr>)"
  by (simp add: declared_def)

lemma set_context_executor [simp]: "ns_executor (set_context c s) = ns_executor s"
  by (simp add: set_context_def)

lemma call_entry_point_total:
  assumes "executor_ok X" "declared s" "ns_executor s \<noteq> None" "unat gas + unat (nx_entry_point_cost X) < 2 ^ 64"
  shows "\<exists>r gas' s'. call_entry_point X f calldata gas s = Some (r, gas', s') \<and> declared s'"
proof -
  obtain x where x: "ns_executor s = Some x" using assms(3) by blast
  obtain res s' where run: "nx_invoke X x f [NStruct [NArray (map NFelt252 calldata)]] (Some (gas + nx_entry_point_cost X)) s = Some (res, s')"
    "declared s'" "builtin_stats_add (ns_builtin_counters s') (er_builtin_stats res) \<noteq> None"
    "read_contract_result (er_return_value res) \<noteq> None"
    using assms(1,2) unfolding executor_ok_def by blast
  then show ?thesis using x assms(4) by (auto simp: call_entry_point_def Let_def)
qed

text \<open>The refund fits: it is part of the price that was taken.\<close>

lemma refund_fits:
  assumes "unat (nx_entry_point_cost X) + 70000 < 2 ^ 64" "GAS_CALL_CONTRACT X \<le> gas"
  shows "unat (gas - GAS_CALL_CONTRACT X) + unat (nx_entry_point_cost X) < 2 ^ 64"
proof -
  have "unat (GAS_CALL_CONTRACT X) = 51000 + unat (nx_entry_point_cost X)"
    using assms(1) by (simp add: GAS_CALL_CONTRACT_def GAS_ENTRY_POINT_def GAS_STEP_def unat_word_ariths)
  moreover have "unat (gas - GAS_CALL_CONTRACT X) = unat gas - unat (GAS_CALL_CONTRACT X)"
    using assms(2) by (rule unat_sub)
  moreover have "unat gas < 2 ^ 64" by (rule order_less_le_trans [OF unsigned_less]) simp
  ultimately show ?thesis using assms(1) by simp
qed

lemma deploy_refund_fits:
  assumes "unat (nx_entry_point_cost X) + 70000 < 2 ^ 64" "GAS_DEPLOY X \<le> gas"
  shows "unat (gas - GAS_DEPLOY X) + unat (nx_entry_point_cost X) < 2 ^ 64"
proof -
  have "unat (GAS_DEPLOY X) = 70000 + unat (nx_entry_point_cost X)"
    using assms(1) by (simp add: GAS_DEPLOY_def GAS_ENTRY_POINT_def GAS_STEP_def unat_word_ariths)
  moreover have "unat (gas - GAS_DEPLOY X) = unat gas - unat (GAS_DEPLOY X)"
    using assms(2) by (rule unat_sub)
  moreover have "unat gas < 2 ^ 64" by (rule order_less_le_trans [OF unsigned_less]) simp
  ultimately show ?thesis using assms(1) by simp
qed

lemma native_calls_total_parts:
  assumes "executor_ok X" "unat (nx_entry_point_cost X) + 70000 < 2 ^ 64" "declared s" "ns_executor s \<noteq> None"
  shows "\<exists>r gas' s'. native_library_call X h sel calldata gas s = Some (r, gas', s') \<and> declared s'"
    and "\<exists>r gas' s'. native_call_contract X a sel calldata gas s = Some (r, gas', s') \<and> declared s'"
    and "\<exists>r gas' s'. native_deploy X h salt calldata from_zero gas s = Some (r, gas', s') \<and> declared s'"
proof -
  note run = call_entry_point_total [OF assms(1)]
  show "\<exists>r gas' s'. native_library_call X h sel calldata gas s = Some (r, gas', s') \<and> declared s'"
  proof (cases "gas < GAS_LIBRARY_CALL X")
    case False
    then have fits: "unat (gas - GAS_LIBRARY_CALL X) + unat (nx_entry_point_cost X) < 2 ^ 64"
      using refund_fits [OF assms(2)] by (simp add: GAS_LIBRARY_CALL_def not_less)
    show ?thesis
    proof (cases "\<exists>info f. fmlookup (ns_contracts_info s) h = Some info \<and> fmlookup (ci_externals info) sel = Some f")
      case True
      then obtain info f where f: "fmlookup (ns_contracts_info s) h = Some info" "fmlookup (ci_externals info) sel = Some f" by blast
      obtain r g s' where "call_entry_point X f calldata (gas - GAS_LIBRARY_CALL X) s = Some (r, g, s')" "declared s'"
        using run [OF assms(3,4) fits] by blast
      then show ?thesis using f False by (simp add: native_library_call_def charged_simp)
    qed (use False assms(3) in \<open>auto simp: native_library_call_def charged_simp split: option.split\<close>)
  qed (use assms(3) in \<open>simp add: native_library_call_def charged_simp\<close>)
  show "\<exists>r gas' s'. native_call_contract X a sel calldata gas s = Some (r, gas', s') \<and> declared s'"
  proof (cases "gas < GAS_CALL_CONTRACT X")
    case False
    then have fits: "unat (gas - GAS_CALL_CONTRACT X) + unat (nx_entry_point_cost X) < 2 ^ 64"
      using refund_fits [OF assms(2)] by (simp add: not_less)
    show ?thesis
    proof (cases "fmlookup (ns_deployed_contracts s) a")
      case (Some c)
      then obtain info where info: "fmlookup (ns_contracts_info s) c = Some info"
        using assms(3) unfolding declared_def by blast
      show ?thesis
      proof (cases "fmlookup (ci_externals info) sel")
        case (Some f)
        define t where "t = set_context (a, ei_contract_address (ns_execution_info s)) s"
        have "declared t" "ns_executor t \<noteq> None" using assms(3,4) by (simp_all add: t_def)
        from run [OF this fits] obtain r g s' where
          "call_entry_point X f calldata (gas - GAS_CALL_CONTRACT X) t = Some (r, g, s')" "declared s'" by blast
        then show ?thesis using \<open>fmlookup (ns_deployed_contracts s) a = Some c\<close> info Some False
          by (simp add: native_call_contract_def charged_simp open_caller_context_def close_caller_context_def t_def [symmetric])
      qed (use Some info False assms(3) in \<open>simp add: native_call_contract_def charged_simp\<close>)
    qed (use False assms(3) in \<open>simp add: native_call_contract_def charged_simp\<close>)
  qed (use assms(3) in \<open>simp add: native_call_contract_def charged_simp\<close>)
  show "\<exists>r gas' s'. native_deploy X h salt calldata from_zero gas s = Some (r, gas', s') \<and> declared s'"
  proof (cases "gas < GAS_DEPLOY X \<or> fmlookup (ns_contracts_info s) h = None")
    case True
    then show ?thesis using assms(3) by (auto simp: native_deploy_def charged_simp Let_def)
  next
    case False
    then obtain info where info: "fmlookup (ns_contracts_info s) h = Some info" by blast
    have fits: "unat (gas - GAS_DEPLOY X) + unat (nx_entry_point_cost X) < 2 ^ 64"
      using deploy_refund_fits [OF assms(2)] False by (simp add: not_less)
    define deployer where "deployer = (if from_zero then felt_of_int 0 else ei_contract_address (ns_execution_info s))"
    define addr where "addr = deployed_address X deployer salt h calldata"
    define t where "t = s\<lparr>ns_deployed_contracts := fmupd addr h (ns_deployed_contracts s)\<rparr>"
    have t: "declared t" "ns_executor t \<noteq> None" unfolding t_def using declared_deployed assms(3,4) info by auto
    show ?thesis
    proof (cases "fmlookup (ns_deployed_contracts s) addr = None")
      case fresh: True
      show ?thesis
      proof (cases "ci_constructor info")
        case None
        have "declared (t\<lparr>ns_deployed_contracts := fmdrop addr (ns_deployed_contracts t)\<rparr>)"
          using t(1) by (simp add: declared_def)
        then show ?thesis using None fresh False info t(1)
          by (simp add: native_deploy_def charged_simp Let_def deployer_def [symmetric] addr_def [symmetric] t_def [symmetric])
      next
        case (Some f)
        define u where "u = set_context (addr, deployer) t"
        have "declared u" "ns_executor u \<noteq> None" using t by (simp_all add: u_def)
        from run [OF this fits] obtain r g s' where
          "call_entry_point X f calldata (gas - GAS_DEPLOY X) u = Some (r, g, s')" "declared s'" by blast
        then show ?thesis using Some fresh False info
          by (simp add: native_deploy_def charged_simp Let_def deployer_def [symmetric] addr_def [symmetric] t_def [symmetric]
              open_caller_context_def close_caller_context_def u_def [symmetric])
      qed
    next
      case old: False
      then show ?thesis using False info t(1)
        by (simp add: native_deploy_def charged_simp Let_def deployer_def [symmetric] addr_def [symmetric] t_def [symmetric])
    qed
  qed
qed



section \<open>Storage\<close>

text \<open>A slot is named by a contract and a key.\<close>

definition native_slot :: "'x native_stub \<Rightarrow> felt \<times> felt \<Rightarrow> felt" where
  "native_slot s ck = (case fmlookup (contract_storage s (fst ck)) (snd ck) of Some v \<Rightarrow> v | None \<Rightarrow> felt_of_int 0)"

definition native_put :: "'x native_stub \<Rightarrow> felt \<times> felt \<Rightarrow> felt \<Rightarrow> 'x native_stub" where
  "native_put s ck v =
    s\<lparr>ns_storage := fmupd (fst ck) (fmupd (snd ck) v (contract_storage s (fst ck))) (ns_storage s)\<rparr>"

interpretation native_store: keyed_store native_slot native_put "\<lambda>v. v"
  by unfold_locales (auto simp: native_slot_def native_put_def contract_storage_def prod_eq_iff)

text \<open>What a contract does when it writes: the call, with the context of the contract.\<close>

definition write_by :: "'x native_stub \<Rightarrow> felt \<times> felt \<Rightarrow> felt \<Rightarrow> 'x native_stub" where
  "write_by s ck v =
    (case native_storage_write 0 (snd ck) v GAS_STORAGE_WRITE (set_context (fst ck, snd (context_of s)) s) of
      Some (_, _, s') \<Rightarrow> set_context (context_of s) s' | None \<Rightarrow> s)"

lemma set_context_simps [simp]:
  "ns_storage (set_context c s) = ns_storage s"
  "ei_contract_address (ns_execution_info (set_context c s)) = fst c"
  "contract_storage (set_context c s) = contract_storage s"
  by (simp_all add: set_context_def contract_storage_def fun_eq_iff)

lemma set_context_same: "set_context (context_of s) s = s"
  by (simp add: set_context_def context_of_def)

lemma set_context_twice [simp]: "set_context c (set_context d s) = set_context c s"
  by (simp add: set_context_def)

lemma set_context_put: "set_context c (s\<lparr>ns_storage := m\<rparr>) = (set_context c s)\<lparr>ns_storage := m\<rparr>"
  by (simp add: set_context_def)

lemma write_by_put: "write_by s ck v = native_put s ck v"
  by (simp add: write_by_def native_storage_write_def charged_simp Let_def native_put_def set_context_put set_context_same)

lemma native_storage_read_slot:
  "GAS_STORAGE_READ \<le> gas \<Longrightarrow> native_storage_read 0 k gas s =
    Some (Inr (native_slot s (ei_contract_address (ns_execution_info s), k)), gas - GAS_STORAGE_READ, s)"
  by (simp add: native_storage_read_def charged_simp Let_def native_slot_def contract_storage_def not_less split: option.split)

text \<open>
  C23: Storage is one map per contract: after any writes, by any contracts, a contract reads
  under a key the last value it wrote there itself, or what was there before.
\<close>

theorem native_storage_per_contract:
  fixes s :: "'x native_stub"
  assumes "GAS_STORAGE_READ \<le> gas"
  shows "native_storage_read 0 k gas (set_context c (foldl (\<lambda>s (ck, v). write_by s ck v) s ws)) =
    Some (Inr (case map_of (rev ws) (fst c, k) of Some v \<Rightarrow> v | None \<Rightarrow> native_slot s (fst c, k)),
      gas - GAS_STORAGE_READ, set_context c (foldl (\<lambda>s (ck, v). write_by s ck v) s ws))"
proof -
  have "native_slot (set_context c t) = native_slot t" for t :: "'x native_stub" by (simp add: native_slot_def fun_eq_iff)
  moreover have "(write_by :: 'x native_stub \<Rightarrow> _) = native_put" by (simp add: fun_eq_iff write_by_put)
  ultimately show ?thesis
    unfolding native_storage_read_slot [OF assms]
    using native_store.lookup_updates [of s ws "(fst c, k)"] by simp
qed

lemma native_storage_per_contract_witness:
  "\<exists>s'. native_storage_read 0 (felt_of_int 1) GAS_STORAGE_READ (set_context (felt_of_int 3, felt_of_int 0)
      (foldl (\<lambda>s (ck, v). write_by s ck v) toy_stub
        [((felt_of_int 3, felt_of_int 1), felt_of_int 5), ((felt_of_int 4, felt_of_int 1), felt_of_int 6)])) =
    Some (Inr (felt_of_int 5), 0, s')"
  using native_storage_per_contract [of GAS_STORAGE_READ "felt_of_int 1" "(felt_of_int 3, felt_of_int 0)" toy_stub
      "[((felt_of_int 3, felt_of_int 1), felt_of_int 5), ((felt_of_int 4, felt_of_int 1), felt_of_int 6)]"]
  by (simp add: PRIME_def)

section \<open>Keccak\<close>

lemma chunks_blocks: "length xs = n * 17 \<Longrightarrow> chunks xs 17 = map (\<lambda>i. take 17 (drop (i * 17) xs)) [0 ..< n]"
proof (induction n arbitrary: xs)
  case (Suc n)
  have "chunks xs 17 = take 17 xs # chunks (drop 17 xs) 17" using Suc.prems by (subst chunks.simps) auto
  also have "chunks (drop 17 xs) 17 = map (\<lambda>i. take 17 (drop (i * 17) (drop 17 xs))) [0 ..< n]"
    using Suc.prems by (intro Suc.IH) simp
  also have "\<dots> = map (\<lambda>i. take 17 (drop (i * 17) xs)) (map Suc [0 ..< n])" by (simp add: add.commute)
  finally show ?case by (simp add: upt_conv_Cons map_Suc_upt del: upt_Suc)
qed (simp add: chunks.simps)

lemma map_option_bind: "map_option f (Option.bind x g) = Option.bind x (\<lambda>a. map_option f (g a))"
  by (cases x) simp_all

lemma keccak_rounds_agree:
  assumes "nx_f1600 X = pr_f1600 Y"
  shows "native_keccak_rounds X (map (\<lambda>i. take 17 (drop (i * 17) input)) is) st gas = keccak_rounds Y input is st gas"
  using assms by (induction "is" arbitrary: st gas)
    (auto simp: deduct_gas_def GAS_KECCAK_ROUND_def KECCAK_ROUND_COST_def)

text \<open>
  C25: The two handlers, the one of compiled code and the one of the interpreter, compute the
  same Keccak hash for the same gas, on whole blocks and for any gas, also when it runs out.
\<close>

theorem keccak_handlers_agree:
  assumes "nx_f1600 X = pr_f1600 Y" "length input mod 17 = 0"
  shows "map_option (\<lambda>(r, gas', _). (r, gas')) (native_keccak X input gas s) =
    map_option (\<lambda>(r, gas', _). (r, gas')) (stub_keccak Y input gas t)"
proof -
  obtain n where n: "length input = n * 17" using assms(2) by (metis mod_0_imp_dvd dvdE mult.commute)
  then have "length input div 17 = n" by simp
  with keccak_rounds_agree [OF assms(1), of input "[0 ..< n]"] chunks_blocks [OF n] show ?thesis
    using assms(2) by (auto simp: native_keccak_def charged_simp GAS_KECCAK_def stub_keccak_def map_option_bind
        split: prod.split sum.split)
qed

lemma keccak_handlers_agree_witness:
  "map_option (\<lambda>(r, gas', _). (r, gas')) (native_keccak toy_world (replicate 17 1) 200000 toy_stub) =
    map_option (\<lambda>(r, gas', _). (r, gas')) (stub_keccak toy_primitives (replicate 17 1) 200000 stub_default)"
  by (rule keccak_handlers_agree) (simp_all add: toy_world_def)

section \<open>Curves\<close>

lemma join_words:
  "unat (ucast a OR push_bit 64 (ucast b) :: u128) = unat a + 2 ^ 64 * unat b" for a b :: u64
proof -
  have a: "unat a < 2 ^ 64" and b: "unat b < 2 ^ 64" by (rule order_less_le_trans [OF unsigned_less], simp)+
  then have "take_bit 128 (unat a) = unat a" "take_bit 128 (unat b) = unat b" by (simp_all add: take_bit_nat_eq_self_iff)
  then have u: "unat (ucast a :: u128) = unat a" "unat (ucast b :: u128) = unat b" by (simp_all add: unsigned_ucast_eq)
  moreover have "unat (push_bit 64 (ucast b) :: u128) = push_bit 64 (unat b)"
    unfolding unsigned_push_bit_eq u using b by (simp add: push_bit_eq_mult take_bit_nat_eq_self_iff)
  ultimately have "unat (ucast a OR push_bit 64 (ucast b) :: u128) = unat a OR push_bit 64 (unat b)"
    by (simp only: unsigned_or_eq)
  then show ?thesis by (simp only: or_push_bit [OF a])
qed

lemma join_words_nat:
  fixes n p :: nat
  assumes "a + p * n1 = n" "b + p * n2 = n1" "c + p * d = n2" "q = p * p"
  shows "q * (c + p * d) + (a + p * b) = n"
  unfolding assms(4) by (simp add: assms(1-3) [symmetric] algebra_simps)

lemma big4int_roundtrip:
  assumes "n < 2 ^ 256"
  shows "\<exists>u. big4int_to_u256 (big4int n) = Some u \<and> u256_to_biguint u = n"
proof -
  have four: "[0 ..< 4] = [0, 1, 2, 3 :: nat]" by (simp add: upt_rec)
  have word: "unat (of_nat m :: u64) = m mod 2 ^ 64" for m by (simp add: unat_of_nat)
  have top: "n div 2 ^ 192 < 2 ^ 64" using assms by (simp add: div_less_iff_less_mult)
  have divs: "n div 2 ^ 64 div 2 ^ 64 = n div 2 ^ 128" "n div 2 ^ 128 div 2 ^ 64 = n div 2 ^ 192"
    by (simp_all flip: div_mult2_eq)
  have sum: "2 ^ 128 * (n div 2 ^ 128 mod 2 ^ 64 + 2 ^ 64 * (n div 2 ^ 192)) + (n mod 2 ^ 64 + 2 ^ 64 * (n div 2 ^ 64 mod 2 ^ 64)) = n"
    by (rule join_words_nat [OF mod_mult_div_eq [of n "2 ^ 64"] mod_mult_div_eq [of "n div 2 ^ 64" "2 ^ 64", unfolded divs]
      mod_mult_div_eq [of "n div 2 ^ 128" "2 ^ 64", unfolded divs]]) simp
  have "big4int n = map of_nat [n, n div 2 ^ 64, n div 2 ^ 128, n div 2 ^ 192]" by (simp add: big4int_def four)
  then have "\<exists>u. big4int_to_u256 (big4int n) = Some u \<and> u256_to_biguint u =
      2 ^ 128 * (n div 2 ^ 128 mod 2 ^ 64 + 2 ^ 64 * (n div 2 ^ 192 mod 2 ^ 64)) + (n mod 2 ^ 64 + 2 ^ 64 * (n div 2 ^ 64 mod 2 ^ 64))"
    by (simp only: big4int_to_u256_def u256_to_biguint_def list.map list.case Option.bind.bind_lunit prod.case u256.select_convs
        join_words word option.inject ex_simps simp_thms) 
  then show ?thesis unfolding mod_less [OF top] sum .
qed

text \<open>A point the handler may hold: on the curve, in the subgroup, in reduced coordinates.\<close>

definition valid_point :: "ark_curve \<Rightarrow> affine \<Rightarrow> bool" where
  "valid_point C p \<longleftrightarrow> af_x p < ac_base C \<and> af_y p < ac_base C \<and> ac_on_curve C p \<and> ac_in_subgroup C p"

text \<open>
  Documented behaviour of \<open>ark\<close>: the base field has at most 256 bits, the group operations stay
  in the group, the square roots for an \<open>x\<close> give points of the curve, and 0 is the identity.
\<close>

definition ark_ok :: "ark_curve \<Rightarrow> bool" where
  "ark_ok C \<longleftrightarrow>
    1 < ac_base C \<and> ac_base C \<le> 2 ^ 256 \<and> 0 < ac_scalar C \<and> valid_point C affine_identity \<and>
    (\<forall>p q. valid_point C p \<longrightarrow> valid_point C q \<longrightarrow> valid_point C (ac_plus C p q)) \<and>
    (\<forall>p k. valid_point C p \<longrightarrow> k < ac_scalar C \<longrightarrow> valid_point C (ac_times C p k)) \<and>
    (\<forall>x a b. x < ac_base C \<longrightarrow> ac_ys C x = Some (a, b) \<longrightarrow> a < ac_base C \<and> b < ac_base C \<and>
      ac_on_curve C \<lparr>af_x = x, af_y = a, af_infinity = False\<rparr> \<and> ac_on_curve C \<lparr>af_x = x, af_y = b, af_infinity = False\<rparr>)"

lemma ark_okD:
  assumes "ark_ok C"
  shows "1 < ac_base C" "ac_base C \<le> 2 ^ 256" "0 < ac_scalar C"
    "valid_point C p \<Longrightarrow> valid_point C q \<Longrightarrow> valid_point C (ac_plus C p q)"
    "valid_point C p \<Longrightarrow> k < ac_scalar C \<Longrightarrow> valid_point C (ac_times C p k)"
    "x < ac_base C \<Longrightarrow> ac_ys C x = Some (a, b) \<Longrightarrow> a < ac_base C \<and> b < ac_base C \<and>
      ac_on_curve C \<lparr>af_x = x, af_y = a, af_infinity = False\<rparr> \<and> ac_on_curve C \<lparr>af_x = x, af_y = b, af_infinity = False\<rparr>"
  using assms unfolding ark_ok_def by blast+

definition k1_valid :: "ark_curve \<Rightarrow> secp256k1_point \<Rightarrow> bool" where
  "k1_valid C p \<longleftrightarrow> (\<exists>q. valid_point C q \<and> k1_from_affine q = Some p)"

definition r1_valid :: "ark_curve \<Rightarrow> secp256r1_point \<Rightarrow> bool" where
  "r1_valid C p \<longleftrightarrow> (\<exists>q. valid_point C q \<and> r1_from_affine q = Some p)"

lemma from_affine_valid:
  assumes "ark_ok C" "valid_point C q"
  shows "\<exists>p. k1_from_affine q = Some p \<and> k1_valid C p \<and> k1_to_affine C p = q"
    and "\<exists>p. r1_from_affine q = Some p \<and> r1_valid C p \<and> r1_to_affine C p = q"
proof -
  have "af_x q < 2 ^ 256" "af_y q < 2 ^ 256" and lt: "af_x q < ac_base C" "af_y q < ac_base C"
    using assms(2) ark_okD(2) [OF assms(1)] unfolding valid_point_def by linarith+
  then obtain x y where xy: "big4int_to_u256 (big4int (af_x q)) = Some x" "u256_to_biguint x = af_x q"
    "big4int_to_u256 (big4int (af_y q)) = Some y" "u256_to_biguint y = af_y q"
    using big4int_roundtrip by metis
  then show "\<exists>p. k1_from_affine q = Some p \<and> k1_valid C p \<and> k1_to_affine C p = q"
    using lt assms(2) by (auto simp: k1_from_affine_def k1_valid_def k1_to_affine_def affine_of_def)
  show "\<exists>p. r1_from_affine q = Some p \<and> r1_valid C p \<and> r1_to_affine C p = q"
    using xy lt assms(2) by (auto simp: r1_from_affine_def r1_valid_def r1_to_affine_def affine_of_def)
qed

lemma valid_to_affine:
  assumes "ark_ok C"
  shows "k1_valid C p \<Longrightarrow> valid_point C (k1_to_affine C p)" "r1_valid C u \<Longrightarrow> valid_point C (r1_to_affine C u)"
  using from_affine_valid [OF assms] unfolding k1_valid_def r1_valid_def by (metis option.inject)+

text \<open>What a point constructor returns: an error, no point, or a valid one.\<close>

lemma point_new_valid:
  assumes "ark_ok C" "point_new C x y = Inr (Some p)"
  shows "valid_point C p"
proof -
  have "0 < ac_base C" using ark_okD(1) [OF assms(1)] by simp
  then show ?thesis
    using assms(2) by (auto simp: point_new_def maybe_affine_def Let_def valid_point_def affine_identity_def split: if_splits)
qed

lemma point_from_x_valid:
  assumes "ark_ok C" "point_from_x C x parity = Inr (Some p)"
  shows "valid_point C p"
proof -
  define i where "i = u256_to_biguint x mod ac_base C"
  have i: "i < ac_base C" using ark_okD(1) [OF assms(1)] by (simp add: i_def)
  obtain a b where ab: "ac_ys C i = Some (a, b)"
    and p: "p = \<lparr>af_x = i, af_y = if odd a = parity then a else b, af_infinity = False\<rparr>" "ac_in_subgroup C p"
    using assms(2) by (auto simp: point_from_x_def Let_def i_def split: if_splits option.splits)
  from ark_okD(6) [OF assms(1) i ab]
  show ?thesis using i p by (auto simp: valid_point_def)
qed

lemma point_mul_valid: "ark_ok C \<Longrightarrow> valid_point C p \<Longrightarrow> valid_point C (point_mul C p m)"
  unfolding point_mul_def by (intro ark_okD(5)) (simp_all add: ark_okD(3))

lemma point_add_valid: "ark_ok C \<Longrightarrow> valid_point C p \<Longrightarrow> valid_point C q \<Longrightarrow> valid_point C (ac_plus C p q)"
  by (rule ark_okD(4))

text \<open>A call returns an error or a value with a property.\<close>

definition returns :: "('s, 'a) syscall \<Rightarrow> ('a \<Rightarrow> bool) \<Rightarrow> bool" where
  "returns call P \<longleftrightarrow> (\<forall>gas s. \<exists>r gas' s'. call gas s = Some (r, gas', s') \<and> (\<forall>v. r = Inr v \<longrightarrow> P v))"

lemma returns_charged:
  assumes "\<And>gas s. \<exists>r gas' s'. body gas s = Some (r, gas', s') \<and> (\<forall>v. r = Inr v \<longrightarrow> P v)"
  shows "returns (charged price body) P"
  unfolding returns_def
proof (intro allI)
  fix gas s
  show "\<exists>r gas' s'. charged price body gas s = Some (r, gas', s') \<and> (\<forall>v. r = Inr v \<longrightarrow> P v)"
    using assms [of "gas - price" s] by (cases "gas < price") (simp_all add: charged_simp)
qed

lemma k1_calls_valid:
  assumes "ark_ok (nx_k1 X)" "k1_valid (nx_k1 X) p" "k1_valid (nx_k1 X) q"
  shows "returns (native_secp256k1_add X p q) (k1_valid (nx_k1 X))"
    and "returns (native_secp256k1_mul X p m) (k1_valid (nx_k1 X))"
    and "returns (native_secp256k1_new X x y) (\<lambda>r. \<forall>p. r = Some p \<longrightarrow> k1_valid (nx_k1 X) p)"
    and "returns (native_secp256k1_get_point_from_x X x parity) (\<lambda>r. \<forall>p. r = Some p \<longrightarrow> k1_valid (nx_k1 X) p)"
proof -
  note conv = from_affine_valid(1) [OF assms(1)]
  note pq = valid_to_affine(1) [OF assms(1) assms(2)] valid_to_affine(1) [OF assms(1) assms(3)]
  obtain r where "k1_from_affine (ac_plus (nx_k1 X) (k1_to_affine (nx_k1 X) p) (k1_to_affine (nx_k1 X) q)) = Some r" "k1_valid (nx_k1 X) r"
    using conv [OF point_add_valid [OF assms(1) pq]] by blast
  then show "returns (native_secp256k1_add X p q) (k1_valid (nx_k1 X))"
    unfolding native_secp256k1_add_def by (intro returns_charged) simp
  obtain r where "k1_from_affine (point_mul (nx_k1 X) (k1_to_affine (nx_k1 X) p) m) = Some r" "k1_valid (nx_k1 X) r"
    using conv [OF point_mul_valid [OF assms(1) pq(1)]] by blast
  then show "returns (native_secp256k1_mul X p m) (k1_valid (nx_k1 X))"
    unfolding native_secp256k1_mul_def by (intro returns_charged) simp
  have new: "\<exists>r. k1_from_affine p = Some r \<and> k1_valid (nx_k1 X) r" if "point_new (nx_k1 X) x y = Inr (Some p)" for p
    using conv [OF point_new_valid [OF assms(1) that]] by blast
  show "returns (native_secp256k1_new X x y) (\<lambda>r. \<forall>p. r = Some p \<longrightarrow> k1_valid (nx_k1 X) p)"
    unfolding native_secp256k1_new_def using new
    by (intro returns_charged) (fastforce split: sum.split option.split)
  have ys: "\<exists>r. k1_from_affine p = Some r \<and> k1_valid (nx_k1 X) r" if "point_from_x (nx_k1 X) x parity = Inr (Some p)" for p
    using conv [OF point_from_x_valid [OF assms(1) that]] by blast
  show "returns (native_secp256k1_get_point_from_x X x parity) (\<lambda>r. \<forall>p. r = Some p \<longrightarrow> k1_valid (nx_k1 X) p)"
    unfolding native_secp256k1_get_point_from_x_def using ys
    by (intro returns_charged) (fastforce split: sum.split option.split)
qed

lemma r1_calls_valid:
  assumes "ark_ok (nx_r1 X)" "r1_valid (nx_r1 X) p" "r1_valid (nx_r1 X) q"
  shows "returns (native_secp256r1_add X p q) (r1_valid (nx_r1 X))"
    and "returns (native_secp256r1_mul X p m) (r1_valid (nx_r1 X))"
    and "returns (native_secp256r1_new X x y) (\<lambda>r. \<forall>p. r = Some p \<longrightarrow> r1_valid (nx_r1 X) p)"
    and "returns (native_secp256r1_get_point_from_x X x parity) (\<lambda>r. \<forall>p. r = Some p \<longrightarrow> r1_valid (nx_r1 X) p)"
proof -
  note conv = from_affine_valid(2) [OF assms(1)]
  note pq = valid_to_affine(2) [OF assms(1) assms(2)] valid_to_affine(2) [OF assms(1) assms(3)]
  obtain r where "r1_from_affine (ac_plus (nx_r1 X) (r1_to_affine (nx_r1 X) p) (r1_to_affine (nx_r1 X) q)) = Some r" "r1_valid (nx_r1 X) r"
    using conv [OF point_add_valid [OF assms(1) pq]] by blast
  then show "returns (native_secp256r1_add X p q) (r1_valid (nx_r1 X))"
    unfolding native_secp256r1_add_def by (intro returns_charged) simp
  obtain r where "r1_from_affine (point_mul (nx_r1 X) (r1_to_affine (nx_r1 X) p) m) = Some r" "r1_valid (nx_r1 X) r"
    using conv [OF point_mul_valid [OF assms(1) pq(1)]] by blast
  then show "returns (native_secp256r1_mul X p m) (r1_valid (nx_r1 X))"
    unfolding native_secp256r1_mul_def by (intro returns_charged) simp
  have new: "\<exists>r. r1_from_affine p = Some r \<and> r1_valid (nx_r1 X) r" if "point_new (nx_r1 X) x y = Inr (Some p)" for p
    using conv [OF point_new_valid [OF assms(1) that]] by blast
  show "returns (native_secp256r1_new X x y) (\<lambda>r. \<forall>p. r = Some p \<longrightarrow> r1_valid (nx_r1 X) p)"
    unfolding native_secp256r1_new_def using new
    by (intro returns_charged) (fastforce split: sum.split option.split)
  have ys: "\<exists>r. r1_from_affine p = Some r \<and> r1_valid (nx_r1 X) r" if "point_from_x (nx_r1 X) x parity = Inr (Some p)" for p
    using conv [OF point_from_x_valid [OF assms(1) that]] by blast
  show "returns (native_secp256r1_get_point_from_x X x parity) (\<lambda>r. \<forall>p. r = Some p \<longrightarrow> r1_valid (nx_r1 X) p)"
    unfolding native_secp256r1_get_point_from_x_def using ys
    by (intro returns_charged) (fastforce split: sum.split option.split)
qed

text \<open>
  C24: Curve points stay valid. From points of the curve in reduced form, the identity among
  them, no call of the handler panics, whatever the gas and the other arguments, and every
  point it returns is one again; this holds for both curves.
\<close>

theorem native_secp_closed:
  assumes "ark_ok (nx_k1 X)" "k1_valid (nx_k1 X) p" "k1_valid (nx_k1 X) q"
    and "ark_ok (nx_r1 X)" "r1_valid (nx_r1 X) u" "r1_valid (nx_r1 X) v"
  shows "returns (native_secp256k1_add X p q) (k1_valid (nx_k1 X)) \<and>
    returns (native_secp256k1_mul X p m) (k1_valid (nx_k1 X)) \<and>
    returns (native_secp256k1_new X x y) (\<lambda>r. \<forall>p. r = Some p \<longrightarrow> k1_valid (nx_k1 X) p) \<and>
    returns (native_secp256k1_get_point_from_x X x parity) (\<lambda>r. \<forall>p. r = Some p \<longrightarrow> k1_valid (nx_k1 X) p) \<and>
    returns (native_secp256r1_add X u v) (r1_valid (nx_r1 X)) \<and>
    returns (native_secp256r1_mul X u m) (r1_valid (nx_r1 X)) \<and>
    returns (native_secp256r1_new X x y) (\<lambda>r. \<forall>p. r = Some p \<longrightarrow> r1_valid (nx_r1 X) p) \<and>
    returns (native_secp256r1_get_point_from_x X x parity) (\<lambda>r. \<forall>p. r = Some p \<longrightarrow> r1_valid (nx_r1 X) p)"
  using k1_calls_valid [OF assms(1-3)] r1_calls_valid [OF assms(4-6)] by blast

lemma native_secp_closed_witness:
  "\<exists>p u. k1_from_affine affine_identity = Some p \<and> returns (native_secp256k1_add toy_world p p) (k1_valid toy_ark) \<and>
    r1_from_affine affine_identity = Some u \<and> returns (native_secp256r1_mul toy_world u \<lparr>u256_lo = 5, u256_hi = 0\<rparr>) (r1_valid toy_ark)"
proof -
  have ok: "ark_ok toy_ark"
    by (auto simp: ark_ok_def toy_ark_def valid_point_def affine_identity_def)
  then have "valid_point toy_ark affine_identity" unfolding ark_ok_def by blast
  then obtain p u where pu: "k1_from_affine affine_identity = Some p" "k1_valid toy_ark p"
    "r1_from_affine affine_identity = Some u" "r1_valid toy_ark u"
    using from_affine_valid [OF ok] by blast
  have "nx_k1 toy_world = toy_ark" "nx_r1 toy_world = toy_ark" by (simp_all add: toy_world_def)
  with native_secp_closed [where X = toy_world and p = p and q = p and u = u and v = u] ok pu show ?thesis by auto
qed

end
