(* ===== verification/ValueMemory.thy ===== *)
theory ValueMemory
  imports NativeValues
begin

text \<open>
  How reading a value depends on memory: \<open>from_ptr\<close> gives the same value with more stack, in a
  memory that has more cells, and at another address to which the bytes of the value's layout
  were copied. The last is what makes the inline representation of a type meaningful.
\<close>

section \<open>Memories compared\<close>

definition inline :: "heap \<Rightarrow> nat \<Rightarrow> heap \<Rightarrow> nat \<Rightarrow> nat \<Rightarrow> bool" where
  "inline h p h' q n \<longleftrightarrow> (\<forall>i < n. \<forall>c. hp_mem h (p + i) = Some c \<longrightarrow> hp_mem h' (q + i) = Some c)"

definition below :: "heap \<Rightarrow> heap \<Rightarrow> bool" where
  "below h h' \<longleftrightarrow> (\<forall>a c. hp_mem h a = Some c \<longrightarrow> hp_mem h' a = Some c) \<and>
    (\<forall>d x. hp_dicts h d = Some x \<longrightarrow> hp_dicts h' d = Some x)"

lemma below_refl [simp]: "below h h"
  by (simp add: below_def)

lemma below_trans: "below h h1 \<Longrightarrow> below h1 h2 \<Longrightarrow> below h h2"
  by (auto simp: below_def)

lemma below_inline: "below h h' \<Longrightarrow> inline h p h' p n"
  by (simp add: below_def inline_def)

lemma inline_part: "inline h p h' q n \<Longrightarrow> off + m \<le> n \<Longrightarrow> inline h (p + off) h' (q + off) m"
  by (auto simp: inline_def add.assoc)

lemma inline_less: "inline h p h' q n \<Longrightarrow> m \<le> n \<Longrightarrow> inline h p h' q m"
  by (auto simp: inline_def)

lemma read_cells_Ok:
  "read_cells h p n = Ok cs \<longleftrightarrow> length cs = n \<and> (\<forall>i < n. hp_mem h (p + i) = Some (cs ! i))"
proof -
  have "read_cells h p n = Ok cs \<longleftrightarrow> map_opt (\<lambda>i. hp_mem h (p + i)) [0 ..< n] = Some cs"
    by (simp add: read_cells_def split: option.splits)
  then show ?thesis by (auto simp: map_opt_Some list_all2_conv_all_nth)
qed

lemma read_cells_inline: "read_cells h p n = Ok cs \<Longrightarrow> inline h p h' q n \<Longrightarrow> read_cells h' q n = Ok cs"
  by (simp add: read_cells_Ok inline_def)

lemma read_bytes_inline: "read_bytes h p n = Ok bs \<Longrightarrow> inline h p h' q n \<Longrightarrow> read_bytes h' q n = Ok bs"
  by (auto simp: read_bytes_def dest: read_cells_inline)

lemma read_uint_inline: "read_uint h p n = Ok x \<Longrightarrow> inline h p h' q n \<Longrightarrow> read_uint h' q n = Ok x"
  by (auto simp: read_uint_def dest: read_bytes_inline)

lemma read_ptr_inline: "read_ptr h p = Ok x \<Longrightarrow> inline h p h' q 8 \<Longrightarrow> read_ptr h' q = Ok x"
  by (auto simp: read_ptr_def dest: read_cells_inline)

lemma read_felt_inline: "read_felt h p = Ok x \<Longrightarrow> inline h p h' q 32 \<Longrightarrow> read_felt h' q = Ok x"
  by (auto simp: read_felt_def dest: read_bytes_inline)

lemma nonnull_Ok [simp]: "nonnull p = Ok q \<longleftrightarrow> p \<noteq> 0 \<and> q = p"
  by (auto simp: nonnull_def)

section \<open>The parts of a struct\<close>

text \<open>The members of a struct with their layouts and offsets, after a prefix of layout \<open>acc\<close>.\<close>

fun spans ::
  "registry \<Rightarrow> layout option \<Rightarrow> type_id list \<Rightarrow> ((type_id \<times> layout \<times> nat) list \<times> layout option) res" where
  "spans R acc [] = Ok ([], acc)"
| "spans R acc (m # ms) =
    and_then (registry_get R m) (\<lambda>ty.
    and_then (ty_layout R ty) (\<lambda>L.
    and_then (struct_step acc L) (\<lambda>(N, off).
    and_then (spans R (Some N) ms) (\<lambda>(ss, acc). Ok ((m, L, off) # ss, acc)))))"

fun chain :: "nat \<Rightarrow> (type_id \<times> layout \<times> nat) list \<Rightarrow> nat \<Rightarrow> bool" where
  "chain lo [] hi \<longleftrightarrow> lo \<le> hi"
| "chain lo ((m, L, off) # ss) hi \<longleftrightarrow> lo \<le> off \<and> chain (off + lsize L) ss hi"

definition acc_size :: "layout option \<Rightarrow> nat" where
  "acc_size acc = (case acc of Some L \<Rightarrow> lsize L | None \<Rightarrow> 0)"

lemma chain_le: "chain lo ss hi \<Longrightarrow> lo \<le> hi"
  by (induction lo ss hi rule: chain.induct) auto

lemma chain_mem: "chain lo ss hi \<Longrightarrow> (m, L, off) \<in> set ss \<Longrightarrow> off + lsize L \<le> hi"
  by (induction lo ss hi rule: chain.induct) (auto dest: chain_le)

lemma chain_more: "chain lo ss hi \<Longrightarrow> hi \<le> hi' \<Longrightarrow> chain lo ss hi'"
  by (induction lo ss hi rule: chain.induct) auto

lemma struct_step_Ok:
  assumes "struct_step acc L = Ok (N, off)" "\<And>A. acc = Some A \<Longrightarrow> align_ok A" "align_ok L"
  shows "acc_size acc \<le> off" "lsize N = off + lsize L" "align_ok N"
proof -
  have "acc_size acc \<le> off \<and> lsize N = off + lsize L \<and> align_ok N"
  proof (cases acc)
    case (Some A)
    with assms have "layout_extend A L = Ok (N, off)" by (simp add: struct_step_def)
    from layout_extend_Ok [OF this assms(2) [OF Some] assms(3)] Some show ?thesis
      by (simp add: acc_size_def wf_align)
  qed (use assms in \<open>auto simp: struct_step_def acc_size_def\<close>)
  then show "acc_size acc \<le> off" "lsize N = off + lsize L" "align_ok N" by blast+
qed

lemma spans_chain:
  "spans R acc ms = Ok (ss, acc') \<Longrightarrow> (\<And>A. acc = Some A \<Longrightarrow> align_ok A) \<Longrightarrow>
    chain (acc_size acc) ss (acc_size acc')"
proof (induction R acc ms arbitrary: ss rule: spans.induct)
  case (2 R acc m ms)
  from "2.prems"(1) obtain ty L N off ss' where
    s: "get_type R m = Some ty" "ty_layout R ty = Ok L" "struct_step acc L = Ok (N, off)"
      "spans R (Some N) ms = Ok (ss', acc')" "ss = (m, L, off) # ss'"
    by auto
  note st = struct_step_Ok [OF s(3) "2.prems"(2) ty_layout_wf(2) [OF s(2)]]
  have "chain (acc_size (Some N)) ss' (acc_size acc')"
    by (rule "2.IH") (use s st(3) in simp_all)
  then show ?case using s(5) st by (simp add: acc_size_def)
qed simp

lemma spans_fold:
  "try_fold (\<lambda>acc id. and_then (registry_get R id) (\<lambda>ty. and_then (ty_layout R ty) (\<lambda>L.
      and_then (struct_step acc L) (\<lambda>(N, _). Ok (Some N))))) acc ms = Ok acc' \<longleftrightarrow>
    (\<exists>ss. spans R acc ms = Ok (ss, acc'))"
  by (induction R acc ms rule: spans.induct) (auto split: prod.splits)

lemma spans_member:
  "spans R acc ms = Ok (ss, acc') \<Longrightarrow> (m, L, off) \<in> set ss \<Longrightarrow>
    \<exists>ty. get_type R m = Some ty \<and> ty_layout R ty = Ok L"
  by (induction R acc ms arbitrary: ss rule: spans.induct) auto

lemma struct_layout:
  assumes "ty_layout R (StructT ms) = Ok L"
  obtains ss acc where "spans R None ms = Ok (ss, acc)" "chain 0 ss (lsize L)"
    "L = pad_to_align (case acc of Some L \<Rightarrow> L | None \<Rightarrow> unit_layout)"
proof -
  obtain acc where acc: "L = pad_to_align (case acc of Some L \<Rightarrow> L | None \<Rightarrow> unit_layout)"
    "try_fold (\<lambda>acc id. and_then (registry_get R id) (\<lambda>ty. and_then (ty_layout R ty) (\<lambda>L.
      and_then (struct_step acc L) (\<lambda>(N, _). Ok (Some N))))) None ms = Ok acc"
    using ty_layout_body [OF assms] by (auto simp: layout_body_def)
  then obtain ss where ss: "spans R None ms = Ok (ss, acc)" by (auto simp: spans_fold)
  have "acc_size acc \<le> lsize L"
    using acc(1) round_up_le [of "lalign L"] ty_layout_wf(1) [OF assms, THEN wf_pos]
    by (auto simp: acc_size_def pad_to_align_def split: option.splits)
  then have "chain 0 ss (lsize L)"
    using spans_chain [OF ss] chain_more by (simp add: acc_size_def)
  with that ss acc(1) show ?thesis by blast
qed

section \<open>What a successful read means\<close>

definition held :: "(nat \<Rightarrow> nval res) \<Rightarrow> nat \<Rightarrow> nval \<Rightarrow> bool" where
  "held r q v \<longleftrightarrow> q \<noteq> 0 \<and> r q = Ok v"

lemma held_step: "and_then (nonnull q) (\<lambda>p. and_then (r p) f) = Ok x \<longleftrightarrow> (\<exists>v. held r q v \<and> f v = Ok x)"
  by (auto simp: held_def)

lemma read_elems_Ok:
  "read_elems r stride d is = Ok vs \<longleftrightarrow> list_all2 (\<lambda>i v. held r (d + stride * i) v) is vs"
  by (induction "is" arbitrary: vs) (auto simp: list_all2_Cons1 held_def)

lemma read_members_Ok:
  "read_members R r p acc ms = Ok vs \<longleftrightarrow>
    (\<exists>ss acc'. spans R acc ms = Ok (ss, acc') \<and>
      list_all2 (\<lambda>(m, L, off) v. held (r m) (p + off) v) ss vs)"
proof (induction R acc ms arbitrary: vs rule: spans.induct)
  case (2 R acc m ms)
  show ?case
  proof
    assume "read_members R r p acc (m # ms) = Ok vs"
    then obtain ty L N off v vs' where
      "get_type R m = Some ty" "ty_layout R ty = Ok L" "struct_step acc L = Ok (N, off)"
      "held (r m) (p + off) v" "read_members R r p (Some N) ms = Ok vs'" "vs = v # vs'"
      by (auto simp: held_def)
    with "2.IH" [of ty L "(N, off)" N off vs'] show "\<exists>ss acc'. spans R acc (m # ms) = Ok (ss, acc') \<and>
      list_all2 (\<lambda>(m, L, off) v. held (r m) (p + off) v) ss vs"
      by auto
  next
    assume "\<exists>ss acc'. spans R acc (m # ms) = Ok (ss, acc') \<and>
      list_all2 (\<lambda>(m, L, off) v. held (r m) (p + off) v) ss vs"
    then obtain ty L N off ss acc' v vs' where
      "get_type R m = Some ty" "ty_layout R ty = Ok L" "struct_step acc L = Ok (N, off)"
      "held (r m) (p + off) v" "spans R (Some N) ms = Ok (ss, acc')" "vs = v # vs'"
      "list_all2 (\<lambda>(m, L, off) v. held (r m) (p + off) v) ss vs'"
      by (auto simp: list_all2_Cons1)
    with "2.IH" [of ty L "(N, off)" N off vs'] show "read_members R r p acc (m # ms) = Ok vs"
      by (auto simp: held_def)
  qed
qed auto

lemma array_extend:
  "layout_extend ptr_layout (get_integer_layout 32) = Ok (\<lparr>lsize = 12, lalign = 8\<rparr>, 8)"
  "layout_extend \<lparr>lsize = 12, lalign = 8\<rparr> (get_integer_layout 32) = Ok (\<lparr>lsize = 16, lalign = 8\<rparr>, 12)"
  "layout_extend \<lparr>lsize = 16, lalign = 8\<rparr> (get_integer_layout 32) = Ok (\<lparr>lsize = 20, lalign = 8\<rparr>, 16)"
  by (simp_all add: layout_extend_def ptr_layout_def get_integer_layout_def round_up_def
      from_size_align_def pow2_small Let_def)

lemma read_array_Ok:
  "read_array R r h p e = Ok v \<longleftrightarrow>
    (\<exists>ty L start fin d. get_type R e = Some ty \<and> ty_layout R ty = Ok L \<and>
      read_uint h (p + 8) 4 = Ok start \<and> read_uint h (p + 12) 4 = Ok fin \<and> read_ptr h p = Ok d \<and>
      (if d = 0 then v = NArray []
       else start \<le> fin \<and> (\<exists>vs. v = NArray vs \<and>
         list_all2 (\<lambda>i w. held (r e) (d + lsize (pad_to_align L) * i) w) [start ..< fin] vs)))"
  by (auto simp: read_array_def array_extend read_elems_Ok split: if_splits)

lemma read_entries_Ok:
  "read_entries r d kis out = Ok m \<longleftrightarrow>
    (\<exists>vs. list_all2 (\<lambda>(k, i) v. held r (fd_elements d + lsize (pad_to_align (fd_layout d)) * i) v) kis vs \<and>
      m = foldl (\<lambda>m (k, v). fmupd k v m) out (zip (map fst kis) vs))"
proof (induction kis arbitrary: out)
  case (Cons ki kis)
  obtain k i where ki: "ki = (k, i)" by (cases ki)
  let ?a = "\<lambda>i. fd_elements d + lsize (pad_to_align (fd_layout d)) * i"
  show ?case
  proof
    assume "read_entries r d (ki # kis) out = Ok m"
    then obtain v where "held r (?a i) v" "read_entries r d kis (fmupd k v out) = Ok m"
      unfolding ki read_entries.simps held_step by blast
    then obtain vs where "list_all2 (\<lambda>(k, i) v. held r (?a i) v) kis vs"
      "m = foldl (\<lambda>m (k, v). fmupd k v m) (fmupd k v out) (zip (map fst kis) vs)"
      using Cons.IH by blast
    with \<open>held r (?a i) v\<close> show "\<exists>vs. list_all2 (\<lambda>(k, i) v. held r (?a i) v) (ki # kis) vs \<and>
      m = foldl (\<lambda>m (k, v). fmupd k v m) out (zip (map fst (ki # kis)) vs)"
      by (intro exI [of _ "v # vs"]) (simp add: ki)
  next
    assume "\<exists>vs. list_all2 (\<lambda>(k, i) v. held r (?a i) v) (ki # kis) vs \<and>
      m = foldl (\<lambda>m (k, v). fmupd k v m) out (zip (map fst (ki # kis)) vs)"
    then obtain v vs where "held r (?a i) v" "list_all2 (\<lambda>(k, i) v. held r (?a i) v) kis vs"
      "m = foldl (\<lambda>m (k, v). fmupd k v m) (fmupd k v out) (zip (map fst kis) vs)"
      by (auto simp: ki list_all2_Cons1)
    then have "held r (?a i) v" "read_entries r d kis (fmupd k v out) = Ok m"
      using Cons.IH by blast+
    then show "read_entries r d (ki # kis) out = Ok m"
      unfolding ki read_entries.simps held_step by blast
  qed
qed auto

definition enum_tag :: "heap \<Rightarrow> nat \<Rightarrow> layout \<Rightarrow> type_id list \<Rightarrow> nat res" where
  "enum_tag h p tag_layout variants =
    (case variants of
      [] \<Rightarrow> Err NativeAssertion
    | [_] \<Rightarrow> Ok 0
    | _ \<Rightarrow>
        if lsize tag_layout \<in> {1, 2, 4, 8} then read_uint h p (lsize tag_layout)
        else Err NativeAssertion)"

definition enum_index :: "type_id list \<Rightarrow> nat \<Rightarrow> nat" where
  "enum_index variants raw = raw AND (next_power_of_two (length variants) - 1)"

lemma read_enum_Ok:
  "read_enum R r h p variants = Ok v \<longleftrightarrow>
    (\<exists>L tag Ls raw N off w. get_layout_for_variants R variants = Ok (L, tag, Ls) \<and>
      enum_tag h p tag variants = Ok raw \<and> enum_index variants raw < length variants \<and>
      layout_extend tag (Ls ! enum_index variants raw) = Ok (N, off) \<and>
      held (r (variants ! enum_index variants raw)) (p + off) w \<and>
      v = NEnum (enum_index variants raw) w)"
  unfolding read_enum_def enum_tag_def [symmetric] enum_index_def [symmetric] Let_def
proof (intro iffI)
  assume "\<exists>L tag Ls raw N off w. get_layout_for_variants R variants = Ok (L, tag, Ls) \<and>
      enum_tag h p tag variants = Ok raw \<and> enum_index variants raw < length variants \<and>
      layout_extend tag (Ls ! enum_index variants raw) = Ok (N, off) \<and>
      held (r (variants ! enum_index variants raw)) (p + off) w \<and>
      v = NEnum (enum_index variants raw) w"
  then show "and_then (get_layout_for_variants R variants) (\<lambda>(_, tag_layout, variant_layouts).
      and_then (enum_tag h p tag_layout variants) (\<lambda>raw.
      if length variants \<le> enum_index variants raw then Panic
      else and_then (layout_extend tag_layout (variant_layouts ! enum_index variants raw)) (\<lambda>(_, off).
        and_then (nonnull (p + off)) (\<lambda>q. and_then (r (variants ! enum_index variants raw) q)
          (\<lambda>payload. Ok (NEnum (enum_index variants raw) payload)))))) = Ok v"
    by (auto simp: held_def nonnull_def simp del: and_then_Ok)
qed (auto simp: held_def split: if_splits)

lemma enum_tag_inline:
  "enum_tag h p tag variants = Ok raw \<Longrightarrow> inline h p h' q (lsize tag) \<Longrightarrow> enum_tag h' q tag variants = Ok raw"
  by (auto simp: enum_tag_def dest: read_uint_inline split: list.splits if_splits)

definition dict_entries :: "felt_dict \<Rightarrow> (felt \<times> nat) list" where
  "dict_entries d = map (\<lambda>k. (k, the (fmlookup (fd_mappings d) k))) (sorted_list_of_fset (fmdom (fd_mappings d)))"

lemma read_dict_Ok:
  "read_dict r h p e = Ok v \<longleftrightarrow>
    (\<exists>q d m. read_ptr h p = Ok q \<and> hp_dicts h q = Some d \<and>
      read_entries (r e) d (dict_entries d) fmempty = Ok m \<and> v = NFelt252Dict m)"
  by (auto simp: read_dict_def dict_entries_def split: option.splits)

lemma read_int_range_Ok:
  "read_int_range R r p e = Ok v \<longleftrightarrow>
    (\<exists>ty L S off x y. get_type R e = Some ty \<and> ty_layout R ty = Ok L \<and> layout_extend L L = Ok (S, off) \<and>
      held (r e) p x \<and> held (r e) (p + off) y \<and> v = NIntRange x y)"
  by (auto simp: read_int_range_def held_def)

lemma read_ec_state_inline: "read_ec_state E h p = Ok v \<Longrightarrow> inline h p h' q 96 \<Longrightarrow> read_ec_state E h' q = Ok v"
  using inline_part [of h p h' q 96 0 32] inline_part [of h p h' q 96 32 32] inline_part [of h p h' q 96 64 32]
  by (auto simp: read_ec_state_def dest: read_felt_inline)

lemma read_u128_inline: "read_u128 h p = Ok v \<Longrightarrow> inline h p h' q 16 \<Longrightarrow> read_u128 h' q = Ok v"
  by (auto simp: read_u128_def dest: read_uint_inline)

lemma read_u256_inline: "read_u256 h p = Ok v \<Longrightarrow> inline h p h' q 32 \<Longrightarrow> read_u256 h' q = Ok v"
  using inline_part [of h p h' q 32 0 16] inline_part [of h p h' q 32 16 16]
  by (auto simp: read_u256_def dest: read_u128_inline)

lemma read_bool_inline: "read_bool h p = Ok v \<Longrightarrow> inline h p h' q (Suc 0) \<Longrightarrow> read_bool h' q = Ok v"
  by (auto simp: read_bool_def dest: read_uint_inline split: if_splits)

lemma read_secp_inline: "read_secp c h p = Ok v \<Longrightarrow> inline h p h' q 65 \<Longrightarrow> read_secp c h' q = Ok v"
  using inline_part [of h p h' q 65 0 32] inline_part [of h p h' q 65 32 32] inline_part [of h p h' q 65 64 1]
  by (auto simp: read_secp_def dest: read_u256_inline read_bool_inline)

lemma read_starknet_inline:
  "read_starknet h p st = Ok v \<Longrightarrow> starknet_layout st = Ok M \<Longrightarrow> inline h p h' q (lsize M) \<Longrightarrow>
    read_starknet h' q st = Ok v"
  by (cases st) (auto simp: read_starknet_def starknet_layout_def get_integer_layout_def layout_extend_def
      round_up_def from_size_align_Ok Let_def dest: read_felt_inline read_secp_inline)

lemma read_bounded_inline:
  "read_bounded h p r = Ok v \<Longrightarrow> inline h p h' q (lsize (get_integer_layout (repr_bit_width r))) \<Longrightarrow>
    read_bounded h' q r = Ok v"
proof -
  let ?w = "repr_bit_width r"
  have "(?w + 7) div 8 * 8 div 8 \<le> lsize (get_integer_layout ?w)"
    using integer_layout_bits [of ?w] by simp
  then show "read_bounded h p r = Ok v \<Longrightarrow> inline h p h' q (lsize (get_integer_layout ?w)) \<Longrightarrow> read_bounded h' q r = Ok v"
    by (auto simp: read_bounded_def dest: inline_less read_uint_inline)
qed

section \<open>Reading elsewhere\<close>

lemma held_all:
  "list_all2 (\<lambda>x. held r (f x)) xs vs \<Longrightarrow> (\<And>a w. held r a w \<Longrightarrow> held r' a w) \<Longrightarrow>
    list_all2 (\<lambda>x. held r' (f x)) xs vs"
  by (rule list_all2_mono)

lemma read_array_move:
  "read_array R r h p e = Ok v \<Longrightarrow> inline h p h' q 16 \<Longrightarrow>
    (\<And>a w. held (r e) a w \<Longrightarrow> held (r' e) a w) \<Longrightarrow> read_array R r' h' q e = Ok v"
proof -
  assume a: "read_array R r h p e = Ok v" "inline h p h' q 16"
    and r: "\<And>a w. held (r e) a w \<Longrightarrow> held (r' e) a w"
  obtain ty L start fin d where x: "get_type R e = Some ty" "ty_layout R ty = Ok L"
    "read_uint h (p + 8) 4 = Ok start" "read_uint h (p + 12) 4 = Ok fin" "read_ptr h p = Ok d"
    "if d = 0 then v = NArray []
       else start \<le> fin \<and> (\<exists>vs. v = NArray vs \<and>
         list_all2 (\<lambda>i w. held (r e) (d + lsize (pad_to_align L) * i) w) [start ..< fin] vs)"
    using a(1) unfolding read_array_Ok by blast
  have "read_uint h' (q + 8) 4 = Ok start" "read_uint h' (q + 12) 4 = Ok fin" "read_ptr h' q = Ok d"
    using x(3-5) a(2) inline_part [OF a(2), of 8 4] inline_part [OF a(2), of 12 4] inline_less [OF a(2), of 8]
    by (auto dest: read_uint_inline read_ptr_inline)
  moreover have "if d = 0 then v = NArray []
       else start \<le> fin \<and> (\<exists>vs. v = NArray vs \<and>
         list_all2 (\<lambda>i w. held (r' e) (d + lsize (pad_to_align L) * i) w) [start ..< fin] vs)"
    using x(6) held_all [OF _ r] by (auto split: if_splits)
  ultimately show ?thesis using x(1,2) unfolding read_array_Ok by blast
qed

lemma read_members_move:
  assumes "read_members R r p acc ms = Ok vs"
    and "\<And>ss acc' m L off w. spans R acc ms = Ok (ss, acc') \<Longrightarrow> (m, L, off) \<in> set ss \<Longrightarrow>
      held (r m) (p + off) w \<Longrightarrow> held (r' m) (q + off) w"
  shows "read_members R r' q acc ms = Ok vs"
proof -
  obtain ss acc' where ss: "spans R acc ms = Ok (ss, acc')"
    "list_all2 (\<lambda>(m, L, off) v. held (r m) (p + off) v) ss vs"
    using assms(1) by (auto simp: read_members_Ok)
  have "list_all2 (\<lambda>(m, L, off) v. held (r' m) (q + off) v) ss vs"
    using ss(2) by (rule list.rel_mono_strong) (use assms(2) [OF ss(1)] in auto)
  with ss(1) show ?thesis by (auto simp: read_members_Ok)
qed

lemma read_enum_move:
  assumes "read_enum R r h p variants = Ok v"
    and "\<And>L tag Ls. get_layout_for_variants R variants = Ok (L, tag, Ls) \<Longrightarrow> inline h p h' q (lsize tag)"
    and "\<And>L tag Ls i N off w. get_layout_for_variants R variants = Ok (L, tag, Ls) \<Longrightarrow> i < length variants \<Longrightarrow>
      layout_extend tag (Ls ! i) = Ok (N, off) \<Longrightarrow> held (r (variants ! i)) (p + off) w \<Longrightarrow>
      held (r' (variants ! i)) (q + off) w"
  shows "read_enum R r' h' q variants = Ok v"
  using assms(1) enum_tag_inline [OF _ assms(2)] assms(3) unfolding read_enum_Ok by blast

lemma read_entries_move:
  "read_entries r d kis out = Ok m \<Longrightarrow> (\<And>a w. held r a w \<Longrightarrow> held r' a w) \<Longrightarrow> read_entries r' d kis out = Ok m"
  unfolding read_entries_Ok case_prod_beta
  using held_all [of r "\<lambda>x. fd_elements d + lsize (pad_to_align (fd_layout d)) * snd x" kis _ r'] by blast

lemma read_dict_move:
  "read_dict r h p e = Ok v \<Longrightarrow> inline h p h' q 8 \<Longrightarrow> below h h' \<Longrightarrow>
    (\<And>a w. held (r e) a w \<Longrightarrow> held (r' e) a w) \<Longrightarrow> read_dict r' h' q e = Ok v"
  unfolding read_dict_Ok below_def by (blast dest: read_ptr_inline read_entries_move)

lemma read_int_range_move:
  assumes "read_int_range R r p e = Ok v"
    and "\<And>ty L S off w. get_type R e = Some ty \<Longrightarrow> ty_layout R ty = Ok L \<Longrightarrow> layout_extend L L = Ok (S, off) \<Longrightarrow>
      (held (r e) p w \<longrightarrow> held (r' e) q w) \<and> (held (r e) (p + off) w \<longrightarrow> held (r' e) (q + off) w)"
  shows "read_int_range R r' q e = Ok v"
  using assms unfolding read_int_range_Ok by blast

text \<open>More stack and more memory change nothing.\<close>

lemmas read_below =
  read_felt_inline [OF _ below_inline] read_uint_inline [OF _ below_inline] read_bytes_inline [OF _ below_inline]
  read_ec_state_inline [OF _ below_inline] read_bounded_inline [OF _ below_inline]

lemma read_starknet_below: "read_starknet h p st = Ok v \<Longrightarrow> below h h' \<Longrightarrow> read_starknet h' p st = Ok v"
  by (cases st) (auto simp: read_starknet_def dest: read_below read_secp_inline [OF _ below_inline])

lemma from_ptr_grow:
  "from_ptr_fuel n R E h t p = Ok v \<Longrightarrow> below h h' \<Longrightarrow> n \<le> m \<Longrightarrow> from_ptr_fuel m R E h' t p = Ok v"
proof (induction n arbitrary: m t p v)
  case (Suc n)
  then obtain k where m: "m = Suc k" "n \<le> k" by (cases m) auto
  let ?r = "from_ptr_fuel n R E h" and ?r' = "from_ptr_fuel k R E h'"
  have IH: "?r' t p = Ok v" if "?r t p = Ok v" for t p v
    using Suc.IH [OF that Suc.prems(2) m(2)] .
  then have held: "held (?r' t) p v" if "held (?r t) p v" for t p v
    using that by (auto simp: held_def)
  from Suc.prems(1) obtain ty where ty: "get_type R t = Some ty" by auto
  note b = Suc.prems(2)
  show ?case
  proof (cases ty)
    case (ArrayT e)
    with Suc.prems(1) ty have "read_array R ?r h p e = Ok v" by simp
    then have "read_array R ?r' h' p e = Ok v" by (rule read_array_move) (use below_inline [OF b] held in blast)+
    with ty ArrayT m show ?thesis by simp
  next
    case (EnumT vs)
    with Suc.prems(1) ty have "read_enum R ?r h p vs = Ok v" by simp
    then have "read_enum R ?r' h' p vs = Ok v" by (rule read_enum_move) (use below_inline [OF b] held in blast)+
    with ty EnumT m show ?thesis by simp
  next
    case (StructT ms)
    with Suc.prems(1) ty obtain vs where "read_members R ?r p None ms = Ok vs" "v = NStruct vs" by auto
    moreover from this(1) have "read_members R ?r' p None ms = Ok vs"
      by (rule read_members_move) (use held in blast)
    ultimately show ?thesis using ty StructT m by simp
  next
    case (Felt252DictT e)
    with Suc.prems(1) ty have "read_dict ?r h p e = Ok v" by simp
    then have "read_dict ?r' h' p e = Ok v" by (rule read_dict_move) (use below_inline [OF b] b held in blast)+
    with ty Felt252DictT m show ?thesis by simp
  next
    case (SquashedFelt252DictT e)
    with Suc.prems(1) ty have "read_dict ?r h p e = Ok v" by simp
    then have "read_dict ?r' h' p e = Ok v" by (rule read_dict_move) (use below_inline [OF b] b held in blast)+
    with ty SquashedFelt252DictT m show ?thesis by simp
  next
    case (IntRangeT e)
    with Suc.prems(1) ty have "read_int_range R ?r p e = Ok v" by simp
    then have "read_int_range R ?r' p e = Ok v" by (rule read_int_range_move) (use held in blast)
    with ty IntRangeT m show ?thesis by simp
  next
    case (StarknetT st)
    with Suc.prems(1) ty have "read_starknet h p st = Ok v" by simp
    then have "read_starknet h' p st = Ok v" using b by (rule read_starknet_below)
    with ty StarknetT m show ?thesis by simp
  next
    case (CircuitT ct)
    with Suc.prems(1) ty m show ?thesis by (cases ct) (auto dest: read_uint_inline [OF _ below_inline [OF b]])
  next
    case (BoxT e)
    with Suc.prems(1) ty m show ?thesis by (auto dest: IH read_ptr_inline [OF _ below_inline [OF b]])
  next
    case (NullableT e)
    with Suc.prems(1) ty obtain q where "read_ptr h p = Ok q" "if q = 0 then v = NNull else ?r e q = Ok v"
      by (auto split: if_splits)
    then have "read_ptr h' p = Ok q" "if q = 0 then v = NNull else ?r' e q = Ok v"
      by (auto dest: IH read_ptr_inline [OF _ below_inline [OF b]] split: if_splits)
    with ty NullableT m show ?thesis by simp
  next
    case (NonZeroT e)
    with Suc.prems(1) ty m show ?thesis by (simp add: IH)
  next
    case (SnapshotT e)
    with Suc.prems(1) ty m show ?thesis by (simp add: IH)
  qed (use Suc.prems(1) ty m in \<open>simp; fail | force dest: read_below [OF _ b]\<close>)+
qed simp

section \<open>Sizes of layouts\<close>

lemma felt_padding: "padding_needed_for \<lparr>lsize = 32, lalign = 16\<rparr> 16 = 0"
  "padding_needed_for \<lparr>lsize = 4, lalign = 4\<rparr> 4 = 0"
  by (simp_all add: padding_needed_for_def)

lemma felt_array_size: "felt_array_layout n = Ok L \<Longrightarrow> L = \<lparr>lsize = 32 * n, lalign = 16\<rparr>"
  by (auto simp: felt_array_layout_def layout_repeat_def get_integer_layout_def felt_padding Let_def
      from_size_align_Ok split: if_splits)

lemma pad_size: "0 < lalign L \<Longrightarrow> lsize L \<le> lsize (pad_to_align L)"
  by (simp add: pad_to_align_def round_up_le)

lemma ty_layout_sizes:
  "ty_layout R Felt252T = Ok L \<Longrightarrow> lsize L = 32"
  "ty_layout R Uint8T = Ok L \<Longrightarrow> lsize L = 1" "ty_layout R Sint8T = Ok L \<Longrightarrow> lsize L = 1"
  "ty_layout R Uint16T = Ok L \<Longrightarrow> lsize L = 2" "ty_layout R Sint16T = Ok L \<Longrightarrow> lsize L = 2"
  "ty_layout R Uint32T = Ok L \<Longrightarrow> lsize L = 4" "ty_layout R Sint32T = Ok L \<Longrightarrow> lsize L = 4"
  "ty_layout R Uint64T = Ok L \<Longrightarrow> lsize L = 8" "ty_layout R Sint64T = Ok L \<Longrightarrow> lsize L = 8"
  "ty_layout R Uint128T = Ok L \<Longrightarrow> lsize L = 16" "ty_layout R Sint128T = Ok L \<Longrightarrow> lsize L = 16"
  "ty_layout R GasReserveT = Ok L \<Longrightarrow> lsize L = 16"
  "ty_layout R Bytes31T = Ok L \<Longrightarrow> lsize L = 32"
  "ty_layout R (BoxT e) = Ok L \<Longrightarrow> lsize L = 8" "ty_layout R (NullableT e) = Ok L \<Longrightarrow> lsize L = 8"
  "ty_layout R (Felt252DictT e) = Ok L \<Longrightarrow> lsize L = 8"
  "ty_layout R (SquashedFelt252DictT e) = Ok L \<Longrightarrow> lsize L = 8"
  "ty_layout R (CircuitT U96GuaranteeCT) = Ok L \<Longrightarrow> lsize L = 16"
  "ty_layout R (ArrayT e) = Ok L \<Longrightarrow> lsize L = 24"
  "ty_layout R EcPointT = Ok L \<Longrightarrow> lsize L = 64"
  "ty_layout R EcStateT = Ok L \<Longrightarrow> lsize L = 96"
  "ty_layout R QM31T = Ok L \<Longrightarrow> lsize L = 16"
  by (auto dest!: ty_layout_body felt_array_size simp: layout_body_def get_integer_layout_def pad_to_align_def round_up_def
      circuit_layout_def array_layout_eq ptr_layout_def EC_POINT_FELTS_def EC_STATE_FELTS_def layout_repeat_def
      felt_padding Let_def from_size_align_Ok split: if_splits)

lemma padded_part:
  "layout_body (ty_layout R) R ty = and_then (and_then (registry_get R e) (ty_layout R)) (\<lambda>L. Ok (pad_to_align L)) \<Longrightarrow>
    ty_layout R ty = Ok L \<Longrightarrow> \<exists>ty'. get_type R e = Some ty' \<and> ty_layout R ty' = Ok L"
proof -
  assume a: "layout_body (ty_layout R) R ty = and_then (and_then (registry_get R e) (ty_layout R)) (\<lambda>L. Ok (pad_to_align L))"
    "ty_layout R ty = Ok L"
  from ty_layout_body [OF a(2)] obtain ty' M where "get_type R e = Some ty'" "ty_layout R ty' = Ok M" "L = pad_to_align M"
    unfolding a(1) by auto
  then show ?thesis using pad_padded [OF ty_layout_padded] by simp
qed

lemma ty_layout_parts:
  "ty_layout R (NonZeroT e) = Ok L \<Longrightarrow> \<exists>ty. get_type R e = Some ty \<and> ty_layout R ty = Ok L"
  "ty_layout R (SnapshotT e) = Ok L \<Longrightarrow> \<exists>ty. get_type R e = Some ty \<and> ty_layout R ty = Ok L"
  by (rule padded_part; simp add: layout_body_def del: and_then_Ok)+

lemma ty_layout_bounded:
  "ty_layout R (BoundedIntT r) = Ok L \<Longrightarrow> lsize (get_integer_layout (repr_bit_width r)) \<le> lsize L"
  "ty_layout R (BoundedIntGuaranteeT r) = Ok L \<Longrightarrow> lsize (get_integer_layout (repr_bit_width r)) \<le> lsize L"
  by (auto dest!: ty_layout_body simp: layout_body_def intro!: pad_size wf_pos)

lemma ty_layout_starknet:
  "ty_layout R (StarknetT st) = Ok L \<Longrightarrow> \<exists>M. starknet_layout st = Ok M \<and> lsize M \<le> lsize L"
  by (drule ty_layout_body) (auto simp: layout_body_def intro!: pad_size wf_pos starknet_layout_wf)

lemma ty_layout_int_range:
  assumes "ty_layout R (IntRangeT e) = Ok L"
  obtains ty M S off where "get_type R e = Some ty" "ty_layout R ty = Ok M" "layout_extend M M = Ok (S, off)"
    "L = pad_to_align S" "lsize M \<le> off" "off + lsize M \<le> lsize L"
proof -
  obtain ty M S off where x: "get_type R e = Some ty" "ty_layout R ty = Ok M" "layout_extend M M = Ok (S, off)"
    "L = pad_to_align S"
    using ty_layout_body [OF assms] by (auto simp: layout_body_def)
  note ext = layout_extend_Ok [OF x(3) ty_layout_wf(2) [OF x(2)] ty_layout_wf(2) [OF x(2)]]
  have "off + lsize M \<le> lsize L" using ext(3) pad_size [OF wf_pos [OF ext(1)]] x(4) by simp
  with that x ext(4) show ?thesis by blast
qed

lemma enum_layout_payload:
  assumes "ty_layout R (EnumT vs) = Ok M"
  obtains L Ls where "get_layout_for_variants R vs = Ok (L, get_integer_layout (tag_bits vs), Ls)"
    "lsize L \<le> lsize M" "lsize (get_integer_layout (tag_bits vs)) \<le> lsize L" "length Ls = length vs"
    "\<And>i. i < length vs \<Longrightarrow> \<exists>ty N off. get_type R (vs ! i) = Some ty \<and> ty_layout R ty = Ok (Ls ! i) \<and>
      layout_extend (get_integer_layout (tag_bits vs)) (Ls ! i) = Ok (N, off) \<and>
      lsize (get_integer_layout (tag_bits vs)) \<le> off \<and> off + lsize (Ls ! i) \<le> lsize L"
proof (rule enum_layout_variants [OF assms])
  fix L Ls
  let ?tag = "get_integer_layout (tag_bits vs)"
  assume a: "get_layout_for_variants R vs = Ok (L, ?tag, Ls)" "M = pad_to_align L" "lsize ?tag \<le> lsize L"
    "list_all2 (\<lambda>v P. \<exists>ty. get_type R v = Some ty \<and> ty_layout R ty = Ok P \<and> payload_fits ?tag L P) vs Ls"
  have "0 < lalign L" using ty_layout_wf(1) [OF assms, THEN wf_pos] a(2) by (simp add: pad_to_align_def)
  then have "lsize L \<le> lsize M" using a(2) by (simp add: pad_size)
  moreover have "\<exists>ty N off. get_type R (vs ! i) = Some ty \<and> ty_layout R ty = Ok (Ls ! i) \<and>
      layout_extend ?tag (Ls ! i) = Ok (N, off) \<and> lsize ?tag \<le> off \<and> off + lsize (Ls ! i) \<le> lsize L"
    if "i < length vs" for i
    using list_all2_nthD [OF a(4) that] by (auto simp: payload_fits_def)
  ultimately show ?thesis using that a(1,3) list_all2_lengthD [OF a(4)] by simp
qed

section \<open>Moving a value\<close>

text \<open>
  The bytes of a value's layout are its inline representation: copied elsewhere, they are read
  as the same value, provided the memory they point to is still there.
\<close>

lemma from_ptr_move:
  "from_ptr_fuel n R E h t p = Ok v \<Longrightarrow> get_type R t = Some ty \<Longrightarrow> ty_layout R ty = Ok L \<Longrightarrow>
    inline h p h' q (lsize L) \<Longrightarrow> below h h' \<Longrightarrow> (p \<noteq> 0 \<Longrightarrow> q \<noteq> 0) \<Longrightarrow> from_ptr_fuel n R E h' t q = Ok v"
proof (induction n arbitrary: t ty L p q v)
  case (Suc n)
  note ty = Suc.prems(2) and L = Suc.prems(3) and inl = Suc.prems(4) and b = Suc.prems(5)
  let ?r = "from_ptr_fuel n R E h" and ?r' = "from_ptr_fuel n R E h'"
  have stays: "?r' t a = Ok v" if "?r t a = Ok v" for t a v
    using from_ptr_grow [OF that b] by simp
  then have held: "held (?r' t) a v" if "held (?r t) a v" for t a v
    using that by (auto simp: held_def)
  have part: "held (?r' m) (q + off) w"
    if "get_type R m = Some mty" "ty_layout R mty = Ok M" "off + lsize M \<le> lsize L" "held (?r m) (p + off) w"
    for m mty M off w
  proof -
    have "?r' m (q + off) = Ok w"
      by (rule Suc.IH [OF _ that(1,2) inline_part [OF inl that(3)] b])
        (use that(4) Suc.prems(6) in \<open>auto simp: held_def\<close>)
    then show ?thesis using that(4) Suc.prems(6) by (auto simp: held_def)
  qed
  have ptr: "read_ptr h' q = Ok a" if "read_ptr h p = Ok a" "8 \<le> lsize L" for a
    by (rule read_ptr_inline [OF that(1)]) (rule inline_less [OF inl that(2)])
  have uint: "read_uint h' q k = Ok a" if "read_uint h p k = Ok a" "k \<le> lsize L" for a k
    by (rule read_uint_inline [OF that(1)]) (rule inline_less [OF inl that(2)])
  have felts: "read_felt h' (q + k) = Ok a" if "read_felt h (p + k) = Ok a" "k + 32 \<le> lsize L" for a k
    by (rule read_felt_inline [OF that(1)]) (rule inline_part [OF inl that(2)])
  show ?case
  proof (cases ty)
    case (ArrayT e)
    with Suc.prems(1) ty have "read_array R ?r h p e = Ok v" by simp
    then have "read_array R ?r' h' q e = Ok v"
      by (rule read_array_move) (use inline_less [OF inl] ty_layout_sizes(19) [OF L [unfolded ArrayT]] held in auto)
    with ty ArrayT show ?thesis by simp
  next
    case (EnumT vs)
    obtain M Ls where Ls: "get_layout_for_variants R vs = Ok (M, get_integer_layout (tag_bits vs), Ls)"
      "lsize M \<le> lsize L" "lsize (get_integer_layout (tag_bits vs)) \<le> lsize M" "length Ls = length vs"
      "\<And>i. i < length vs \<Longrightarrow> \<exists>ty N off. get_type R (vs ! i) = Some ty \<and> ty_layout R ty = Ok (Ls ! i) \<and>
        layout_extend (get_integer_layout (tag_bits vs)) (Ls ! i) = Ok (N, off) \<and>
        lsize (get_integer_layout (tag_bits vs)) \<le> off \<and> off + lsize (Ls ! i) \<le> lsize M"
      by (rule enum_layout_payload [OF L [unfolded EnumT]]) (rule that)
    from Suc.prems(1) ty EnumT have "read_enum R ?r h p vs = Ok v" by simp
    then have "read_enum R ?r' h' q vs = Ok v"
    proof (rule read_enum_move)
      fix L' tag Ls'
      assume x: "get_layout_for_variants R vs = Ok (L', tag, Ls')"
      show "inline h p h' q (lsize tag)" using x Ls(1-3) by (intro inline_less [OF inl]) simp
      fix i N off w
      assume i: "i < length vs" "layout_extend tag (Ls' ! i) = Ok (N, off)" "held (?r (vs ! i)) (p + off) w"
      show "held (?r' (vs ! i)) (q + off) w"
        using Ls(5) [OF i(1)] x Ls(1,2) i(2,3) by (auto intro: part)
    qed
    with ty EnumT show ?thesis by simp
  next
    case (StructT ms)
    obtain ss acc where ss: "spans R None ms = Ok (ss, acc)" "chain 0 ss (lsize L)"
      by (rule struct_layout [OF L [unfolded StructT]])
    from Suc.prems(1) ty StructT obtain vs where vs: "read_members R ?r p None ms = Ok vs" "v = NStruct vs" by auto
    have "read_members R ?r' q None ms = Ok vs"
    proof (rule read_members_move [OF vs(1)])
      fix ss' acc' m M off w
      assume x: "spans R None ms = Ok (ss', acc')" "(m, M, off) \<in> set ss'" "held (?r m) (p + off) w"
      then have "\<exists>mty. get_type R m = Some mty \<and> ty_layout R mty = Ok M" by (simp add: spans_member)
      with x ss chain_mem [OF ss(2)] show "held (?r' m) (q + off) w" by (auto intro: part)
    qed
    with ty StructT vs(2) show ?thesis by simp
  next
    case (Felt252DictT e)
    with Suc.prems(1) ty have "read_dict ?r h p e = Ok v" by simp
    then have "read_dict ?r' h' q e = Ok v"
      by (rule read_dict_move) (use inl ty_layout_sizes(16) [OF L [unfolded Felt252DictT]] b held in auto)
    with ty Felt252DictT show ?thesis by simp
  next
    case (SquashedFelt252DictT e)
    with Suc.prems(1) ty have "read_dict ?r h p e = Ok v" by simp
    then have "read_dict ?r' h' q e = Ok v"
      by (rule read_dict_move) (use inl ty_layout_sizes(17) [OF L [unfolded SquashedFelt252DictT]] b held in auto)
    with ty SquashedFelt252DictT show ?thesis by simp
  next
    case (IntRangeT e)
    obtain ety M S off where x: "get_type R e = Some ety" "ty_layout R ety = Ok M" "layout_extend M M = Ok (S, off)"
      "L = pad_to_align S" "lsize M \<le> off" "off + lsize M \<le> lsize L"
      by (rule ty_layout_int_range [OF L [unfolded IntRangeT]])
    from Suc.prems(1) ty IntRangeT have "read_int_range R ?r p e = Ok v" by simp
    then have "read_int_range R ?r' q e = Ok v"
      by (rule read_int_range_move) (use x part [OF x(1,2), of 0] part [OF x(1,2), of off] in auto)
    with ty IntRangeT show ?thesis by simp
  next
    case (StarknetT st)
    obtain M where M: "starknet_layout st = Ok M" "lsize M \<le> lsize L"
      using ty_layout_starknet [OF L [unfolded StarknetT]] by blast
    from Suc.prems(1) ty StarknetT have "read_starknet h p st = Ok v" by simp
    then have "read_starknet h' q st = Ok v"
      using M(1) by (rule read_starknet_inline) (rule inline_less [OF inl M(2)])
    with ty StarknetT show ?thesis by simp
  next
    case (CircuitT ct)
    with Suc.prems(1) ty show ?thesis
      using ty_layout_sizes(18) [of R L] L by (cases ct) (auto dest!: uint)
  next
    case (BoxT e)
    with Suc.prems(1) ty show ?thesis
      using ty_layout_sizes(14) [of R e L] L by (auto dest!: ptr dest: stays)
  next
    case (NullableT e)
    with Suc.prems(1) ty obtain a where "read_ptr h p = Ok a" "if a = 0 then v = NNull else ?r e a = Ok v"
      by (auto split: if_splits)
    moreover have "8 \<le> lsize L" using ty_layout_sizes(15) [of R e L] L NullableT by simp
    ultimately have "read_ptr h' q = Ok a" "if a = 0 then v = NNull else ?r' e a = Ok v"
      using ptr stays by (auto split: if_splits)
    with ty NullableT show ?thesis by simp
  next
    case (NonZeroT e)
    obtain ety where "get_type R e = Some ety" "ty_layout R ety = Ok L"
      using ty_layout_parts(1) [OF L [unfolded NonZeroT]] by blast
    with Suc.IH [OF _ this inl b Suc.prems(6)] Suc.prems(1) ty NonZeroT show ?thesis by simp
  next
    case (SnapshotT e)
    obtain ety where "get_type R e = Some ety" "ty_layout R ety = Ok L"
      using ty_layout_parts(2) [OF L [unfolded SnapshotT]] by blast
    with Suc.IH [OF _ this inl b Suc.prems(6)] Suc.prems(1) ty SnapshotT show ?thesis by simp
  next
    case (BoundedIntT r)
    with Suc.prems(1) ty show ?thesis
      using inline_less [OF inl ty_layout_bounded(1) [OF L [unfolded BoundedIntT]]]
      by (auto dest: read_bounded_inline)
  next
    case (BoundedIntGuaranteeT r)
    with Suc.prems(1) ty show ?thesis
      using inline_less [OF inl ty_layout_bounded(2) [OF L [unfolded BoundedIntGuaranteeT]]]
      by (auto dest: read_bounded_inline)
  next
    case EcStateT
    with Suc.prems(1) ty inl ty_layout_sizes(21) [OF L [unfolded EcStateT]] show ?thesis
      by (auto dest: read_ec_state_inline)
  next
    case EcPointT
    with Suc.prems(1) ty ty_layout_sizes(20) [OF L [unfolded EcPointT]] show ?thesis
      using felts [of 0] felts [of 32] by auto
  next
    case Felt252T
    with Suc.prems(1) ty ty_layout_sizes(1) [OF L [unfolded Felt252T]] show ?thesis
      using felts [of 0] by auto
  next
    case QM31T
    have "lsize L = 16" using ty_layout_sizes(22) [OF L [unfolded QM31T]] .
    then have "inline h (p + k) h' (q + k) 4" if "k \<in> {0, 4, 8, 12}" for k
      using that by (intro inline_part [OF inl]) auto
    then have "read_uint h' (q + k) 4 = Ok a" if "read_uint h (p + k) 4 = Ok a" "k \<in> {0, 4, 8, 12}" for k a
      using that by (blast intro: read_uint_inline)
    note r = this [of 0] this [of 4] this [of 8] this [of 12]
    from Suc.prems(1) ty QM31T obtain a b c d where
      "read_uint h p 4 = Ok a" "read_uint h (p + 4) 4 = Ok b" "read_uint h (p + 8) 4 = Ok c"
      "read_uint h (p + 12) 4 = Ok d" "v = NQM31 (of_nat a) (of_nat b) (of_nat c) (of_nat d)"
      by auto
    with r have "read_uint h' q 4 = Ok a" "read_uint h' (q + 4) 4 = Ok b" "read_uint h' (q + 8) 4 = Ok c"
      "read_uint h' (q + 12) 4 = Ok d" by simp_all
    then show ?thesis using ty by (simp add: QM31T \<open>v = _\<close> registry_get_def ok_or_def del: and_then_Ok)
  next
    case Bytes31T
    have "inline h p h' q 31"
      using ty_layout_sizes(13) [OF L [unfolded Bytes31T]] by (intro inline_less [OF inl]) simp
    with Suc.prems(1) ty Bytes31T show ?thesis by (auto dest: read_bytes_inline)
  qed (use Suc.prems(1) ty L ty_layout_sizes(2-12) in \<open>simp; fail | force dest!: uint\<close>)+
qed simp

end
