(* ===== verification/ValueHeap.thy ===== *)
theory ValueHeap
  imports ValueMemory
begin

text \<open>
  Writing to memory. A memory is in order when its defined cells lie in allocated blocks; every
  write of \<open>to_ptr\<close> goes to a block it has just allocated, so a write never disturbs what is
  already there. What the allocator of another crate has to promise is \<open>alloc_ok\<close>: blocks do
  not overlap and are not null.
\<close>

section \<open>Memories in order\<close>

definition owned :: "heap \<Rightarrow> nat \<Rightarrow> bool" where
  "owned h a \<longleftrightarrow> (\<exists>(q, m) \<in> set (hp_blocks h). q \<le> a \<and> a < q + m)"

definition heap_ok :: "heap \<Rightarrow> bool" where
  "heap_ok h \<longleftrightarrow> (\<forall>a c. hp_mem h a = Some c \<longrightarrow> owned h a) \<and>
    (\<forall>d x. hp_dicts h d = Some x \<longrightarrow> (d, 80) \<in> set (hp_blocks h))"

text \<open>Memory changes only in the cells of \<open>S\<close> and in blocks that are new, dictionaries in new blocks only.\<close>

definition upd :: "nat set \<Rightarrow> heap \<Rightarrow> heap \<Rightarrow> bool" where
  "upd S h h' \<longleftrightarrow> (\<exists>bs. hp_blocks h' = bs @ hp_blocks h) \<and>
    (\<forall>a. owned h a \<longrightarrow> a \<notin> S \<longrightarrow> hp_mem h' a = hp_mem h a) \<and>
    (\<forall>d. owned h d \<longrightarrow> hp_dicts h' d = hp_dicts h d)"

definition fresh :: "heap \<Rightarrow> nat \<Rightarrow> nat \<Rightarrow> bool" where
  "fresh h p n \<longleftrightarrow> (\<forall>a. p \<le> a \<and> a < p + n \<longrightarrow> owned h a \<and> hp_mem h a = None)"

lemma upd_refl [simp]: "upd S h h"
  by (simp add: upd_def)

lemma upd_owned: "upd S h h' \<Longrightarrow> owned h a \<Longrightarrow> owned h' a"
  by (auto simp: upd_def owned_def)

lemma upd_trans: "upd S h h1 \<Longrightarrow> upd T h1 h2 \<Longrightarrow> upd (S \<union> T) h h2"
  using upd_owned [of S h h1] by (auto simp: upd_def)

lemma upd_mono: "upd S h h' \<Longrightarrow> S \<subseteq> T \<Longrightarrow> upd T h h'"
  by (auto simp: upd_def)

lemma upd_mem: "upd S h h' \<Longrightarrow> owned h a \<Longrightarrow> a \<notin> S \<Longrightarrow> hp_mem h' a = hp_mem h a"
  and upd_dict: "upd S h h' \<Longrightarrow> owned h d \<Longrightarrow> hp_dicts h' d = hp_dicts h d"
  and upd_blocks: "upd S h h' \<Longrightarrow> \<exists>bs. hp_blocks h' = bs @ hp_blocks h"
  by (simp_all add: upd_def)

lemma upd_new:
  assumes "upd T h h1" "upd S h1 h2" "\<And>a. a \<in> S \<Longrightarrow> \<not> owned h a"
  shows "upd T h h2"
  unfolding upd_def
proof (intro conjI allI impI)
  show "\<exists>bs. hp_blocks h2 = bs @ hp_blocks h"
    using upd_blocks [OF assms(1)] upd_blocks [OF assms(2)] by auto
  show "hp_mem h2 a = hp_mem h a" if "owned h a" "a \<notin> T" for a
    using upd_mem [OF assms(2) upd_owned [OF assms(1) that(1)]] upd_mem [OF assms(1) that] assms(3) that(1) by metis
  show "hp_dicts h2 d = hp_dicts h d" if "owned h d" for d
    using upd_dict [OF assms(2) upd_owned [OF assms(1) that]] upd_dict [OF assms(1) that] by simp
qed

lemma dict_owned: "heap_ok h \<Longrightarrow> hp_dicts h d = Some x \<Longrightarrow> owned h d"
proof -
  assume "heap_ok h" "hp_dicts h d = Some x"
  then have "(d, 80) \<in> set (hp_blocks h)" unfolding heap_ok_def by blast
  then show ?thesis unfolding owned_def by (intro bexI [of _ "(d, 80)"]) simp_all
qed

lemma upd_below:
  assumes "upd S h h'" "heap_ok h" "\<And>a. a \<in> S \<Longrightarrow> hp_mem h a = None"
  shows "below h h'"
  unfolding below_def
proof (intro conjI allI impI)
  show "hp_mem h' a = Some c" if "hp_mem h a = Some c" for a c
  proof -
    have "owned h a" "a \<notin> S" using assms(2) assms(3) [of a] that by (auto simp: heap_ok_def)
    from upd_mem [OF assms(1) this] that show ?thesis by simp
  qed
  show "hp_dicts h' d = Some x" if "hp_dicts h d = Some x" for d x
    using upd_dict [OF assms(1) dict_owned [OF assms(2) that]] that by simp
qed

lemma fresh_upd: "fresh h p n \<Longrightarrow> upd S h h' \<Longrightarrow> S \<inter> {p ..< p + n} = {} \<Longrightarrow> fresh h' p n"
  using upd_owned [of S h h'] by (fastforce simp: fresh_def upd_def)

lemma fresh_part: "fresh h p n \<Longrightarrow> off + m \<le> n \<Longrightarrow> fresh h (p + off) m"
  by (auto simp: fresh_def)

lemma fresh_none: "fresh h p n \<Longrightarrow> a \<in> {p ..< p + n} \<Longrightarrow> hp_mem h a = None"
  by (simp add: fresh_def)

section \<open>Allocating, writing, copying\<close>

definition alloc_ok :: "allocator \<Rightarrow> bool" where
  "alloc_ok A \<longleftrightarrow> (\<forall>bs L. al_place A bs L \<noteq> 0 \<and>
    (\<forall>(q, m) \<in> set bs. al_place A bs L + lsize L \<le> q \<or> q + m \<le> al_place A bs L)) \<and>
    (\<forall>n. n \<le> al_capacity A n)"

text \<open>\<open>h1\<close> is \<open>h\<close> with a new block at \<open>p\<close>.\<close>

definition new_block :: "heap \<Rightarrow> nat \<Rightarrow> nat \<Rightarrow> heap \<Rightarrow> bool" where
  "new_block h p n h1 \<longleftrightarrow> p \<noteq> 0 \<and> upd {} h h1 \<and> heap_ok h1 \<and> fresh h1 p n \<and>
    (\<forall>a. p \<le> a \<and> a < p + n \<longrightarrow> \<not> owned h a) \<and> (p, n) \<in> set (hp_blocks h1) \<and> hp_dicts h1 = hp_dicts h"

lemma alloc_layout_new:
  assumes "alloc_ok A" "heap_ok h"
  obtains p h1 where "alloc_layout A L h = (p, h1)" "new_block h p (lsize L) h1"
proof -
  define p where "p = al_place A (hp_blocks h) L"
  define h1 where "h1 = h\<lparr>hp_blocks := (p, lsize L) # hp_blocks h\<rparr>"
  have "alloc_layout A L h = (p, h1)" by (simp add: alloc_layout_def p_def h1_def Let_def)
  moreover have "p \<noteq> 0 \<and> (\<forall>(q, m) \<in> set (hp_blocks h). p + lsize L \<le> q \<or> q + m \<le> p)"
    using assms(1) unfolding alloc_ok_def p_def by blast
  then have p: "p \<noteq> 0" "\<And>q m. (q, m) \<in> set (hp_blocks h) \<Longrightarrow> p + lsize L \<le> q \<or> q + m \<le> p"
    by blast+
  have not: "\<not> owned h a" if "p \<le> a" "a < p + lsize L" for a
    using p(2) that by (fastforce simp: owned_def)
  then have "hp_mem h a = None" if "p \<le> a" "a < p + lsize L" for a
    using that assms(2) by (cases "hp_mem h a") (auto simp: heap_ok_def)
  then have "new_block h p (lsize L) h1"
    using p(1) not assms(2) by (auto simp: new_block_def h1_def upd_def heap_ok_def fresh_def owned_def)
  ultimately show ?thesis using that by blast
qed

lemma write_cells_fresh:
  assumes "fresh h p n" "heap_ok h" "length cs \<le> n"
  shows "upd {p ..< p + length cs} h (write_cells p cs h)" "heap_ok (write_cells p cs h)"
    "below h (write_cells p cs h)" "read_cells (write_cells p cs h) p (length cs) = Ok cs"
proof -
  have own: "owned (write_cells p cs h) a = owned h a" for a by (simp add: owned_def write_cells_def)
  show upd: "upd {p ..< p + length cs} h (write_cells p cs h)"
    by (auto simp: upd_def write_cells_def)
  show "heap_ok (write_cells p cs h)"
    using assms by (auto simp: heap_ok_def own) (auto simp: write_cells_def fresh_def split: if_splits)
  show "below h (write_cells p cs h)"
    by (rule upd_below [OF upd assms(2)]) (use assms in \<open>auto simp: fresh_def\<close>)
  show "read_cells (write_cells p cs h) p (length cs) = Ok cs"
    by (simp add: read_cells_Ok) (simp add: write_cells_def)
qed

lemma copy_bytes_fresh:
  assumes "fresh h dst n" "heap_ok h"
  shows "upd {dst ..< dst + n} h (copy_bytes src dst n h)" "heap_ok (copy_bytes src dst n h)"
    "below h (copy_bytes src dst n h)" "inline h src (copy_bytes src dst n h) dst n"
proof -
  have own: "owned (copy_bytes src dst n h) a = owned h a" for a by (simp add: owned_def copy_bytes_def)
  show upd: "upd {dst ..< dst + n} h (copy_bytes src dst n h)"
    by (auto simp: upd_def copy_bytes_def)
  show "heap_ok (copy_bytes src dst n h)"
    using assms by (auto simp: heap_ok_def own) (auto simp: copy_bytes_def fresh_def split: if_splits)
  show "below h (copy_bytes src dst n h)"
    by (rule upd_below [OF upd assms(2)]) (use assms in \<open>auto simp: fresh_def\<close>)
  show "inline h src (copy_bytes src dst n h) dst n"
    by (simp add: inline_def copy_bytes_def)
qed

lemma new_block_write:
  assumes "new_block h p n h1" "upd {p ..< p + n} h1 h2"
  shows "upd {} h h2"
  using assms by (auto simp: new_block_def intro: upd_new)

lemma alloc_cells_new:
  assumes "alloc_ok A" "heap_ok h" "length cs \<le> lsize L"
  obtains p h' where "alloc_cells A L cs h = (p, h')" "p \<noteq> 0" "upd {} h h'" "heap_ok h'"
    "read_cells h' p (length cs) = Ok cs"
proof (rule alloc_layout_new [OF assms(1,2)])
  fix p h1
  assume a: "alloc_layout A L h = (p, h1)" "new_block h p (lsize L) h1"
  then have fr: "fresh h1 p (lsize L)" "heap_ok h1" "p \<noteq> 0" by (auto simp: new_block_def)
  note w = write_cells_fresh [OF fr(1,2) assms(3)]
  have "upd {} h (write_cells p cs h1)"
    by (rule new_block_write [OF a(2) upd_mono [OF w(1)]]) (use assms(3) in auto)
  with that w a(1) fr(3) show ?thesis by (simp add: alloc_cells_def)
qed

section \<open>Bytes\<close>

lemma read_bytes_cells: "read_cells h p n = Ok (map Byte bs) \<Longrightarrow> read_bytes h p n = Ok bs"
proof -
  have "map_opt as_byte (map Byte bs) = Some bs" by (rule map_opt_map_inv) simp
  then show "read_cells h p n = Ok (map Byte bs) \<Longrightarrow> read_bytes h p n = Ok bs"
    by (auto simp: read_bytes_def simp del: and_then_Ok)
qed

lemma length_le_bytes [simp]: "length (le_bytes n x) = n"
  by (simp add: le_bytes_def)

lemma le_bytes_Suc: "le_bytes (Suc n) x = of_nat x # le_bytes n (x div 256)"
proof -
  have "map (\<lambda>i. of_nat (x div 256 ^ i) :: u8) [0 ..< Suc n] =
      of_nat x # map (\<lambda>i. of_nat (x div 256 div 256 ^ i)) [0 ..< n]"
    by (simp add: upt_conv_Cons map_Suc_upt [symmetric] div_mult2_eq del: upt_Suc)
  then show ?thesis by (simp add: le_bytes_def)
qed

lemma from_le_bytes: "x < 256 ^ n \<Longrightarrow> from_bytes_le (le_bytes n x) = x"
proof (induction n arbitrary: x)
  case 0
  then show ?case by (simp add: le_bytes_def from_bytes_le_def)
next
  case (Suc n)
  then have "from_bytes_le (le_bytes n (x div 256)) = x div 256"
    by (intro Suc.IH) (simp add: less_mult_imp_div_less mult.commute)
  then show ?case by (simp add: le_bytes_Suc from_bytes_le_def unat_of_nat)
qed

lemma read_uint_cells: "read_cells h p n = Ok (map Byte bs) \<Longrightarrow> read_uint h p n = Ok (from_bytes_le bs)"
  by (auto simp: read_uint_def dest: read_bytes_cells)

lemma read_cells_append:
  "read_cells h p n = Ok (xs @ ys) \<Longrightarrow>
    read_cells h p (length xs) = Ok xs \<and> read_cells h (p + length xs) (length ys) = Ok ys"
proof -
  assume "read_cells h p n = Ok (xs @ ys)"
  then have n: "n = length xs + length ys"
    and c: "\<And>i. i < n \<Longrightarrow> hp_mem h (p + i) = Some ((xs @ ys) ! i)"
    by (auto simp: read_cells_Ok)
  have "hp_mem h (p + length xs + i) = Some (ys ! i)" if "i < length ys" for i
    using c [of "length xs + i"] n that by (simp add: add.assoc)
  moreover have "hp_mem h (p + i) = Some (xs ! i)" if "i < length xs" for i
    using c [of i] n that by (simp add: nth_append)
  ultimately show ?thesis by (simp add: read_cells_Ok)
qed

lemma read_ptr_cells: "read_cells h p 8 = Ok (ptr_cells a) \<Longrightarrow> read_ptr h p = Ok a"
proof -
  have "hd (ptr_cells a) = PtrPart a 0" by (simp add: ptr_cells_def upt_conv_Cons)
  then show "read_cells h p 8 = Ok (ptr_cells a) \<Longrightarrow> read_ptr h p = Ok a"
    by (auto simp: read_ptr_def simp del: and_then_Ok)
qed

lemma length_ptr_cells [simp]: "length (ptr_cells a) = 8"
  by (simp add: ptr_cells_def)

lemma mask_eq_0F: "(w :: u8) AND 0x0F = take_bit 4 w"
  by (simp add: take_bit_eq_mask mask_eq_exp_minus_1)

lemma felt_slot_roundtrip: "felt_from_slot (felt_bytes_le f) = f"
proof -
  have f: "0 \<le> felt_int f" "felt_int f < 2 ^ 252" using felt_int_range [of f] by (simp_all add: PRIME_def)
  then have lt: "nat (felt_int f) < 2 ^ 252" by simp
  then have "nat (felt_int f) div 256 ^ 31 < 16" by (simp add: less_mult_imp_div_less)
  then have top: "(of_nat (nat (felt_int f) div 256 ^ 31) :: u8) AND 0x0F = of_nat (nat (felt_int f) div 256 ^ 31)"
    by (simp add: mask_eq_0F take_bit_of_nat take_bit_nat_eq_self)
  have "(felt_bytes_le f)[31 := (felt_bytes_le f ! 31) AND 0x0F] = felt_bytes_le f"
    using top by (simp add: felt_bytes_le_def le_bytes_def list_update_same_conv)
  moreover have "from_bytes_le (felt_bytes_le f) = nat (felt_int f)"
    unfolding felt_bytes_le_def by (rule from_le_bytes) (use lt in simp)
  ultimately show ?thesis using f by (simp add: felt_from_slot_def)
qed

end
