(* ===== verification/ValueWrites.thy ===== *)
theory ValueWrites
  imports ValueHeap
begin

text \<open>
  The values \<open>to_ptr\<close> can write (\<open>storable\<close>), and for each way of writing a value that what it
  wrote is read back (\<open>puts\<close>): scalars, boxes, structs, ranges, enums, bounded integers,
  arrays and dictionaries, given that their parts are written well.
\<close>

section \<open>Values that can be written\<close>

definition affine_ok :: "externs \<Rightarrow> bool" where
  "affine_ok E \<longleftrightarrow> (\<forall>x y. ex_to_affine E (x, y, 1) = Some (x, y) \<and> ex_to_affine E (x, y, 0) = None)"

text \<open>Scalars: written inline, whatever wrapper the type has.\<close>

definition scalar :: "core_type \<Rightarrow> nval \<Rightarrow> bool" where
  "scalar ty v =
    (case v of
      NFelt252 _ \<Rightarrow>
        ty \<in> {Felt252T, StarknetT ClassHashST, StarknetT ContractAddressST,
          StarknetT StorageBaseAddressST, StarknetT StorageAddressST}
    | NBytes31 bs \<Rightarrow> ty = Bytes31T \<and> length bs = 31
    | NUint8 _ \<Rightarrow> ty = Uint8T
    | NUint16 _ \<Rightarrow> ty = Uint16T
    | NUint32 _ \<Rightarrow> ty = Uint32T
    | NUint64 _ \<Rightarrow> ty = Uint64T
    | NUint128 _ \<Rightarrow> ty \<in> {Uint128T, GasReserveT}
    | NSint8 _ \<Rightarrow> ty = Sint8T
    | NSint16 _ \<Rightarrow> ty = Sint16T
    | NSint32 _ \<Rightarrow> ty = Sint32T
    | NSint64 _ \<Rightarrow> ty = Sint64T
    | NSint128 _ \<Rightarrow> ty = Sint128T
    | NEcPoint _ _ \<Rightarrow> ty = EcPointT
    | NEcState _ _ \<Rightarrow> ty = EcStateT
    | _ \<Rightarrow> False)"

definition in_range :: "int_range_t \<Rightarrow> felt \<Rightarrow> bool" where
  "in_range r f \<longleftrightarrow> rng_lower r < rng_upper r \<and> range_size r \<le> PRIME \<and>
    (felt_int f - rng_lower r) mod PRIME < range_size r"

definition block_fits :: "nat \<Rightarrow> layout \<Rightarrow> bool" where
  "block_fits n L \<longleftrightarrow> lsize L * n + lalign L \<le> 2 ^ 63"

text \<open>
  \<open>storable n R A t v\<close>: \<open>v\<close> is a value of type \<open>t\<close> in a form \<open>to_ptr\<close> accepts, with room for
  its arrays and dictionaries, and \<open>n\<close> deep.
\<close>

fun storable :: "nat \<Rightarrow> registry \<Rightarrow> allocator \<Rightarrow> type_id \<Rightarrow> nval \<Rightarrow> bool" where
  "storable 0 R A t v = False"
| "storable (Suc n) R A t v =
    (case get_type R t of
      None \<Rightarrow> False
    | Some ty \<Rightarrow>
        (\<exists>L. ty_layout R ty = Ok L) \<and>
        (case ty of
          SnapshotT e \<Rightarrow>
            (case get_type R e of Some (SnapshotT _) \<Rightarrow> False | _ \<Rightarrow> storable n R A e v)
        | NonZeroT e \<Rightarrow> n \<noteq> 0 \<and> (case get_type R e of Some ty' \<Rightarrow> scalar ty' v | None \<Rightarrow> False)
        | BoxT e \<Rightarrow> storable n R A e v
        | NullableT e \<Rightarrow> v = NNull \<or> storable n R A e v
        | ArrayT e \<Rightarrow>
            (case v of
              NArray vs \<Rightarrow>
                length vs < 2 ^ 32 \<and> (\<forall>v \<in> set vs. storable n R A e v) \<and>
                (\<exists>ety L. get_type R e = Some ety \<and> ty_layout R ety = Ok L \<and> block_fits (length vs) L)
            | _ \<Rightarrow> False)
        | StructT ms \<Rightarrow>
            (case v of NStruct vs \<Rightarrow> list_all2 (storable n R A) ms vs | _ \<Rightarrow> False)
        | EnumT variants \<Rightarrow>
            (case v of
              NEnum tag w \<Rightarrow>
                tag < length variants \<and> length variants \<le> 2 ^ 64 \<and> storable n R A (variants ! tag) w
            | _ \<Rightarrow> False)
        | Felt252DictT e \<Rightarrow>
            (case v of
              NFelt252Dict m \<Rightarrow>
                (\<forall>k w. fmlookup m k = Some w \<longrightarrow> storable n R A e w) \<and>
                (\<exists>ety L. get_type R e = Some ety \<and> ty_layout R ety = Ok L \<and>
                  block_fits (al_capacity A (fcard (fmdom m))) L)
            | _ \<Rightarrow> False)
        | BoundedIntT r \<Rightarrow> (case v of NBoundedInt f own \<Rightarrow> own = r \<and> in_range r f | _ \<Rightarrow> False)
        | BoundedIntGuaranteeT r \<Rightarrow> (case v of NBoundedInt f own \<Rightarrow> own = r \<and> in_range r f | _ \<Rightarrow> False)
        | IntRangeT e \<Rightarrow>
            (case v of NIntRange x y \<Rightarrow> storable n R A e x \<and> storable n R A e y | _ \<Rightarrow> False)
        | _ \<Rightarrow> scalar ty v))"

text \<open>Writing succeeds, disturbs nothing, and what was written is read back.\<close>

definition puts :: "nat \<Rightarrow> registry \<Rightarrow> externs \<Rightarrow> type_id \<Rightarrow> nval \<Rightarrow> (heap \<Rightarrow> (nat \<times> heap) res) \<Rightarrow> bool" where
  "puts n R E t v W \<longleftrightarrow>
    (\<forall>h. heap_ok h \<longrightarrow> (\<exists>p h'. W h = Ok (p, h') \<and> upd {} h h' \<and> heap_ok h' \<and>
      held (from_ptr_fuel n R E h' t) p v))"

lemma putsE:
  assumes "puts n R E t v W" "heap_ok h"
  obtains p h' where "W h = Ok (p, h')" "upd {} h h'" "heap_ok h'" "held (from_ptr_fuel n R E h' t) p v"
    "below h h'"
  using assms upd_below [of "{}" h] unfolding puts_def by blast

lemma held_grow: "held (from_ptr_fuel n R E h t) p v \<Longrightarrow> below h h' \<Longrightarrow> held (from_ptr_fuel n R E h' t) p v"
  using from_ptr_grow [of n R E h t p v h' n] by (simp add: held_def)

lemma held_move:
  "held (from_ptr_fuel n R E h t) p v \<Longrightarrow> get_type R t = Some ty \<Longrightarrow> ty_layout R ty = Ok L \<Longrightarrow>
    inline h p h' q (lsize L) \<Longrightarrow> below h h' \<Longrightarrow> q \<noteq> 0 \<Longrightarrow> held (from_ptr_fuel n R E h' t) q v"
  unfolding held_def by (blast intro: from_ptr_move)

lemma puts_bytes:
  assumes "alloc_ok A" "length bs \<le> lsize L"
    and "\<And>h p. read_cells h p (length bs) = Ok (map Byte bs) \<Longrightarrow> from_ptr_fuel n R E h t p = Ok v"
  shows "puts n R E t v (\<lambda>h. Ok (alloc_bytes A L bs h))"
  unfolding puts_def alloc_bytes_def
proof (intro allI impI)
  fix h
  assume "heap_ok h"
  from alloc_cells_new [OF assms(1) this, of "map Byte bs" L] assms(2) obtain p h' where
    "alloc_cells A L (map Byte bs) h = (p, h')" "p \<noteq> 0" "upd {} h h'" "heap_ok h'"
    "read_cells h' p (length bs) = Ok (map Byte bs)" by auto
  with assms(3) show "\<exists>p h'. Ok (alloc_cells A L (map Byte bs) h) = Ok (p, h') \<and> upd {} h h' \<and> heap_ok h' \<and>
      held (from_ptr_fuel n R E h' t) p v"
    by (auto simp: held_def)
qed

section \<open>Scalars\<close>

lemma puts_cong: "puts n R E t v W \<Longrightarrow> (\<And>h. W' h = W h) \<Longrightarrow> puts n R E t v W'"
  by (simp add: puts_def)

lemma felt252_bigint_felt [simp]: "felt252_bigint (felt_int f) = Ok f"
  using felt_int_range(1) [of f] by (simp add: felt252_bigint_def not_less [symmetric] del: felt_int_range)

lemma length_felt_bytes [simp]: "length (felt_bytes_le f) = 32"
  by (simp add: felt_bytes_le_def)

lemma read_felt_cells: "read_cells h p 32 = Ok (map Byte (felt_bytes_le f)) \<Longrightarrow> read_felt h p = Ok f"
  using felt_slot_roundtrip [of f] by (auto simp: read_felt_def dest: read_bytes_cells)

lemma read_word_cells:
  "read_cells h p n = Ok (map Byte (le_bytes n (unat (x :: 'a :: len word)))) \<Longrightarrow> LENGTH('a) = 8 * n \<Longrightarrow>
    read_uint h p n = Ok (unat x)"
proof -
  assume a: "read_cells h p n = Ok (map Byte (le_bytes n (unat x)))" "LENGTH('a) = 8 * n"
  have "unat x < 256 ^ n" using unsigned_less [of x] unfolding a(2) by (simp add: power_mult)
  with a(1) show ?thesis by (auto dest!: read_uint_cells simp: from_le_bytes)
qed

lemma felts_layout: "felt_array_layout n = Ok \<lparr>lsize = 32 * n, lalign = 16\<rparr>" if "n \<le> 3"
  using that by (simp add: felt_array_layout_def layout_repeat_def get_integer_layout_def felt_padding Let_def
      from_size_align_def pow2_small)

lemma alloc_felts_eq:
  "length fs \<le> 3 \<Longrightarrow> alloc_felts A fs h =
    Ok (alloc_bytes A \<lparr>lsize = 32 * length fs, lalign = 16\<rparr> (concat (map felt_bytes_le fs)) h)"
  by (simp add: alloc_felts_def felts_layout pad_to_align_def del: and_then_Ok)

lemma read_felts:
  "read_cells h p (32 * length fs) = Ok (map Byte (concat (map felt_bytes_le fs))) \<Longrightarrow> i < length fs \<Longrightarrow>
    read_felt h (p + 32 * i) = Ok (fs ! i)"
proof (induction fs arbitrary: p i)
  case (Cons f fs)
  have "read_cells h p (32 + 32 * length fs) = Ok (map Byte (felt_bytes_le f) @ map Byte (concat (map felt_bytes_le fs)))"
    using Cons.prems(1) by simp
  then have "read_cells h p 32 = Ok (map Byte (felt_bytes_le f))"
    "read_cells h (p + 32) (32 * length fs) = Ok (map Byte (concat (map felt_bytes_le fs)))"
    by (auto dest!: read_cells_append simp: length_concat comp_def sum_list_triv mult.commute)
  with Cons.IH [of "p + 32" "i - 1"] Cons.prems(2) read_felt_cells show ?case
    by (cases i) (auto simp: add.assoc)
qed simp

lemma puts_felts:
  assumes "alloc_ok A" "length fs \<le> 3"
    and "\<And>h p. (\<And>i. i < length fs \<Longrightarrow> read_felt h (p + 32 * i) = Ok (fs ! i)) \<Longrightarrow> from_ptr_fuel n R E h t p = Ok v"
  shows "puts n R E t v (alloc_felts A fs)"
proof (rule puts_cong [OF puts_bytes [where bs = "concat (map felt_bytes_le fs)" and L = "\<lparr>lsize = 32 * length fs, lalign = 16\<rparr>"]])
  have len: "length (concat (map felt_bytes_le fs)) = 32 * length fs"
    by (simp add: length_concat comp_def sum_list_triv mult.commute)
  then show "length (concat (map felt_bytes_le fs)) \<le> lsize \<lparr>lsize = 32 * length fs, lalign = 16\<rparr>" by simp
  fix h p
  assume "read_cells h p (length (concat (map felt_bytes_le fs))) = Ok (map Byte (concat (map felt_bytes_le fs)))"
  then show "from_ptr_fuel n R E h t p = Ok v" unfolding len by (intro assms(3) read_felts)
qed (use assms in \<open>simp_all add: alloc_felts_eq\<close>)

lemma puts_word:
  assumes "alloc_ok A" "LENGTH('a) = 8 * k" "k \<le> lsize L"
    and "\<And>h p. read_uint h p k = Ok (unat x) \<Longrightarrow> from_ptr_fuel n R E h t p = Ok v"
  shows "puts n R E t v (\<lambda>h. Ok (alloc_bytes A L (le_bytes k (unat (x :: 'a :: len word))) h))"
  by (rule puts_bytes) (use assms read_word_cells [where x = x and n = k] in auto)

lemma puts_word_inline:
  assumes "alloc_ok A" "LENGTH('a) = 8 * k"
    and "\<And>h p. read_uint h p k = Ok (unat (x :: 'a :: len word)) \<Longrightarrow> from_ptr_fuel n R E h t p = Ok v"
    and "\<And>h. write_inline R A w rty v h = Ok (alloc_bytes A \<lparr>lsize = k, lalign = k\<rparr> (le_bytes k (unat x)) h)"
  shows "puts n R E t v (write_inline R A w rty v)"
  by (rule puts_cong [OF puts_word [where L = "\<lparr>lsize = k, lalign = k\<rparr>"]]) (use assms in simp_all)

lemma puts_felt:
  assumes "alloc_ok A" "\<And>h p. read_felt h p = Ok f \<Longrightarrow> from_ptr_fuel n R E h t p = Ok v"
  shows "puts n R E t v (\<lambda>h. Ok (alloc_bytes A (get_integer_layout 252) (felt_bytes_le f) h))"
  by (rule puts_bytes) (use assms read_felt_cells in \<open>auto simp: get_integer_layout_def\<close>)

lemma ec_state_read:
  assumes "affine_ok E" "to_projective x y = (a, b, c)"
    "read_felt h p = Ok a" "read_felt h (p + 32) = Ok b" "read_felt h (p + 64) = Ok c"
  shows "read_ec_state E h p = Ok (NEcState x y)"
  using assms by (auto simp: read_ec_state_def to_projective_def affine_ok_def simp del: and_then_Ok split: if_splits)

lemma puts_scalar:
  assumes "alloc_ok A" "affine_ok E" "get_type R t = Some ty" "scalar ty v"
  shows "puts (Suc n) R E t v (write_inline R A w rty v)"
proof (cases v)
  case (NEcPoint x y)
  have "puts (Suc n) R E t v (alloc_felts A [x, y])"
  proof (rule puts_felts [OF assms(1)])
    fix h p
    assume a: "\<And>i. i < length [x, y] \<Longrightarrow> read_felt h (p + 32 * i) = Ok ([x, y] ! i)"
    from a [of 0] a [of 1] show "from_ptr_fuel (Suc n) R E h t p = Ok v"
      using assms(3,4) NEcPoint by (auto simp: scalar_def)
  qed simp
  then show ?thesis by (rule puts_cong) (simp add: write_inline_def NEcPoint del: and_then_Ok)
next
  case (NEcState x y)
  obtain a b c where abc: "to_projective x y = (a, b, c)" by (cases "to_projective x y")
  have "puts (Suc n) R E t v (alloc_felts A [a, b, c])"
  proof (rule puts_felts [OF assms(1)])
    fix h p
    assume r: "\<And>i. i < length [a, b, c] \<Longrightarrow> read_felt h (p + 32 * i) = Ok ([a, b, c] ! i)"
    from r [of 0] r [of 1] r [of 2] ec_state_read [OF assms(2) abc] show "from_ptr_fuel (Suc n) R E h t p = Ok v"
      using assms(3,4) NEcState by (auto simp: scalar_def)
  qed simp
  then show ?thesis by (rule puts_cong) (simp add: write_inline_def NEcState abc del: and_then_Ok)
next
  case (NBytes31 bs)
  have "puts (Suc n) R E t v (\<lambda>h. Ok (alloc_bytes A (get_integer_layout 248) bs h))"
    by (rule puts_bytes [OF assms(1)])
      (use assms(3,4) NBytes31 read_bytes_cells in \<open>auto simp: scalar_def get_integer_layout_def\<close>)
  then show ?thesis by (rule puts_cong) (simp add: write_inline_def NBytes31)
next
  case (NFelt252 f)
  have "puts (Suc n) R E t v (\<lambda>h. Ok (alloc_bytes A (get_integer_layout 252) (felt_bytes_le f) h))"
    by (rule puts_felt [OF assms(1)]) (use assms(3,4) NFelt252 in \<open>auto simp: scalar_def read_starknet_def\<close>)
  then show ?thesis by (rule puts_cong) (simp add: write_inline_def NFelt252 del: and_then_Ok)
next
  case (NUint8 x)
  with assms show ?thesis by (intro puts_word_inline [where k = 1 and x = x]) (auto simp: scalar_def write_inline_def)
next
  case (NSint8 x)
  with assms show ?thesis by (intro puts_word_inline [where k = 1 and x = x]) (auto simp: scalar_def write_inline_def)
next
  case (NUint16 x)
  with assms show ?thesis by (intro puts_word_inline [where k = 2 and x = x]) (auto simp: scalar_def write_inline_def)
next
  case (NSint16 x)
  with assms show ?thesis by (intro puts_word_inline [where k = 2 and x = x]) (auto simp: scalar_def write_inline_def)
next
  case (NUint32 x)
  with assms show ?thesis by (intro puts_word_inline [where k = 4 and x = x]) (auto simp: scalar_def write_inline_def)
next
  case (NSint32 x)
  with assms show ?thesis by (intro puts_word_inline [where k = 4 and x = x]) (auto simp: scalar_def write_inline_def)
next
  case (NUint64 x)
  with assms show ?thesis by (intro puts_word_inline [where k = 8 and x = x]) (auto simp: scalar_def write_inline_def)
next
  case (NSint64 x)
  with assms show ?thesis by (intro puts_word_inline [where k = 8 and x = x]) (auto simp: scalar_def write_inline_def)
next
  case (NUint128 x)
  with assms show ?thesis by (intro puts_word_inline [where k = 16 and x = x]) (auto simp: scalar_def write_inline_def)
next
  case (NSint128 x)
  with assms show ?thesis by (intro puts_word_inline [where k = 16 and x = x]) (auto simp: scalar_def write_inline_def)
qed (use assms(4) in \<open>simp_all add: scalar_def\<close>)

section \<open>Boxes, structs and ranges\<close>

lemma layout_allocates: "wf_layout L \<Longrightarrow> arena_alloc A (lsize L) (lalign L) h = Ok (alloc_layout A L h)"
  by (cases L) (auto simp: arena_alloc_def from_size_align_def wf_layout_def pow2_iff
      intro: exI [of _ 0] exI [of _ 1] exI [of _ 2] exI [of _ 3] exI [of _ 4])

text \<open>A copy of a value in a new block.\<close>

lemma held_copy:
  assumes "held (from_ptr_fuel n R E h t) p v" "get_type R t = Some ty" "ty_layout R ty = Ok L"
    and "fresh h q (lsize L)" "heap_ok h" "q \<noteq> 0"
  shows "held (from_ptr_fuel n R E (copy_bytes p q (lsize L) h) t) q v"
  using copy_bytes_fresh(3,4) [OF assms(4,5)] by (intro held_move [OF assms(1,2,3)]) (use assms(6) in simp_all)

lemma alloc_ptr_new:
  assumes "alloc_ok A" "heap_ok h"
  obtains p h' where "alloc_ptr A a h = (p, h')" "p \<noteq> 0" "upd {} h h'" "heap_ok h'" "read_ptr h' p = Ok a"
proof -
  have "length (ptr_cells a) \<le> lsize ptr_layout" by (simp add: ptr_layout_def)
  from alloc_cells_new [OF assms this] obtain p h' where
    "alloc_cells A ptr_layout (ptr_cells a) h = (p, h')" "p \<noteq> 0" "upd {} h h'" "heap_ok h'"
    "read_cells h' p 8 = Ok (ptr_cells a)" by auto
  with that show ?thesis by (simp add: alloc_ptr_def read_ptr_cells)
qed

lemma puts_boxed:
  assumes "alloc_ok A" "get_type R e = Some ty" "ty_layout R ty = Ok L" "puts n R E e v (w e v)"
    and "get_type R t = Some (BoxT e) \<or> get_type R t = Some (NullableT e)"
  shows "puts (Suc n) R E t v (write_boxed R A w e v)"
  unfolding puts_def
proof (intro allI impI)
  fix h
  assume "heap_ok h"
  with assms(4) obtain p h1 where p: "w e v h = Ok (p, h1)" "upd {} h h1" "heap_ok h1"
    "held (from_ptr_fuel n R E h1 e) p v" by (rule putsE)
  from alloc_layout_new [OF assms(1) p(3)] obtain q h2 where
    q: "alloc_layout A L h1 = (q, h2)" "new_block h1 q (lsize L) h2" by blast
  then have q2: "q \<noteq> 0" "upd {} h1 h2" "heap_ok h2" "fresh h2 q (lsize L)" by (auto simp: new_block_def)
  let ?h3 = "copy_bytes p q (lsize L) h2"
  note cp = copy_bytes_fresh [OF q2(4,3), of p]
  have held: "held (from_ptr_fuel n R E ?h3 e) q v"
    by (rule held_copy [OF held_grow [OF p(4) upd_below [OF q2(2) p(3)]] assms(2,3) q2(4,3,1)]) simp
  from alloc_ptr_new [OF assms(1) cp(2)] obtain r h4 where
    r: "alloc_ptr A q ?h3 = (r, h4)" "r \<noteq> 0" "upd {} ?h3 h4" "heap_ok h4" "read_ptr h4 r = Ok q" by blast
  have "held (from_ptr_fuel n R E h4 e) q v" using held upd_below [OF r(3) cp(2)] by (rule held_grow) simp
  then have "held (from_ptr_fuel (Suc n) R E h4 t) r v"
    using r(2,5) q2(1) assms(5) by (auto simp: held_def)
  moreover have "upd {} h h4"
    using upd_trans [OF upd_trans [OF p(2) new_block_write [OF q(2) cp(1)]] r(3)] by simp
  moreover have "write_boxed R A w e v h = Ok (r, h4)"
    using assms(2,3) p(1) q(1) r(1) layout_allocates [OF ty_layout_wf(1) [OF assms(3)]]
    by (simp add: write_boxed_def registry_get_def ok_or_def del: and_then_Ok)
  ultimately show "\<exists>p h'. write_boxed R A w e v h = Ok (p, h') \<and> upd {} h h' \<and> heap_ok h' \<and>
      held (from_ptr_fuel (Suc n) R E h' t) p v"
    using r(4) by blast
qed

lemma puts_int_range:
  assumes "alloc_ok A" "get_type R t = Some (IntRangeT e)" "ty_layout R (IntRangeT e) = Ok L"
    and "puts n R E e x (w e x)" "puts n R E e y (w e y)"
  shows "puts (Suc n) R E t (NIntRange x y) (write_int_range R A w e x y)"
  unfolding puts_def
proof (intro allI impI)
  fix h
  assume h: "heap_ok h"
  obtain ty M S off where S: "get_type R e = Some ty" "ty_layout R ty = Ok M" "layout_extend M M = Ok (S, off)"
    "L = pad_to_align S" "lsize M \<le> off" "off + lsize M \<le> lsize L"
    by (rule ty_layout_int_range [OF assms(3)])
  from assms(4) h obtain px h1 where x: "w e x h = Ok (px, h1)" "upd {} h h1" "heap_ok h1"
    "held (from_ptr_fuel n R E h1 e) px x" by (rule putsE)
  from assms(5) x(3) obtain py h2 where y: "w e y h1 = Ok (py, h2)" "upd {} h1 h2" "heap_ok h2"
    "held (from_ptr_fuel n R E h2 e) py y" "below h1 h2" by (rule putsE)
  from alloc_layout_new [OF assms(1) y(3)] obtain p h3 where
    p: "alloc_layout A L h2 = (p, h3)" "new_block h2 p (lsize L) h3" by blast
  then have p2: "p \<noteq> 0" "upd {} h2 h3" "heap_ok h3" "fresh h3 p (lsize L)" by (auto simp: new_block_def)
  have b3: "below h2 h3" by (rule upd_below [OF p2(2) y(3)]) simp
  let ?h4 = "copy_bytes px p (lsize M) h3" let ?h5 = "copy_bytes py (p + off) (lsize M) ?h4"
  have f4: "fresh h3 p (lsize M)" using fresh_part [OF p2(4), of 0 "lsize M"] S(5,6) by simp
  note c4 = copy_bytes_fresh [OF f4 p2(3), of px]
  have f5: "fresh ?h4 (p + off) (lsize M)"
    by (rule fresh_upd [OF fresh_part [OF p2(4) S(6)] c4(1)]) (use S(5) in auto)
  note c5 = copy_bytes_fresh [OF f5 c4(2), of py]
  have "held (from_ptr_fuel n R E ?h4 e) p x"
    by (rule held_copy [OF held_grow [OF x(4) below_trans [OF y(5) b3]] S(1,2) f4 p2(3,1)])
  then have hx: "held (from_ptr_fuel n R E ?h5 e) p x" using c5(3) by (rule held_grow)
  have hy: "held (from_ptr_fuel n R E ?h5 e) (p + off) y"
    by (rule held_copy [OF held_grow [OF y(4) below_trans [OF b3 c4(3)]] S(1,2) f5 c4(2)]) (use p2(1) in simp)
  have "read_int_range R (from_ptr_fuel n R E ?h5) p e = Ok (NIntRange x y)"
    unfolding read_int_range_Ok using S(1-3) hx hy by blast
  then have "held (from_ptr_fuel (Suc n) R E ?h5 t) p (NIntRange x y)"
    using p2(1) assms(2) by (simp add: held_def)
  moreover have "upd {p ..< p + lsize L} h3 ?h5"
    by (rule upd_mono [OF upd_trans [OF c4(1) c5(1)]]) (use S(5,6) in auto)
  then have "upd {} h ?h5"
    using upd_trans [OF upd_trans [OF x(2) y(2)] new_block_write [OF p(2)]] by simp
  moreover have "write_int_range R A w e x y h = Ok (p, ?h5)"
    using S(1-4) x(1) y(1) p(1) by (simp add: write_int_range_def registry_get_def ok_or_def del: and_then_Ok)
  ultimately show "\<exists>p h'. write_int_range R A w e x y h = Ok (p, h') \<and> upd {} h h' \<and> heap_ok h' \<and>
      held (from_ptr_fuel (Suc n) R E h' t) p (NIntRange x y)"
    using c5(2) by blast
qed

section \<open>Enums and bounded integers\<close>

lemma enum_index_id: "tag < length vs \<Longrightarrow> enum_index vs tag = tag"
proof -
  assume "tag < length vs"
  then have "tag < 2 ^ bits (length vs - 1)"
    using less_two_pow_bits [of "length vs - 1"] by linarith
  then have "tag AND mask (bits (length vs - 1)) = tag"
    by (simp add: take_bit_eq_mask [symmetric] take_bit_nat_eq_self)
  then show ?thesis by (simp add: enum_index_def next_power_of_two_def mask_eq_exp_minus_1)
qed

lemma tag_layout_size:
  assumes "length vs \<le> 2 ^ 64"
  shows "lsize (get_integer_layout (tag_bits vs)) \<in> {0, 1, 2, 4, 8}"
    and "1 < length vs \<Longrightarrow> lsize (get_integer_layout (tag_bits vs)) \<noteq> 0"
proof -
  have le: "tag_bits vs \<le> 64"
    unfolding tag_bits_def bits_le_iff using assms by (cases "length vs") auto
  then show "lsize (get_integer_layout (tag_bits vs)) \<in> {0, 1, 2, 4, 8}"
    by (simp add: get_integer_layout_def unit_layout_def)
  have "tag_bits vs \<noteq> 0" if "1 < length vs"
    using that by (simp add: tag_bits_def bits.simps [of "length vs - 1"] bits.simps [of "length vs - Suc 0"])
  then show "lsize (get_integer_layout (tag_bits vs)) \<noteq> 0" if "1 < length vs"
    using that le by (simp add: get_integer_layout_def)
qed

lemma enum_tag_cells:
  assumes "length vs \<le> 2 ^ 64" "tag < length vs"
    and "read_cells h p (lsize (get_integer_layout (tag_bits vs))) =
      Ok (map Byte (le_bytes (lsize (get_integer_layout (tag_bits vs))) tag))"
  shows "enum_tag h p (get_integer_layout (tag_bits vs)) vs = Ok tag"
proof (cases "1 < length vs")
  case True
  let ?k = "lsize (get_integer_layout (tag_bits vs))"
  have "tag < 256 ^ ?k"
    using variants_le_tag [of vs] assms(2) by (simp add: power_mult)
  then have "read_uint h p ?k = Ok tag" using read_uint_cells [OF assms(3)] by (simp add: from_le_bytes)
  moreover obtain a b cs where "vs = a # b # cs" using True by (cases vs; cases "tl vs") auto
  ultimately show ?thesis using tag_layout_size [OF assms(1)] True by (auto simp: enum_tag_def)
next
  case False
  with assms(2) obtain a where "vs = [a]" by (cases vs; cases "tl vs") auto
  then show ?thesis using assms(2) by (simp add: enum_tag_def)
qed

lemma puts_enum:
  assumes "alloc_ok A" "get_type R t = Some (EnumT vs)" "ty_layout R (EnumT vs) = Ok M"
    and "tag < length vs" "length vs \<le> 2 ^ 64" "puts n R E (vs ! tag) v (w (vs ! tag) v)"
  shows "puts (Suc n) R E t (NEnum tag v) (write_enum R A w vs tag v)"
  unfolding puts_def
proof (intro allI impI)
  fix h
  assume h: "heap_ok h"
  let ?T = "get_integer_layout (tag_bits vs)"
  obtain L Ls where L: "get_layout_for_variants R vs = Ok (L, ?T, Ls)" "lsize ?T \<le> lsize L" "length Ls = length vs"
    "\<And>i. i < length vs \<Longrightarrow> \<exists>ty N off. get_type R (vs ! i) = Some ty \<and> ty_layout R ty = Ok (Ls ! i) \<and>
      layout_extend ?T (Ls ! i) = Ok (N, off) \<and> lsize ?T \<le> off \<and> off + lsize (Ls ! i) \<le> lsize L"
    by (rule enum_layout_payload [OF assms(3)]) (rule that)
  obtain ty N off where x: "get_type R (vs ! tag) = Some ty" "ty_layout R ty = Ok (Ls ! tag)"
    "layout_extend ?T (Ls ! tag) = Ok (N, off)" "lsize ?T \<le> off" "off + lsize (Ls ! tag) \<le> lsize L"
    using L(4) [OF assms(4)] by blast
  from assms(6) h obtain q h1 where q: "w (vs ! tag) v h = Ok (q, h1)" "upd {} h h1" "heap_ok h1"
    "held (from_ptr_fuel n R E h1 (vs ! tag)) q v" by (rule putsE)
  from alloc_layout_new [OF assms(1) q(3)] obtain p h2 where
    p: "alloc_layout A L h1 = (p, h2)" "new_block h1 p (lsize L) h2" by blast
  then have p2: "p \<noteq> 0" "upd {} h1 h2" "heap_ok h2" "fresh h2 p (lsize L)" by (auto simp: new_block_def)
  let ?bs = "le_bytes (lsize ?T) tag"
  let ?h3 = "write_cells p (map Byte ?bs) h2"
  have len: "length (map Byte ?bs) = lsize ?T" by simp
  then have "length (map Byte ?bs) \<le> lsize L" using L(2) by simp
  note w3 = write_cells_fresh [OF p2(4,3) this, unfolded len]
  have f3: "fresh ?h3 (p + off) (lsize (Ls ! tag))"
    by (rule fresh_upd [OF fresh_part [OF p2(4) x(5)] w3(1)]) (use x(4) in auto)
  let ?h4 = "copy_bytes q (p + off) (lsize (Ls ! tag)) ?h3"
  note c4 = copy_bytes_fresh [OF f3 w3(2), of q]
  have "held (from_ptr_fuel n R E ?h4 (vs ! tag)) (p + off) v"
    by (rule held_copy [OF held_grow [OF q(4) below_trans [OF upd_below [OF p2(2) q(3)] w3(3)]] x(1,2) f3 w3(2)])
      (use p2(1) in simp_all)
  moreover have "enum_tag ?h4 p ?T vs = Ok tag"
    by (rule enum_tag_inline [OF enum_tag_cells [OF assms(5,4) w3(4)] below_inline [OF c4(3)]])
  ultimately have "read_enum R (from_ptr_fuel n R E ?h4) ?h4 p vs = Ok (NEnum tag v)"
    unfolding read_enum_Ok using L(1) assms(4) x(3) enum_index_id [OF assms(4)] by metis
  then have "held (from_ptr_fuel (Suc n) R E ?h4 t) p (NEnum tag v)"
    using p2(1) assms(2) by (simp add: held_def)
  moreover have "upd {p ..< p + lsize L} h2 ?h4"
    by (rule upd_mono [OF upd_trans [OF w3(1) c4(1)]]) (use x(4,5) in auto)
  then have "upd {} h ?h4" using upd_trans [OF q(2) new_block_write [OF p(2)]] by simp
  moreover have "write_enum R A w vs tag v h = Ok (p, ?h4)"
    using assms(4) q(1) L(1) p(1) x(3) tag_layout_size(1) [OF assms(5)]
    by (simp add: write_enum_def tag_bytes_def del: and_then_Ok)
  ultimately show "\<exists>p h'. write_enum R A w vs tag v h = Ok (p, h') \<and> upd {} h h' \<and> heap_ok h' \<and>
      held (from_ptr_fuel (Suc n) R E h' t) p (NEnum tag v)"
    using c4(2) by blast
qed

lemma from_bytes_le_append: "from_bytes_le (xs @ ys) = from_bytes_le xs + 256 ^ length xs * from_bytes_le ys"
  by (induction xs) (simp_all add: from_bytes_le_def algebra_simps)

lemma repr_decode_low: "repr_decode r (raw + 2 ^ repr_bit_width r * k) = repr_decode r raw"
  by (simp add: repr_decode_def mask_eq_exp_minus_1 [symmetric] take_bit_eq_mask [symmetric] take_bit_eq_mod)

lemma repr_decode_take:
  assumes "repr_bit_width r \<le> 8 * k"
  shows "repr_decode r (from_bytes_le (take k bs)) = repr_decode r (from_bytes_le bs)"
proof (cases "k \<le> length bs")
  case True
  have "from_bytes_le bs = from_bytes_le (take k bs) + 256 ^ k * from_bytes_le (drop k bs)"
    using from_bytes_le_append [of "take k bs" "drop k bs"] True by simp
  also have "(256 :: nat) ^ k = 2 ^ repr_bit_width r * 2 ^ (8 * k - repr_bit_width r)"
    using assms by (simp add: power_add [symmetric] power_mult)
  finally show ?thesis by (simp add: repr_decode_low mult.assoc)
qed simp

lemma puts_bounded:
  assumes "alloc_ok A" "get_type R t = Some (BoundedIntT r) \<or> get_type R t = Some (BoundedIntGuaranteeT r)"
    and "rty = BoundedIntT r \<or> rty = BoundedIntGuaranteeT r" "in_range r f"
  shows "puts (Suc n) R E t (NBoundedInt f r) (write_bounded A rty f r)"
proof -
  let ?w = "repr_bit_width r"
  let ?k = "(?w + 7) div 8"
  have r: "range_size r \<le> 2 ^ 256" using assms(4) by (simp add: in_range_def PRIME_def)
  obtain bs where bs: "repr_encode r (felt_int f) = Some bs"
    using assms(4) by (auto simp: in_range_def repr_encode_def Let_def)
  note enc = repr_encode_decode [OF bs r]
  have k: "?k \<le> length bs" "?w \<le> 8 * ?k"
    using integer_layout_bits [of ?w] enc(1) by linarith+
  have dec: "felt_of_int (repr_decode r (from_bytes_le (take ?k bs))) = f"
  proof -
    have "((felt_int f - rng_lower r) mod PRIME + rng_lower r) mod PRIME = felt_int f mod PRIME"
      by (simp add: mod_simps)
    then have "felt_of_int ((felt_int f - rng_lower r) mod PRIME + rng_lower r) = felt_of_int (felt_int f)"
      unfolding felt_of_int_eq .
    then show ?thesis by (simp only: repr_decode_take [OF k(2)] enc(2) felt_of_int_int)
  qed
  have "puts (Suc n) R E t (NBoundedInt f r)
      (\<lambda>h. Ok (alloc_bytes A (get_integer_layout ?w) bs h))"
  proof (rule puts_bytes [OF assms(1)])
    fix h p
    assume "read_cells h p (length bs) = Ok (map Byte bs)"
    then have "read_cells h p (length bs) = Ok (map Byte (take ?k bs) @ map Byte (drop ?k bs))"
      by (simp add: map_append [symmetric] del: map_append)
    from read_cells_append [OF this] have "read_uint h p ?k = Ok (from_bytes_le (take ?k bs))"
      using k(1) by (auto dest: read_uint_cells simp: min_absorb2)
    then show "from_ptr_fuel (Suc n) R E h t p = Ok (NBoundedInt f r)"
      using assms(2) dec by (auto simp: read_bounded_def)
  qed (simp add: enc(1))
  then show ?thesis
    by (rule puts_cong) (use assms(3,4) bs in \<open>auto simp: write_bounded_def in_range_def simp del: and_then_Ok\<close>)
qed

section \<open>Structs\<close>

text \<open>
  A written member: its type, layout and offset, where it was written first, and its value.
\<close>

type_synonym member = "type_id \<times> layout \<times> nat \<times> nat \<times> nval"

definition m_span :: "member \<Rightarrow> type_id \<times> layout \<times> nat" where
  "m_span = (\<lambda>(m, L, off, p, v). (m, L, off))"
definition m_data :: "member \<Rightarrow> layout \<times> nat \<times> nat" where
  "m_data = (\<lambda>(m, L, off, p, v). (L, off, p))"
definition m_value :: "member \<Rightarrow> nval" where
  "m_value = (\<lambda>(m, L, off, p, v). v)"

lemma write_members_puts:
  assumes "spans R acc ms = Ok (ss, acc')" "list_all2 (\<lambda>m v. puts n R E m v (w m v)) ms vs" "heap_ok h"
  shows "\<exists>qs h'. write_members R w acc (zip ms vs) h = Ok (acc', map m_data qs, h') \<and> upd {} h h' \<and> heap_ok h' \<and>
    map m_span qs = ss \<and> map m_value qs = vs \<and>
    (\<forall>(m, L, off, p, v) \<in> set qs. held (from_ptr_fuel n R E h' m) p v)"
  using assms
proof (induction R acc ms arbitrary: ss vs h rule: spans.induct)
  case (1 R acc)
  then show ?case by (auto intro: exI [of _ "[]"])
next
  case (2 R acc m ms)
  from "2.prems"(1) obtain ty L N off ss' where
    s: "get_type R m = Some ty" "ty_layout R ty = Ok L" "struct_step acc L = Ok (N, off)"
      "spans R (Some N) ms = Ok (ss', acc')" "ss = (m, L, off) # ss'"
    by auto
  from "2.prems"(2) obtain v vs' where v: "vs = v # vs'" "puts n R E m v (w m v)"
    "list_all2 (\<lambda>m v. puts n R E m v (w m v)) ms vs'"
    by (auto simp: list_all2_Cons1)
  from v(2) "2.prems"(3) obtain p h1 where p: "w m v h = Ok (p, h1)" "upd {} h h1" "heap_ok h1"
    "held (from_ptr_fuel n R E h1 m) p v" by (rule putsE)
  have "\<exists>qs h'. write_members R w (Some N) (zip ms vs') h1 = Ok (acc', map m_data qs, h') \<and> upd {} h1 h' \<and>
      heap_ok h' \<and> map m_span qs = ss' \<and> map m_value qs = vs' \<and>
      (\<forall>(m, L, off, p, v) \<in> set qs. held (from_ptr_fuel n R E h' m) p v)"
    by (rule "2.IH" [OF _ _ _ refl s(4) v(3) p(3)]) (use s in simp_all)
  then obtain qs h' where q: "write_members R w (Some N) (zip ms vs') h1 = Ok (acc', map m_data qs, h')"
    "upd {} h1 h'" "heap_ok h'" "map m_span qs = ss'" "map m_value qs = vs'"
    "\<forall>(m, L, off, p, v) \<in> set qs. held (from_ptr_fuel n R E h' m) p v" by blast
  have "held (from_ptr_fuel n R E h' m) p v"
    by (rule held_grow [OF p(4) upd_below [OF q(2) p(3)]]) simp
  moreover have "upd {} h h'" using upd_trans [OF p(2) q(2)] by simp
  moreover have "write_members R w acc (zip (m # ms) vs) h = Ok (acc', map m_data ((m, L, off, p, v) # qs), h')"
    using s(1-3) v(1) p(1) q(1) by (simp add: m_data_def)
  ultimately show ?case using q s(5) v(1)
    by (intro exI [of _ "(m, L, off, p, v) # qs"] exI [of _ h']) (simp add: m_span_def m_value_def)
qed

lemma copy_members_puts:
  assumes "chain lo (map m_span qs) hi" "fresh h (dst + lo) (hi - lo)" "heap_ok h" "dst \<noteq> 0"
    and "\<forall>(m, L, off, p, v) \<in> set qs. held (from_ptr_fuel n R E h m) p v \<and>
      (\<exists>ty. get_type R m = Some ty \<and> ty_layout R ty = Ok L)"
  shows "upd {dst + lo ..< dst + hi} h (copy_members dst (map m_data qs) h) \<and>
    heap_ok (copy_members dst (map m_data qs) h) \<and> below h (copy_members dst (map m_data qs) h) \<and>
    (\<forall>(m, L, off, p, v) \<in> set qs. held (from_ptr_fuel n R E (copy_members dst (map m_data qs) h) m) (dst + off) v)"
  using assms
proof (induction qs arbitrary: lo h)
  case Nil
  then show ?case by (simp add: copy_members_def)
next
  case (Cons x qs)
  obtain m L off p v where x: "x = (m, L, off, p, v)" by (cases x)
  have ch: "lo \<le> off" "chain (off + lsize L) (map m_span qs) hi"
    using Cons.prems(1) by (simp_all add: x m_span_def)
  note le = chain_le [OF ch(2)]
  obtain ty where h: "held (from_ptr_fuel n R E h m) p v" "get_type R m = Some ty" "ty_layout R ty = Ok L"
    using Cons.prems(5) by (auto simp: x)
  have f: "fresh h (dst + off) (lsize L)"
    using fresh_part [OF Cons.prems(2), of "off - lo" "lsize L"] ch(1) le by simp
  let ?h1 = "copy_bytes p (dst + off) (lsize L) h"
  note c = copy_bytes_fresh [OF f Cons.prems(3), of p]
  have h1: "held (from_ptr_fuel n R E ?h1 m) (dst + off) v"
    using held_copy [OF h f Cons.prems(3)] Cons.prems(4) by simp
  have f1: "fresh ?h1 (dst + (off + lsize L)) (hi - (off + lsize L))"
    by (rule fresh_upd [OF _ c(1)])
      (use fresh_part [OF Cons.prems(2), of "off + lsize L - lo" "hi - (off + lsize L)"] ch(1) le in \<open>auto simp: add.assoc\<close>)
  have "\<forall>(m, L, off, p, v) \<in> set qs. held (from_ptr_fuel n R E ?h1 m) p v \<and>
      (\<exists>ty. get_type R m = Some ty \<and> ty_layout R ty = Ok L)"
    using Cons.prems(5) held_grow [OF _ c(3)] by fastforce
  note IH = Cons.IH [OF ch(2) f1 c(2) Cons.prems(4) this]
  let ?h2 = "copy_members dst (map m_data qs) ?h1"
  have eq: "copy_members dst (map m_data (x # qs)) h = ?h2"
    by (simp add: copy_members_def x m_data_def)
  have "upd {dst + lo ..< dst + hi} h ?h2"
    by (rule upd_mono [OF upd_trans [OF c(1) IH [THEN conjunct1]]]) (use ch(1) le in auto)
  moreover have "below h ?h2" using IH c(3) below_trans by blast
  moreover have "held (from_ptr_fuel n R E ?h2 m) (dst + off) v" using h1 IH held_grow by blast
  ultimately show ?case unfolding eq using IH by (auto simp: x)
qed

lemma puts_struct:
  assumes "alloc_ok A" "get_type R t = Some (StructT ms)" "ty_layout R (StructT ms) = Ok L"
    and "list_all2 (\<lambda>m v. puts n R E m v (w m v)) ms vs"
  shows "puts (Suc n) R E t (NStruct vs) (write_struct R A w ms vs)"
  unfolding puts_def
proof (intro allI impI)
  fix h
  assume h: "heap_ok h"
  obtain ss acc where ss: "spans R None ms = Ok (ss, acc)" "chain 0 ss (lsize L)"
    "L = pad_to_align (case acc of Some L \<Rightarrow> L | None \<Rightarrow> unit_layout)"
    by (rule struct_layout [OF assms(3)])
  from write_members_puts [OF ss(1) assms(4) h] obtain qs h1 where
    q: "write_members R w None (zip ms vs) h = Ok (acc, map m_data qs, h1)" "upd {} h h1" "heap_ok h1"
      "map m_span qs = ss" "map m_value qs = vs"
      "\<forall>(m, L, off, p, v) \<in> set qs. held (from_ptr_fuel n R E h1 m) p v" by blast
  from alloc_layout_new [OF assms(1) q(3)] obtain p h2 where
    p: "alloc_layout A L h1 = (p, h2)" "new_block h1 p (lsize L) h2" by blast
  then have p2: "p \<noteq> 0" "upd {} h1 h2" "heap_ok h2" "fresh h2 p (lsize L)" by (auto simp: new_block_def)
  let ?h3 = "copy_members p (map m_data qs) h2"
  have "\<forall>(m, M, off, q, v) \<in> set qs. held (from_ptr_fuel n R E h2 m) q v \<and>
      (\<exists>ty. get_type R m = Some ty \<and> ty_layout R ty = Ok M)"
  proof clarify
    fix m M off q' v
    assume a: "(m, M, off, q', v) \<in> set qs"
    then have "(m, M, off) \<in> set ss" unfolding q(4) [symmetric] by (force simp: m_span_def)
    from spans_member [OF ss(1) this] held_grow [OF _ upd_below [OF p2(2) q(3)]] q(6) a
    show "held (from_ptr_fuel n R E h2 m) q' v \<and> (\<exists>ty. get_type R m = Some ty \<and> ty_layout R ty = Ok M)"
      by fastforce
  qed
  with copy_members_puts [of 0 qs "lsize L" h2 p n R E] ss(2) q(4) p2 have
    c: "upd {p ..< p + lsize L} h2 ?h3" "heap_ok ?h3"
      "\<forall>(m, M, off, q, v) \<in> set qs. held (from_ptr_fuel n R E ?h3 m) (p + off) v"
    by simp_all
  have "list_all2 (\<lambda>(m, M, off) v. held (from_ptr_fuel n R E ?h3 m) (p + off) v) ss vs"
    unfolding q(4) [symmetric] q(5) [symmetric] list_all2_map1 list_all2_map2
    using c(3) by (intro list_all2_all_nthI) (auto simp: m_span_def m_value_def split: prod.splits dest!: nth_mem)
  with ss(1) have "read_members R (from_ptr_fuel n R E ?h3) p None ms = Ok vs"
    unfolding read_members_Ok by blast
  then have "held (from_ptr_fuel (Suc n) R E ?h3 t) p (NStruct vs)"
    using p2(1) assms(2) by (simp add: held_def)
  moreover have "upd {} h ?h3" using upd_trans [OF q(2) new_block_write [OF p(2) c(1)]] by simp
  moreover have "write_struct R A w ms vs h = Ok (p, ?h3)"
    using q(1) p(1) ss(3) by (simp add: write_struct_def del: and_then_Ok)
  ultimately show "\<exists>p h'. write_struct R A w ms vs h = Ok (p, h') \<and> upd {} h h' \<and> heap_ok h' \<and>
      held (from_ptr_fuel (Suc n) R E h' t) p (NStruct vs)"
    using c(2) by blast
qed

section \<open>Arrays and dictionaries\<close>

text \<open>Writing a value and copying it to a free slot, the step of both loops.\<close>

lemma slot_puts:
  assumes "get_type R e = Some ty" "ty_layout R ty = Ok L" "puts n R E e v W" "heap_ok h"
    and "fresh h dst k" "lsize L \<le> k" "dst \<noteq> 0"
  obtains p h1 where "W h = Ok (p, h1)" "upd {dst ..< dst + lsize L} h (copy_bytes p dst (lsize L) h1)"
    "heap_ok (copy_bytes p dst (lsize L) h1)" "below h (copy_bytes p dst (lsize L) h1)"
    "held (from_ptr_fuel n R E (copy_bytes p dst (lsize L) h1) e) dst v"
    "fresh (copy_bytes p dst (lsize L) h1) (dst + lsize L) (k - lsize L)"
proof -
  from assms(3,4) obtain p h1 where p: "W h = Ok (p, h1)" "upd {} h h1" "heap_ok h1"
    "held (from_ptr_fuel n R E h1 e) p v" "below h h1" by (rule putsE)
  have f: "fresh h1 dst k" by (rule fresh_upd [OF assms(5) p(2)]) simp
  have f1: "fresh h1 dst (lsize L)" using fresh_part [OF f, of 0] assms(6) by simp
  let ?h2 = "copy_bytes p dst (lsize L) h1"
  note c = copy_bytes_fresh [OF f1 p(3), of p]
  have "fresh ?h2 (dst + lsize L) (k - lsize L)"
    by (rule fresh_upd [OF fresh_part [OF f] c(1)]) (use assms(6) in auto)
  moreover have "upd {dst ..< dst + lsize L} h ?h2" using upd_trans [OF p(2) c(1)] by simp
  ultimately show ?thesis
    using that p(1) c(2) below_trans [OF p(5) c(3)] held_copy [OF p(4) assms(1,2) f1 p(3) assms(7)] by blast
qed

lemma write_elems_puts:
  assumes "get_type R e = Some ty" "ty_layout R ty = Ok L" "\<forall>v \<in> set vs. puts n R E e v (w v)" "heap_ok h"
    and "fresh h dst (lsize L * length vs)" "vs \<noteq> [] \<Longrightarrow> dst \<noteq> 0"
  shows "\<exists>h'. write_elems w (lsize L) dst vs h = Ok h' \<and> upd {dst ..< dst + lsize L * length vs} h h' \<and>
    heap_ok h' \<and> below h h' \<and> (\<forall>i < length vs. held (from_ptr_fuel n R E h' e) (dst + lsize L * i) (vs ! i))"
  using assms(3-6)
proof (induction vs arbitrary: dst h)
  case (Cons v vs)
  from Cons.prems have v: "puts n R E e v (w v)" "dst \<noteq> 0" by simp_all
  have k: "lsize L \<le> lsize L * length (v # vs)" "lsize L * length (v # vs) - lsize L = lsize L * length vs" by simp_all
  obtain p h1 where p: "w v h = Ok (p, h1)" "upd {dst ..< dst + lsize L} h (copy_bytes p dst (lsize L) h1)"
    "heap_ok (copy_bytes p dst (lsize L) h1)" "below h (copy_bytes p dst (lsize L) h1)"
    "held (from_ptr_fuel n R E (copy_bytes p dst (lsize L) h1) e) dst v"
    "fresh (copy_bytes p dst (lsize L) h1) (dst + lsize L) (lsize L * length (v # vs) - lsize L)"
    by (rule slot_puts [OF assms(1,2) v(1) Cons.prems(2,3) k(1) v(2)])
  from Cons.IH [OF _ p(3) p(6) [unfolded k(2)]] Cons.prems(1) v(2) obtain h' where
    h': "write_elems w (lsize L) (dst + lsize L) vs (copy_bytes p dst (lsize L) h1) = Ok h'"
      "upd {dst + lsize L ..< dst + lsize L + lsize L * length vs} (copy_bytes p dst (lsize L) h1) h'"
      "heap_ok h'" "below (copy_bytes p dst (lsize L) h1) h'"
      "\<forall>i < length vs. held (from_ptr_fuel n R E h' e) (dst + lsize L + lsize L * i) (vs ! i)"
    by auto
  have "held (from_ptr_fuel n R E h' e) (dst + lsize L * i) ((v # vs) ! i)" if "i < length (v # vs)" for i
    using held_grow [OF p(5) h'(4)] h'(5) that by (cases i) (auto simp: add.assoc)
  moreover have "upd {dst ..< dst + lsize L * length (v # vs)} h h'"
    by (rule upd_mono [OF upd_trans [OF p(2) h'(2)]]) auto
  ultimately show ?case
    using p(1) h'(1,3) below_trans [OF p(4) h'(4)] by (simp del: and_then_Ok)
qed simp

lemma block_allocates:
  assumes "wf_layout L" "block_fits k L"
  shows "from_size_align (lsize L * k) (lalign L) = Ok \<lparr>lsize = lsize L * k, lalign = lalign L\<rparr>" "lsize L * k < 2 ^ 64"
  using assms layout_allocates [OF assms(1)]
  by (auto simp: from_size_align_def block_fits_def wf_layout_def pow2_iff
      intro: exI [of _ 0] exI [of _ 1] exI [of _ 2] exI [of _ 3] exI [of _ 4])

lemma read_array_cells:
  assumes "read_cells h p 20 = Ok (ptr_cells d @ map Byte (le_bytes 4 0 @ le_bytes 4 len @ le_bytes 4 len))" "len < 2 ^ 32"
  shows "read_ptr h p = Ok d" "read_uint h (p + 8) 4 = Ok 0" "read_uint h (p + 12) 4 = Ok len"
proof -
  from read_cells_append [OF assms(1)] have
    a: "read_cells h p 8 = Ok (ptr_cells d)"
      "read_cells h (p + 8) 12 = Ok (map Byte (le_bytes 4 0) @ map Byte (le_bytes 4 len @ le_bytes 4 len))" by simp_all
  from read_cells_append [OF a(2)] have
    b: "read_cells h (p + 8) 4 = Ok (map Byte (le_bytes 4 0))"
      "read_cells h (p + 12) 8 = Ok (map Byte (le_bytes 4 len) @ map Byte (le_bytes 4 len))" by (simp_all add: add.assoc)
  from read_cells_append [OF b(2)] have c: "read_cells h (p + 12) 4 = Ok (map Byte (le_bytes 4 len))" by simp
  show "read_ptr h p = Ok d" using a(1) by (rule read_ptr_cells)
  show "read_uint h (p + 8) 4 = Ok 0" using read_uint_cells [OF b(1)] from_le_bytes [of 0 4] by simp
  show "read_uint h (p + 12) 4 = Ok len" using read_uint_cells [OF c] from_le_bytes [of len 4] assms(2) by simp
qed

lemma puts_array:
  assumes "alloc_ok A" "get_type R t = Some (ArrayT e)" "get_type R e = Some ty" "ty_layout R ty = Ok L"
    and "length vs < 2 ^ 32" "block_fits (length vs) L" "\<forall>v \<in> set vs. puts n R E e v (w e v)"
  shows "puts (Suc n) R E t (NArray vs) (write_array R A w e vs)"
  unfolding puts_def
proof (intro allI impI)
  fix h
  assume h: "heap_ok h"
  note wf = ty_layout_wf(1) [OF assms(4)]
  note pad = pad_padded [OF ty_layout_padded [OF assms(4)]]
  let ?n = "length vs" and ?B = "\<lparr>lsize = lsize L * length vs, lalign = lalign L\<rparr>"
  define alloc where "alloc = (if ?n = 0 then Ok (0, h)
    else if 2 ^ 64 \<le> lsize L * ?n then Panic
    else and_then (from_size_align (lsize L * ?n) (lalign L)) (\<lambda>B. Ok (alloc_layout A B h)))"
  have "\<exists>d h1. alloc = Ok (d, h1) \<and> (vs \<noteq> [] \<longrightarrow> d \<noteq> 0) \<and> (vs = [] \<longrightarrow> d = 0) \<and> upd {} h h1 \<and> heap_ok h1 \<and> fresh h1 d (lsize L * ?n) \<and>
      (\<forall>a \<in> {d ..< d + lsize L * ?n}. \<not> owned h a)"
  proof (cases "vs = []")
    case True
    then show ?thesis using h by (simp add: alloc_def fresh_def)
  next
    case False
    from alloc_layout_new [OF assms(1) h] obtain d h1 where
      "alloc_layout A ?B h = (d, h1)" "new_block h d (lsize L * ?n) h1" by (metis layout.select_convs(1))
    with False block_allocates [OF wf assms(6)] show ?thesis
      by (auto simp: alloc_def new_block_def simp del: and_then_Ok)
  qed
  then obtain d h1 where d: "alloc = Ok (d, h1)" "vs \<noteq> [] \<Longrightarrow> d \<noteq> 0" "vs = [] \<Longrightarrow> d = 0" "upd {} h h1" "heap_ok h1"
    "fresh h1 d (lsize L * ?n)" "\<And>a. a \<in> {d ..< d + lsize L * ?n} \<Longrightarrow> \<not> owned h a" by blast
  from write_elems_puts [OF assms(3,4,7) d(5,6,2)] obtain h2 where
    h2: "write_elems (w e) (lsize L) d vs h1 = Ok h2" "upd {d ..< d + lsize L * ?n} h1 h2" "heap_ok h2"
      "\<forall>i < length vs. held (from_ptr_fuel n R E h2 e) (d + lsize L * i) (vs ! i)" by blast
  let ?A = "\<lparr>lsize = 24, lalign = 8\<rparr>"
  let ?cs = "ptr_cells d @ map Byte (le_bytes 4 0 @ le_bytes 4 ?n @ le_bytes 4 ?n)"
  have "length ?cs \<le> lsize ?A" by simp
  from alloc_cells_new [OF assms(1) h2(3) this] obtain p h3 where
    p: "alloc_cells A ?A ?cs h2 = (p, h3)" "p \<noteq> 0" "upd {} h2 h3" "heap_ok h3" "read_cells h3 p 20 = Ok ?cs" by auto
  have "list_all2 (\<lambda>i v. held (from_ptr_fuel n R E h3 e) (d + lsize L * i) v) [0 ..< ?n] vs"
    using h2(4) held_grow [OF _ upd_below [OF p(3) h2(3)]] by (auto simp: list_all2_conv_all_nth)
  then have "read_array R (from_ptr_fuel n R E h3) h3 p e = Ok (NArray vs)"
    unfolding read_array_Ok using assms(3,4) pad read_array_cells [OF p(5) assms(5)] d(2,3)
    by (intro exI [of _ ty] exI [of _ L] exI [of _ 0] exI [of _ ?n] exI [of _ d]) auto
  then have "held (from_ptr_fuel (Suc n) R E h3 t) p (NArray vs)"
    using p(2) assms(2) by (simp add: held_def)
  moreover have "upd {} h h3" using upd_trans [OF upd_new [OF d(4) h2(2) d(7)] p(3)] by simp
  moreover have "write_array R A w e vs h = and_then alloc (\<lambda>(d, h).
      and_then (write_elems (w e) (lsize L) d vs h) (\<lambda>h.
      let (target, h) = alloc_layout A ?A h in
      Ok (target, write_cells target (ptr_cells d @ map Byte (le_bytes 4 0 @ le_bytes 4 ?n @ le_bytes 4 ?n)) h)))"
    using assms(3-5) unfolding alloc_def write_array_def Let_def
    by (simp only: registry_get_def ok_or_def option.case and_then.simps pad not_le [symmetric] if_False)
  then have "write_array R A w e vs h = Ok (p, h3)"
    using d(1) h2(1) p(1) by (cases "alloc_layout A ?A h2") (simp add: alloc_cells_def del: and_then_Ok)
  ultimately show "\<exists>p h'. write_array R A w e vs h = Ok (p, h') \<and> upd {} h h' \<and> heap_ok h' \<and>
      held (from_ptr_fuel (Suc n) R E h' t) p (NArray vs)"
    using p(4) by blast
qed

lemma write_entries_puts:
  assumes "get_type R e = Some ty" "ty_layout R ty = Ok L" "\<forall>(k, v) \<in> set kvs. puts n R E e v (w v)" "heap_ok h"
    and "fresh h (el + lsize L * fcard (fmdom m)) (lsize L * length kvs)" "kvs \<noteq> [] \<Longrightarrow> el \<noteq> 0"
    and "distinct (map fst kvs)" "\<forall>k \<in> set (map fst kvs). fmlookup m k = None"
  shows "\<exists>m' h'. write_entries w L el m kvs h = Ok (m', h') \<and>
    upd {el + lsize L * fcard (fmdom m) ..< el + lsize L * fcard (fmdom m) + lsize L * length kvs} h h' \<and>
    heap_ok h' \<and> below h h' \<and> (\<forall>k. k \<notin> set (map fst kvs) \<longrightarrow> fmlookup m' k = fmlookup m k) \<and>
    (\<forall>i < length kvs. fmlookup m' (fst (kvs ! i)) = Some (fcard (fmdom m) + i) \<and>
      held (from_ptr_fuel n R E h' e) (el + lsize L * (fcard (fmdom m) + i)) (snd (kvs ! i)))"
  using assms(3-8)
proof (induction kvs arbitrary: m h)
  case (Cons kv kvs)
  obtain k v where kv: "kv = (k, v)" by (cases kv)
  note pad = pad_padded [OF ty_layout_padded [OF assms(2)]]
  let ?c = "fcard (fmdom m)" let ?dst = "el + lsize L * ?c"
  from Cons.prems have v: "puts n R E e v (w v)" "?dst \<noteq> 0" by (simp_all add: kv)
  have z: "lsize L \<le> lsize L * length (kv # kvs)" "lsize L * length (kv # kvs) - lsize L = lsize L * length kvs" by simp_all
  obtain p h1 where p: "w v h = Ok (p, h1)" "upd {?dst ..< ?dst + lsize L} h (copy_bytes p ?dst (lsize L) h1)"
    "heap_ok (copy_bytes p ?dst (lsize L) h1)" "below h (copy_bytes p ?dst (lsize L) h1)"
    "held (from_ptr_fuel n R E (copy_bytes p ?dst (lsize L) h1) e) ?dst v"
    "fresh (copy_bytes p ?dst (lsize L) h1) (?dst + lsize L) (lsize L * length (kv # kvs) - lsize L)"
    by (rule slot_puts [OF assms(1,2) v(1) Cons.prems(2,3) z(1) v(2)])
  let ?h2 = "copy_bytes p ?dst (lsize L) h1" and ?m = "fmupd k ?c m"
  have c: "fcard (fmdom ?m) = Suc ?c"
    using Cons.prems(6) by (simp add: kv fmdom_notI fcard_finsert_disjoint)
  then have dst: "el + lsize L * fcard (fmdom ?m) = ?dst + lsize L" by simp
  have pre: "\<forall>(k, v) \<in> set kvs. puts n R E e v (w v)" "kvs \<noteq> [] \<Longrightarrow> el \<noteq> 0" "distinct (map fst kvs)"
    "\<forall>k' \<in> set (map fst kvs). fmlookup ?m k' = None"
    using Cons.prems by (auto simp: kv)
  from Cons.IH [OF pre(1) p(3) p(6) [unfolded z(2) dst [symmetric]] pre(2-4)] obtain m' h' where
    raw: "write_entries w L el ?m kvs ?h2 = Ok (m', h')"
      "upd {el + lsize L * fcard (fmdom ?m) ..< el + lsize L * fcard (fmdom ?m) + lsize L * length kvs} ?h2 h'"
      "heap_ok h'" "below ?h2 h'"
      "\<forall>k'. k' \<notin> set (map fst kvs) \<longrightarrow> fmlookup m' k' = fmlookup ?m k'"
      "\<forall>i < length kvs. fmlookup m' (fst (kvs ! i)) = Some (fcard (fmdom ?m) + i) \<and>
        held (from_ptr_fuel n R E h' e) (el + lsize L * (fcard (fmdom ?m) + i)) (snd (kvs ! i))"
    by blast
  note h' = raw(1) raw(2) [unfolded dst] raw(3-5) raw(6) [unfolded c]
  have k: "fmlookup m' k = Some ?c" using h'(5) Cons.prems(5) by (simp add: kv)
  have "fmlookup m' (fst ((kv # kvs) ! i)) = Some (?c + i) \<and>
      held (from_ptr_fuel n R E h' e) (el + lsize L * (?c + i)) (snd ((kv # kvs) ! i))" if "i < length (kv # kvs)" for i
    using k held_grow [OF p(5) h'(4)] h'(6) that by (cases i) (auto simp: kv)
  moreover have "upd {?dst ..< ?dst + lsize L * length (kv # kvs)} h h'"
    by (rule upd_mono [OF upd_trans [OF p(2) h'(2)]]) auto
  moreover have "write_entries w L el m (kv # kvs) h = Ok (m', h')"
    using p(1) h'(1) pad by (simp add: kv del: and_then_Ok)
  moreover have "\<forall>k'. k' \<notin> set (map fst (kv # kvs)) \<longrightarrow> fmlookup m' k' = fmlookup m k'"
    using h'(5) by (simp add: kv)
  ultimately show ?case using h'(3) below_trans [OF p(4) h'(4)] by blast
qed simp

lemma fold_fmupd:
  "fmlookup (foldl (\<lambda>m (k, v). fmupd k v m) m0 (zip ks (map f ks))) k =
    (if k \<in> set ks then Some (f k) else fmlookup m0 k)"
  by (induction ks arbitrary: m0) auto

lemma fold_fmupd_all:
  "foldl (\<lambda>m (k, v). fmupd k v m) fmempty
    (zip (sorted_list_of_fset (fmdom m)) (map (\<lambda>k. the (fmlookup m k)) (sorted_list_of_fset (fmdom m)))) = m"
  by (rule fmap_ext) (auto simp: fold_fmupd sorted_list_of_fset.rep_eq fmdom'_alt_def [symmetric]
      fmlookup_dom'_iff)

lemma puts_dict:
  assumes "alloc_ok A" "get_type R t = Some (Felt252DictT e)" "get_type R e = Some ty" "ty_layout R ty = Ok L"
    and "block_fits (al_capacity A (fcard (fmdom m))) L"
    and "\<forall>k v. fmlookup m k = Some v \<longrightarrow> puts n R E e v (w e v)"
  shows "puts (Suc n) R E t (NFelt252Dict m) (write_dict R A w e m)"
  unfolding puts_def
proof (intro allI impI)
  fix h
  assume h: "heap_ok h"
  note wf = ty_layout_wf(1) [OF assms(4)]
  note pad = pad_padded [OF ty_layout_padded [OF assms(4)]]
  let ?ks = "sorted_list_of_fset (fmdom m)" and ?kvs = "entries_of m" and ?cap = "al_capacity A (fcard (fmdom m))"
  have len: "length ?kvs = fcard (fmdom m)"
    by (simp add: entries_of_def sorted_list_of_fset.rep_eq fcard.rep_eq)
  have eta: "\<lparr>lsize = lsize L, lalign = lalign L\<rparr> = L" by simp
  have fst: "map fst ?kvs = ?ks" by (simp add: entries_of_def comp_def)
  from alloc_layout_new [OF assms(1) h, of FELT_DICT_LAYOUT] obtain d h1 where
    d: "alloc_layout A FELT_DICT_LAYOUT h = (d, h1)" "new_block h d 80 h1" by (auto simp: FELT_DICT_LAYOUT_def)
  then have d2: "upd {} h h1" "heap_ok h1" "owned h1 d" "\<not> owned h d" "(d, 80) \<in> set (hp_blocks h1)"
    "hp_dicts h1 = hp_dicts h"
    by (simp_all add: new_block_def fresh_def)
  have none: "hp_dicts h1 d = None"
    using dict_owned [OF h, of d] d2(4,6) by (cases "hp_dicts h d") auto
  define alloc where "alloc = (if m = fmempty then Ok (0, h1)
    else if 2 ^ 64 \<le> lsize L * ?cap then Panic else arena_alloc A (lsize L * ?cap) (lalign L) h1)"
  have "\<exists>el h2. alloc = Ok (el, h2) \<and> (?kvs \<noteq> [] \<longrightarrow> el \<noteq> 0) \<and> upd {} h1 h2 \<and> heap_ok h2 \<and>
      fresh h2 el (lsize L * length ?kvs) \<and> (\<forall>a \<in> {el ..< el + lsize L * length ?kvs}. \<not> owned h1 a)"
  proof (cases "m = fmempty")
    case True
    then have "?kvs = []" by (simp add: entries_of_def sorted_list_of_fset.rep_eq)
    with True show ?thesis using d2(2) by (simp add: alloc_def fresh_def)
  next
    case False
    let ?B = "\<lparr>lsize = lsize L * ?cap, lalign = lalign L\<rparr>"
    from alloc_layout_new [OF assms(1) d2(2)] obtain el h2 where
      el: "alloc_layout A ?B h1 = (el, h2)" "new_block h1 el (lsize L * ?cap) h2" by (metis layout.select_convs(1))
    have le: "lsize L * length ?kvs \<le> lsize L * ?cap" using assms(1) len by (simp add: alloc_ok_def)
    have blk: "el \<noteq> 0" "upd {} h1 h2" "heap_ok h2" "fresh h2 el (lsize L * ?cap)"
      "\<And>a. el \<le> a \<Longrightarrow> a < el + lsize L * ?cap \<Longrightarrow> \<not> owned h1 a"
      using el(2) by (auto simp: new_block_def)
    have "\<not> owned h1 a" if "a \<in> {el ..< el + lsize L * length ?kvs}" for a
      using that by (intro blk(5) less_le_trans [OF _ add_left_mono [OF le]]) auto
    moreover have "fresh h2 el (lsize L * length ?kvs)" using fresh_part [OF blk(4), of 0] le by simp
    moreover have "alloc = Ok (el, h2)"
      using False block_allocates [OF wf assms(5)] el(1) by (simp add: alloc_def arena_alloc_def)
    ultimately show ?thesis using blk(1-3) by blast
  qed
  then obtain el h2 where el: "alloc = Ok (el, h2)" "?kvs \<noteq> [] \<Longrightarrow> el \<noteq> 0" "upd {} h1 h2" "heap_ok h2"
    "fresh h2 el (lsize L * length ?kvs)" "\<And>a. a \<in> {el ..< el + lsize L * length ?kvs} \<Longrightarrow> \<not> owned h1 a" by blast
  have pre: "\<forall>(k, v) \<in> set ?kvs. puts n R E e v (w e v)" "distinct (map fst ?kvs)"
    using assms(6) fst by (auto simp: entries_of_def sorted_list_of_fset.rep_eq fmlookup_dom_iff)
  have zero: "fcard {||} = 0" by (simp add: fcard.rep_eq)
  from write_entries_puts [OF assms(3,4) pre(1) el(4), of el fmempty] el(2,5) pre(2) obtain maps h3 where
    h3: "write_entries (w e) L el fmempty ?kvs h2 = Ok (maps, h3)"
      "upd {el ..< el + lsize L * length ?kvs} h2 h3" "heap_ok h3"
      "\<forall>k. k \<notin> set ?ks \<longrightarrow> fmlookup maps k = None"
      "\<forall>i < length ?kvs. fmlookup maps (fst (?kvs ! i)) = Some i \<and>
        held (from_ptr_fuel n R E h3 e) (el + lsize L * i) (snd (?kvs ! i))"
    by (auto simp: fst zero)
  define D where "D = \<lparr>fd_mappings = maps, fd_capacity = ?cap, fd_layout = L, fd_elements = el, fd_count = 0\<rparr>"
  define h4 where "h4 = h3\<lparr>hp_dicts := (hp_dicts h3)(d \<mapsto> D)\<rparr>"
  have u13: "upd {} h1 h3" by (rule upd_new [OF el(3) h3(2) el(6)])
  have own4: "owned h4 a = owned h3 a" for a by (simp add: owned_def h4_def)
  have dm: "(d, 80) \<in> set (hp_blocks h3)" using d2(5) upd_blocks [OF u13] by auto
  have b34: "below h3 h4"
    using upd_dict [OF u13 d2(3)] none by (auto simp: below_def h4_def)
  have ok4: "heap_ok h4" using h3(3) dm by (auto simp: heap_ok_def own4) (auto simp: h4_def split: if_splits)
  have u4: "upd {} h h4"
    using upd_trans [OF d2(1) u13] d2(4) by (auto simp: upd_def h4_def)
  from alloc_ptr_new [OF assms(1) ok4] obtain p h5 where
    p: "alloc_ptr A d h4 = (p, h5)" "p \<noteq> 0" "upd {} h4 h5" "heap_ok h5" "read_ptr h5 p = Ok d" by blast
  have b45: "below h4 h5" by (rule upd_below [OF p(3) ok4]) simp
  have D5: "hp_dicts h5 d = Some D" using b45 by (simp add: below_def h4_def)
  have ks: "fmdom maps = fmdom m"
  proof (rule fset_eqI)
    fix k
    have "fmlookup maps k \<noteq> None" if "k \<in> set ?ks"
      using that h3(5) by (metis fst in_set_conv_nth length_map nth_map option.discI)
    then show "k |\<in>| fmdom maps \<longleftrightarrow> k |\<in>| fmdom m"
      using h3(4) by (auto simp: fmlookup_dom_iff sorted_list_of_fset.rep_eq)
  qed
  have nth: "i < length ?ks \<Longrightarrow> fmlookup maps (?ks ! i) = Some i \<and>
      held (from_ptr_fuel n R E h5 e) (el + lsize L * i) (the (fmlookup m (?ks ! i)))" for i
    using h3(5) held_grow [OF _ below_trans [OF b34 b45]] by (auto simp: entries_of_def)
  have "read_entries (from_ptr_fuel n R E h5 e) D (dict_entries D) fmempty = Ok m"
    unfolding read_entries_Ok
  proof (intro exI conjI)
    show "list_all2 (\<lambda>(k, i). held (from_ptr_fuel n R E h5 e) (fd_elements D + lsize (pad_to_align (fd_layout D)) * i))
        (dict_entries D) (map (\<lambda>k. the (fmlookup m k)) ?ks)"
      using nth by (auto simp: list_all2_conv_all_nth dict_entries_def D_def ks pad)
    show "m = foldl (\<lambda>m (k, v). fmupd k v m) fmempty
        (zip (map fst (dict_entries D)) (map (\<lambda>k. the (fmlookup m k)) ?ks))"
      using fold_fmupd_all [of m] by (simp add: dict_entries_def D_def ks comp_def)
  qed
  then have "read_dict (from_ptr_fuel n R E h5) h5 p e = Ok (NFelt252Dict m)"
    unfolding read_dict_Ok using p(5) D5 by blast
  then have "held (from_ptr_fuel (Suc n) R E h5 t) p (NFelt252Dict m)"
    using p(2) assms(2) by (simp add: held_def)
  moreover have "upd {} h h5" using upd_trans [OF u4 p(3)] by simp
  moreover have "write_dict R A w e m h = and_then alloc (\<lambda>(elements, h).
      and_then (write_entries (w e) L elements fmempty ?kvs h) (\<lambda>(mappings, h).
      Ok (alloc_ptr A d (h\<lparr>hp_dicts := (hp_dicts h)(d \<mapsto>
        \<lparr>fd_mappings = mappings, fd_capacity = ?cap, fd_layout = L, fd_elements = elements, fd_count = 0\<rparr>)\<rparr>))))"
    using assms(3,4) d(1) unfolding alloc_def write_dict_def Let_def dict_new_def
    by (simp add: registry_get_def ok_or_def pad eta del: and_then_Ok)
  then have "write_dict R A w e m h = Ok (p, h5)"
    using el(1) h3(1) p(1) by (simp add: h4_def D_def del: and_then_Ok)
  ultimately show "\<exists>p h'. write_dict R A w e m h = Ok (p, h') \<and> upd {} h h' \<and> heap_ok h' \<and>
      held (from_ptr_fuel (Suc n) R E h' t) p (NFelt252Dict m)"
    using p(4) by blast
qed

end
