(* ===== verification/ValueRoundtrip.thy ===== *)
theory ValueRoundtrip
  imports ValueWrites
begin

text \<open>
  The contract of \<open>Value::to_ptr\<close> and \<open>Value::from_ptr\<close>: what was written is read back, the
  bytes of a value's layout can be copied, and structs are not checked for their fields.
\<close>

section \<open>Every storable value\<close>

lemma puts_at_part:
  assumes "puts n R E e v W" "get_type R t = Some (NonZeroT e) \<or> get_type R t = Some (SnapshotT e)"
  shows "puts (Suc n) R E t v W"
  using assms by (auto simp: puts_def held_def)

lemma to_ptr_inline:
  assumes "get_type R t = Some ty" "\<forall>e. ty \<noteq> SnapshotT e" "\<forall>e. ty \<noteq> BoxT e" "\<forall>e. ty \<noteq> NullableT e"
  shows "to_ptr_fuel (Suc k) R A t v h = write_inline R A (to_ptr_fuel k R A) ty v h"
  using assms by (cases ty) (simp_all add: registry_get_def ok_or_def resolve_type_def del: and_then_Ok)

lemma to_ptr_boxed:
  assumes "get_type R t = Some (BoxT e) \<or> get_type R t = Some (NullableT e) \<and> v \<noteq> NNull"
  shows "to_ptr_fuel (Suc k) R A t v h = write_boxed R A (to_ptr_fuel k R A) e v h"
  using assms by (auto simp: registry_get_def ok_or_def resolve_type_def simp del: and_then_Ok)

lemma to_ptr_snapshot:
  assumes "get_type R t = Some (SnapshotT e)" "get_type R e = Some ty" "\<And>e. ty \<noteq> SnapshotT e"
  shows "to_ptr_fuel (Suc k) R A t v h = to_ptr_fuel (Suc k) R A e v h"
proof -
  have "resolve_type R ty = Ok ty" using assms(3) by (auto simp: resolve_type_def split: core_type.splits)
  then show ?thesis using assms by (simp add: registry_get_def ok_or_def resolve_type_def [of R "SnapshotT e"] del: and_then_Ok)
qed

lemma puts_null:
  assumes "alloc_ok A" "get_type R t = Some (NullableT e)"
  shows "puts (Suc n) R E t NNull (to_ptr_fuel (Suc k) R A t NNull)"
  unfolding puts_def
proof (intro allI impI)
  fix h
  assume "heap_ok h"
  from alloc_ptr_new [OF assms(1) this, of 0] obtain p h' where
    p: "alloc_ptr A 0 h = (p, h')" "p \<noteq> 0" "upd {} h h'" "heap_ok h'" "read_ptr h' p = Ok 0" by blast
  have "to_ptr_fuel (Suc k) R A t NNull h = Ok (p, h')"
    using p(1) assms(2) by (simp add: registry_get_def ok_or_def resolve_type_def del: and_then_Ok)
  moreover have "held (from_ptr_fuel (Suc n) R E h' t) p NNull" using p(2,5) assms(2) by (simp add: held_def)
  ultimately show "\<exists>p h'. to_ptr_fuel (Suc k) R A t NNull h = Ok (p, h') \<and> upd {} h h' \<and> heap_ok h' \<and>
      held (from_ptr_fuel (Suc n) R E h' t) p NNull"
    using p(3,4) by blast
qed

lemma to_ptr_puts:
  assumes A: "alloc_ok A" and E: "affine_ok E"
  shows "storable n R A t v \<Longrightarrow> n \<le> k \<Longrightarrow> puts n R E t v (to_ptr_fuel k R A t v)"
proof (induction n arbitrary: t v k)
  case (Suc n)
  then obtain j where k: "k = Suc j" "n \<le> j" by (cases k) auto
  let ?w = "to_ptr_fuel j R A"
  have IH: "puts n R E t v (?w t v)" if "storable n R A t v" for t v
    using Suc.IH [OF that k(2)] .
  from Suc.prems(1) obtain ty L where ty: "get_type R t = Some ty" "ty_layout R ty = Ok L"
    by (auto split: option.splits)
  have inl: "puts (Suc n) R E t v (to_ptr_fuel k R A t v)"
    if "puts (Suc n) R E t v W" "\<forall>e. ty \<noteq> SnapshotT e" "\<forall>e. ty \<noteq> BoxT e" "\<forall>e. ty \<noteq> NullableT e"
      "\<And>h. write_inline R A ?w ty v h = W h" for W
    using to_ptr_inline [OF ty(1) that(2-4)] that(1,5) unfolding k(1) by (auto intro: puts_cong)
  have scal: "puts (Suc n) R E t v (to_ptr_fuel k R A t v)"
    if "scalar ty v" "\<forall>e. ty \<noteq> SnapshotT e" "\<forall>e. ty \<noteq> BoxT e" "\<forall>e. ty \<noteq> NullableT e"
    by (rule inl [OF puts_scalar [OF A E ty(1) that(1)] that(2-4)]) simp
  show ?case
  proof (cases ty)
    case (SnapshotT e)
    with Suc.prems(1) ty have "storable n R A e v" by (auto split: option.splits core_type.splits)
    moreover from this obtain ety where ety: "get_type R e = Some ety" by (cases n) (auto split: option.splits)
    moreover from ety SnapshotT Suc.prems(1) ty(1) have "\<And>x. ety \<noteq> SnapshotT x" by auto
    ultimately have "\<And>h. to_ptr_fuel k R A t v h = to_ptr_fuel k R A e v h"
      unfolding k(1) using ty(1) SnapshotT to_ptr_snapshot [of R t e ety] by blast
    moreover have "puts n R E e v (to_ptr_fuel k R A e v)"
      using Suc.IH [OF \<open>storable n R A e v\<close>, of k] Suc.prems(2) by simp
    ultimately show ?thesis using ty(1) SnapshotT by (intro puts_cong [OF puts_at_part]) auto
  next
    case (NonZeroT e)
    with Suc.prems(1) ty obtain m ety where m: "n = Suc m" "get_type R e = Some ety" "scalar ety v"
      by (cases n) (auto split: option.splits)
    have "puts n R E e v (write_inline R A ?w ty v)"
      unfolding m(1) by (rule puts_scalar [OF A E m(2,3)])
    then show ?thesis using ty(1) NonZeroT by (intro inl [OF puts_at_part]) auto
  next
    case (BoxT e)
    with Suc.prems(1) ty have e: "storable n R A e v" by simp
    obtain ety M where "get_type R e = Some ety" "ty_layout R ety = Ok M"
      using e by (cases n) (auto split: option.splits)
    then have "puts (Suc n) R E t v (write_boxed R A ?w e v)"
      by (rule puts_boxed [OF A]) (use IH [OF e] ty(1) BoxT in simp_all)
    then show ?thesis unfolding k(1) by (rule puts_cong) (rule to_ptr_boxed, use ty(1) BoxT in simp)
  next
    case (NullableT e)
    show ?thesis
    proof (cases "v = NNull")
      case True
      then show ?thesis using puts_null [OF A] ty(1) NullableT k(1) by blast
    next
      case False
      with NullableT Suc.prems(1) ty have e: "storable n R A e v" by simp
      obtain ety M where "get_type R e = Some ety" "ty_layout R ety = Ok M"
        using e by (cases n) (auto split: option.splits)
      then have "puts (Suc n) R E t v (write_boxed R A ?w e v)"
        by (rule puts_boxed [OF A]) (use IH [OF e] ty(1) NullableT in simp_all)
      then show ?thesis
        unfolding k(1) by (rule puts_cong) (rule to_ptr_boxed, use ty(1) NullableT False in simp)
    qed
  next
    case (ArrayT e)
    with Suc.prems(1) ty obtain vs ety M where vs: "v = NArray vs" "length vs < 2 ^ 32"
      "\<forall>v \<in> set vs. storable n R A e v" "get_type R e = Some ety" "ty_layout R ety = Ok M" "block_fits (length vs) M"
      by (auto split: nval.splits)
    have "puts (Suc n) R E t (NArray vs) (write_array R A ?w e vs)"
      by (rule puts_array [OF A _ vs(4,5,2,6)]) (use ty(1) ArrayT vs(3) IH in auto)
    then show ?thesis by (intro inl) (simp_all add: ArrayT vs(1) write_inline_def)
  next
    case (StructT ms)
    with Suc.prems(1) ty obtain vs where vs: "v = NStruct vs" "list_all2 (storable n R A) ms vs"
      by (auto split: nval.splits)
    have "list_all2 (\<lambda>m v. puts n R E m v (?w m v)) ms vs"
      using vs(2) by (rule list_all2_mono) (rule IH)
    then have "puts (Suc n) R E t (NStruct vs) (write_struct R A ?w ms vs)"
      by (intro puts_struct [OF A]) (use ty StructT in auto)
    then show ?thesis by (intro inl) (simp_all add: StructT vs(1) write_inline_def)
  next
    case (EnumT vs)
    with Suc.prems(1) ty obtain tag w where w: "v = NEnum tag w" "tag < length vs" "length vs \<le> 2 ^ 64"
      "storable n R A (vs ! tag) w"
      by (auto split: nval.splits)
    have "puts (Suc n) R E t (NEnum tag w) (write_enum R A ?w vs tag w)"
      by (rule puts_enum [OF A _ _ w(2,3)]) (use ty EnumT IH [OF w(4)] in auto)
    then show ?thesis by (intro inl) (simp_all add: EnumT w(1) write_inline_def)
  next
    case (Felt252DictT e)
    with Suc.prems(1) ty obtain m ety M where m: "v = NFelt252Dict m"
      "\<forall>k w. fmlookup m k = Some w \<longrightarrow> storable n R A e w" "get_type R e = Some ety" "ty_layout R ety = Ok M"
      "block_fits (al_capacity A (fcard (fmdom m))) M"
      by (auto split: nval.splits)
    have "puts (Suc n) R E t (NFelt252Dict m) (write_dict R A ?w e m)"
      by (rule puts_dict [OF A _ m(3,4,5)]) (use ty(1) Felt252DictT m(2) IH in auto)
    then show ?thesis by (intro inl) (simp_all add: Felt252DictT m(1) write_inline_def)
  next
    case (BoundedIntT r)
    with Suc.prems(1) ty obtain f where f: "v = NBoundedInt f r" "in_range r f" by (auto split: nval.splits)
    have "puts (Suc n) R E t (NBoundedInt f r) (write_bounded A ty f r)"
      by (rule puts_bounded [OF A _ _ f(2)]) (use ty(1) BoundedIntT in auto)
    then show ?thesis by (intro inl) (simp_all add: BoundedIntT f(1) write_inline_def)
  next
    case (BoundedIntGuaranteeT r)
    with Suc.prems(1) ty obtain f where f: "v = NBoundedInt f r" "in_range r f" by (auto split: nval.splits)
    have "puts (Suc n) R E t (NBoundedInt f r) (write_bounded A ty f r)"
      by (rule puts_bounded [OF A _ _ f(2)]) (use ty(1) BoundedIntGuaranteeT in auto)
    then show ?thesis by (intro inl) (simp_all add: BoundedIntGuaranteeT f(1) write_inline_def)
  next
    case (IntRangeT e)
    with Suc.prems(1) ty obtain x y where xy: "v = NIntRange x y" "storable n R A e x" "storable n R A e y"
      by (auto split: nval.splits)
    have "puts (Suc n) R E t (NIntRange x y) (write_int_range R A ?w e x y)"
      by (rule puts_int_range [OF A]) (use ty IntRangeT IH xy in auto)
    then show ?thesis by (intro inl) (simp_all add: IntRangeT xy(1) write_inline_def)
  qed (rule scal; use Suc.prems(1) ty in \<open>simp; fail\<close>)+
qed simp

text \<open>
  C6: Writing a value and reading it back: in a memory in order, \<open>to_ptr\<close> of a storable value
  succeeds and \<open>from_ptr\<close> at the returned pointer gives the value back; the memory stays in
  order, and every value that could be read before can still be read, at its old place.
\<close>
theorem value_roundtrip:
  assumes "alloc_ok A" "affine_ok E" "heap_ok h" "storable (rec_limit R) R A t v"
  shows "\<exists>p h'. to_ptr R A t v h = Ok (p, h') \<and> p \<noteq> 0 \<and> from_ptr R E h' t p = Ok v \<and> heap_ok h' \<and>
    (\<forall>t' q w. from_ptr R E h t' q = Ok w \<longrightarrow> from_ptr R E h' t' q = Ok w)"
proof -
  have "puts (rec_limit R) R E t v (to_ptr_fuel (rec_limit R) R A t v)"
    by (rule to_ptr_puts [OF assms(1,2,4)]) simp
  then obtain p h' where p: "to_ptr_fuel (rec_limit R) R A t v h = Ok (p, h')" "upd {} h h'" "heap_ok h'"
    "held (from_ptr_fuel (rec_limit R) R E h' t) p v" "below h h'"
    using assms(3) by (rule putsE)
  have "from_ptr R E h' t' q = Ok w" if "from_ptr R E h t' q = Ok w" for t' q w
    using from_ptr_grow [OF that [unfolded from_ptr_def] p(5)] by (simp add: from_ptr_def)
  with p show ?thesis by (auto simp: to_ptr_def from_ptr_def held_def)
qed

text \<open>An allocator that keeps every promise, and an empty memory.\<close>

definition bump :: allocator where
  "bump = \<lparr>al_place = (\<lambda>bs L. 16 * Suc (sum_list (map (\<lambda>(q, m). q + m) bs))), al_capacity = (\<lambda>n. n)\<rparr>"

definition empty_heap :: heap where
  "empty_heap = \<lparr>hp_mem = (\<lambda>_. None), hp_blocks = [], hp_dicts = (\<lambda>_. None)\<rparr>"

lemma bump_ok: "alloc_ok bump"
proof -
  have "q + m \<le> 16 * Suc (sum_list (map (\<lambda>(q, m). q + m) bs))" if "(q, m) \<in> set bs" for q m and bs :: "(nat \<times> nat) list"
    using member_le_sum_list [of "q + m" "map (\<lambda>(q, m). q + m) bs"] that by force
  then show ?thesis by (auto simp: alloc_ok_def bump_def)
qed

lemma empty_heap_ok: "heap_ok empty_heap"
  by (simp add: heap_ok_def empty_heap_def)

lemma ref_affine_ok: "affine_ok ref_externs"
  by (simp add: affine_ok_def ref_externs_def)

lemma sample_layouts:
  "ty_layout sample_registry Felt252T = Ok \<lparr>lsize = 32, lalign = 16\<rparr>"
  "ty_layout sample_registry Uint8T = Ok \<lparr>lsize = Suc 0, lalign = Suc 0\<rparr>"
  "ty_layout sample_registry (StructT [0, Suc 0]) = Ok \<lparr>lsize = 48, lalign = 16\<rparr>"
  by (simp_all add: ty_layout_def layout_body_def get_integer_layout_def
      registry_get_def ok_or_def layout_extend_def struct_step_def
      pad_to_align_def round_up_def from_size_align_def pow2_small Let_def max_def)

theorem value_roundtrip_witness:
  "\<exists>p h'. to_ptr sample_registry bump 15 (NEnum 1 (NStruct [NFelt252 5, NUint8 7])) empty_heap = Ok (p, h') \<and>
    p \<noteq> 0 \<and> from_ptr sample_registry ref_externs h' 15 p = Ok (NEnum 1 (NStruct [NFelt252 5, NUint8 7])) \<and>
    heap_ok h' \<and> (\<forall>t' q w. from_ptr sample_registry ref_externs empty_heap t' q = Ok w \<longrightarrow>
      from_ptr sample_registry ref_externs h' t' q = Ok w)"
proof (rule value_roundtrip [OF bump_ok ref_affine_ok empty_heap_ok])
  show "storable (rec_limit sample_registry) sample_registry bump 15 (NEnum 1 (NStruct [NFelt252 5, NUint8 7]))"
    using sample_layouts sample_enum_layout(1) by (simp add: sample_types_def scalar_def)
qed

text \<open>
  C8: The bytes of its layout are the inline representation of a value: wherever they are
  copied, as compiled code does when it passes, stores or returns the value, the same value is
  read, in a memory that still holds what the bytes point to.
\<close>
theorem inline_representation:
  assumes "from_ptr R E h t p = Ok v" "get_type R t = Some ty" "ty_layout R ty = Ok L"
    and "fresh h q (lsize L)" "heap_ok h" "q \<noteq> 0"
  shows "from_ptr R E (copy_bytes p q (lsize L) h) t q = Ok v"
  using from_ptr_move [OF assms(1) [unfolded from_ptr_def] assms(2,3) copy_bytes_fresh(4,3) [OF assms(4,5)]] assms(6)
  by (simp add: from_ptr_def)

definition felt_heap :: heap where
  "felt_heap = \<lparr>hp_mem = (\<lambda>a. if a \<in> {16 ..< 48} then Some (Byte (if a = 16 then 1 else 0)) else None),
    hp_blocks = [(16, 32), (48, 32)], hp_dicts = (\<lambda>_. None)\<rparr>"

lemma felt_heap_read: "from_ptr sample_registry ref_externs felt_heap 0 16 = Ok (NFelt252 1)"
proof -
  have "1 div 256 ^ i = (if i = 0 then 1 else 0 :: nat)" for i
    using one_less_power [of "256 :: nat" i] by (cases "i = 0") (simp_all del: One_nat_def)
  then have "map Byte (felt_bytes_le 1) ! i = Byte (if i = 0 then 1 else 0)" if "i < 32" for i
    using that by (simp add: felt_bytes_le_def le_bytes_def)
  then have "read_cells felt_heap 16 32 = Ok (map Byte (felt_bytes_le 1))"
    by (simp add: read_cells_Ok felt_heap_def)
  then show ?thesis by (auto simp: from_ptr_def dest: read_felt_cells)
qed

theorem inline_representation_witness:
  "from_ptr sample_registry ref_externs (copy_bytes 16 48 32 felt_heap) 0 48 = Ok (NFelt252 1)"
proof -
  have "heap_ok felt_heap" "fresh felt_heap 48 32"
    by (auto simp: heap_ok_def fresh_def owned_def felt_heap_def)
  with inline_representation [OF felt_heap_read _ sample_layouts(1), of 48] show ?thesis by simp
qed

text \<open>
  Structs are matched with their declared members as far as both go: with too few fields
  \<open>to_ptr\<close> writes the prefix of the type they fill, in a block of the size of that prefix, and
  extra fields are dropped. Neither is an error, and reading the struct back takes every
  member.
\<close>
theorem struct_fields_unchecked:
  assumes "get_type R t = Some (StructT ms)" "get_type R t' = Some (StructT (take (length vs) ms))"
  shows "to_ptr R A t (NStruct vs) h = to_ptr R A t' (NStruct vs) h \<and>
    to_ptr R A t (NStruct vs) h = to_ptr R A t (NStruct (take (length ms) vs)) h"
proof (cases "rec_limit R")
  case (Suc n)
  have "zip ms (take (length ms) vs) = zip ms vs" "zip (take (length vs) ms) vs = zip ms vs"
    by (auto intro!: nth_equalityI)
  moreover have "to_ptr_fuel (Suc n) R A t v h = write_inline R A (to_ptr_fuel n R A) (StructT ms) v h" for v
    by (rule to_ptr_inline [OF assms(1)]) simp_all
  moreover have "to_ptr_fuel (Suc n) R A t' v h = write_inline R A (to_ptr_fuel n R A) (StructT (take (length vs) ms)) v h" for v
    by (rule to_ptr_inline [OF assms(2)]) simp_all
  ultimately show ?thesis
    unfolding to_ptr_def Suc by (simp add: write_inline_def write_struct_def del: to_ptr_fuel.simps)
qed (simp add: to_ptr_def)

theorem struct_fields_unchecked_witness:
  "to_ptr sample_registry bump 14 (NStruct []) empty_heap = to_ptr sample_registry bump 16 (NStruct []) empty_heap"
  using struct_fields_unchecked [of sample_registry 14 "[0, 1]" 16 "[]"] by (simp add: sample_types_def)

end
