(* ===== verification/Blake.thy ===== *)
theory Blake
  imports Prelude
begin

text \<open>
  \<open>src/utils/blake_utils.rs\<close> and the runtime function built on it,
  \<open>cairo_native__libfunc__blake_compress\<close> of \<open>src/runtime.rs\<close>: the compression function of
  BLAKE2s. The arrays of the code are lists here; their lengths, which the types of the code
  fix (a state of 8 words, a message of 16), are hypotheses where they matter. The second half
  of the theory states the compression function as RFC 7693 does, with the working vector
  updated in place and rotations of words, and shows that the code computes it.
\<close>

unbundle bit_operations_syntax

section \<open>The code\<close>

definition IV :: "u32 list" where
  "IV = [0x6A09E667, 0xBB67AE85, 0x3C6EF372, 0xA54FF53A, 0x510E527F, 0x9B05688C, 0x1F83D9AB, 0x5BE0CD19]"

definition SIGMA_TABLE :: "nat list list" where
  "SIGMA_TABLE = [
    [0, 1, 2, 3, 4, 5, 6, 7, 8, 9, 10, 11, 12, 13, 14, 15],
    [14, 10, 4, 8, 9, 15, 13, 6, 1, 12, 0, 2, 11, 7, 5, 3],
    [11, 8, 12, 0, 5, 2, 15, 13, 10, 14, 3, 6, 7, 1, 9, 4],
    [7, 9, 3, 1, 13, 12, 11, 14, 2, 6, 5, 10, 4, 0, 15, 8],
    [9, 0, 5, 7, 2, 4, 10, 15, 14, 1, 11, 12, 6, 8, 3, 13],
    [2, 12, 6, 10, 0, 11, 8, 3, 4, 13, 7, 5, 15, 14, 1, 9],
    [12, 5, 1, 15, 14, 13, 4, 10, 0, 7, 6, 3, 9, 2, 8, 11],
    [13, 11, 7, 14, 12, 1, 3, 9, 5, 0, 15, 4, 8, 6, 2, 10],
    [6, 15, 14, 9, 11, 3, 0, 8, 12, 2, 13, 7, 1, 4, 10, 5],
    [10, 2, 8, 4, 7, 6, 1, 5, 15, 11, 9, 14, 3, 12, 13, 0]]"

text \<open>The shifts of \<open>right_rot\<close> are defined for \<open>0 < n < 32\<close>; the calls pass 16, 12, 8 and 7.\<close>

definition right_rot :: "u32 \<Rightarrow> nat \<Rightarrow> u32" where
  "right_rot value n = (drop_bit n value) OR (push_bit (32 - n) (value AND (push_bit n 1 - 1)))"

definition mix :: "u32 \<Rightarrow> u32 \<Rightarrow> u32 \<Rightarrow> u32 \<Rightarrow> u32 \<Rightarrow> u32 \<Rightarrow> u32 \<times> u32 \<times> u32 \<times> u32" where
  "mix a b c d m0 m1 =
    (let a = a + b + m0;
         d = right_rot (d XOR a) 16;
         c = c + d;
         b = right_rot (b XOR c) 12;
         a = a + b + m1;
         d = right_rot (d XOR a) 8;
         c = c + d;
         b = right_rot (b XOR c) 7
     in (a, b, c, d))"

text \<open>The tuple assignment \<open>(state[i], state[j], state[k], state[l]) = mix(..)\<close>.\<close>

definition mix_at :: "nat \<times> nat \<times> nat \<times> nat \<Rightarrow> u32 \<Rightarrow> u32 \<Rightarrow> u32 list \<Rightarrow> u32 list" where
  "mix_at is m0 m1 state =
    (case is of (i, j, k, l) \<Rightarrow>
      case mix (state ! i) (state ! j) (state ! k) (state ! l) m0 m1 of
        (a, b, c, d) \<Rightarrow> state[i := a, j := b, k := c, l := d])"

definition blake_round :: "u32 list \<Rightarrow> u32 list \<Rightarrow> nat list \<Rightarrow> u32 list" where
  "blake_round state message sigma =
    (let state = mix_at (0, 4, 8, 12) (message ! (sigma ! 0)) (message ! (sigma ! 1)) state;
         state = mix_at (1, 5, 9, 13) (message ! (sigma ! 2)) (message ! (sigma ! 3)) state;
         state = mix_at (2, 6, 10, 14) (message ! (sigma ! 4)) (message ! (sigma ! 5)) state;
         state = mix_at (3, 7, 11, 15) (message ! (sigma ! 6)) (message ! (sigma ! 7)) state;
         state = mix_at (0, 5, 10, 15) (message ! (sigma ! 8)) (message ! (sigma ! 9)) state;
         state = mix_at (1, 6, 11, 12) (message ! (sigma ! 10)) (message ! (sigma ! 11)) state;
         state = mix_at (2, 7, 8, 13) (message ! (sigma ! 12)) (message ! (sigma ! 13)) state;
         state = mix_at (3, 4, 9, 14) (message ! (sigma ! 14)) (message ! (sigma ! 15)) state
     in state)"

definition blake2s_compress ::
  "u32 list \<Rightarrow> u32 list \<Rightarrow> u32 \<Rightarrow> u32 \<Rightarrow> u32 \<Rightarrow> u32 \<Rightarrow> u32 list" where
  "blake2s_compress h message t0 t1 f0 f1 =
    (let state = h @ take 4 IV @ [IV ! 4 XOR t0, IV ! 5 XOR t1, IV ! 6 XOR f0, IV ! 7 XOR f1];
         state = fold (\<lambda>sigma_list state. blake_round state message sigma_list) SIGMA_TABLE state
     in map (\<lambda>i. h ! i XOR state ! i XOR state ! (8 + i)) [0 ..< 8])"

text \<open>The runtime function returns the new state and counts its calls (\<open>BLAKE_CALL_COUNT\<close>).\<close>

definition native_blake_compress ::
  "u32 list \<Rightarrow> u32 list \<Rightarrow> u32 \<Rightarrow> bool \<Rightarrow> u64 \<Rightarrow> u32 list \<times> u64" where
  "native_blake_compress state message count_bytes finalize calls =
    (blake2s_compress state message count_bytes 0 (if finalize then 0xFFFFFFFF else 0) 0, calls + 1)"

section \<open>The compression function of RFC 7693\<close>

text \<open>
  \<open>G\<close> updates four entries of the working vector in turn, each from the entries as they are
  by then. The eight calls of a round read the message through the permutation of that round.
\<close>

definition rfc_G :: "u32 \<Rightarrow> u32 \<Rightarrow> nat \<times> nat \<times> nat \<times> nat \<Rightarrow> u32 list \<Rightarrow> u32 list" where
  "rfc_G x y is v =
    (case is of (a, b, c, d) \<Rightarrow>
      let v = v[a := v ! a + v ! b + x];
          v = v[d := word_rotr 16 (v ! d XOR v ! a)];
          v = v[c := v ! c + v ! d];
          v = v[b := word_rotr 12 (v ! b XOR v ! c)];
          v = v[a := v ! a + v ! b + y];
          v = v[d := word_rotr 8 (v ! d XOR v ! a)];
          v = v[c := v ! c + v ! d]
      in v[b := word_rotr 7 (v ! b XOR v ! c)])"

definition columns_and_diagonals :: "(nat \<times> nat \<times> nat \<times> nat) list" where
  "columns_and_diagonals =
    [(0, 4, 8, 12), (1, 5, 9, 13), (2, 6, 10, 14), (3, 7, 11, 15),
     (0, 5, 10, 15), (1, 6, 11, 12), (2, 7, 8, 13), (3, 4, 9, 14)]"

definition rfc_round :: "u32 list \<Rightarrow> nat list \<Rightarrow> u32 list \<Rightarrow> u32 list" where
  "rfc_round m s v =
    fold (\<lambda>(i, is). rfc_G (m ! (s ! (2 * i))) (m ! (s ! (2 * i + 1))) is)
      (enumerate 0 columns_and_diagonals) v"

definition rfc_F :: "u32 list \<Rightarrow> u32 list \<Rightarrow> nat \<Rightarrow> bool \<Rightarrow> u32 list" where
  "rfc_F h m t final =
    (let v = h @ IV;
         v = v[12 := v ! 12 XOR of_nat (t mod 2 ^ 32)];
         v = v[13 := v ! 13 XOR of_nat (t div 2 ^ 32)];
         v = (if final then v[14 := v ! 14 XOR NOT 0] else v);
         v = fold (rfc_round m) SIGMA_TABLE v
     in map (\<lambda>i. h ! i XOR v ! i XOR v ! (i + 8)) [0 ..< 8])"

section \<open>The code computes it\<close>

lemma right_rot_rotr:
  assumes "0 < n" "n < 32"
  shows "right_rot value n = word_rotr n value"
proof (rule bit_word_eqI)
  fix i assume i: "i < LENGTH(32)"
  have "(i + n) mod 32 = (if i + n < 32 then i + n else i + n - 32)"
    using i assms by (simp add: mod_if)
  then show "bit (right_rot value n) i = bit (word_rotr n value) i"
    using i assms
    by (auto simp: right_rot_def bit_simps bit_word_rotr_iff mask_eq_exp_minus_1 [symmetric] not_le
        add.commute dest: bit_imp_le_length)
qed

lemma length_mix_at [simp]: "length (mix_at is m0 m1 v) = length v"
  by (simp add: mix_at_def split: prod.splits)

lemma length_rfc_G [simp]: "length (rfc_G x y is v) = length v"
  by (simp add: rfc_G_def Let_def split: prod.splits)

lemma updates_collapse:
  "distinct [a, b, c, d] \<Longrightarrow> {a, b, c, d} \<subseteq> {..< length v} \<Longrightarrow>
    v[a := a1, d := d1, c := c1, b := b1, a := a2, d := d2, c := c2, b := b2] =
    v[a := a2, b := b2, c := c2, d := d2]"
  by (rule nth_equalityI) (auto simp: nth_list_update)

lemma mix_at_is_G:
  assumes "distinct [a, b, c, d]" "{a, b, c, d} \<subseteq> {..< length v}"
  shows "mix_at (a, b, c, d) x y v = rfc_G x y (a, b, c, d) v"
  using assms
  by (simp add: mix_at_def mix_def rfc_G_def Let_def right_rot_rotr nth_list_update updates_collapse)

lemma round_is_rfc: "length v = 16 \<Longrightarrow> blake_round v m s = rfc_round m s v"
  by (simp add: blake_round_def rfc_round_def columns_and_diagonals_def enumerate_eq_zip Let_def
      mix_at_is_G eval_nat_numeral)

lemma length_rfc_round [simp]: "length (rfc_round m s v) = length v"
  by (simp add: rfc_round_def columns_and_diagonals_def)

lemma rounds_are_rfc:
  "length v = 16 \<Longrightarrow> fold (\<lambda>s v. blake_round v m s) ss v = fold (rfc_round m) ss v"
  by (induction ss arbitrary: v) (simp_all add: round_is_rfc)

text \<open>
  C28: the word the code's \<open>blake_compress\<close> returns is the one the compression function of
  RFC 7693 computes from the state, the message, the byte count and the final flag, for every
  input; the call counter goes up by one.
\<close>

theorem blake_compress_is_rfc:
  "length state = 8 \<Longrightarrow>
    native_blake_compress state message count_bytes finalize calls =
      (rfc_F state message (unat count_bytes) finalize, calls + 1)"
proof -
  assume len: "length state = 8"
  have ivs: "take 4 IV = [IV ! 0, IV ! 1, IV ! 2, IV ! 3]" "length IV = 8"
    by (simp_all add: IV_def)
  have "drop 4 IV = [IV ! 4, IV ! 5, IV ! 6, IV ! 7]" by (simp add: IV_def)
  then have iv: "IV = take 4 IV @ [IV ! 4, IV ! 5, IV ! 6, IV ! 7]"
    by (metis append_take_drop_id)
  have "unat count_bytes < 2 ^ 32" using unsigned_less [of count_bytes] by simp
  moreover have "NOT w = w XOR 0xFFFFFFFF" for w :: u32
  proof -
    have "(0xFFFFFFFF :: u32) = - 1" by simp
    then show ?thesis by (simp only: bit.xor_one_right)
  qed
  ultimately have v: "(let v = state @ IV;
         v = v[12 := v ! 12 XOR of_nat (unat count_bytes mod 2 ^ 32)];
         v = v[13 := v ! 13 XOR of_nat (unat count_bytes div 2 ^ 32)]
       in if finalize then v[14 := v ! 14 XOR NOT 0] else v) =
      state @ take 4 IV @ [IV ! 4 XOR count_bytes, IV ! 5 XOR 0,
        IV ! 6 XOR (if finalize then 0xFFFFFFFF else 0), IV ! 7 XOR 0]"
    by (subst iv) (simp add: ivs len list_update_append nth_append Let_def)
  show ?thesis
    using v by (simp add: native_blake_compress_def blake2s_compress_def rfc_F_def Let_def
        rounds_are_rfc len ivs add.commute cong: if_cong)
qed

text \<open>
  The digest RFC 7693 gives for the three bytes \<open>abc\<close>, from the initial state with the
  parameter block of an unkeyed 32-byte hash.
\<close>

definition abc_state :: "u32 list" where "abc_state = IV[0 := IV ! 0 XOR 0x01010020]"
definition abc_message :: "u32 list" where "abc_message = [0x00636261, 0, 0, 0, 0, 0, 0, 0, 0, 0, 0, 0, 0, 0, 0, 0]"
definition abc_digest :: "u32 list" where
  "abc_digest = [0x8C5E8C50, 0xE2147C32, 0xA32BA7E1, 0x2F45EB4E, 0x208B4537, 0x293AD69E, 0x4C9B994D, 0x82596786]"

text \<open>To evaluate the code by rewriting, each word is computed before it is used again.\<close>

definition rot_step :: "u32 \<Rightarrow> u32 \<Rightarrow> nat \<Rightarrow> u32" where
  "rot_step x y n = right_rot (x XOR y) n"

definition half_mix4 :: "nat \<Rightarrow> u32 \<Rightarrow> u32 \<Rightarrow> u32 \<Rightarrow> u32 \<Rightarrow> u32 \<times> u32 \<times> u32 \<times> u32" where
  "half_mix4 r a b c d = (a, rot_step b c r, c, d)"

definition half_mix3 :: "nat \<Rightarrow> u32 \<Rightarrow> u32 \<Rightarrow> u32 \<Rightarrow> u32 \<Rightarrow> u32 \<times> u32 \<times> u32 \<times> u32" where
  "half_mix3 r a b c d = half_mix4 r a b (c + d) d"

definition half_mix2 :: "nat \<Rightarrow> nat \<Rightarrow> u32 \<Rightarrow> u32 \<Rightarrow> u32 \<Rightarrow> u32 \<Rightarrow> u32 \<times> u32 \<times> u32 \<times> u32" where
  "half_mix2 q r a b c d = half_mix3 r a b c (rot_step d a q)"

definition half_mix :: "nat \<Rightarrow> nat \<Rightarrow> u32 \<Rightarrow> u32 \<times> u32 \<times> u32 \<times> u32 \<Rightarrow> u32 \<times> u32 \<times> u32 \<times> u32" where
  "half_mix q r m s = (case s of (a, b, c, d) \<Rightarrow> half_mix2 q r (a + b + m) b c d)"

lemma mix_steps: "mix a b c d m0 m1 = half_mix 8 7 m1 (half_mix 16 12 m0 (a, b, c, d))"
  by (simp add: mix_def half_mix_def half_mix2_def half_mix3_def half_mix4_def rot_step_def Let_def)

lemma half_mix_tuple: "half_mix q r m (a, b, c, d) = half_mix2 q r (a + b + m) b c d"
  by (simp add: half_mix_def)

definition put4 :: "u32 list \<Rightarrow> nat \<Rightarrow> nat \<Rightarrow> nat \<Rightarrow> nat \<Rightarrow> u32 \<times> u32 \<times> u32 \<times> u32 \<Rightarrow> u32 list" where
  "put4 v i j k l r = (case r of (a, b, c, d) \<Rightarrow> v[i := a, j := b, k := c, l := d])"

lemma put4_tuple: "put4 v i j k l (a, b, c, d) = v[i := a, j := b, k := c, l := d]"
  by (simp add: put4_def)

lemma mix_at_steps: "mix_at (i, j, k, l) m0 m1 v =
    put4 v i j k l (half_mix 8 7 m1 (half_mix 16 12 m0 (v ! i, v ! j, v ! k, v ! l)))"
  by (simp add: mix_at_def mix_steps put4_def)

lemmas blake_eval = half_mix_tuple half_mix2_def half_mix3_def half_mix4_def rot_step_def
  right_rot_def mix_at_steps put4_tuple

lemma update_numeral: "(x # xs)[numeral k := y] = x # xs[pred_numeral k := y]"
  by (simp add: numeral_eq_Suc)

lemma round_steps:
  "blake_round v m s = mix_at (3, 4, 9, 14) (m ! (s ! 14)) (m ! (s ! 15))
    (mix_at (2, 7, 8, 13) (m ! (s ! 12)) (m ! (s ! 13))
    (mix_at (1, 6, 11, 12) (m ! (s ! 10)) (m ! (s ! 11))
    (mix_at (0, 5, 10, 15) (m ! (s ! 8)) (m ! (s ! 9))
    (mix_at (3, 7, 11, 15) (m ! (s ! 6)) (m ! (s ! 7))
    (mix_at (2, 6, 10, 14) (m ! (s ! 4)) (m ! (s ! 5))
    (mix_at (1, 5, 9, 13) (m ! (s ! 2)) (m ! (s ! 3))
    (mix_at (0, 4, 8, 12) (m ! (s ! 0)) (m ! (s ! 1)) v)))))))"
  by (simp add: blake_round_def)

definition rounds :: "u32 list \<Rightarrow> nat list list \<Rightarrow> u32 list \<Rightarrow> u32 list" where
  "rounds m ss v = fold (\<lambda>s v. blake_round v m s) ss v"

lemma rounds_eval: "rounds m [] v = v" "rounds m (s # ss) v = rounds m ss (blake_round v m s)"
  by (simp_all add: rounds_def)

lemma abc_rounds:
  "rounds abc_message SIGMA_TABLE
     [0x6B08E647, 0xBB67AE85, 0x3C6EF372, 0xA54FF53A, 0x510E527F, 0x9B05688C, 0x1F83D9AB, 0x5BE0CD19,
      0x6A09E667, 0xBB67AE85, 0x3C6EF372, 0xA54FF53A, 0x510E527C, 0x9B05688C, 0xE07C2654, 0x5BE0CD19] =
     [0xD9C994AA, 0xCFEC3AA6, 0x700D0AB2, 0x2C38670E, 0xAF6A1F66, 0x1D023EF3, 0x1D9EC27D, 0x945357A5,
      0x3E9FFEBD, 0x969FE811, 0xEF485E21, 0xA632797A, 0xDEEF082E, 0xAF3D80E1, 0x4E86829B, 0x4DEAFD3A]"
  by (simp add: rounds_eval blake_eval round_steps update_numeral SIGMA_TABLE_def abc_message_def)

lemma abc_compress: "native_blake_compress abc_state abc_message 3 True 0 = (abc_digest, 1)"
  using abc_rounds
  by (simp add: native_blake_compress_def blake2s_compress_def rounds_def abc_state_def abc_digest_def
      IV_def upt_rec)

lemma blake_compress_is_rfc_witness: "rfc_F abc_state abc_message 3 True = abc_digest"
proof -
  have "length abc_state = 8" by (simp add: abc_state_def IV_def)
  from blake_compress_is_rfc [OF this, of abc_message 3 True 0] show ?thesis
    by (simp add: abc_compress)
qed

end
