(* ===== verification/Mlir.thy ===== *)
theory Mlir
  imports LayoutFacts IntOps
begin

text \<open>
  The values of compiled code and the operations the code generator emits. An emitted
  operation is modelled by what it computes: a builder of \<open>src/libfuncs\<close> becomes a function
  from the values of its block's arguments to the branch it leaves the libfunc by and the
  values it leaves with, \<open>None\<close> when building fails (a missing argument, a type that cannot be
  built, an operation MLIR rejects because its operands do not have the widths it asks for).
  What an operation computes belongs to MLIR and LLVM: it is a parameter, the record \<open>mlir\<close>,
  and \<open>mlir_ok\<close> is the documented behaviour of the operations on operands they are defined
  for. The operations of the signed and the unsigned types are the same ones, on bits.
\<close>

unbundle bit_operations_syntax

section \<open>Types and values\<close>

datatype (plugins only: size code) ir_type =
    IntTy nat | PtrTy | StructTy "ir_type list" | ArrTy ir_type nat

text \<open>
  An integer is its width and its bits, read as an unsigned number. \<open>UndefV\<close> is the result of
  \<open>llvm.mlir.undef\<close>.
\<close>

datatype (plugins only: size code) ir_val =
    IV nat int | PV nat | SV "ir_val list" | UndefV ir_type

text \<open>How the code leaves a libfunc: the branch and the values for it.\<close>

datatype (plugins only: size code) outcome = Branch nat "ir_val list"

section \<open>Operations\<close>

datatype binop = Addi | Subi | Muli | Divui | Remui | Andi | Ori | Xori | Shli | Shrui

datatype cmp_pred = CmpEq | CmpNe | CmpSlt | CmpSle | CmpSgt | CmpSge | CmpUlt | CmpUle | CmpUgt | CmpUge

datatype overflow_op = UaddO | UsubO | SaddO | SsubO

record mlir =
  ml_binop :: "binop \<Rightarrow> nat \<Rightarrow> int \<Rightarrow> int \<Rightarrow> int"
  ml_cmpi :: "cmp_pred \<Rightarrow> nat \<Rightarrow> int \<Rightarrow> int \<Rightarrow> bool"
  \<comment> \<open>\<open>arith.constant\<close>, \<open>trunci\<close>, \<open>extui\<close>, \<open>extsi\<close>: \<open>None\<close> when the operation is rejected;
    extending to the same width is a no-op of the builder\<close>
  ml_const :: "int \<Rightarrow> nat \<Rightarrow> int option"
  ml_trunci :: "nat \<Rightarrow> nat \<Rightarrow> int \<Rightarrow> int option"
  ml_extui :: "nat \<Rightarrow> nat \<Rightarrow> int \<Rightarrow> int option"
  ml_extsi :: "nat \<Rightarrow> nat \<Rightarrow> int \<Rightarrow> int option"
  ml_absi :: "nat \<Rightarrow> int \<Rightarrow> int"
  ml_bswap :: "nat \<Rightarrow> int \<Rightarrow> int"
  \<comment> \<open>\<open>arith.mului_extended\<close>: the low and the high half\<close>
  ml_mului_extended :: "nat \<Rightarrow> int \<Rightarrow> int \<Rightarrow> int \<times> int"
  \<comment> \<open>\<open>llvm.intr.uadd.with.overflow\<close> and its kin: the result and the overflow bit\<close>
  ml_with_overflow :: "overflow_op \<Rightarrow> nat \<Rightarrow> int \<Rightarrow> int \<Rightarrow> int \<times> bool"

text \<open>The two's complement reading of bits, and the bits of an integer.\<close>

definition signed_of :: "nat \<Rightarrow> int \<Rightarrow> int" where
  "signed_of w a = (if a < 2 ^ (w - 1) then a else a - 2 ^ w)"

definition bits_of :: "nat \<Rightarrow> int \<Rightarrow> int" where
  "bits_of w i = i mod 2 ^ w"

fun binop_spec :: "binop \<Rightarrow> nat \<Rightarrow> int \<Rightarrow> int \<Rightarrow> int" where
  "binop_spec Addi w a b = bits_of w (a + b)"
| "binop_spec Subi w a b = bits_of w (a - b)"
| "binop_spec Muli w a b = bits_of w (a * b)"
| "binop_spec Divui w a b = a div b"
| "binop_spec Remui w a b = a mod b"
| "binop_spec Andi w a b = a AND b"
| "binop_spec Ori w a b = a OR b"
| "binop_spec Xori w a b = a XOR b"
| "binop_spec Shli w a b = bits_of w (a * 2 ^ nat b)"
| "binop_spec Shrui w a b = a div 2 ^ nat b"

text \<open>Division by zero is undefined behaviour, a shift by the width or more is poison.\<close>

fun binop_defined :: "binop \<Rightarrow> nat \<Rightarrow> int \<Rightarrow> int \<Rightarrow> bool" where
  "binop_defined Divui w a b = (b \<noteq> 0)"
| "binop_defined Remui w a b = (b \<noteq> 0)"
| "binop_defined Shli w a b = (b < int w)"
| "binop_defined Shrui w a b = (b < int w)"
| "binop_defined _ w a b = True"

fun cmpi_spec :: "cmp_pred \<Rightarrow> nat \<Rightarrow> int \<Rightarrow> int \<Rightarrow> bool" where
  "cmpi_spec CmpEq w a b = (a = b)"
| "cmpi_spec CmpNe w a b = (a \<noteq> b)"
| "cmpi_spec CmpSlt w a b = (signed_of w a < signed_of w b)"
| "cmpi_spec CmpSle w a b = (signed_of w a \<le> signed_of w b)"
| "cmpi_spec CmpSgt w a b = (signed_of w b < signed_of w a)"
| "cmpi_spec CmpSge w a b = (signed_of w b \<le> signed_of w a)"
| "cmpi_spec CmpUlt w a b = (a < b)"
| "cmpi_spec CmpUle w a b = (a \<le> b)"
| "cmpi_spec CmpUgt w a b = (b < a)"
| "cmpi_spec CmpUge w a b = (b \<le> a)"

definition fits_unsigned :: "nat \<Rightarrow> int \<Rightarrow> bool" where
  "fits_unsigned w i \<longleftrightarrow> 0 \<le> i \<and> i < 2 ^ w"

definition fits_signed :: "nat \<Rightarrow> int \<Rightarrow> bool" where
  "fits_signed w i \<longleftrightarrow> - (2 ^ (w - 1)) \<le> i \<and> i < 2 ^ (w - 1)"

fun overflow_spec :: "overflow_op \<Rightarrow> nat \<Rightarrow> int \<Rightarrow> int \<Rightarrow> int \<times> bool" where
  "overflow_spec UaddO w a b = (bits_of w (a + b), \<not> fits_unsigned w (a + b))"
| "overflow_spec UsubO w a b = (bits_of w (a - b), \<not> fits_unsigned w (a - b))"
| "overflow_spec SaddO w a b = (bits_of w (a + b), \<not> fits_signed w (signed_of w a + signed_of w b))"
| "overflow_spec SsubO w a b = (bits_of w (a - b), \<not> fits_signed w (signed_of w a - signed_of w b))"

text \<open>Byte \<open>i\<close> moves to position \<open>w div 8 - 1 - i\<close>.\<close>

definition bswap_spec :: "nat \<Rightarrow> int \<Rightarrow> int" where
  "bswap_spec w a = (\<Sum>i < w div 8. a div 256 ^ i mod 256 * 256 ^ (w div 8 - 1 - i))"

definition mlir_ok :: "mlir \<Rightarrow> bool" where
  "mlir_ok M \<longleftrightarrow>
    (\<forall>op w a b. fits_unsigned w a \<and> fits_unsigned w b \<and> binop_defined op w a b \<longrightarrow>
      ml_binop M op w a b = binop_spec op w a b) \<and>
    (\<forall>p w a b. fits_unsigned w a \<and> fits_unsigned w b \<longrightarrow> ml_cmpi M p w a b = cmpi_spec p w a b) \<and>
    (\<forall>i w. 0 < w \<and> (fits_unsigned w i \<or> fits_signed w i) \<longrightarrow> ml_const M i w = Some (bits_of w i)) \<and>
    (\<forall>w v a. fits_unsigned w a \<and> 0 < v \<and> v < w \<longrightarrow> ml_trunci M w v a = Some (bits_of v a)) \<and>
    (\<forall>w v a. fits_unsigned w a \<and> 0 < w \<and> w \<le> v \<longrightarrow> ml_extui M w v a = Some a) \<and>
    (\<forall>w v a. fits_unsigned w a \<and> 0 < w \<and> w \<le> v \<longrightarrow> ml_extsi M w v a = Some (bits_of v (signed_of w a))) \<and>
    (\<forall>w a. fits_unsigned w a \<longrightarrow> ml_absi M w a = bits_of w \<bar>signed_of w a\<bar>) \<and>
    (\<forall>w a. fits_unsigned w a \<and> 16 dvd w \<longrightarrow> ml_bswap M w a = bswap_spec w a) \<and>
    (\<forall>w a b. fits_unsigned w a \<and> fits_unsigned w b \<longrightarrow>
      ml_mului_extended M w a b = (bits_of w (a * b), a * b div 2 ^ w)) \<and>
    (\<forall>op w a b. fits_unsigned w a \<and> fits_unsigned w b \<longrightarrow>
      ml_with_overflow M op w a b = overflow_spec op w a b)"

text \<open>The instance that computes what the documentation says.\<close>

definition ref_mlir :: mlir where
  "ref_mlir =
    \<lparr>ml_binop = binop_spec, ml_cmpi = cmpi_spec, ml_const = (\<lambda>i w. Some (bits_of w i)),
     ml_trunci = (\<lambda>w v a. Some (bits_of v a)), ml_extui = (\<lambda>w v a. Some a),
     ml_extsi = (\<lambda>w v a. Some (bits_of v (signed_of w a))),
     ml_absi = (\<lambda>w a. bits_of w \<bar>signed_of w a\<bar>), ml_bswap = bswap_spec,
     ml_mului_extended = (\<lambda>w a b. (bits_of w (a * b), a * b div 2 ^ w)),
     ml_with_overflow = overflow_spec\<rparr>"

lemma ref_mlir_ok: "mlir_ok ref_mlir"
  by (simp add: mlir_ok_def ref_mlir_def)

section \<open>Emitting operations\<close>

text \<open>
  The builder methods the libfuncs use (\<open>BuiltinBlockExt\<close>, \<open>ArithBlockExt\<close>, \<open>LlvmBlockExt\<close>
  and the dialect functions): operands of different widths are rejected.
\<close>

definition bit_val :: "bool \<Rightarrow> ir_val" where
  "bit_val c = IV 1 (of_bool c)"

definition arg :: "ir_val list \<Rightarrow> nat \<Rightarrow> ir_val option" where
  "arg entry i = nth_opt entry i"

definition binary :: "mlir \<Rightarrow> binop \<Rightarrow> ir_val \<Rightarrow> ir_val \<Rightarrow> ir_val option" where
  "binary M op x y =
    (case (x, y) of
      (IV w a, IV v b) \<Rightarrow> if w = v then Some (IV w (ml_binop M op w a b)) else None
    | _ \<Rightarrow> None)"

definition cmpi :: "mlir \<Rightarrow> cmp_pred \<Rightarrow> ir_val \<Rightarrow> ir_val \<Rightarrow> ir_val option" where
  "cmpi M p x y =
    (case (x, y) of
      (IV w a, IV v b) \<Rightarrow> if w = v then Some (bit_val (ml_cmpi M p w a b)) else None
    | _ \<Rightarrow> None)"

definition const_int :: "mlir \<Rightarrow> int \<Rightarrow> nat \<Rightarrow> ir_val option" where
  "const_int M i w = map_option (IV w) (ml_const M i w)"

definition const_int_from_type :: "mlir \<Rightarrow> int \<Rightarrow> ir_type \<Rightarrow> ir_val option" where
  "const_int_from_type M i t = (case t of IntTy w \<Rightarrow> const_int M i w | _ \<Rightarrow> None)"

text \<open>\<open>value.r#type()\<close>, of an integer.\<close>

definition int_type :: "ir_val \<Rightarrow> ir_type option" where
  "int_type x = (case x of IV w _ \<Rightarrow> Some (IntTy w) | _ \<Rightarrow> None)"

definition convert :: "(nat \<Rightarrow> nat \<Rightarrow> int \<Rightarrow> int option) \<Rightarrow> ir_val \<Rightarrow> ir_type \<Rightarrow> ir_val option" where
  "convert f x t =
    (case (x, t) of (IV w a, IntTy v) \<Rightarrow> map_option (IV v) (f w v a) | _ \<Rightarrow> None)"

definition absi :: "mlir \<Rightarrow> ir_val \<Rightarrow> ir_val option" where
  "absi M x = (case x of IV w a \<Rightarrow> Some (IV w (ml_absi M w a)) | _ \<Rightarrow> None)"

definition bswap :: "mlir \<Rightarrow> ir_val \<Rightarrow> ir_val option" where
  "bswap M x = (case x of IV w a \<Rightarrow> Some (IV w (ml_bswap M w a)) | _ \<Rightarrow> None)"

definition mului_extended :: "mlir \<Rightarrow> ir_val \<Rightarrow> ir_val \<Rightarrow> (ir_val \<times> ir_val) option" where
  "mului_extended M x y =
    (case (x, y) of
      (IV w a, IV v b) \<Rightarrow>
        if w = v then (case ml_mului_extended M w a b of (lo, hi) \<Rightarrow> Some (IV w lo, IV w hi)) else None
    | _ \<Rightarrow> None)"

definition with_overflow :: "mlir \<Rightarrow> overflow_op \<Rightarrow> ir_val \<Rightarrow> ir_val \<Rightarrow> ir_val option" where
  "with_overflow M op x y =
    (case (x, y) of
      (IV w a, IV v b) \<Rightarrow>
        if w = v then (case ml_with_overflow M op w a b of (r, o') \<Rightarrow> Some (SV [IV w r, bit_val o']))
        else None
    | _ \<Rightarrow> None)"

text \<open>
  The fields of a structure; those of an undefined structure are undefined. \<open>insert_value\<close>
  returns a structure with one field replaced.
\<close>

definition fields_of :: "ir_val \<Rightarrow> ir_val list option" where
  "fields_of x = (case x of SV xs \<Rightarrow> Some xs | UndefV (StructTy ts) \<Rightarrow> Some (map UndefV ts) | _ \<Rightarrow> None)"

definition extract_value :: "ir_val \<Rightarrow> nat \<Rightarrow> ir_val option" where
  "extract_value x i = do { xs \<leftarrow> fields_of x; nth_opt xs i }"

definition insert_value :: "ir_val \<Rightarrow> ir_val \<Rightarrow> nat \<Rightarrow> ir_val option" where
  "insert_value x y i =
    do { xs \<leftarrow> fields_of x; (if i < length xs then Some (SV (xs[i := y])) else None) }"

text \<open>\<open>insert_values\<close>: the fields from the first on.\<close>

fun insert_from :: "ir_val \<Rightarrow> nat \<Rightarrow> ir_val list \<Rightarrow> ir_val option" where
  "insert_from x i [] = Some x"
| "insert_from x i (y # ys) = do { z \<leftarrow> insert_value x y i; insert_from z (Suc i) ys }"

definition insert_values :: "ir_val \<Rightarrow> ir_val list \<Rightarrow> ir_val option" where
  "insert_values x ys = insert_from x 0 ys"

text \<open>
  Choices are made on a value of type \<open>i1\<close>. Both sides of a choice are emitted, whichever one
  is taken, so both have to build.
\<close>

definition pick :: "ir_val \<Rightarrow> 'a \<Rightarrow> 'a \<Rightarrow> 'a option" where
  "pick c x y = (case c of IV w b \<Rightarrow> if w = 1 then Some (if b = 1 then x else y) else None | _ \<Rightarrow> None)"

definition select :: "ir_val \<Rightarrow> ir_val \<Rightarrow> ir_val \<Rightarrow> ir_val option" where
  "select c x y = pick c x y"

definition scf_if :: "ir_val \<Rightarrow> 'a option \<Rightarrow> 'a option \<Rightarrow> 'a option" where
  "scf_if c x y = do { a \<leftarrow> x; b \<leftarrow> y; pick c a b }"

text \<open>\<open>LibfuncHelper::br\<close> and \<open>cond_br\<close>: leaving the libfunc.\<close>

definition br :: "nat \<Rightarrow> ir_val list \<Rightarrow> outcome option" where
  "br branch results = Some (Branch branch results)"

definition cond_br ::
  "ir_val \<Rightarrow> nat \<times> nat \<Rightarrow> ir_val list \<times> ir_val list \<Rightarrow> outcome option" where
  "cond_br c branches results =
    pick c (Branch (fst branches) (fst results)) (Branch (snd branches) (snd results))"

section \<open>Counting builtins\<close>

definition increment_builtin_counter_by :: "mlir \<Rightarrow> ir_val \<Rightarrow> int \<Rightarrow> ir_val option" where
  "increment_builtin_counter_by M v amount =
    do { k \<leftarrow> const_int M amount 64; binary M Addi v k }"

definition increment_builtin_counter :: "mlir \<Rightarrow> ir_val \<Rightarrow> ir_val option" where
  "increment_builtin_counter M v = increment_builtin_counter_by M v 1"

definition increment_builtin_counter_conditionally_by ::
  "mlir \<Rightarrow> ir_val \<Rightarrow> int \<Rightarrow> int \<Rightarrow> ir_val \<Rightarrow> ir_val option" where
  "increment_builtin_counter_conditionally_by M v true_amount false_amount condition =
    do {
      true_amount_value \<leftarrow> const_int M true_amount 64;
      false_amount_value \<leftarrow> const_int M false_amount 64;
      true_incremented \<leftarrow> binary M Addi v true_amount_value;
      false_incremented \<leftarrow> binary M Addi v false_amount_value;
      select condition true_incremented false_incremented }"

end
