(* ===== verification/IrTypes.thy ===== *)
theory IrTypes
  imports Mlir
begin

text \<open>
  \<open>TypeBuilder::build\<close> of \<open>src/types.rs\<close> and \<open>src/types/*.rs\<close>: the MLIR type of a Sierra
  type. \<open>TypeLayouts\<close> compares it with the layout of the type.
\<close>

section \<open>Building types\<close>

text \<open>A failed result is \<open>None\<close>: the generator reports it as an error.\<close>

definition ok :: "'a res \<Rightarrow> 'a option" where
  "ok r = (case r of Ok a \<Rightarrow> Some a | _ \<Rightarrow> None)"

lemma ok_Ok [simp]: "ok (Ok a) = Some a"
  by (simp add: ok_def)

lemma ok_Some [simp]: "ok r = Some a \<longleftrightarrow> r = Ok a"
  by (cases r) (simp_all add: ok_def)

definition bytes_ty :: "nat \<Rightarrow> ir_type" where
  "bytes_ty n = ArrTy (IntTy 8) n"

definition build_u384_struct_type :: ir_type where
  "build_u384_struct_type = StructTy [IntTy 96, IntTy 96, IntTy 96, IntTy 96]"

definition build_circuit_type :: "circuit_type \<Rightarrow> ir_type option" where
  "build_circuit_type ct =
    (case ct of
      CircuitModulusCT \<Rightarrow> Some (IntTy 384)
    | U96GuaranteeCT \<Rightarrow> Some (IntTy 96)
    | CircuitInputAccumulatorCT \<Rightarrow> Some (StructTy [IntTy 64, PtrTy])
    | CircuitDataCT \<Rightarrow> Some PtrTy
    | CircuitOutputsCT \<Rightarrow> Some (StructTy [PtrTy, build_u384_struct_type])
    | U96LimbsLessThanGuaranteeCT limbs \<Rightarrow>
        (let limb_struct_type = StructTy (replicate limbs (IntTy 96)) in
         Some (StructTy [limb_struct_type, limb_struct_type]))
    | AddModCT \<Rightarrow> Some (IntTy 64)
    | MulModCT \<Rightarrow> Some (IntTy 64)
    | CircuitFailureGuaranteeCT \<Rightarrow> Some (StructTy [build_u384_struct_type, build_u384_struct_type])
    | CircuitDescriptorCT \<Rightarrow> Some (bytes_ty 0)
    | CircuitPartialOutputsCT \<Rightarrow> Some (bytes_ty 0)
    | _ \<Rightarrow> None)"

definition build_starknet_type :: "starknet_type \<Rightarrow> ir_type" where
  "build_starknet_type st =
    (case st of
      ClassHashST \<Rightarrow> IntTy 252
    | ContractAddressST \<Rightarrow> IntTy 252
    | StorageBaseAddressST \<Rightarrow> IntTy 252
    | StorageAddressST \<Rightarrow> IntTy 252
    | SystemST \<Rightarrow> PtrTy
    | Secp256PointST _ \<Rightarrow>
        StructTy [StructTy [IntTy 128, IntTy 128], StructTy [IntTy 128, IntTy 128], IntTy 1]
    | Sha256StateHandleST \<Rightarrow> PtrTy
    | Sha512StateHandleST \<Rightarrow> PtrTy)"

text \<open>
  \<open>types/enum.rs\<close>: an enum of one variant is that variant; with only zero-sized payloads it is
  the tag; otherwise a block of the size and alignment of its layout, led by an integer as wide
  as the alignment.
\<close>

definition build_enum_type ::
  "(type_id \<Rightarrow> ir_type option) \<Rightarrow> registry \<Rightarrow> type_id list \<Rightarrow> ir_type option" where
  "build_enum_type build R variants =
    do {
      let bits = tag_bits variants;
      let tag_layout = get_integer_layout bits;
      layout \<leftarrow> ok (try_fold
        (\<lambda>acc id. and_then (registry_get R id) (\<lambda>ty. and_then (ty_layout R ty) (enum_step tag_layout acc)))
        tag_layout variants);
      (case variants of
        [] \<Rightarrow> Some (bytes_ty 0)
      | [v] \<Rightarrow> build v
      | _ \<Rightarrow>
          do {
            zsts \<leftarrow> ok (all_members (\<lambda>v. and_then (registry_get R v) (is_zst R)) variants);
            (if zsts then Some (StructTy [IntTy bits, bytes_ty 0])
             else Some (StructTy [IntTy (8 * lalign layout), bytes_ty ((lsize layout - lalign layout) mod 2 ^ 32)])) }) }"

fun build_fuel :: "nat \<Rightarrow> registry \<Rightarrow> core_type \<Rightarrow> ir_type option" where
  "build_fuel 0 R ty = None"
| "build_fuel (Suc n) R ty =
    (let build_type = (\<lambda>t. Option.bind (get_type R t) (build_fuel n R)) in
     case ty of
      ArrayT _ \<Rightarrow> Some (StructTy [PtrTy, IntTy 32, IntTy 32, IntTy 32])
    | BitwiseT \<Rightarrow> Some (IntTy 64)
    | BoundedIntT r \<Rightarrow> Some (IntTy (repr_bit_width r))
    | BoundedIntGuaranteeT r \<Rightarrow> Some (IntTy (repr_bit_width r))
    | BoxT _ \<Rightarrow> Some PtrTy
    | Bytes31T \<Rightarrow> Some (IntTy 248)
    | BuiltinCostsT \<Rightarrow> Some PtrTy
    | ConstT _ _ \<Rightarrow> None
    | EcOpT \<Rightarrow> Some (IntTy 64)
    | EcPointT \<Rightarrow> Some (StructTy [IntTy 252, IntTy 252])
    | EcStateT \<Rightarrow> Some (StructTy [IntTy 252, IntTy 252, IntTy 252])
    | EnumT variants \<Rightarrow> build_enum_type build_type R variants
    | Felt252T \<Rightarrow> Some (IntTy 252)
    | Felt252DictT _ \<Rightarrow> Some PtrTy
    | Felt252DictEntryT _ \<Rightarrow> Some (StructTy [PtrTy, PtrTy])
    | GasBuiltinT \<Rightarrow> Some (IntTy 64)
    | NonZeroT e \<Rightarrow> build_type e
    | NullableT _ \<Rightarrow> Some PtrTy
    | PedersenT \<Rightarrow> Some (IntTy 64)
    | PoseidonT \<Rightarrow> Some (IntTy 64)
    | RangeCheckT \<Rightarrow> Some (IntTy 64)
    | RangeCheck96T \<Rightarrow> Some (IntTy 64)
    | SegmentArenaT \<Rightarrow> Some (IntTy 64)
    | Sint8T \<Rightarrow> Some (IntTy 8)
    | Sint16T \<Rightarrow> Some (IntTy 16)
    | Sint32T \<Rightarrow> Some (IntTy 32)
    | Sint64T \<Rightarrow> Some (IntTy 64)
    | Sint128T \<Rightarrow> Some (IntTy 128)
    | SnapshotT e \<Rightarrow> build_type e
    | SpanT _ \<Rightarrow> None
    | SquashedFelt252DictT _ \<Rightarrow> Some PtrTy
    | StarknetT st \<Rightarrow> Some (build_starknet_type st)
    | StructT members \<Rightarrow> map_option StructTy (map_opt build_type members)
    | Uint8T \<Rightarrow> Some (IntTy 8)
    | Uint16T \<Rightarrow> Some (IntTy 16)
    | Uint32T \<Rightarrow> Some (IntTy 32)
    | Uint64T \<Rightarrow> Some (IntTy 64)
    | Uint128T \<Rightarrow> Some (IntTy 128)
    | Uint128MulGuaranteeT \<Rightarrow> Some (bytes_ty 0)
    | UninitializedT e \<Rightarrow> build_type e
    | CouponT \<Rightarrow> Some (bytes_ty 0)
    | CircuitT ct \<Rightarrow> build_circuit_type ct
    | IntRangeT e \<Rightarrow> map_option (\<lambda>inner. StructTy [inner, inner]) (build_type e)
    | GasReserveT \<Rightarrow> Some (IntTy 128)
    | BlakeT \<Rightarrow> None
    | QM31T \<Rightarrow> Some (ArrTy (IntTy 31) 4))"

definition build :: "registry \<Rightarrow> core_type \<Rightarrow> ir_type option" where
  "build R = build_fuel (rec_limit R) R"

definition build_type :: "registry \<Rightarrow> type_id \<Rightarrow> ir_type option" where
  "build_type R t = Option.bind (get_type R t) (build R)"

section \<open>Kinds of types\<close>

definition is_bounded_int :: "registry \<Rightarrow> core_type \<Rightarrow> bool res" where
  "is_bounded_int R = is_bounded_int_fuel (rec_limit R) R"

definition is_felt252 :: "registry \<Rightarrow> core_type \<Rightarrow> bool res" where
  "is_felt252 R = is_felt252_fuel (rec_limit R) R"

end
