(* ===== verification/TypeLayouts.thy ===== *)
theory TypeLayouts
  imports IrTypes
begin

text \<open>
  The MLIR type of a Sierra type (\<open>IrTypes\<close>) takes the size and alignment of the layout of the
  type (\<open>NativeLayout\<close>), which is what arguments and results are written and read with on the
  Rust side. How LLVM lays out a type is a parameter, a function from MLIR types to layouts,
  with the rules of the data layout of the two targets as its hypothesis.
\<close>

section \<open>The data layout of the target\<close>

text \<open>
  Integers are aligned to the smallest of 8, 16, 32, 64 and 128 bits they fit in (to 128 bits
  when they fit in none) and take a multiple of their alignment; pointers have 64 bits; the
  members of a structure follow each other at their alignment.
\<close>

definition int_align :: "nat \<Rightarrow> nat" where
  "int_align w = (if w \<le> 8 then 1 else if w \<le> 16 then 2 else if w \<le> 32 then 4 else if w \<le> 64 then 8 else 16)"

definition int_abi :: "nat \<Rightarrow> layout" where
  "int_abi w = \<lparr>lsize = round_up ((w + 7) div 8) (int_align w), lalign = int_align w\<rparr>"

definition place :: "layout \<Rightarrow> layout \<Rightarrow> layout" where
  "place A M = \<lparr>lsize = round_up (lsize A) (lalign M) + lsize M, lalign = max (lalign A) (lalign M)\<rparr>"

definition struct_abi :: "layout list \<Rightarrow> layout" where
  "struct_abi Ls = pad_to_align (foldl place unit_layout Ls)"

definition array_abi :: "layout \<Rightarrow> nat \<Rightarrow> layout" where
  "array_abi L n = \<lparr>lsize = n * lsize L, lalign = lalign L\<rparr>"

definition layout_rules :: "(ir_type \<Rightarrow> layout) \<Rightarrow> bool" where
  "layout_rules A \<longleftrightarrow>
    (\<forall>w > 0. A (IntTy w) = int_abi w) \<and> A PtrTy = ptr_layout \<and>
    (\<forall>ts. A (StructTy ts) = struct_abi (map A ts)) \<and>
    (\<forall>t n. A (ArrTy t n) = array_abi (A t) n)"

fun ref_abi :: "ir_type \<Rightarrow> layout" where
  "ref_abi (IntTy w) = int_abi w"
| "ref_abi PtrTy = ptr_layout"
| "ref_abi (StructTy ts) = struct_abi (map ref_abi ts)"
| "ref_abi (ArrTy t n) = array_abi (ref_abi t) n"

lemma ref_abi_rules: "layout_rules ref_abi"
  unfolding layout_rules_def by (metis ref_abi.simps)

lemma int_abi_eq: "0 < w \<Longrightarrow> int_abi w = pad_to_align (get_integer_layout w)"
proof -
  assume "0 < w"
  moreover have "(w + 7) div 8 = 1" if "0 < w" "w \<le> 8" using that by linarith
  moreover have "(w + 7) div 8 = 2" if "8 < w" "w \<le> 16" using that by linarith
  moreover have "round_up ((w + 7) div 8) 4 = 4" if "16 < w" "w \<le> 32" using that by (simp add: round_up_def)
  moreover have "round_up ((w + 7) div 8) 8 = 8" if "32 < w" "w \<le> 64" using that by (simp add: round_up_def)
  moreover have "round_up ((w + 7) div 8) 16 = 16" if "64 < w" "w \<le> 128" using that by (simp add: round_up_def)
  ultimately show ?thesis
    by (auto simp: int_abi_def int_align_def get_integer_layout_def pad_to_align_def)
qed


lemma abi_simps:
  assumes "layout_rules A"
  shows "0 < w \<Longrightarrow> A (IntTy w) = pad_to_align (get_integer_layout w)" "A PtrTy = ptr_layout"
    "A (StructTy ts) = struct_abi (map A ts)" "A (ArrTy t n) = array_abi (A t) n"
    "A (bytes_ty k) = \<lparr>lsize = k, lalign = 1\<rparr>"
proof -
  show "0 < w \<Longrightarrow> A (IntTy w) = pad_to_align (get_integer_layout w)" "A PtrTy = ptr_layout"
    "A (StructTy ts) = struct_abi (map A ts)" "A (ArrTy t n) = array_abi (A t) n"
    using assms by (simp_all add: layout_rules_def int_abi_eq)
  show "A (bytes_ty k) = \<lparr>lsize = k, lalign = 1\<rparr>"
    using assms by (simp add: layout_rules_def bytes_ty_def array_abi_def int_abi_def int_align_def)
qed

section \<open>Structures\<close>

lemma extend_place: "layout_extend L M = Ok (N, k) \<Longrightarrow> N = place L M"
  by (auto simp: layout_extend_def Let_def from_size_align_Ok place_def)

lemma place_unit [simp]: "0 < lalign L \<Longrightarrow> place unit_layout L = L"
  by (cases L) (simp add: place_def unit_layout_def max_def)

lemma struct_step_place: "struct_step acc L = Ok (N, k) \<Longrightarrow> 0 < lalign L \<Longrightarrow>
    N = place (case acc of Some M \<Rightarrow> M | None \<Rightarrow> unit_layout) L"
  by (auto simp: struct_step_def dest: extend_place split: option.splits)

lemma struct_fold_place:
  "try_fold (\<lambda>acc id. and_then (registry_get R id) (\<lambda>ty. and_then (ty_layout R ty) (\<lambda>L.
      and_then (struct_step acc L) (\<lambda>(N, _). Ok (Some N))))) acc ms = Ok M \<Longrightarrow>
    list_all2 (\<lambda>m t. \<forall>ty L. get_type R m = Some ty \<longrightarrow> ty_layout R ty = Ok L \<longrightarrow> A t = L) ms ts \<Longrightarrow>
    (case M of Some L \<Rightarrow> L | None \<Rightarrow> unit_layout) =
      foldl place (case acc of Some L \<Rightarrow> L | None \<Rightarrow> unit_layout) (map A ts)"
proof (induction ms arbitrary: acc ts)
  case (Cons m ms)
  from Cons.prems(2) obtain t ts' where ts: "ts = t # ts'"
    "\<And>ty L. get_type R m = Some ty \<Longrightarrow> ty_layout R ty = Ok L \<Longrightarrow> A t = L"
    "list_all2 (\<lambda>m t. \<forall>ty L. get_type R m = Some ty \<longrightarrow> ty_layout R ty = Ok L \<longrightarrow> A t = L) ms ts'"
    by (auto simp: list_all2_Cons1)
  from Cons.prems(1) obtain ty L N k where m: "get_type R m = Some ty" "ty_layout R ty = Ok L"
      "struct_step acc L = Ok (N, k)"
    and rest: "try_fold (\<lambda>acc id. and_then (registry_get R id) (\<lambda>ty. and_then (ty_layout R ty) (\<lambda>L.
      and_then (struct_step acc L) (\<lambda>(N, _). Ok (Some N))))) (Some N) ms = Ok M"
    by auto
  have "N = place (case acc of Some M \<Rightarrow> M | None \<Rightarrow> unit_layout) L"
    using struct_step_place [OF m(3)] align_pos [OF ty_layout_wf(2) [OF m(2)]] by simp
  then show ?case using Cons.IH [OF rest ts(3)] ts(1) ts(2) [OF m(1,2)] by simp
qed simp

lemma struct_bytes:
  "0 < lalign L \<Longrightarrow> struct_abi [L, \<lparr>lsize = k, lalign = 1\<rparr>] = pad_to_align \<lparr>lsize = lsize L + k, lalign = lalign L\<rparr>"
  by (simp add: struct_abi_def) (auto simp: place_def max_def round_up_def le_Suc_eq)

lemma pad_pad [simp]: "0 < lalign L \<Longrightarrow> pad_to_align \<lparr>lsize = lsize (pad_to_align L), lalign = lalign L\<rparr> = pad_to_align L"
  by (cases L) (simp add: pad_to_align_def)

lemma pad_align [simp]: "lalign (pad_to_align L) = lalign L"
  by (simp add: pad_to_align_def)

section \<open>Zero-sized types\<close>

lemma zst_is_unit:
  "is_zst_fuel n R ty = Ok True \<Longrightarrow> ty_layout R ty = Ok L \<Longrightarrow> L = unit_layout"
proof (induction n arbitrary: ty L)
  case (Suc n)
  note body = ty_layout_body [OF Suc.prems(2)]
  have wrapped: "pad_to_align M = unit_layout"
    if "get_type R e = Some ty'" "is_zst_fuel n R ty' = Ok True" "ty_layout R ty' = Ok M" for e ty' M
    using Suc.IH [OF that(2,3)] by (simp add: pad_to_align_def unit_layout_def round_up_def)
  show ?case
  proof (cases ty)
    case (EnumT vs)
    show ?thesis
    proof (cases vs)
      case Nil
      then show ?thesis using body EnumT
        by (auto simp: layout_body_def tag_bits_def bits.simps [of 0] get_integer_layout_def pad_to_align_def
          unit_layout_def round_up_def)
    next
      case (Cons v vs')
      then have vs: "vs = [v]" using Suc.prems(1) EnumT by (cases vs') auto
      then obtain ty' M N where v: "get_type R v = Some ty'" "ty_layout R ty' = Ok M"
        "enum_step unit_layout unit_layout M = Ok N" "L = pad_to_align N"
        using body EnumT
        by (auto simp: layout_body_def tag_bits_def bits.simps [of 0] get_integer_layout_def)
      then have "M = unit_layout" using Suc.IH [of ty' M] Suc.prems(1) EnumT vs by auto
      then show ?thesis using v(3,4)
        by (auto simp: enum_step_def layout_extend_def Let_def from_size_align_Ok unit_layout_def pad_to_align_def
          round_up_def)
    qed
  next
    case (StructT ms)
    then obtain M where M: "L = pad_to_align (case M of Some L \<Rightarrow> L | None \<Rightarrow> unit_layout)"
      "try_fold (\<lambda>acc id. and_then (registry_get R id) (\<lambda>ty. and_then (ty_layout R ty) (\<lambda>L.
          and_then (struct_step acc L) (\<lambda>(N, _). Ok (Some N))))) None ms = Ok M"
      using body by (auto simp: layout_body_def)
    have "\<forall>m \<in> set ms. and_then (registry_get R m) (is_zst_fuel n R) = Ok True"
      using Suc.prems(1) StructT by (simp add: all_members_True)
    then have "list_all2 (\<lambda>m t. \<forall>ty L. get_type R m = Some ty \<longrightarrow> ty_layout R ty = Ok L \<longrightarrow>
        (\<lambda>_. unit_layout) t = L) ms (map (\<lambda>_. undefined) ms)"
      using Suc.IH by (fastforce simp: list.rel_map intro!: list.rel_refl_strong)
    from struct_fold_place [OF M(2) this]
    have "(case M of Some L \<Rightarrow> L | None \<Rightarrow> unit_layout) =
        foldl place unit_layout (map (\<lambda>_. unit_layout) ms)" by (simp add: comp_def)
    also have "\<dots> = unit_layout" by (induction ms) (simp_all add: place_def unit_layout_def round_up_def)
    finally show ?thesis using M(1) by (simp add: pad_to_align_def unit_layout_def round_up_def)
  next
    case (IntRangeT e)
    then obtain ty' M N k where "get_type R e = Some ty'" "ty_layout R ty' = Ok M"
      "layout_extend M M = Ok (N, k)" "L = pad_to_align N"
      using body by (auto simp: layout_body_def)
    moreover from this have "M = unit_layout" using Suc IntRangeT by auto
    ultimately show ?thesis
      by (auto simp: layout_extend_def Let_def from_size_align_Ok pad_to_align_def unit_layout_def round_up_def)
  qed (use Suc.prems(1) body wrapped in \<open>auto simp: layout_body_def pad_to_align_def unit_layout_def round_up_def
      circuit_is_zst_def circuit_layout_def split: circuit_type.splits\<close>)
qed simp

section \<open>Types and their layouts\<close>

text \<open>
  What a registry of a program that can run satisfies: no type takes 4 GiB or more (the padding
  of an enum is a \<open>u32\<close>), and the guarantee of a circuit has limbs.
\<close>

definition declared_layouts :: "registry \<Rightarrow> bool" where
  "declared_layouts R \<longleftrightarrow>
    (\<forall>t ty. get_type R t = Some ty \<longrightarrow>
      (\<forall>L. ty_layout R ty = Ok L \<longrightarrow> lsize L < 2 ^ 32) \<and> ty \<noteq> CircuitT (U96LimbsLessThanGuaranteeCT 0))"

lemma tag_bits_pos: "1 < length vs \<Longrightarrow> 0 < tag_bits vs"
  using less_two_pow_bits [of "length vs - 1"] by (cases "tag_bits vs") (auto simp: tag_bits_def)

lemma pad_integer: "w \<le> 128 \<Longrightarrow> pad_to_align (get_integer_layout w) = get_integer_layout w"
  by (auto simp: get_integer_layout_def pad_to_align_def unit_layout_def round_up_def)

lemma int_of_align: "a \<in> {1, 2, 4, 8, 16} \<Longrightarrow> get_integer_layout (8 * a) = \<lparr>lsize = a, lalign = a\<rparr>"
  by (auto simp: get_integer_layout_def)

text \<open>An enum with payloads: the tag takes at least the alignment.\<close>

lemma enum_fold_align:
  assumes "try_fold
      (\<lambda>acc id. and_then (registry_get R id) (\<lambda>ty. and_then (ty_layout R ty) (enum_step tag acc))) acc vs = Ok L"
    and "align_ok tag" "lalign tag \<le> lsize tag" "align_ok acc" "lalign acc \<le> lsize acc"
  shows "align_ok L \<and> lalign L \<le> lsize L"
  using assms(1,4,5)
proof (induction vs arbitrary: acc)
  case (Cons v vs)
  obtain ty P N where v: "get_type R v = Some ty" "ty_layout R ty = Ok P" "enum_step tag acc P = Ok N"
    and rest: "try_fold (\<lambda>acc id. and_then (registry_get R id) (\<lambda>ty. and_then (ty_layout R ty)
      (enum_step tag acc))) N vs = Ok L"
    using Cons.prems(1) by auto
  note al = ty_layout_wf(2) [OF v(2)]
  obtain F off where F: "layout_extend tag P = Ok (F, off)"
    "N = \<lparr>lsize = max (lsize acc) (lsize F), lalign = max (lalign acc) (lalign F)\<rparr>"
    using v(3) by (auto simp: enum_step_def from_size_align_Ok)
  note ext = layout_extend_Ok [OF F(1) assms(2) al]
  obtain k where "off = lalign P * k" using ext(5) by blast
  moreover have "0 < off" using ext(4) assms(3) align_pos [OF assms(2)] by simp
  ultimately have "lalign P \<le> off" by (cases k) auto
  moreover have "lalign tag \<le> lsize F" using ext(3,4) assms(3) by simp
  ultimately have "lalign N \<le> lsize N" "align_ok N"
    using F(2) ext(2,3,4) Cons.prems(3) enum_step_fits(4) [OF v(3) assms(2) Cons.prems(2) al] assms
    by (auto simp: max_def)
  then show ?case using Cons.IH [OF rest] by blast
qed auto

text \<open>An enum without payloads is its tag.\<close>

lemma enum_fold_tag:
  assumes "try_fold
      (\<lambda>acc id. and_then (registry_get R id) (\<lambda>ty. and_then (ty_layout R ty) (enum_step tag acc))) tag vs = Ok L"
    and "\<forall>v \<in> set vs. \<exists>ty. get_type R v = Some ty \<and> is_zst R ty = Ok True" "align_ok tag"
  shows "L = tag"
  using assms(1,2)
proof (induction vs)
  case (Cons v vs)
  then obtain ty P N where v: "get_type R v = Some ty" "is_zst R ty = Ok True" "ty_layout R ty = Ok P"
      "enum_step tag tag P = Ok N"
    and rest: "try_fold (\<lambda>acc id. and_then (registry_get R id) (\<lambda>ty. and_then (ty_layout R ty)
      (enum_step tag acc))) N vs = Ok L"
    by auto
  have "P = unit_layout" using v(2,3) zst_is_unit by (auto simp: is_zst_def)
  then have "N = tag" using v(4) align_pos [OF assms(3)]
    by (cases tag) (auto simp: enum_step_def layout_extend_def Let_def from_size_align_Ok unit_layout_def max_def round_up_def)
  then show ?case using Cons rest by simp
qed simp

lemma integer_size: "0 < w \<Longrightarrow> lalign (get_integer_layout w) \<le> lsize (get_integer_layout w)"
  using div_le_mono [of 128 "w + 7" 8] by (simp add: get_integer_layout_def)

lemma enum_layout_abi:
  assumes A: "layout_rules A" and R: "declared_layouts R" and E: "get_type R t = Some (EnumT vs)"
    and L: "ty_layout R (EnumT vs) = Ok L" and T: "build_enum_type b R vs = Some T"
    and IH: "\<And>v T ty L. b v = Some T \<Longrightarrow> get_type R v = Some ty \<Longrightarrow> ty_layout R ty = Ok L \<Longrightarrow> A T = L"
  shows "A T = L"
proof -
  let ?tag = "get_integer_layout (tag_bits vs)"
  obtain M where M: "L = pad_to_align M"
    "try_fold (\<lambda>acc id. and_then (registry_get R id) (\<lambda>ty. and_then (ty_layout R ty) (enum_step ?tag acc)))
      ?tag vs = Ok M"
    using ty_layout_body [OF L] by (auto simp: layout_body_def Let_def)
  note simps = abi_simps [OF A]
  consider (none) "vs = []" | (one) v where "vs = [v]" | (more) v v' vs' where "vs = v # v' # vs'"
    by (metis neq_Nil_conv)
  then show ?thesis
  proof cases
    case none
    then show ?thesis using M T
      by (auto simp: build_enum_type_def Let_def tag_bits_def bits.simps [of 0] get_integer_layout_def
        unit_layout_def pad_to_align_def round_up_def ok_def simps)
  next
    case one
    then obtain ty P where v: "get_type R v = Some ty" "ty_layout R ty = Ok P"
      "enum_step unit_layout unit_layout P = Ok M"
      using M by (auto simp: tag_bits_def bits.simps [of 0] get_integer_layout_def)
    have "M = P" using v(3) align_pos [OF ty_layout_wf(2) [OF v(2)]]
      by (cases P) (auto simp: enum_step_def layout_extend_def Let_def from_size_align_Ok unit_layout_def max_def)
    then show ?thesis using IH [OF _ v(1,2)] T M(1) one pad_padded [OF ty_layout_padded [OF v(2)]]
      by (auto simp: build_enum_type_def Let_def bind_eq_Some_conv)
  next
    case more
    have tag: "0 < tag_bits vs" using more by (intro tag_bits_pos) simp
    have len: "length vs \<noteq> 0" "length vs \<noteq> 1" using more by simp_all
    obtain zsts where z: "all_members (\<lambda>v. and_then (registry_get R v) (is_zst R)) vs = Ok zsts"
      and T': "T = (if zsts then StructTy [IntTy (tag_bits vs), bytes_ty 0]
        else StructTy [IntTy (8 * lalign M), bytes_ty ((lsize M - lalign M) mod 2 ^ 32)])"
      using T unfolding build_enum_type_def Let_def M(2)
      by (auto simp: more bind_eq_Some_conv simp del: all_members.simps split: if_splits)
    show ?thesis
    proof (cases zsts)
      case True
      then have all: "\<forall>v \<in> set vs. \<exists>ty. get_type R v = Some ty \<and> is_zst R ty = Ok True"
        using z by (auto simp: all_members_True)
      have "M = ?tag" by (rule enum_fold_tag [OF M(2) all]) simp
      then show ?thesis using True T' M(1) tag
        by (simp add: simps struct_bytes align_pos del: One_nat_def)
    next
      case False
      have al: "align_ok M \<and> lalign M \<le> lsize M"
        by (rule enum_fold_align [OF M(2)]) (use tag integer_size in simp_all)
      have "lsize M \<le> lsize L" using M(1) round_up_le [of "lalign M"] al by (auto simp: pad_to_align_def align_pos)
      then have "lsize M < 2 ^ 32" using R E L by (fastforce simp: declared_layouts_def)
      then have "(lsize M - lalign M) mod 2 ^ 32 = lsize M - lalign M" by simp
      moreover have "A (IntTy (8 * lalign M)) = \<lparr>lsize = lalign M, lalign = lalign M\<rparr>"
        using al by (subst simps(1)) (auto simp: align_ok_def get_integer_layout_def pad_to_align_def)
      ultimately show ?thesis using False T' M(1) al align_pos [of M]
        by (cases M) (simp add: simps struct_bytes del: One_nat_def)
    qed
  qed
qed

lemma layout_repeat_abi:
  assumes "layout_repeat L n = Ok (N, k)" "padded L"
  shows "N = \<lparr>lsize = n * lsize L, lalign = lalign L\<rparr>"
proof -
  from assms(2) obtain j where "lalign L = 2 ^ j" "j < 63"
    by (auto simp: padded_def wf_layout_def dest: that [of 0, simplified] that [of 1, simplified]
      that [of 2, simplified] that [of 3, simplified] that [of 4, simplified])
  then have "unat (padding_needed_for L (2 ^ j)) = 0"
    using padding_needed_for_eq [of j L] assms(2) by (simp add: padded_def wf_layout_def)
  then show ?thesis using assms(1) \<open>lalign L = 2 ^ j\<close>
    by (auto simp: layout_repeat_def Let_def from_size_align_Ok mult.commute split: if_splits)
qed

lemma integer_padded: "padded (get_integer_layout 31)" "padded (get_integer_layout 96)" "padded (get_integer_layout 252)"
  by (simp_all add: padded_def wf_layout_def get_integer_layout_def)

lemma pad_constant [simp]: "pad_to_align ptr_layout = ptr_layout" "pad_to_align unit_layout = unit_layout"
  "pad_to_align u64_layout = u64_layout"
  by (simp_all add: pad_to_align_def ptr_layout_def unit_layout_def u64_layout_def round_up_def)

lemmas layout_values = struct_abi_def array_abi_def place_def pad_to_align_def unit_layout_def ptr_layout_def u64_layout_def
  get_integer_layout_def round_up_def

text \<open>A structure of equal, padded members is an array of them.\<close>

lemma fold_replicate:
  assumes "0 < a" "a dvd s" "a dvd k"
  shows "foldl place \<lparr>lsize = k, lalign = a\<rparr> (replicate n \<lparr>lsize = s, lalign = a\<rparr>) = \<lparr>lsize = k + n * s, lalign = a\<rparr>"
  using assms(3)
proof (induction n arbitrary: k)
  case (Suc n)
  then have "place \<lparr>lsize = k, lalign = a\<rparr> \<lparr>lsize = s, lalign = a\<rparr> = \<lparr>lsize = k + s, lalign = a\<rparr>"
    using assms by (simp add: place_def)
  then show ?case using Suc.IH [of "k + s"] Suc.prems assms(2) by (simp add: algebra_simps)
qed simp

lemma struct_replicate:
  assumes "0 < n" "0 < a" "a dvd s"
  shows "struct_abi (replicate n \<lparr>lsize = s, lalign = a\<rparr>) = \<lparr>lsize = n * s, lalign = a\<rparr>"
proof -
  obtain m where "n = Suc m" using assms(1) by (cases n) auto
  then show ?thesis using fold_replicate [OF assms(2,3), of s m] assms
    by (simp add: struct_abi_def pad_to_align_def)
qed

lemma felt_array_abi:
  assumes "felt_array_layout n = Ok L" "0 < n" "layout_rules A"
  shows "A (StructTy (replicate n (IntTy 252))) = pad_to_align L"
proof -
  have i: "get_integer_layout 252 = \<lparr>lsize = 32, lalign = 16\<rparr>" by (simp add: get_integer_layout_def)
  obtain k where "layout_repeat (get_integer_layout 252) n = Ok (L, k)"
    using assms(1) by (auto simp: felt_array_layout_def)
  from layout_repeat_abi [OF this integer_padded(3)] show ?thesis
    using struct_replicate [OF assms(2), of 16 32] by (simp add: abi_simps [OF assms(3)] i pad_to_align_def round_up_def)
qed

lemma starknet_abi:
  assumes "starknet_layout st = Ok L" "layout_rules A"
  shows "A (build_starknet_type st) = pad_to_align L"
  using assms(1)
  by (cases st) (auto simp: starknet_layout_def build_starknet_type_def abi_simps [OF assms(2)] dest!: extend_place,
    simp_all add: layout_values)

lemma circuit_abi:
  assumes "circuit_layout ct = Ok L" "layout_rules A" "build_circuit_type ct = Some T" "ct \<noteq> U96LimbsLessThanGuaranteeCT 0"
  shows "A T = pad_to_align L"
proof (cases ct)
  case (U96LimbsLessThanGuaranteeCT l)
  have i: "get_integer_layout 96 = \<lparr>lsize = 16, lalign = 16\<rparr>" by (simp add: get_integer_layout_def)
  obtain k where "layout_repeat (get_integer_layout 96) (2 * l) = Ok (L, k)"
    using assms(1) U96LimbsLessThanGuaranteeCT by (auto simp: circuit_layout_def)
  from layout_repeat_abi [OF this integer_padded(2)] show ?thesis
    using struct_replicate [of l 16 16] assms(3,4) U96LimbsLessThanGuaranteeCT
    by (auto simp: build_circuit_type_def Let_def abi_simps [OF assms(2)] layout_values struct_abi_def)
next
  case CircuitFailureGuaranteeCT
  then obtain k where "layout_repeat (get_integer_layout 96) 8 = Ok (L, k)"
    using assms(1) by (auto simp: circuit_layout_def)
  from layout_repeat_abi [OF this integer_padded(2)] show ?thesis
    using assms(3) CircuitFailureGuaranteeCT
    by (auto simp: build_circuit_type_def build_u384_struct_type_def abi_simps [OF assms(2)] layout_values)
next
  case CircuitOutputsCT
  then obtain U k j where "layout_repeat (get_integer_layout 96) 4 = Ok (U, k)" "layout_extend ptr_layout U = Ok (L, j)"
    using assms(1) by (auto simp: circuit_layout_def)
  from layout_repeat_abi [OF this(1) integer_padded(2)] extend_place [OF this(2)] show ?thesis
    using assms(3) CircuitOutputsCT
    by (auto simp: build_circuit_type_def build_u384_struct_type_def abi_simps [OF assms(2)] layout_values)
next
  case CircuitInputAccumulatorCT
  then obtain j where "layout_extend (get_integer_layout 64) ptr_layout = Ok (L, j)"
    using assms(1) by (auto simp: circuit_layout_def)
  from extend_place [OF this] show ?thesis
    using assms(3) CircuitInputAccumulatorCT
    by (auto simp: build_circuit_type_def abi_simps [OF assms(2)] layout_values)
qed (use assms(1,3) in \<open>auto simp: circuit_layout_def build_circuit_type_def abi_simps [OF assms(2)] layout_values\<close>)

lemma build_fuel_abi:
  assumes "layout_rules A" "declared_layouts R"
  shows "get_type R t = Some ty \<Longrightarrow> build_fuel n R ty = Some T \<Longrightarrow> ty_layout R ty = Ok L \<Longrightarrow> A T = L"
proof (induction n arbitrary: t ty T L)
  case (Suc n)
  note simps = abi_simps [OF assms(1)]
  note body = ty_layout_body [OF Suc.prems(3)]
  let ?b = "\<lambda>t. Option.bind (get_type R t) (build_fuel n R)"
  have b: "A T' = M" if "?b m = Some T'" "get_type R m = Some ty'" "ty_layout R ty' = Ok M" for m T' ty' M
    using that Suc.IH by auto
  show ?case
  proof (cases ty)
    case (EnumT vs)
    show ?thesis
      by (rule enum_layout_abi [OF assms Suc.prems(1) [unfolded EnumT] Suc.prems(3) [unfolded EnumT], of ?b])
        (use Suc.prems(2) EnumT b in auto)
  next
    case (StructT ms)
    then obtain ts where T: "T = StructTy ts" "list_all2 (\<lambda>m t. ?b m = Some t) ms ts"
      using Suc.prems(2) by (auto simp: map_opt_Some)
    from body StructT obtain M where M: "L = pad_to_align (case M of Some L \<Rightarrow> L | None \<Rightarrow> unit_layout)"
      "try_fold (\<lambda>acc id. and_then (registry_get R id) (\<lambda>ty. and_then (ty_layout R ty) (\<lambda>L.
          and_then (struct_step acc L) (\<lambda>(N, _). Ok (Some N))))) None ms = Ok M"
      by (auto simp: layout_body_def)
    have "list_all2 (\<lambda>m t. \<forall>ty L. get_type R m = Some ty \<longrightarrow> ty_layout R ty = Ok L \<longrightarrow> A t = L) ms ts"
      using T(2) b by (auto elim: list_all2_mono)
    from struct_fold_place [OF M(2) this] M(1) T(1) show ?thesis
      by (simp add: simps struct_abi_def)
  next
    case EcPointT
    then show ?thesis using Suc.prems(2) body felt_array_abi [OF _ _ assms(1), of 2] pad_padded
      by (auto simp: layout_body_def EC_POINT_FELTS_def numeral_2_eq_2)
  next
    case EcStateT
    then show ?thesis using Suc.prems(2) body felt_array_abi [OF _ _ assms(1), of 3] pad_padded
      by (auto simp: layout_body_def EC_STATE_FELTS_def numeral_3_eq_3)
  next
    case (StarknetT st)
    then show ?thesis using Suc.prems(2) body starknet_abi [OF _ assms(1)] by (auto simp: layout_body_def)
  next
    case (CircuitT ct)
    then show ?thesis using Suc.prems(1,2) body circuit_abi [OF _ assms(1)] assms(2)
      by (fastforce simp: layout_body_def declared_layouts_def)
  next
    case (IntRangeT e)
    then obtain M N k t ty' where "ty_layout R ty' = Ok M" "get_type R e = Some ty'" "layout_extend M M = Ok (N, k)"
      "L = pad_to_align N" "T = StructTy [t, t]" "?b e = Some t"
      using Suc.prems(2) body by (auto simp: layout_body_def)
    then show ?thesis using b [of e t ty' M] extend_place [of M M N k] align_pos [OF ty_layout_wf(2)]
      by (simp add: simps struct_abi_def)
  next
    case QM31T
    then obtain N k where "layout_repeat (get_integer_layout 31) 4 = Ok (N, k)" "L = pad_to_align N"
      using body by (auto simp: layout_body_def)
    with layout_repeat_abi [OF this(1) integer_padded(1)] show ?thesis
      using QM31T Suc.prems(2) by (auto simp: simps layout_values)
  next
    case (Felt252DictEntryT e)
    then show ?thesis using Suc.prems(2) body
      by (auto simp: layout_body_def simps dest!: extend_place) (simp add: layout_values)
  next
    case (ArrayT e)
    then show ?thesis using Suc.prems(2) body
      by (auto simp: layout_body_def simps array_layout_eq) (simp add: layout_values)
  qed (use Suc.prems(2) body b pad_padded [OF ty_layout_padded] in
    \<open>auto simp: layout_body_def simps bind_eq_Some_conv pad_integer layout_values split: option.splits\<close>)
qed simp

text \<open>
  C7: The compiler and the Rust code around it agree on memory: whatever type the code
  generator builds for a declared type, LLVM gives it the size and alignment that
  \<open>TypeBuilder::layout\<close> computes and that arguments and results are written with.
\<close>

theorem built_type_has_layout:
  assumes "layout_rules A" "declared_layouts R"
    and "get_type R t = Some ty" "build_type R t = Some T" "ty_layout R ty = Ok L"
  shows "A T = L"
  using build_fuel_abi [OF assms(1,2,3) _ assms(5)] assms(3,4) by (simp add: build_type_def build_def)

text \<open>An enum of a felt behind a byte, and of a byte.\<close>

definition layout_registry :: registry where
  "layout_registry = sample_registry\<lparr>get_type := nth_opt [Felt252T, Uint8T, StructT [1, 0], EnumT [2, 1]]\<rparr>"

lemma layout_registry_simps [simp]:
  "get_type layout_registry t = nth_opt [Felt252T, Uint8T, StructT [1, 0], EnumT [2, 1]] t"
  "rec_limit layout_registry = Suc (Suc (Suc (Suc (Suc (Suc 0)))))"
  by (simp_all add: layout_registry_def)

lemma layout_registry_layouts:
  "ty_layout layout_registry Felt252T = Ok \<lparr>lsize = 32, lalign = 16\<rparr>"
  "ty_layout layout_registry Uint8T = Ok \<lparr>lsize = 1, lalign = 1\<rparr>"
  "ty_layout layout_registry (StructT [1, 0]) = Ok \<lparr>lsize = 48, lalign = 16\<rparr>"
  "ty_layout layout_registry (EnumT [2, 1]) = Ok \<lparr>lsize = 64, lalign = 16\<rparr>"
  by (simp_all add: ty_layout_def layout_body_def tag_bits_def bits_small get_integer_layout_def
    registry_get_def ok_or_def enum_step_def layout_extend_def struct_step_def from_size_align_def pow2_small
    pad_to_align_def round_up_def)

lemma built_type_has_layout_witness:
  "ref_abi (StructTy [IntTy 128, bytes_ty 48]) = \<lparr>lsize = 64, lalign = 16\<rparr>"
proof (rule built_type_has_layout [OF ref_abi_rules, where R = layout_registry and t = 3 and ty = "EnumT [2, 1]"])
  show "declared_layouts layout_registry"
    unfolding declared_layouts_def
  proof (intro allI impI)
    fix t ty
    assume "get_type layout_registry t = Some ty"
    then have "ty \<in> {Felt252T, Uint8T, StructT [1, 0], EnumT [2, 1]}"
      by (auto simp: nth_opt_def less_Suc_eq split: if_splits)
    then show "(\<forall>L. ty_layout layout_registry ty = Ok L \<longrightarrow> lsize L < 2 ^ 32) \<and>
        ty \<noteq> CircuitT (U96LimbsLessThanGuaranteeCT 0)"
      by (auto simp: layout_registry_layouts layout_registry_layouts [unfolded One_nat_def])
  qed
  show "build_type layout_registry 3 = Some (StructTy [IntTy 128, bytes_ty 48])"
    by (simp add: build_type_def build_def build_enum_type_def tag_bits_def bits_small get_integer_layout_def
      layout_registry_layouts [unfolded One_nat_def] is_zst_def ok_def registry_get_def ok_or_def enum_step_def
      layout_extend_def from_size_align_def pow2_small round_up_def)
qed (simp_all add: layout_registry_layouts [unfolded One_nat_def])

end
