(* ===== verification/NativeRuntime.thy ===== *)
theory NativeRuntime
  imports ValueHeap IntOps WideIntOps FeltOps EcHashOps
begin

text \<open>
  The arithmetic of \<open>src/runtime.rs\<close>: the functions compiled code calls for square roots,
  field multiplication and division, hashes and curve operations. They take and return felts
  as slots of 32 little-endian bytes. The theorems compare them with the interpreter's
  evaluators of the same libfuncs.
\<close>

section \<open>What other crates provide\<close>

text \<open>
  \<open>Felt::from_raw\<close> and \<open>to_raw_reversed\<close> expose the Montgomery representation of a felt as
  four 64-bit limbs, the first most significant first, the second least significant first.
  \<open>from_affine_unchecked\<close> is \<open>from_affine\<close> without the test that the point is on the curve.
\<close>

record felt_crate =
  fc_from_raw :: "u64 list \<Rightarrow> felt"
  fc_to_raw_reversed :: "felt \<Rightarrow> u64 list"
  fc_from_affine_unchecked :: "felt \<Rightarrow> felt \<Rightarrow> projective"

text \<open>The number four limbs stand for, least significant first.\<close>

definition limbs_int :: "u64 list \<Rightarrow> int" where
  "limbs_int ls = foldr (\<lambda>l n. uint l + 2 ^ 64 * n) ls 0"

definition montgomery_ok :: "felt_crate \<Rightarrow> bool" where
  "montgomery_ok C \<longleftrightarrow>
    (\<forall>ls. length ls = 4 \<and> limbs_int (rev ls) < PRIME \<longrightarrow>
      felt_of_int (2 ^ 256) * fc_from_raw C ls = felt_of_int (limbs_int (rev ls))) \<and>
    (\<forall>f. length (fc_to_raw_reversed C f) = 4 \<and>
      limbs_int (fc_to_raw_reversed C f) = felt_int (felt_of_int (2 ^ 256) * f))"

definition unchecked_ok :: "externs \<Rightarrow> felt_crate \<Rightarrow> bool" where
  "unchecked_ok E C \<longleftrightarrow>
    (\<forall>x y p. ex_from_affine E x y = Some p \<longrightarrow> fc_from_affine_unchecked C x y = p)"

text \<open>
  \<open>Felt::sqrt\<close> at one argument: it returns a root, finds one when there is one, and when
  there is none three times the argument has one.
\<close>

definition felt_sqrt_ok :: "externs \<Rightarrow> felt \<Rightarrow> bool" where
  "felt_sqrt_ok E f \<longleftrightarrow>
    (case ex_felt_sqrt E f of
      Some r \<Rightarrow> r * r = f
    | None \<Rightarrow> (\<forall>r. r * r \<noteq> f) \<and> (\<exists>s. ex_felt_sqrt E (felt_of_int 3 * f) = Some s \<and> s * s = felt_of_int 3 * f))"

section \<open>Square roots\<close>

definition u8_square_root :: "u8 \<Rightarrow> u8" where "u8_square_root v = of_nat (isqrt (unat v))"
definition u16_square_root :: "u16 \<Rightarrow> u8" where "u16_square_root v = of_nat (isqrt (unat v))"
definition u32_square_root :: "u32 \<Rightarrow> u16" where "u32_square_root v = of_nat (isqrt (unat v))"
definition u64_square_root :: "u64 \<Rightarrow> u32" where "u64_square_root v = of_nat (isqrt (unat v))"
definition u128_square_root :: "u128 \<Rightarrow> u64" where "u128_square_root v = of_nat (isqrt (unat v))"

definition u256_square_root :: "externs \<Rightarrow> u128 \<Rightarrow> u128 \<Rightarrow> u128 res" where
  "u256_square_root E lo hi =
    (let value = 2 ^ 128 * uint hi + uint lo in
     case ex_sqrt E value of
       Some r \<Rightarrow> if 0 \<le> r \<and> r < 2 ^ 128 then Ok (word_of_int r) else Panic
     | None \<Rightarrow> Panic)"

section \<open>Field multiplication and division\<close>

definition felt_from_bytes_le :: "u8 list \<Rightarrow> felt" where
  "felt_from_bytes_le bs = felt_of_int (int (from_bytes_le bs))"

definition felt_from_raw_le_bytes :: "felt_crate \<Rightarrow> u8 list \<Rightarrow> felt" where
  "felt_from_raw_le_bytes C buffer =
    (let limbs = map (\<lambda>i. of_nat (from_bytes_le (take 8 (drop (i * 8) buffer)))) [0 ..< 4]
     in fc_from_raw C (rev limbs))"

definition felt_raw_to_le_bytes :: "felt_crate \<Rightarrow> felt \<Rightarrow> u8 list" where
  "felt_raw_to_le_bytes C value =
    concat (map (\<lambda>limb. le_bytes 8 (unat limb)) (fc_to_raw_reversed C value))"

definition felt252_mul :: "felt_crate \<Rightarrow> u8 list \<Rightarrow> u8 list \<Rightarrow> u8 list" where
  "felt252_mul C lhs rhs =
    (let lhs = felt_from_raw_le_bytes C lhs;
         rhs = felt_from_bytes_le rhs;
         product = lhs * rhs
     in felt_raw_to_le_bytes C product)"

definition felt252_div :: "externs \<Rightarrow> felt_crate \<Rightarrow> u8 list \<Rightarrow> u8 list \<Rightarrow> u8 list" where
  "felt252_div E C lhs rhs =
    (let lhs = felt_from_raw_le_bytes C lhs;
         rhs = felt_from_bytes_le rhs
     in felt_raw_to_le_bytes C (ex_field_div E lhs rhs))"

section \<open>Hashes\<close>

definition mask_slot :: "u8 list \<Rightarrow> u8 list" where
  "mask_slot slot = slot[31 := (slot ! 31) AND 0x0F]"

definition libfunc_pedersen :: "externs \<Rightarrow> u8 list \<Rightarrow> u8 list \<Rightarrow> u8 list" where
  "libfunc_pedersen E lhs rhs =
    (let lhs = mask_slot lhs;
         rhs = mask_slot rhs;
         lhs = felt_from_bytes_le lhs;
         rhs = felt_from_bytes_le rhs;
         res = ex_pedersen_hash E lhs rhs
     in felt_bytes_le res)"

definition libfunc_hades_permutation ::
  "externs \<Rightarrow> u8 list \<Rightarrow> u8 list \<Rightarrow> u8 list \<Rightarrow> u8 list \<times> u8 list \<times> u8 list" where
  "libfunc_hades_permutation E op0 op1 op2 =
    (case ex_poseidon_permute E
        (felt_from_bytes_le (mask_slot op0), felt_from_bytes_le (mask_slot op1),
         felt_from_bytes_le (mask_slot op2)) of
      (s0, s1, s2) \<Rightarrow> (felt_bytes_le s0, felt_bytes_le s1, felt_bytes_le s2))"

section \<open>Curve operations\<close>

text \<open>
  A point is two slots, a state is three. The functions that return a flag return it with the
  slots they leave behind; the \<open>unwrap\<close> of the second square root is the \<open>Panic\<close>.
\<close>

definition ec_point_from_x_nz :: "externs \<Rightarrow> u8 list list \<Rightarrow> (bool \<times> u8 list list) res" where
  "ec_point_from_x_nz E point =
    (let x = felt_from_slot (point ! 0);
         x2 = x * x;
         x3 = x2 * x;
         alpha_x_plus_beta = x + ex_beta E;
         rhs = x3 + alpha_x_plus_beta
     in and_then
       (case ex_felt_sqrt E rhs of
         Some y \<Rightarrow> Ok y
       | None \<Rightarrow> (case ex_felt_sqrt E (felt_of_int 3 * rhs) of Some y \<Rightarrow> Ok y | None \<Rightarrow> Panic)) (\<lambda>y.
       let y = min y (- y) in
       Ok (case ex_affine_new E x y of
         Some p \<Rightarrow> (True, point[1 := felt_bytes_le (snd p)])
       | None \<Rightarrow> (False, point))))"

definition ec_point_try_new_nz :: "externs \<Rightarrow> u8 list list \<Rightarrow> bool \<times> u8 list list" where
  "ec_point_try_new_nz E point =
    (let x = felt_from_slot (point ! 0);
         y = felt_from_slot (point ! 1)
     in case ex_affine_new E x y of
       Some p \<Rightarrow> (True, point[0 := felt_bytes_le (fst p), 1 := felt_bytes_le (snd p)])
     | None \<Rightarrow> (False, point))"

definition ec_read_state :: "u8 list list \<Rightarrow> projective" where
  "ec_read_state state =
    (felt_from_slot (state ! 0), felt_from_slot (state ! 1), felt_from_slot (state ! 2))"

definition ec_write_state :: "u8 list list \<Rightarrow> projective \<Rightarrow> u8 list list" where
  "ec_write_state ptr state =
    (case state of (x, y, z) \<Rightarrow>
      ptr[0 := felt_bytes_le x, 1 := felt_bytes_le y, 2 := felt_bytes_le z])"

definition ec_state_add :: "externs \<Rightarrow> felt_crate \<Rightarrow> u8 list list \<Rightarrow> u8 list list \<Rightarrow> u8 list list" where
  "ec_state_add E C state_ptr point_ptr =
    (let state = ec_read_state state_ptr;
         point = fc_from_affine_unchecked C (felt_from_slot (point_ptr ! 0)) (felt_from_slot (point_ptr ! 1));
         state = ex_proj_add E state point
     in ec_write_state state_ptr state)"

definition ec_state_add_mul ::
  "externs \<Rightarrow> felt_crate \<Rightarrow> u8 list list \<Rightarrow> u8 list \<Rightarrow> u8 list list \<Rightarrow> u8 list list" where
  "ec_state_add_mul E C state_ptr scalar_ptr point_ptr =
    (let state = ec_read_state state_ptr;
         point = fc_from_affine_unchecked C (felt_from_slot (point_ptr ! 0)) (felt_from_slot (point_ptr ! 1));
         state = ex_proj_add E state (ex_proj_mul E point (felt_from_slot scalar_ptr))
     in ec_write_state state_ptr state)"

definition ec_state_try_finalize_nz :: "externs \<Rightarrow> u8 list list \<Rightarrow> u8 list list \<Rightarrow> bool \<times> u8 list list" where
  "ec_state_try_finalize_nz E point_ptr state_ptr =
    (case ex_to_affine E (ec_read_state state_ptr) of
      Some point \<Rightarrow> (True, point_ptr[0 := felt_bytes_le (fst point), 1 := felt_bytes_le (snd point)])
    | None \<Rightarrow> (False, replicate 2 (replicate 32 0)))"

section \<open>Limbs and bytes\<close>

lemma le_bytes_add: "le_bytes (a + b) n = le_bytes a n @ le_bytes b (n div 256 ^ a)"
  by (induction a arbitrary: n) (simp_all add: le_bytes_Suc div_mult2_eq, simp add: le_bytes_def)

lemma le_bytes_mod: "le_bytes a (n mod 256 ^ a) = le_bytes a n"
proof (induction a arbitrary: n)
  case (Suc a)
  have "n mod 256 ^ Suc a = 256 * (n div 256 mod 256 ^ a) + n mod 256"
    by (simp add: mod_mult2_eq)
  moreover have "(of_nat (256 * m + n mod 256) :: u8) = of_nat n" for m
    by (simp only: word_of_nat_eq_iff) (simp add: take_bit_eq_mod)
  moreover have "(256 * m + n mod 256) div 256 = m" for m by simp
  ultimately show ?case by (simp only: le_bytes_Suc Suc.IH)
qed (simp add: le_bytes_def)

lemma limbs_bytes:
  "concat (map (\<lambda>l. le_bytes 8 (unat l)) ls) = le_bytes (8 * length ls) (nat (limbs_int ls)) \<and> 0 \<le> limbs_int ls"
proof (induction ls)
  case Nil
  then show ?case by (simp add: limbs_int_def le_bytes_def)
next
  case (Cons l ls)
  let ?n = "unat l + 2 ^ 64 * nat (limbs_int ls)"
  have ge: "0 \<le> limbs_int ls" and rest: "concat (map (\<lambda>l. le_bytes 8 (unat l)) ls) = le_bytes (8 * length ls) (nat (limbs_int ls))"
    using Cons.IH by blast+
  have int: "limbs_int (l # ls) = int ?n" using ge by (simp add: limbs_int_def)
  have "unat l < 2 ^ 64" using unsigned_less [of l] by simp
  then have "?n div 256 ^ 8 = nat (limbs_int ls)" "?n mod 256 ^ 8 = unat l" by simp_all
  then have "le_bytes 8 ?n = le_bytes 8 (unat l)" using le_bytes_mod [of 8 ?n] by simp
  then have "le_bytes (8 + 8 * length ls) ?n = le_bytes 8 (unat l) @ le_bytes (8 * length ls) (nat (limbs_int ls))"
    using \<open>?n div 256 ^ 8 = nat (limbs_int ls)\<close> by (simp only: le_bytes_add)
  then show ?case using rest int by (simp only: list.map concat.simps length_Cons nat_int) simp
qed

lemma limbs_int_Cons: "limbs_int (l # ls) = uint l + 2 ^ 64 * limbs_int ls"
  by (simp add: limbs_int_def)

lemma limbs_of_nat:
  "limbs_int (map (\<lambda>i. of_nat (n div 2 ^ (64 * i))) [0 ..< k]) = int (n mod 2 ^ (64 * k))"
proof (induction k arbitrary: n)
  case (Suc k)
  have "map (\<lambda>i. of_nat (n div 2 ^ (64 * i)) :: u64) [0 ..< Suc k] =
      of_nat n # map (\<lambda>i. of_nat (n div 2 ^ 64 div 2 ^ (64 * i))) [0 ..< k]"
    by (simp add: upt_conv_Cons map_Suc_upt [symmetric] div_mult2_eq power_add del: upt_Suc)
  moreover have "n mod 2 ^ (64 * Suc k) = 2 ^ 64 * (n div 2 ^ 64 mod 2 ^ (64 * k)) + n mod 2 ^ 64"
    by (simp add: mod_mult2_eq power_add)
  moreover have "uint (of_nat n :: u64) = int (n mod 2 ^ 64)" by (simp add: uint_nat unat_of_nat)
  ultimately show ?case
    by (simp only: limbs_int_Cons Suc.IH of_nat_add of_nat_mult of_nat_power of_nat_numeral add.commute)
qed (simp add: limbs_int_def)

lemma bytes_as_limbs:
  assumes "n < 2 ^ 256"
  shows "limbs_int (map (\<lambda>i. of_nat (from_bytes_le (take 8 (drop (i * 8) (le_bytes 32 n))))) [0 ..< 4]) = int n"
proof -
  define ls :: "u64 list" where "ls = map (\<lambda>i. of_nat (n div 2 ^ (64 * i))) [0 ..< 4]"
  have n: "limbs_int ls = int n" using limbs_of_nat [of n 4] assms by (simp add: ls_def)
  obtain a b c d where abcd: "ls = [a, b, c, d]" by (simp add: ls_def upt_rec)
  have "le_bytes 32 n = concat (map (\<lambda>l. le_bytes 8 (unat l)) ls)"
    using limbs_bytes [of ls] n by (simp add: ls_def)
  then have "le_bytes 32 n = le_bytes 8 (unat a) @ le_bytes 8 (unat b) @ le_bytes 8 (unat c) @ le_bytes 8 (unat d)"
    by (simp add: abcd)
  moreover have "from_bytes_le (le_bytes 8 (unat l)) = unat l" for l :: u64
    using unsigned_less [of l] by (intro from_le_bytes) simp
  ultimately have "map (\<lambda>i. of_nat (from_bytes_le (take 8 (drop (i * 8) (le_bytes 32 n))))) [0 ..< 4] = ls"
    by (simp add: abcd upt_rec)
  then show ?thesis using n by simp
qed

lemma felt_int_256: "0 \<le> felt_int f" "nat (felt_int f) < 2 ^ 256" "felt_int f < 2 ^ 256"
  using felt_int_range [of f] by (simp_all add: PRIME_def)

lemma felt_bytes_read: "felt_from_bytes_le (felt_bytes_le f) = f"
  unfolding felt_from_bytes_le_def felt_bytes_le_def
  using from_le_bytes [of "nat (felt_int f)" 32] felt_int_256 [of f] by simp

lemma from_raw_value:
  assumes "montgomery_ok C"
  shows "felt_of_int (2 ^ 256) * felt_from_raw_le_bytes C (felt_bytes_le f) = f"
proof -
  let ?ls = "map (\<lambda>i. of_nat (from_bytes_le (take 8 (drop (i * 8) (felt_bytes_le f))))) [0 ..< 4] :: u64 list"
  have "limbs_int ?ls = felt_int f"
    using bytes_as_limbs [OF felt_int_256(2) [of f]] by (simp add: felt_bytes_le_def)
  then have "length (rev ?ls) = 4 \<and> limbs_int (rev (rev ?ls)) < PRIME" by simp
  then have "felt_of_int (2 ^ 256) * fc_from_raw C (rev ?ls) = felt_of_int (limbs_int (rev (rev ?ls)))"
    using assms unfolding montgomery_ok_def by blast
  then have "felt_of_int (2 ^ 256) * fc_from_raw C (rev ?ls) = f"
    using \<open>limbs_int ?ls = felt_int f\<close> by (simp only: rev_rev_ident felt_of_int_int)
  then show ?thesis by (simp add: felt_from_raw_le_bytes_def)
qed

lemma to_raw_value:
  assumes "montgomery_ok C"
  shows "felt_raw_to_le_bytes C f = felt_bytes_le (felt_of_int (2 ^ 256) * f)"
  using assms limbs_bytes [of "fc_to_raw_reversed C f"]
  by (simp add: montgomery_ok_def felt_raw_to_le_bytes_def felt_bytes_le_def)


text \<open>An instance of the crate's functions: \<open>raw_inverse\<close> is the inverse of \<open>2 ^ 256\<close>.\<close>

definition raw_inverse :: int where
  "raw_inverse = 113078212145816603762751633895895194930089271709401121343797004406777446400"

definition ref_felt_crate :: felt_crate where
  "ref_felt_crate =
    \<lparr>fc_from_raw = (\<lambda>ls. felt_of_int (raw_inverse * limbs_int (rev ls))),
     fc_to_raw_reversed =
       (\<lambda>f. map (\<lambda>i. of_nat (nat (felt_int (felt_of_int (2 ^ 256) * f)) div 2 ^ (64 * i))) [0 ..< 4]),
     fc_from_affine_unchecked = (\<lambda>x y. (x, y, 1))\<rparr>"

lemma ref_montgomery_ok: "montgomery_ok ref_felt_crate"
proof -
  have "felt_of_int (2 ^ 256) * felt_of_int raw_inverse = 1"
    by (simp add: felt_eq_iff raw_inverse_def PRIME_def)
  then have "felt_of_int (2 ^ 256) * felt_of_int (raw_inverse * i) = felt_of_int i" for i
    by (metis felt_of_int_hom(3) mult.assoc mult_1)
  moreover have "limbs_int (fc_to_raw_reversed ref_felt_crate f) = felt_int (felt_of_int (2 ^ 256) * f)" for f
    using limbs_of_nat [of "nat (felt_int (felt_of_int (2 ^ 256) * f))" 4]
      felt_int_256 [of "felt_of_int (2 ^ 256) * f"]
    by (simp only: ref_felt_crate_def felt_crate.select_convs) (simp del: felt_int_simps)
  ultimately show ?thesis by (simp add: montgomery_ok_def) (simp add: ref_felt_crate_def)
qed


section \<open>Square roots are floors\<close>

definition floor_root :: "nat \<Rightarrow> nat \<Rightarrow> bool" where
  "floor_root r n \<longleftrightarrow> r * r \<le> n \<and> n < (r + 1) * (r + 1)"

lemma isqrt_word_eq:
  fixes v :: "'a::len word"
  assumes "LENGTH('a) \<le> 2 * LENGTH('b::len)"
  shows "unat (of_nat (isqrt (unat v)) :: 'b word) = isqrt (unat v)"
proof -
  let ?r = "isqrt (unat v)"
  note r = isqrt_bounds [of "unat v"]
  have "?r < 2 ^ LENGTH('b)"
  proof (rule ccontr)
    assume "\<not> ?r < 2 ^ LENGTH('b)"
    then have "2 ^ LENGTH('b) * 2 ^ LENGTH('b) \<le> ?r * ?r" by (intro mult_mono) simp_all
    moreover have "(2 :: nat) ^ LENGTH('a) \<le> 2 ^ (LENGTH('b) + LENGTH('b))"
      using assms by (intro power_increasing) simp_all
    ultimately show False using r unsigned_less [of v, where 'a = nat] unfolding power_add by linarith
  qed
  then show ?thesis by (simp add: unat_of_nat)
qed

lemma isqrt_word:
  fixes v :: "'a::len word"
  assumes "LENGTH('a) \<le> 2 * LENGTH('b::len)"
  shows "floor_root (unat (of_nat (isqrt (unat v)) :: 'b word)) (unat v)"
  using isqrt_bounds [of "unat v"] by (simp add: isqrt_word_eq [OF assms] floor_root_def)

text \<open>
  The square root functions return the floor of the root at every width: the casts to the
  narrower types lose nothing, and the \<open>expect\<close> of the 256-bit one does not fail.
\<close>

theorem runtime_square_roots:
  assumes "sqrt_ok E"
  shows "floor_root (unat (u8_square_root a)) (unat a) \<and>
    floor_root (unat (u16_square_root b)) (unat b) \<and>
    floor_root (unat (u32_square_root c)) (unat c) \<and>
    floor_root (unat (u64_square_root d)) (unat d) \<and>
    floor_root (unat (u128_square_root e)) (unat e) \<and>
    (\<exists>r. u256_square_root E lo hi = Ok r \<and> floor_root (unat r) (2 ^ 128 * unat hi + unat lo))"
proof -
  define n where "n = 2 ^ 128 * unat hi + unat lo"
  have "unat hi < 2 ^ 128" "unat lo < 2 ^ 128"
    using unsigned_less [of hi, where 'a = nat] unsigned_less [of lo, where 'a = nat] by simp_all
  then have "n < 2 ^ 128 * 2 ^ 128" by (simp add: n_def)
  note r = isqrt_bounds [of n]
  have small: "isqrt n < 2 ^ 128"
  proof (rule ccontr)
    assume "\<not> isqrt n < 2 ^ 128"
    then have "2 ^ 128 * 2 ^ 128 \<le> isqrt n * isqrt n" by (intro mult_mono) simp_all
    with r \<open>n < 2 ^ 128 * 2 ^ 128\<close> show False by linarith
  qed
  have "int (isqrt n) * int (isqrt n) \<le> int n" "int n < (int (isqrt n) + 1) * (int (isqrt n) + 1)"
    using r by (simp_all flip: of_nat_mult of_nat_Suc add: algebra_simps)
  then have root: "ex_sqrt E (int n) = Some (int (isqrt n))"
    using assms unfolding sqrt_ok_def by (meson of_nat_0_le_iff)
  have sum: "2 ^ 128 * uint hi + uint lo = int n" by (simp add: n_def)
  have "int (isqrt n) < 2 ^ 128" using small by simp
  then have "u256_square_root E lo hi = Ok (of_nat (isqrt n))"
    unfolding u256_square_root_def Let_def sum root by (simp only: option.case of_nat_0_le_iff simp_thms if_True) simp
  moreover have "floor_root (unat (of_nat (isqrt n) :: u128)) n"
    using r small by (simp add: unat_of_nat floor_root_def)
  ultimately have "\<exists>r. u256_square_root E lo hi = Ok r \<and> floor_root (unat r) n" by blast
  then show ?thesis
    unfolding u8_square_root_def u16_square_root_def u32_square_root_def u64_square_root_def
      u128_square_root_def n_def by (intro conjI isqrt_word) simp_all
qed

lemma runtime_square_roots_witness:
  "\<exists>r. u256_square_root ref_externs 10 1 = Ok r \<and> floor_root (unat r) (2 ^ 128 * 1 + 10)"
  using runtime_square_roots [OF ref_sqrt_ok, of 0 0 0 0 0 10 1] by simp

section \<open>Curve operations agree with the interpreter\<close>

text \<open>What the slots a function leaves mean to the interpreter.\<close>

definition point_val :: "u8 list list \<Rightarrow> val" where
  "point_val s = EcPoint (felt_from_slot (s ! 0)) (felt_from_slot (s ! 1))"

definition state_val :: "u8 list list \<Rightarrow> val" where
  "state_val s = EcState (felt_from_slot (s ! 0)) (felt_from_slot (s ! 1)) (felt_from_slot (s ! 2))"

definition point_outcome :: "bool \<times> u8 list list \<Rightarrow> eval_action" where
  "point_outcome r = (if fst r then NormalBranch 0 [point_val (snd r)] else NormalBranch 1 [])"

lemma length_3: "length xs = 3 \<longleftrightarrow> (\<exists>a b c. xs = [a, b, c])"
  by (auto simp: length_Suc_conv numeral_eq_Suc)

lemma length_2: "length xs = 2 \<longleftrightarrow> (\<exists>a b. xs = [a, b])"
  by (auto simp: length_Suc_conv numeral_eq_Suc)


text \<open>
  C31: Finding a point from its \<open>x\<close>: the runtime function never fails, it succeeds exactly
  when the curve has a point with that \<open>x\<close>, as the interpreter does, and its point is the
  interpreter's or its negation, whichever \<open>y\<close> is smaller. (The interpreter returns the
  root it finds.)
\<close>

theorem runtime_point_from_x:
  assumes "curve_ok E" "felt_sqrt_ok E (x * x * x + (x + ex_beta E))"
    and "length pt = 2" "felt_from_slot (pt ! 0) = x"
  shows "(\<exists>y. on_curve E x y \<and> eval_ec E EcPointFromX [Unit, Felt x] = Some (NormalBranch 0 [Unit, EcPoint x y]) \<and>
      ec_point_from_x_nz E pt = Ok (True, [pt ! 0, felt_bytes_le (min y (- y))])) \<or>
    (\<forall>y. \<not> on_curve E x y) \<and> eval_ec E EcPointFromX [Unit, Felt x] = Some (NormalBranch 1 [Unit]) \<and>
      ec_point_from_x_nz E pt = Ok (False, pt)"
proof -
  define rhs where "rhs = x * x * x + (x + ex_beta E)"
  obtain px py where pt: "pt = [px, py]" using assms(3) unfolding length_2 by blast
  have new: "ex_affine_new E a b = (if on_curve E a b then Some (a, b) else None)" for a b
    using assms(1) by (simp add: curve_ok_def)
  have curve: "on_curve E x b = (b * b = rhs)" for b by (simp add: on_curve_def rhs_def)
  have slot: "felt_from_slot px = x" using assms(4) by (simp add: pt)
  have ev: "eval_ec E EcPointFromX [Unit, Felt x] =
      Some (case ex_affine_new E x (case ex_felt_sqrt E rhs of Some r \<Rightarrow> r | None \<Rightarrow> felt_of_int 3 * rhs) of
          Some point \<Rightarrow> NormalBranch 0 [Unit, EcPoint (fst point) (snd point)]
        | None \<Rightarrow> NormalBranch 1 [Unit])"
    unfolding rhs_def by (simp add: eval_ec_def eval_point_from_x_def Let_def)
  have rt: "ec_point_from_x_nz E pt =
      and_then
       (case ex_felt_sqrt E rhs of
         Some y \<Rightarrow> Ok y
       | None \<Rightarrow> (case ex_felt_sqrt E (felt_of_int 3 * rhs) of Some y \<Rightarrow> Ok y | None \<Rightarrow> Panic)) (\<lambda>y.
       Ok (case ex_affine_new E x (min y (- y)) of
         Some p \<Rightarrow> (True, pt[1 := felt_bytes_le (snd p)])
       | None \<Rightarrow> (False, pt)))"
    unfolding rhs_def by (simp add: ec_point_from_x_nz_def Let_def assms(4))
  show ?thesis
  proof (cases "ex_felt_sqrt E rhs")
    case (Some r)
    then have r: "r * r = rhs" using assms(2) by (simp add: felt_sqrt_ok_def rhs_def)
    then have "on_curve E x r" "on_curve E x (min r (- r))" by (simp_all add: min_def curve)
    then have "eval_ec E EcPointFromX [Unit, Felt x] = Some (NormalBranch 0 [Unit, EcPoint x r])"
      "ec_point_from_x_nz E pt = Ok (True, [pt ! 0, felt_bytes_le (min r (- r))])"
      unfolding ev rt Some by (simp_all add: new pt)
    with \<open>on_curve E x r\<close> show ?thesis by blast
  next
    case None
    then obtain s where s: "\<forall>r. r * r \<noteq> rhs" "ex_felt_sqrt E (felt_of_int 3 * rhs) = Some s"
      using assms(2) unfolding felt_sqrt_ok_def rhs_def by auto
    then have no: "\<not> on_curve E x b" for b by (simp add: curve)
    then have "eval_ec E EcPointFromX [Unit, Felt x] = Some (NormalBranch 1 [Unit])"
      "ec_point_from_x_nz E pt = Ok (False, pt)"
      unfolding ev rt None s(2) by (simp_all add: new)
    with no show ?thesis by blast
  qed
qed

definition sample_slots :: "felt list \<Rightarrow> u8 list list" where
  "sample_slots fs = map felt_bytes_le fs"


lemma runtime_point_from_x_witness:
  "ec_point_from_x_nz ref_externs (sample_slots [0, 5]) = Ok (True, [felt_bytes_le 0, felt_bytes_le 0])"
proof -
  have "felt_sqrt_ok ref_externs (0 * 0 * 0 + (0 + ex_beta ref_externs))"
    by (simp add: felt_sqrt_ok_def ref_externs_def)
  moreover have "eval_ec ref_externs EcPointFromX [Unit, Felt 0] = Some (NormalBranch 0 [Unit, EcPoint 0 0])"
    by (simp add: eval_ec_def eval_point_from_x_def ref_externs_def)
  ultimately show ?thesis
    using runtime_point_from_x [OF ref_curve_ok, of 0 "sample_slots [0, 5]"]
    by (auto simp: sample_slots_def felt_slot_roundtrip)
qed

end
