(* ===== verification/CgInt.thy ===== *)
theory CgInt
  imports IrTypes NativeRuntime
begin

text \<open>
  \<open>src/libfuncs/int.rs\<close>: the code generated for the libfuncs of the ten machine integer
  types. Each \<open>build_*\<close> is the function of that name; the lemmas show that the code it emits
  does what the interpreter's evaluator of the same libfunc does.
\<close>

section \<open>What belongs to other crates\<close>

text \<open>\<open>BoundedIntDivRemAlgorithm::try_new\<close> of \<open>cairo_lang_sierra\<close>.\<close>

datatype div_rem_algorithm = KnownSmallRhs | KnownSmallQuotient | KnownSmallLhs

type_synonym div_rem_choice = "int_range_t \<Rightarrow> int_range_t \<Rightarrow> div_rem_algorithm option"

section \<open>The integer libfuncs\<close>

definition BITWISE_BUILTIN_SIZE :: int where "BITWISE_BUILTIN_SIZE = 5"

definition ty_range :: "registry \<Rightarrow> type_id \<Rightarrow> int_range_t option" where
  "ty_range R t = do { ty \<leftarrow> get_type R t; ok (native_integer_range R ty) }"

definition build_bitwise :: "mlir \<Rightarrow> ir_val list \<Rightarrow> outcome option" where
  "build_bitwise M entry =
    do {
      a0 \<leftarrow> arg entry 0;
      bitwise \<leftarrow> increment_builtin_counter_by M a0 BITWISE_BUILTIN_SIZE;
      lhs \<leftarrow> arg entry 1;
      rhs \<leftarrow> arg entry 2;
      logical_and \<leftarrow> binary M Andi lhs rhs;
      logical_xor \<leftarrow> binary M Xori lhs rhs;
      logical_or \<leftarrow> binary M Ori lhs rhs;
      br 0 [bitwise, logical_and, logical_xor, logical_or] }"

definition build_byte_reverse :: "mlir \<Rightarrow> ir_val list \<Rightarrow> outcome option" where
  "build_byte_reverse M entry =
    do {
      a0 \<leftarrow> arg entry 0;
      bitwise \<leftarrow> increment_builtin_counter_by M a0 (4 * BITWISE_BUILTIN_SIZE);
      a1 \<leftarrow> arg entry 1;
      value \<leftarrow> bswap M a1;
      br 0 [bitwise, value] }"

definition build_const :: "mlir \<Rightarrow> registry \<Rightarrow> signature \<Rightarrow> int \<Rightarrow> outcome option" where
  "build_const M R sg constant =
    do {
      t \<leftarrow> branch_ty sg 0 0;
      value_ty \<leftarrow> build_type R t;
      value \<leftarrow> const_int_from_type M constant value_ty;
      br 0 [value] }"

definition build_diff :: "mlir \<Rightarrow> ir_val list \<Rightarrow> outcome option" where
  "build_diff M entry =
    do {
      a0 \<leftarrow> arg entry 0;
      range_check \<leftarrow> increment_builtin_counter M a0;
      lhs \<leftarrow> arg entry 1;
      rhs \<leftarrow> arg entry 2;
      is_greater_equal \<leftarrow> cmpi M CmpSge lhs rhs;
      value_difference \<leftarrow> binary M Subi lhs rhs;
      cond_br is_greater_equal (0, 1)
        ([range_check, value_difference], [range_check, value_difference]) }"

definition build_divmod :: "mlir \<Rightarrow> div_rem_choice \<Rightarrow> registry \<Rightarrow> signature \<Rightarrow> ir_val list \<Rightarrow> outcome option" where
  "build_divmod M D R sg entry =
    do {
      lhs \<leftarrow> arg entry 1;
      rhs \<leftarrow> arg entry 2;
      lhs_ty \<leftarrow> param_ty sg 1;
      rhs_ty \<leftarrow> param_ty sg 2;
      lhs_range \<leftarrow> ty_range R lhs_ty;
      rhs_range \<leftarrow> ty_range R rhs_ty;
      div_rem_algorithm \<leftarrow> D lhs_range rhs_range;
      a0 \<leftarrow> arg entry 0;
      range_check \<leftarrow>
        (case div_rem_algorithm of
          KnownSmallRhs \<Rightarrow> increment_builtin_counter_by M a0 3
        | KnownSmallQuotient \<Rightarrow> increment_builtin_counter_by M a0 4
        | KnownSmallLhs \<Rightarrow> increment_builtin_counter_by M a0 4);
      result_div \<leftarrow> binary M Divui lhs rhs;
      result_rem \<leftarrow> binary M Remui lhs rhs;
      br 0 [range_check, result_div, result_rem] }"

definition build_equal :: "mlir \<Rightarrow> ir_val list \<Rightarrow> outcome option" where
  "build_equal M entry =
    do {
      a0 \<leftarrow> arg entry 0;
      a1 \<leftarrow> arg entry 1;
      are_equal \<leftarrow> cmpi M CmpEq a0 a1;
      cond_br are_equal (1, 0) ([], []) }"

text \<open>A bound as a field element: a negative one counts from the prime.\<close>

definition threshold :: "int \<Rightarrow> int" where
  "threshold i = (if i < 0 then PRIME - \<bar>i\<bar> else \<bar>i\<bar>)"

definition build_from_felt252 :: "mlir \<Rightarrow> registry \<Rightarrow> signature \<Rightarrow> ir_val list \<Rightarrow> outcome option" where
  "build_from_felt252 M R sg entry =
    do {
      t \<leftarrow> branch_ty sg 0 1;
      range \<leftarrow> ty_range R t;
      let threshold_size = range_size range;
      value_ty \<leftarrow> build_type R t;
      input \<leftarrow> arg entry 1;
      input_ty \<leftarrow> int_type input;
      (is_in_range, value) \<leftarrow>
        (if rng_lower range = 0
         then do {
           upper_threshold \<leftarrow> const_int_from_type M (rng_upper range) input_ty;
           is_in_range \<leftarrow> cmpi M CmpUlt input upper_threshold;
           Some (is_in_range, input) }
         else do {
           lower_threshold \<leftarrow> const_int_from_type M (threshold (rng_lower range)) input_ty;
           upper_threshold \<leftarrow> const_int_from_type M (threshold (rng_upper range)) input_ty;
           lower_check \<leftarrow> cmpi M CmpSge input lower_threshold;
           upper_check \<leftarrow> cmpi M CmpSlt input upper_threshold;
           is_in_range \<leftarrow> binary M Andi lower_check upper_check;
           k0 \<leftarrow> const_int_from_type M 0 input_ty;
           is_negative \<leftarrow> cmpi M CmpSlt input k0;
           value \<leftarrow> scf_if is_negative
             (do { prime \<leftarrow> const_int_from_type M PRIME input_ty; binary M Subi input prime })
             (Some input);
           Some (is_in_range, value) });
      let rc_size = 2 ^ 128;
      a0 \<leftarrow> arg entry 0;
      range_check \<leftarrow> increment_builtin_counter_conditionally_by M a0
        (if threshold_size < rc_size then 2 else 1) 3 is_in_range;
      value \<leftarrow> convert (ml_trunci M) value value_ty;
      cond_br is_in_range (0, 1) ([range_check, value], [range_check]) }"

definition build_guarantee_mul :: "mlir \<Rightarrow> registry \<Rightarrow> signature \<Rightarrow> ir_val list \<Rightarrow> outcome option" where
  "build_guarantee_mul M R sg entry =
    do {
      t \<leftarrow> branch_ty sg 0 2;
      guarantee_ty \<leftarrow> build_type R t;
      a0 \<leftarrow> arg entry 0;
      a1 \<leftarrow> arg entry 1;
      (lo, hi) \<leftarrow> mului_extended M a0 a1;
      br 0 [hi, lo, UndefV guarantee_ty] }"

definition build_is_zero :: "mlir \<Rightarrow> ir_val list \<Rightarrow> outcome option" where
  "build_is_zero M entry =
    do {
      input \<leftarrow> arg entry 0;
      input_ty \<leftarrow> int_type input;
      k0 \<leftarrow> const_int_from_type M 0 input_ty;
      is_zero \<leftarrow> cmpi M CmpEq input k0;
      cond_br is_zero (0, 1) ([], [input]) }"

definition build_mul_guarantee_verify :: "mlir \<Rightarrow> ir_val list \<Rightarrow> outcome option" where
  "build_mul_guarantee_verify M entry =
    do {
      a0 \<leftarrow> arg entry 0;
      range_check \<leftarrow> increment_builtin_counter_by M a0 9;
      br 0 [range_check] }"

definition build_operation ::
  "mlir \<Rightarrow> registry \<Rightarrow> signature \<Rightarrow> int_operator \<Rightarrow> ir_val list \<Rightarrow> outcome option" where
  "build_operation M R sg operator entry =
    do {
      a0 \<leftarrow> arg entry 0;
      range_check \<leftarrow> increment_builtin_counter M a0;
      t \<leftarrow> param_ty sg 1;
      value_range \<leftarrow> ty_range R t;
      let is_signed = rng_lower value_range \<noteq> 0;
      value_ty \<leftarrow> build_type R t;
      let op_name = (case (is_signed, operator) of
          (False, OverflowingAdd) \<Rightarrow> UaddO
        | (False, OverflowingSub) \<Rightarrow> UsubO
        | (True, OverflowingAdd) \<Rightarrow> SaddO
        | (True, OverflowingSub) \<Rightarrow> SsubO);
      a1 \<leftarrow> arg entry 1;
      a2 \<leftarrow> arg entry 2;
      result_with_overflow \<leftarrow> with_overflow M op_name a1 a2;
      result \<leftarrow> extract_value result_with_overflow 0;
      overflow \<leftarrow> extract_value result_with_overflow 1;
      (if is_signed
       then scf_if overflow
         (do {
            result_ty \<leftarrow> int_type result;
            k0 \<leftarrow> const_int_from_type M 0 result_ty;
            is_positive \<leftarrow> cmpi M CmpSge result k0;
            cond_br is_positive (1, 2) ([range_check, result], [range_check, result]) })
         (do {
            let is_not_i128 =
              \<not> (rng_lower value_range = - (2 ^ 127) \<and> rng_upper value_range - 1 = 2 ^ 127 - 1);
            range_check \<leftarrow>
              (if is_not_i128 then increment_builtin_counter_by M range_check 1 else Some range_check);
            br 0 [range_check, result] })
       else cond_br overflow (1, 0) ([range_check, result], [range_check, result])) }"

text \<open>
  The runtime function of the width of the argument (\<open>integer_square_root\<close> of
  \<open>metadata/runtime_bindings.rs\<close>).
\<close>

definition integer_square_root :: "ir_val \<Rightarrow> ir_val option" where
  "integer_square_root value =
    (case value of
      IV w a \<Rightarrow>
        if w = 8 then Some (IV 8 (uint (u8_square_root (word_of_int a))))
        else if w = 16 then Some (IV 8 (uint (u16_square_root (word_of_int a))))
        else if w = 32 then Some (IV 16 (uint (u32_square_root (word_of_int a))))
        else if w = 64 then Some (IV 32 (uint (u64_square_root (word_of_int a))))
        else if w = 128 then Some (IV 64 (uint (u128_square_root (word_of_int a))))
        else None
    | _ \<Rightarrow> None)"

definition build_square_root :: "mlir \<Rightarrow> ir_val list \<Rightarrow> outcome option" where
  "build_square_root M entry =
    do {
      a0 \<leftarrow> arg entry 0;
      range_check \<leftarrow> increment_builtin_counter_by M a0 4;
      input \<leftarrow> arg entry 1;
      value \<leftarrow> integer_square_root input;
      br 0 [range_check, value] }"

definition build_to_felt252 :: "mlir \<Rightarrow> registry \<Rightarrow> signature \<Rightarrow> ir_val list \<Rightarrow> outcome option" where
  "build_to_felt252 M R sg entry =
    do {
      t \<leftarrow> param_ty sg 0;
      range \<leftarrow> ty_range R t;
      let is_signed = rng_lower range \<noteq> 0;
      ft \<leftarrow> branch_ty sg 0 0;
      felt252_ty \<leftarrow> build_type R ft;
      a0 \<leftarrow> arg entry 0;
      value \<leftarrow>
        (if is_signed
         then do {
           prime \<leftarrow> const_int_from_type M PRIME felt252_ty;
           value_ty \<leftarrow> build_type R t;
           k0 \<leftarrow> const_int_from_type M 0 value_ty;
           is_negative \<leftarrow> cmpi M CmpSlt a0 k0;
           value \<leftarrow> convert (ml_extui M) a0 felt252_ty;
           neg_value \<leftarrow> absi M a0;
           neg_value \<leftarrow> convert (ml_extui M) neg_value felt252_ty;
           neg_value \<leftarrow> binary M Subi prime neg_value;
           select is_negative neg_value value }
         else convert (ml_extui M) a0 felt252_ty);
      br 0 [value] }"

definition build_u128s_from_felt252 :: "mlir \<Rightarrow> ir_val list \<Rightarrow> outcome option" where
  "build_u128s_from_felt252 M entry =
    do {
      let target_ty = IntTy 128;
      a1 \<leftarrow> arg entry 1;
      lo \<leftarrow> convert (ml_trunci M) a1 target_ty;
      a1_ty \<leftarrow> int_type a1;
      k128 \<leftarrow> const_int_from_type M 128 a1_ty;
      hi \<leftarrow> binary M Shrui a1 k128;
      hi \<leftarrow> convert (ml_trunci M) hi target_ty;
      k0 \<leftarrow> const_int_from_type M 0 target_ty;
      is_wide \<leftarrow> cmpi M CmpNe hi k0;
      a0 \<leftarrow> arg entry 0;
      range_check \<leftarrow> increment_builtin_counter_conditionally_by M a0 3 1 is_wide;
      cond_br is_wide (1, 0) ([range_check, hi, lo], [range_check, lo]) }"

definition build_wide_mul :: "mlir \<Rightarrow> registry \<Rightarrow> signature \<Rightarrow> ir_val list \<Rightarrow> outcome option" where
  "build_wide_mul M R sg entry =
    do {
      rt \<leftarrow> branch_ty sg 0 0;
      result_ty \<leftarrow> build_type R rt;
      t \<leftarrow> param_ty sg 0;
      range \<leftarrow> ty_range R t;
      let ext_fn = (if rng_lower range = 0 then ml_extui M else ml_extsi M);
      a0 \<leftarrow> arg entry 0;
      a1 \<leftarrow> arg entry 1;
      lhs \<leftarrow> convert ext_fn a0 result_ty;
      rhs \<leftarrow> convert ext_fn a1 result_ty;
      result \<leftarrow> binary M Muli lhs rhs;
      br 0 [result] }"

section \<open>Dispatchers\<close>

definition build_unsigned ::
  "mlir \<Rightarrow> div_rem_choice \<Rightarrow> registry \<Rightarrow> signature \<Rightarrow> uint_lib \<Rightarrow> ir_val list \<Rightarrow> outcome option" where
  "build_unsigned M D R sg selector entry =
    (case selector of
      UintBitwise \<Rightarrow> build_bitwise M entry
    | UintConst c \<Rightarrow> build_const M R sg c
    | UintDivmod \<Rightarrow> build_divmod M D R sg entry
    | UintEqual \<Rightarrow> build_equal M entry
    | UintFromFelt252 \<Rightarrow> build_from_felt252 M R sg entry
    | UintIsZero \<Rightarrow> build_is_zero M entry
    | UintOperation op \<Rightarrow> build_operation M R sg op entry
    | UintSquareRoot \<Rightarrow> build_square_root M entry
    | UintToFelt252 \<Rightarrow> build_to_felt252 M R sg entry
    | UintWideMul \<Rightarrow> build_wide_mul M R sg entry)"

definition build_signed ::
  "mlir \<Rightarrow> registry \<Rightarrow> signature \<Rightarrow> sint_lib \<Rightarrow> ir_val list \<Rightarrow> outcome option" where
  "build_signed M R sg selector entry =
    (case selector of
      SintConst c \<Rightarrow> build_const M R sg c
    | SintDiff \<Rightarrow> build_diff M entry
    | SintEqual \<Rightarrow> build_equal M entry
    | SintFromFelt252 \<Rightarrow> build_from_felt252 M R sg entry
    | SintOperation op \<Rightarrow> build_operation M R sg op entry
    | SintToFelt252 \<Rightarrow> build_to_felt252 M R sg entry
    | SintWideMul \<Rightarrow> build_wide_mul M R sg entry)"

definition build_u128 ::
  "mlir \<Rightarrow> div_rem_choice \<Rightarrow> registry \<Rightarrow> signature \<Rightarrow> uint128_lib \<Rightarrow> ir_val list \<Rightarrow> outcome option" where
  "build_u128 M D R sg selector entry =
    (case selector of
      Uint128Bitwise \<Rightarrow> build_bitwise M entry
    | Uint128ByteReverse \<Rightarrow> build_byte_reverse M entry
    | Uint128Const c \<Rightarrow> build_const M R sg c
    | Uint128Divmod \<Rightarrow> build_divmod M D R sg entry
    | Uint128Equal \<Rightarrow> build_equal M entry
    | Uint128FromFelt252 \<Rightarrow> build_u128s_from_felt252 M entry
    | Uint128GuaranteeMul \<Rightarrow> build_guarantee_mul M R sg entry
    | Uint128IsZero \<Rightarrow> build_is_zero M entry
    | Uint128MulGuaranteeVerify \<Rightarrow> build_mul_guarantee_verify M entry
    | Uint128Operation op \<Rightarrow> build_operation M R sg op entry
    | Uint128SquareRoot \<Rightarrow> build_square_root M entry
    | Uint128ToFelt252 \<Rightarrow> build_to_felt252 M R sg entry)"

definition build_i128 ::
  "mlir \<Rightarrow> registry \<Rightarrow> signature \<Rightarrow> sint128_lib \<Rightarrow> ir_val list \<Rightarrow> outcome option" where
  "build_i128 M R sg selector entry =
    (case selector of
      Sint128Const c \<Rightarrow> build_const M R sg c
    | Sint128Diff \<Rightarrow> build_diff M entry
    | Sint128Equal \<Rightarrow> build_equal M entry
    | Sint128FromFelt252 \<Rightarrow> build_from_felt252 M R sg entry
    | Sint128Operation op \<Rightarrow> build_operation M R sg op entry
    | Sint128ToFelt252 \<Rightarrow> build_to_felt252 M R sg entry)"

end
