(* ===== verification/Simulation.thy ===== *)
theory Simulation
  imports IrTypes
begin

text \<open>
  When a value of compiled code stands for a value of the interpreter, what it means that the
  code generated for a libfunc agrees with the evaluator of the libfunc, and the rewrite rules
  that evaluate emitted operations under \<open>mlir_ok\<close>.
\<close>

named_theorems emitted

section \<open>Compiled values of interpreter values\<close>

text \<open>
  Builtins, guarantees and other values without content are \<open>Unit\<close> in the interpreter: any
  compiled value stands for them. An enum stands here only when its payload is empty: it is its
  tag, whatever follows it. Arrays that are written once and read only stand in a structure
  where compiled code has a pointer to them.
\<close>

definition u384_ir :: "nat \<Rightarrow> ir_val" where
  "u384_ir n = SV [IV 96 (int n mod 2 ^ 96), IV 96 (int n div 2 ^ 96 mod 2 ^ 96),
    IV 96 (int n div 2 ^ 192 mod 2 ^ 96), IV 96 (int n div 2 ^ 288 mod 2 ^ 96)]"

definition u384_array :: "nat list \<Rightarrow> ir_val list" where
  "u384_array ns = map (\<lambda>n. IV 384 (int n)) ns"

inductive represents :: "val \<Rightarrow> ir_val \<Rightarrow> bool" where
  rep_unit: "represents Unit x"
| rep_u8: "represents (U8 a) (IV 8 (uint a))"
| rep_u16: "represents (U16 b) (IV 16 (uint b))"
| rep_u32: "represents (U32 c) (IV 32 (uint c))"
| rep_u64: "represents (U64 d) (IV 64 (uint d))"
| rep_u128: "represents (U128 e) (IV 128 (uint e))"
| rep_i8: "represents (I8 a) (IV 8 (uint a))"
| rep_i16: "represents (I16 b) (IV 16 (uint b))"
| rep_i32: "represents (I32 c) (IV 32 (uint c))"
| rep_i64: "represents (I64 d) (IV 64 (uint d))"
| rep_i128: "represents (I128 e) (IV 128 (uint e))"
| rep_felt: "represents (Felt f) (IV 252 (felt_int f))"
| rep_bytes31: "represents (Bytes31 f) (IV 248 (felt_int f))"
| rep_bounded: "represents (BoundedInt r i) (IV (repr_bit_width r) (i - rng_lower r))"
| rep_point: "represents (EcPoint f g) (SV [IV 252 (felt_int f), IV 252 (felt_int g)])"
| rep_state:
    "represents (EcState f g k) (SV [IV 252 (felt_int f), IV 252 (felt_int g), IV 252 (felt_int k)])"
| rep_u256: "represents (U256 e e') (SV [IV 128 (uint e), IV 128 (uint e')])"
| rep_modulus: "represents (CircuitModulus m) (IV 384 (int m))"
| rep_range: "represents u x \<Longrightarrow> represents v y \<Longrightarrow> represents (IntRange u v) (SV [x, y])"
| rep_tag: "represents (Enum t i (Struct [])) (SV [IV w (int i), z])"
| rep_circuit: "represents (Circuit ns) (SV (u384_array ns))"
| rep_accumulator: "take (length ns) xs = u384_array ns \<Longrightarrow>
    represents (Circuit ns) (SV [IV 64 (int (length ns)), SV xs])"
| rep_outputs: "represents (CircuitOutputs ns m) (SV [SV (u384_array ns), u384_ir m])"
| rep_struct: "list_all2 represents vs xs \<Longrightarrow> represents (Struct vs) (SV xs)"

inductive_simps represents_simps [simp]:
  "represents Unit x"
  "represents (U8 a) x" "represents (U16 b) x" "represents (U32 c) x" "represents (U64 d) x"
  "represents (U128 e) x" "represents (I8 a) x" "represents (I16 b) x" "represents (I32 c) x"
  "represents (I64 d) x" "represents (I128 e) x" "represents (Felt f) x" "represents (Bytes31 f) x"
  "represents (BoundedInt r i) x" "represents (EcPoint f g) x" "represents (EcState f g k) x"
  "represents (Struct vs) x" "represents (U256 e e') x" "represents (CircuitModulus m) x" "represents (IntRange u v) x"
  "represents (Enum t i (Struct [])) x" "represents (CircuitOutputs ns m) x"

text \<open>Both return, on the same branch, the one's values standing for the other's.\<close>

definition agrees :: "eval_action option \<Rightarrow> outcome option \<Rightarrow> bool" where
  "agrees a o' \<longleftrightarrow>
    (\<exists>i vs xs. a = Some (NormalBranch i vs) \<and> o' = Some (Branch i xs) \<and> list_all2 represents vs xs)"

lemma agrees_simps [simp]:
  "agrees (Some (NormalBranch i vs)) (Some (Branch j xs)) \<longleftrightarrow> i = j \<and> list_all2 represents vs xs"
  by (auto simp: agrees_def)

lemma agrees_intro:
  "a = Some (NormalBranch i vs) \<Longrightarrow> o' = Some (Branch i xs) \<Longrightarrow> list_all2 represents vs xs \<Longrightarrow> agrees a o'"
  unfolding agrees_def by blast

text \<open>The bits of an integer at a machine integer type.\<close>

lemma represents_encode:
  assumes "int_bounds ty = Some (lo, w)" "encode_at ty a = Some v"
  shows "represents v x \<longleftrightarrow> x = IV w (bits_of w a)"
proof -
  have u: "to_unsigned a = Some u \<Longrightarrow> uint (u :: 'a::len word) = bits_of LENGTH('a) a" for u
    by (auto simp: to_unsigned_def bits_of_def uint_word_of_int split: if_splits)
  have s: "to_signed a = Some u \<Longrightarrow> uint (u :: 'a::len word) = bits_of LENGTH('a) a" for u
    by (auto simp: to_signed_def bits_of_def uint_word_of_int split: if_splits)
  from assms show ?thesis
    by (cases rule: int_bounds_cases) (auto simp: encode_at_def dest!: u s)
qed

section \<open>Evaluating emitted operations\<close>

lemma fits_bits [simp]: "fits_unsigned w (bits_of w i)"
  by (simp add: fits_unsigned_def bits_of_def)

lemma bits_fits: "fits_unsigned w i \<Longrightarrow> bits_of w i = i"
  by (simp add: fits_unsigned_def bits_of_def)

lemma bits_of_zero [simp]: "bits_of w 0 = 0"
  by (simp add: bits_of_def)

lemma arg_simps [simp]:
  "arg [] i = None" "arg (x # xs) 0 = Some x" "arg (x # xs) (Suc i) = arg xs i"
  by (simp_all add: arg_def)

lemma arg_numeral [simp]: "arg (x # xs) (numeral k) = arg xs (pred_numeral k)"
  by (simp add: numeral_eq_Suc)

lemma binary_emitted [emitted]:
  "mlir_ok M \<Longrightarrow> fits_unsigned w a \<Longrightarrow> fits_unsigned w b \<Longrightarrow> binop_defined op w a b \<Longrightarrow>
    binary M op (IV w a) (IV w b) = Some (IV w (binop_spec op w a b))"
  by (simp add: mlir_ok_def binary_def)

lemma cmpi_emitted [emitted]:
  "mlir_ok M \<Longrightarrow> fits_unsigned w a \<Longrightarrow> fits_unsigned w b \<Longrightarrow>
    cmpi M p (IV w a) (IV w b) = Some (bit_val (cmpi_spec p w a b))"
  by (simp add: mlir_ok_def cmpi_def)

lemma const_int_emitted [emitted]:
  "mlir_ok M \<Longrightarrow> 0 < w \<Longrightarrow> fits_unsigned w i \<or> fits_signed w i \<Longrightarrow> const_int M i w = Some (IV w (bits_of w i))"
  unfolding mlir_ok_def const_int_def by simp

lemma const_from_type_emitted [emitted]: "const_int_from_type M i (IntTy w) = const_int M i w"
  by (simp add: const_int_from_type_def)

lemma int_type_emitted [emitted]: "int_type (IV w a) = Some (IntTy w)"
  by (simp add: int_type_def)

lemma trunci_emitted [emitted]:
  "mlir_ok M \<Longrightarrow> fits_unsigned w a \<Longrightarrow> 0 < v \<Longrightarrow> v < w \<Longrightarrow>
    convert (ml_trunci M) (IV w a) (IntTy v) = Some (IV v (bits_of v a))"
  by (simp add: mlir_ok_def convert_def)

lemma extui_emitted [emitted]:
  "mlir_ok M \<Longrightarrow> fits_unsigned w a \<Longrightarrow> 0 < w \<Longrightarrow> w \<le> v \<Longrightarrow>
    convert (ml_extui M) (IV w a) (IntTy v) = Some (IV v a)"
  by (simp add: mlir_ok_def convert_def)

lemma extsi_emitted [emitted]:
  "mlir_ok M \<Longrightarrow> fits_unsigned w a \<Longrightarrow> 0 < w \<Longrightarrow> w \<le> v \<Longrightarrow>
    convert (ml_extsi M) (IV w a) (IntTy v) = Some (IV v (bits_of v (signed_of w a)))"
  by (simp add: mlir_ok_def convert_def)

lemma absi_emitted [emitted]:
  "mlir_ok M \<Longrightarrow> fits_unsigned w a \<Longrightarrow> absi M (IV w a) = Some (IV w (bits_of w \<bar>signed_of w a\<bar>))"
  by (simp add: mlir_ok_def absi_def)

lemma bswap_emitted [emitted]:
  "mlir_ok M \<Longrightarrow> fits_unsigned w a \<Longrightarrow> 16 dvd w \<Longrightarrow> bswap M (IV w a) = Some (IV w (bswap_spec w a))"
  by (simp add: mlir_ok_def bswap_def)

lemma mului_emitted [emitted]:
  "mlir_ok M \<Longrightarrow> fits_unsigned w a \<Longrightarrow> fits_unsigned w b \<Longrightarrow>
    mului_extended M (IV w a) (IV w b) = Some (IV w (bits_of w (a * b)), IV w (a * b div 2 ^ w))"
  by (simp add: mlir_ok_def mului_extended_def)

lemma with_overflow_emitted [emitted]:
  "mlir_ok M \<Longrightarrow> fits_unsigned w a \<Longrightarrow> fits_unsigned w b \<Longrightarrow>
    with_overflow M op (IV w a) (IV w b) =
      Some (SV [IV w (fst (overflow_spec op w a b)), bit_val (snd (overflow_spec op w a b))])"
  by (simp add: mlir_ok_def with_overflow_def split: prod.splits)

lemma extract_emitted [emitted]: "extract_value (SV xs) i = nth_opt xs i"
  by (simp add: extract_value_def fields_of_def)

lemma insert_emitted [emitted]:
  "i < length xs \<Longrightarrow> insert_value (SV xs) y i = Some (SV (xs[i := y]))"
  "i < length ts \<Longrightarrow> insert_value (UndefV (StructTy ts)) y i = Some (SV ((map UndefV ts)[i := y]))"
  by (simp_all add: insert_value_def fields_of_def)

lemma pick_emitted [emitted]: "pick (bit_val c) x y = Some (if c then x else y)"
  by (simp add: pick_def bit_val_def)

lemma bit_and_emitted [emitted]:
  "mlir_ok M \<Longrightarrow> binary M Andi (bit_val c) (bit_val d) = Some (bit_val (c \<and> d))"
  by (cases c; cases d) (simp_all add: bit_val_def binary_emitted fits_unsigned_def)

lemma select_emitted [emitted]: "select (bit_val c) x y = Some (if c then x else y)"
  by (simp add: select_def emitted)

lemma scf_if_emitted [emitted]: "scf_if (bit_val c) (Some x) (Some y) = Some (if c then x else y)"
  by (simp add: scf_if_def emitted)

lemma br_emitted [emitted]: "br i xs = Some (Branch i xs)"
  by (simp add: br_def)

lemma cond_br_emitted [emitted]:
  "cond_br (bit_val c) (i, j) (xs, ys) = Some (if c then Branch i xs else Branch j ys)"
  by (simp add: cond_br_def emitted)

text \<open>Builtin counters go up modulo \<open>2 ^ 64\<close>.\<close>

lemma increment_by_emitted [emitted]:
  "mlir_ok M \<Longrightarrow> fits_unsigned 64 n \<Longrightarrow> fits_unsigned 64 k \<Longrightarrow>
    increment_builtin_counter_by M (IV 64 n) k = Some (IV 64 (bits_of 64 (n + k)))"
  by (simp add: increment_builtin_counter_by_def emitted bits_fits)

lemma increment_emitted [emitted]:
  "mlir_ok M \<Longrightarrow> fits_unsigned 64 n \<Longrightarrow>
    increment_builtin_counter M (IV 64 n) = Some (IV 64 (bits_of 64 (n + 1)))"
  by (simp add: increment_builtin_counter_def emitted fits_unsigned_def)

lemma increment_conditionally_emitted [emitted]:
  "mlir_ok M \<Longrightarrow> fits_unsigned 64 n \<Longrightarrow> fits_unsigned 64 k \<Longrightarrow> fits_unsigned 64 l \<Longrightarrow>
    increment_builtin_counter_conditionally_by M (IV 64 n) k l (bit_val c) =
      Some (IV 64 (bits_of 64 (n + (if c then k else l))))"
  by (simp add: increment_builtin_counter_conditionally_by_def emitted bits_fits)

text \<open>Reading bits as signed numbers.\<close>

lemma signed_of_bits:
  assumes "0 < w" "- (2 ^ (w - 1)) \<le> i" "i < 2 ^ (w - 1)"
  shows "signed_of w (bits_of w i) = i"
proof -
  have two: "(2 :: int) ^ w = 2 * 2 ^ (w - 1)" using assms(1) by (cases w) simp_all
  show ?thesis
  proof (cases "0 \<le> i")
    case True
    then have "bits_of w i = i" using assms two by (simp add: bits_of_def)
    then show ?thesis using assms(3) by (simp add: signed_of_def)
  next
    case False
    then have "bits_of w i = i + 2 ^ w" unfolding bits_of_def
      using assms(2) two by (subst mod_add_self2 [symmetric], intro mod_pos_pos_trivial) auto
    then show ?thesis using assms(2) two by (simp add: signed_of_def)
  qed
qed

lemma bits_of_signed [simp]: "bits_of w (signed_of w a) = bits_of w a"
  by (simp add: signed_of_def bits_of_def)

end
