(* ===== verification/CgIntFacts.thy ===== *)
theory CgIntFacts
  imports CgInt Simulation
begin

text \<open>
  The code generated for the integer libfuncs agrees with the interpreter: each lemma takes
  the arguments of one libfunc in both forms. A builtin counter is any \<open>i64\<close>.
\<close>

section \<open>Integer types\<close>

lemma int_bounds_widths:
  assumes "int_bounds ty = Some (lo, w)"
  shows "w \<in> {8, 16, 32, 64, 128}" "lo = 0 \<or> lo = - (2 ^ (w - 1))"
  using assms by (cases rule: int_bounds_cases; simp)+

lemma int_width_pos: "int_bounds ty = Some (lo, w) \<Longrightarrow> 0 < w"
  using int_bounds_widths by fastforce

lemma ty_range_at:
  assumes "int_type_at R t ty lo w"
  shows "ty_range R t = Some \<lparr>rng_lower = lo, rng_upper = lo + 2 ^ w\<rparr>"
proof -
  have ty: "get_type R t = Some ty" using assms by (simp add: int_type_at_def)
  have "native_integer_range R ty = Ok \<lparr>rng_lower = lo, rng_upper = lo + 2 ^ w\<rparr>"
    using integer_range_at [OF assms] integer_range_fuel_agree [OF ty]
    by (simp add: native_integer_range_def integer_range_def)
  with ty show ?thesis by (simp add: ty_range_def ok_def)
qed

lemma build_type_at:
  assumes "int_type_at R t ty lo w"
  shows "build_type R t = Some (IntTy w)"
proof -
  obtain n where "rec_limit R = Suc n" "get_type R t = Some ty" "int_bounds ty = Some (lo, w)"
    using assms unfolding int_type_at_def using gr0_implies_Suc by blast
  from this(3,1,2) show ?thesis
    by (cases rule: int_bounds_cases) (simp_all add: build_type_def build_def)
qed

text \<open>The bits of the integers of a type.\<close>

lemma fits_of_range:
  assumes "int_bounds ty = Some (lo, w)" "lo \<le> i" "i < lo + 2 ^ w"
  shows "fits_unsigned w i \<or> fits_signed w i"
proof -
  have "2 * (2 :: int) ^ (w - 1) = 2 ^ w" using int_width_pos [OF assms(1)] by (cases w) simp_all
  then show ?thesis
    using int_bounds_widths(2) [OF assms(1)] assms(2,3) by (auto simp: fits_unsigned_def fits_signed_def)
qed

lemma bits_unsigned: "0 \<le> i \<Longrightarrow> i < 2 ^ w \<Longrightarrow> bits_of w i = i"
  by (simp add: bits_of_def)

lemma bits_inj:
  assumes "lo \<le> i" "i < lo + 2 ^ w" "lo \<le> j" "j < lo + 2 ^ w"
  shows "bits_of w i = bits_of w j \<longleftrightarrow> i = j"
proof
  assume "bits_of w i = bits_of w j"
  then have "(i - lo) mod 2 ^ w = (j - lo) mod 2 ^ w" unfolding bits_of_def by (metis mod_diff_left_eq)
  moreover have "(i - lo) mod 2 ^ w = i - lo" "(j - lo) mod 2 ^ w = j - lo"
    using assms by (simp_all add: mod_pos_pos_trivial)
  ultimately show "i = j" by simp
qed simp

lemma signed_of_range:
  assumes "int_bounds ty = Some (lo, w)" "lo \<noteq> 0" "lo \<le> i" "i < lo + 2 ^ w"
  shows "signed_of w (bits_of w i) = i"
proof -
  have "2 * (2 :: int) ^ (w - 1) = 2 ^ w" using int_width_pos [OF assms(1)] by (cases w) simp_all
  then show ?thesis
    using int_bounds_widths(2) [OF assms(1)] assms(2-4) int_width_pos [OF assms(1)]
    by (intro signed_of_bits) auto
qed

lemma bits_of_bits [simp]: "bits_of w (bits_of w i) = bits_of w i"
  by (simp add: bits_of_def)

lemma bits_of_arith [simp]:
  "bits_of w (bits_of w i + bits_of w j) = bits_of w (i + j)"
  "bits_of w (bits_of w i - bits_of w j) = bits_of w (i - j)"
  "bits_of w (bits_of w i * bits_of w j) = bits_of w (i * j)"
  by (simp_all add: bits_of_def mod_simps)

text \<open>What a result of the interpreter and one of the code have to satisfy.\<close>

lemma represents_at:
  assumes "int_type_at R t ty lo w" "encode_at ty i = Some v"
  shows "get_value_from_integer R t i = Some v" "represents v (IV w (bits_of w i))"
  using assms get_value_at [OF assms(1)] represents_encode [of ty lo w i v]
  by (simp_all add: int_type_at_def)

section \<open>Constants, bitwise operations, comparisons\<close>

lemma const_agrees:
  assumes "mlir_ok M" "branch_ty sg 0 0 = Some t" "int_type_at R t ty lo w" "lo \<le> c" "c < lo + 2 ^ w"
  shows "agrees (eval_int_const R sg c []) (build_const M R sg c)"
proof -
  have b: "int_bounds ty = Some (lo, w)" using assms(3) by (simp add: int_type_at_def)
  obtain v where v: "encode_at ty c = Some v" using encode_at_total [OF b assms(4,5)] by blast
  have "eval_int_const R sg c [] = Some (NormalBranch 0 [v])"
    using represents_at(1) [OF assms(3) v] assms(2) by (simp add: eval_int_const_def)
  moreover have "build_const M R sg c = Some (Branch 0 [IV w (bits_of w c)])"
    using assms(2) build_type_at [OF assms(3)] int_width_pos [OF b] fits_of_range [OF b assms(4,5)]
    by (simp add: build_const_def emitted assms(1))
  ultimately show ?thesis using represents_at(2) [OF assms(3) v] by simp
qed

lemma bitwise_range:
  fixes a b :: int
  assumes "0 \<le> a" "a < 2 ^ w" "0 \<le> b" "b < 2 ^ w"
  shows "0 \<le> a AND b" "a AND b < 2 ^ w" "0 \<le> a OR b" "a OR b < 2 ^ w" "0 \<le> a XOR b" "a XOR b < 2 ^ w"
  using assms OR_upper [of a w b] XOR_upper [of a w b] AND_upper1 [of a b] by auto

lemma bitwise_agrees:
  assumes "mlir_ok M" "branch_ty sg 0 1 = Some t" "int_type_at R t ty 0 w"
    and "encode_at ty a = Some va" "encode_at ty b = Some vb" "fits_unsigned 64 n"
  shows "agrees (eval_bitwise R sg [Unit, va, vb]) (build_bitwise M [IV 64 n, IV w (bits_of w a), IV w (bits_of w b)])"
proof -
  have bd: "int_bounds ty = Some (0, w)" using assms(3) by (simp add: int_type_at_def)
  note ab = encode_at_args [OF bd assms(4,5)]
  then have ab': "0 \<le> a" "a < 2 ^ w" "0 \<le> b" "b < 2 ^ w" by simp_all
  note r = bitwise_range [OF ab']
  obtain u x y where v: "encode_at ty (a AND b) = Some u" "encode_at ty (a XOR b) = Some x" "encode_at ty (a OR b) = Some y"
    using encode_at_total [OF bd] r by (metis add_0)
  have fits: "fits_unsigned w a" "fits_unsigned w b" "fits_unsigned 64 5"
    using ab' by (simp_all add: fits_unsigned_def)
  have "eval_bitwise R sg [Unit, va, vb] = Some (NormalBranch 0 [Unit, u, x, y])"
    using v [THEN represents_at(1) [OF assms(3)]] assms(2) ab(1) by (simp add: eval_bitwise_def)
  moreover have "build_bitwise M [IV 64 n, IV w (bits_of w a), IV w (bits_of w b)] =
      Some (Branch 0 [IV 64 (bits_of 64 (n + 5)), IV w (a AND b), IV w (a XOR b), IV w (a OR b)])"
    using fits by (simp add: build_bitwise_def emitted assms(1,6) bits_fits BITWISE_BUILTIN_SIZE_def)
  ultimately show ?thesis
    using v [THEN represents_at(2) [OF assms(3)]] r by (simp add: bits_unsigned)
qed

lemma equal_agrees:
  assumes "mlir_ok M" "int_bounds ty = Some (lo, w)" "encode_at ty a = Some va" "encode_at ty b = Some vb"
  shows "agrees (eval_equal [va, vb]) (build_equal M [IV w (bits_of w a), IV w (bits_of w b)])"
proof -
  note ab = encode_at_args [OF assms(2-4)]
  have "va = vb \<longleftrightarrow> a = b"
    using assms(3,4) encode_at_reads [OF assms(2,3)] encode_at_reads [OF assms(2,4)] by auto
  then show ?thesis
    using ab(2-5) by (simp add: eval_equal_def build_equal_def emitted assms(1) bits_inj)
qed

lemma is_zero_agrees:
  assumes "mlir_ok M" "branch_ty sg 1 0 = Some t" "int_type_at R t ty lo w" "encode_at ty a = Some va"
  shows "agrees (eval_int_is_zero R sg [va]) (build_is_zero M [IV w (bits_of w a)])"
proof -
  have b: "int_bounds ty = Some (lo, w)" using assms(3) by (simp add: int_type_at_def)
  note a = encode_at_reads [OF b assms(4)] encode_at_range [OF b assms(4)]
  have "lo \<le> 0" "0 < lo + 2 ^ w"
    using int_bounds_widths(2) [OF b] int_width_pos [OF b] by (auto simp: power_strict_increasing)
  then have "bits_of w a = bits_of w 0 \<longleftrightarrow> a = 0" using a(2) by (intro bits_inj) auto
  then have zero: "bits_of w a = 0 \<longleftrightarrow> a = 0" by (simp add: bits_of_def)
  show ?thesis
    using a(1) represents_at [OF assms(3,4)] zero assms(2) int_width_pos [OF b]
    by (cases "a = 0")
      (auto simp: agrees_def eval_int_is_zero_def build_is_zero_def emitted assms(1) fits_unsigned_def bits_of_def)
qed

section \<open>Arithmetic\<close>

lemma half_power: "0 < w \<Longrightarrow> 2 * (2 :: int) ^ (w - 1) = 2 ^ w"
  by (cases w) simp_all

lemma diff_agrees:
  assumes "mlir_ok M" "branch_ty sg 0 1 = Some t" "int_type_at R t uty 0 w"
    and "int_bounds ty = Some (lo, w)" "lo \<noteq> 0"
    and "encode_at ty a = Some va" "encode_at ty b = Some vb" "fits_unsigned 64 n"
  shows "agrees (eval_diff R sg [Unit, va, vb]) (build_diff M [IV 64 n, IV w (bits_of w a), IV w (bits_of w b)])"
proof -
  note ab = encode_at_args [OF assms(4,6,7)]
  have s: "signed_of w (bits_of w a) = a" "signed_of w (bits_of w b) = b"
    using signed_of_range [OF assms(4,5)] ab(2-5) by simp_all
  from eval_diff_mod [OF assms(2,3,4,6,7)] obtain v where v:
    "eval_diff R sg [Unit, va, vb] = Some (NormalBranch (if b \<le> a then 0 else 1) [Unit, v])"
    "encode_at uty ((a - b) mod 2 ^ w) = Some v" by blast
  have "build_diff M [IV 64 n, IV w (bits_of w a), IV w (bits_of w b)] =
      Some (Branch (if b \<le> a then 0 else 1) [IV 64 (bits_of 64 (n + 1)), IV w (bits_of w (a - b))])"
    using s by (simp add: build_diff_def emitted assms(1,8))
  moreover have "represents v (IV w (bits_of w (a - b)))"
    using represents_at(2) [OF assms(3) v(2)] by (simp add: bits_of_def)
  ultimately show ?thesis using v(1) by simp
qed

lemma divmod_agrees:
  assumes "mlir_ok M" "branch_ty sg 0 1 = Some t" "int_type_at R t ty 0 w"
    and "param_ty sg 1 = Some t1" "ty_range R t1 = Some r1" "param_ty sg 2 = Some t2" "ty_range R t2 = Some r2"
    and "D r1 r2 = Some alg"
    and "encode_at ty a = Some va" "encode_at ty b = Some vb" "b \<noteq> 0" "fits_unsigned 64 n"
  shows "agrees (eval_divmod R sg [Unit, va, vb])
    (build_divmod M D R sg [IV 64 n, IV w (bits_of w a), IV w (bits_of w b)])"
proof -
  have bd: "int_bounds ty = Some (0, w)" using assms(3) by (simp add: int_type_at_def)
  note ab = encode_at_args [OF bd assms(9,10)]
  from eval_divmod_euclid [OF assms(2,3,9,10)] assms(11) obtain vq vr where v:
    "eval_divmod R sg [Unit, va, vb] = Some (NormalBranch 0 [Unit, vq, vr])"
    "encode_at ty (a div b) = Some vq" "encode_at ty (a mod b) = Some vr" by auto
  have fits: "fits_unsigned w a" "fits_unsigned w b" "fits_unsigned 64 3" "fits_unsigned 64 4"
    using ab by (simp_all add: fits_unsigned_def)
  have "\<exists>k. build_divmod M D R sg [IV 64 n, IV w (bits_of w a), IV w (bits_of w b)] =
      Some (Branch 0 [IV 64 k, IV w (a div b), IV w (a mod b)])"
    using assms(4-8,11) fits
    by (cases alg) (simp_all add: build_divmod_def emitted assms(1,12) bits_fits)
  moreover have "represents vq (IV w (a div b))" "represents vr (IV w (a mod b))"
    using v(2,3) [THEN represents_at(2) [OF assms(3)]] v(2,3) [THEN encode_at_range [OF bd]]
    by (simp_all add: bits_unsigned)
  ultimately show ?thesis using v(1) by auto
qed

text \<open>
  Addition and subtraction. A signed result below the range leaves by branch 1, one above it
  by branch 2; an unsigned one out of range leaves by branch 1.
\<close>

lemma operation_compiled:
  fixes op :: int_operator
  assumes "mlir_ok M" "param_ty sg 1 = Some t" "int_type_at R t ty lo w"
    and "lo \<le> a" "a < lo + 2 ^ w" "lo \<le> b" "b < lo + 2 ^ w" "fits_unsigned 64 n"
  defines "e \<equiv> exact_op op a b"
  shows "\<exists>k. build_operation M R sg op [IV 64 n, IV w (bits_of w a), IV w (bits_of w b)] =
    Some (Branch (if lo \<le> e \<and> e < lo + 2 ^ w then 0 else if lo = 0 \<or> e < lo then 1 else 2)
      [IV 64 k, IV w (bits_of w e)])"
proof -
  have bd: "int_bounds ty = Some (lo, w)" using assms(3) by (simp add: int_type_at_def)
  have w: "0 < w" by (rule int_width_pos [OF bd])
  have one: "fits_unsigned 64 1" by (simp add: fits_unsigned_def)
  note gen = ty_range_at [OF assms(3)] build_type_at [OF assms(3)]
  show ?thesis
  proof (cases "lo = 0")
    case True
    then have ab: "bits_of w a = a" "bits_of w b = b" using assms(4-7) by (simp_all add: bits_unsigned)
    then have fits: "fits_unsigned w a" "fits_unsigned w b" by (metis fits_bits)+
    have in_range: "fits_unsigned w i \<longleftrightarrow> lo \<le> i \<and> i < lo + 2 ^ w" for i
      using True by (simp add: fits_unsigned_def)
    show ?thesis
      using True gen assms(2) fits
      by (cases op) (simp_all add: build_operation_def emitted assms(1,8) ab e_def exact_op_def in_range [of "a + b"] in_range [of "a - b"])
  next
    case False
    then have lo: "lo = - (2 ^ (w - 1))" using int_bounds_widths(2) [OF bd] by simp
    have two: "2 * (2 :: int) ^ (w - 1) = 2 ^ w" by (rule half_power [OF w])
    have s: "signed_of w (bits_of w a) = a" "signed_of w (bits_of w b) = b"
      using signed_of_range [OF bd False] assms(4-7) by simp_all
    have in_range: "fits_signed w e \<longleftrightarrow> lo \<le> e \<and> e < lo + 2 ^ w" using lo two by (auto simp: fits_signed_def)
    have sign: "0 \<le> signed_of w (bits_of w e) \<longleftrightarrow> e < lo" if "\<not> fits_signed w e"
    proof (cases "e < lo")
      case True
      have "- (2 ^ w) \<le> e" using assms(4-7) lo two unfolding e_def exact_op_def by (cases op; simp)
      with True lo two have "signed_of w (bits_of w (e + 2 ^ w)) = e + 2 ^ w"
        by (intro signed_of_bits [OF w]) auto
      moreover have "bits_of w (e + 2 ^ w) = bits_of w e" by (simp add: bits_of_def)
      ultimately show ?thesis using True \<open>- (2 ^ w) \<le> e\<close> by simp
    next
      case below: False
      have "e < 2 ^ w" "2 ^ (w - 1) \<le> e"
        using assms(4-7) lo two that below unfolding e_def exact_op_def fits_signed_def by (cases op; simp)+
      then have "signed_of w (bits_of w (e - 2 ^ w)) = e - 2 ^ w"
        using lo two by (intro signed_of_bits [OF w]) auto
      moreover have "bits_of w (e - 2 ^ w) = bits_of w e" by (simp add: bits_of_def)
      ultimately show ?thesis using below \<open>e < 2 ^ w\<close> by simp
    qed
    have zero: "fits_unsigned w 0" "bits_of w 0 = 0" "signed_of w 0 = 0"
      by (simp_all add: fits_unsigned_def bits_of_def signed_of_def)
    have eqs: "overflow_spec (case op of OverflowingAdd \<Rightarrow> SaddO | OverflowingSub \<Rightarrow> SsubO) w (bits_of w a) (bits_of w b) =
        (bits_of w e, \<not> fits_signed w e)"
      using s by (cases op) (simp_all add: e_def exact_op_def)
    have ops: "(case (True, op) of (False, OverflowingAdd) \<Rightarrow> UaddO | (False, OverflowingSub) \<Rightarrow> UsubO
        | (True, OverflowingAdd) \<Rightarrow> SaddO | (True, OverflowingSub) \<Rightarrow> SsubO) =
        (case op of OverflowingAdd \<Rightarrow> SaddO | OverflowingSub \<Rightarrow> SsubO)" by simp
    show ?thesis
      using False gen assms(2) sign in_range one w
      by (simp add: build_operation_def emitted assms(1,8) eqs zero)
  qed
qed

section \<open>Field elements\<close>

lemma bits_of_narrow: "v \<le> w \<Longrightarrow> bits_of v (bits_of w i) = bits_of v i"
  by (simp add: bits_of_def mod_mod_cancel le_imp_power_dvd)

lemma felt_fits [simp]: "fits_unsigned 252 (felt_int f)"
  using felt_int_range [of f] by (simp add: fits_unsigned_def PRIME_def)

lemma felt_int_not_neg [simp]: "\<not> felt_int f < 0"
  by (simp add: not_less)

lemma felt_int_signed: "felt_int f = (if felt_signed f < 0 then felt_signed f + PRIME else felt_signed f)"
  using felt_int_range [of f] by (simp add: felt_signed_def PRIME_def not_less)

lemma width_small:
  assumes "int_bounds ty = Some (lo, w)"
  shows "(2 :: int) ^ (w - 1) \<le> 2 ^ 127 \<and> 2 ^ w \<le> (2 :: int) ^ 128 \<and> w \<le> 128"
  using assms by (cases rule: int_bounds_cases) simp_all

text \<open>The tests of the generated code decide whether a felt is in the range of the type.\<close>

lemma unsigned_range_test:
  assumes "int_bounds ty = Some (0, w)"
  shows "felt_int f < 2 ^ w \<longleftrightarrow> 0 \<le> felt_signed f \<and> felt_signed f < 2 ^ w"
  using width_small [OF assms] felt_int_range [of f] by (auto simp: felt_signed_def PRIME_def)

lemma signed_range_test:
  assumes "int_bounds ty = Some (lo, w)" "lo \<noteq> 0"
  shows "signed_of 252 (PRIME - 2 ^ (w - 1)) \<le> signed_of 252 (felt_int f) \<and>
      signed_of 252 (felt_int f) < signed_of 252 (2 ^ (w - 1)) \<longleftrightarrow>
    lo \<le> felt_signed f \<and> felt_signed f < lo + 2 ^ w"
proof -
  define m where "m = (2 :: int) ^ (w - 1)"
  have m: "0 < m" "m \<le> 2 ^ 127" using width_small [OF assms(1)] by (simp_all add: m_def)
  have lo: "lo = - m" "lo + 2 ^ w = m"
    using int_bounds_widths(2) [OF assms(1)] assms(2) half_power [OF int_width_pos [OF assms(1)]]
    by (auto simp: m_def)
  have two: "2 ^ w = 2 * m" using half_power [OF int_width_pos [OF assms(1)]] by (simp add: m_def)
  have "- m \<le> felt_int f" using m felt_int_range(1) [of f] by linarith
  then show ?thesis
    unfolding m_def [symmetric] lo(1) two using m felt_int_range(2) [of f]
    by (auto simp: signed_of_def felt_signed_def PRIME_def)
qed

lemma from_felt_agrees:
  assumes "mlir_ok M" "branch_ty sg 0 1 = Some t" "int_type_at R t ty lo w" "fits_unsigned 64 n"
  shows "agrees (eval_from_felt R sg [Unit, Felt f]) (build_from_felt252 M R sg [IV 64 n, IV 252 (felt_int f)])"
proof -
  have bd: "int_bounds ty = Some (lo, w)" using assms(3) by (simp add: int_type_at_def)
  note small = width_small [OF bd] and gen = ty_range_at [OF assms(3)] build_type_at [OF assms(3)]
  have w: "0 < w" "w < 252" using int_width_pos [OF bd] small by simp_all
  let ?in = "lo \<le> felt_signed f \<and> felt_signed f < lo + 2 ^ w"
  have nums: "fits_unsigned 64 1" "fits_unsigned 64 2" "fits_unsigned 64 3" "fits_unsigned 252 0"
    by (simp_all add: fits_unsigned_def)
  have "(\<lambda>x. build_from_felt252 M R sg [IV 64 n, IV 252 (felt_int f)] =
      Some (if ?in then Branch 0 [IV 64 x, IV w (bits_of w (felt_signed f))] else Branch 1 [IV 64 x]))
    (bits_of 64 (n + (if ?in then if range_size \<lparr>rng_lower = lo, rng_upper = lo + 2 ^ w\<rparr> < 2 ^ 128 then 2 else 1 else 3)))"
  proof (cases "lo = 0")
    case True
    then have bd0: "int_bounds ty = Some (0, w)" using bd by simp
    have up: "fits_unsigned 252 (2 ^ w)" using small by (simp add: fits_unsigned_def)
    then have up': "bits_of 252 (2 ^ w) = 2 ^ w" by (rule bits_fits)
    have "felt_int f < 2 ^ w \<Longrightarrow> felt_signed f = felt_int f"
      using unsigned_range_test [OF bd0, of f] felt_int_signed [of f] by auto
    then show ?thesis
      using True gen assms(2) up up' unsigned_range_test [OF bd0, of f] nums w
      by (simp add: build_from_felt252_def emitted assms(1,4))
  next
    case False
    define m where "m = (2 :: int) ^ (w - 1)"
    have m: "0 < m" "m \<le> 2 ^ 127" using small by (simp_all add: m_def)
    have lo: "lo = - m" "lo + 2 ^ w = m"
      using int_bounds_widths(2) [OF bd] False half_power [OF w(1)] by (auto simp: m_def)
    have thr: "threshold lo = PRIME - m" "threshold (lo + 2 ^ w) = m"
      using m lo by (simp_all add: threshold_def)
    have fits: "fits_unsigned 252 (PRIME - m)" "fits_unsigned 252 m" "fits_unsigned 252 PRIME"
      using m by (simp_all add: fits_unsigned_def PRIME_def)
    note fbits = fits [THEN bits_fits]
    have is_neg: "signed_of 252 (felt_int f) < signed_of 252 0 \<longleftrightarrow> 2 ^ 251 \<le> felt_int f"
      using felt_int_range [of f] by (auto simp: signed_of_def PRIME_def)
    have "bits_of w (if signed_of 252 (felt_int f) < signed_of 252 0 then bits_of 252 (felt_int f - PRIME) else felt_int f) =
        bits_of w (felt_signed f)" if ?in
    proof -
      have "2 ^ 251 \<le> felt_int f \<longleftrightarrow> felt_signed f < 0"
        using that m lo felt_int_range [of f] by (auto simp: felt_signed_def PRIME_def)
      then show ?thesis using w(2) felt_int_signed [of f] unfolding is_neg by (auto simp: bits_of_narrow)
    qed
    moreover have "signed_of 252 (PRIME - m) \<le> signed_of 252 (felt_int f) \<and>
        signed_of 252 (felt_int f) < signed_of 252 m \<longleftrightarrow> ?in"
      using signed_range_test [OF bd False, of f] by (simp add: m_def)
    ultimately show ?thesis
      using False gen assms(2) nums fits fbits w
      by (cases "signed_of 252 (felt_int f) < signed_of 252 0"; cases ?in)
        (auto simp: build_from_felt252_def emitted assms(1,4) thr)
  qed
  then obtain x where x: "build_from_felt252 M R sg [IV 64 n, IV 252 (felt_int f)] =
      Some (if ?in then Branch 0 [IV 64 x, IV w (bits_of w (felt_signed f))] else Branch 1 [IV 64 x])" by blast
  show ?thesis
  proof (cases ?in)
    case True
    then obtain v where "eval_from_felt R sg [Unit, Felt f] = Some (NormalBranch 0 [Unit, v])"
      "encode_at ty (felt_signed f) = Some v"
      using eval_from_felt_exact [OF assms(2,3), of f] by auto
    with represents_at(2) [OF assms(3) this(2)] True x show ?thesis by simp
  next
    case False
    then show ?thesis using eval_from_felt_exact [OF assms(2,3), of f] x by auto
  qed
qed

lemma felt_type_at:
  assumes "get_type R t = Some Felt252T" "0 < rec_limit R"
  shows "build_type R t = Some (IntTy 252)"
  using assms by (cases "rec_limit R") (simp_all add: build_type_def build_def)

lemma felt_int_of_range:
  assumes "int_bounds ty = Some (lo, w)" "lo \<le> a" "a < lo + 2 ^ w"
  shows "felt_int (felt_of_int a) = (if a < 0 then PRIME + a else a)"
proof -
  have "- (2 ^ 127) \<le> a" "a < 2 ^ 128"
    using assms(2,3) width_small [OF assms(1)] int_bounds_widths(2) [OF assms(1)]
      zero_less_power [of "2 :: int" "w - 1"] by linarith+
  then have "a mod PRIME = (if a < 0 then PRIME + a else a)"
    by (auto simp: PRIME_def mod_pos_pos_trivial
        intro: trans [OF mod_add_self1 [symmetric] mod_pos_pos_trivial])
  then show ?thesis by simp
qed

lemma to_felt_agrees:
  assumes "mlir_ok M" "param_ty sg 0 = Some t" "int_type_at R t ty lo w"
    and "branch_ty sg 0 0 = Some ft" "get_type R ft = Some Felt252T" "encode_at ty a = Some v"
  shows "agrees (eval_to_felt [v]) (build_to_felt252 M R sg [IV w (bits_of w a)])"
proof -
  have bd: "int_bounds ty = Some (lo, w)" and rl: "0 < rec_limit R"
    using assms(3) by (simp_all add: int_type_at_def)
  note a = encode_at_reads [OF bd assms(6)] encode_at_range [OF bd assms(6)]
  note small = width_small [OF bd] and two = half_power [OF int_width_pos [OF bd]]
    and gen = ty_range_at [OF assms(3)] build_type_at [OF assms(3)] felt_type_at [OF assms(5) rl]
  have w: "0 < w" "w < 252" using int_width_pos [OF bd] small by simp_all
  have f: "felt_int (felt_of_int a) = (if a < 0 then PRIME + a else a)"
    using a(2) by (intro felt_int_of_range [OF bd]) simp_all
  have "build_to_felt252 M R sg [IV w (bits_of w a)] = Some (Branch 0 [IV 252 (if a < 0 then PRIME + a else a)])"
  proof (cases "lo = 0")
    case True
    then have "bits_of w a = a" "0 \<le> a" using a(2) by (simp_all add: bits_unsigned)
    then have "fits_unsigned w a" by (metis fits_bits)
    with True \<open>bits_of w a = a\<close> \<open>0 \<le> a\<close> show ?thesis
      using gen assms(2,4) w by (simp add: build_to_felt252_def emitted assms(1))
  next
    case False
    then have lo: "lo = - (2 ^ (w - 1))" using int_bounds_widths(2) [OF bd] by simp
    have s: "signed_of w (bits_of w a) = a" using a(2) by (intro signed_of_range [OF bd False]) simp_all
    have abs: "bits_of w \<bar>a\<bar> = \<bar>a\<bar>" using a(2) lo two by (intro bits_unsigned) auto
    have abs_fits: "fits_unsigned w \<bar>a\<bar>" using abs by (metis fits_bits)
    have "\<bar>a\<bar> < 2 ^ 128" using a(2) lo two small zero_less_power [of "2 :: int" "w - 1"] by linarith
    then have fits: "fits_unsigned 252 \<bar>a\<bar>" "fits_unsigned 252 PRIME" "fits_unsigned w 0" "fits_unsigned 252 (PRIME - \<bar>a\<bar>)"
      by (simp_all add: fits_unsigned_def PRIME_def)
    have pos: "bits_of w a = a" if "0 \<le> a" using a(2) lo two that by (intro bits_unsigned) auto
    have "signed_of w 0 = 0" by (simp add: signed_of_def)
    then show ?thesis
      using False gen assms(2,4) w s abs abs_fits fits fits(2,4) [THEN bits_fits] pos
      by (auto simp: build_to_felt252_def emitted assms(1))
  qed
  moreover have "eval_to_felt [v] = Some (NormalBranch 0 [Felt (felt_of_int a)])"
    using a(1) by (simp add: eval_to_felt_def)
  ultimately show ?thesis by (simp only: agrees_simps list_all2_Cons represents_simps f) simp
qed

lemma u128s_from_felt_agrees:
  assumes "mlir_ok M" "fits_unsigned 64 n"
  shows "agrees (eval_u128_from_felt [Unit, Felt f]) (build_u128s_from_felt252 M [IV 64 n, IV 252 (felt_int f)])"
proof -
  define hi lo where "hi = felt_int f div 2 ^ 128" and "lo = felt_int f mod 2 ^ 128"
  have split: "felt_int f = hi * 2 ^ 128 + lo" "0 \<le> lo" "lo < 2 ^ 128" "0 \<le> hi" "hi < 2 ^ 128"
    using felt_int_range [of f] by (auto simp: hi_def lo_def PRIME_def pos_imp_zdiv_nonneg_iff)
  have fits: "fits_unsigned 252 hi" "fits_unsigned 128 hi" "fits_unsigned 128 0" "fits_unsigned 252 128"
    "fits_unsigned 64 1" "fits_unsigned 64 3"
    using split(4,5) by (simp_all add: fits_unsigned_def)
  note bits = fits [THEN bits_fits]
  have lo_bits: "bits_of 128 (felt_int f) = lo" by (simp add: lo_def bits_of_def)
  have hi_spec: "binop_spec Shrui 252 (felt_int f) 128 = hi" by (simp add: hi_def)
  have wide: "hi = 0 \<longleftrightarrow> felt_int f < 2 ^ 128" using split by auto
  have code: "build_u128s_from_felt252 M [IV 64 n, IV 252 (felt_int f)] =
      Some (if hi \<noteq> 0 then Branch 1 [IV 64 (bits_of 64 (n + 3)), IV 128 hi, IV 128 lo]
        else Branch 0 [IV 64 (bits_of 64 (n + 1)), IV 128 lo])"
    using fits bits lo_bits hi_spec
    by (cases "hi = 0") (simp_all add: build_u128s_from_felt252_def emitted assms)
  show ?thesis
  proof (cases "felt_int f < 2 ^ 128")
    case True
    then obtain x where "eval_u128_from_felt [Unit, Felt f] = Some (NormalBranch 0 [Unit, U128 x])" "uint x = felt_int f"
      using eval_u128_from_felt_split [of f] by auto
    with True wide split code show ?thesis by simp
  next
    case False
    then obtain x y where xy: "eval_u128_from_felt [Unit, Felt f] = Some (NormalBranch 1 [Unit, U128 x, U128 y])"
      "uint x * 2 ^ 128 + uint y = felt_int f"
      using eval_u128_from_felt_split [of f] by auto
    have y: "0 \<le> uint y" "uint y < 2 ^ 128" using unsigned_less [of y] by simp_all
    then have "uint x = hi" "uint y = lo"
      unfolding hi_def lo_def xy(2) [symmetric] by simp_all
    with xy False wide code show ?thesis by simp
  qed
qed

section \<open>Products, roots and byte order\<close>

lemma wide_mul_agrees:
  assumes "mlir_ok M" "branch_ty sg 0 0 = Some wt" "int_type_at R wt wty wlo (2 * w)"
    and "param_ty sg 0 = Some t" "int_type_at R t ty lo w" "wlo = 0 \<longleftrightarrow> lo = 0"
    and "encode_at ty a = Some va" "encode_at ty b = Some vb"
  shows "agrees (eval_widemul R sg [va, vb]) (build_wide_mul M R sg [IV w (bits_of w a), IV w (bits_of w b)])"
proof -
  have bd: "int_bounds ty = Some (lo, w)" using assms(5) by (simp add: int_type_at_def)
  note ab = encode_at_args [OF bd assms(7,8)]
  have w: "0 < w" by (rule int_width_pos [OF bd])
  from eval_widemul_exact [OF assms(2,3) bd assms(6-8)] obtain v where
    v: "eval_widemul R sg [va, vb] = Some (NormalBranch 0 [v])" "encode_at wty (a * b) = Some v" by blast
  have "build_wide_mul M R sg [IV w (bits_of w a), IV w (bits_of w b)] = Some (Branch 0 [IV (2 * w) (bits_of (2 * w) (a * b))])"
  proof (cases "lo = 0")
    case True
    then have bits: "bits_of w a = a" "bits_of w b = b" using ab(2-5) by (simp_all add: bits_unsigned)
    then have fits: "fits_unsigned w a" "fits_unsigned w b" by (metis fits_bits)+
    have "(2 :: int) ^ w \<le> 2 ^ (2 * w)" by simp
    then have "fits_unsigned (2 * w) a" "fits_unsigned (2 * w) b"
      using True ab(2-5) unfolding fits_unsigned_def by linarith+
    with True bits fits show ?thesis
      using assms(2,4) ty_range_at [OF assms(5)] build_type_at [OF assms(3)] w
      by (simp add: build_wide_mul_def emitted assms(1))
  next
    case False
    then have s: "signed_of w (bits_of w a) = a" "signed_of w (bits_of w b) = b"
      using signed_of_range [OF bd False] ab(2-5) by simp_all
    with False show ?thesis
      using assms(2,4) ty_range_at [OF assms(5)] build_type_at [OF assms(3)] w
      by (simp add: build_wide_mul_def emitted assms(1))
  qed
  with v represents_at(2) [OF assms(3) v(2)] show ?thesis by simp
qed

lemma root_word:
  assumes "LENGTH('a::len) \<le> 2 * LENGTH('b::len)" "0 \<le> a" "a < 2 ^ LENGTH('a)"
  shows "uint (of_nat (isqrt (unat (word_of_int a :: 'a word))) :: 'b word) = int (isqrt (nat a))"
proof -
  have "uint (word_of_int a :: 'a word) = a" using assms(2,3) by (simp add: uint_word_of_int)
  then have "unat (word_of_int a :: 'a word) = nat a" by (metis nat_uint_eq)
  with isqrt_word_eq [OF assms(1), of "word_of_int a"]
  have "unat (of_nat (isqrt (unat (word_of_int a :: 'a word))) :: 'b word) = isqrt (nat a)" by simp
  then show ?thesis by (metis uint_nat)
qed

lemma square_root_agrees:
  assumes "mlir_ok M" "sqrt_ok E" "branch_ty sg 0 1 = Some t" "int_type_at R t hty 0 h"
    and "int_bounds ty = Some (0, w)" "h = (if w = 8 then 8 else w div 2)"
    and "encode_at ty a = Some va" "fits_unsigned 64 n"
  shows "agrees (eval_square_root E R sg [Unit, va]) (build_square_root M [IV 64 n, IV w (bits_of w a)])"
proof -
  note a = encode_at_reads [OF assms(5,7)] encode_at_range [OF assms(5,7)]
  have bits: "bits_of w a = a" using a(2) by (simp add: bits_unsigned)
  have bd: "int_bounds hty = Some (0, h)" using assms(4) by (simp add: int_type_at_def)
  define r where "r = isqrt (nat a)"
  have rr: "int r * int r \<le> a" "a < (int r + 1) * (int r + 1)"
  proof -
    have "int (isqrt (nat a) * isqrt (nat a)) \<le> a" "a < int ((isqrt (nat a) + 1) * (isqrt (nat a) + 1))"
      using isqrt_bounds [of "nat a"] a(2) by linarith+
    then show "int r * int r \<le> a" "a < (int r + 1) * (int r + 1)" by (simp_all add: r_def algebra_simps)
  qed
  have root: "ex_sqrt E a = Some (int r)"
    using assms(2) a(2) rr unfolding sqrt_ok_def by (metis add_0 of_nat_0_le_iff)
  have small: "int r < 2 ^ h"
  proof (rule ccontr)
    assume "\<not> int r < 2 ^ h"
    then have "2 ^ h * 2 ^ h \<le> int r * int r" by (intro mult_mono) simp_all
    moreover have "(2 :: int) ^ w \<le> 2 ^ (h + h)"
      using assms(6) int_bounds_widths(1) [OF assms(5)] by (intro power_increasing) auto
    ultimately show False using rr(1) a(2) unfolding power_add by linarith
  qed
  have code: "integer_square_root (IV w a) = Some (IV h (int r))"
    using assms(5) a(2) unfolding assms(6) r_def
    by (cases rule: int_bounds_cases)
      (simp_all add: integer_square_root_def u8_square_root_def u16_square_root_def u32_square_root_def
        u64_square_root_def u128_square_root_def root_word)
  obtain v where v: "encode_at hty (int r) = Some v"
    using encode_at_total [OF bd, of "int r"] small by auto
  have "eval_square_root E R sg [Unit, va] = Some (NormalBranch 0 [Unit, v])"
    using a(1) assms(3) root represents_at(1) [OF assms(4) v] by (simp add: eval_square_root_def)
  moreover have "build_square_root M [IV 64 n, IV w (bits_of w a)] =
      Some (Branch 0 [IV 64 (bits_of 64 (n + 4)), IV h (int r)])"
    using code bits assms(8) by (simp add: build_square_root_def emitted assms(1) fits_unsigned_def)
  ultimately show ?thesis
    using represents_at(2) [OF assms(4) v] small by (simp add: bits_unsigned)
qed

lemma guarantee_mul_agrees:
  assumes "mlir_ok M" "branch_ty sg 0 2 = Some t" "build_type R t = Some gt"
  shows "agrees (eval_guarantee_mul [U128 a, U128 b]) (build_guarantee_mul M R sg [IV 128 (uint a), IV 128 (uint b)])"
proof -
  obtain hi lo where v: "eval_guarantee_mul [U128 a, U128 b] = Some (NormalBranch 0 [U128 hi, U128 lo, Unit])"
    "uint hi * 2 ^ 128 + uint lo = uint a * uint b"
    using eval_guarantee_mul_exact [of a b] by blast
  have fits: "fits_unsigned 128 (uint x)" for x :: u128
    using unsigned_less [of x] by (simp add: fits_unsigned_def)
  have "bits_of 128 (uint a * uint b) = uint lo" "uint a * uint b div 2 ^ 128 = uint hi"
    using fits [of lo] unfolding v(2) [symmetric] by (simp_all add: bits_of_def fits_unsigned_def)
  then have "build_guarantee_mul M R sg [IV 128 (uint a), IV 128 (uint b)] =
      Some (Branch 0 [IV 128 (uint hi), IV 128 (uint lo), UndefV gt])"
    using fits assms(2,3) by (simp add: build_guarantee_mul_def emitted assms(1))
  with v(1) show ?thesis by simp
qed

lemma guarantee_verify_agrees:
  assumes "mlir_ok M" "fits_unsigned 64 n"
  shows "agrees (eval_guarantee_verify [Unit, Unit]) (build_mul_guarantee_verify M [IV 64 n, g])"
  using assms
  by (simp add: eval_guarantee_verify_def build_mul_guarantee_verify_def emitted fits_unsigned_def [of 64 9])

lemma digits_sum: "0 \<le> n \<Longrightarrow> n < 256 ^ k \<Longrightarrow> (\<Sum>j < k. n div 256 ^ j mod 256 * 256 ^ j) = (n :: int)"
proof (induction k arbitrary: n)
  case (Suc k)
  have "(\<Sum>j < k. n div 256 div 256 ^ j mod 256 * 256 ^ j) = n div 256"
    using Suc.prems by (intro Suc.IH) (auto simp: div_less_iff_less_mult mult.commute)
  moreover have "(\<Sum>j < Suc k. n div 256 ^ j mod 256 * 256 ^ j) =
      n mod 256 + 256 * (\<Sum>j < k. n div 256 div 256 ^ j mod 256 * 256 ^ j)"
    by (simp add: lessThan_Suc_eq_insert_0 sum.reindex sum_distrib_left zdiv_zmult2_eq mult_ac flip: lessThan_Suc)
  ultimately show ?case by simp
qed simp

lemma swap_bytes_spec: "uint (swap_bytes x) = bswap_spec 128 (uint x)"
proof -
  have digit: "take_bit 8 (drop_bit (8 * j) (uint (swap_bytes x))) = take_bit 8 (drop_bit (8 * (15 - j)) (uint x))"
    if "j < 16" for j
    using that by (intro bit_eqI) (auto simp: bit_simps bit_uint_iff bit_swap_bytes)
  have "uint (swap_bytes x) < 256 ^ 16" using unsigned_less [of "swap_bytes x"] by simp
  then have "uint (swap_bytes x) = (\<Sum>j < 16. uint (swap_bytes x) div 256 ^ j mod 256 * 256 ^ j)"
    by (intro digits_sum [symmetric]) simp_all
  also have "\<dots> = (\<Sum>j < 16. uint x div 256 ^ (15 - j) mod 256 * 256 ^ j)"
    using digit by (intro sum.cong) (simp_all add: take_bit_eq_mod drop_bit_eq_div power_mult)
  also have "\<dots> = (\<Sum>i < 16. uint x div 256 ^ i mod 256 * 256 ^ (15 - i))"
    by (rule sum.reindex_bij_witness [where i = "\<lambda>i. 15 - i" and j = "\<lambda>j. 15 - j"]) auto
  finally show ?thesis by (simp add: bswap_spec_def)
qed

lemma byte_reverse_agrees:
  assumes "mlir_ok M" "fits_unsigned 64 n"
  shows "agrees (eval_byte_reverse [Unit, U128 x]) (build_byte_reverse M [IV 64 n, IV 128 (uint x)])"
proof -
  have "fits_unsigned 128 (uint x)" "fits_unsigned 64 20"
    using unsigned_less [of x] by (simp_all add: fits_unsigned_def)
  then show ?thesis
    using assms
    by (simp add: eval_byte_reverse_def build_byte_reverse_def emitted BITWISE_BUILTIN_SIZE_def swap_bytes_spec)
qed

end
