(* ===== verification/IntCompiled.thy ===== *)
theory IntCompiled
  imports CgIntFacts
begin

text \<open>
  The integer libfuncs as a whole: compiled code agrees with the interpreter on every libfunc
  of an unsigned, a 128-bit and a signed type, with one exception, which the last theorem
  states: where a signed operation overflows upwards they leave by different branches.
\<close>

section \<open>Calls and declarations\<close>

text \<open>
  \<open>operand ty w a v x\<close>: the integer \<open>a\<close> at type \<open>ty\<close>, as a value of the interpreter and of
  compiled code. A counter is any \<open>i64\<close>.
\<close>

definition operand :: "core_type \<Rightarrow> nat \<Rightarrow> int \<Rightarrow> val \<Rightarrow> ir_val \<Rightarrow> bool" where
  "operand ty w a v x \<longleftrightarrow> encode_at ty a = Some v \<and> x = IV w (bits_of w a)"

inductive uint_call :: "core_type \<Rightarrow> nat \<Rightarrow> uint_lib \<Rightarrow> val list \<Rightarrow> ir_val list \<Rightarrow> bool"
  for ty w where
  "uint_call ty w (UintConst c) [] []"
| "fits_unsigned 64 n \<Longrightarrow> operand ty w a v x \<Longrightarrow> operand ty w b v' x' \<Longrightarrow>
    uint_call ty w UintBitwise [Unit, v, v'] [IV 64 n, x, x']"
| "fits_unsigned 64 n \<Longrightarrow> operand ty w a v x \<Longrightarrow> operand ty w b v' x' \<Longrightarrow> b \<noteq> 0 \<Longrightarrow>
    uint_call ty w UintDivmod [Unit, v, v'] [IV 64 n, x, x']"
| "operand ty w a v x \<Longrightarrow> operand ty w b v' x' \<Longrightarrow> uint_call ty w UintEqual [v, v'] [x, x']"
| "fits_unsigned 64 n \<Longrightarrow>
    uint_call ty w UintFromFelt252 [Unit, Felt f] [IV 64 n, IV 252 (felt_int f)]"
| "fits_unsigned 64 n \<Longrightarrow> operand ty w a v x \<Longrightarrow> operand ty w b v' x' \<Longrightarrow>
    uint_call ty w (UintOperation op) [Unit, v, v'] [IV 64 n, x, x']"
| "operand ty w a v x \<Longrightarrow> uint_call ty w UintIsZero [v] [x]"
| "fits_unsigned 64 n \<Longrightarrow> operand ty w a v x \<Longrightarrow> uint_call ty w UintSquareRoot [Unit, v] [IV 64 n, x]"
| "operand ty w a v x \<Longrightarrow> uint_call ty w UintToFelt252 [v] [x]"
| "operand ty w a v x \<Longrightarrow> operand ty w b v' x' \<Longrightarrow> uint_call ty w UintWideMul [v, v'] [x, x']"

text \<open>What the declared signature of a libfunc of the type says, where the code reads it.\<close>

definition uint_declared ::
  "registry \<Rightarrow> div_rem_choice \<Rightarrow> signature \<Rightarrow> core_type \<Rightarrow> nat \<Rightarrow> uint_lib \<Rightarrow> bool" where
  "uint_declared R D sg ty w lib =
    (case lib of
      UintConst c \<Rightarrow> (\<exists>t. branch_ty sg 0 0 = Some t \<and> int_type_at R t ty 0 w) \<and> 0 \<le> c \<and> c < 2 ^ w
    | UintBitwise \<Rightarrow> \<exists>t. branch_ty sg 0 1 = Some t \<and> int_type_at R t ty 0 w
    | UintDivmod \<Rightarrow>
        \<exists>t t1 t2 r1 r2 alg. branch_ty sg 0 1 = Some t \<and> int_type_at R t ty 0 w \<and>
          param_ty sg 1 = Some t1 \<and> ty_range R t1 = Some r1 \<and>
          param_ty sg 2 = Some t2 \<and> ty_range R t2 = Some r2 \<and> D r1 r2 = Some alg
    | UintEqual \<Rightarrow> True
    | UintFromFelt252 \<Rightarrow> \<exists>t. branch_ty sg 0 1 = Some t \<and> int_type_at R t ty 0 w
    | UintOperation op \<Rightarrow> \<exists>t. param_ty sg 1 = Some t \<and> int_type_at R t ty 0 w
    | UintIsZero \<Rightarrow> \<exists>t. branch_ty sg 1 0 = Some t \<and> int_type_at R t ty 0 w
    | UintSquareRoot \<Rightarrow>
        \<exists>t hty. branch_ty sg 0 1 = Some t \<and> int_type_at R t hty 0 (if w = 8 then 8 else w div 2)
    | UintToFelt252 \<Rightarrow>
        \<exists>t ft. param_ty sg 0 = Some t \<and> int_type_at R t ty 0 w \<and>
          branch_ty sg 0 0 = Some ft \<and> get_type R ft = Some Felt252T
    | UintWideMul \<Rightarrow>
        \<exists>wt wty t. branch_ty sg 0 0 = Some wt \<and> int_type_at R wt wty 0 (2 * w) \<and>
          param_ty sg 0 = Some t \<and> int_type_at R t ty 0 w)"

lemma unsigned_operation_agrees:
  assumes "mlir_ok M" "param_ty sg 1 = Some t" "int_type_at R t ty 0 w"
    and "encode_at ty a = Some va" "encode_at ty b = Some vb" "fits_unsigned 64 n"
  shows "agrees (eval_operation R sg op [Unit, va, vb])
    (build_operation M R sg op [IV 64 n, IV w (bits_of w a), IV w (bits_of w b)])"
proof -
  let ?e = "exact_op op a b"
  have bd: "int_bounds ty = Some (0, w)" using assms(3) by (simp add: int_type_at_def)
  note ab = encode_at_args [OF bd assms(4,5)]
  obtain v where v: "eval_operation R sg op [Unit, va, vb] =
      Some (NormalBranch (if 0 \<le> ?e \<and> ?e < 0 + 2 ^ w then 0 else 1) [Unit, v])"
    "encode_at ty (if ?e < 0 then ?e + 2 ^ w else if 0 + 2 ^ w \<le> ?e then ?e - 2 ^ w else ?e) = Some v"
    using eval_operation_exact [OF assms(2-5), of op] by blast
  obtain k where k: "build_operation M R sg op [IV 64 n, IV w (bits_of w a), IV w (bits_of w b)] =
      Some (Branch (if 0 \<le> ?e \<and> ?e < 0 + 2 ^ w then 0 else 1) [IV 64 k, IV w (bits_of w ?e)])"
    using operation_compiled [OF assms(1-3) ab(2-5) assms(6), of op] by auto
  have "bits_of w (if ?e < 0 then ?e + 2 ^ w else if 0 + 2 ^ w \<le> ?e then ?e - 2 ^ w else ?e) = bits_of w ?e"
    by (simp add: bits_of_def)
  with v k represents_encode [OF bd v(2)] show ?thesis by simp
qed

lemma unsigned_code_agrees_at:
  assumes "mlir_ok M" "sqrt_ok E" "int_bounds ty = Some (0, w)"
    and "uint_declared R D sg ty w lib" "uint_call ty w lib args xs"
  shows "agrees (eval_unsigned E R sg lib args) (build_unsigned M D R sg lib xs)"
  using assms(5,4)
proof cases
  case (1 c)
  with assms show ?thesis
    by (auto simp: uint_declared_def eval_unsigned_def build_unsigned_def intro!: const_agrees)
next
  case 8
  with assms show ?thesis
    by (auto simp: uint_declared_def eval_unsigned_def build_unsigned_def operand_def
        simp del: One_nat_def intro: square_root_agrees [OF _ _ _ _ _ refl])
qed (use assms(1-4) in \<open>auto simp: uint_declared_def eval_unsigned_def build_unsigned_def operand_def
  intro: bitwise_agrees divmod_agrees equal_agrees from_felt_agrees is_zero_agrees to_felt_agrees
    wide_mul_agrees [where wlo = 0 and lo = 0] unsigned_operation_agrees\<close>)



section \<open>128-bit unsigned integers\<close>

fun uint_of :: "uint128_lib \<Rightarrow> uint_lib option" where
  "uint_of (Uint128Const c) = Some (UintConst c)"
| "uint_of (Uint128Operation op) = Some (UintOperation op)"
| "uint_of Uint128SquareRoot = Some UintSquareRoot"
| "uint_of Uint128Equal = Some UintEqual"
| "uint_of Uint128ToFelt252 = Some UintToFelt252"
| "uint_of Uint128IsZero = Some UintIsZero"
| "uint_of Uint128Divmod = Some UintDivmod"
| "uint_of Uint128Bitwise = Some UintBitwise"
| "uint_of _ = None"

lemma uint_of_same:
  "uint_of lib = Some u \<Longrightarrow> eval_uint128 E R sg lib args = eval_unsigned E R sg u args"
  "uint_of lib = Some u \<Longrightarrow> build_u128 M D R sg lib xs = build_unsigned M D R sg u xs"
  by (cases lib; auto simp: eval_uint128_def eval_unsigned_def build_u128_def build_unsigned_def)+

inductive u128_call :: "registry \<Rightarrow> signature \<Rightarrow> uint128_lib \<Rightarrow> val list \<Rightarrow> ir_val list \<Rightarrow> bool"
  for R sg where
  "fits_unsigned 64 n \<Longrightarrow> u128_call R sg Uint128FromFelt252 [Unit, Felt f] [IV 64 n, IV 252 (felt_int f)]"
| "branch_ty sg 0 2 = Some t \<Longrightarrow> build_type R t = Some gt \<Longrightarrow>
    u128_call R sg Uint128GuaranteeMul [U128 a, U128 b] [IV 128 (uint a), IV 128 (uint b)]"
| "fits_unsigned 64 n \<Longrightarrow> u128_call R sg Uint128MulGuaranteeVerify [Unit, Unit] [IV 64 n, g]"
| "fits_unsigned 64 n \<Longrightarrow> u128_call R sg Uint128ByteReverse [Unit, U128 x] [IV 64 n, IV 128 (uint x)]"



section \<open>Signed integers\<close>

inductive sint_call :: "core_type \<Rightarrow> int \<Rightarrow> nat \<Rightarrow> sint_lib \<Rightarrow> val list \<Rightarrow> ir_val list \<Rightarrow> bool"
  for ty lo w where
  "sint_call ty lo w (SintConst c) [] []"
| "fits_unsigned 64 n \<Longrightarrow> operand ty w a v x \<Longrightarrow> operand ty w b v' x' \<Longrightarrow>
    sint_call ty lo w SintDiff [Unit, v, v'] [IV 64 n, x, x']"
| "operand ty w a v x \<Longrightarrow> operand ty w b v' x' \<Longrightarrow> sint_call ty lo w SintEqual [v, v'] [x, x']"
| "fits_unsigned 64 n \<Longrightarrow>
    sint_call ty lo w SintFromFelt252 [Unit, Felt f] [IV 64 n, IV 252 (felt_int f)]"
| "fits_unsigned 64 n \<Longrightarrow> operand ty w a v x \<Longrightarrow> operand ty w b v' x' \<Longrightarrow> exact_op op a b < lo + 2 ^ w \<Longrightarrow>
    sint_call ty lo w (SintOperation op) [Unit, v, v'] [IV 64 n, x, x']"
| "operand ty w a v x \<Longrightarrow> sint_call ty lo w SintToFelt252 [v] [x]"
| "operand ty w a v x \<Longrightarrow> operand ty w b v' x' \<Longrightarrow> sint_call ty lo w SintWideMul [v, v'] [x, x']"

definition sint_declared ::
  "registry \<Rightarrow> signature \<Rightarrow> core_type \<Rightarrow> int \<Rightarrow> nat \<Rightarrow> sint_lib \<Rightarrow> bool" where
  "sint_declared R sg ty lo w lib =
    (case lib of
      SintConst c \<Rightarrow> (\<exists>t. branch_ty sg 0 0 = Some t \<and> int_type_at R t ty lo w) \<and> lo \<le> c \<and> c < lo + 2 ^ w
    | SintDiff \<Rightarrow> \<exists>t uty. branch_ty sg 0 1 = Some t \<and> int_type_at R t uty 0 w
    | SintEqual \<Rightarrow> True
    | SintFromFelt252 \<Rightarrow> \<exists>t. branch_ty sg 0 1 = Some t \<and> int_type_at R t ty lo w
    | SintOperation op \<Rightarrow> \<exists>t. param_ty sg 1 = Some t \<and> int_type_at R t ty lo w
    | SintToFelt252 \<Rightarrow>
        \<exists>t ft. param_ty sg 0 = Some t \<and> int_type_at R t ty lo w \<and>
          branch_ty sg 0 0 = Some ft \<and> get_type R ft = Some Felt252T
    | SintWideMul \<Rightarrow>
        \<exists>wt wty wlo t. branch_ty sg 0 0 = Some wt \<and> int_type_at R wt wty wlo (2 * w) \<and> wlo \<noteq> 0 \<and>
          param_ty sg 0 = Some t \<and> int_type_at R t ty lo w)"

lemma signed_operation:
  assumes "mlir_ok M" "param_ty sg 1 = Some t" "int_type_at R t ty lo w" "lo \<noteq> 0"
    and "encode_at ty a = Some va" "encode_at ty b = Some vb" "fits_unsigned 64 n"
  shows "\<exists>v k. eval_operation R sg op [Unit, va, vb] =
      Some (NormalBranch (if lo \<le> exact_op op a b \<and> exact_op op a b < lo + 2 ^ w then 0 else 1) [Unit, v]) \<and>
    build_operation M R sg op [IV 64 n, IV w (bits_of w a), IV w (bits_of w b)] =
      Some (Branch (if lo \<le> exact_op op a b \<and> exact_op op a b < lo + 2 ^ w then 0
          else if exact_op op a b < lo then 1 else 2)
        [IV 64 k, IV w (bits_of w (exact_op op a b))]) \<and>
    represents v (IV w (bits_of w (exact_op op a b)))"
proof -
  let ?e = "exact_op op a b"
  have bd: "int_bounds ty = Some (lo, w)" using assms(3) by (simp add: int_type_at_def)
  note ab = encode_at_args [OF bd assms(5,6)]
  obtain v where v: "eval_operation R sg op [Unit, va, vb] =
      Some (NormalBranch (if lo \<le> ?e \<and> ?e < lo + 2 ^ w then 0 else 1) [Unit, v])"
    "encode_at ty (if ?e < lo then ?e + 2 ^ w else if lo + 2 ^ w \<le> ?e then ?e - 2 ^ w else ?e) = Some v"
    using eval_operation_exact [OF assms(2,3,5,6), of op] by blast
  have "bits_of w (if ?e < lo then ?e + 2 ^ w else if lo + 2 ^ w \<le> ?e then ?e - 2 ^ w else ?e) = bits_of w ?e"
    by (simp add: bits_of_def)
  then have "represents v (IV w (bits_of w ?e))" using represents_encode [OF bd v(2)] by simp
  then show ?thesis
    using v(1) operation_compiled [OF assms(1-3) ab(2-5) assms(7), of op] assms(4) by auto
qed



text \<open>
  C20: Where they part: for a signed sum or difference above the range, the interpreter leaves
  by branch 1, the branch of results below it, and compiled code by branch 2. The wrapped
  value is the same; in range and below it they leave by the same branch.
\<close>

theorem signed_overflow_branches:
  assumes "mlir_ok M" "param_ty sg 1 = Some t" "int_type_at R t ty lo w" "lo \<noteq> 0"
    and "operand ty w a v x" "operand ty w b v' x'" "fits_unsigned 64 n" "lo + 2 ^ w \<le> exact_op op a b"
  shows "\<exists>u k y. eval_signed R sg (SintOperation op) [Unit, v, v'] = Some (NormalBranch 1 [Unit, u]) \<and>
    build_signed M R sg (SintOperation op) [IV 64 n, x, x'] = Some (Branch 2 [IV 64 k, y]) \<and> represents u y"
proof -
  have "0 < (2 :: int) ^ w" by simp
  then have "\<not> exact_op op a b < lo" using assms(8) by linarith
  then show ?thesis
    using signed_operation [OF assms(1-4) _ _ assms(7), of a v b v' op] assms(5,6,8)
    by (auto simp: operand_def eval_signed_def build_signed_def)
qed

lemma signed_overflow_branches_witness:
  "\<exists>u k y. eval_signed sample_registry (sg_of [11, 6, 6] []) (SintOperation OverflowingAdd) [Unit, I8 100, I8 100] =
      Some (NormalBranch 1 [Unit, u]) \<and>
    build_signed ref_mlir sample_registry (sg_of [11, 6, 6] []) (SintOperation OverflowingAdd) [IV 64 0, IV 8 100, IV 8 100] =
      Some (Branch 2 [IV 64 k, y]) \<and> represents u y"
proof -
  have op: "operand Sint8T 8 100 (I8 100) (IV 8 100)"
    by (simp add: operand_def encode_at_def to_signed_def bits_of_def)
  show ?thesis
    by (rule signed_overflow_branches [OF ref_mlir_ok _ sample_int_types(6) _ op op])
      (simp_all add: fits_unsigned_def exact_op_def)
qed

end
