(* ===== verification/CgCast.thy ===== *)
theory CgCast
  imports IrTypes Felt
begin

text \<open>
  \<open>src/libfuncs/cast.rs\<close>: the code generated for \<open>downcast\<close> and \<open>upcast\<close>. A compact integer is
  its distance from the lower bound of its range, a machine integer its two's complement bits,
  a felt the residue; a cast goes through the natural representation of the number at a width
  that both ranges fit in.
\<close>

definition signed_to_felt252_repr :: "mlir \<Rightarrow> ir_val \<Rightarrow> ir_val option" where
  "signed_to_felt252_repr M x =
    do {
      x_ty \<leftarrow> int_type x;
      k0 \<leftarrow> const_int_from_type M 0 x_ty;
      is_negative \<leftarrow> cmpi M CmpSlt x k0;
      k_prime \<leftarrow> const_int_from_type M PRIME x_ty;
      adj_value \<leftarrow> binary M Addi x k_prime;
      select is_negative adj_value x }"

text \<open>The range a source is read in: a felt is signed when the target reaches below zero.\<close>

definition cast_src_range :: "registry \<Rightarrow> core_type \<Rightarrow> int_range_t \<Rightarrow> int_range_t option" where
  "cast_src_range R src_ty dst_range =
    do {
      src_is_felt \<leftarrow> ok (is_felt252 R src_ty);
      (if src_is_felt \<and> rng_lower dst_range < 0
       then Some (if rng_upper dst_range \<le> 0
         then \<lparr>rng_lower = - PRIME + 1, rng_upper = 1\<rparr>
         else \<lparr>rng_lower = - HALF_PRIME, rng_upper = HALF_PRIME + 1\<rparr>)
       else ok (native_integer_range R src_ty)) }"

text \<open>From the representation of the source to the number, at the width of the computation.\<close>

definition cast_natural ::
  "mlir \<Rightarrow> registry \<Rightarrow> core_type \<Rightarrow> int_range_t \<Rightarrow> nat \<Rightarrow> ir_val \<Rightarrow> ir_val option" where
  "cast_natural M R src_ty src_range compute_width src_value =
    do {
      let src_width = repr_bit_width src_range;
      let is_signed = rng_lower src_range < 0;
      src_is_bounded \<leftarrow> ok (is_bounded_int R src_ty);
      src_is_felt \<leftarrow> ok (is_felt252 R src_ty);
      src_value \<leftarrow>
        (if src_width < compute_width
         then if is_signed \<and> \<not> src_is_bounded \<and> \<not> src_is_felt
           then convert (ml_extsi M) src_value (IntTy compute_width)
           else convert (ml_extui M) src_value (IntTy compute_width)
         else Some src_value);
      src_value_ty \<leftarrow> int_type src_value;
      (if is_signed \<and> src_is_felt
       then do {
         adj_offset \<leftarrow> const_int_from_type M (if rng_upper src_range = 1 then 0 else HALF_PRIME) src_value_ty;
         is_negative \<leftarrow> cmpi M CmpUgt src_value adj_offset;
         k_prime \<leftarrow> const_int_from_type M PRIME src_value_ty;
         adj_value \<leftarrow> binary M Subi src_value k_prime;
         select is_negative adj_value src_value }
       else if src_is_bounded \<and> rng_lower src_range \<noteq> 0
       then do {
         dst_offset \<leftarrow> const_int_from_type M (rng_lower src_range) src_value_ty;
         binary M Addi src_value dst_offset }
       else Some src_value) }"

text \<open>
  The bounds that can fail; \<open>None\<close> for one that holds for the whole source range. \<open>from_full\<close> is
  what \<open>Range::is_full_felt252_range\<close> of \<open>cairo_lang_sierra\<close> says of the declared source range:
  it only decides how far the counter goes.
\<close>

definition lower_check ::
  "mlir \<Rightarrow> int_range_t \<Rightarrow> int_range_t \<Rightarrow> ir_val \<Rightarrow> ir_val option option" where
  "lower_check M to_range src_range src_value =
    (if rng_lower src_range < rng_lower to_range
     then do {
       src_value_ty \<leftarrow> int_type src_value;
       dst_lower \<leftarrow> const_int_from_type M (rng_lower to_range) src_value_ty;
       c \<leftarrow> cmpi M (if \<not> rng_lower src_range < 0 then CmpUge else CmpSge) src_value dst_lower;
       Some (Some c) }
     else Some None)"

definition upper_check ::
  "mlir \<Rightarrow> int_range_t \<Rightarrow> int_range_t \<Rightarrow> ir_val \<Rightarrow> ir_val option option" where
  "upper_check M to_range src_range src_value =
    (if rng_upper to_range < rng_upper src_range
     then do {
       src_value_ty \<leftarrow> int_type src_value;
       dst_upper \<leftarrow> const_int_from_type M (rng_upper to_range) src_value_ty;
       c \<leftarrow> cmpi M (if \<not> rng_lower src_range < 0 then CmpUlt else CmpSlt) src_value dst_upper;
       Some (Some c) }
     else Some None)"

definition bounds_check ::
  "mlir \<Rightarrow> bool \<Rightarrow> int_range_t \<Rightarrow> int_range_t \<Rightarrow> ir_val \<Rightarrow> ir_val \<Rightarrow> (ir_val \<times> ir_val) option" where
  "bounds_check M from_full to_range src_range src_value range_check =
    (if rng_lower to_range \<le> rng_lower src_range \<and> rng_upper src_range \<le> rng_upper to_range
     then do { k1 \<leftarrow> const_int M 1 1; Some (k1, range_check) }
     else do {
       lower \<leftarrow> lower_check M to_range src_range src_value;
       upper \<leftarrow> upper_check M to_range src_range src_value;
       is_in_bounds \<leftarrow>
         (case (lower, upper) of
           (Some l, Some u) \<Rightarrow> binary M Andi l u
         | (Some l, None) \<Rightarrow> Some l
         | (None, Some u) \<Rightarrow> Some u
         | (None, None) \<Rightarrow> None);
       range_check \<leftarrow>
         (if from_full
          then increment_builtin_counter_conditionally_by M range_check
            (if range_size to_range < 2 ^ 128 then 2 else 1) 3 is_in_bounds
          else (case (lower, upper) of
            (Some l, Some u) \<Rightarrow>
              do {
                is_in_range \<leftarrow> binary M Andi l u;
                increment_builtin_counter_conditionally_by M range_check 2 1 is_in_range }
          | (None, None) \<Rightarrow> Some range_check
          | _ \<Rightarrow> increment_builtin_counter_by M range_check 1));
       Some (is_in_bounds, range_check) })"

text \<open>From the number to the representation of the target.\<close>

definition cast_target ::
  "mlir \<Rightarrow> registry \<Rightarrow> core_type \<Rightarrow> int_range_t \<Rightarrow> int_range_t \<Rightarrow> nat \<Rightarrow> ir_val \<Rightarrow> ir_val option" where
  "cast_target M R dst_ty src_range dst_range compute_width src_value =
    do {
      let dst_width = repr_bit_width dst_range;
      dst_is_bounded \<leftarrow> ok (is_bounded_int R dst_ty);
      dst_value \<leftarrow>
        (if dst_is_bounded \<and> rng_lower dst_range \<noteq> 0
         then do {
           src_value_ty \<leftarrow> int_type src_value;
           dst_offset \<leftarrow> const_int_from_type M (rng_lower dst_range) src_value_ty;
           binary M Subi src_value dst_offset }
         else Some src_value);
      dst_is_felt \<leftarrow> ok (is_felt252 R dst_ty);
      dst_value \<leftarrow>
        (if dst_is_felt \<and> rng_lower src_range < 0 then signed_to_felt252_repr M dst_value else Some dst_value);
      (if dst_width < compute_width then convert (ml_trunci M) dst_value (IntTy dst_width) else Some dst_value) }"

definition build_downcast ::
  "mlir \<Rightarrow> registry \<Rightarrow> signature \<Rightarrow> bool \<Rightarrow> int_range_t \<Rightarrow> ir_val list \<Rightarrow> outcome option" where
  "build_downcast M R sg from_full to_range entry =
    do {
      range_check \<leftarrow> arg entry 0;
      src_value \<leftarrow> arg entry 1;
      src_id \<leftarrow> param_ty sg 1;
      src_ty \<leftarrow> get_type R src_id;
      dst_id \<leftarrow> branch_ty sg 0 1;
      dst_ty \<leftarrow> get_type R dst_id;
      dst_range \<leftarrow> ok (native_integer_range R dst_ty);
      src_range \<leftarrow> cast_src_range R src_ty dst_range;
      (if src_id = dst_id
       then do {
         range_check \<leftarrow>
           (if rng_lower src_range = 0 then increment_builtin_counter M range_check else Some range_check);
         k1 \<leftarrow> const_int M 1 1;
         cond_br k1 (0, 1) ([range_check, src_value], [range_check]) }
       else do {
         let compute_width = max (zero_based_bit_width src_range) (zero_based_bit_width dst_range);
         src_value \<leftarrow> cast_natural M R src_ty src_range compute_width src_value;
         (is_in_bounds, range_check) \<leftarrow>
           bounds_check M from_full to_range src_range src_value range_check;
         dst_value \<leftarrow> cast_target M R dst_ty src_range dst_range compute_width src_value;
         cond_br is_in_bounds (0, 1) ([range_check, dst_value], [range_check]) }) }"

definition range_within :: "int_range_t \<Rightarrow> int_range_t \<Rightarrow> bool" where
  "range_within r s \<longleftrightarrow> rng_lower s \<le> rng_lower r \<and> rng_upper r \<le> rng_upper s"

definition build_upcast :: "mlir \<Rightarrow> registry \<Rightarrow> signature \<Rightarrow> ir_val list \<Rightarrow> outcome option" where
  "build_upcast M R sg entry =
    do {
      src_value \<leftarrow> arg entry 0;
      src_id \<leftarrow> param_ty sg 0;
      dst_id \<leftarrow> branch_ty sg 0 0;
      (if src_id = dst_id then br 0 [src_value]
       else do {
         src_ty \<leftarrow> get_type R src_id;
         dst_ty \<leftarrow> get_type R dst_id;
         src_range \<leftarrow> ok (native_integer_range R src_ty);
         dst_range \<leftarrow> ok (native_integer_range R dst_ty);
         dst_is_felt \<leftarrow> ok (is_felt252 R dst_ty);
         let dst_contains_src = range_within src_range dst_range \<or>
           dst_is_felt \<and> range_within src_range \<lparr>rng_lower = - HALF_PRIME, rng_upper = HALF_PRIME + 1\<rparr>;
         (if dst_contains_src then Some () else None);
         let src_width = repr_bit_width src_range;
         let dst_width = repr_bit_width dst_range;
         src_is_bounded \<leftarrow> ok (is_bounded_int R src_ty);
         dst_is_bounded \<leftarrow> ok (is_bounded_int R dst_ty);
         dst_value \<leftarrow>
           (if src_width < dst_width
            then if src_is_bounded then convert (ml_extui M) src_value (IntTy dst_width)
              else if rng_lower src_range < 0 then convert (ml_extsi M) src_value (IntTy dst_width)
              else convert (ml_extui M) src_value (IntTy dst_width)
            else Some src_value);
         let offset =
           (if src_is_bounded \<and> dst_is_bounded then rng_lower src_range - rng_lower dst_range
            else if src_is_bounded then rng_lower src_range
            else if dst_is_bounded then - rng_lower dst_range
            else 0);
         dst_value_ty \<leftarrow> int_type dst_value;
         offset_value \<leftarrow> const_int_from_type M offset dst_value_ty;
         dst_value \<leftarrow> binary M Addi dst_value offset_value;
         dst_value \<leftarrow>
           (if dst_is_felt \<and> rng_lower src_range < 0 then signed_to_felt252_repr M dst_value else Some dst_value);
         br 0 [dst_value] }) }"

end
