(* ===== verification/Numbers.thy ===== *)
theory Numbers
  imports Simulation BoundedIntOps
begin

text \<open>
  Numbers of the integer types in the interpreter and in compiled code: the widths of a range,
  the representation of a number at a type, and what widening and shifting it gives.
\<close>

section \<open>Widths of ranges\<close>

definition range_ok :: "int_range_t \<Rightarrow> bool" where
  "range_ok r \<longleftrightarrow> rng_lower r < rng_upper r \<and> - (2 ^ 256) \<le> rng_lower r \<and> rng_upper r \<le> 2 ^ 256"

definition natural_at :: "int_range_t \<Rightarrow> nat \<Rightarrow> int \<Rightarrow> bool" where
  "natural_at r C i \<longleftrightarrow> (if rng_lower r < 0 then fits_signed C i else fits_unsigned C i)"

lemma zero_based_pos [simp]: "0 < zero_based_bit_width r"
  by (simp add: zero_based_bit_width_def Let_def)

lemma fits_signed_mono: "fits_signed n i \<Longrightarrow> n \<le> m \<Longrightarrow> fits_signed m i"
proof -
  assume "fits_signed n i" "n \<le> m"
  moreover have "(2 :: int) ^ (n - 1) \<le> 2 ^ (m - 1)" using \<open>n \<le> m\<close> by (intro power_increasing) auto
  ultimately show ?thesis unfolding fits_signed_def by linarith
qed

lemma fits_unsigned_mono: "fits_unsigned n i \<Longrightarrow> n \<le> m \<Longrightarrow> fits_unsigned m i"
  using power_increasing [of n m "2 :: int"] unfolding fits_unsigned_def by (meson less_le_trans one_le_numeral)

lemma range_natural:
  assumes "range_ok r" "zero_based_bit_width r \<le> C" "in_range r i"
  shows "natural_at r C i"
  using zero_based_width_fits [of r i] assms fits_signed_mono [of "zero_based_bit_width r" i C]
    fits_unsigned_mono [of "zero_based_bit_width r" i C]
  by (auto simp: range_ok_def in_range_def natural_at_def fits_signed_def fits_unsigned_def split: if_splits)

lemma fits_unsigned_zero [simp]: "fits_unsigned w 0"
  by (simp add: fits_unsigned_def)

lemma natural_fits: "natural_at r C i \<Longrightarrow> fits_unsigned C i \<or> fits_signed C i"
  by (simp add: natural_at_def split: if_splits)

lemma size_width: "range_ok r \<Longrightarrow> in_range r i \<Longrightarrow> fits_unsigned (repr_bit_width r) (i - rng_lower r)"
proof -
  assume ok: "range_ok r" "in_range r i"
  have "big_bits (range_size r - 1) \<le> 257"
    using ok by (intro big_bits_le) (simp add: range_ok_def range_size_def abs_if)
  then have "big_bits (range_size r - 1) \<le> repr_bit_width r" by (simp add: repr_bit_width_def)
  then have "(2 :: int) ^ big_bits (range_size r - 1) \<le> 2 ^ repr_bit_width r" by (intro power_increasing) auto
  moreover have "range_size r - 1 < 2 ^ big_bits (range_size r - 1)"
    using ok by (intro big_bits_less) (simp add: range_ok_def range_size_def)
  ultimately show ?thesis using ok(2) unfolding fits_unsigned_def in_range_def range_size_def by linarith
qed

lemma repr_le_zero_based:
  assumes "range_ok r"
  shows "repr_bit_width r \<le> zero_based_bit_width r"
proof -
  let ?z = "zero_based_bit_width r"
  have lo: "natural_at r ?z (rng_lower r)" and hi: "natural_at r ?z (rng_upper r - 1)"
    using assms by (auto intro!: range_natural simp: range_ok_def in_range_def)
  have two: "(2 :: int) ^ ?z = 2 * 2 ^ (?z - 1)" using zero_based_pos [of r] by (cases ?z) simp_all
  have "\<bar>range_size r - 1\<bar> < 2 ^ ?z"
    using lo hi assms two
    by (auto simp: natural_at_def fits_signed_def fits_unsigned_def range_size_def range_ok_def split: if_splits)
  then have "big_bits (range_size r - 1) \<le> ?z" by (rule big_bits_le)
  then have "big_bits (range_size r - 1) mod 2 ^ 32 \<le> ?z" using mod_less_eq_dividend le_trans by blast
  moreover have "1 \<le> ?z" using zero_based_pos [of r] by linarith
  ultimately show ?thesis unfolding repr_bit_width_def by (rule max.boundedI)
qed

lemma machine_width:
  assumes "int_bounds ty = Some (lo, w)"
  shows "repr_bit_width \<lparr>rng_lower = lo, rng_upper = lo + 2 ^ w\<rparr> = w" "range_ok \<lparr>rng_lower = lo, rng_upper = lo + 2 ^ w\<rparr>"
    "0 < w" "lo = 0 \<or> lo = - (2 ^ (w - 1))"
proof -
  have bits: "big_bits (2 ^ w - 1) = w" if "0 < w" "w < 2 ^ 32" for w
  proof (rule antisym)
    show "big_bits (2 ^ w - 1) \<le> w" by (rule big_bits_le) simp
    have "(2 :: int) ^ w - 1 < 2 ^ big_bits (2 ^ w - 1)" by (rule big_bits_less) simp
    then have "(2 :: int) ^ w \<le> 2 ^ big_bits (2 ^ w - 1)" by linarith
    then show "w \<le> big_bits (2 ^ w - 1)" by (rule power_le_imp_le_exp [rotated]) simp
  qed
  show "repr_bit_width \<lparr>rng_lower = lo, rng_upper = lo + 2 ^ w\<rparr> = w"
  proof -
    have "0 < w" "w < 2 ^ 32" using assms by (cases rule: int_bounds_cases, simp_all)+
    with bits [OF this] show ?thesis by (simp add: repr_bit_width_def range_size_def)
  qed
  show "range_ok \<lparr>rng_lower = lo, rng_upper = lo + 2 ^ w\<rparr>" "0 < w" "lo = 0 \<or> lo = - (2 ^ (w - 1))"
    using assms by (cases rule: int_bounds_cases, simp_all add: range_ok_def)+
qed

section \<open>Numbers and their representations\<close>

text \<open>
  \<open>number ty r a v x\<close>: the number \<open>a\<close> at a type \<open>ty\<close> of range \<open>r\<close>, as a value of the interpreter
  and of compiled code.
\<close>

inductive number :: "core_type \<Rightarrow> int_range_t \<Rightarrow> int \<Rightarrow> val \<Rightarrow> ir_val \<Rightarrow> bool" where
  machine_number: "int_bounds ty = Some (lo, w) \<Longrightarrow> encode_at ty a = Some v \<Longrightarrow>
    number ty \<lparr>rng_lower = lo, rng_upper = lo + 2 ^ w\<rparr> a v (IV w (bits_of w a))"
| bounded_number: "in_range r a \<Longrightarrow> range_ok r \<Longrightarrow>
    number (BoundedIntT r) r a (BoundedInt r a) (IV (repr_bit_width r) (a - rng_lower r))"
| felt_number: "0 \<le> a \<Longrightarrow> a < PRIME \<Longrightarrow>
    number Felt252T \<lparr>rng_lower = 0, rng_upper = PRIME\<rparr> a (Felt (felt_of_int a)) (IV 252 a)"

text \<open>A declared type of numbers.\<close>

definition num_type :: "registry \<Rightarrow> type_id \<Rightarrow> core_type \<Rightarrow> int_range_t \<Rightarrow> bool" where
  "num_type R t ty r \<longleftrightarrow>
    get_type R t = Some ty \<and> 0 < rec_limit R \<and> range_ok r \<and>
    ((\<exists>lo w. int_bounds ty = Some (lo, w) \<and> r = \<lparr>rng_lower = lo, rng_upper = lo + 2 ^ w\<rparr>) \<or>
     ty = BoundedIntT r \<or> ty = Felt252T \<and> r = \<lparr>rng_lower = 0, rng_upper = PRIME\<rparr>)"

definition bounded_ty :: "core_type \<Rightarrow> bool" where
  "bounded_ty ty \<longleftrightarrow> (\<exists>r. ty = BoundedIntT r)"

lemma int_bounds_of_felt [simp]: "int_bounds Felt252T = None"
  by (simp add: int_bounds_def)

lemma num_type_code:
  assumes "num_type R t ty r"
  shows "get_type R t = Some ty" "native_integer_range R ty = Ok r" "is_bounded_int R ty = Ok (bounded_ty ty)"
    "is_felt252 R ty = Ok (ty = Felt252T)" "range_ok r"
proof -
  obtain n where n: "rec_limit R = Suc n" using assms by (auto simp: num_type_def gr0_conv_Suc)
  show "get_type R t = Some ty" "range_ok r" using assms by (simp_all add: num_type_def)
  have "(\<exists>lo w. int_bounds ty = Some (lo, w) \<and> r = \<lparr>rng_lower = lo, rng_upper = lo + 2 ^ w\<rparr>) \<or>
     ty = BoundedIntT r \<or> ty = Felt252T \<and> r = \<lparr>rng_lower = 0, rng_upper = PRIME\<rparr>"
    using assms by (simp add: num_type_def)
  then show "native_integer_range R ty = Ok r" "is_bounded_int R ty = Ok (bounded_ty ty)"
    "is_felt252 R ty = Ok (ty = Felt252T)"
    by (auto simp: native_integer_range_def is_bounded_int_def is_felt252_def n bounded_ty_def
      native_range_unsigned_def native_range_signed_def elim!: int_bounds_cases)
qed

lemma number_in_range: "number ty r a v x \<Longrightarrow> in_range r a"
  by (induction rule: number.induct) (auto simp: in_range_def dest: encode_at_range)

lemma number_reads: "number ty r a v x \<Longrightarrow> get_numeric_args_as_bigints [v] = Some [a]"
proof (induction rule: number.induct)
  case (machine_number ty lo w a v)
  then show ?case using encode_at_reads by simp
next
  case (felt_number a)
  then show ?case by (simp add: numeric_arg_def)
qed (simp add: numeric_arg_def)

text \<open>What the interpreter builds from a number of the range is the number at the type.\<close>

lemma get_value_number:
  assumes "num_type R t ty r" "in_range r a"
  obtains v x where "get_value_from_integer R t a = Some v" "number ty r a v x"
proof -
  obtain n where n: "rec_limit R = Suc n" using assms by (auto simp: num_type_def gr0_conv_Suc)
  from assms(1) consider (m) lo w where "int_bounds ty = Some (lo, w)" "r = \<lparr>rng_lower = lo, rng_upper = lo + 2 ^ w\<rparr>"
    | (b) "ty = BoundedIntT r" | (f) "ty = Felt252T" "r = \<lparr>rng_lower = 0, rng_upper = PRIME\<rparr>"
    by (auto simp: num_type_def)
  then show thesis
  proof cases
    case m
    then obtain v where v: "encode_at ty a = Some v"
      using encode_at_total [of ty lo w a] assms(2) by (auto simp: in_range_def)
    have "int_type_at R t ty lo w" using assms(1) m by (simp add: num_type_def int_type_at_def)
    then have "get_value_from_integer R t a = Some v" using v by (simp add: get_value_at)
    with machine_number [OF m(1) v] m(2) that show thesis by blast
  next
    case b
    then have "get_value_from_integer R t a = Some (BoundedInt r a)"
      using assms(1) by (simp add: num_type_def get_value_from_integer_def n)
    moreover have "range_ok r" using assms(1) by (simp add: num_type_def)
    ultimately show thesis using that bounded_number [OF assms(2)] b by blast
  next
    case f
    then show thesis using that [of "Felt (felt_of_int a)"] felt_number [of a] assms
      by (simp add: num_type_def get_value_from_integer_def n in_range_def)
  qed
qed

text \<open>The compiled representation of a number, as bits at the width of the type.\<close>

definition offset :: "core_type \<Rightarrow> int_range_t \<Rightarrow> int" where
  "offset ty r = (if bounded_ty ty then rng_lower r else 0)"

lemma felt_width: "repr_bit_width \<lparr>rng_lower = 0, rng_upper = PRIME\<rparr> = 252"
proof -
  have "big_bits (PRIME - 1) \<le> 252" by (rule big_bits_le) (simp add: PRIME_def)
  moreover have "PRIME - 1 < 2 ^ big_bits (PRIME - 1)" by (rule big_bits_less) (simp add: PRIME_def)
  then have "(2 :: int) ^ 251 < 2 ^ big_bits (PRIME - 1)" by (rule less_trans [rotated]) (simp add: PRIME_def)
  then have "251 < big_bits (PRIME - 1)" by (rule power_less_imp_less_exp [rotated]) simp
  ultimately have "big_bits (PRIME - 1) = 252" by linarith
  then show ?thesis by (simp add: repr_bit_width_def range_size_def)
qed

lemma number_rep:
  assumes "number ty r a v x"
  shows "x = IV (repr_bit_width r) (bits_of (repr_bit_width r) (a - offset ty r))" "represents v x"
proof -
  show "x = IV (repr_bit_width r) (bits_of (repr_bit_width r) (a - offset ty r))"
    using assms
  proof cases
    case (machine_number lo w)
    then show ?thesis using machine_width(1) [OF machine_number(3)]
      by (auto simp: offset_def bounded_ty_def elim: int_bounds_cases)
  next
    case bounded_number
    then show ?thesis using bits_fits [OF size_width] by (simp add: offset_def bounded_ty_def)
  next
    case felt_number
    moreover from this have "fits_unsigned 252 a" by (simp add: fits_unsigned_def PRIME_def)
    ultimately show ?thesis by (simp add: felt_width offset_def bounded_ty_def bits_fits)
  qed
  show "represents v x" using assms
  proof cases
    case (machine_number lo w)
    then show ?thesis using represents_encode by blast
  next
    case felt_number
    then show ?thesis by (simp add: felt_int_of_int)
  qed simp
qed

section \<open>Widening\<close>

lemma bits_of_add: "bits_of w (bits_of w a + b) = bits_of w (a + b)" "bits_of w (a + bits_of w b) = bits_of w (a + b)"
  and bits_of_diff: "bits_of w (bits_of w a - b) = bits_of w (a - b)" "bits_of w (a - bits_of w b) = bits_of w (a - b)"
  by (simp_all add: bits_of_def mod_simps)

lemma bits_of_wider [simp]: "v \<le> w \<Longrightarrow> bits_of v (bits_of w a) = bits_of v a"
  by (simp add: bits_of_def mod_mod_cancel le_imp_power_dvd)

text \<open>Widening a two's complement number, and one without a sign.\<close>

lemma extend_signed:
  "mlir_ok M \<Longrightarrow> 0 < w \<Longrightarrow> fits_signed w a \<Longrightarrow> w < C \<Longrightarrow>
    convert (ml_extsi M) (IV w (bits_of w a)) (IntTy C) = Some (IV C (bits_of C a))"
  by (simp add: emitted fits_signed_def signed_of_bits)

lemma repr_width_mono:
  assumes "range_ok r" "range_ok s" "range_size r \<le> range_size s"
  shows "repr_bit_width r \<le> repr_bit_width s"
proof -
  have nonneg: "0 \<le> range_size r - 1" "0 \<le> range_size s - 1" and small: "\<bar>range_size s - 1\<bar> < 2 ^ 257"
    using assms by (simp_all add: range_ok_def range_size_def abs_if)
  have "big_bits (range_size r - 1) \<le> big_bits (range_size s - 1)"
    using assms(3) nonneg big_bits_less [OF nonneg(2)] by (intro big_bits_le) simp
  moreover have "big_bits (range_size s - 1) \<le> 257" using small by (rule big_bits_le)
  ultimately show ?thesis by (simp add: repr_bit_width_def)
qed

text \<open>Widening the representation, without its offset.\<close>

lemma number_extend:
  assumes "mlir_ok M" "number ty S a v x" "ty \<noteq> Felt252T" "repr_bit_width S \<le> W"
  shows "(if repr_bit_width S < W
    then if bounded_ty ty then convert (ml_extui M) x (IntTy W)
      else if rng_lower S < 0 then convert (ml_extsi M) x (IntTy W)
      else convert (ml_extui M) x (IntTy W)
    else Some x) = Some (IV W (bits_of W (a - offset ty S)))"
  using assms(2)
proof cases
  case (machine_number lo w)
  note mw = machine_width [OF machine_number(3)]
  have nb: "\<not> bounded_ty ty" using machine_number(3) by (auto simp: bounded_ty_def elim: int_bounds_cases)
  have range: "lo \<le> a" "a < lo + 2 ^ w" using encode_at_range [OF machine_number(3,4)] by simp_all
  have "w \<le> W" using assms(4) mw(1) machine_number(1) by simp
  show ?thesis
  proof (cases "lo < 0")
    case True
    then have "fits_signed w a" using mw(3,4) range by (cases w) (auto simp: fits_signed_def)
    then show ?thesis using extend_signed [OF assms(1) mw(3), of a W] nb True mw(1) \<open>w \<le> W\<close> machine_number
      by (auto simp: offset_def)
  next
    case False
    then have "fits_unsigned w a" using mw(4) range by (auto simp: fits_unsigned_def)
    then have "bits_of w a = a" "bits_of W a = a" using fits_unsigned_mono \<open>w \<le> W\<close> bits_fits by blast+
    then show ?thesis using nb False mw(1,3) \<open>w \<le> W\<close> machine_number \<open>fits_unsigned w a\<close> assms(1)
      by (auto simp: offset_def emitted)
  qed
next
  case bounded_number
  note fits = size_width [OF bounded_number(5,4)]
  then show ?thesis using bounded_number assms(1,4) bits_fits [OF fits_unsigned_mono [OF fits assms(4)]]
    by (auto simp: offset_def bounded_ty_def emitted)
qed (use assms(3) in simp)

end
