(* ===== verification/CastCompiled.thy ===== *)
theory CastCompiled
  imports CgCast Numbers
begin

text \<open>
  The code generated for casts agrees with the interpreter whenever the source and the target
  range meet; where they do not, it may accept numbers it must refuse. A felt cast to a range
  that reaches below zero is read as a signed number.
\<close>

section \<open>The steps of a cast\<close>

lemma cast_natural_unsigned_felt:
  assumes "mlir_ok M" "num_type R t ty r" "number ty r a v x" "zero_based_bit_width r \<le> C"
  shows "cast_natural M R ty r C x = Some (IV C (bits_of C a))"
proof -
  note code = num_type_code [OF assms(2)]
  have W: "repr_bit_width r \<le> C" using repr_le_zero_based [OF code(5)] assms(4) by simp
  have in_r: "in_range r a" by (rule number_in_range [OF assms(3)])
  note nat = range_natural [OF code(5) assms(4) in_r]
  have C: "0 < C" using zero_based_pos [of r] assms(4) by linarith
  show ?thesis using assms(3)
  proof cases
    case (machine_number lo w)
    note mw = machine_width [OF machine_number(3)]
    have w: "repr_bit_width r = w" using mw(1) machine_number(1) by simp
    have lo: "rng_lower r = lo" using machine_number(1) by simp
    have nb: "\<not> bounded_ty ty" "ty \<noteq> Felt252T"
      using machine_number(3) by (auto simp: bounded_ty_def elim: int_bounds_cases)
    have range: "lo \<le> a" "a < lo + 2 ^ w" using in_r machine_number(1) by (simp_all add: in_range_def)
    show ?thesis
    proof (cases "lo < 0")
      case True
      then have "fits_signed w a" using mw(3,4) range by (cases w) (auto simp: fits_signed_def)
      then show ?thesis using extend_signed [OF assms(1) mw(3), of a C] True nb W w lo code machine_number(2)
        by (auto simp: cast_natural_def emitted)
    next
      case False
      then have "fits_unsigned w a" "lo = 0" using mw(4) range by (auto simp: fits_unsigned_def)
      moreover from this have "bits_of w a = a" "bits_of C a = a"
        using fits_unsigned_mono [of w a C] W w bits_fits by auto
      ultimately show ?thesis using nb W w lo code machine_number(2) mw(3) assms(1)
        by (auto simp: cast_natural_def emitted)
    qed
  next
    case bounded_number
    have fits: "fits_unsigned (repr_bit_width r) (a - rng_lower r)" by (rule size_width [OF code(5) in_r])
    have fitsC: "fits_unsigned C (a - rng_lower r)" using fits W by (rule fits_unsigned_mono)
    have "natural_at r C (rng_lower r)"
      using code(5) by (intro range_natural [OF code(5) assms(4)]) (simp add: in_range_def range_ok_def)
    note lo = natural_fits [OF this]
    have b: "bounded_ty ty" using bounded_number by (simp add: bounded_ty_def)
    show ?thesis using fits fitsC lo b bounded_number code W C assms(1)
      by (auto simp: cast_natural_def emitted bits_of_add bits_fits repr_bit_width_le)
  next
    case felt_number
    then have "\<not> bounded_ty ty" by (simp add: bounded_ty_def)
    moreover have "fits_unsigned 252 a" using felt_number by (simp add: fits_unsigned_def PRIME_def)
    moreover have "252 \<le> C" using W felt_number felt_width by simp
    ultimately show ?thesis using felt_number code W assms(1) fits_unsigned_mono [of 252 a C]
      by (auto simp: cast_natural_def emitted felt_width bits_fits)
  qed
qed

text \<open>Comparing naturals: signed when the range has negative numbers.\<close>

lemma natural_compare:
  assumes "natural_at r C i" "natural_at r C j" "0 < C"
  shows "cmpi_spec (if \<not> rng_lower r < 0 then CmpUge else CmpSge) C (bits_of C i) (bits_of C j) \<longleftrightarrow> j \<le> i"
    "cmpi_spec (if \<not> rng_lower r < 0 then CmpUlt else CmpSlt) C (bits_of C i) (bits_of C j) \<longleftrightarrow> i < j"
proof -
  have "signed_of C (bits_of C k) = k" if "fits_signed C k" for k
    using that assms(3) by (simp add: fits_signed_def signed_of_bits)
  moreover have "bits_of C k = k" if "fits_unsigned C k" for k using that by (rule bits_fits)
  ultimately show "cmpi_spec (if \<not> rng_lower r < 0 then CmpUge else CmpSge) C (bits_of C i) (bits_of C j) \<longleftrightarrow> j \<le> i"
    "cmpi_spec (if \<not> rng_lower r < 0 then CmpUlt else CmpSlt) C (bits_of C i) (bits_of C j) \<longleftrightarrow> i < j"
    using assms by (auto simp: natural_at_def split: if_splits)
qed

definition ranges_meet :: "int_range_t \<Rightarrow> int_range_t \<Rightarrow> bool" where
  "ranges_meet r s \<longleftrightarrow> rng_lower r < rng_upper s \<and> rng_lower s < rng_upper r"

lemma lower_check_eval:
  assumes "mlir_ok M" "range_ok S" "zero_based_bit_width S \<le> C" "in_range S a" "ranges_meet S T"
  shows "lower_check M T S (IV C (bits_of C a)) =
    Some (if rng_lower S < rng_lower T then Some (bit_val (rng_lower T \<le> a)) else None)"
proof (cases "rng_lower S < rng_lower T")
  case True
  then have "in_range S (rng_lower T)" using assms(5) by (simp add: in_range_def ranges_meet_def)
  note n = range_natural [OF assms(2,3,4)] range_natural [OF assms(2,3) this]
  moreover have "0 < C" using zero_based_pos [of S] assms(3) by linarith
  ultimately show ?thesis using True assms(1) natural_fits [OF n(2)] natural_compare [OF n]
    by (simp add: lower_check_def emitted del: cmpi_spec.simps)
qed (simp add: lower_check_def)

lemma upper_check_eval:
  assumes "mlir_ok M" "range_ok S" "zero_based_bit_width S \<le> C" "in_range S a" "ranges_meet S T"
  shows "upper_check M T S (IV C (bits_of C a)) =
    Some (if rng_upper T < rng_upper S then Some (bit_val (a < rng_upper T)) else None)"
proof (cases "rng_upper T < rng_upper S")
  case True
  then have "in_range S (rng_upper T)" using assms(5) by (simp add: in_range_def ranges_meet_def)
  note n = range_natural [OF assms(2,3,4)] range_natural [OF assms(2,3) this]
  moreover have "0 < C" using zero_based_pos [of S] assms(3) by linarith
  ultimately show ?thesis using True assms(1) natural_fits [OF n(2)] natural_compare [OF n]
    by (simp add: upper_check_def emitted del: cmpi_spec.simps)
qed (simp add: upper_check_def)

lemma bounds_check_eval:
  assumes "mlir_ok M" "range_ok S" "zero_based_bit_width S \<le> C" "in_range S a" "ranges_meet S T" "fits_unsigned 64 n"
  obtains k where "bounds_check M full T S (IV C (bits_of C a)) (IV 64 n) = Some (bit_val (in_range T a), IV 64 k)"
proof -
  note checks = lower_check_eval [OF assms(1-5)] upper_check_eval [OF assms(1-5)]
  have one: "const_int M 1 1 = Some (bit_val True)"
    using assms(1) by (simp add: emitted fits_unsigned_def bit_val_def bits_of_def)
  have fits: "fits_unsigned 64 k" if "k \<in> {1, 2, 3}" for k using that by (auto simp: fits_unsigned_def)
  have a: "rng_lower S \<le> a" "a < rng_upper S" using assms(4) by (simp_all add: in_range_def)
  have "\<exists>k. bounds_check M full T S (IV C (bits_of C a)) (IV 64 n) = Some (bit_val (in_range T a), IV 64 k)"
    using a assms(1,6) one fits
    by (cases "rng_lower S < rng_lower T"; cases "rng_upper T < rng_upper S"; cases full)
      (auto simp: bounds_check_def checks emitted in_range_def)
  with that show thesis by blast
qed

lemma cast_target_eval:
  assumes "mlir_ok M" "num_type R t ty T" "ty \<noteq> Felt252T" "zero_based_bit_width T \<le> C"
  shows "cast_target M R ty S T C (IV C (bits_of C a)) =
    Some (IV (repr_bit_width T) (bits_of (repr_bit_width T) (a - offset ty T)))"
proof -
  note code = num_type_code [OF assms(2)]
  have W: "repr_bit_width T \<le> C" using repr_le_zero_based [OF code(5)] assms(4) by simp
  have C: "0 < C" using zero_based_pos [of T] assms(4) by linarith
  have "natural_at T C (rng_lower T)"
    using code(5) by (intro range_natural [OF code(5) assms(4)]) (simp add: in_range_def range_ok_def)
  note lo = natural_fits [OF this]
  have "binary M Subi (IV C (bits_of C a)) (IV C (bits_of C (rng_lower T))) = Some (IV C (bits_of C (a - rng_lower T)))"
    using assms(1) by (simp add: emitted bits_of_diff)
  moreover have "const_int M (rng_lower T) C = Some (IV C (bits_of C (rng_lower T)))"
    using assms(1) C lo by (simp add: emitted)
  ultimately show ?thesis using code W assms(1,3) C
    by (auto simp: cast_target_def emitted offset_def Let_def)
qed

section \<open>Downcasts\<close>

text \<open>
  The end of a downcast, from the natural representation of the number on: it leaves by branch 0
  with the number at the target type when the target range has it, by branch 1 otherwise.
\<close>

definition cast_rest ::
  "mlir \<Rightarrow> registry \<Rightarrow> bool \<Rightarrow> int_range_t \<Rightarrow> int_range_t \<Rightarrow> core_type \<Rightarrow> nat \<Rightarrow> ir_val \<Rightarrow> ir_val \<Rightarrow> outcome option" where
  "cast_rest M R full T S ty C src_value range_check =
    do {
      (is_in_bounds, range_check) \<leftarrow> bounds_check M full T S src_value range_check;
      dst_value \<leftarrow> cast_target M R ty S T C src_value;
      cond_br is_in_bounds (0, 1) ([range_check, dst_value], [range_check]) }"

lemma cast_rest_eval:
  assumes "mlir_ok M" "range_ok S" "num_type R t ty T" "ty \<noteq> Felt252T" "in_range S a" "ranges_meet S T"
    and "C = max (zero_based_bit_width S) (zero_based_bit_width T)" "fits_unsigned 64 n"
  obtains k where "cast_rest M R full T S ty C (IV C (bits_of C a)) (IV 64 n) =
    Some (if in_range T a
      then Branch 0 [IV 64 k, IV (repr_bit_width T) (bits_of (repr_bit_width T) (a - offset ty T))]
      else Branch 1 [IV 64 k])"
proof -
  have S: "zero_based_bit_width S \<le> C" and T: "zero_based_bit_width T \<le> C" using assms(7) by simp_all
  obtain k where "bounds_check M full T S (IV C (bits_of C a)) (IV 64 n) = Some (bit_val (in_range T a), IV 64 k)"
    by (rule bounds_check_eval [OF assms(1,2) S assms(5,6,8)])
  with cast_target_eval [OF assms(1,3,4) T, of S a] that show thesis
    by (simp add: cast_rest_def emitted)
qed

lemma downcast_outcome:
  assumes "num_type R t ty T" "in_range S a"
  shows "\<exists>o'. (if in_range T a
      then do { v \<leftarrow> get_value_from_integer R t a; Some (NormalBranch 0 [Unit, v]) }
      else Some (NormalBranch 1 [Unit])) = Some o' \<and>
    agrees (Some o') (Some (if in_range T a
      then Branch 0 [IV 64 k, IV (repr_bit_width T) (bits_of (repr_bit_width T) (a - offset ty T))]
      else Branch 1 [IV 64 k]))"
proof (cases "in_range T a")
  case True
  obtain v x where v: "get_value_from_integer R t a = Some v" "number ty T a v x"
    by (rule get_value_number [OF assms(1) True])
  with number_rep [OF v(2)] True show ?thesis by simp
qed (use assms in auto)


section \<open>Upcasts\<close>

definition signed_felt_range :: int_range_t where
  "signed_felt_range = \<lparr>rng_lower = - HALF_PRIME, rng_upper = HALF_PRIME + 1\<rparr>"

text \<open>The target has every number of the source; a felt stands for negative numbers too.\<close>

definition upcast_fits :: "core_type \<Rightarrow> int_range_t \<Rightarrow> int_range_t \<Rightarrow> bool" where
  "upcast_fits ty S T \<longleftrightarrow> range_within S T \<or> ty = Felt252T \<and> range_within S signed_felt_range"

lemma half_prime_fits: "range_within S signed_felt_range \<Longrightarrow> in_range S a \<Longrightarrow> fits_signed 252 a"
  by (auto simp: range_within_def signed_felt_range_def in_range_def fits_signed_def HALF_PRIME_def)

lemma upcast_width:
  assumes "num_type R t ty T" "range_ok S" "upcast_fits ty S T"
  shows "repr_bit_width S \<le> repr_bit_width T"
proof (rule repr_width_mono)
  show "range_ok S" "range_ok T" using assms num_type_code(5) by auto
  from assms(1) have "ty = Felt252T \<Longrightarrow> T = \<lparr>rng_lower = 0, rng_upper = PRIME\<rparr>"
    by (auto simp: num_type_def elim: int_bounds_cases)
  then show "range_size S \<le> range_size T"
    using assms(3) by (auto simp: upcast_fits_def range_within_def range_size_def signed_felt_range_def
      HALF_PRIME_def PRIME_def)
qed

lemma upcast_offset_fits:
  assumes S: "num_type R s sty S" and T: "num_type R t ty T" and "sty \<noteq> Felt252T" "upcast_fits ty S T"
  shows "fits_unsigned (repr_bit_width T) (offset sty S - offset ty T) \<or>
    fits_signed (repr_bit_width T) (offset sty S - offset ty T)"
proof -
  note src = num_type_code [OF S] and dst = num_type_code [OF T]
  have zero: "fits_unsigned w 0" for w by (simp add: fits_unsigned_def)
  have zero_in: "in_range S 0" if nb: "\<not> bounded_ty sty"
  proof -
    obtain lo w where "int_bounds sty = Some (lo, w)" "S = \<lparr>rng_lower = lo, rng_upper = lo + 2 ^ w\<rparr>"
      using S assms(3) nb by (auto simp: num_type_def bounded_ty_def)
    then show ?thesis using machine_width(3,4) [of sty lo w] by (cases w) (auto simp: in_range_def)
  qed
  have lower_in: "in_range S (rng_lower S)" using src(5) by (simp add: in_range_def range_ok_def)
  show ?thesis
  proof (cases "bounded_ty ty")
    case True
    then have "range_within S T" using assms(4) by (auto simp: upcast_fits_def bounded_ty_def)
    then have "in_range T i" if "in_range S i" for i using that by (auto simp: range_within_def in_range_def)
    with size_width [OF dst(5)] zero_in lower_in True show ?thesis by (auto simp: offset_def)
  next
    case False
    show ?thesis
    proof (cases "bounded_ty sty")
      case bs: True
      from False T consider (m) lo w where "int_bounds ty = Some (lo, w)" "T = \<lparr>rng_lower = lo, rng_upper = lo + 2 ^ w\<rparr>"
        | (f) "ty = Felt252T" "T = \<lparr>rng_lower = 0, rng_upper = PRIME\<rparr>"
        by (auto simp: num_type_def bounded_ty_def)
      then show ?thesis
      proof cases
        case m
        then have "ty \<noteq> Felt252T" by (auto elim: int_bounds_cases)
        then have "in_range T (rng_lower S)"
          using assms(4) lower_in by (auto simp: upcast_fits_def range_within_def in_range_def)
        then show ?thesis using m machine_width [OF m(1)] False bs
          by (cases w) (auto simp: offset_def in_range_def fits_unsigned_def fits_signed_def)
      next
        case f
        have "repr_bit_width T = 252" "PRIME < 2 ^ 252" using f felt_width by (simp, simp add: PRIME_def)
        then show ?thesis using assms(4) src(5) False bs f half_prime_fits [OF _ lower_in]
          by (auto simp: upcast_fits_def range_within_def range_ok_def offset_def fits_unsigned_def)
      qed
    qed (use False zero in \<open>simp add: offset_def\<close>)
  qed
qed

lemma signed_to_felt_eval:
  assumes "mlir_ok M" "fits_signed 252 a"
  shows "signed_to_felt252_repr M (IV 252 (bits_of 252 a)) = Some (IV 252 (bits_of 252 (if a < 0 then a + PRIME else a)))"
proof -
  have "signed_of 252 (bits_of 252 a) = a" using assms(2) by (simp add: fits_signed_def signed_of_bits)
  moreover have "signed_of 252 0 = 0" by (simp add: signed_of_def)
  moreover have "const_int M PRIME 252 = Some (IV 252 PRIME)" "const_int M 0 252 = Some (IV 252 0)"
    "fits_unsigned 252 PRIME" "fits_unsigned 252 0"
    using assms(1) by (simp_all add: emitted fits_unsigned_def PRIME_def bits_of_def)
  ultimately show ?thesis using assms(1)
    by (simp add: signed_to_felt252_repr_def emitted bits_of_add)
qed

text \<open>
  C14: Casting up to a type that has every number of the source (for a felt: counting negative
  numbers from the prime): compiled code and the interpreter both succeed, on the same number.
\<close>

theorem upcast_code_agrees:
  assumes "mlir_ok M" "num_type R s sty S" "num_type R t ty T" "sty = Felt252T \<longrightarrow> s = t" "upcast_fits ty S T"
    and "param_ty sg 0 = Some s" "branch_ty sg 0 0 = Some t" "number sty S a v x"
  shows "agrees (eval_cast R sg Upcast [v]) (build_upcast M R sg [x])"
proof -
  note src = num_type_code [OF assms(2)] and dst = num_type_code [OF assms(3)]
  have in_S: "in_range S a" by (rule number_in_range [OF assms(8)])
  obtain n where n: "rec_limit R = Suc n" using assms(3) by (auto simp: num_type_def gr0_conv_Suc)
  have interp: "eval_cast R sg Upcast [v] = do { v \<leftarrow> get_value_from_integer R t a; Some (NormalBranch 0 [v]) }"
    using number_reads [OF assms(8)] assms(7) by (simp add: eval_cast_def eval_upcast_def)
  show ?thesis
  proof (cases "s = t")
    case True
    then have same: "sty = ty" "S = T" using src dst by auto
    obtain v' x' where v': "get_value_from_integer R t a = Some v'" "number ty T a v' x'"
      using get_value_number [OF assms(3)] in_S same by metis
    have "represents v' x" using number_rep [OF v'(2)] number_rep(1) [OF assms(8)] same by simp
    then show ?thesis using interp v'(1) True assms(6,7) by (simp add: build_upcast_def emitted)
  next
    case False
    let ?W = "repr_bit_width T"
    have nf: "sty \<noteq> Felt252T" using False assms(4) by blast
    have W: "repr_bit_width S \<le> ?W" by (rule upcast_width [OF assms(3) src(5) assms(5)])
    note ext = number_extend [OF assms(1,8) nf W]
    have fits: "range_within S T \<or> ty = Felt252T \<and>
        range_within S \<lparr>rng_lower = - HALF_PRIME, rng_upper = HALF_PRIME + 1\<rparr>"
      using assms(5) by (simp add: upcast_fits_def signed_felt_range_def)
    have off: "const_int M (offset sty S - offset ty T) ?W = Some (IV ?W (bits_of ?W (offset sty S - offset ty T)))"
      using upcast_offset_fits [OF assms(2,3) nf assms(5)] assms(1) by (simp add: emitted)
    have sum: "binary M Addi (IV ?W (bits_of ?W (a - offset sty S))) (IV ?W (bits_of ?W (offset sty S - offset ty T))) =
        Some (IV ?W (bits_of ?W (a - offset ty T)))"
      using assms(1) by (simp add: emitted bits_of_add)
    have off_eq: "(if bounded_ty sty \<and> bounded_ty ty then rng_lower S - rng_lower T
        else if bounded_ty sty then rng_lower S else if bounded_ty ty then - rng_lower T else 0) =
        offset sty S - offset ty T"
      by (simp add: offset_def)
    have code: "build_upcast M R sg [x] =
        do { dst_value \<leftarrow> (if ty = Felt252T \<and> rng_lower S < 0
              then signed_to_felt252_repr M (IV ?W (bits_of ?W (a - offset ty T)))
              else Some (IV ?W (bits_of ?W (a - offset ty T))));
             br 0 [dst_value] }"
      using ext off sum src(1-4) dst(1-4) False fits assms(6,7)
      by (simp add: build_upcast_def Let_def off_eq const_from_type_emitted int_type_emitted split del: if_split)
    show ?thesis
    proof (cases "ty = Felt252T")
      case True
      then have T: "T = \<lparr>rng_lower = 0, rng_upper = PRIME\<rparr>" "offset ty T = 0" "?W = 252"
        using assms(3) felt_width by (auto simp: num_type_def offset_def bounded_ty_def)
      have "get_value_from_integer R t a = Some (Felt (felt_of_int a))"
        using dst(1) True by (simp add: get_value_from_integer_def n)
      moreover have "build_upcast M R sg [x] = Some (Branch 0 [IV 252 (a mod PRIME)])"
      proof (cases "rng_lower S < 0")
        case neg: True
        then have "range_within S signed_felt_range" using assms(5) T(1) by (auto simp: upcast_fits_def range_within_def)
        then have "- PRIME < a" "a < PRIME"
          using in_S by (auto simp: range_within_def signed_felt_range_def in_range_def HALF_PRIME_def PRIME_def)
        then have "a mod PRIME = (if a < 0 then a + PRIME else a)"
          using mod_add_self2 [of a PRIME] mod_pos_pos_trivial [of "a + PRIME" PRIME] mod_pos_pos_trivial [of a PRIME]
          by (simp split: if_splits)
        moreover have "bits_of 252 (a mod PRIME) = a mod PRIME"
          using pos_mod_bound [of PRIME a] pos_mod_sign [of PRIME a] by (simp add: bits_of_def PRIME_def)
        moreover note \<open>range_within S signed_felt_range\<close>
        ultimately show ?thesis using code True T neg signed_to_felt_eval [OF assms(1) half_prime_fits [OF _ in_S]]
          by (simp add: emitted)
      next
        case nonneg: False
        then have "0 \<le> a" "a < PRIME"
          using assms(5) in_S T(1)
          by (auto simp: upcast_fits_def range_within_def in_range_def signed_felt_range_def HALF_PRIME_def PRIME_def)
        then have "bits_of 252 a = a mod PRIME" by (simp add: bits_of_def PRIME_def)
        then show ?thesis using code True T nonneg by (simp add: emitted)
      qed
      ultimately show ?thesis using interp by simp
    next
      case False
      then have "in_range T a" using assms(5) in_S by (auto simp: upcast_fits_def range_within_def in_range_def)
      then obtain v' x' where v': "get_value_from_integer R t a = Some v'" "number ty T a v' x'"
        by (rule get_value_number [OF assms(3)])
      with number_rep [OF v'(2)] code interp False show ?thesis by (simp add: emitted)
    qed
  qed
qed

section \<open>Felts as signed numbers\<close>

text \<open>
  A felt cast to a range below zero: every felt but 0 is negative when the range has no positive
  number, the felts above half the prime otherwise.
\<close>

definition felt_signed :: "int_range_t \<Rightarrow> int \<Rightarrow> int" where
  "felt_signed T a = (if (if rng_upper T \<le> 0 then 0 else HALF_PRIME) < a then a - PRIME else a)"

definition felt_source :: "int_range_t \<Rightarrow> int_range_t" where
  "felt_source T = (if rng_upper T \<le> 0 then \<lparr>rng_lower = - PRIME + 1, rng_upper = 1\<rparr> else signed_felt_range)"

lemma felt_source_width: "repr_bit_width (felt_source T) = 252"
proof -
  have "range_size (felt_source T) = range_size \<lparr>rng_lower = 0, rng_upper = PRIME\<rparr>"
    by (simp add: felt_source_def range_size_def signed_felt_range_def HALF_PRIME_def PRIME_def)
  then show ?thesis using felt_width by (simp add: repr_bit_width_def)
qed

lemma felt_source_ok: "range_ok (felt_source T)" "rng_lower (felt_source T) < 0"
  "rng_upper (felt_source T) = 1 \<longleftrightarrow> rng_upper T \<le> 0"
  by (simp_all add: felt_source_def range_ok_def signed_felt_range_def HALF_PRIME_def PRIME_def)

lemma felt_signed_range: "0 \<le> a \<Longrightarrow> a < PRIME \<Longrightarrow> in_range (felt_source T) (felt_signed T a)"
  by (auto simp: felt_source_def felt_signed_def in_range_def signed_felt_range_def HALF_PRIME_def PRIME_def)

lemma cast_natural_signed_felt:
  assumes "mlir_ok M" "num_type R t Felt252T F" "0 \<le> a" "a < PRIME" "zero_based_bit_width (felt_source T) \<le> C"
  shows "cast_natural M R Felt252T (felt_source T) C (IV 252 a) = Some (IV C (bits_of C (felt_signed T a)))"
proof -
  have C: "252 \<le> C" using repr_le_zero_based [OF felt_source_ok(1)] felt_source_width assms(5) le_trans by metis
  have fits: "fits_unsigned C i" if "0 \<le> i" "i \<le> PRIME" for i
  proof -
    have "fits_unsigned 252 i" using that by (simp add: fits_unsigned_def PRIME_def)
    then show ?thesis using C by (rule fits_unsigned_mono)
  qed
  have kconst: "const_int M i C = Some (IV C i)" if "i \<in> {0, HALF_PRIME, PRIME}" for i
  proof -
    have "fits_unsigned C i" using that by (intro fits) (auto simp: HALF_PRIME_def PRIME_def)
    then show ?thesis using C assms(1) by (simp add: emitted bits_fits)
  qed
  have ext: "(if 252 < C then convert (ml_extui M) (IV 252 a) (IntTy C) else Some (IV 252 a)) = Some (IV C a)"
    using assms C by (auto simp: emitted fits_unsigned_def PRIME_def)
  then have ext: "252 < C \<Longrightarrow> convert (ml_extui M) (IV 252 a) (IntTy C) = Some (IV C a)" by simp
  have "bits_of C a = a" using fits [of a] assms(3,4) by (simp add: bits_fits)
  moreover have "fits_unsigned C a" "fits_unsigned C 0" "fits_unsigned C HALF_PRIME" "fits_unsigned C PRIME"
    using fits assms(3,4) by (simp_all add: HALF_PRIME_def PRIME_def)
  moreover have "\<not> bounded_ty Felt252T" by (simp add: bounded_ty_def)
  ultimately have "cast_natural M R Felt252T (felt_source T) C (IV 252 a) =
      Some (IV C (if (if rng_upper T \<le> 0 then 0 else HALF_PRIME) < a then bits_of C (a - PRIME) else a))"
    using num_type_code(3,4) [OF assms(2)] felt_source_ok(2,3) [of T] assms(1) ext C
      kconst [of 0] kconst [of HALF_PRIME] kconst [of PRIME]
    unfolding cast_natural_def felt_source_width Let_def
    by (cases "rng_upper T \<le> 0"; cases "252 < C")
      (simp_all add: const_from_type_emitted int_type_emitted cmpi_emitted binary_emitted select_emitted)
  with \<open>bits_of C a = a\<close> show ?thesis by (simp add: felt_signed_def)
qed

text \<open>
  C36: Casting a felt down to a range that reaches below zero: compiled code reads the felt as a
  signed number and accepts exactly the numbers of the range. The interpreter keeps the felt
  non-negative, so that it refuses all the negative ones.
\<close>

theorem downcast_signed_felt:
  assumes "mlir_ok M" "num_type R s Felt252T F" "num_type R t ty T" "ty \<noteq> Felt252T"
    and "rng_lower T < 0" "- PRIME + 1 < rng_upper T" "rng_upper T \<le> HALF_PRIME + 1"
    and "param_ty sg 1 = Some s" "branch_ty sg 0 1 = Some t" "0 \<le> a" "a < PRIME" "fits_unsigned 64 n"
  shows "(\<exists>k. build_downcast M R sg full T [IV 64 n, IV 252 a] =
      Some (if in_range T (felt_signed T a)
        then Branch 0 [IV 64 k, IV (repr_bit_width T) (bits_of (repr_bit_width T) (felt_signed T a - offset ty T))]
        else Branch 1 [IV 64 k])) \<and>
    (felt_signed T a < 0 \<longrightarrow> eval_cast R sg (Downcast T t) [Unit, Felt (felt_of_int a)] = Some (NormalBranch 1 [Unit]))"
proof
  note src = num_type_code [OF assms(2)] and dst = num_type_code [OF assms(3)]
  let ?S = "felt_source T"
  define C where "C = max (zero_based_bit_width ?S) (zero_based_bit_width T)"
  then have C: "zero_based_bit_width ?S \<le> C" by simp
  have "s \<noteq> t" using src(1) dst(1) assms(4) by auto
  have src_range: "cast_src_range R Felt252T T = Some ?S"
    using src(4) assms(5) by (simp add: cast_src_range_def felt_source_def signed_felt_range_def)
  have code: "build_downcast M R sg full T [IV 64 n, IV 252 a] =
      cast_rest M R full T ?S ty C (IV C (bits_of C (felt_signed T a))) (IV 64 n)"
    using cast_natural_signed_felt [OF assms(1,2,10,11) C] src dst src_range \<open>s \<noteq> t\<close> assms(8,9)
    by (simp add: build_downcast_def cast_rest_def C_def [symmetric])
  have meet: "ranges_meet ?S T"
    using assms(5,6) by (auto simp: ranges_meet_def felt_source_def signed_felt_range_def HALF_PRIME_def)
  show "\<exists>k. build_downcast M R sg full T [IV 64 n, IV 252 a] =
      Some (if in_range T (felt_signed T a)
        then Branch 0 [IV 64 k, IV (repr_bit_width T) (bits_of (repr_bit_width T) (felt_signed T a - offset ty T))]
        else Branch 1 [IV 64 k])"
    using cast_rest_eval [OF assms(1) felt_source_ok(1) assms(3,4) felt_signed_range [OF assms(10,11)] meet C_def assms(12),
      of full] code by metis
  show "felt_signed T a < 0 \<longrightarrow> eval_cast R sg (Downcast T t) [Unit, Felt (felt_of_int a)] = Some (NormalBranch 1 [Unit])"
    using assms(7,10,11)
    by (auto simp: eval_cast_def eval_downcast_def numeric_arg_def felt_signed_def in_range_def split: if_splits)
qed

section \<open>Ranges that do not meet\<close>

text \<open>
  C37: Where the ranges do not meet the bound may not fit the width it is compared at: cast from
  a range without negative numbers to a range of only negative ones, the upper bound is taken
  for a large number, and compiled code accepts numbers that the interpreter refuses.
\<close>

theorem downcast_disjoint_accepted:
  assumes "mlir_ok M" "num_type R s sty S" "num_type R t ty T" "sty \<noteq> Felt252T" "ty \<noteq> Felt252T"
    and "0 \<le> rng_lower S" "rng_upper T < 0" "a - rng_upper T < rng_upper S"
    and "param_ty sg 1 = Some s" "branch_ty sg 0 1 = Some t" "number sty S a v x" "fits_unsigned 64 n"
  shows "eval_cast R sg (Downcast T t) [Unit, v] = Some (NormalBranch 1 [Unit]) \<and>
    (\<exists>k y. build_downcast M R sg full T [IV 64 n, x] = Some (Branch 0 [IV 64 k, y]))"
proof
  note src = num_type_code [OF assms(2)] and dst = num_type_code [OF assms(3)]
  have in_S: "in_range S a" by (rule number_in_range [OF assms(11)])
  then show "eval_cast R sg (Downcast T t) [Unit, v] = Some (NormalBranch 1 [Unit])"
    using number_reads [OF assms(11)] assms(6,7)
    by (simp add: eval_cast_def eval_downcast_def in_range_def)
  have "S \<noteq> T" using in_S assms(6,7) by (auto simp: in_range_def)
  then have "s \<noteq> t" using src(1,2) dst(1,2) by auto
  define C where "C = max (zero_based_bit_width S) (zero_based_bit_width T)"
  then have C: "zero_based_bit_width S \<le> C" "zero_based_bit_width T \<le> C" "0 < C"
    using zero_based_pos [of S] by (simp_all add: less_max_iff_disj)
  have bounds: "rng_lower S \<le> a" "a < rng_upper S" using in_S by (simp_all add: in_range_def)
  have "in_range S (rng_upper S - 1)" using bounds by (simp add: in_range_def)
  from range_natural [OF src(5) C(1) this] have top: "rng_upper S - 1 < 2 ^ C"
    using assms(6) by (simp add: natural_at_def fits_unsigned_def)
  have "in_range T (rng_lower T)" using dst(5) by (simp add: in_range_def range_ok_def)
  from range_natural [OF dst(5) C(2) this] have "fits_signed C (rng_upper T)"
    using assms(7) dst(5) by (auto simp: natural_at_def fits_signed_def range_ok_def split: if_splits)
  moreover have "bits_of C (rng_upper T) = rng_upper T + 2 ^ C"
  proof -
    have "0 \<le> rng_upper T + 2 ^ C" "rng_upper T + 2 ^ C < 2 ^ C" using assms(6,7,8) top bounds by linarith+
    then show ?thesis using mod_pos_pos_trivial [of "rng_upper T + 2 ^ C" "2 ^ C"] by (simp add: bits_of_def)
  qed
  ultimately have const: "const_int M (rng_upper T) C = Some (IV C (rng_upper T + 2 ^ C))"
    using assms(1) C(3) by (simp add: const_int_emitted)
  have a: "bits_of C a = a" "fits_unsigned C a" using bounds top assms(6) by (simp_all add: bits_of_def fits_unsigned_def)
  moreover have "fits_unsigned C (rng_upper T + 2 ^ C)" using top bounds assms(6,7,8) by (simp add: fits_unsigned_def)
  ultimately have upper: "upper_check M T S (IV C (bits_of C a)) = Some (Some (bit_val True))"
    using assms(1,6,7,8) bounds const top
    by (simp add: upper_check_def const_from_type_emitted int_type_emitted cmpi_emitted)
  have lower: "lower_check M T S (IV C (bits_of C a)) = Some None"
    using dst(5) assms(6,7) by (simp add: lower_check_def range_ok_def)
  have fits: "fits_unsigned 64 k" if "k \<in> {1, 2, 3}" for k using that by (auto simp: fits_unsigned_def)
  have "\<exists>k. bounds_check M full T S (IV C (bits_of C a)) (IV 64 n) = Some (bit_val True, IV 64 k)"
    using assms(1,6,7,12) bounds fits by (cases full) (auto simp: bounds_check_def lower upper emitted)
  then obtain k where k: "bounds_check M full T S (IV C (bits_of C a)) (IV 64 n) = Some (bit_val True, IV 64 k)" by blast
  have "cast_src_range R sty T = Some S" using src assms(4) by (simp add: cast_src_range_def)
  then have "build_downcast M R sg full T [IV 64 n, x] = cast_rest M R full T S ty C (IV C (bits_of C a)) (IV 64 n)"
    using cast_natural_unsigned_felt [OF assms(1,2,11) C(1)] src dst \<open>s \<noteq> t\<close> assms(9,10)
    by (simp add: build_downcast_def cast_rest_def C_def [symmetric])
  with k cast_target_eval [OF assms(1,3,5) C(2), of S a]
  show "\<exists>k y. build_downcast M R sg full T [IV 64 n, x] = Some (Branch 0 [IV 64 k, y])"
    by (simp add: cast_rest_def emitted)
qed

section \<open>Casts of a sample registry\<close>

definition cast_registry :: registry where
  "cast_registry = sample_registry\<lparr>get_type := nth_opt
    [Felt252T, Uint8T, Sint8T, BoundedIntT \<lparr>rng_lower = 0, rng_upper = 10\<rparr>,
     BoundedIntT \<lparr>rng_lower = - 5, rng_upper = - 1\<rparr>]\<rparr>"

lemma cast_types:
  "num_type cast_registry 0 Felt252T \<lparr>rng_lower = 0, rng_upper = PRIME\<rparr>"
  "num_type cast_registry 1 Uint8T \<lparr>rng_lower = 0, rng_upper = 256\<rparr>"
  "num_type cast_registry 2 Sint8T \<lparr>rng_lower = - 128, rng_upper = 128\<rparr>"
  "num_type cast_registry 3 (BoundedIntT \<lparr>rng_lower = 0, rng_upper = 10\<rparr>) \<lparr>rng_lower = 0, rng_upper = 10\<rparr>"
  "num_type cast_registry 4 (BoundedIntT \<lparr>rng_lower = - 5, rng_upper = - 1\<rparr>) \<lparr>rng_lower = - 5, rng_upper = - 1\<rparr>"
  by (simp_all add: num_type_def cast_registry_def range_ok_def int_bounds_def PRIME_def)

lemma cast_numbers:
  "number Uint8T \<lparr>rng_lower = 0, rng_upper = 256\<rparr> 100 (U8 100) (IV 8 100)"
  "number Sint8T \<lparr>rng_lower = - 128, rng_upper = 128\<rparr> (- 3) (I8 (- 3)) (IV 8 253)"
  using machine_number [of Uint8T 0 8 100 "U8 100"] machine_number [of Sint8T "- 128" 8 "- 3" "I8 (- 3)"]
  by (simp_all add: int_bounds_def encode_at_def to_unsigned_def to_signed_def bits_of_def)


lemma upcast_code_agrees_witness:
  "agrees (eval_cast cast_registry (sg_of [2] [[0]]) Upcast [I8 (- 3)])
    (build_upcast ref_mlir cast_registry (sg_of [2] [[0]]) [IV 8 253])"
  by (rule upcast_code_agrees [OF ref_mlir_ok cast_types(3,1) _ _ _ _ cast_numbers(2)])
    (simp_all add: upcast_fits_def range_within_def signed_felt_range_def HALF_PRIME_def)

lemma downcast_signed_felt_witness:
  "eval_cast cast_registry (sg_of [5, 0] [[5, 2], [5]]) (Downcast \<lparr>rng_lower = - 128, rng_upper = 128\<rparr> 2)
    [Unit, Felt (felt_of_int (PRIME - 3))] = Some (NormalBranch 1 [Unit])"
  using downcast_signed_felt [OF ref_mlir_ok cast_types(1,3), where a = "PRIME - 3" and
      sg = "sg_of [5, 0] [[5, 2], [5]]" and n = 0 and full = True]
  by (simp add: HALF_PRIME_def PRIME_def felt_signed_def fits_unsigned_def)

lemma downcast_disjoint_accepted_witness:
  "\<exists>k y. build_downcast ref_mlir cast_registry (sg_of [5, 3] [[5, 4], [5]]) False \<lparr>rng_lower = - 5, rng_upper = - 1\<rparr>
    [IV 64 0, IV (repr_bit_width \<lparr>rng_lower = 0, rng_upper = 10\<rparr>) 3] = Some (Branch 0 [IV 64 k, y])"
  using downcast_disjoint_accepted [OF ref_mlir_ok cast_types(4,5), where a = 3 and n = 0 and full = False and
      sg = "sg_of [5, 3] [[5, 4], [5]]" and v = "BoundedInt \<lparr>rng_lower = 0, rng_upper = 10\<rparr> 3"
      and x = "IV (repr_bit_width \<lparr>rng_lower = 0, rng_upper = 10\<rparr>) 3"]
    bounded_number [of "\<lparr>rng_lower = 0, rng_upper = 10\<rparr>" 3]
  by (simp add: fits_unsigned_def in_range_def range_ok_def)

end
