(* ===== verification/CgBounded.thy ===== *)
theory CgBounded
  imports CgInt
begin

text \<open>
  \<open>src/libfuncs/bounded_int.rs\<close>: the code generated for the bounded integer libfuncs. A number
  of a bounded type is stored as its distance from the lower bound of the type, its
  representation bias; operations work at a width that their operands and constants fit in
  and move to the bias of the result at the end.
\<close>

section \<open>Helpers\<close>

definition RANGE_CHECK_BUILTIN_SIZE :: int where "RANGE_CHECK_BUILTIN_SIZE = 1"

definition adjust :: "mlir \<Rightarrow> ir_val \<Rightarrow> int \<Rightarrow> ir_val option" where
  "adjust M v adjustment =
    (if adjustment = 0 then Some v
     else do {
       v_ty \<leftarrow> int_type v;
       (if 0 < adjustment
        then do { const_val \<leftarrow> const_int_from_type M adjustment v_ty; binary M Subi v const_val }
        else do { const_val \<leftarrow> const_int_from_type M (- adjustment) v_ty; binary M Addi v const_val }) })"

definition resize_int :: "mlir \<Rightarrow> ir_val \<Rightarrow> nat \<Rightarrow> nat \<Rightarrow> ir_val option" where
  "resize_int M v src_width dst_width =
    (if src_width = dst_width then Some v
     else if dst_width < src_width then convert (ml_trunci M) v (IntTy dst_width)
     else convert (ml_extui M) v (IntTy dst_width))"

definition repr_bias :: "registry \<Rightarrow> core_type \<times> int_range_t \<Rightarrow> int option" where
  "repr_bias R operand =
    do { b \<leftarrow> ok (is_bounded_int R (fst operand)); Some (if b then rng_lower (snd operand) else 0) }"

definition integer_operand :: "registry \<Rightarrow> type_id \<Rightarrow> (core_type \<times> int_range_t) option" where
  "integer_operand R t =
    do { ty \<leftarrow> get_type R t; range \<leftarrow> ok (native_integer_range R ty); Some (ty, range) }"

definition widen_operand_to_compute ::
  "mlir \<Rightarrow> registry \<Rightarrow> ir_val \<Rightarrow> core_type \<times> int_range_t \<Rightarrow> nat \<Rightarrow> ir_val option" where
  "widen_operand_to_compute M R v operand compute_width =
    do {
      b \<leftarrow> ok (is_bounded_int R (fst operand));
      (if \<not> rng_lower (snd operand) < 0 \<or> b then convert (ml_extui M) v (IntTy compute_width)
       else convert (ml_extsi M) v (IntTy compute_width)) }"

definition is_signed_repr :: "registry \<Rightarrow> core_type \<Rightarrow> bool option" where
  "is_signed_repr R ty =
    do {
      range \<leftarrow> ok (native_integer_range R ty);
      b \<leftarrow> ok (is_bounded_int R ty);
      Some (rng_lower range < 0 \<and> \<not> b) }"

section \<open>Arithmetic\<close>

text \<open>Addition and subtraction share all but the operation on biases and on values.\<close>

definition build_linear ::
  "binop \<Rightarrow> (int \<Rightarrow> int \<Rightarrow> int) \<Rightarrow> mlir \<Rightarrow> registry \<Rightarrow> signature \<Rightarrow> ir_val list \<Rightarrow> outcome option" where
  "build_linear op on_bias M R sg entry =
    do {
      lhs_value \<leftarrow> arg entry 0;
      rhs_value \<leftarrow> arg entry 1;
      lt \<leftarrow> param_ty sg 0;
      lhs \<leftarrow> integer_operand R lt;
      rt \<leftarrow> param_ty sg 1;
      rhs \<leftarrow> integer_operand R rt;
      dt \<leftarrow> branch_ty sg 0 0;
      dst \<leftarrow> integer_operand R dt;
      let lhs_width = repr_bit_width (snd lhs);
      let rhs_width = repr_bit_width (snd rhs);
      let dst_width = repr_bit_width (snd dst);
      lhs_bias \<leftarrow> repr_bias R lhs;
      rhs_bias \<leftarrow> repr_bias R rhs;
      dst_repr_bias \<leftarrow> repr_bias R dst;
      let adjustment = dst_repr_bias - on_bias lhs_bias rhs_bias;
      adjustment_width \<leftarrow> (if big_bits adjustment < 2 ^ 32 then Some (big_bits adjustment) else None);
      let compute_width = max (max lhs_width rhs_width) adjustment_width + 1;
      lhs_value \<leftarrow> widen_operand_to_compute M R lhs_value lhs compute_width;
      rhs_value \<leftarrow> widen_operand_to_compute M R rhs_value rhs compute_width;
      res_value \<leftarrow> binary M op lhs_value rhs_value;
      res_value \<leftarrow> adjust M res_value adjustment;
      res_value \<leftarrow> resize_int M res_value compute_width dst_width;
      br 0 [res_value] }"

definition build_add :: "mlir \<Rightarrow> registry \<Rightarrow> signature \<Rightarrow> ir_val list \<Rightarrow> outcome option" where
  "build_add = build_linear Addi (+)"

definition build_sub :: "mlir \<Rightarrow> registry \<Rightarrow> signature \<Rightarrow> ir_val list \<Rightarrow> outcome option" where
  "build_sub = build_linear Subi (-)"

definition build_mul :: "mlir \<Rightarrow> registry \<Rightarrow> signature \<Rightarrow> ir_val list \<Rightarrow> outcome option" where
  "build_mul M R sg entry =
    do {
      lhs_value \<leftarrow> arg entry 0;
      rhs_value \<leftarrow> arg entry 1;
      lt \<leftarrow> param_ty sg 0;
      lhs \<leftarrow> integer_operand R lt;
      rt \<leftarrow> param_ty sg 1;
      rhs \<leftarrow> integer_operand R rt;
      dt \<leftarrow> branch_ty sg 0 0;
      dst \<leftarrow> integer_operand R dt;
      let lhs_width = repr_bit_width (snd lhs);
      let rhs_width = repr_bit_width (snd rhs);
      let compute_range =
        \<lparr>rng_lower = min (min (min (rng_lower (snd lhs)) (rng_lower (snd rhs))) (rng_lower (snd dst))) 0,
         rng_upper = max (max (rng_upper (snd lhs)) (rng_upper (snd rhs))) (rng_upper (snd dst))\<rparr>;
      let compute_width = zero_based_bit_width compute_range;
      (if lhs_width \<le> compute_width then Some () else None);
      (if rhs_width \<le> compute_width then Some () else None);
      lhs_value \<leftarrow> widen_operand_to_compute M R lhs_value lhs compute_width;
      rhs_value \<leftarrow> widen_operand_to_compute M R rhs_value rhs compute_width;
      lhs_bias \<leftarrow> repr_bias R lhs;
      lhs_value \<leftarrow> adjust M lhs_value (- lhs_bias);
      rhs_bias \<leftarrow> repr_bias R rhs;
      rhs_value \<leftarrow> adjust M rhs_value (- rhs_bias);
      res_value \<leftarrow> binary M Muli lhs_value rhs_value;
      dst_bias \<leftarrow> repr_bias R dst;
      res_value \<leftarrow> adjust M res_value dst_bias;
      res_value \<leftarrow> resize_int M res_value compute_width (repr_bit_width (snd dst));
      br 0 [res_value] }"

definition build_div_rem ::
  "mlir \<Rightarrow> div_rem_choice \<Rightarrow> registry \<Rightarrow> signature \<Rightarrow> ir_val list \<Rightarrow> outcome option" where
  "build_div_rem M D R sg entry =
    do {
      lhs_value \<leftarrow> arg entry 1;
      rhs_value \<leftarrow> arg entry 2;
      lt \<leftarrow> param_ty sg 1;
      lhs \<leftarrow> integer_operand R lt;
      rt \<leftarrow> param_ty sg 2;
      rhs \<leftarrow> integer_operand R rt;
      qt \<leftarrow> branch_ty sg 0 1;
      quo \<leftarrow> integer_operand R qt;
      mt \<leftarrow> branch_ty sg 0 2;
      rem \<leftarrow> integer_operand R mt;
      div_rem_algorithm \<leftarrow> D (snd lhs) (snd rhs);
      let compute_range = \<lparr>rng_lower = 0, rng_upper = max (rng_upper (snd lhs)) (rng_upper (snd rhs))\<rparr>;
      let compute_width = zero_based_bit_width compute_range;
      (if repr_bit_width (snd lhs) \<le> compute_width then Some () else None);
      (if repr_bit_width (snd rhs) \<le> compute_width then Some () else None);
      lhs_value \<leftarrow> widen_operand_to_compute M R lhs_value lhs compute_width;
      rhs_value \<leftarrow> widen_operand_to_compute M R rhs_value rhs compute_width;
      lhs_bias \<leftarrow> repr_bias R lhs;
      lhs_value \<leftarrow> adjust M lhs_value (- lhs_bias);
      rhs_bias \<leftarrow> repr_bias R rhs;
      rhs_value \<leftarrow> adjust M rhs_value (- rhs_bias);
      div_value \<leftarrow> binary M Divui lhs_value rhs_value;
      rem_value \<leftarrow> binary M Remui lhs_value rhs_value;
      div_bias \<leftarrow> repr_bias R quo;
      div_value \<leftarrow> adjust M div_value div_bias;
      div_value \<leftarrow> resize_int M div_value compute_width (repr_bit_width (snd quo));
      (if rng_lower (snd rem) = 0 then Some () else None);
      rem_bias \<leftarrow> repr_bias R rem;
      rem_value \<leftarrow> adjust M rem_value rem_bias;
      rem_value \<leftarrow> resize_int M rem_value compute_width (repr_bit_width (snd rem));
      a0 \<leftarrow> arg entry 0;
      range_check \<leftarrow>
        (case div_rem_algorithm of
          KnownSmallRhs \<Rightarrow> increment_builtin_counter_by M a0 (3 * RANGE_CHECK_BUILTIN_SIZE)
        | KnownSmallQuotient \<Rightarrow> increment_builtin_counter_by M a0 (4 * RANGE_CHECK_BUILTIN_SIZE)
        | KnownSmallLhs \<Rightarrow> increment_builtin_counter_by M a0 (4 * RANGE_CHECK_BUILTIN_SIZE));
      br 0 [range_check, div_value, rem_value] }"

section \<open>Splitting a range\<close>

definition adjust_to_output ::
  "mlir \<Rightarrow> registry \<Rightarrow> ir_val \<Rightarrow> int \<Rightarrow> nat \<Rightarrow> core_type \<times> int_range_t \<Rightarrow> ir_val option" where
  "adjust_to_output M R src_value src_repr_bias src_width out =
    do {
      out_repr_bias \<leftarrow> repr_bias R out;
      res_value \<leftarrow> adjust M src_value (out_repr_bias - src_repr_bias);
      resize_int M res_value src_width (repr_bit_width (snd out)) }"

definition build_constrain ::
  "mlir \<Rightarrow> registry \<Rightarrow> signature \<Rightarrow> int \<Rightarrow> ir_val list \<Rightarrow> outcome option" where
  "build_constrain M R sg bound entry =
    do {
      a0 \<leftarrow> arg entry 0;
      range_check \<leftarrow> increment_builtin_counter M a0;
      src_value \<leftarrow> arg entry 1;
      st \<leftarrow> param_ty sg 1;
      src \<leftarrow> integer_operand R st;
      lt \<leftarrow> branch_ty sg 0 1;
      lower \<leftarrow> integer_operand R lt;
      ut \<leftarrow> branch_ty sg 1 1;
      upper \<leftarrow> integer_operand R ut;
      let src_width = repr_bit_width (snd src);
      src_repr_bias \<leftarrow> repr_bias R src;
      src_value_ty \<leftarrow> int_type src_value;
      boundary \<leftarrow> const_int_from_type M (bound - src_repr_bias) src_value_ty;
      signed \<leftarrow> is_signed_repr R (fst src);
      is_lower \<leftarrow> cmpi M (if signed then CmpSlt else CmpUlt) src_value boundary;
      scf_if is_lower
        (do { v \<leftarrow> adjust_to_output M R src_value src_repr_bias src_width lower; br 0 [range_check, v] })
        (do { v \<leftarrow> adjust_to_output M R src_value src_repr_bias src_width upper; br 1 [range_check, v] }) }"

definition build_trim :: "mlir \<Rightarrow> registry \<Rightarrow> signature \<Rightarrow> int \<Rightarrow> ir_val list \<Rightarrow> outcome option" where
  "build_trim M R sg trimmed entry =
    do {
      v \<leftarrow> arg entry 0;
      st \<leftarrow> param_ty sg 0;
      src \<leftarrow> integer_operand R st;
      dt \<leftarrow> branch_ty sg 1 0;
      dst \<leftarrow> integer_operand R dt;
      src_repr_bias \<leftarrow> repr_bias R src;
      v_ty \<leftarrow> int_type v;
      trimmed_value \<leftarrow> const_int_from_type M (trimmed - src_repr_bias) v_ty;
      is_invalid \<leftarrow> cmpi M CmpEq v trimmed_value;
      let src_width = repr_bit_width (snd src);
      dst_repr_bias \<leftarrow> repr_bias R dst;
      v \<leftarrow> adjust M v (dst_repr_bias - src_repr_bias);
      v \<leftarrow> resize_int M v src_width (repr_bit_width (snd dst));
      cond_br is_invalid (0, 1) ([], [v]) }"

definition build_bounded_is_zero :: "mlir \<Rightarrow> registry \<Rightarrow> signature \<Rightarrow> ir_val list \<Rightarrow> outcome option" where
  "build_bounded_is_zero M R sg entry =
    do {
      src_value \<leftarrow> arg entry 0;
      st \<leftarrow> param_ty sg 0;
      src \<leftarrow> integer_operand R st;
      (if rng_lower (snd src) \<le> 0 \<and> 0 < rng_upper (snd src) then Some () else None);
      src_repr_bias \<leftarrow> repr_bias R src;
      src_value_ty \<leftarrow> int_type src_value;
      k0 \<leftarrow> const_int_from_type M (- src_repr_bias) src_value_ty;
      src_is_zero \<leftarrow> cmpi M CmpEq src_value k0;
      cond_br src_is_zero (0, 1) ([], [src_value]) }"

section \<open>Guarantees\<close>

definition build_guarantee_verify :: "mlir \<Rightarrow> ir_val list \<Rightarrow> outcome option" where
  "build_guarantee_verify M entry =
    do {
      a0 \<leftarrow> arg entry 0;
      range_check \<leftarrow> increment_builtin_counter_by M a0 (2 * RANGE_CHECK_BUILTIN_SIZE);
      br 0 [range_check] }"

definition build_u128_to_u32_guarantees :: "mlir \<Rightarrow> ir_val list \<Rightarrow> outcome option" where
  "build_u128_to_u32_guarantees M entry =
    do {
      v \<leftarrow> arg entry 0;
      let u32_ty = IntTy 32;
      k32 \<leftarrow> const_int M 32 128;
      k64 \<leftarrow> const_int M 64 128;
      k96 \<leftarrow> const_int M 96 128;
      w0 \<leftarrow> convert (ml_trunci M) v u32_ty;
      s1 \<leftarrow> binary M Shrui v k32;
      w1 \<leftarrow> convert (ml_trunci M) s1 u32_ty;
      s2 \<leftarrow> binary M Shrui v k64;
      w2 \<leftarrow> convert (ml_trunci M) s2 u32_ty;
      s3 \<leftarrow> binary M Shrui v k96;
      w3 \<leftarrow> convert (ml_trunci M) s3 u32_ty;
      br 0 [w0, w1, w2, w3] }"

text \<open>
  \<open>build_noop\<close> of \<open>libfuncs.rs\<close>: the first \<open>n\<close> arguments are the results; with
  \<open>process_builtins\<close> the counters among them go up by one.
\<close>

definition counts :: "core_type \<Rightarrow> bool" where
  "counts ty \<longleftrightarrow>
    is_builtin ty \<and> ty \<notin> {BuiltinCostsT, CouponT, GasBuiltinT, StarknetT SystemST}"

fun noop_params ::
  "mlir \<Rightarrow> bool \<Rightarrow> registry \<Rightarrow> type_id list \<Rightarrow> ir_val list \<Rightarrow> nat list \<Rightarrow> ir_val list option" where
  "noop_params M process_builtins R ts entry [] = Some []"
| "noop_params M process_builtins R ts entry (i # is) =
    do {
      t \<leftarrow> nth_opt ts i;
      param_ty \<leftarrow> get_type R t;
      param_val \<leftarrow> arg entry i;
      param_val \<leftarrow>
        (if process_builtins \<and> counts param_ty then increment_builtin_counter M param_val else Some param_val);
      rest \<leftarrow> noop_params M process_builtins R ts entry is;
      Some (param_val # rest) }"

definition build_noop ::
  "mlir \<Rightarrow> nat \<Rightarrow> bool \<Rightarrow> registry \<Rightarrow> signature \<Rightarrow> ir_val list \<Rightarrow> outcome option" where
  "build_noop M n process_builtins R sg entry =
    do { params \<leftarrow> noop_params M process_builtins R (param_signatures sg) entry [0 ..< n]; br 0 params }"

definition build_wrap_non_zero :: "mlir \<Rightarrow> registry \<Rightarrow> signature \<Rightarrow> ir_val list \<Rightarrow> outcome option" where
  "build_wrap_non_zero M R sg entry =
    do {
      t \<leftarrow> param_ty sg 0;
      src_range \<leftarrow> ty_range R t;
      (if 0 < rng_lower src_range \<or> rng_upper src_range \<le> 0 then Some () else None);
      build_noop M 1 False R sg entry }"

section \<open>Dispatch\<close>

definition build_bounded_int ::
  "mlir \<Rightarrow> div_rem_choice \<Rightarrow> registry \<Rightarrow> signature \<Rightarrow> bounded_int_lib \<Rightarrow> ir_val list \<Rightarrow> outcome option" where
  "build_bounded_int M D R sg selector entry =
    (case selector of
      BIAdd \<Rightarrow> build_add M R sg entry
    | BISub \<Rightarrow> build_sub M R sg entry
    | BIMul \<Rightarrow> build_mul M R sg entry
    | BIDivRem \<Rightarrow> build_div_rem M D R sg entry
    | BIConstrain boundary \<Rightarrow> build_constrain M R sg boundary entry
    | BITrimMin trimmed \<Rightarrow> build_trim M R sg trimmed entry
    | BITrimMax trimmed \<Rightarrow> build_trim M R sg trimmed entry
    | BIIsZero \<Rightarrow> build_bounded_is_zero M R sg entry
    | BIWrapNonZero \<Rightarrow> build_wrap_non_zero M R sg entry
    | BIGuaranteeVerify \<Rightarrow> build_guarantee_verify M entry
    | BIU128ToU32Guarantees \<Rightarrow> build_u128_to_u32_guarantees M entry)"

end
