(* ===== verification/BoundedCompiled.thy ===== *)
theory BoundedCompiled
  imports CgBounded Numbers
begin

text \<open>
  The code generated for the bounded integer libfuncs agrees with the interpreter, for operands
  of machine and bounded integer types, when the results have the ranges that interval
  arithmetic gives: the widths the code computes at are wide enough, and the constants it
  shifts by fit them.
\<close>

section \<open>Operands\<close>

text \<open>
  \<open>stored R t ty S\<close>: a declared type of integers, \<open>ty\<close> itself or behind a non-zero wrapper.
\<close>

definition stored :: "registry \<Rightarrow> type_id \<Rightarrow> core_type \<Rightarrow> int_range_t \<Rightarrow> bool" where
  "stored R t ty S \<longleftrightarrow> ty \<noteq> Felt252T \<and>
    (num_type R t ty S \<or> (\<exists>e. get_type R t = Some (NonZeroT e) \<and> num_type R e ty S \<and> 1 < rec_limit R))"

lemma stored_operand:
  assumes "stored R t ty S"
  obtains ty' where "integer_operand R t = Some (ty', S)" "repr_bias R (ty', S) = Some (offset ty S)"
    "is_bounded_int R ty' = Ok (bounded_ty ty)" "native_integer_range R ty' = Ok S" "range_ok S" "ty \<noteq> Felt252T"
proof -
  from assms consider (d) "num_type R t ty S" "ty \<noteq> Felt252T"
    | (n) e where "get_type R t = Some (NonZeroT e)" "num_type R e ty S" "1 < rec_limit R" "ty \<noteq> Felt252T"
    by (auto simp: stored_def)
  then show thesis
  proof cases
    case d
    from num_type_code [OF d(1)] d(2) that show thesis
      by (simp add: integer_operand_def repr_bias_def offset_def)
  next
    case n
    then obtain k where k: "rec_limit R = Suc (Suc k)" by (metis less_iff_Suc_add add_Suc One_nat_def)
    note code = num_type_code [OF n(2)]
    have "native_integer_range_fuel (Suc k) R ty = Ok S" if "num_type R e ty S"
      using that by (auto simp: num_type_def native_range_unsigned_def native_range_signed_def elim!: int_bounds_cases)
    moreover have "is_bounded_int_fuel (Suc k) R ty = Ok (bounded_ty ty)" if "num_type R e ty S"
      using that by (auto simp: num_type_def bounded_ty_def elim!: int_bounds_cases)
    ultimately have "native_integer_range R (NonZeroT e) = Ok S" "is_bounded_int R (NonZeroT e) = Ok (bounded_ty ty)"
      using n code(1) by (simp_all add: native_integer_range_def is_bounded_int_def k)
    with n code(5) that [of "NonZeroT e"] show thesis
      by (simp add: integer_operand_def repr_bias_def offset_def)
  qed
qed

lemma num_stored: "num_type R t ty S \<Longrightarrow> ty \<noteq> Felt252T \<Longrightarrow> stored R t ty S"
  by (simp add: stored_def)

section \<open>Shifting and resizing\<close>

lemma adjust_eval:
  assumes "mlir_ok M" "0 < C" "fits_unsigned C \<bar>i\<bar>"
  shows "adjust M (IV C (bits_of C z)) i = Some (IV C (bits_of C (z - i)))"
proof -
  have "const_int M \<bar>i\<bar> C = Some (IV C \<bar>i\<bar>)" using assms by (simp add: emitted bits_fits)
  then show ?thesis using assms
    by (cases "i < 0") (auto simp: adjust_def emitted bits_of_add bits_of_diff)
qed

lemma resize_eval:
  assumes "mlir_ok M" "0 < C" "0 < W" "W \<le> C \<or> fits_unsigned C z"
  shows "resize_int M (IV C (bits_of C z)) C W = Some (IV W (bits_of W z))"
proof (cases "W \<le> C")
  case True
  then show ?thesis using assms by (auto simp: resize_int_def emitted)
next
  case False
  then have "fits_unsigned C z" "C < W" using assms(4) by simp_all
  moreover from this have "bits_of C z = z" "bits_of W z = z" using fits_unsigned_mono bits_fits less_imp_le by blast+
  ultimately show ?thesis using assms by (simp add: resize_int_def emitted)
qed

lemma widen_eval:
  assumes "mlir_ok M" "is_bounded_int R ty' = Ok (bounded_ty ty)" "number ty S a v x" "ty \<noteq> Felt252T"
    and "repr_bit_width S \<le> C"
  shows "widen_operand_to_compute M R x (ty', S) C = Some (IV C (bits_of C (a - offset ty S)))"
proof (cases "repr_bit_width S < C")
  case True
  with number_extend [OF assms(1,3,4,5)] assms(2) show ?thesis
    by (auto simp: widen_operand_to_compute_def split: if_splits)
next
  case False
  then have "repr_bit_width S = C" using assms(5) by simp
  moreover from this have "0 < C" using repr_bit_width_le(2) [of S] by simp
  ultimately show ?thesis using number_rep(1) [OF assms(3)] assms(1,2)
    by (auto simp: widen_operand_to_compute_def emitted)
qed

text \<open>A number at the end of the code: its distance from the bias, at the width of its type.\<close>

lemma bounded_result:
  assumes "range_ok T" "in_range T z"
  shows "represents (BoundedInt T z) (IV (repr_bit_width T) (bits_of (repr_bit_width T) (z - rng_lower T)))"
  using bits_fits [OF size_width [OF assms]] by simp

lemma fits_abs_bits:
  assumes "big_bits i \<le> C"
  shows "fits_unsigned C \<bar>i\<bar>"
proof -
  have "\<bar>i\<bar> < 2 ^ big_bits \<bar>i\<bar>" by (rule big_bits_less) simp
  also have "big_bits \<bar>i\<bar> = big_bits i" by (simp add: big_bits_def)
  also have "(2 :: int) ^ big_bits i \<le> 2 ^ C" using assms by (intro power_increasing) auto
  finally show ?thesis by (simp add: fits_unsigned_def)
qed

section \<open>Addition and subtraction\<close>

definition linear_range :: "binop \<Rightarrow> int_range_t \<Rightarrow> int_range_t \<Rightarrow> int_range_t" where
  "linear_range op S T = (if op = Addi then range_add S T else range_sub S T)"

lemma offset_range: "range_ok S \<Longrightarrow> ty \<noteq> Felt252T \<Longrightarrow> number ty S a v x \<Longrightarrow> \<bar>offset ty S\<bar> \<le> 2 ^ 256"
  by (auto simp: offset_def range_ok_def abs_if)

lemma build_linear_eval:
  assumes "mlir_ok M" "stored R s sty S" "stored R t tty T" "num_type R d (BoundedIntT D) D"
    and "number sty S a v x" "number tty T b w y"
    and "(op, f) \<in> {(Addi, (+)), (Subi, (-))}" "D = linear_range op S T"
    and "param_ty sg 0 = Some s" "param_ty sg 1 = Some t" "branch_ty sg 0 0 = Some d"
  shows "build_linear op f M R sg [x, y] =
    Some (Branch 0 [IV (repr_bit_width D) (bits_of (repr_bit_width D) (f a b - rng_lower D))])" "in_range D (f a b)"
proof -
  obtain s' where S: "integer_operand R s = Some (s', S)" "repr_bias R (s', S) = Some (offset sty S)"
    "is_bounded_int R s' = Ok (bounded_ty sty)" "range_ok S" "sty \<noteq> Felt252T"
    using stored_operand [OF assms(2)] by metis
  obtain t' where T: "integer_operand R t = Some (t', T)" "repr_bias R (t', T) = Some (offset tty T)"
    "is_bounded_int R t' = Ok (bounded_ty tty)" "range_ok T" "tty \<noteq> Felt252T"
    using stored_operand [OF assms(3)] by metis
  have d: "stored R d (BoundedIntT D) D" using assms(4) by (rule num_stored) simp
  obtain d' where D: "integer_operand R d = Some (d', D)" "repr_bias R (d', D) = Some (offset (BoundedIntT D) D)"
    "range_ok D" using stored_operand [OF d] by metis
  have off_D: "offset (BoundedIntT D) D = rng_lower D" by (simp add: offset_def bounded_ty_def)
  have in_S: "in_range S a" and in_T: "in_range T b" using number_in_range assms(5,6) by auto
  show in_D: "in_range D (f a b)"
    using assms(7,8) range_add_sound [OF in_S in_T] range_sub_sound [OF in_S in_T] by (auto simp: linear_range_def)
  define adj where "adj = rng_lower D - f (offset sty S) (offset tty T)"
  have small: "big_bits adj \<le> 260"
  proof (rule big_bits_le)
    have "\<bar>rng_lower D\<bar> \<le> 2 ^ 256" using D(3) by (auto simp: range_ok_def abs_if)
    then show "\<bar>adj\<bar> < 2 ^ 260"
      using offset_range [OF S(4,5) assms(5)] offset_range [OF T(4,5) assms(6)] assms(7)
      by (auto simp: adj_def)
  qed
  define C where "C = Suc (max (max (repr_bit_width S) (repr_bit_width T)) (big_bits adj))"
  have WS: "repr_bit_width S \<le> C" and WT: "repr_bit_width T \<le> C" and WA: "big_bits adj \<le> C" and C: "0 < C"
    by (simp_all add: C_def)
  have fits_S: "fits_unsigned (repr_bit_width S) (rng_upper S - 1 - rng_lower S)"
    using S(4) by (intro size_width) (simp_all add: in_range_def range_ok_def)
  have fits_T: "fits_unsigned (repr_bit_width T) (rng_upper T - 1 - rng_lower T)"
    using T(4) by (intro size_width) (simp_all add: in_range_def range_ok_def)
  have "repr_bit_width S \<le> C - 1" "repr_bit_width T \<le> C - 1" by (simp_all add: C_def)
  from fits_unsigned_mono [OF fits_S this(1)] fits_unsigned_mono [OF fits_T this(2)]
  have "range_size D \<le> 2 * 2 ^ (C - 1)"
    using assms(7,8) by (auto simp: fits_unsigned_def range_size_def linear_range_def range_add_def range_sub_def)
  also have "\<dots> = 2 ^ C" using C by (cases C) simp_all
  finally have "fits_unsigned C (f a b - rng_lower D)"
    using in_D by (simp add: fits_unsigned_def in_range_def range_size_def)
  moreover have "f (a - offset sty S) (b - offset tty T) - adj = f a b - rng_lower D"
    using assms(7) by (auto simp: adj_def)
  moreover have "binary M op (IV C (bits_of C (a - offset sty S))) (IV C (bits_of C (b - offset tty T))) =
      Some (IV C (bits_of C (f (a - offset sty S) (b - offset tty T))))"
    using assms(1,7) by (auto simp: emitted bits_of_add bits_of_diff)
  ultimately show "build_linear op f M R sg [x, y] =
      Some (Branch 0 [IV (repr_bit_width D) (bits_of (repr_bit_width D) (f a b - rng_lower D))])"
    using widen_eval [OF assms(1) S(3) assms(5) S(5) WS] widen_eval [OF assms(1) T(3) assms(6) T(5) WT]
      adjust_eval [OF assms(1) C fits_abs_bits [OF WA]] small S(1,2) T(1,2) D(1,2) off_D assms(9-11)
      resize_eval [OF assms(1) C repr_bit_width_le(2) [of D], of "f a b - rng_lower D"]
    by (simp add: build_linear_def Let_def C_def [symmetric] adj_def [symmetric] br_emitted)
qed

text \<open>A range inside another one is no wider than what the other one is computed at.\<close>

lemma repr_le_compute:
  assumes "range_ok r" "range_ok s" "rng_lower s \<le> rng_lower r" "rng_upper r \<le> rng_upper s"
  shows "repr_bit_width r \<le> zero_based_bit_width s"
proof -
  have "range_size r \<le> range_size s" using assms by (simp add: range_ok_def range_size_def)
  then show ?thesis
    using repr_width_mono [OF assms(1,2)] repr_le_zero_based [OF assms(2)] by linarith
qed

text \<open>Numbers of a range without negative ones are their own bits.\<close>

lemma natural_abs:
  assumes "natural_at r C i" "0 < C"
  shows "fits_unsigned C \<bar>i\<bar>"
proof (cases "rng_lower r < 0")
  case True
  have "(2 :: int) ^ C = 2 * 2 ^ (C - 1)" using assms(2) by (cases C) simp_all
  moreover have "(0 :: int) < 2 ^ (C - 1)" by simp
  ultimately show ?thesis using assms True by (auto simp: natural_at_def fits_signed_def fits_unsigned_def abs_if)
next
  case False
  then show ?thesis using assms
    by (auto simp: natural_at_def fits_signed_def fits_unsigned_def abs_if split: if_splits)
qed

lemma bounded_offset [simp]: "offset (BoundedIntT r) s = rng_lower s"
  by (simp add: offset_def bounded_ty_def)

lemma offset_natural:
  assumes "range_ok C" "in_range C (rng_lower S)" "rng_lower C \<le> 0"
  shows "fits_unsigned (zero_based_bit_width C) \<bar>- offset ty S\<bar>"
  using natural_abs [OF range_natural [OF assms(1) order_refl assms(2)] zero_based_pos] assms
  by (auto simp: offset_def)

section \<open>Multiplication\<close>

lemma build_mul_eval:
  assumes "mlir_ok M" "stored R s sty S" "stored R t tty T" "num_type R d (BoundedIntT D) D"
    and "number sty S a v x" "number tty T b w y" "D = range_mul S T"
    and "param_ty sg 0 = Some s" "param_ty sg 1 = Some t" "branch_ty sg 0 0 = Some d"
  shows "build_mul M R sg [x, y] =
    Some (Branch 0 [IV (repr_bit_width D) (bits_of (repr_bit_width D) (a * b - rng_lower D))])"
proof -
  obtain s' where S: "integer_operand R s = Some (s', S)" "repr_bias R (s', S) = Some (offset sty S)"
    "is_bounded_int R s' = Ok (bounded_ty sty)" "range_ok S" "sty \<noteq> Felt252T"
    using stored_operand [OF assms(2)] by metis
  obtain t' where T: "integer_operand R t = Some (t', T)" "repr_bias R (t', T) = Some (offset tty T)"
    "is_bounded_int R t' = Ok (bounded_ty tty)" "range_ok T" "tty \<noteq> Felt252T"
    using stored_operand [OF assms(3)] by metis
  have d: "stored R d (BoundedIntT D) D" using assms(4) by (rule num_stored) simp
  obtain d' where D: "integer_operand R d = Some (d', D)" "repr_bias R (d', D) = Some (rng_lower D)"
    "range_ok D" using stored_operand [OF d] by (metis bounded_offset)
  define C where "C = \<lparr>rng_lower = min (min (min (rng_lower S) (rng_lower T)) (rng_lower D)) 0,
    rng_upper = max (max (rng_upper S) (rng_upper T)) (rng_upper D)\<rparr>"
  define W where "W = zero_based_bit_width C"
  have ok: "range_ok C" using S(4) T(4) D(3) by (auto simp: range_ok_def C_def)
  have lo: "rng_lower C \<le> 0" by (simp add: C_def)
  have W0: "0 < W" by (simp add: W_def)
  have widths: "repr_bit_width S \<le> W" "repr_bit_width T \<le> W" "repr_bit_width D \<le> W"
    unfolding W_def by (rule repr_le_compute [OF S(4) ok] repr_le_compute [OF T(4) ok] repr_le_compute [OF D(3) ok]; simp add: C_def)+
  have ends: "in_range C (rng_lower S)" "in_range C (rng_lower T)" "in_range C (rng_lower D)"
    using S(4) T(4) D(3) by (auto simp: in_range_def range_ok_def C_def)
  have shift: "fits_unsigned W \<bar>- offset sty S\<bar>" "fits_unsigned W \<bar>- offset tty T\<bar>" "fits_unsigned W \<bar>rng_lower D\<bar>"
    using offset_natural [OF ok ends(1) lo] offset_natural [OF ok ends(2) lo]
      offset_natural [OF ok ends(3) lo, of "BoundedIntT D"] by (simp_all add: W_def)
  have mul: "bits_of W (bits_of W a * bits_of W b) = bits_of W (a * b)" by (simp add: bits_of_def mod_simps)
  show ?thesis
    using widen_eval [OF assms(1) S(3) assms(5) S(5) widths(1)] widen_eval [OF assms(1) T(3) assms(6) T(5) widths(2)]
      adjust_eval [OF assms(1) W0 shift(1), of "a - offset sty S"] adjust_eval [OF assms(1) W0 shift(2), of "b - offset tty T"]
      adjust_eval [OF assms(1) W0 shift(3), of "a * b"] S(1,2) T(1,2) D(1,2) assms(8-10) widths
      resize_eval [OF assms(1) W0 repr_bit_width_le(2) [of D], of "a * b - rng_lower D"]
    by (simp add: build_mul_def Let_def C_def [symmetric] W_def [symmetric] emitted assms(1) mul)
qed

section \<open>Division\<close>

text \<open>The ranges of quotient and remainder.\<close>

definition quo_range :: "int_range_t \<Rightarrow> int_range_t \<Rightarrow> int_range_t" where
  "quo_range S T = \<lparr>rng_lower = rng_lower S div (rng_upper T - 1),
    rng_upper = (rng_upper S - 1) div rng_lower T + 1\<rparr>"

definition rem_range :: "int_range_t \<Rightarrow> int_range_t" where
  "rem_range T = \<lparr>rng_lower = 0, rng_upper = rng_upper T - 1\<rparr>"

lemma quo_rem_sound:
  assumes "in_range S a" "in_range T b" "0 \<le> rng_lower S" "0 < rng_lower T"
  shows "in_range (quo_range S T) (a div b)" "in_range (rem_range T) (a mod b)"
proof -
  have x: "rng_lower S \<le> a" "a \<le> rng_upper S - 1" and y: "rng_lower T \<le> b" "b \<le> rng_upper T - 1"
    using assms(1,2) by (simp_all add: in_range_def)
  have pos: "0 \<le> a" "0 < b" using x y assms(3,4) by linarith+
  have "rng_lower S div (rng_upper T - 1) \<le> a div (rng_upper T - 1)"
    using x y pos by (intro zdiv_mono1) auto
  also have "\<dots> \<le> a div b" using y pos by (intro zdiv_mono2) auto
  finally have lo: "rng_lower S div (rng_upper T - 1) \<le> a div b" .
  have "a div b \<le> a div rng_lower T" using y pos assms(4) by (intro zdiv_mono2) auto
  also have "\<dots> \<le> (rng_upper S - 1) div rng_lower T" using x assms(4) by (intro zdiv_mono1) auto
  finally show "in_range (quo_range S T) (a div b)" using lo by (simp add: in_range_def quo_range_def)
  have "a mod b < b" "0 \<le> a mod b" using pos by simp_all
  with y show "in_range (rem_range T) (a mod b)" by (simp add: in_range_def rem_range_def)
qed

lemma build_div_rem_eval:
  assumes "mlir_ok M" "stored R s sty S" "stored R t tty T"
    and "num_type R q (BoundedIntT Q) Q" "num_type R r (BoundedIntT L) L"
    and "number sty S a v x" "number tty T b w y" "Q = quo_range S T" "L = rem_range T"
    and "0 \<le> rng_lower S" "0 < rng_lower T" "D S T = Some alg"
    and "param_ty sg 1 = Some s" "param_ty sg 2 = Some t" "branch_ty sg 0 1 = Some q" "branch_ty sg 0 2 = Some r"
    and "fits_unsigned 64 n"
  shows "\<exists>k. build_div_rem M D R sg [IV 64 n, x, y] =
    Some (Branch 0 [IV 64 k, IV (repr_bit_width Q) (bits_of (repr_bit_width Q) (a div b - rng_lower Q)),
      IV (repr_bit_width L) (bits_of (repr_bit_width L) (a mod b - rng_lower L))])"
proof -
  obtain s' where S: "integer_operand R s = Some (s', S)" "repr_bias R (s', S) = Some (offset sty S)"
    "is_bounded_int R s' = Ok (bounded_ty sty)" "range_ok S" "sty \<noteq> Felt252T"
    using stored_operand [OF assms(2)] by metis
  obtain t' where T: "integer_operand R t = Some (t', T)" "repr_bias R (t', T) = Some (offset tty T)"
    "is_bounded_int R t' = Ok (bounded_ty tty)" "range_ok T" "tty \<noteq> Felt252T"
    using stored_operand [OF assms(3)] by metis
  have q: "stored R q (BoundedIntT Q) Q" using assms(4) by (rule num_stored) simp
  obtain q' where Q: "integer_operand R q = Some (q', Q)" "repr_bias R (q', Q) = Some (rng_lower Q)"
    "range_ok Q" using stored_operand [OF q] by (metis bounded_offset)
  have r: "stored R r (BoundedIntT L) L" using assms(5) by (rule num_stored) simp
  obtain r' where L: "integer_operand R r = Some (r', L)" "repr_bias R (r', L) = Some (rng_lower L)"
    "range_ok L" using stored_operand [OF r] by (metis bounded_offset)
  define C where "C = \<lparr>rng_lower = 0, rng_upper = max (rng_upper S) (rng_upper T)\<rparr>"
  define W where "W = zero_based_bit_width C"
  have ok: "range_ok C" using S(4) T(4) assms(10,11) by (auto simp: range_ok_def C_def)
  have W0: "0 < W" by (simp add: W_def)
  have widths: "repr_bit_width S \<le> W" "repr_bit_width T \<le> W"
    unfolding W_def by (rule repr_le_compute [OF S(4) ok] repr_le_compute [OF T(4) ok];
      use assms(10,11) in \<open>simp add: C_def\<close>)+
  have in_S: "in_range S a" and in_T: "in_range T b" using number_in_range assms(6,7) by auto
  have in_Q: "in_range Q (a div b)" and in_L: "in_range L (a mod b)"
    using quo_rem_sound [OF in_S in_T assms(10,11)] assms(8,9) by simp_all
  have nat: "fits_unsigned W i" if "in_range C i" for i
    using range_natural [OF ok order_refl that] by (simp add: natural_at_def W_def C_def)
  have fits: "fits_unsigned W a" "fits_unsigned W b" "fits_unsigned W (rng_lower S)" "fits_unsigned W (rng_lower T)"
    using in_S in_T S(4) T(4) assms(10,11) by (auto intro!: nat simp: in_range_def C_def range_ok_def)
  have pos: "0 \<le> a" "0 < b" using in_S in_T assms(10,11) by (simp_all add: in_range_def)
  have shift: "fits_unsigned W \<bar>- offset sty S\<bar>" "fits_unsigned W \<bar>- offset tty T\<bar>"
    using fits by (auto simp: offset_def fits_unsigned_def)
  have low_Q: "0 \<le> rng_lower Q" "rng_lower L = 0" using assms(8-11) T(4)
    by (auto simp: quo_range_def rem_range_def range_ok_def intro!: pos_imp_zdiv_nonneg_iff [THEN iffD2])
  have "a div b \<le> a" "a mod b \<le> a" "0 \<le> a div b" "0 \<le> a mod b"
    using pos zdiv_mono2 [of a 1 b] by (simp_all add: zmod_le_nonneg_dividend pos_imp_zdiv_nonneg_iff)
  then have res: "fits_unsigned W (a div b)" "fits_unsigned W (a mod b)" "fits_unsigned W (a div b - rng_lower Q)"
    "fits_unsigned W (a mod b - rng_lower L)" "fits_unsigned W \<bar>rng_lower Q\<bar>" "fits_unsigned W \<bar>rng_lower L\<bar>"
    using fits(1) in_Q in_L low_Q unfolding fits_unsigned_def in_range_def by linarith+
  have same: "bits_of W a = a" "bits_of W b = b" using fits by (simp_all add: bits_fits)
  have ops: "binary M Divui (IV W a) (IV W b) = Some (IV W (bits_of W (a div b)))"
    "binary M Remui (IV W a) (IV W b) = Some (IV W (bits_of W (a mod b)))"
    using assms(1) fits pos res by (simp_all add: emitted bits_fits)
  have count: "fits_unsigned 64 (3 * RANGE_CHECK_BUILTIN_SIZE)" "fits_unsigned 64 (4 * RANGE_CHECK_BUILTIN_SIZE)"
    by (simp_all add: fits_unsigned_def RANGE_CHECK_BUILTIN_SIZE_def)
  have "\<exists>k. (case alg of KnownSmallRhs \<Rightarrow> increment_builtin_counter_by M (IV 64 n) (3 * RANGE_CHECK_BUILTIN_SIZE)
        | KnownSmallQuotient \<Rightarrow> increment_builtin_counter_by M (IV 64 n) (4 * RANGE_CHECK_BUILTIN_SIZE)
        | KnownSmallLhs \<Rightarrow> increment_builtin_counter_by M (IV 64 n) (4 * RANGE_CHECK_BUILTIN_SIZE)) = Some (IV 64 k)"
    using assms(1,17) count by (cases alg) (auto simp: emitted)
  then show ?thesis
    using widen_eval [OF assms(1) S(3) assms(6) S(5) widths(1)] widen_eval [OF assms(1) T(3) assms(7) T(5) widths(2)]
      adjust_eval [OF assms(1) W0 shift(1), of "a - offset sty S"] adjust_eval [OF assms(1) W0 shift(2), of "b - offset tty T"]
      adjust_eval [OF assms(1) W0 res(5), of "a div b"] adjust_eval [OF assms(1) W0 res(6), of "a mod b"]
      S(1,2) T(1,2) Q(1,2) L(1,2) assms(12-16) widths ops same low_Q(2)
      resize_eval [OF assms(1) W0 repr_bit_width_le(2) [of Q] disjI2 [OF res(3)]]
      resize_eval [OF assms(1) W0 repr_bit_width_le(2) [of L] disjI2 [OF res(4)]]
    by (auto simp: build_div_rem_def Let_def C_def [symmetric] W_def [symmetric] br_emitted)
qed

section \<open>Splitting\<close>

text \<open>A number of the range as bits at the width of the type, and when two of them are equal.\<close>

lemma offset_fits:
  assumes "stored R s ty S" "in_range S i"
  shows "fits_unsigned (repr_bit_width S) (i - offset ty S) \<or> fits_signed (repr_bit_width S) (i - offset ty S)"
    "fits_unsigned (repr_bit_width S) \<bar>i - offset ty S\<bar>"
    "(rng_lower S < 0 \<and> \<not> bounded_ty ty) \<longrightarrow> fits_signed (repr_bit_width S) (i - offset ty S)"
    "\<not> (rng_lower S < 0 \<and> \<not> bounded_ty ty) \<longrightarrow> fits_unsigned (repr_bit_width S) (i - offset ty S)"
proof -
  have W: "0 < repr_bit_width S" by (rule repr_bit_width_le(2))
  have ok: "range_ok S" using assms(1) stored_operand by metis
  from assms(1) consider (b) "ty = BoundedIntT S"
    | (m) lo w where "int_bounds ty = Some (lo, w)" "S = \<lparr>rng_lower = lo, rng_upper = lo + 2 ^ w\<rparr>"
    by (auto simp: stored_def num_type_def)
  then have "(rng_lower S < 0 \<and> \<not> bounded_ty ty) \<and> fits_signed (repr_bit_width S) (i - offset ty S) \<or>
    \<not> (rng_lower S < 0 \<and> \<not> bounded_ty ty) \<and> fits_unsigned (repr_bit_width S) (i - offset ty S)"
  proof cases
    case b
    then show ?thesis using size_width [OF ok assms(2)] by (simp add: bounded_ty_def)
  next
    case m
    have nb: "\<not> bounded_ty ty" using m(1) by (auto simp: bounded_ty_def elim: int_bounds_cases)
    note mw = machine_width [OF m(1)]
    have "(2 :: int) ^ w = 2 * 2 ^ (w - 1)" using mw(3) by (cases w) simp_all
    then show ?thesis using assms(2) nb mw m(2)
      by (auto simp: offset_def in_range_def fits_signed_def fits_unsigned_def)
  qed
  then show "fits_unsigned (repr_bit_width S) (i - offset ty S) \<or> fits_signed (repr_bit_width S) (i - offset ty S)"
    "(rng_lower S < 0 \<and> \<not> bounded_ty ty) \<longrightarrow> fits_signed (repr_bit_width S) (i - offset ty S)"
    "\<not> (rng_lower S < 0 \<and> \<not> bounded_ty ty) \<longrightarrow> fits_unsigned (repr_bit_width S) (i - offset ty S)"
    by blast+
  have two: "(2 :: int) ^ repr_bit_width S = 2 * 2 ^ (repr_bit_width S - 1)"
    using W by (cases "repr_bit_width S") simp_all
  have pos: "(0 :: int) < 2 ^ (repr_bit_width S - 1)" by simp
  show "fits_unsigned (repr_bit_width S) \<bar>i - offset ty S\<bar>"
    using \<open>fits_unsigned (repr_bit_width S) (i - offset ty S) \<or> fits_signed (repr_bit_width S) (i - offset ty S)\<close> two pos
    unfolding fits_signed_def fits_unsigned_def by linarith
qed

lemma offset_compare:
  assumes "stored R s ty S" "in_range S i" "in_range S j"
  defines "w \<equiv> repr_bit_width S"
  defines "x \<equiv> bits_of w (i - offset ty S)" and "y \<equiv> bits_of w (j - offset ty S)"
  shows "x = y \<longleftrightarrow> i = j"
    "cmpi_spec (if rng_lower S < 0 \<and> \<not> bounded_ty ty then CmpSlt else CmpUlt) w x y \<longleftrightarrow> i < j"
proof -
  have W: "0 < w" unfolding w_def by (rule repr_bit_width_le(2))
  note fi = offset_fits [OF assms(1,2), folded w_def] and fj = offset_fits [OF assms(1,3), folded w_def]
  have same: "i = j \<Longrightarrow> x = y" by (simp add: x_def y_def)
  have "(x = y \<longleftrightarrow> i = j) \<and>
    (cmpi_spec (if rng_lower S < 0 \<and> \<not> bounded_ty ty then CmpSlt else CmpUlt) w x y \<longleftrightarrow> i < j)"
  proof (cases "rng_lower S < 0 \<and> \<not> bounded_ty ty")
    case True
    then have "signed_of w x = i - offset ty S" "signed_of w y = j - offset ty S"
      using fi(3) fj(3) W by (auto simp: x_def y_def fits_signed_def intro!: signed_of_bits)
    then have "x = y \<longrightarrow> i = j" "signed_of w x < signed_of w y \<longleftrightarrow> i < j" by auto
    with True same show ?thesis by simp blast
  next
    case False
    then have "x = i - offset ty S" "y = j - offset ty S"
      using fi(4) fj(4) by (auto simp: x_def y_def intro!: bits_fits)
    then have "x = y \<longrightarrow> i = j" "x < y \<longleftrightarrow> i < j" by auto
    with False same show ?thesis by auto
  qed
  then show "x = y \<longleftrightarrow> i = j"
    "cmpi_spec (if rng_lower S < 0 \<and> \<not> bounded_ty ty then CmpSlt else CmpUlt) w x y \<longleftrightarrow> i < j" by auto
qed

lemma offset_const:
  assumes "mlir_ok M" "stored R s ty S" "in_range S i"
  shows "const_int M (i - offset ty S) (repr_bit_width S) =
    Some (IV (repr_bit_width S) (bits_of (repr_bit_width S) (i - offset ty S)))"
  using offset_fits(1) [OF assms(2,3)] assms(1) repr_bit_width_le(2) [of S] by (simp add: emitted)

text \<open>Moving a number to a bounded type inside its own range.\<close>

lemma move_eval:
  assumes "mlir_ok M" "stored R s ty S" "stored R l (BoundedIntT L) L" "rng_lower S \<le> rng_lower L" "rng_upper L \<le> rng_upper S"
  defines "w \<equiv> repr_bit_width S"
  shows "adjust M (IV w (bits_of w (a - offset ty S))) (rng_lower L - offset ty S) =
      Some (IV w (bits_of w (a - rng_lower L)))"
    "resize_int M (IV w (bits_of w (a - rng_lower L))) w (repr_bit_width L) =
      Some (IV (repr_bit_width L) (bits_of (repr_bit_width L) (a - rng_lower L)))"
proof -
  have W: "0 < w" unfolding w_def by (rule repr_bit_width_le(2))
  have ok: "range_ok S" "range_ok L" using assms(2,3) stored_operand by metis+
  have "in_range S (rng_lower L)" using assms(4,5) ok by (simp add: in_range_def range_ok_def)
  from adjust_eval [OF assms(1) W offset_fits(2) [OF assms(2) this, folded w_def], of "a - offset ty S"]
  show "adjust M (IV w (bits_of w (a - offset ty S))) (rng_lower L - offset ty S) =
      Some (IV w (bits_of w (a - rng_lower L)))" by simp
  have "repr_bit_width L \<le> w" unfolding w_def
    using assms(4,5) ok by (intro repr_width_mono) (auto simp: range_size_def)
  then show "resize_int M (IV w (bits_of w (a - rng_lower L))) w (repr_bit_width L) =
      Some (IV (repr_bit_width L) (bits_of (repr_bit_width L) (a - rng_lower L)))"
    using resize_eval [OF assms(1) W repr_bit_width_le(2) [of L]] by blast
qed

lemma stored_signed:
  assumes "stored R s ty S" "integer_operand R s = Some (s', S)"
  shows "is_signed_repr R s' = Some (rng_lower S < 0 \<and> \<not> bounded_ty ty)"
proof -
  obtain ty' where "integer_operand R s = Some (ty', S)" "is_bounded_int R ty' = Ok (bounded_ty ty)"
    "native_integer_range R ty' = Ok S" using stored_operand [OF assms(1)] by metis
  with assms(2) show ?thesis by (simp add: is_signed_repr_def)
qed

lemma build_constrain_eval:
  assumes "mlir_ok M" "stored R s sty S" "stored R l (BoundedIntT L) L" "stored R u (BoundedIntT U) U"
    and "number sty S a v x" "L = S\<lparr>rng_upper := c\<rparr>" "U = S\<lparr>rng_lower := c\<rparr>"
    and "param_ty sg 1 = Some s" "branch_ty sg 0 1 = Some l" "branch_ty sg 1 1 = Some u" "fits_unsigned 64 n"
  shows "\<exists>k. build_constrain M R sg c [IV 64 n, x] =
    Some (if a < c then Branch 0 [IV 64 k, IV (repr_bit_width L) (bits_of (repr_bit_width L) (a - rng_lower L))]
      else Branch 1 [IV 64 k, IV (repr_bit_width U) (bits_of (repr_bit_width U) (a - rng_lower U))])"
proof -
  obtain s' where S: "integer_operand R s = Some (s', S)" "repr_bias R (s', S) = Some (offset sty S)"
    "range_ok S" using stored_operand [OF assms(2)] by metis
  obtain l' where L: "integer_operand R l = Some (l', L)" "repr_bias R (l', L) = Some (rng_lower L)" "range_ok L"
    using stored_operand [OF assms(3)] by (metis bounded_offset)
  obtain u' where U: "integer_operand R u = Some (u', U)" "repr_bias R (u', U) = Some (rng_lower U)" "range_ok U"
    using stored_operand [OF assms(4)] by (metis bounded_offset)
  have bounds: "rng_lower S < c" "c < rng_upper S" using L(3) U(3) assms(6,7) by (simp_all add: range_ok_def)
  then have in_c: "in_range S c" by (simp add: in_range_def)
  have in_a: "in_range S a" by (rule number_in_range [OF assms(5)])
  have toL: "rng_lower S \<le> rng_lower L" "rng_upper L \<le> rng_upper S"
    and toU: "rng_lower S \<le> rng_lower U" "rng_upper U \<le> rng_upper S"
    using assms(6,7) bounds by simp_all
  define w where "w = repr_bit_width S"
  note x = number_rep(1) [OF assms(5), folded w_def]
  have cmp: "cmpi M (if rng_lower S < 0 \<and> \<not> bounded_ty sty then CmpSlt else CmpUlt) x
      (IV w (bits_of w (c - offset sty S))) = Some (bit_val (a < c))"
    using offset_compare(2) [OF assms(2) in_a in_c, folded w_def] assms(1) x by (simp add: emitted)
  show ?thesis
    using S L U cmp x assms(1,8-11) offset_const [OF assms(1,2) in_c, folded w_def] stored_signed [OF assms(2) S(1)]
      move_eval [OF assms(1-3) toL, of a, folded w_def] move_eval [OF assms(1,2,4) toU, of a, folded w_def]
    by (auto simp: build_constrain_def adjust_to_output_def Let_def w_def [symmetric] emitted)
qed

lemma build_trim_eval:
  assumes "mlir_ok M" "stored R s sty S" "num_type R l (BoundedIntT L) L" "number sty S a v x"
    and "c = rng_lower S \<and> L = S\<lparr>rng_lower := rng_lower S + 1\<rparr> \<or>
      c = rng_upper S - 1 \<and> L = S\<lparr>rng_upper := rng_upper S - 1\<rparr>"
    and "param_ty sg 0 = Some s" "branch_ty sg 1 0 = Some l"
  shows "build_trim M R sg c [x] =
    Some (if a = c then Branch 0 []
      else Branch 1 [IV (repr_bit_width L) (bits_of (repr_bit_width L) (a - rng_lower L))])"
proof -
  obtain s' where S: "integer_operand R s = Some (s', S)" "repr_bias R (s', S) = Some (offset sty S)"
    "range_ok S" using stored_operand [OF assms(2)] by metis
  have l: "stored R l (BoundedIntT L) L" using assms(3) by (rule num_stored) simp
  obtain l' where L: "integer_operand R l = Some (l', L)" "repr_bias R (l', L) = Some (rng_lower L)" "range_ok L"
    using stored_operand [OF l] by (metis bounded_offset)
  have in_c: "in_range S c" and to_L: "rng_lower S \<le> rng_lower L" "rng_upper L \<le> rng_upper S"
    using assms(5) S(3) by (auto simp: in_range_def range_ok_def)
  have in_a: "in_range S a" by (rule number_in_range [OF assms(4)])
  define w where "w = repr_bit_width S"
  note x = number_rep(1) [OF assms(4), folded w_def]
  have cmp: "cmpi M CmpEq x (IV w (bits_of w (c - offset sty S))) = Some (bit_val (a = c))"
    using offset_compare(1) [OF assms(2) in_a in_c, folded w_def] assms(1) x by (simp add: emitted)
  show ?thesis
    using S L cmp x assms(1,6-7) offset_const [OF assms(1,2) in_c, folded w_def]
      move_eval [OF assms(1,2) l to_L, of a, folded w_def]
    by (auto simp: build_trim_def Let_def w_def [symmetric] emitted)
qed

lemma build_bounded_is_zero_eval:
  assumes "mlir_ok M" "stored R s sty S" "number sty S a v x" "in_range S 0" "param_ty sg 0 = Some s"
  shows "build_bounded_is_zero M R sg [x] = Some (if a = 0 then Branch 0 [] else Branch 1 [x])"
proof -
  obtain s' where S: "integer_operand R s = Some (s', S)" "repr_bias R (s', S) = Some (offset sty S)"
    "range_ok S" using stored_operand [OF assms(2)] by metis
  have in_a: "in_range S a" by (rule number_in_range [OF assms(3)])
  define w where "w = repr_bit_width S"
  note x = number_rep(1) [OF assms(3), folded w_def]
  have cmp: "cmpi M CmpEq x (IV w (bits_of w (- offset sty S))) = Some (bit_val (a = 0))"
    using offset_compare(1) [OF assms(2) in_a assms(4), folded w_def] assms(1) x by (simp add: emitted)
  show ?thesis
    using S cmp x assms(1,4,5) offset_const [OF assms(1,2,4), folded w_def]
    by (auto simp: build_bounded_is_zero_def in_range_def w_def [symmetric] emitted)
qed

section \<open>All bounded integer libfuncs\<close>

text \<open>
  What a call looks like that agrees: the operands are numbers of the declared types, and the
  result types have the ranges the operation gives. A non-zero wrapper around an operand or a
  half range is allowed. The divisor is positive and the dividend is not negative.
\<close>

inductive bounded_call ::
  "registry \<Rightarrow> div_rem_choice \<Rightarrow> signature \<Rightarrow> bounded_int_lib \<Rightarrow> val list \<Rightarrow> ir_val list \<Rightarrow> bool"
  for R D sg where
  call_add: "stored R s sty S \<Longrightarrow> stored R t tty T \<Longrightarrow> num_type R d (BoundedIntT (range_add S T)) (range_add S T) \<Longrightarrow>
    number sty S a v x \<Longrightarrow> number tty T b w y \<Longrightarrow>
    param_ty sg 0 = Some s \<Longrightarrow> param_ty sg 1 = Some t \<Longrightarrow> branch_ty sg 0 0 = Some d \<Longrightarrow>
    bounded_call R D sg BIAdd [v, w] [x, y]"
| call_sub: "stored R s sty S \<Longrightarrow> stored R t tty T \<Longrightarrow> num_type R d (BoundedIntT (range_sub S T)) (range_sub S T) \<Longrightarrow>
    number sty S a v x \<Longrightarrow> number tty T b w y \<Longrightarrow>
    param_ty sg 0 = Some s \<Longrightarrow> param_ty sg 1 = Some t \<Longrightarrow> branch_ty sg 0 0 = Some d \<Longrightarrow>
    bounded_call R D sg BISub [v, w] [x, y]"
| call_mul: "stored R s sty S \<Longrightarrow> stored R t tty T \<Longrightarrow> num_type R d (BoundedIntT (range_mul S T)) (range_mul S T) \<Longrightarrow>
    number sty S a v x \<Longrightarrow> number tty T b w y \<Longrightarrow>
    param_ty sg 0 = Some s \<Longrightarrow> param_ty sg 1 = Some t \<Longrightarrow> branch_ty sg 0 0 = Some d \<Longrightarrow>
    bounded_call R D sg BIMul [v, w] [x, y]"
| call_div_rem: "stored R s sty S \<Longrightarrow> stored R t tty T \<Longrightarrow>
    num_type R q (BoundedIntT (quo_range S T)) (quo_range S T) \<Longrightarrow>
    num_type R r (BoundedIntT (rem_range T)) (rem_range T) \<Longrightarrow>
    number sty S a v x \<Longrightarrow> number tty T b w y \<Longrightarrow> 0 \<le> rng_lower S \<Longrightarrow> 0 < rng_lower T \<Longrightarrow> D S T = Some alg \<Longrightarrow>
    param_ty sg 1 = Some s \<Longrightarrow> param_ty sg 2 = Some t \<Longrightarrow> branch_ty sg 0 1 = Some q \<Longrightarrow> branch_ty sg 0 2 = Some r \<Longrightarrow>
    fits_unsigned 64 n \<Longrightarrow> bounded_call R D sg BIDivRem [Unit, v, w] [IV 64 n, x, y]"
| call_constrain: "stored R s sty S \<Longrightarrow> number sty S a v x \<Longrightarrow>
    stored R l (BoundedIntT (S\<lparr>rng_upper := c\<rparr>)) (S\<lparr>rng_upper := c\<rparr>) \<Longrightarrow>
    stored R u (BoundedIntT (S\<lparr>rng_lower := c\<rparr>)) (S\<lparr>rng_lower := c\<rparr>) \<Longrightarrow>
    param_ty sg 1 = Some s \<Longrightarrow> branch_ty sg 0 1 = Some l \<Longrightarrow> branch_ty sg 1 1 = Some u \<Longrightarrow>
    fits_unsigned 64 n \<Longrightarrow> bounded_call R D sg (BIConstrain c) [Unit, v] [IV 64 n, x]"
| call_trim_min: "stored R s sty S \<Longrightarrow> number sty S a v x \<Longrightarrow> L = S\<lparr>rng_lower := rng_lower S + 1\<rparr> \<Longrightarrow>
    num_type R l (BoundedIntT L) L \<Longrightarrow> param_ty sg 0 = Some s \<Longrightarrow> branch_ty sg 1 0 = Some l \<Longrightarrow>
    bounded_call R D sg (BITrimMin (rng_lower S)) [v] [x]"
| call_trim_max: "stored R s sty S \<Longrightarrow> number sty S a v x \<Longrightarrow> L = S\<lparr>rng_upper := rng_upper S - 1\<rparr> \<Longrightarrow>
    num_type R l (BoundedIntT L) L \<Longrightarrow> param_ty sg 0 = Some s \<Longrightarrow> branch_ty sg 1 0 = Some l \<Longrightarrow>
    bounded_call R D sg (BITrimMax (rng_upper S - 1)) [v] [x]"
| call_is_zero: "num_type R s sty S \<Longrightarrow> sty \<noteq> Felt252T \<Longrightarrow> number sty S a v x \<Longrightarrow> in_range S 0 \<Longrightarrow>
    get_type R t = Some (NonZeroT s) \<Longrightarrow> 1 < rec_limit R \<Longrightarrow> param_ty sg 0 = Some s \<Longrightarrow> branch_ty sg 1 0 = Some t \<Longrightarrow>
    bounded_call R D sg BIIsZero [v] [x]"
| call_wrap_non_zero: "num_type R s sty S \<Longrightarrow> number sty S a v x \<Longrightarrow> \<not> in_range S 0 \<Longrightarrow> param_ty sg 0 = Some s \<Longrightarrow>
    bounded_call R D sg BIWrapNonZero [v] [x]"
| call_verify: "fits_unsigned 64 n \<Longrightarrow> bounded_call R D sg BIGuaranteeVerify [Unit, g] [IV 64 n, z]"
| call_limbs: "bounded_call R D sg BIU128ToU32Guarantees [U128 e] [IV 128 (uint e)]"

lemma stored_bounded_range: "stored R t (BoundedIntT L) L' \<Longrightarrow> bounded_range R t = Some L"
  by (auto simp: stored_def num_type_def bounded_range_def elim: int_bounds_cases)

lemma num_bounded_range:
  "num_type R t (BoundedIntT L) L' \<Longrightarrow> bounded_range R t = Some L"
  "num_type R t (BoundedIntT L) L' \<Longrightarrow> bounded_range_strict R t = Some L"
  by (auto simp: num_type_def bounded_range_def bounded_range_strict_def)

lemma number_numeric: "number ty S a v x \<Longrightarrow> numeric_arg v = Some a"
  using number_reads [of ty S a v x] by (cases "numeric_arg v") simp_all

lemma number_trims:
  assumes "number ty S a v x" "ty \<noteq> Felt252T"
  shows "trim_arg v = Some a"
proof -
  have "trim_arg v = numeric_arg v"
    using assms
  proof cases
    case (machine_number lo w)
    from machine_number(3) show ?thesis
      by (cases rule: int_bounds_cases)
        (use machine_number(4) in \<open>auto simp: encode_at_def trim_arg_def numeric_arg_def\<close>)
  qed (use assms(2) in \<open>simp_all add: trim_arg_def numeric_arg_def\<close>)
  with number_numeric [OF assms(1)] show ?thesis by simp
qed

lemma nonzero_value:
  assumes "num_type R s ty S" "get_type R t = Some (NonZeroT s)" "1 < rec_limit R"
  shows "get_value_from_integer R t a = get_value_from_integer R s a"
proof -
  obtain k where k: "rec_limit R = Suc (Suc k)" using assms(3) by (metis less_iff_Suc_add add_Suc One_nat_def)
  show ?thesis using assms(1,2)
    by (auto simp: get_value_from_integer_def k num_type_def elim!: int_bounds_cases)
qed

lemma limb_width: "repr_bit_width \<lparr>rng_lower = 0, rng_upper = 4294967296\<rparr> = 32"
  using machine_width(1) [of Uint32T 0 32] by (simp add: int_bounds_def)

lemma limbs_agree:
  assumes "mlir_ok M"
  shows "agrees (eval_u128_to_u32_guarantees [U128 e]) (build_u128_to_u32_guarantees M [IV 128 (uint e)])"
proof -
  have e: "fits_unsigned 128 (uint e)" using unsigned_less [of e] by (simp add: fits_unsigned_def)
  have k: "const_int M 32 128 = Some (IV 128 32)" "const_int M 64 128 = Some (IV 128 64)"
    "const_int M 96 128 = Some (IV 128 96)"
    using assms by (simp_all add: emitted fits_unsigned_def bits_of_def)
  have "binary M Shrui (IV 128 (uint e)) (IV 128 (int n)) = Some (IV 128 (uint e div 2 ^ n))" if "n < 128" for n
    using assms e that by (simp add: emitted fits_unsigned_def)
  from this [of 32] this [of 64] this [of 96]
  have s: "binary M Shrui (IV 128 (uint e)) (IV 128 32) = Some (IV 128 (uint e div 2 ^ 32))"
    "binary M Shrui (IV 128 (uint e)) (IV 128 64) = Some (IV 128 (uint e div 2 ^ 64))"
    "binary M Shrui (IV 128 (uint e)) (IV 128 96) = Some (IV 128 (uint e div 2 ^ 96))" by simp_all
  have fits: "fits_unsigned 128 (uint e div 2 ^ n)" for n
    using e zdiv_mono2 [of "uint e" 1 "2 ^ n"] by (auto simp: fits_unsigned_def pos_imp_zdiv_nonneg_iff)
  have t: "convert (ml_trunci M) (IV 128 z) (IntTy 32) = Some (IV 32 (z mod 2 ^ 32))" if "fits_unsigned 128 z" for z
    using assms that by (simp add: emitted bits_of_def)
  have "uint (ucast e :: u32) = uint e mod 2 ^ 32" using limb_div [of 0 e] by simp
  then show ?thesis
    using k s t [OF e] t [OF fits, of 32] t [OF fits, of 64] t [OF fits, of 96]
    by (simp add: eval_u128_to_u32_guarantees_def build_u128_to_u32_guarantees_def u32_limb_def limb_div
        Let_def br_emitted limb_width)
qed

text \<open>One lemma per libfunc; the hypothesis on \<open>bounded_call\<close> has one case in each.\<close>

lemma add_code_agrees:
  assumes "mlir_ok M" "bounded_call R D sg BIAdd args xs"
  shows "agrees (eval_bounded_int R sg BIAdd args) (build_bounded_int M D R sg BIAdd xs)"
  using assms(2)
proof cases
  case (call_add s sty S t tty T d a v x b w y)
  note eval = build_linear_eval [OF assms(1) call_add(3-7), where op = Addi and f = "(+)" and sg = sg]
  have "range_ok (range_add S T)" using call_add(5) by (simp add: num_type_def)
  from bounded_result [OF this eval(2)] show ?thesis
    using call_add eval(1) number_numeric [OF call_add(6)] number_numeric [OF call_add(7)] num_bounded_range [OF call_add(5)]
    by (simp add: eval_bounded_int_def build_bounded_int_def eval_bounded_add_def build_add_def linear_range_def)
qed

lemma sub_code_agrees:
  assumes "mlir_ok M" "bounded_call R D sg BISub args xs"
  shows "agrees (eval_bounded_int R sg BISub args) (build_bounded_int M D R sg BISub xs)"
  using assms(2)
proof cases
  case (call_sub s sty S t tty T d a v x b w y)
  note eval = build_linear_eval [OF assms(1) call_sub(3-7), where op = Subi and f = "(-)" and sg = sg]
  have "range_ok (range_sub S T)" using call_sub(5) by (simp add: num_type_def)
  from bounded_result [OF this eval(2)] show ?thesis
    using call_sub eval(1) number_numeric [OF call_sub(6)] number_numeric [OF call_sub(7)] num_bounded_range [OF call_sub(5)]
    by (simp add: eval_bounded_int_def build_bounded_int_def eval_bounded_sub_def build_sub_def linear_range_def)
qed

lemma mul_code_agrees:
  assumes "mlir_ok M" "bounded_call R D sg BIMul args xs"
  shows "agrees (eval_bounded_int R sg BIMul args) (build_bounded_int M D R sg BIMul xs)"
  using assms(2)
proof cases
  case (call_mul s sty S t tty T d a v x b w y)
  have "range_ok (range_mul S T)" using call_mul(5) by (simp add: num_type_def)
  from bounded_result [OF this range_mul_sound] build_mul_eval [OF assms(1) call_mul(3-7) refl call_mul(8-10)]
  show ?thesis
    using call_mul number_numeric [OF call_mul(6)] number_numeric [OF call_mul(7)] num_bounded_range [OF call_mul(5)]
      number_in_range [OF call_mul(6)] number_in_range [OF call_mul(7)]
    by (simp add: eval_bounded_int_def build_bounded_int_def eval_bounded_mul_def)
qed

lemma div_rem_code_agrees:
  assumes "mlir_ok M" "bounded_call R D sg BIDivRem args xs"
  shows "agrees (eval_bounded_int R sg BIDivRem args) (build_bounded_int M D R sg BIDivRem xs)"
  using assms(2)
proof cases
  case (call_div_rem s sty S t tty T q r a v x b w y alg n)
  have ok: "range_ok (quo_range S T)" "range_ok (rem_range T)" using call_div_rem(5,6) by (simp_all add: num_type_def)
  note in_S = number_in_range [OF call_div_rem(7)] and in_T = number_in_range [OF call_div_rem(8)]
  note sound = quo_rem_sound [OF in_S in_T call_div_rem(9,10)]
  have pos: "0 \<le> a" "0 < b" using in_S in_T call_div_rem(9,10) by (simp_all add: in_range_def)
  then have interp: "eval_bounded_int R sg BIDivRem args = Some (NormalBranch 0
      [Unit, BoundedInt (quo_range S T) (a div b), BoundedInt (rem_range T) (a mod b)])"
    using call_div_rem number_numeric [OF call_div_rem(7)] number_numeric [OF call_div_rem(8)] sound
      num_bounded_range [OF call_div_rem(5)] num_bounded_range [OF call_div_rem(6)]
    by (simp add: eval_bounded_int_def eval_div_rem_def big_div_def big_rem_def tdiv_nonneg tmod_nonneg)
  show ?thesis
    using build_div_rem_eval [where D = D and a = a and b = b, OF assms(1) call_div_rem(3-8) refl refl call_div_rem(9-16)]
      bounded_result [OF ok(1) sound(1)] bounded_result [OF ok(2) sound(2)] interp call_div_rem(2)
    by (auto simp: build_bounded_int_def)
qed

lemma constrain_code_agrees:
  assumes "mlir_ok M" "bounded_call R D sg (BIConstrain c) args xs"
  shows "agrees (eval_bounded_int R sg (BIConstrain c) args) (build_bounded_int M D R sg (BIConstrain c) xs)"
  using assms(2)
proof cases
  case (call_constrain s sty S a v x l u n)
  let ?L = "S\<lparr>rng_upper := c\<rparr>" and ?U = "S\<lparr>rng_lower := c\<rparr>"
  have ok: "range_ok ?L" "range_ok ?U" using stored_operand call_constrain(5,6) by metis+
  have in_S: "in_range S a" by (rule number_in_range [OF call_constrain(4)])
  then have L: "a < c \<Longrightarrow> in_range ?L a" and U: "\<not> a < c \<Longrightarrow> in_range ?U a" by (simp_all add: in_range_def)
  have interp: "eval_bounded_int R sg (BIConstrain c) args = Some (if a < c
      then NormalBranch 0 [Unit, BoundedInt ?L a] else NormalBranch 1 [Unit, BoundedInt ?U a])"
    using call_constrain number_numeric [OF call_constrain(4)] stored_bounded_range [OF call_constrain(5)]
      stored_bounded_range [OF call_constrain(6)] by (simp add: eval_bounded_int_def eval_constrain_def)
  show ?thesis
    using build_constrain_eval [OF assms(1) call_constrain(3,5,6,4) refl refl call_constrain(7-10)]
      bounded_result [OF ok(1) L] bounded_result [OF ok(2) U] interp call_constrain(2)
    by (auto simp: build_bounded_int_def)
qed

lemma trim_min_code_agrees:
  assumes "mlir_ok M" "bounded_call R D sg (BITrimMin c) args xs"
  shows "agrees (eval_bounded_int R sg (BITrimMin c) args) (build_bounded_int M D R sg (BITrimMin c) xs)"
  using assms(2)
proof cases
  case (call_trim_min s sty S a v x L l)
  have ok: "range_ok L" using call_trim_min(7) by (simp add: num_type_def)
  have "sty \<noteq> Felt252T" using call_trim_min(4) by (simp add: stored_def)
  then have interp: "eval_bounded_int R sg (BITrimMin c) args = Some (if a \<noteq> rng_lower S
      then NormalBranch 1 [BoundedInt L a] else NormalBranch 0 [])"
    using call_trim_min number_trims [OF call_trim_min(5)] num_bounded_range [OF call_trim_min(7)]
    by (simp add: eval_bounded_int_def eval_trim_def)
  have "a \<noteq> rng_lower S \<Longrightarrow> in_range L a"
    using number_in_range [OF call_trim_min(5)] call_trim_min(6) by (simp add: in_range_def)
  from bounded_result [OF ok this] show ?thesis
    using build_trim_eval [OF assms(1) call_trim_min(4,7,5) disjI1 [OF conjI [OF refl call_trim_min(6)]] call_trim_min(8,9)]
      interp call_trim_min(1,3) by (auto simp: build_bounded_int_def)
qed

lemma trim_max_code_agrees:
  assumes "mlir_ok M" "bounded_call R D sg (BITrimMax c) args xs"
  shows "agrees (eval_bounded_int R sg (BITrimMax c) args) (build_bounded_int M D R sg (BITrimMax c) xs)"
  using assms(2)
proof cases
  case (call_trim_max s sty S a v x L l)
  have ok: "range_ok L" using call_trim_max(7) by (simp add: num_type_def)
  have "sty \<noteq> Felt252T" using call_trim_max(4) by (simp add: stored_def)
  then have interp: "eval_bounded_int R sg (BITrimMax c) args = Some (if a \<noteq> rng_upper S - 1
      then NormalBranch 1 [BoundedInt L a] else NormalBranch 0 [])"
    using call_trim_max number_trims [OF call_trim_max(5)] num_bounded_range [OF call_trim_max(7)]
    by (simp add: eval_bounded_int_def eval_trim_def)
  have "a \<noteq> rng_upper S - 1 \<Longrightarrow> in_range L a"
    using number_in_range [OF call_trim_max(5)] call_trim_max(6) by (simp add: in_range_def)
  from bounded_result [OF ok this] show ?thesis
    using build_trim_eval [OF assms(1) call_trim_max(4,7,5) disjI2 [OF conjI [OF refl call_trim_max(6)]] call_trim_max(8,9)]
      interp call_trim_max(1,3) by (auto simp: build_bounded_int_def)
qed

lemma is_zero_code_agrees:
  assumes "mlir_ok M" "bounded_call R D sg BIIsZero args xs"
  shows "agrees (eval_bounded_int R sg BIIsZero args) (build_bounded_int M D R sg BIIsZero xs)"
  using assms(2)
proof cases
  case (call_is_zero s sty S a v x t)
  have st: "stored R s sty S" using call_is_zero(3,4) by (rule num_stored)
  obtain v' x' where v': "get_value_from_integer R s a = Some v'" "number sty S a v' x'"
    using get_value_number [OF call_is_zero(3) number_in_range [OF call_is_zero(5)]] by metis
  have rep: "represents v' x" using number_rep [OF v'(2)] number_rep(1) [OF call_is_zero(5)] by simp
  have "get_value_from_integer R t a = Some v'" if "a \<noteq> 0"
    using v'(1) call_is_zero(7,8) nonzero_value [OF call_is_zero(3,7,8)] by simp
  then have interp: "eval_bounded_int R sg BIIsZero args =
      Some (if a = 0 then NormalBranch 0 [] else NormalBranch 1 [v'])"
    using call_is_zero number_numeric [OF call_is_zero(5)] by (simp add: eval_bounded_int_def eval_bounded_is_zero_def)
  show ?thesis
    using build_bounded_is_zero_eval [OF assms(1) st call_is_zero(5,6,9)] interp rep call_is_zero(2)
    by (auto simp: build_bounded_int_def)
qed

lemma wrap_non_zero_code_agrees:
  assumes "mlir_ok M" "bounded_call R D sg BIWrapNonZero args xs"
  shows "agrees (eval_bounded_int R sg BIWrapNonZero args) (build_bounded_int M D R sg BIWrapNonZero xs)"
  using assms(2)
proof cases
  case (call_wrap_non_zero s sty S a v x)
  have "represents v x" by (rule number_rep(2) [OF call_wrap_non_zero(4)])
  moreover obtain ps where "param_signatures sg = s # ps"
    using call_wrap_non_zero(6) by (cases "param_signatures sg") (simp_all add: param_ty_def)
  moreover have "ty_range R s = Some S" "get_type R s = Some sty"
    using num_type_code [OF call_wrap_non_zero(3)] by (simp_all add: ty_range_def)
  moreover have "0 < rng_lower S \<or> rng_upper S \<le> 0" using call_wrap_non_zero(5) by (auto simp: in_range_def)
  ultimately show ?thesis using call_wrap_non_zero
    by (simp add: eval_bounded_int_def build_bounded_int_def eval_wrap_non_zero_def build_wrap_non_zero_def
        build_noop_def param_ty_def br_emitted)
qed

lemma verify_code_agrees:
  assumes "mlir_ok M" "bounded_call R D sg BIGuaranteeVerify args xs"
  shows "agrees (eval_bounded_int R sg BIGuaranteeVerify args) (build_bounded_int M D R sg BIGuaranteeVerify xs)"
  using assms(2)
proof cases
  case (call_verify n g z)
  then show ?thesis using assms(1)
    by (simp add: eval_bounded_int_def build_bounded_int_def eval_bounded_guarantee_verify_def
        build_guarantee_verify_def emitted fits_unsigned_def RANGE_CHECK_BUILTIN_SIZE_def)
qed

lemma limbs_code_agrees:
  assumes "mlir_ok M" "bounded_call R D sg BIU128ToU32Guarantees args xs"
  shows "agrees (eval_bounded_int R sg BIU128ToU32Guarantees args) (build_bounded_int M D R sg BIU128ToU32Guarantees xs)"
  using assms(2)
proof cases
  case (call_limbs e)
  then show ?thesis using limbs_agree [OF assms(1)] by (simp add: eval_bounded_int_def build_bounded_int_def)
qed

lemmas bounded_code_agrees = add_code_agrees sub_code_agrees mul_code_agrees div_rem_code_agrees constrain_code_agrees trim_min_code_agrees trim_max_code_agrees is_zero_code_agrees wrap_non_zero_code_agrees verify_code_agrees limbs_code_agrees

text \<open>
  C12: Bounded integers: compiled code leaves every libfunc by the branch the interpreter leaves
  it by, with the same number at the type of the result.
\<close>

theorem bounded_int_code_agrees:
  assumes "mlir_ok M" "bounded_call R D sg lib args xs"
  shows "agrees (eval_bounded_int R sg lib args) (build_bounded_int M D R sg lib xs)"
  using assms(2)
  by (cases lib) (simp_all add: bounded_code_agrees [OF assms(1)])

lemma bounded_int_code_agrees_witness:
  "agrees (eval_bounded_int sample_registry (sg_of [22, 23] [[40]]) BIMul
      [BoundedInt \<lparr>rng_lower = - 5, rng_upper = 11\<rparr> (- 3), BoundedInt \<lparr>rng_lower = 0, rng_upper = 4\<rparr> 2])
    (build_bounded_int ref_mlir (\<lambda>_ _. None) sample_registry (sg_of [22, 23] [[40]]) BIMul [IV 4 2, IV 2 2])"
proof -
  let ?S = "\<lparr>rng_lower = - 5, rng_upper = 11\<rparr>" and ?T = "\<lparr>rng_lower = 0, rng_upper = 4\<rparr>"
  have widths: "repr_bit_width ?S = 4" "repr_bit_width ?T = 2"
    by (simp_all add: repr_bit_width_def range_size_def big_bits_def bits.simps)
  have nums: "number (BoundedIntT ?S) ?S (- 3) (BoundedInt ?S (- 3)) (IV 4 2)"
    "number (BoundedIntT ?T) ?T 2 (BoundedInt ?T 2) (IV 2 2)"
    using bounded_number [of ?S "- 3"] bounded_number [of ?T 2] widths by (simp_all add: in_range_def range_ok_def)
  have st: "stored sample_registry 22 (BoundedIntT ?S) ?S" "stored sample_registry 23 (BoundedIntT ?T) ?T"
    by (simp_all add: stored_def num_type_def sample_types_def range_ok_def)
  have d: "num_type sample_registry 40 (BoundedIntT (range_mul ?S ?T)) (range_mul ?S ?T)"
    by (simp add: num_type_def sample_types_def range_ok_def range_mul_def)
  show ?thesis
    by (rule bounded_int_code_agrees [OF ref_mlir_ok call_mul [OF st d nums]]) simp_all
qed

end
