(* ===== verification/CgBindings.thy ===== *)
theory CgBindings
  imports Numbers
begin

text \<open>
  The functions that \<open>src/metadata/runtime_bindings.rs\<close> adds to a module: the extended
  Euclidean algorithm at a width and the arithmetic of circuit gates.
\<close>

section \<open>The extended Euclidean algorithm\<close>

text \<open>
  One pass through the loop block; the loop is a partial function, so that a loop that does not
  end has no value.
\<close>

partial_function (option) egcd_loop ::
  "mlir \<Rightarrow> ir_type \<Rightarrow> ir_val \<Rightarrow> ir_val \<Rightarrow> ir_val \<Rightarrow> ir_val \<Rightarrow> (ir_val \<times> ir_val) option" where
  "egcd_loop M integer_type old_r new_r old_s new_s =
    do {
      quotient \<leftarrow> binary M Divui old_r new_r;
      quotient_by_new_r \<leftarrow> binary M Muli quotient new_r;
      quotient_by_new_s \<leftarrow> binary M Muli quotient new_s;
      next_new_r \<leftarrow> binary M Subi old_r quotient_by_new_r;
      next_new_s \<leftarrow> binary M Subi old_s quotient_by_new_s;
      zero \<leftarrow> const_int_from_type M 0 integer_type;
      next_new_r_is_zero \<leftarrow> cmpi M CmpEq next_new_r zero;
      ends \<leftarrow> pick next_new_r_is_zero True False;
      (if ends then Some (new_r, new_s) else egcd_loop M integer_type new_r next_new_r new_s next_new_s) }"

definition build_egcd_function :: "mlir \<Rightarrow> ir_type \<Rightarrow> ir_val \<Rightarrow> ir_val \<Rightarrow> ir_val option" where
  "build_egcd_function M integer_type a modulus =
    do {
      k0 \<leftarrow> const_int_from_type M 0 integer_type;
      k1 \<leftarrow> const_int_from_type M 1 integer_type;
      (gcd, beuzout_coeff) \<leftarrow> egcd_loop M integer_type modulus a k0 k1;
      zero \<leftarrow> const_int_from_type M 0 integer_type;
      is_negative \<leftarrow> cmpi M CmpSlt beuzout_coeff zero;
      wrapped_beuzout_coeff \<leftarrow> binary M Addi beuzout_coeff modulus;
      beuzout_coeff \<leftarrow> select is_negative wrapped_beuzout_coeff beuzout_coeff;
      insert_values (UndefV (StructTy [integer_type, integer_type])) [gcd, beuzout_coeff] }"

datatype euclidean_width = EW31 | EW256 | EW384

fun width_bits :: "euclidean_width \<Rightarrow> nat" where
  "width_bits EW31 = 31"
| "width_bits EW256 = 256"
| "width_bits EW384 = 384"

definition extended_euclidean_algorithm ::
  "mlir \<Rightarrow> euclidean_width \<Rightarrow> ir_val \<Rightarrow> ir_val \<Rightarrow> ir_val option" where
  "extended_euclidean_algorithm M width a b = build_egcd_function M (IntTy (width_bits width)) a b"

section \<open>The loop ends with the greatest common divisor\<close>

text \<open>
  The invariant over the integers the machine numbers stand for: remainders \<open>x\<close>, \<open>y\<close> and
  coefficients \<open>s\<close>, \<open>t\<close> of alternating signs, whose sizes the last equation bounds.
\<close>

definition egcd_inv :: "int \<Rightarrow> int \<Rightarrow> int \<Rightarrow> int \<Rightarrow> int \<Rightarrow> int \<Rightarrow> bool" where
  "egcd_inv a b x y s t \<longleftrightarrow>
    0 < x \<and> 0 < y \<and> gcd x y = gcd a b \<and> b dvd s * a - x \<and> b dvd t * a - y \<and>
    s * t \<le> 0 \<and> x * \<bar>t\<bar> + y * \<bar>s\<bar> = b \<and> (y < x \<or> x = b \<and> t = 1)"

lemma egcd_start: "0 < a \<Longrightarrow> 0 < b \<Longrightarrow> egcd_inv a b b a 0 1"
  by (simp add: egcd_inv_def gcd.commute)

lemma abs_diff_opposite:
  fixes s t q :: int
  assumes "s * t \<le> 0" "0 \<le> q"
  shows "\<bar>s - q * t\<bar> = \<bar>s\<bar> + q * \<bar>t\<bar>" "t * (s - q * t) \<le> 0"
proof -
  have "0 \<le> q * (t * t)" using assms(2) by simp
  then have "s * t - q * (t * t) \<le> 0" using assms(1) by linarith
  then show "t * (s - q * t) \<le> 0" by (simp add: algebra_simps)
  from assms(1) consider "0 \<le> s" "t \<le> 0" | "s \<le> 0" "0 \<le> t" by (auto simp: mult_le_0_iff)
  then show "\<bar>s - q * t\<bar> = \<bar>s\<bar> + q * \<bar>t\<bar>"
  proof cases
    case 1
    then have "q * t \<le> 0" using assms(2) by (simp add: mult_nonneg_nonpos)
    with 1 show ?thesis by simp
  next
    case 2
    then have "0 \<le> q * t" using assms(2) by simp
    with 2 show ?thesis by simp
  qed
qed

lemma egcd_step:
  assumes "egcd_inv a b x y s t" "x mod y \<noteq> 0"
  shows "egcd_inv a b y (x mod y) t (s - x div y * t)"
proof -
  have inv: "0 < x" "0 < y" "gcd x y = gcd a b" "b dvd s * a - x" "b dvd t * a - y" "s * t \<le> 0"
    "x * \<bar>t\<bar> + y * \<bar>s\<bar> = b" using assms(1) by (simp_all add: egcd_inv_def)
  define q where "q = x div y"
  have x: "x = q * y + x mod y" by (simp add: q_def)
  have q: "0 \<le> q" using inv by (simp add: q_def pos_imp_zdiv_nonneg_iff)
  have pos: "0 < x mod y" "x mod y < y" using assms(2) inv(2) by (simp_all add: order_le_neq_trans)
  have "gcd y (x mod y) = gcd a b" using inv(3) by (simp add: gcd_red_int [of x y, symmetric] gcd.commute)
  moreover have "b dvd (s * a - x) - q * (t * a - y)" by (rule dvd_diff [OF inv(4) dvd_mult [OF inv(5)]])
  moreover have "(s * a - x) - q * (t * a - y) = (s - q * t) * a - x mod y"
    by (simp add: q_def algebra_simps minus_div_mult_eq_mod [symmetric])
  ultimately have "gcd y (x mod y) = gcd a b" "b dvd (s - q * t) * a - x mod y" by simp_all
  moreover have "y * (\<bar>s\<bar> + q * \<bar>t\<bar>) + x mod y * \<bar>t\<bar> = (q * y + x mod y) * \<bar>t\<bar> + y * \<bar>s\<bar>" by (simp add: algebra_simps)
  then have "y * \<bar>s - q * t\<bar> + x mod y * \<bar>t\<bar> = b"
    using inv(7) x abs_diff_opposite(1) [OF inv(6) q] by simp
  ultimately show ?thesis
    using inv pos abs_diff_opposite(2) [OF inv(6) q] by (simp add: egcd_inv_def q_def)
qed

lemma egcd_end:
  assumes "egcd_inv a b x y s t" "x mod y = 0"
  shows "y = gcd a b" "b dvd t * a - gcd a b" "2 * \<bar>t\<bar> \<le> b \<or> t = 1"
proof -
  have inv: "0 < x" "0 < y" "gcd x y = gcd a b" "b dvd t * a - y" "x * \<bar>t\<bar> + y * \<bar>s\<bar> = b"
    "y < x \<or> x = b \<and> t = 1" using assms(1) by (simp_all add: egcd_inv_def)
  have "y dvd x" using assms(2) by auto
  then show gcd: "y = gcd a b" using inv(2,3) by (simp add: gcd_proj2_iff)
  then show "b dvd t * a - gcd a b" using inv(4) by simp
  show "2 * \<bar>t\<bar> \<le> b \<or> t = 1"
  proof (cases "y < x")
    case True
    then have "2 * \<bar>t\<bar> \<le> x * \<bar>t\<bar>" using inv(2) by (intro mult_right_mono) auto
    moreover have "0 \<le> y * \<bar>s\<bar>" using inv(2) by simp
    ultimately show ?thesis using inv(5) by linarith
  qed (use inv(6) in simp)
qed

lemma const_zero: "mlir_ok M \<Longrightarrow> 0 < w \<Longrightarrow> const_int M 0 w = Some (IV w 0)"
  by (simp add: emitted fits_unsigned_def)

lemma egcd_loop_ends:
  assumes "mlir_ok M" "0 < w" "egcd_inv a b x y s t" "fits_unsigned w x" "fits_unsigned w y"
  shows "\<exists>c. egcd_loop M (IntTy w) (IV w x) (IV w y) (IV w (bits_of w s)) (IV w (bits_of w t)) =
      Some (IV w (gcd a b), IV w (bits_of w c)) \<and> b dvd c * a - gcd a b \<and> (2 * \<bar>c\<bar> \<le> b \<or> c = 1)"
  using assms(3-5)
proof (induction "nat y" arbitrary: x y s t rule: less_induct)
  case less
  have y: "0 < y" "0 < x" using less.prems(1) by (simp_all add: egcd_inv_def)
  have q: "fits_unsigned w (x div y)"
    using less.prems(2) y zdiv_mono2 [of x 1 y] by (auto simp: fits_unsigned_def pos_imp_zdiv_nonneg_iff)
  have r: "fits_unsigned w (x mod y)"
    using less.prems(3) pos_mod_bound [OF y(1), of x] pos_mod_sign [OF y(1), of x] unfolding fits_unsigned_def by linarith
  have rem: "bits_of w (x - bits_of w (x div y * y)) = x mod y"
    using r by (simp add: bits_of_diff minus_div_mult_eq_mod bits_fits)
  have coeff: "bits_of w (bits_of w s - bits_of w (x div y * bits_of w t)) = bits_of w (s - x div y * t)"
    by (simp add: bits_of_def mod_simps)
  have pass: "egcd_loop M (IntTy w) (IV w x) (IV w y) (IV w (bits_of w s)) (IV w (bits_of w t)) =
      (if x mod y = 0 then Some (IV w y, IV w (bits_of w t))
       else egcd_loop M (IntTy w) (IV w y) (IV w (x mod y)) (IV w (bits_of w t)) (IV w (bits_of w (s - x div y * t))))"
    using assms(1,2) less.prems(2,3) y q r rem coeff by (subst egcd_loop.simps) (simp add: emitted const_zero)
  show ?case
  proof (cases "x mod y = 0")
    case True
    then show ?thesis using pass egcd_end [OF less.prems(1)] by auto
  next
    case False
    have "nat (x mod y) < nat y" using y by simp
    from less.hyps [OF this egcd_step [OF less.prems(1) False] less.prems(3) r] show ?thesis
      using pass False by simp
  qed
qed

text \<open>
  C15: The extended Euclidean algorithm added to compiled modules ends for every pair of
  non-zero numbers, with their greatest common divisor and a number below the modulus that
  gives it when multiplied by the first of them: the inverse when the two are coprime.
\<close>

theorem egcd_function_correct:
  assumes "mlir_ok M" "0 < a" "a < 2 ^ width_bits width" "0 < b" "b < 2 ^ width_bits width"
  shows "\<exists>c. extended_euclidean_algorithm M width (IV (width_bits width) a) (IV (width_bits width) b) =
      Some (SV [IV (width_bits width) (gcd a b), IV (width_bits width) c]) \<and>
    0 \<le> c \<and> (c < b \<or> b = 1 \<and> c = 1) \<and> b dvd c * a - gcd a b"
proof -
  define w where "w = width_bits width"
  have w: "2 \<le> w" by (cases width) (simp_all add: w_def)
  then have two: "(2 :: int) ^ w = 2 * 2 ^ (w - 1)" "(2 :: int) \<le> 2 ^ (w - 1)"
    using power_increasing [of 1 "w - 1" "2 :: int"] by (cases w; simp)+
  have fits: "fits_unsigned w a" "fits_unsigned w b" using assms by (simp_all add: fits_unsigned_def w_def)
  have one: "fits_unsigned w 1" using two by (simp add: fits_unsigned_def)
  obtain c where c: "egcd_loop M (IntTy w) (IV w b) (IV w a) (IV w (bits_of w 0)) (IV w (bits_of w 1)) =
      Some (IV w (gcd a b), IV w (bits_of w c))" "b dvd c * a - gcd a b" "2 * \<bar>c\<bar> \<le> b \<or> c = 1"
    using egcd_loop_ends [OF assms(1) _ egcd_start [OF assms(2,4)] fits(2,1)] w by fastforce
  have signed: "fits_signed w c" using c(3) assms(5) two by (auto simp: fits_signed_def w_def [symmetric])
  then have neg: "signed_of w (bits_of w c) = c" using w by (intro signed_of_bits) (auto simp: fits_signed_def)
  have zero: "signed_of w 0 = 0" by (simp add: signed_of_def)
  define d where "d = (if c < 0 then c + b else c)"
  have d: "0 \<le> d" "d < b \<or> b = 1 \<and> d = 1" using c(3) assms(4) by (auto simp: d_def)
  then have "fits_unsigned w d" using fits(2) one by (auto simp: fits_unsigned_def)
  then have wrap: "(if c < 0 then bits_of w (bits_of w c + b) else bits_of w c) = d"
    by (auto simp: d_def bits_of_add bits_fits)
  have "build_egcd_function M (IntTy w) (IV w a) (IV w b) = Some (SV [IV w (gcd a b), IV w d])"
    using c(1) assms(1) w fits one neg zero wrap
    by (simp add: build_egcd_function_def const_zero emitted insert_values_def split: if_splits)
  moreover have "b dvd d * a - gcd a b"
  proof (cases "c < 0")
    case True
    then have eq: "d * a - gcd a b = (c * a - gcd a b) + b * a" by (simp add: d_def algebra_simps)
    show ?thesis unfolding eq by (rule dvd_add [OF c(2) dvd_triv_left])
  qed (use c(2) in \<open>simp add: d_def\<close>)
  ultimately show ?thesis using d by (auto simp: extended_euclidean_algorithm_def w_def)
qed

lemma egcd_function_correct_witness:
  "\<exists>c. extended_euclidean_algorithm ref_mlir EW31 (IV 31 3) (IV 31 7) = Some (SV [IV 31 1, IV 31 c]) \<and>
    0 \<le> c \<and> (c < 7 \<or> False) \<and> 7 dvd c * 3 - 1"
proof -
  have "gcd 3 (7 :: int) = 1" by (simp add: gcd_red_int [of 3 7] gcd_red_int [of 7 3])
  then show ?thesis using egcd_function_correct [OF ref_mlir_ok, of 3 EW31 7] by simp
qed

end
