(* ===== verification/CgCircuit.thy ===== *)
theory CgCircuit
  imports CgBindings CgIntFacts CircuitOps
begin

text \<open>
  \<open>src/libfuncs/circuit.rs\<close>: the code generated for circuits. What is decided while the code is
  generated (the order in which the gates are computed, and what each of them computes) is the
  function \<open>plan_gates\<close>; what the generated code does is \<open>run_gates\<close>. The arrays of inputs and
  outputs are allocated for one owner, written, and read only: a pointer to such an array is
  modelled by the contents of the array.
\<close>

section \<open>Arithmetic of gates\<close>

text \<open>The function \<open>build_circuit_arith_operation\<close> adds to a module: a switch over a tag.\<close>

datatype circuit_arith_op = ArithAdd | ArithSub | ArithMul

fun arith_tag :: "circuit_arith_op \<Rightarrow> int" where
  "arith_tag ArithAdd = 0"
| "arith_tag ArithSub = 1"
| "arith_tag ArithMul = 2"

definition arith_case :: "mlir \<Rightarrow> circuit_arith_op \<Rightarrow> ir_val \<Rightarrow> ir_val \<Rightarrow> ir_val \<Rightarrow> ir_val option" where
  "arith_case M tag lhs rhs modulus =
    do {
      result \<leftarrow>
        (case tag of
          ArithAdd \<Rightarrow> do {
            lhs \<leftarrow> convert (ml_extui M) lhs (IntTy 385);
            rhs \<leftarrow> convert (ml_extui M) rhs (IntTy 385);
            modulus \<leftarrow> convert (ml_extui M) modulus (IntTy 385);
            result \<leftarrow> binary M Addi lhs rhs;
            binary M Remui result modulus }
        | ArithSub \<Rightarrow> do {
            lhs \<leftarrow> convert (ml_extui M) lhs (IntTy 385);
            rhs \<leftarrow> convert (ml_extui M) rhs (IntTy 385);
            modulus \<leftarrow> convert (ml_extui M) modulus (IntTy 385);
            partial_result \<leftarrow> binary M Addi lhs modulus;
            result \<leftarrow> binary M Subi partial_result rhs;
            binary M Remui result modulus }
        | ArithMul \<Rightarrow> do {
            lhs \<leftarrow> convert (ml_extui M) lhs (IntTy 768);
            rhs \<leftarrow> convert (ml_extui M) rhs (IntTy 768);
            modulus \<leftarrow> convert (ml_extui M) modulus (IntTy 768);
            result \<leftarrow> binary M Muli lhs rhs;
            binary M Remui result modulus });
      convert (ml_trunci M) result (IntTy 384) }"

definition build_circuit_arith_operation ::
  "mlir \<Rightarrow> ir_val \<Rightarrow> ir_val \<Rightarrow> ir_val \<Rightarrow> ir_val \<Rightarrow> ir_val option" where
  "build_circuit_arith_operation M op_tag lhs rhs modulus =
    (case op_tag of
      IV w t \<Rightarrow>
        if w \<noteq> 2 then None
        else if t = arith_tag ArithAdd then arith_case M ArithAdd lhs rhs modulus
        else if t = arith_tag ArithSub then arith_case M ArithSub lhs rhs modulus
        else if t = arith_tag ArithMul then arith_case M ArithMul lhs rhs modulus
        else None
    | _ \<Rightarrow> None)"

definition circuit_arith_operation ::
  "mlir \<Rightarrow> circuit_arith_op \<Rightarrow> ir_val \<Rightarrow> ir_val \<Rightarrow> ir_val \<Rightarrow> ir_val option" where
  "circuit_arith_operation M op_type lhs_value rhs_value circuit_modulus =
    do {
      op_tag \<leftarrow> const_int M (arith_tag op_type) 2;
      build_circuit_arith_operation M op_tag lhs_value rhs_value circuit_modulus }"

section \<open>The order of the gates\<close>

text \<open>
  Which slots hold a value is known while the code is generated: addition gates are computed
  as long as possible, then one multiplication gate, and so on. An inversion carries the index
  of its gate.
\<close>

datatype gate_op = AddOp gate_offsets | SubOp gate_offsets | MulOp gate_offsets | InvOp nat gate_offsets

fun plan_adds :: "bool list \<Rightarrow> gate_offsets list \<Rightarrow> (gate_op list \<times> bool list \<times> gate_offsets list) option" where
  "plan_adds known [] = Some ([], known, [])"
| "plan_adds known (g # gs) =
    do {
      lhs \<leftarrow> nth_opt known (gate_lhs g);
      rhs \<leftarrow> nth_opt known (gate_rhs g);
      output \<leftarrow> nth_opt known (gate_output g);
      (if lhs \<and> rhs \<and> \<not> output
       then do {
         (ops, known, rest) \<leftarrow> plan_adds (known[gate_output g := True]) gs;
         Some (AddOp g # ops, known, rest) }
       else if \<not> lhs \<and> rhs \<and> output
       then do {
         (ops, known, rest) \<leftarrow> plan_adds (known[gate_lhs g := True]) gs;
         Some (SubOp g # ops, known, rest) }
       else Some ([], known, g # gs)) }"

fun plan_gates ::
  "bool list \<Rightarrow> gate_offsets list \<Rightarrow> (nat \<times> gate_offsets) list \<Rightarrow> (gate_op list \<times> bool list) option" where
  "plan_gates known adds [] = do { (ops, known, _) \<leftarrow> plan_adds known adds; Some (ops, known) }"
| "plan_gates known adds ((i, g) # muls) =
    do {
      (ops, known, adds) \<leftarrow> plan_adds known adds;
      lhs \<leftarrow> nth_opt known (gate_lhs g);
      rhs \<leftarrow> nth_opt known (gate_rhs g);
      output \<leftarrow> nth_opt known (gate_output g);
      (if lhs \<and> rhs \<and> \<not> output
       then do {
         (ops', known) \<leftarrow> plan_gates (known[gate_output g := True]) adds muls;
         Some (ops @ MulOp g # ops', known) }
       else if \<not> lhs \<and> rhs \<and> output
       then do {
         (ops', known) \<leftarrow> plan_gates (known[gate_lhs g := True]) adds muls;
         Some (ops @ InvOp i g # ops', known) }
       else None) }"

section \<open>Evaluating the gates\<close>

type_synonym gate_values_t = "ir_val option list"

text \<open>
  The two ends of the evaluation: the success block with the values of the gates, or the error
  block with the index of the gate that could not be computed and the greatest common divisor.
\<close>

datatype evaluation = GatesDone gate_values_t | GateFailed ir_val ir_val

definition gate_value :: "gate_values_t \<Rightarrow> nat \<Rightarrow> ir_val option" where
  "gate_value gates i = Option.bind (nth_opt gates i) (\<lambda>x. x)"

fun run_gates :: "mlir \<Rightarrow> ir_val \<Rightarrow> gate_op list \<Rightarrow> gate_values_t \<Rightarrow> evaluation option" where
  "run_gates M modulus [] gates = Some (GatesDone gates)"
| "run_gates M modulus (AddOp g # ops) gates =
    do {
      lhs_value \<leftarrow> gate_value gates (gate_lhs g);
      rhs_value \<leftarrow> gate_value gates (gate_rhs g);
      v \<leftarrow> circuit_arith_operation M ArithAdd lhs_value rhs_value modulus;
      run_gates M modulus ops (gates[gate_output g := Some v]) }"
| "run_gates M modulus (SubOp g # ops) gates =
    do {
      rhs_value \<leftarrow> gate_value gates (gate_rhs g);
      output_value \<leftarrow> gate_value gates (gate_output g);
      v \<leftarrow> circuit_arith_operation M ArithSub output_value rhs_value modulus;
      run_gates M modulus ops (gates[gate_lhs g := Some v]) }"
| "run_gates M modulus (MulOp g # ops) gates =
    do {
      lhs_value \<leftarrow> gate_value gates (gate_lhs g);
      rhs_value \<leftarrow> gate_value gates (gate_rhs g);
      v \<leftarrow> circuit_arith_operation M ArithMul lhs_value rhs_value modulus;
      run_gates M modulus ops (gates[gate_output g := Some v]) }"
| "run_gates M modulus (InvOp i g # ops) gates =
    do {
      rhs_value \<leftarrow> gate_value gates (gate_rhs g);
      euclidean_result \<leftarrow> extended_euclidean_algorithm M EW384 rhs_value modulus;
      gcd \<leftarrow> extract_value euclidean_result 0;
      inverse \<leftarrow> extract_value euclidean_result 1;
      one \<leftarrow> const_int M 1 384;
      gate_offset_idx \<leftarrow> const_int M (int i) 64;
      has_inverse \<leftarrow> cmpi M CmpEq gcd one;
      continues \<leftarrow> pick has_inverse True False;
      (if continues then run_gates M modulus ops (gates[gate_lhs g := Some inverse])
       else Some (GateFailed gate_offset_idx gcd)) }"

fun load_inputs :: "ir_val \<Rightarrow> nat \<Rightarrow> ir_val list option" where
  "load_inputs circuit_data 0 = Some []"
| "load_inputs circuit_data (Suc n) =
    do { xs \<leftarrow> load_inputs circuit_data n; x \<leftarrow> extract_value circuit_data n; Some (xs @ [x]) }"

definition build_gate_evaluation ::
  "mlir \<Rightarrow> circuit_info \<Rightarrow> ir_val \<Rightarrow> ir_val \<Rightarrow> evaluation option" where
  "build_gate_evaluation M circuit_info circuit_data circuit_modulus =
    do {
      one \<leftarrow> const_int M 1 384;
      inputs \<leftarrow> load_inputs circuit_data (n_inputs circuit_info);
      let gates = Some one # map Some inputs @ replicate (fcard (fmdom (gate_values circuit_info))) None;
      (ops, known) \<leftarrow> plan_gates (map (\<lambda>g. g \<noteq> None) gates) (add_offsets circuit_info)
        (enumerate 0 (mul_offsets circuit_info));
      assert_that (\<forall>k \<in> set (drop (1 + n_inputs circuit_info) known). k);
      run_gates M circuit_modulus ops gates }"

section \<open>Limbs of 96 bits\<close>

definition shifted_limb :: "mlir \<Rightarrow> ir_val \<Rightarrow> nat \<Rightarrow> ir_val option" where
  "shifted_limb M x i =
    do {
      limb \<leftarrow> extract_value x i;
      limb \<leftarrow> convert (ml_extui M) limb (IntTy 384);
      k \<leftarrow> const_int M (96 * int i) 384;
      binary M Shli limb k }"

definition u384_struct_to_integer :: "mlir \<Rightarrow> ir_val \<Rightarrow> ir_val option" where
  "u384_struct_to_integer M u384_struct =
    do {
      limb1 \<leftarrow> extract_value u384_struct 0;
      limb1 \<leftarrow> convert (ml_extui M) limb1 (IntTy 384);
      limb2 \<leftarrow> shifted_limb M u384_struct 1;
      limb3 \<leftarrow> shifted_limb M u384_struct 2;
      limb4 \<leftarrow> shifted_limb M u384_struct 3;
      v \<leftarrow> binary M Ori limb1 limb2;
      v \<leftarrow> binary M Ori v limb3;
      binary M Ori v limb4 }"

definition cut_limb :: "mlir \<Rightarrow> ir_val \<Rightarrow> nat \<Rightarrow> ir_val option" where
  "cut_limb M integer i =
    do {
      k \<leftarrow> const_int M (96 * int i) 384;
      limb \<leftarrow> binary M Shrui integer k;
      convert (ml_trunci M) limb (IntTy 96) }"

definition u384_integer_to_struct :: "mlir \<Rightarrow> ir_val \<Rightarrow> ir_val option" where
  "u384_integer_to_struct M integer =
    do {
      limb1 \<leftarrow> convert (ml_trunci M) integer (IntTy 96);
      limb2 \<leftarrow> cut_limb M integer 1;
      limb3 \<leftarrow> cut_limb M integer 2;
      limb4 \<leftarrow> cut_limb M integer 3;
      insert_values (UndefV build_u384_struct_type) [limb1, limb2, limb3, limb4] }"

section \<open>The libfuncs\<close>

definition ADD_MOD_BUILTIN_SIZE :: int where "ADD_MOD_BUILTIN_SIZE = 7"
definition MUL_MOD_BUILTIN_SIZE :: int where "MUL_MOD_BUILTIN_SIZE = 7"
definition RANGE_CHECK96_BUILTIN_SIZE :: int where "RANGE_CHECK96_BUILTIN_SIZE = 1"

text \<open>
  \<open>build_struct_value\<close> (\<open>struct.rs\<close>): fields that take no room are left undefined in a Sierra
  structure; in the other types that are structures none is.
\<close>

fun zst_fields :: "registry \<Rightarrow> core_type \<Rightarrow> nat \<Rightarrow> bool list option" where
  "zst_fields R (StructT members) n =
    map_opt (\<lambda>t. do { ty \<leftarrow> get_type R t; ok (is_zst R ty) }) members"
| "zst_fields R _ n = Some (replicate n False)"

fun insert_fields :: "ir_val \<Rightarrow> nat \<Rightarrow> bool list \<Rightarrow> ir_val list \<Rightarrow> ir_val option" where
  "insert_fields acc idx zst [] = Some acc"
| "insert_fields acc idx zst (x # xs) =
    do {
      z \<leftarrow> nth_opt zst idx;
      acc \<leftarrow> (if z then Some acc else insert_value acc x idx);
      insert_fields acc (Suc idx) zst xs }"

definition build_struct_value :: "registry \<Rightarrow> type_id \<Rightarrow> ir_val list \<Rightarrow> ir_val option" where
  "build_struct_value R t xs =
    do {
      struct_ty \<leftarrow> build_type R t;
      ty \<leftarrow> get_type R t;
      zst \<leftarrow> zst_fields R ty (length xs);
      insert_fields (UndefV struct_ty) 0 zst xs }"

definition build_eval :: "mlir \<Rightarrow> registry \<Rightarrow> signature \<Rightarrow> type_id \<Rightarrow> ir_val list \<Rightarrow> outcome option" where
  "build_eval M R sg ty entry =
    do {
      circuit_info \<leftarrow> get_circuit_info R ty;
      add_mod \<leftarrow> arg entry 0;
      mul_mod \<leftarrow> arg entry 1;
      circuit_data \<leftarrow> arg entry 3;
      circuit_modulus \<leftarrow> arg entry 4;
      add_mod \<leftarrow> increment_builtin_counter_by M add_mod
        (int (length (add_offsets circuit_info)) * ADD_MOD_BUILTIN_SIZE);
      evaluation \<leftarrow> build_gate_evaluation M circuit_info circuit_data circuit_modulus;
      (case evaluation of
        GatesDone gates \<Rightarrow>
          do {
            mul_mod \<leftarrow> increment_builtin_counter_by M mul_mod
              (int (length (mul_offsets circuit_info)) * MUL_MOD_BUILTIN_SIZE);
            evaluated_gates \<leftarrow> those (drop (1 + n_inputs circuit_info) gates);
            modulus_struct \<leftarrow> u384_integer_to_struct M circuit_modulus;
            ot \<leftarrow> branch_ty sg 0 2;
            outputs \<leftarrow> build_struct_value R ot [SV evaluated_gates, modulus_struct];
            br 0 [add_mod, mul_mod, outputs] }
      | GateFailed idx gcd' \<Rightarrow>
          do {
            k \<leftarrow> const_int M MUL_MOD_BUILTIN_SIZE 64;
            mul_mod_usage \<leftarrow> binary M Muli idx k;
            mul_mod \<leftarrow> binary M Addi mul_mod mul_mod_usage;
            pt \<leftarrow> branch_ty sg 1 2;
            partial_ty \<leftarrow> build_type R pt;
            nullifier \<leftarrow> binary M Divui circuit_modulus gcd';
            nullifier_struct \<leftarrow> u384_integer_to_struct M nullifier;
            modulus_struct \<leftarrow> u384_integer_to_struct M circuit_modulus;
            ft \<leftarrow> branch_ty sg 1 3;
            failure \<leftarrow> build_struct_value R ft [nullifier_struct, modulus_struct];
            br 1 [add_mod, mul_mod, UndefV partial_ty, failure] }) }"

text \<open>
  What the code takes from \<open>cairo_lang_sierra\<close>: how many limbs a circuit has range checked, and
  two sizes of the modular builtins.
\<close>

record circuit_crate =
  cc_rc96_usage :: "circuit_info \<Rightarrow> int"
  cc_value_size :: int
  cc_mod_builtin_instance_size :: int

text \<open>A fresh array has undefined contents.\<close>

definition build_init_circuit_data ::
  "mlir \<Rightarrow> circuit_crate \<Rightarrow> registry \<Rightarrow> signature \<Rightarrow> type_id \<Rightarrow> ir_val list \<Rightarrow> outcome option" where
  "build_init_circuit_data M K R sg ty entry =
    do {
      circuit_info \<leftarrow> get_circuit_info R ty;
      a0 \<leftarrow> arg entry 0;
      rc \<leftarrow> increment_builtin_counter_by M a0 (cc_rc96_usage K circuit_info);
      let ptr = SV (replicate (n_inputs circuit_info) (UndefV (IntTy 384)));
      k0 \<leftarrow> const_int M 0 64;
      t \<leftarrow> branch_ty sg 0 1;
      accumulator \<leftarrow> build_struct_value R t [k0, ptr];
      br 0 [rc, accumulator] }"

definition store_at :: "ir_val \<Rightarrow> ir_val \<Rightarrow> ir_val \<Rightarrow> ir_val option" where
  "store_at array idx x = (case idx of IV w i \<Rightarrow> insert_value array x (nat i) | _ \<Rightarrow> None)"

definition build_add_input :: "mlir \<Rightarrow> registry \<Rightarrow> type_id \<Rightarrow> ir_val list \<Rightarrow> outcome option" where
  "build_add_input M R ty entry =
    do {
      circuit_info \<leftarrow> get_circuit_info R ty;
      accumulator \<leftarrow> arg entry 0;
      current_length \<leftarrow> extract_value accumulator 0;
      k1 \<leftarrow> const_int M 1 64;
      next_length \<leftarrow> binary M Addi current_length k1;
      accumulator \<leftarrow> insert_value accumulator next_length 0;
      inputs_ptr \<leftarrow> extract_value accumulator 1;
      u384_struct \<leftarrow> arg entry 1;
      new_input \<leftarrow> u384_struct_to_integer M u384_struct;
      inputs_ptr \<leftarrow> store_at inputs_ptr current_length new_input;
      accumulator \<leftarrow> insert_value accumulator inputs_ptr 1;
      k_inputs \<leftarrow> const_int M (int (n_inputs circuit_info)) 64;
      last_insert \<leftarrow> cmpi M CmpEq next_length k_inputs;
      scf_if last_insert
        (do { inputs_ptr \<leftarrow> extract_value accumulator 1; br 0 [inputs_ptr] })
        (br 1 [accumulator]) }"

definition build_try_into_circuit_modulus :: "mlir \<Rightarrow> ir_val list \<Rightarrow> outcome option" where
  "build_try_into_circuit_modulus M entry =
    do {
      a0 \<leftarrow> arg entry 0;
      modulus \<leftarrow> u384_struct_to_integer M a0;
      k1 \<leftarrow> const_int M 1 384;
      is_valid \<leftarrow> cmpi M CmpUgt modulus k1;
      cond_br is_valid (0, 1) ([modulus], []) }"

definition build_get_descriptor :: "registry \<Rightarrow> signature \<Rightarrow> outcome option" where
  "build_get_descriptor R sg =
    do {
      t \<leftarrow> branch_ty sg 0 0;
      descriptor_type \<leftarrow> build_type R t;
      br 0 [UndefV descriptor_type] }"

definition build_get_output ::
  "mlir \<Rightarrow> registry \<Rightarrow> signature \<Rightarrow> type_id \<Rightarrow> type_id \<Rightarrow> ir_val list \<Rightarrow> outcome option" where
  "build_get_output M R sg circuit_ty output_ty entry =
    do {
      circuit_info \<leftarrow> get_circuit_info R circuit_ty;
      output_offset_idx \<leftarrow> fmlookup (gate_values circuit_info) output_ty;
      i \<leftarrow> usub output_offset_idx (n_inputs circuit_info);
      output_idx \<leftarrow> usub i 1;
      outputs \<leftarrow> arg entry 0;
      circuit_ptr \<leftarrow> extract_value outputs 0;
      modulus_struct \<leftarrow> extract_value outputs 1;
      output_integer \<leftarrow> extract_value circuit_ptr output_idx;
      output_struct \<leftarrow> u384_integer_to_struct M output_integer;
      t \<leftarrow> branch_ty sg 0 1;
      guarantee \<leftarrow> build_struct_value R t [output_struct, modulus_struct];
      br 0 [output_struct, guarantee] }"

definition build_failure_guarantee_verify ::
  "mlir \<Rightarrow> circuit_crate \<Rightarrow> registry \<Rightarrow> signature \<Rightarrow> ir_val list \<Rightarrow> outcome option" where
  "build_failure_guarantee_verify M K R sg entry =
    do {
      rc \<leftarrow> arg entry 0;
      mul_mod \<leftarrow> arg entry 1;
      failure_guarantee \<leftarrow> arg entry 2;
      rc \<leftarrow> increment_builtin_counter_by M rc (2 + cc_value_size K);
      mul_mod \<leftarrow> increment_builtin_counter_by M mul_mod (cc_mod_builtin_instance_size K);
      nullifier \<leftarrow> extract_value failure_guarantee 0;
      modulus \<leftarrow> extract_value failure_guarantee 1;
      t \<leftarrow> branch_ty sg 0 2;
      guarantee \<leftarrow> build_struct_value R t [nullifier, modulus];
      br 0 [rc, mul_mod, guarantee] }"

text \<open>The fields from one index to another, as a value of their own.\<close>

definition build_array_slice :: "ir_val \<Rightarrow> ir_type \<Rightarrow> nat \<Rightarrow> nat \<Rightarrow> ir_val option" where
  "build_array_slice aggregate result_type from to =
    do {
      values \<leftarrow> map_opt (extract_value aggregate) [from ..< to];
      insert_values (UndefV result_type) values }"

definition build_u96_limbs_less_than_guarantee_verify ::
  "mlir \<Rightarrow> registry \<Rightarrow> signature \<Rightarrow> nat \<Rightarrow> ir_val list \<Rightarrow> outcome option" where
  "build_u96_limbs_less_than_guarantee_verify M R sg limb_count entry =
    do {
      guarantee \<leftarrow> arg entry 0;
      gate \<leftarrow> extract_value guarantee 0;
      modulus \<leftarrow> extract_value guarantee 1;
      last \<leftarrow> usub limb_count 1;
      gate_last_limb \<leftarrow> extract_value gate last;
      modulus_last_limb \<leftarrow> extract_value modulus last;
      diff \<leftarrow> binary M Subi modulus_last_limb gate_last_limb;
      k0 \<leftarrow> const_int M 0 96;
      has_diff \<leftarrow> cmpi M CmpNe diff k0;
      let new_limb_struct_type = StructTy (replicate last (IntTy 96));
      new_gate \<leftarrow> build_array_slice gate new_limb_struct_type 0 last;
      new_modulus \<leftarrow> build_array_slice modulus new_limb_struct_type 0 last;
      t \<leftarrow> branch_ty sg 0 0;
      new_guarantee \<leftarrow> build_struct_value R t [new_gate, new_modulus];
      scf_if has_diff (br 1 [diff]) (br 0 [new_guarantee]) }"

definition build_u96_limbs_less_than_guarantee_verify_v2 :: "mlir \<Rightarrow> ir_val list \<Rightarrow> outcome option" where
  "build_u96_limbs_less_than_guarantee_verify_v2 M entry =
    do {
      a0 \<leftarrow> arg entry 0;
      range_check96 \<leftarrow> increment_builtin_counter_by M a0 RANGE_CHECK96_BUILTIN_SIZE;
      br 0 [range_check96] }"

definition build_u96_single_limb_less_than_guarantee_verify :: "mlir \<Rightarrow> ir_val list \<Rightarrow> outcome option" where
  "build_u96_single_limb_less_than_guarantee_verify M entry =
    do {
      guarantee \<leftarrow> arg entry 0;
      gate \<leftarrow> extract_value guarantee 0;
      modulus \<leftarrow> extract_value guarantee 1;
      gate_limb \<leftarrow> extract_value gate 0;
      modulus_limb \<leftarrow> extract_value modulus 0;
      diff \<leftarrow> binary M Subi modulus_limb gate_limb;
      br 0 [diff] }"

definition build_into_u96_guarantee :: "mlir \<Rightarrow> registry \<Rightarrow> signature \<Rightarrow> ir_val list \<Rightarrow> outcome option" where
  "build_into_u96_guarantee M R sg entry =
    do {
      src \<leftarrow> arg entry 0;
      t \<leftarrow> param_ty sg 0;
      src_range \<leftarrow> ty_range R t;
      (if rng_lower src_range < 0 then None else Some ());
      dst \<leftarrow> convert (ml_extui M) src (IntTy 96);
      dst \<leftarrow>
        (if 0 < rng_lower src_range
         then do { klower \<leftarrow> const_int M (rng_lower src_range) 96; binary M Addi dst klower }
         else Some dst);
      br 0 [dst] }"

definition build_u96_guarantee_verify :: "mlir \<Rightarrow> ir_val list \<Rightarrow> outcome option" where
  "build_u96_guarantee_verify M entry =
    do {
      a0 \<leftarrow> arg entry 0;
      range_check96 \<leftarrow> increment_builtin_counter_by M a0 RANGE_CHECK96_BUILTIN_SIZE;
      br 0 [range_check96] }"

definition build_circuit ::
  "mlir \<Rightarrow> circuit_crate \<Rightarrow> registry \<Rightarrow> signature \<Rightarrow> circuit_lib \<Rightarrow> ir_val list \<Rightarrow> outcome option" where
  "build_circuit M K R sg selector entry =
    (case selector of
      CircuitAddInput ty \<Rightarrow> build_add_input M R ty entry
    | CircuitEval ty \<Rightarrow> build_eval M R sg ty entry
    | CircuitGetDescriptor _ \<Rightarrow> build_get_descriptor R sg
    | CircuitInitData ty \<Rightarrow> build_init_circuit_data M K R sg ty entry
    | CircuitGetOutput circuit_ty output_ty \<Rightarrow> build_get_output M R sg circuit_ty output_ty entry
    | CircuitTryIntoModulus \<Rightarrow> build_try_into_circuit_modulus M entry
    | CircuitFailureGuaranteeVerify \<Rightarrow> build_failure_guarantee_verify M K R sg entry
    | CircuitIntoU96Guarantee _ \<Rightarrow> build_into_u96_guarantee M R sg entry
    | CircuitU96GuaranteeVerify \<Rightarrow> build_u96_guarantee_verify M entry
    | CircuitU96LimbsLtVerify n \<Rightarrow> build_u96_limbs_less_than_guarantee_verify M R sg n entry
    | CircuitU96SingleLimbLtVerify \<Rightarrow> build_u96_single_limb_less_than_guarantee_verify M entry
    | CircuitU96LimbsLtVerifyV2 _ \<Rightarrow> build_u96_limbs_less_than_guarantee_verify_v2 M entry)"

end
