(* ===== verification/CgWide.thy ===== *)
theory CgWide
  imports CgBindings CgIntFacts WideIntOps
begin

text \<open>
  \<open>src/libfuncs/uint256.rs\<close> and \<open>uint512.rs\<close>: the code generated for the libfuncs of wide
  integers, structures of 128-bit limbs that are joined to one integer, computed on, and split
  again; and its agreement with the interpreter.
\<close>

section \<open>The libfuncs\<close>

definition i128_ty :: ir_type where "i128_ty = IntTy 128"

text \<open>The number of two limbs at the width \<open>w\<close>: extended, shifted and joined.\<close>

definition join_limbs :: "mlir \<Rightarrow> nat \<Rightarrow> ir_val \<Rightarrow> ir_val option" where
  "join_limbs M w x =
    do {
      lo \<leftarrow> extract_value x 0;
      hi \<leftarrow> extract_value x 1;
      lo \<leftarrow> convert (ml_extui M) lo (IntTy w);
      hi \<leftarrow> convert (ml_extui M) hi (IntTy w);
      k128 \<leftarrow> const_int M 128 w;
      hi \<leftarrow> binary M Shli hi k128;
      binary M Ori hi lo }"

text \<open>The limb \<open>i\<close> of a number.\<close>

definition limb_at :: "mlir \<Rightarrow> nat \<Rightarrow> nat \<Rightarrow> ir_val \<Rightarrow> ir_val option" where
  "limb_at M w i x =
    (if i = 0 then convert (ml_trunci M) x i128_ty
     else do {
       k \<leftarrow> const_int M (int (128 * i)) w;
       y \<leftarrow> binary M Shrui x k;
       convert (ml_trunci M) y i128_ty })"

definition split_limbs2 :: "mlir \<Rightarrow> nat \<Rightarrow> ir_type \<Rightarrow> ir_val \<Rightarrow> ir_val option" where
  "split_limbs2 M w ty x =
    do {
      lo \<leftarrow> limb_at M w 0 x;
      hi \<leftarrow> limb_at M w 1 x;
      y \<leftarrow> insert_value (UndefV ty) lo 0;
      insert_value y hi 1 }"

definition build_u256_divmod :: "mlir \<Rightarrow> registry \<Rightarrow> signature \<Rightarrow> ir_val list \<Rightarrow> outcome option" where
  "build_u256_divmod M R sg entry =
    do {
      a0 \<leftarrow> arg entry 0;
      range_check \<leftarrow> increment_builtin_counter_by M a0 6;
      t \<leftarrow> branch_ty sg 0 3;
      guarantee_type \<leftarrow> build_type R t;
      lhs_struct \<leftarrow> arg entry 1;
      rhs_struct \<leftarrow> arg entry 2;
      lhs \<leftarrow> join_limbs M 256 lhs_struct;
      rhs \<leftarrow> join_limbs M 256 rhs_struct;
      result_div \<leftarrow> binary M Divui lhs rhs;
      result_rem \<leftarrow> binary M Remui lhs rhs;
      result_div \<leftarrow> split_limbs2 M 256 (StructTy [i128_ty, i128_ty]) result_div;
      result_rem \<leftarrow> split_limbs2 M 256 (StructTy [i128_ty, i128_ty]) result_rem;
      br 0 [range_check, result_div, result_rem, UndefV guarantee_type] }"

definition build_u256_is_zero :: "mlir \<Rightarrow> ir_val list \<Rightarrow> outcome option" where
  "build_u256_is_zero M entry =
    do {
      val_struct \<leftarrow> arg entry 0;
      val_lo \<leftarrow> extract_value val_struct 0;
      val_hi \<leftarrow> extract_value val_struct 1;
      k0 \<leftarrow> const_int M 0 128;
      val_lo_is_zero \<leftarrow> cmpi M CmpEq val_lo k0;
      val_hi_is_zero \<leftarrow> cmpi M CmpEq val_hi k0;
      val_is_zero \<leftarrow> binary M Andi val_lo_is_zero val_hi_is_zero;
      cond_br val_is_zero (0, 1) ([], [val_struct]) }"

text \<open>The call of the runtime function (\<open>u256_square_root\<close> of \<open>runtime_bindings.rs\<close>).\<close>

definition call_u256_square_root :: "externs \<Rightarrow> ir_val \<Rightarrow> ir_val \<Rightarrow> ir_val option" where
  "call_u256_square_root E lo hi =
    (case (lo, hi) of
      (IV w a, IV v b) \<Rightarrow>
        if w = 128 \<and> v = 128
        then do { r \<leftarrow> ok (u256_square_root E (word_of_int a) (word_of_int b)); Some (IV 128 (uint r)) }
        else None
    | _ \<Rightarrow> None)"

definition build_u256_square_root :: "mlir \<Rightarrow> externs \<Rightarrow> ir_val list \<Rightarrow> outcome option" where
  "build_u256_square_root M E entry =
    do {
      a0 \<leftarrow> arg entry 0;
      range_check \<leftarrow> increment_builtin_counter_by M a0 7;
      arg_struct \<leftarrow> arg entry 1;
      arg_lo \<leftarrow> extract_value arg_struct 0;
      arg_hi \<leftarrow> extract_value arg_struct 1;
      result \<leftarrow> call_u256_square_root E arg_lo arg_hi;
      br 0 [range_check, result] }"

text \<open>
  The block that computes the inverse is only entered for a non-zero number. The types it uses
  are built with it, whether it is entered or not.
\<close>

definition inverse_block ::
  "mlir \<Rightarrow> ir_type \<Rightarrow> ir_type \<Rightarrow> ir_val \<Rightarrow> ir_val \<Rightarrow> ir_val \<Rightarrow> ir_val \<Rightarrow> outcome option" where
  "inverse_block M guarantee_type return_ty lhs rhs range_check range_check_no_inverse =
    do {
      let guarantee = UndefV guarantee_type;
      k0 \<leftarrow> const_int M 0 256;
      k1 \<leftarrow> const_int M 1 256;
      egcd_result \<leftarrow> extended_euclidean_algorithm M EW256 lhs rhs;
      gcd \<leftarrow> extract_value egcd_result 0;
      inv \<leftarrow> extract_value egcd_result 1;
      inv \<leftarrow> binary M Remui inv rhs;
      result_inv \<leftarrow> split_limbs2 M 256 return_ty inv;
      lhs_is_invertible \<leftarrow> cmpi M CmpEq gcd k1;
      inv_not_zero \<leftarrow> cmpi M CmpNe inv k0;
      inverse_exists_and_is_not_zero \<leftarrow> binary M Andi lhs_is_invertible inv_not_zero;
      range_check_inverse \<leftarrow> increment_builtin_counter_by M range_check 9;
      cond_br inverse_exists_and_is_not_zero (0, 1)
        (range_check_inverse # result_inv # replicate 8 guarantee,
         [range_check_no_inverse, guarantee, guarantee]) }"

definition build_u256_guarantee_inv_mod_n ::
  "mlir \<Rightarrow> registry \<Rightarrow> signature \<Rightarrow> ir_val list \<Rightarrow> outcome option" where
  "build_u256_guarantee_inv_mod_n M R sg entry =
    do {
      lhs_struct \<leftarrow> arg entry 1;
      rhs_struct \<leftarrow> arg entry 2;
      lhs \<leftarrow> join_limbs M 256 lhs_struct;
      rhs \<leftarrow> join_limbs M 256 rhs_struct;
      k0 \<leftarrow> const_int M 0 256;
      gt \<leftarrow> branch_ty sg 0 2;
      guarantee_type \<leftarrow> build_type R gt;
      rt \<leftarrow> branch_ty sg 0 1;
      return_ty \<leftarrow> build_type R rt;
      range_check \<leftarrow> arg entry 0;
      let guarantee = UndefV guarantee_type;
      range_check_no_inverse \<leftarrow> increment_builtin_counter_by M range_check 7;
      lhs_is_zero \<leftarrow> cmpi M CmpEq lhs k0;
      no_inverse \<leftarrow> pick lhs_is_zero True False;
      (if no_inverse then br 1 [range_check_no_inverse, guarantee, guarantee]
       else inverse_block M guarantee_type return_ty lhs rhs range_check range_check_no_inverse) }"

definition build_uint256 ::
  "mlir \<Rightarrow> externs \<Rightarrow> registry \<Rightarrow> signature \<Rightarrow> uint256_lib \<Rightarrow> ir_val list \<Rightarrow> outcome option" where
  "build_uint256 M E R sg selector entry =
    (case selector of
      Uint256Divmod \<Rightarrow> build_u256_divmod M R sg entry
    | Uint256IsZero \<Rightarrow> build_u256_is_zero M entry
    | Uint256SquareRoot \<Rightarrow> build_u256_square_root M E entry
    | Uint256InvModN \<Rightarrow> build_u256_guarantee_inv_mod_n M R sg entry)"

text \<open>Four limbs of a dividend, the lower two joined first.\<close>

definition join_limbs4 :: "mlir \<Rightarrow> ir_val \<Rightarrow> ir_val option" where
  "join_limbs4 M x =
    do {
      d0 \<leftarrow> extract_value x 0;
      d1 \<leftarrow> extract_value x 1;
      d2 \<leftarrow> extract_value x 2;
      d3 \<leftarrow> extract_value x 3;
      d0 \<leftarrow> convert (ml_extui M) d0 (IntTy 512);
      d1 \<leftarrow> convert (ml_extui M) d1 (IntTy 512);
      d2 \<leftarrow> convert (ml_extui M) d2 (IntTy 512);
      d3 \<leftarrow> convert (ml_extui M) d3 (IntTy 512);
      k128 \<leftarrow> const_int M 128 512;
      k256 \<leftarrow> const_int M 256 512;
      k384 \<leftarrow> const_int M 384 512;
      d1 \<leftarrow> binary M Shli d1 k128;
      d2 \<leftarrow> binary M Shli d2 k256;
      d3 \<leftarrow> binary M Shli d3 k384;
      lhs_01 \<leftarrow> binary M Ori d0 d1;
      lhs_23 \<leftarrow> binary M Ori d2 d3;
      binary M Ori lhs_01 lhs_23 }"

definition join_divisor :: "mlir \<Rightarrow> ir_val \<Rightarrow> ir_val option" where
  "join_divisor M x =
    do {
      d0 \<leftarrow> extract_value x 0;
      d1 \<leftarrow> extract_value x 1;
      d0 \<leftarrow> convert (ml_extui M) d0 (IntTy 512);
      d1 \<leftarrow> convert (ml_extui M) d1 (IntTy 512);
      k128 \<leftarrow> const_int M 128 512;
      d1 \<leftarrow> binary M Shli d1 k128;
      binary M Ori d0 d1 }"

definition build_divmod_u256 :: "mlir \<Rightarrow> registry \<Rightarrow> signature \<Rightarrow> ir_val list \<Rightarrow> outcome option" where
  "build_divmod_u256 M R sg entry =
    do {
      a0 \<leftarrow> arg entry 0;
      range_check \<leftarrow> increment_builtin_counter_by M a0 12;
      t \<leftarrow> branch_ty sg 0 3;
      guarantee_type \<leftarrow> build_type R t;
      lhs_struct \<leftarrow> arg entry 1;
      rhs_struct \<leftarrow> arg entry 2;
      dividend \<leftarrow> join_limbs4 M lhs_struct;
      divisor \<leftarrow> join_divisor M rhs_struct;
      result_div \<leftarrow> binary M Divui dividend divisor;
      result_rem \<leftarrow> binary M Remui dividend divisor;
      q0 \<leftarrow> limb_at M 512 0 result_div;
      q1 \<leftarrow> limb_at M 512 1 result_div;
      q2 \<leftarrow> limb_at M 512 2 result_div;
      q3 \<leftarrow> limb_at M 512 3 result_div;
      r0 \<leftarrow> limb_at M 512 0 result_rem;
      r1 \<leftarrow> limb_at M 512 1 result_rem;
      result_div_val \<leftarrow> insert_values (UndefV (StructTy [i128_ty, i128_ty, i128_ty, i128_ty])) [q0, q1, q2, q3];
      result_rem_val \<leftarrow> insert_values (UndefV (StructTy [i128_ty, i128_ty])) [r0, r1];
      br 0 (range_check # result_div_val # result_rem_val # replicate 5 (UndefV guarantee_type)) }"

definition build_uint512 ::
  "mlir \<Rightarrow> registry \<Rightarrow> signature \<Rightarrow> uint512_lib \<Rightarrow> ir_val list \<Rightarrow> outcome option" where
  "build_uint512 M R sg selector entry =
    (case selector of Uint512DivModU256 \<Rightarrow> build_divmod_u256 M R sg entry)"

end
