(* ===== verification/WideCompiled.thy ===== *)
theory WideCompiled
  imports CgWide
begin

text \<open>
  The code generated for wide integers agrees with the interpreter: joining and splitting limbs
  are inverse to each other, and the extended Euclidean algorithm finds the inverse that the
  interpreter takes from \<open>modinv\<close>.
\<close>

section \<open>Limbs\<close>

lemma or_add:
  fixes lo hi :: int
  assumes "0 \<le> lo" "lo < 2 ^ n"
  shows "hi * 2 ^ n OR lo = hi * 2 ^ n + lo" "lo OR hi * 2 ^ n = lo + hi * 2 ^ n"
proof -
  have "take_bit n lo = lo" using assms by (simp add: take_bit_int_eq_self_iff)
  then have "bit lo k \<Longrightarrow> k < n" for k by (metis bit_take_bit_iff)
  then have "\<not> bit (push_bit n hi) k \<or> \<not> bit lo k" for k by (fastforce simp: bit_push_bit_iff)
  then have "push_bit n hi OR lo = push_bit n hi + lo" by (intro disjunctive_add [symmetric]) blast
  then show "hi * 2 ^ n OR lo = hi * 2 ^ n + lo" by (simp add: push_bit_eq_mult)
  then show "lo OR hi * 2 ^ n = lo + hi * 2 ^ n" by (simp add: or.commute)
qed

text \<open>Shifting a limb into place loses nothing.\<close>

lemma shift_limb:
  assumes "mlir_ok M" "fits_unsigned v b" "k + v \<le> w" "0 < v"
  shows "binary M Shli (IV w b) (IV w (int k)) = Some (IV w (b * 2 ^ k))" "fits_unsigned w (b * 2 ^ k)"
proof -
  have "(2 :: int) ^ (v + k) \<le> 2 ^ w" using assms(3) by (intro power_increasing) simp_all
  moreover have "b * 2 ^ k < 2 ^ v * 2 ^ k" using assms(2) by (simp add: fits_unsigned_def)
  ultimately show fits: "fits_unsigned w (b * 2 ^ k)"
    using assms(2) unfolding fits_unsigned_def power_add by (meson less_le_trans mult_nonneg_nonneg zero_le_power zero_le_numeral)
  have "int k < int (2 ^ k)" by (simp only: of_nat_less_iff less_exp)
  moreover have "(2 :: int) ^ k \<le> 2 ^ w" using assms(3) by (intro power_increasing) simp_all
  ultimately have "fits_unsigned w (int k)" by (simp only: fits_unsigned_def of_nat_power of_nat_numeral) linarith
  moreover have "fits_unsigned w b" using fits_unsigned_mono [OF assms(2), of w] assms(3) by simp
  ultimately show "binary M Shli (IV w b) (IV w (int k)) = Some (IV w (b * 2 ^ k))"
    using assms(1,3,4) fits by (simp add: emitted bits_fits)
qed

lemma wide_const:
  assumes "mlir_ok M" "w \<in> {256, 512}" "i < 4"
  shows "const_int M (int (128 * i)) w = Some (IV w (int (128 * i)))"
proof -
  have "i \<in> {0, 1, 2, 3}" using assms(3) by auto
  then have "fits_unsigned w (int (128 * i))" using assms(2) by (auto simp: fits_unsigned_def)
  then show ?thesis using assms by (auto simp: emitted bits_fits)
qed

lemma limb_extends: "mlir_ok M \<Longrightarrow> w \<in> {256, 512} \<Longrightarrow> fits_unsigned 128 a \<Longrightarrow>
    convert (ml_extui M) (IV 128 a) (IntTy w) = Some (IV w a)"
  by (auto simp: emitted)

lemma join_limbs_eval:
  assumes "mlir_ok M" "w \<in> {256, 512}" "fits_unsigned 128 a" "fits_unsigned 128 b"
  shows "join_limbs M w (SV [IV 128 a, IV 128 b]) = Some (IV w (a + b * 2 ^ 128))"
proof -
  have "128 + 128 \<le> w" using assms(2) by auto
  note shift = shift_limb [OF assms(1,4) this zero_less_numeral]
  have a: "fits_unsigned w a" using fits_unsigned_mono [OF assms(3)] assms(2) by auto
  have "b * 2 ^ 128 OR a = b * 2 ^ 128 + a" using assms(3) by (intro or_add) (simp_all add: fits_unsigned_def)
  then have "binary M Ori (IV w (b * 2 ^ 128)) (IV w a) = Some (IV w (a + b * 2 ^ 128))"
    using assms(1) a shift(2) by (simp add: emitted)
  then show ?thesis
    using limb_extends [OF assms(1-3)] limb_extends [OF assms(1,2,4)] wide_const [OF assms(1,2), of 1] shift(1)
    by (simp add: join_limbs_def emitted)
qed

lemma join_divisor_eval:
  assumes "mlir_ok M" "fits_unsigned 128 a" "fits_unsigned 128 b"
  shows "join_divisor M (SV [IV 128 a, IV 128 b]) = Some (IV 512 (a + b * 2 ^ 128))"
proof -
  have shift: "binary M Shli (IV 512 b) (IV 512 128) = Some (IV 512 (b * 2 ^ 128))" "fits_unsigned 512 (b * 2 ^ 128)"
    using shift_limb [OF assms(1,3), of 128 512] by simp_all
  have a: "fits_unsigned 512 a" by (rule fits_unsigned_mono [OF assms(2)]) simp
  have "a OR b * 2 ^ 128 = a + b * 2 ^ 128" using assms(2) by (intro or_add) (simp_all add: fits_unsigned_def)
  then have "binary M Ori (IV 512 a) (IV 512 (b * 2 ^ 128)) = Some (IV 512 (a + b * 2 ^ 128))"
    using assms(1) a shift(2) by (simp add: emitted)
  then show ?thesis
    using limb_extends [OF assms(1) _ assms(2), of 512] limb_extends [OF assms(1) _ assms(3), of 512]
      wide_const [OF assms(1), of 512 1] shift(1)
    by (simp add: join_divisor_def emitted)
qed

lemma join_limbs4_eval:
  assumes "mlir_ok M" "fits_unsigned 128 a" "fits_unsigned 128 b" "fits_unsigned 128 c" "fits_unsigned 128 d"
  shows "join_limbs4 M (SV [IV 128 a, IV 128 b, IV 128 c, IV 128 d]) =
    Some (IV 512 (a + b * 2 ^ 128 + c * 2 ^ 256 + d * 2 ^ 384))"
    "fits_unsigned 512 (a + b * 2 ^ 128 + c * 2 ^ 256 + d * 2 ^ 384)"
proof -
  have shifts: "binary M Shli (IV 512 b) (IV 512 128) = Some (IV 512 (b * 2 ^ 128))"
    "binary M Shli (IV 512 c) (IV 512 256) = Some (IV 512 (c * 2 ^ 256))"
    "binary M Shli (IV 512 d) (IV 512 384) = Some (IV 512 (d * 2 ^ 384))"
    using shift_limb(1) [OF assms(1,3), of 128 512] shift_limb(1) [OF assms(1,4), of 256 512]
      shift_limb(1) [OF assms(1,5), of 384 512] by simp_all
  have l: "0 \<le> a" "a < 2 ^ 128" "0 \<le> b" "b < 2 ^ 128" "0 \<le> c" "c < 2 ^ 128" "0 \<le> d" "d < 2 ^ 128"
    using assms by (simp_all add: fits_unsigned_def)
  have o1: "a OR b * 2 ^ 128 = a + b * 2 ^ 128" using l by (intro or_add)
  have "c * 2 ^ 256 < 2 ^ 384" using l by simp
  then have o2: "c * 2 ^ 256 OR d * 2 ^ 384 = c * 2 ^ 256 + d * 2 ^ 384" using l by (intro or_add) simp_all
  have low: "0 \<le> a + b * 2 ^ 128" "a + b * 2 ^ 128 < 2 ^ 256" using l by simp_all
  have high: "c * 2 ^ 256 + d * 2 ^ 384 = (c + d * 2 ^ 128) * 2 ^ 256" by simp
  have o3: "(a + b * 2 ^ 128) OR (c * 2 ^ 256 + d * 2 ^ 384) = a + b * 2 ^ 128 + (c * 2 ^ 256 + d * 2 ^ 384)"
    unfolding high by (rule or_add(2) [OF low])
  have fits: "fits_unsigned 512 a" "fits_unsigned 512 (b * 2 ^ 128)" "fits_unsigned 512 (c * 2 ^ 256)"
    "fits_unsigned 512 (d * 2 ^ 384)" "fits_unsigned 512 (a + b * 2 ^ 128)"
    "fits_unsigned 512 (c * 2 ^ 256 + d * 2 ^ 384)"
    using l by (simp_all add: fits_unsigned_def)
  have ors: "binary M Ori (IV 512 a) (IV 512 (b * 2 ^ 128)) = Some (IV 512 (a + b * 2 ^ 128))"
    "binary M Ori (IV 512 (c * 2 ^ 256)) (IV 512 (d * 2 ^ 384)) = Some (IV 512 (c * 2 ^ 256 + d * 2 ^ 384))"
    "binary M Ori (IV 512 (a + b * 2 ^ 128)) (IV 512 (c * 2 ^ 256 + d * 2 ^ 384)) =
      Some (IV 512 (a + b * 2 ^ 128 + (c * 2 ^ 256 + d * 2 ^ 384)))"
    using binary_emitted [OF assms(1) fits(1,2), of Ori] binary_emitted [OF assms(1) fits(3,4), of Ori]
      binary_emitted [OF assms(1) fits(5,6), of Ori] o1 o2 o3 by (simp_all del: power_numeral)
  have exts: "convert (ml_extui M) (IV 128 e) (IntTy 512) = Some (IV 512 e)" if "fits_unsigned 128 e" for e
    using limb_extends [OF assms(1) _ that, of 512] by simp
  have ks: "const_int M 128 512 = Some (IV 512 128)" "const_int M 256 512 = Some (IV 512 256)"
    "const_int M 384 512 = Some (IV 512 384)"
    using wide_const [OF assms(1), of 512 1] wide_const [OF assms(1), of 512 2] wide_const [OF assms(1), of 512 3] by simp_all
  show "join_limbs4 M (SV [IV 128 a, IV 128 b, IV 128 c, IV 128 d]) =
      Some (IV 512 (a + b * 2 ^ 128 + c * 2 ^ 256 + d * 2 ^ 384))"
    using exts [OF assms(2)] exts [OF assms(3)] exts [OF assms(4)] exts [OF assms(5)] ks shifts ors
    by (simp add: join_limbs4_def extract_emitted add.assoc del: power_numeral)
  show "fits_unsigned 512 (a + b * 2 ^ 128 + c * 2 ^ 256 + d * 2 ^ 384)"
    using l by (simp add: fits_unsigned_def)
qed

lemma limb_at_eval:
  assumes "mlir_ok M" "w \<in> {256, 512}" "fits_unsigned w x" "128 * i < w"
  shows "limb_at M w i (IV w x) = Some (IV 128 (x div 2 ^ (128 * i) mod 2 ^ 128))"
proof (cases "i = 0")
  case True
  then show ?thesis using assms by (auto simp: limb_at_def i128_ty_def emitted bits_of_def)
next
  case False
  have y: "fits_unsigned w (x div 2 ^ (128 * i))"
    using assms(3) zdiv_mono2 [of x 1 "2 ^ (128 * i)"] by (auto simp: fits_unsigned_def pos_imp_zdiv_nonneg_iff)
  have "i < 4" using assms(2,4) by auto
  note k = wide_const [OF assms(1,2) this]
  have "fits_unsigned w (int (128 * i))" using assms(2) \<open>i < 4\<close> by (auto simp: fits_unsigned_def)
  then have "binary M Shrui (IV w x) (IV w (int (128 * i))) = Some (IV w (x div 2 ^ (128 * i)))"
    using assms by (simp add: emitted del: of_nat_mult)
  then show ?thesis
    using False k y assms(1,2) by (auto simp: limb_at_def i128_ty_def emitted bits_of_def)
qed

lemma represents_limbs:
  "represents (limb_struct 2 n) (SV [IV 128 (int n mod 2 ^ 128), IV 128 (int n div 2 ^ 128 mod 2 ^ 128)])"
  "represents (limb_struct 4 n) (SV [IV 128 (int n mod 2 ^ 128), IV 128 (int n div 2 ^ 128 mod 2 ^ 128),
    IV 128 (int n div 2 ^ 256 mod 2 ^ 128), IV 128 (int n div 2 ^ 384 mod 2 ^ 128)])"
proof -
  have u: "uint (of_nat (m mod 2 ^ 128) :: u128) = int m mod 2 ^ 128" for m
    by (simp add: uint_nat unat_of_nat zmod_int)
  have two: "limbs 2 m = [of_nat (m mod 2 ^ 128), of_nat (m div 2 ^ 128 mod 2 ^ 128)]" for m
    by (simp only: eval_nat_numeral(3) numeral_2_eq_2 limbs.simps)
  have four: "(4 :: nat) = Suc (Suc (Suc (Suc 0)))" by simp
  have divs: "int n div 2 ^ 256 = int (n div 2 ^ 128 div 2 ^ 128)" "int n div 2 ^ 128 = int (n div 2 ^ 128)"
    "int n div 2 ^ 384 = int (n div 2 ^ 128 div 2 ^ 128 div 2 ^ 128)"
    by (simp_all add: zdiv_int div_mult2_eq [symmetric])
  show "represents (limb_struct 2 n) (SV [IV 128 (int n mod 2 ^ 128), IV 128 (int n div 2 ^ 128 mod 2 ^ 128)])"
    "represents (limb_struct 4 n) (SV [IV 128 (int n mod 2 ^ 128), IV 128 (int n div 2 ^ 128 mod 2 ^ 128),
      IV 128 (int n div 2 ^ 256 mod 2 ^ 128), IV 128 (int n div 2 ^ 384 mod 2 ^ 128)])"
    unfolding divs by (simp_all add: limb_struct_def two four u del: power_numeral)
qed

lemma split_limbs2_eval:
  assumes "mlir_ok M" "w \<in> {256, 512}" "n < 2 ^ 256"
  shows "\<exists>y. split_limbs2 M w (StructTy [i128_ty, i128_ty]) (IV w (int n)) = Some y \<and> represents (limb_struct 2 n) y"
proof -
  have "int n < 2 ^ 256" using assms(3) by simp
  then have "fits_unsigned 256 (int n)" by (simp add: fits_unsigned_def)
  then have "fits_unsigned w (int n)" using assms(2) by (auto intro: fits_unsigned_mono [where n = 256])
  moreover have "128 * 1 < w" "128 * 0 < w" using assms(2) by auto
  ultimately have "split_limbs2 M w (StructTy [i128_ty, i128_ty]) (IV w (int n)) =
      Some (SV [IV 128 (int n mod 2 ^ 128), IV 128 (int n div 2 ^ 128 mod 2 ^ 128)])"
    using limb_at_eval [OF assms(1,2), of "int n" 0] limb_at_eval [OF assms(1,2), of "int n" 1]
    by (simp add: split_limbs2_def insert_emitted)
  with represents_limbs(1) show ?thesis by blast
qed

section \<open>256-bit integers\<close>

lemma limbs_number:
  "int (limbs_value [lo, hi]) = uint lo + uint hi * 2 ^ 128"
  "int (limbs_value [a, b, c, d]) = uint a + uint b * 2 ^ 128 + uint c * 2 ^ 256 + uint d * 2 ^ 384"
  by simp_all

lemma limb_fits: "fits_unsigned 128 (uint (x :: u128))"
  using unsigned_less [of x] by (simp add: fits_unsigned_def)

lemma join_u256:
  assumes "mlir_ok M"
  shows "join_limbs M 256 (SV [IV 128 (uint lo), IV 128 (uint hi)]) = Some (IV 256 (int (limbs_value [lo, hi])))"
  unfolding limbs_number by (rule join_limbs_eval [OF assms _ limb_fits limb_fits]) simp

lemma u256_fits: "fits_unsigned 256 (int (limbs_value [lo, hi]))"
proof -
  have "int (limbs_value [lo, hi]) < int (2 ^ 256)" by (simp only: of_nat_less_iff limbs_value_2)
  then show ?thesis by (simp add: fits_unsigned_def)
qed

lemma u256_divmod_agrees:
  assumes "mlir_ok M" "branch_ty sg 0 3 = Some t" "build_type R t = Some gt"
    and "fits_unsigned 64 k" "m \<noteq> 0" "n = limbs_value [n0, n1]" "m = limbs_value [m0, m1]"
  shows "agrees (eval_u256_divmod [Unit, Struct [U128 n0, U128 n1], Struct [U128 m0, U128 m1]])
    (build_u256_divmod M R sg [IV 64 k, SV [IV 128 (uint n0), IV 128 (uint n1)], SV [IV 128 (uint m0), IV 128 (uint m1)]])"
proof -
  have joins: "join_limbs M 256 (SV [IV 128 (uint n0), IV 128 (uint n1)]) = Some (IV 256 (int n))"
    "join_limbs M 256 (SV [IV 128 (uint m0), IV 128 (uint m1)]) = Some (IV 256 (int m))"
    using join_u256 [OF assms(1)] assms(6,7) by simp_all
  have fits: "fits_unsigned 256 (int n)" "fits_unsigned 256 (int m)"
    using u256_fits assms(6,7) by simp_all
  have ops: "binary M Divui (IV 256 (int n)) (IV 256 (int m)) = Some (IV 256 (int (n div m)))"
    "binary M Remui (IV 256 (int n)) (IV 256 (int m)) = Some (IV 256 (int (n mod m)))"
    using assms(1,5) fits by (simp_all add: emitted zdiv_int zmod_int)
  have small: "n div m < 2 ^ 256" "n mod m < 2 ^ 256"
    using limbs_value_2 [of n0 n1] div_le_dividend [of n m] mod_less_eq_dividend [of n m]
    unfolding assms(6) by (blast intro: le_less_trans)+
  obtain y z where y: "split_limbs2 M 256 (StructTy [i128_ty, i128_ty]) (IV 256 (int (n div m))) = Some y"
      "represents (limb_struct 2 (n div m)) y"
    and z: "split_limbs2 M 256 (StructTy [i128_ty, i128_ty]) (IV 256 (int (n mod m))) = Some z"
      "represents (limb_struct 2 (n mod m)) z"
    using split_limbs2_eval [OF assms(1) _ small(1)] split_limbs2_eval [OF assms(1) _ small(2)] by fastforce
  have "increment_builtin_counter_by M (IV 64 k) 6 = Some (IV 64 (bits_of 64 (k + 6)))"
    using assms(1,4) by (simp add: emitted fits_unsigned_def)
  moreover have "eval_u256_divmod [Unit, Struct [U128 n0, U128 n1], Struct [U128 m0, U128 m1]] =
      Some (NormalBranch 0 [Unit, limb_struct 2 (n div m), limb_struct 2 (n mod m), Unit])"
    using assms(5) unfolding eval_u256_divmod_euclid assms(6,7) by (simp only: if_False)
  ultimately show ?thesis
    using assms(2,3) joins ops y z by (simp add: build_u256_divmod_def br_emitted del: of_nat_div of_nat_mod)
qed

lemma u256_is_zero_agrees:
  assumes "mlir_ok M"
  shows "agrees (eval_u256_is_zero [Struct [U128 a, U128 b]])
    (build_u256_is_zero M [SV [IV 128 (uint a), IV 128 (uint b)]])"
proof -
  have "(uint a = 0) = (a = 0)" "(uint b = 0) = (b = 0)" by (simp_all add: unsigned_eq_0_iff)
  then show ?thesis
    using limb_fits [of a] limb_fits [of b] assms const_zero [OF assms, of 128]
    by (simp add: eval_u256_is_zero_def build_u256_is_zero_def emitted)
qed

lemma u256_square_root_agrees:
  assumes "mlir_ok M" "sqrt_ok E" "fits_unsigned 64 k"
  shows "agrees (eval_u256_square_root E [Unit, Struct [U128 lo, U128 hi]])
    (build_u256_square_root M E [IV 64 k, SV [IV 128 (uint lo), IV 128 (uint hi)]])"
proof -
  obtain r where r: "eval_u256_square_root E [Unit, Struct [U128 lo, U128 hi]] = Some (NormalBranch 0 [Unit, U128 r])"
    using eval_u256_square_root_floor [OF assms(2)] by blast
  have n: "int (u256_to_biguint lo hi) = 2 ^ 128 * uint hi + uint lo"
    unfolding u256_biguint_limbs limbs_number by simp
  obtain s where s: "ex_sqrt E (2 ^ 128 * uint hi + uint lo) = Some s" "to_unsigned s = Some r"
    using r unfolding eval_u256_square_root_def Let_def by (auto simp: n split: bind_splits)
  then have "u256_square_root E lo hi = Ok r"
    by (auto simp: u256_square_root_def to_unsigned_def split: if_splits)
  then show ?thesis
    using r assms(1,3) by (simp add: build_u256_square_root_def call_u256_square_root_def emitted fits_unsigned_def)
qed

section \<open>Inverses\<close>

lemma inverse_unique:
  fixes a c m r :: int
  assumes "0 \<le> c" "c < m" "0 \<le> r" "r < m" "m dvd c * a - 1" "m dvd a * r - 1"
  shows "r = c"
proof -
  have "m dvd (c * a - 1) * r - (a * r - 1) * c" by (rule dvd_diff [OF dvd_mult2 [OF assms(5)] dvd_mult2 [OF assms(6)]])
  moreover have "(c * a - 1) * r - (a * r - 1) * c = c - r" by (simp add: algebra_simps)
  ultimately have "m dvd c - r" by simp
  moreover have "\<bar>c - r\<bar> < m" using assms(1-4) by linarith
  moreover have "0 < m" using assms(1,2) by linarith
  ultimately have "c - r = 0" using dvd_imp_le_int [of "c - r" m] by fastforce
  then show ?thesis by simp
qed

lemma modinv_case:
  assumes "modinv_ok E" "0 < m" "ex_modinv E a m = Some res"
  shows "case res of Some r \<Rightarrow> r < m \<and> a * r mod m = 1 mod m | None \<Rightarrow> \<forall>r. a * r mod m \<noteq> 1 mod m"
proof -
  obtain res' where "ex_modinv E a m = Some res'"
    "case res' of Some r \<Rightarrow> r < m \<and> a * r mod m = 1 mod m | None \<Rightarrow> \<forall>r. a * r mod m \<noteq> 1 mod m"
    using assms(1,2) unfolding modinv_ok_def by blast
  with assms(3) show ?thesis by simp
qed

text \<open>What the code decides on and what \<open>modinv\<close> says.\<close>

lemma egcd_modinv:
  assumes "modinv_ok E" "0 < m" "ex_modinv E a m = Some res"
    and "0 \<le> c" "c < int m \<or> int m = 1 \<and> c = 1" "int m dvd c * int a - gcd (int a) (int m)"
  shows "if gcd (int a) (int m) = 1 \<and> c mod int m \<noteq> 0 then res = Some (nat (c mod int m)) \<and> nat (c mod int m) \<noteq> 0
    else res = None \<or> res = Some 0"
proof (cases "m = 1")
  case True
  with modinv_case [OF assms(1-3)] show ?thesis by (cases res) auto
next
  case False
  then have m: "1 < m" using assms(2) by simp
  note res = modinv_case [OF assms(1-3)]
  have c: "0 \<le> c" "c < int m" "c mod int m = c" using assms(4,5) m by auto
  have inverts: "a * r mod m = 1 mod m \<longleftrightarrow> int m dvd int a * int r - 1" for r
  proof -
    have "a * r mod m = 1 mod m \<longleftrightarrow> int (a * r) mod int m = int 1 mod int m"
      by (simp only: of_nat_mod [symmetric] of_nat_eq_iff)
    also have "\<dots> \<longleftrightarrow> int m dvd int (a * r) - int 1" by (rule mod_eq_dvd_iff)
    finally show ?thesis by simp
  qed
  show ?thesis
  proof (cases "gcd (int a) (int m) = 1")
    case True
    then have dvd: "int m dvd c * int a - 1" using assms(6) by simp
    have nz: "c \<noteq> 0" using dvd m by auto
    have "int m dvd int a * int (nat c) - 1" using dvd c by (simp add: mult.commute)
    then have "a * nat c mod m = 1 mod m" by (rule inverts [THEN iffD2])
    then obtain r where r: "res = Some r" "r < m" "a * r mod m = 1 mod m" using res by (cases res) auto
    then have inv: "int m dvd int a * int r - 1" using inverts by blast
    have "int r = c" by (rule inverse_unique [OF c(1,2) _ _ dvd inv]) (use r(2) in simp_all)
    then show ?thesis using True c nz r(1) by auto
  next
    case False
    have "\<not> int m dvd int a * int r - 1" for r
    proof
      assume "int m dvd int a * int r - 1"
      then have "gcd (int a) (int m) dvd int a * int r - 1" by (rule dvd_trans [OF gcd_dvd2])
      from dvd_diff [OF dvd_mult2 [OF gcd_dvd1 [of "int a" "int m"], of "int r"] this]
      have "gcd (int a) (int m) dvd 1" by (simp only: diff_diff_eq2 add_diff_cancel_left')
      then have "gcd (int a) (int m) = 1" by (simp only: is_unit_gcd_iff)
      then show False using False by simp
    qed
    then have "a * r mod m \<noteq> 1 mod m" for r using inverts by blast
    then have "res = None" using res by (cases res) auto
    then show ?thesis using False by simp
  qed
qed

lemma inverse_block_eval:
  assumes "mlir_ok M" "0 < a" "a < 2 ^ 256" "0 < m" "m < 2 ^ 256" "fits_unsigned 64 k"
  shows "\<exists>c y. 0 \<le> c \<and> (c < int m \<or> int m = 1 \<and> c = 1) \<and> int m dvd c * int a - gcd (int a) (int m) \<and>
    represents (limb_struct 2 (nat (c mod int m))) y \<and>
    inverse_block M gt (StructTy [i128_ty, i128_ty]) (IV 256 (int a)) (IV 256 (int m)) (IV 64 k) z =
      Some (if gcd (int a) (int m) = 1 \<and> c mod int m \<noteq> 0
        then Branch 0 (IV 64 (bits_of 64 (k + 9)) # y # replicate 8 (UndefV gt))
        else Branch 1 [z, UndefV gt, UndefV gt])"
proof -
  let ?g = "gcd (int a) (int m)"
  have am: "0 < int a" "int a < 2 ^ 256" "0 < int m" "int m < 2 ^ 256" using assms(2-5) by simp_all
  obtain c where c: "extended_euclidean_algorithm M EW256 (IV 256 (int a)) (IV 256 (int m)) = Some (SV [IV 256 ?g, IV 256 c])"
    "0 \<le> c" "c < int m \<or> int m = 1 \<and> c = 1" "int m dvd c * int a - ?g"
    using egcd_function_correct [OF assms(1), of "int a" EW256 "int m"] am unfolding width_bits.simps by blast
  define d where "d = c mod int m"
  have d: "0 \<le> d" "d < int m" using am(3) by (simp_all add: d_def)
  have "?g \<le> int m" using am(3) by (intro zdvd_imp_le) simp_all
  moreover have "0 \<le> ?g" by simp
  ultimately have "fits_unsigned 256 ?g" using am(4) unfolding fits_unsigned_def by linarith
  then have fits: "fits_unsigned 256 c" "fits_unsigned 256 (int m)" "fits_unsigned 256 d" "fits_unsigned 256 ?g"
    "fits_unsigned 256 1"
    using c(2,3) d am by (auto simp: fits_unsigned_def)
  have rem: "binary M Remui (IV 256 c) (IV 256 (int m)) = Some (IV 256 d)"
    using assms(1) fits am(3) by (simp add: emitted d_def)
  have "nat d < 2 ^ 256" using d am(4) by (simp add: nat_less_iff)
  from split_limbs2_eval [OF assms(1) _ this, of 256] obtain y where
    y: "split_limbs2 M 256 (StructTy [i128_ty, i128_ty]) (IV 256 d) = Some y" "represents (limb_struct 2 (nat d)) y"
    using d(1) by auto
  have ks: "const_int M 0 256 = Some (IV 256 0)" "const_int M 1 256 = Some (IV 256 1)"
    using assms(1) fits(5) by (simp_all add: const_zero emitted bits_fits)
  have cmps: "cmpi M CmpEq (IV 256 ?g) (IV 256 1) = Some (bit_val (?g = 1))"
    "cmpi M CmpNe (IV 256 d) (IV 256 0) = Some (bit_val (d \<noteq> 0))"
    using assms(1) fits by (simp_all add: emitted)
  have "increment_builtin_counter_by M (IV 64 k) 9 = Some (IV 64 (bits_of 64 (k + 9)))"
    using assms(1,6) by (simp add: emitted fits_unsigned_def)
  then have "inverse_block M gt (StructTy [i128_ty, i128_ty]) (IV 256 (int a)) (IV 256 (int m)) (IV 64 k) z =
      Some (if ?g = 1 \<and> d \<noteq> 0
        then Branch 0 (IV 64 (bits_of 64 (k + 9)) # y # replicate 8 (UndefV gt))
        else Branch 1 [z, UndefV gt, UndefV gt])"
    using ks c(1) rem y(1) cmps
    by (simp add: inverse_block_def Let_def extract_emitted bit_and_emitted [OF assms(1)] cond_br_emitted)
  with c(2-4) y(2) show ?thesis unfolding d_def by blast
qed

lemma u256_inv_mod_n_agrees:
  assumes "mlir_ok M" "modinv_ok E" "fits_unsigned 64 k" "m \<noteq> 0" "a = limbs_value [a0, a1]" "m = limbs_value [m0, m1]"
    and "branch_ty sg 0 2 = Some t" "build_type R t = Some gt"
    and "branch_ty sg 0 1 = Some t'" "build_type R t' = Some (StructTy [i128_ty, i128_ty])"
  shows "agrees (eval_inv_mod_n E [Unit, Struct [U128 a0, U128 a1], Struct [U128 m0, U128 m1]])
    (build_u256_guarantee_inv_mod_n M R sg
      [IV 64 k, SV [IV 128 (uint a0), IV 128 (uint a1)], SV [IV 128 (uint m0), IV 128 (uint m1)]])"
    (is "agrees ?interp ?code")
proof -
  have joins: "join_limbs M 256 (SV [IV 128 (uint a0), IV 128 (uint a1)]) = Some (IV 256 (int a))"
    "join_limbs M 256 (SV [IV 128 (uint m0), IV 128 (uint m1)]) = Some (IV 256 (int m))"
    using join_u256 [OF assms(1)] assms(5,6) by simp_all
  have small: "a < 2 ^ 256" "m < 2 ^ 256" using limbs_value_2 assms(5,6) by simp_all
  have "fits_unsigned 256 (int a)" using u256_fits assms(5) by simp
  then have is_zero: "cmpi M CmpEq (IV 256 (int a)) (IV 256 0) = Some (bit_val (a = 0))"
    using assms(1) by (simp add: emitted)
  obtain res where res: "ex_modinv E a m = Some res"
    using assms(2,4) unfolding modinv_ok_def by (meson gr0I)
  have u: "u256_to_biguint a0 a1 = a" "u256_to_biguint m0 m1 = m" by (simp_all add: u256_biguint_limbs assms(5,6))
  have interp: "?interp = (case res of
      Some r \<Rightarrow> if r = 0 then Some (NormalBranch 1 [Unit, Unit, Unit])
        else do { v \<leftarrow> u256_to_value r; Some (NormalBranch 0 (Unit # v # replicate 8 Unit)) }
    | None \<Rightarrow> Some (NormalBranch 1 [Unit, Unit, Unit]))"
    by (cases res) (simp_all add: eval_inv_mod_n_def u res numeral_eq_Suc)
  have code: "?code = (if a = 0 then Some (Branch 1 [IV 64 (bits_of 64 (k + 7)), UndefV gt, UndefV gt])
    else inverse_block M gt (StructTy [i128_ty, i128_ty]) (IV 256 (int a)) (IV 256 (int m)) (IV 64 k) (IV 64 (bits_of 64 (k + 7))))"
    using joins is_zero assms(1,3,7-10) const_zero [OF assms(1), of 256]
    by (simp add: build_u256_guarantee_inv_mod_n_def Let_def pick_emitted br_emitted increment_by_emitted fits_unsigned_def)
  show ?thesis
  proof (cases "a = 0")
    case True
    have "res = None \<or> res = Some 0"
    proof (cases res)
      case (Some r)
      then have "r < m" "0 = 1 mod m"
        using modinv_case [OF assms(2) _ res] assms(4) True by simp_all
      then have "r = 0" by (cases "m = 1") auto
      then show ?thesis using Some by simp
    qed simp
    then show ?thesis using True code interp by auto
  next
    case False
    obtain c y where c: "0 \<le> c" "c < int m \<or> int m = 1 \<and> c = 1" "int m dvd c * int a - gcd (int a) (int m)"
      and y: "represents (limb_struct 2 (nat (c mod int m))) y"
      and block: "inverse_block M gt (StructTy [i128_ty, i128_ty]) (IV 256 (int a)) (IV 256 (int m)) (IV 64 k)
          (IV 64 (bits_of 64 (k + 7))) = Some (if gcd (int a) (int m) = 1 \<and> c mod int m \<noteq> 0
        then Branch 0 (IV 64 (bits_of 64 (k + 9)) # y # replicate 8 (UndefV gt))
        else Branch 1 [IV 64 (bits_of 64 (k + 7)), UndefV gt, UndefV gt])"
      using inverse_block_eval [OF assms(1) _ small(1) _ small(2) assms(3)] False assms(4) by blast
    have "nat (c mod int m) < m" using assms(4) by (simp add: nat_less_iff)
    then have v: "u256_to_value (nat (c mod int m)) = Some (limb_struct 2 (nat (c mod int m)))"
      using small(2) by (intro u256_value_limbs) linarith
    have "list_all2 represents (replicate 8 Unit) (replicate 8 (UndefV gt))" by (simp add: list_all2_conv_all_nth)
    then show ?thesis
      using egcd_modinv [OF assms(2) _ res c] assms(4) False code block interp v y
      by (auto split: if_splits)
  qed
qed

section \<open>512-bit integers\<close>

lemma u512_divmod_agrees:
  assumes "mlir_ok M" "branch_ty sg 0 3 = Some t" "build_type R t = Some gt" "fits_unsigned 64 k" "m \<noteq> 0"
    and "n = limbs_value [n0, n1, n2, n3]" "m = limbs_value [m0, m1]"
  shows "agrees (eval_u512_divmod [Unit, Struct [U128 n0, U128 n1, U128 n2, U128 n3], Struct [U128 m0, U128 m1]])
    (build_divmod_u256 M R sg [IV 64 k, SV [IV 128 (uint n0), IV 128 (uint n1), IV 128 (uint n2), IV 128 (uint n3)],
      SV [IV 128 (uint m0), IV 128 (uint m1)]])"
proof -
  have n: "join_limbs4 M (SV [IV 128 (uint n0), IV 128 (uint n1), IV 128 (uint n2), IV 128 (uint n3)]) =
      Some (IV 512 (int n))" "fits_unsigned 512 (int n)"
    using join_limbs4_eval [OF assms(1) limb_fits limb_fits limb_fits limb_fits, of n0 n1 n2 n3]
    unfolding assms(6) limbs_number by simp_all
  have m: "join_divisor M (SV [IV 128 (uint m0), IV 128 (uint m1)]) = Some (IV 512 (int m))"
    using join_divisor_eval [OF assms(1) limb_fits limb_fits, of m0 m1] unfolding assms(7) limbs_number by simp
  have "fits_unsigned 256 (int m)" using u256_fits assms(7) by simp
  then have m_fits: "fits_unsigned 512 (int m)" by (rule fits_unsigned_mono) simp
  have ops: "binary M Divui (IV 512 (int n)) (IV 512 (int m)) = Some (IV 512 (int (n div m)))"
    "binary M Remui (IV 512 (int n)) (IV 512 (int m)) = Some (IV 512 (int (n mod m)))"
    using assms(1,5) n(2) m_fits by (simp_all add: emitted zdiv_int zmod_int)
  have "n div m \<le> n" "n mod m \<le> n" by simp_all
  then have fits: "fits_unsigned 512 (int (n div m))" "fits_unsigned 512 (int (n mod m))"
    using n(2) unfolding fits_unsigned_def by linarith+
  have limb: "limb_at M 512 i (IV 512 (int x)) = Some (IV 128 (int x div 2 ^ (128 * i) mod 2 ^ 128))"
    if "fits_unsigned 512 (int x)" "i < 4" for x i
    using limb_at_eval [OF assms(1) _ that(1), of i] that(2) by simp
  have count: "increment_builtin_counter_by M (IV 64 k) 12 = Some (IV 64 (bits_of 64 (k + 12)))"
    using assms(1,4) by (simp add: emitted fits_unsigned_def)
  have reps: "list_all2 represents (replicate 5 Unit) (replicate 5 (UndefV gt))" by (simp add: list_all2_conv_all_nth)
  have interp: "eval_u512_divmod [Unit, Struct [U128 n0, U128 n1, U128 n2, U128 n3], Struct [U128 m0, U128 m1]] =
      Some (NormalBranch 0 (Unit # limb_struct 4 (n div m) # limb_struct 2 (n mod m) # replicate 5 Unit))"
    using assms(5) unfolding eval_u512_divmod_euclid assms(6,7) by (simp add: numeral_eq_Suc del: limbs_value.simps)
  obtain q r where q: "represents (limb_struct 4 (n div m)) q" and r: "represents (limb_struct 2 (n mod m)) r"
    and code: "build_divmod_u256 M R sg [IV 64 k, SV [IV 128 (uint n0), IV 128 (uint n1), IV 128 (uint n2), IV 128 (uint n3)],
      SV [IV 128 (uint m0), IV 128 (uint m1)]] =
      Some (Branch 0 (IV 64 (bits_of 64 (k + 12)) # q # r # replicate 5 (UndefV gt)))"
  proof
    show "represents (limb_struct 4 (n div m)) (SV [IV 128 (int (n div m) mod 2 ^ 128),
        IV 128 (int (n div m) div 2 ^ 128 mod 2 ^ 128), IV 128 (int (n div m) div 2 ^ 256 mod 2 ^ 128),
        IV 128 (int (n div m) div 2 ^ 384 mod 2 ^ 128)])" by (rule represents_limbs)
    show "represents (limb_struct 2 (n mod m)) (SV [IV 128 (int (n mod m) mod 2 ^ 128),
        IV 128 (int (n mod m) div 2 ^ 128 mod 2 ^ 128)])" by (rule represents_limbs)
  qed (use limb [OF fits(1), of 0] limb [OF fits(1), of 1] limb [OF fits(1), of 2] limb [OF fits(1), of 3]
      limb [OF fits(2), of 0] limb [OF fits(2), of 1] n(1) m ops count assms(2,3) in
      \<open>simp add: build_divmod_u256_def br_emitted insert_values_def insert_emitted del: of_nat_div of_nat_mod power_numeral\<close>)
  show ?thesis unfolding interp code using q r reps by simp
qed

section \<open>All libfuncs of wide integers\<close>

text \<open>The calls that agree: well-formed operands, a divisor or modulus that is not zero.\<close>

definition u256_val :: "u128 \<times> u128 \<Rightarrow> val" where "u256_val x = Struct [U128 (fst x), U128 (snd x)]"
definition u256_ir :: "u128 \<times> u128 \<Rightarrow> ir_val" where
  "u256_ir x = SV [IV 128 (uint (fst x)), IV 128 (uint (snd x))]"

definition guarantee_built :: "registry \<Rightarrow> signature \<Rightarrow> nat \<Rightarrow> bool" where
  "guarantee_built R sg i \<longleftrightarrow> (\<exists>t gt. branch_ty sg 0 i = Some t \<and> build_type R t = Some gt)"

inductive u256_call :: "registry \<Rightarrow> signature \<Rightarrow> uint256_lib \<Rightarrow> val list \<Rightarrow> ir_val list \<Rightarrow> bool"
  for R sg where
  call_divmod: "guarantee_built R sg 3 \<Longrightarrow> fits_unsigned 64 k \<Longrightarrow> y \<noteq> (0, 0) \<Longrightarrow>
    u256_call R sg Uint256Divmod [Unit, u256_val x, u256_val y] [IV 64 k, u256_ir x, u256_ir y]"
| call_u256_is_zero: "u256_call R sg Uint256IsZero [u256_val x] [u256_ir x]"
| call_square_root: "fits_unsigned 64 k \<Longrightarrow> u256_call R sg Uint256SquareRoot [Unit, u256_val x] [IV 64 k, u256_ir x]"
| call_inv: "guarantee_built R sg 2 \<Longrightarrow> branch_ty sg 0 1 = Some t \<Longrightarrow>
    build_type R t = Some (StructTy [i128_ty, i128_ty]) \<Longrightarrow> fits_unsigned 64 k \<Longrightarrow> y \<noteq> (0, 0) \<Longrightarrow>
    u256_call R sg Uint256InvModN [Unit, u256_val x, u256_val y] [IV 64 k, u256_ir x, u256_ir y]"

lemma limbs_nonzero: "(a, b) \<noteq> (0, 0) \<Longrightarrow> limbs_value [a, b] \<noteq> 0"
  by (auto simp: unsigned_eq_0_iff)

lemma uint256_code_agrees:
  assumes "mlir_ok M" "sqrt_ok E" "modinv_ok E" "u256_call R sg lib args xs"
  shows "agrees (eval_uint256 E lib args) (build_uint256 M E R sg lib xs)"
  using assms(4)
proof cases
  case (call_divmod k y x)
  then show ?thesis
    using u256_divmod_agrees [OF assms(1) _ _ call_divmod(5) limbs_nonzero refl refl, of sg _ R]
    by (cases x; cases y) (auto simp: eval_uint256_def build_uint256_def u256_val_def u256_ir_def guarantee_built_def
      simp del: limbs_value.simps)
next
  case (call_u256_is_zero x)
  then show ?thesis using u256_is_zero_agrees [OF assms(1)]
    by (simp add: eval_uint256_def build_uint256_def u256_val_def u256_ir_def)
next
  case (call_square_root k x)
  then show ?thesis using u256_square_root_agrees [OF assms(1,2)]
    by (simp add: eval_uint256_def build_uint256_def u256_val_def u256_ir_def)
next
  case (call_inv t k y x)
  then show ?thesis
    using u256_inv_mod_n_agrees [OF assms(1,3) call_inv(7) limbs_nonzero refl refl _ _ call_inv(5,6)]
    by (cases x; cases y) (auto simp: eval_uint256_def build_uint256_def u256_val_def u256_ir_def guarantee_built_def
      simp del: limbs_value.simps)
qed

inductive u512_call :: "registry \<Rightarrow> signature \<Rightarrow> val list \<Rightarrow> ir_val list \<Rightarrow> bool"
  for R sg where
  "guarantee_built R sg 3 \<Longrightarrow> fits_unsigned 64 k \<Longrightarrow> y \<noteq> (0, 0) \<Longrightarrow>
    u512_call R sg [Unit, Struct [U128 a, U128 b, U128 c, U128 d], u256_val y]
      [IV 64 k, SV [IV 128 (uint a), IV 128 (uint b), IV 128 (uint c), IV 128 (uint d)], u256_ir y]"

lemma uint512_code_agrees:
  assumes "mlir_ok M" "u512_call R sg args xs"
  shows "agrees (eval_uint512 lib args) (build_uint512 M R sg lib xs)"
  using assms(2)
proof cases
  case (1 k y a b c d)
  then show ?thesis
    using u512_divmod_agrees [OF assms(1) _ _ 1(4) limbs_nonzero refl refl, of sg _ R]
    by (cases y; cases lib) (auto simp: eval_uint512_def build_uint512_def u256_val_def u256_ir_def guarantee_built_def
      simp del: limbs_value.simps)
qed

text \<open>
  C16: 256-bit and 512-bit integers: compiled code leaves every libfunc by the branch the
  interpreter leaves it by, with the same limbs. For the modular inverse this means that the
  extended Euclidean loop, which ends for every operand, finds the inverse exactly when there
  is one, the modulus 1 and the operand 0 included.
\<close>

theorem wide_code_agrees:
  assumes "mlir_ok M" "sqrt_ok E" "modinv_ok E"
  shows "(u256_call R sg lib args xs \<longrightarrow> agrees (eval_uint256 E lib args) (build_uint256 M E R sg lib xs)) \<and>
    (u512_call R sg args xs \<longrightarrow> agrees (eval_uint512 lib' args) (build_uint512 M R sg lib' xs))"
  using uint256_code_agrees [OF assms] uint512_code_agrees [OF assms(1)] by blast

lemma wide_code_agrees_witness:
  "agrees (eval_uint256 ref_externs Uint256InvModN [Unit, u256_val (3, 0), u256_val (7, 0)])
    (build_uint256 ref_mlir ref_externs sample_registry (sg_of [] [[11, 27, 11]]) Uint256InvModN
      [IV 64 0, u256_ir (3, 0), u256_ir (7, 0)])"
proof -
  have "u256_call sample_registry (sg_of [] [[11, 27, 11]]) Uint256InvModN [Unit, u256_val (3, 0), u256_val (7, 0)]
      [IV 64 0, u256_ir (3, 0), u256_ir (7, 0)]"
  proof (rule call_inv)
    have t: "get_type sample_registry 27 = Some (StructT [5, 5])" "get_type sample_registry 5 = Some Uint128T"
      "get_type sample_registry 11 = Some RangeCheckT"
      by (simp_all add: sample_types_def)
    show "build_type sample_registry 27 = Some (StructTy [i128_ty, i128_ty])"
      using t by (simp add: build_type_def build_def i128_ty_def del: sample_type(1))
    show "guarantee_built sample_registry (sg_of [] [[11, 27, 11]]) 2"
      using t by (simp add: guarantee_built_def build_type_def build_def del: sample_type(1))
  qed (simp_all add: fits_unsigned_def)
  then show ?thesis
    using wide_code_agrees [OF ref_mlir_ok ref_sqrt_ok ref_modinv_ok] by blast
qed

end
