(* ===== verification/CircuitCompiled.thy ===== *)
theory CircuitCompiled
  imports CgCircuit WideCompiled
begin

text \<open>
  The code generated for circuits agrees with the interpreter: on a circuit whose gates can be
  ordered by dependency the generator finds an order, and the generated code computes the
  values the interpreter computes.
\<close>

section \<open>Gate arithmetic\<close>

lemma circuit_tag [simp]:
  assumes "mlir_ok M"
  shows "circuit_arith_operation M tag l r m = arith_case M tag l r m"
proof -
  have "const_int M (arith_tag tag) 2 = Some (IV 2 (arith_tag tag))"
    using assms by (cases tag) (simp_all add: emitted fits_unsigned_def bits_of_def)
  then show ?thesis
    by (cases tag) (simp_all add: circuit_arith_operation_def build_circuit_arith_operation_def)
qed

lemma arith_result:
  assumes "mlir_ok M" "384 < w" "0 < m" "fits_unsigned 384 m" "fits_unsigned w x"
  shows "do { r \<leftarrow> binary M Remui (IV w x) (IV w m); convert (ml_trunci M) r (IntTy 384) } = Some (IV 384 (x mod m))"
proof -
  have r: "fits_unsigned 384 (x mod m)" using assms(3,4) pos_mod_bound [of m x] pos_mod_sign [of m x]
    unfolding fits_unsigned_def by linarith
  then have "fits_unsigned w (x mod m)" "fits_unsigned w m"
    using fits_unsigned_mono assms(2,4) by (blast intro: less_imp_le)+
  then show ?thesis using assms r by (simp add: emitted bits_fits)
qed

lemma arith_case_eval:
  assumes "mlir_ok M" "0 < m" "fits_unsigned 384 m" "fits_unsigned 384 a" "fits_unsigned 384 b"
  shows "arith_case M ArithAdd (IV 384 a) (IV 384 b) (IV 384 m) = Some (IV 384 ((a + b) mod m))"
    "arith_case M ArithMul (IV 384 a) (IV 384 b) (IV 384 m) = Some (IV 384 (a * b mod m))"
    "arith_case M ArithSub (IV 384 a) (IV 384 b) (IV 384 m) = Some (IV 384 (bits_of 385 (a + m - b) mod m))"
proof -
  have mono: "fits_unsigned w i" if "fits_unsigned 384 i" "384 < w" for w i
    using that fits_unsigned_mono less_imp_le by blast
  have ext: "convert (ml_extui M) (IV 384 i) (IntTy w) = Some (IV w i)" if "fits_unsigned 384 i" "384 < w" for w i
    using assms(1) that by (simp add: emitted)
  have exts: "convert (ml_extui M) (IV 384 a) (IntTy w) = Some (IV w a)" "convert (ml_extui M) (IV 384 b) (IntTy w) = Some (IV w b)"
    "convert (ml_extui M) (IV 384 m) (IntTy w) = Some (IV w m)" if "384 < w" for w
    using ext assms(3-5) that by simp_all
  have sum: "fits_unsigned 385 (a + b)" "fits_unsigned 385 (a + m)" using assms(3-5) by (simp_all add: fits_unsigned_def)
  have "a * b < 2 ^ 384 * 2 ^ 384" using assms(4,5) by (intro mult_strict_mono) (simp_all add: fits_unsigned_def)
  then have prod: "fits_unsigned 768 (a * b)" using assms(4,5) by (simp add: fits_unsigned_def)
  note fits = mono [OF assms(3)] mono [OF assms(4)] mono [OF assms(5)]
  show "arith_case M ArithAdd (IV 384 a) (IV 384 b) (IV 384 m) = Some (IV 384 ((a + b) mod m))"
    using arith_result [OF assms(1) _ assms(2,3) sum(1)] exts [of 385] assms(1) fits [of 385] bits_fits [OF sum(1)]
    by (simp add: arith_case_def binary_emitted)
  show "arith_case M ArithMul (IV 384 a) (IV 384 b) (IV 384 m) = Some (IV 384 (a * b mod m))"
    using arith_result [OF assms(1) _ assms(2,3) prod] exts [of 768] assms(1) fits [of 768] bits_fits [OF prod]
    by (simp add: arith_case_def binary_emitted)
  show "arith_case M ArithSub (IV 384 a) (IV 384 b) (IV 384 m) = Some (IV 384 (bits_of 385 (a + m - b) mod m))"
    using arith_result [OF assms(1) _ assms(2,3) fits_bits, of 385 "a + m - b"] exts [of 385] assms(1) fits [of 385] bits_fits [OF sum(2)] sum(2)
    by (simp add: arith_case_def binary_emitted)
qed

text \<open>
  Addition and multiplication gates compute modulo the modulus for all operands of 384
  bits. A subtraction gate does as long as the subtrahend is at most the minuend plus the
  modulus; above that, which an input that is not reduced can be, the interpreter panics, and
  compiled code returns the difference only for a modulus that divides \<open>2 ^ 385\<close>.
\<close>

theorem circuit_arith_exact:
  assumes "mlir_ok M" "0 < m" "fits_unsigned 384 m" "fits_unsigned 384 a" "fits_unsigned 384 b"
  shows "circuit_arith_operation M ArithAdd (IV 384 a) (IV 384 b) (IV 384 m) = Some (IV 384 ((a + b) mod m)) \<and>
    circuit_arith_operation M ArithMul (IV 384 a) (IV 384 b) (IV 384 m) = Some (IV 384 (a * b mod m)) \<and>
    (b \<le> a + m \<or> m dvd 2 ^ 385 \<longleftrightarrow>
      circuit_arith_operation M ArithSub (IV 384 a) (IV 384 b) (IV 384 m) = Some (IV 384 ((a - b) mod m))) \<and>
    (usub (nat a + nat m) (nat b) = None \<longleftrightarrow> a + m < b)"
proof (intro conjI)
  note eval = arith_case_eval [OF assms]
  show "circuit_arith_operation M ArithAdd (IV 384 a) (IV 384 b) (IV 384 m) = Some (IV 384 ((a + b) mod m))"
    "circuit_arith_operation M ArithMul (IV 384 a) (IV 384 b) (IV 384 m) = Some (IV 384 (a * b mod m))"
    using eval(1,2) assms(1) by simp_all
  have r: "0 \<le> a" "a < 2 ^ 384" "0 \<le> b" "b < 2 ^ 384" "0 < m" "m < 2 ^ 384"
    using assms by (simp_all add: fits_unsigned_def)
  show "usub (nat a + nat m) (nat b) = None \<longleftrightarrow> a + m < b"
    using r by (simp add: usub_def nat_add_distrib [symmetric] nat_le_eq_zle)
  have wrap: "bits_of 385 (a + m - b) = (if b \<le> a + m then a + m - b else 2 ^ 385 + (a + m - b))"
  proof (cases "b \<le> a + m")
    case True
    then have "fits_unsigned 385 (a + m - b)" using r by (simp add: fits_unsigned_def)
    then show ?thesis using True bits_fits by simp
  next
    case False
    then have "fits_unsigned 385 (2 ^ 385 + (a + m - b))" using r by (simp add: fits_unsigned_def)
    moreover have "bits_of 385 (a + m - b) = bits_of 385 (2 ^ 385 + (a + m - b))" by (simp only: bits_of_def mod_add_self1)
    ultimately show ?thesis using False bits_fits by simp
  qed
  have low: "(a + m - b) mod m = (a - b) mod m" using mod_add_self2 [of "a - b" m] by (simp add: algebra_simps)
  have "(2 ^ 385 + (a + m - b)) mod m = (a - b) mod m \<longleftrightarrow> m dvd (2 ^ 385 + (a + m - b)) - (a - b)"
    by (rule mod_eq_dvd_iff)
  also have "(2 ^ 385 + (a + m - b)) - (a - b) = 2 ^ 385 + m" by simp
  also have "m dvd 2 ^ 385 + m \<longleftrightarrow> m dvd 2 ^ 385" by (rule dvd_add_left_iff) simp
  finally have high: "(2 ^ 385 + (a + m - b)) mod m = (a - b) mod m \<longleftrightarrow> m dvd 2 ^ 385" .
  show "b \<le> a + m \<or> m dvd 2 ^ 385 \<longleftrightarrow>
      circuit_arith_operation M ArithSub (IV 384 a) (IV 384 b) (IV 384 m) = Some (IV 384 ((a - b) mod m))"
    using eval(3) assms(1) low high by (cases "b \<le> a + m") (simp_all add: wrap del: power_numeral)
qed

lemma circuit_arith_exact_witness:
  "circuit_arith_operation ref_mlir ArithSub (IV 384 5) (IV 384 100) (IV 384 7) \<noteq> Some (IV 384 ((5 - 100) mod 7)) \<and>
    usub (5 + 7) 100 = None"
proof -
  have "\<not> (7 :: int) dvd 2 ^ 385" by (simp add: dvd_eq_mod_eq_0)
  moreover have "fits_unsigned 384 7" "fits_unsigned 384 5" "fits_unsigned 384 100" by (simp_all add: fits_unsigned_def)
  ultimately show ?thesis
    using circuit_arith_exact [OF ref_mlir_ok, of 7 5 100] by (simp del: power_numeral)
qed

section \<open>The order the generator finds\<close>

definition slots_known :: "nat \<Rightarrow> nat set \<Rightarrow> bool list" where
  "slots_known L A = map (\<lambda>i. i \<in> A) [0 ..< L]"

lemma slots_known_simps [simp]:
  "i < L \<Longrightarrow> nth_opt (slots_known L A) i = Some (i \<in> A)"
  "k < L \<Longrightarrow> (slots_known L A)[k := True] = slots_known L (insert k A)"
  by (auto simp: slots_known_def nth_opt_def nth_list_update intro!: nth_equalityI split: if_splits)

fun op_of :: "nat \<Rightarrow> gate \<Rightarrow> gate_op" where
  "op_of i (AddG g) = AddOp g"
| "op_of i (SubG g) = SubOp g"
| "op_of i (MulG g) = MulOp g"
| "op_of i (InvG g) = InvOp i g"

text \<open>The values of the slots as compiled code holds them.\<close>

definition enc :: "slots \<Rightarrow> gate_values_t" where
  "enc outs = map (map_option (\<lambda>v. IV 384 (int v))) outs"

lemma enc_update: "enc (outs[k := Some v]) = (enc outs)[k := Some (IV 384 (int v))]"
  by (simp add: enc_def map_update)

lemma enc_value: "i < length outs \<Longrightarrow> outs ! i = Some v \<Longrightarrow> gate_value (enc outs) i = Some (IV 384 (int v))"
  by (simp add: enc_def gate_value_def nth_opt_def)

text \<open>One addition or subtraction gate, while the code is generated.\<close>

lemma plan_add_step:
  assumes "is_add g" "computes g \<notin> A" "computes g < L" "needs g \<subseteq> {..<L}"
  shows "plan_adds (slots_known L A) (offsets_of g # gs) =
    (if needs g \<subseteq> A
     then do { (ops, known, rest) \<leftarrow> plan_adds (slots_known L (insert (computes g) A)) gs; Some (op_of i g # ops, known, rest) }
     else Some ([], slots_known L A, offsets_of g # gs))"
  using assms by (cases g) auto

text \<open>The same gate when it is computed, in the interpreter and in compiled code.\<close>

lemma run_add_step:
  assumes "mlir_ok M" "filled m L A outs" "0 < m" "m < 2 ^ 384" "needs g \<subseteq> A" "computes g \<notin> A" "computes g < L" "is_add g"
  obtains v where "v < m" "\<And>gs. add_loop m outs (offsets_of g # gs) = add_loop m (outs[computes g := Some v]) gs"
    "\<And>ops. run_gates M (IV 384 (int m)) (op_of i g # ops) (enc outs) =
      run_gates M (IV 384 (int m)) ops (enc (outs[computes g := Some v]))"
proof -
  note f = filledD [OF assms(2)]
  note need = assms(5) and c = assms(6,7)
  have fits: "fits_unsigned 384 (int x)" if "x < m" for x
    using that assms(4) by (simp add: fits_unsigned_def)
  have "int m < 2 ^ 384" using assms(4) by simp
  then have mod: "fits_unsigned 384 (int m)" "0 < int m" using assms(3) by (simp_all add: fits_unsigned_def)
  show thesis
  proof (cases g)
    case (AddG h)
    have lt: "gate_lhs h < L" "gate_rhs h < L" "gate_output h < L" using need c f(4) AddG by auto
    obtain l r where lr: "outs ! gate_lhs h = Some l" "outs ! gate_rhs h = Some r" "l < m" "r < m"
      using need f(6) [of "gate_lhs h"] f(6) [of "gate_rhs h"] AddG by auto
    have arith: "arith_case M ArithAdd (IV 384 (int l)) (IV 384 (int r)) (IV 384 (int m)) = Some (IV 384 (int ((l + r) mod m)))"
      using arith_case_eval(1) [OF assms(1) mod(2,1) fits [OF lr(3)] fits [OF lr(4)]] by (simp add: zmod_int)
    show thesis
      by (rule that [of "(l + r) mod m"])
        (use AddG lt lr f(1) arith assms(1,3) in \<open>simp_all add: nth_opt_slot enc_value enc_update\<close>)
  next
    case (SubG h)
    have lt: "gate_lhs h < L" "gate_rhs h < L" "gate_output h < L" using need c f(4) SubG by auto
    obtain r w where ro: "outs ! gate_rhs h = Some r" "outs ! gate_output h = Some w" "r < m" "w < m"
      using need f(6) [of "gate_rhs h"] f(6) [of "gate_output h"] SubG by auto
    have none: "outs ! gate_lhs h = None" using c f(5) SubG by simp
    have "fits_unsigned 385 (int w + int m - int r)" using fits [OF ro(4)] mod ro(3) by (simp add: fits_unsigned_def)
    then have arith: "arith_case M ArithSub (IV 384 (int w)) (IV 384 (int r)) (IV 384 (int m)) = Some (IV 384 (int ((w + m - r) mod m)))"
      using arith_case_eval(3) [OF assms(1) mod(2,1) fits [OF ro(4)] fits [OF ro(3)]] ro(3)
      by (simp add: zmod_int bits_fits of_nat_diff)
    show thesis
      by (rule that [of "(w + m - r) mod m"])
        (use SubG lt ro none f(1) arith assms(1,3) in \<open>simp_all add: nth_opt_slot enc_value enc_update usub_def\<close>)
  qed (use assms(8) in simp_all)
qed

text \<open>
  All additions that can be computed: the generator, the interpreter and compiled code stop at
  the same gate. What is left of the circuit is still ordered.
\<close>

definition adds_agree :: "mlir \<Rightarrow> nat \<Rightarrow> nat \<Rightarrow> nat set \<Rightarrow> gate list \<Rightarrow> gate_op list \<Rightarrow> nat set \<Rightarrow> gate list \<Rightarrow> bool" where
  "adds_agree M m L A os ops A' os' \<longleftrightarrow>
    plan_adds (slots_known L A) (adds_of os) = Some (ops, slots_known L A', adds_of os') \<and>
    ordered L A' os' \<and> A \<subseteq> A' \<and> A' \<subseteq> {..<L} \<and> muls_of os' = muls_of os \<and>
    A' \<union> computes ` set os' = A \<union> computes ` set os \<and> (\<forall>x xs. os' = x # xs \<longrightarrow> \<not> is_add x) \<and>
    (\<forall>outs. filled m L A outs \<longrightarrow> (\<exists>outs'. add_loop m outs (adds_of os) = Some (outs', adds_of os') \<and>
      filled m L A' outs' \<and>
      (\<forall>ops'. run_gates M (IV 384 (int m)) (ops @ ops') (enc outs) = run_gates M (IV 384 (int m)) ops' (enc outs'))))"

lemma adds_agree_run:
  assumes "adds_agree M m L A os ops A' os'" "filled m L A outs"
  shows "\<exists>outs'. add_loop m outs (adds_of os) = Some (outs', adds_of os') \<and> filled m L A' outs' \<and>
    (\<forall>ops'. run_gates M (IV 384 (int m)) (ops @ ops') (enc outs) = run_gates M (IV 384 (int m)) ops' (enc outs'))"
proof -
  from assms(1) have "filled m L A outs \<longrightarrow> (\<exists>outs'. add_loop m outs (adds_of os) = Some (outs', adds_of os') \<and> filled m L A' outs' \<and>
    (\<forall>ops'. run_gates M (IV 384 (int m)) (ops @ ops') (enc outs) = run_gates M (IV 384 (int m)) ops' (enc outs')))"
    unfolding adds_agree_def by (elim conjE) (erule spec)
  then show ?thesis using assms(2) by (rule mp)
qed

lemma plan_adds_ok:
  assumes "mlir_ok M" "0 < m" "m < 2 ^ 384" "ordered L A os" "A \<subseteq> {..<L}"
  shows "\<exists>ops A' os'. adds_agree M m L A os ops A' os'"
  using assms(4,5)
proof (induction "adds_of os" arbitrary: os A)
  case Nil
  from Nil(1) have "\<not> is_add x" if "x \<in> set os" for x
    using that by (simp add: adds_of_def filter_empty_conv)
  with Nil have "adds_agree M m L A os [] A os" by (auto simp: adds_agree_def)
  then show ?case by blast
next
  case (Cons h hs)
  note o = Cons.prems(1)
  from first_add [OF o Cons.hyps(2) [symmetric]] obtain g where g: "g \<in> set os" "is_add g"
    "offsets_of g = h" "computes g \<notin> A" "computes g < L"
    "ordered L (insert (computes g) A) (drop_add os)" "adds_of (drop_add os) = hs"
    "muls_of (drop_add os) = muls_of os" "set os = insert g (set (drop_add os))"
    and lead: "\<And>x os'. os = x # os' \<Longrightarrow> is_add x \<Longrightarrow> needs g \<subseteq> A" by metis
  have bounds: "needs g \<subseteq> {..<L}" using ordered_bounds [OF o Cons.prems(2) g(1)] by simp
  note plan = plan_add_step [OF g(2,4,5) bounds, of hs 0, unfolded g(3) Cons.hyps(2)]
  show ?case
  proof (cases "needs g \<subseteq> A")
    case True
    have "insert (computes g) A \<subseteq> {..<L}" using Cons.prems(2) g(5) by simp
    from Cons.hyps(1) [OF g(7) [symmetric] g(6) this] obtain ops A' os' where
      IH: "adds_agree M m L (insert (computes g) A) (drop_add os) ops A' os'" by blast
    have "\<exists>outs'. add_loop m outs (adds_of os) = Some (outs', adds_of os') \<and> filled m L A' outs' \<and>
        (\<forall>ops'. run_gates M (IV 384 (int m)) ((op_of 0 g # ops) @ ops') (enc outs) =
          run_gates M (IV 384 (int m)) ops' (enc outs'))" if fill: "filled m L A outs" for outs
    proof -
      obtain v where v: "v < m" "\<And>gs. add_loop m outs (h # gs) = add_loop m (outs[computes g := Some v]) gs"
        "\<And>ops. run_gates M (IV 384 (int m)) (op_of 0 g # ops) (enc outs) =
          run_gates M (IV 384 (int m)) ops (enc (outs[computes g := Some v]))"
        using run_add_step [OF assms(1) fill assms(2,3) True g(4,5,2)] g(3) by metis
      have "filled m L (insert (computes g) A) (outs[computes g := Some v])"
        by (rule filled_insert [OF fill g(5,4) v(1)])
      with IH obtain outs' where "add_loop m (outs[computes g := Some v]) hs = Some (outs', adds_of os')" "filled m L A' outs'"
        "\<forall>ops'. run_gates M (IV 384 (int m)) (ops @ ops') (enc (outs[computes g := Some v])) = run_gates M (IV 384 (int m)) ops' (enc outs')"
        unfolding adds_agree_def g(7) by metis
      then show ?thesis using v(2,3) Cons.hyps(2) by (metis append_Cons)
    qed
    moreover have "plan_adds (slots_known L A) (adds_of os) = Some (op_of 0 g # ops, slots_known L A', adds_of os')"
      using IH True plan unfolding adds_agree_def g(7) by simp
    ultimately have "adds_agree M m L A os (op_of 0 g # ops) A' os'"
      using IH g(8,9) unfolding adds_agree_def by auto
    then show ?thesis by blast
  next
    case False
    have stop: "add_loop m outs (adds_of os) = Some (outs, adds_of os)" if "filled m L A outs" for outs
      using add_loop_step [OF that assms(2) g(2,4,5) bounds, of hs, unfolded g(3) Cons.hyps(2)] False by simp
    have "\<forall>x xs. os = x # xs \<longrightarrow> \<not> is_add x" using lead False by blast
    then have "adds_agree M m L A os [] A os"
      using stop plan False o Cons.prems(2) unfolding adds_agree_def by simp
    then show ?thesis by blast
  qed
qed

section \<open>Multiplication and inversion gates\<close>

lemma run_mul_step:
  assumes "mlir_ok M" "filled m L A outs" "1 < m" "m < 2 ^ 384" "ordered L A (g # rest)" "\<not> is_add g"
    and "modinv_ok E" "gcd_ok E" "i < 2 ^ 64"
  shows "(\<exists>v < m. mul_step E m outs (offsets_of g) = Some (outs[computes g := Some v], True) \<and>
      (\<forall>ops. run_gates M (IV 384 (int m)) (op_of i g # ops) (enc outs) =
        run_gates M (IV 384 (int m)) ops (enc (outs[computes g := Some v])))) \<or>
    (\<exists>outs' r. mul_step E m outs (offsets_of g) = Some (outs', False) \<and> 0 < r \<and> r < m \<and> gcd r m \<noteq> 1 \<and>
      (\<forall>ops. run_gates M (IV 384 (int m)) (op_of i g # ops) (enc outs) =
        Some (GateFailed (IV 64 (int i)) (IV 384 (int (gcd r m)))))) \<or>
    (\<exists>outs' h. g = InvG h \<and> mul_step E m outs (offsets_of g) = Some (outs', False) \<and>
      gate_value (enc outs) (gate_rhs h) = Some (IV 384 0))"
proof -
  note f = filledD [OF assms(2)]
  have need: "needs g \<subseteq> A" and c: "computes g \<notin> A" "computes g < L" using assms(5) by simp_all
  have small: "int m < 2 ^ 384" using assms(4) by simp
  have fits: "fits_unsigned 384 (int x)" if "x \<le> m" for x
    using that small by (simp add: fits_unsigned_def)
  show ?thesis
  proof (cases g)
    case (MulG h)
    have lt: "gate_lhs h < L" "gate_rhs h < L" "gate_output h < L" using need c f(4) MulG by auto
    obtain l r where lr: "outs ! gate_lhs h = Some l" "outs ! gate_rhs h = Some r" "l < m" "r < m"
      using need f(6) [of "gate_lhs h"] f(6) [of "gate_rhs h"] MulG by auto
    have "arith_case M ArithMul (IV 384 (int l)) (IV 384 (int r)) (IV 384 (int m)) = Some (IV 384 (int (l * r mod m)))"
      using arith_case_eval(2) [OF assms(1) _ fits fits fits, of m l r] lr assms(3) by (simp add: zmod_int)
    then show ?thesis using MulG lt lr f(1) assms(1,3)
      by (intro disjI1 exI [of _ "l * r mod m"]) (simp add: mul_step_def nth_opt_slot enc_value enc_update)
  next
    case (InvG h)
    have lt: "gate_lhs h < L" "gate_rhs h < L" using need c f(4) InvG by auto
    obtain r where r: "outs ! gate_rhs h = Some r" "r < m" using need f(6) [of "gate_rhs h"] InvG by auto
    have none: "outs ! gate_lhs h = None" using c f(5) InvG by simp
    have slot: "gate_value (enc outs) (gate_rhs h) = Some (IV 384 (int r))" using r(1) lt f(1) by (simp add: enc_value)
    obtain res where res: "ex_modinv E r m = Some res"
      using assms(3,7) unfolding modinv_ok_def by (meson less_trans zero_less_one)
    note res_case = modinv_case [OF assms(7) _ res]
    have fails: "\<exists>outs'. mul_step E m outs (offsets_of g) = Some (outs', False)" if "res = None"
      using that res r lt none f(1) InvG assms(3,8)
      by (simp add: mul_step_def nth_opt_slot find_nullifier_def gcd_ok_def Let_def)
    show ?thesis
    proof (cases "r = 0")
      case True
      then have "res = None" using res_case assms(3) by (cases res) auto
      with fails InvG slot True show ?thesis by auto
    next
      case False
      define g' where "g' = gcd (int r) (int m)"
      have rm: "0 < int r" "int r < 2 ^ width_bits EW384" "0 < int m" "int m < 2 ^ width_bits EW384"
        using False r(2) small assms(3) by simp_all
      obtain k where k: "extended_euclidean_algorithm M EW384 (IV 384 (int r)) (IV 384 (int m)) = Some (SV [IV 384 g', IV 384 k])"
        "0 \<le> k" "k < int m \<or> int m = 1 \<and> k = 1" "int m dvd k * int r - g'"
        using egcd_function_correct [OF assms(1) rm] unfolding g'_def width_bits.simps by blast
      have lt_k: "k < int m" using k(3) assms(3) by simp
      have "g' \<le> int m" unfolding g'_def using rm(3) by (intro zdvd_imp_le) simp_all
      moreover have "0 \<le> g'" by (simp add: g'_def)
      ultimately have "fits_unsigned 384 g'" using small by (simp add: fits_unsigned_def)
      moreover have one: "fits_unsigned 384 1" using fits [of 1] assms(3) by simp
      ultimately have cmp: "cmpi M CmpEq (IV 384 g') (IV 384 1) = Some (bit_val (g' = 1))"
        using assms(1) by (simp add: emitted)
      have ks: "const_int M 1 384 = Some (IV 384 1)" using assms(1) one by (simp add: emitted bits_fits)
      have "fits_unsigned 64 (int i)" using assms(9) by (simp add: fits_unsigned_def)
      then have idx: "const_int M (int i) 64 = Some (IV 64 (int i))" using assms(1) by (simp add: emitted bits_fits)
      have code: "run_gates M (IV 384 (int m)) (op_of i g # ops) (enc outs) =
          (if g' = 1 then run_gates M (IV 384 (int m)) ops ((enc outs)[gate_lhs h := Some (IV 384 k)])
           else Some (GateFailed (IV 64 (int i)) (IV 384 g')))" for ops
        using InvG slot k(1) ks idx cmp by (simp add: extract_emitted pick_emitted)
      note inv = egcd_modinv [OF assms(7) _ res k(2,3) k(4) [unfolded g'_def], folded g'_def]
      have mod: "k mod int m = k" using k(2) lt_k by simp
      show ?thesis
      proof (cases "g' = 1")
        case True
        have "k \<noteq> 0" using k(4) True assms(3) by auto
        then have "res = Some (nat k)" using inv True mod assms(3) by simp
        then have "mul_step E m outs (offsets_of g) = Some (outs[computes g := Some (nat k)], True)"
          using res r lt none f(1) InvG by (simp add: mul_step_def nth_opt_slot)
        moreover have "nat k < m" using lt_k k(2) by simp
        moreover have "run_gates M (IV 384 (int m)) (op_of i g # ops) (enc outs) =
            run_gates M (IV 384 (int m)) ops (enc (outs[computes g := Some (nat k)]))" for ops
          using code True InvG k(2) by (simp add: enc_update)
        ultimately show ?thesis by blast
      next
        case False
        have "res = None"
        proof -
          have "res = None \<or> res = Some 0" using inv False assms(3) by simp
          then show ?thesis using res_case assms(3) by auto
        qed
        moreover have "g' = int (gcd r m)" by (simp add: g'_def)
        ultimately show ?thesis using fails code False \<open>r \<noteq> 0\<close> r(2) by (auto simp del: op_of.simps)
      qed
    qed
  qed (use assms(6) in simp_all)
qed

section \<open>The whole evaluation\<close>

definition same_run :: "nat \<Rightarrow> nat \<Rightarrow> nat set \<Rightarrow> (slots \<times> bool) option \<Rightarrow> evaluation option \<Rightarrow> bool" where
  "same_run m L A interp code \<longleftrightarrow>
    (\<exists>outs'. interp = Some (outs', True) \<and> code = Some (GatesDone (enc outs')) \<and> filled m L A outs') \<or>
    (\<exists>outs' i r. interp = Some (outs', False) \<and> 0 < r \<and> r < m \<and> gcd r m \<noteq> 1 \<and> i < 2 ^ 64 \<and>
      code = Some (GateFailed (IV 64 (int i)) (IV 384 (int (gcd r m)))))"

text \<open>Compiled code comes to an inversion of zero: it divides by zero there.\<close>

definition inverts_zero :: "mlir \<Rightarrow> ir_val \<Rightarrow> gate_op list \<Rightarrow> gate_values_t \<Rightarrow> bool" where
  "inverts_zero M modulus ops gates \<longleftrightarrow>
    (\<exists>before i h after gates'. ops = before @ InvOp i h # after \<and>
      run_gates M modulus ops gates = run_gates M modulus (InvOp i h # after) gates' \<and>
      gate_value gates' (gate_rhs h) = Some (IV 384 0))"

lemma inverts_zero_prefix:
  "run_gates M modulus (ops @ ops') gates = run_gates M modulus ops' gates' \<Longrightarrow>
    inverts_zero M modulus ops' gates' \<Longrightarrow> inverts_zero M modulus (ops @ ops') gates"
  unfolding inverts_zero_def by (metis append_assoc)

definition gates_agree :: "mlir \<Rightarrow> externs \<Rightarrow> nat \<Rightarrow> nat \<Rightarrow> nat set \<Rightarrow> nat \<Rightarrow> gate list \<Rightarrow> gate_op list \<Rightarrow> bool" where
  "gates_agree M E m L A i os ops \<longleftrightarrow>
    plan_gates (slots_known L A) (adds_of os) (enumerate i (muls_of os)) =
      Some (ops, slots_known L (A \<union> computes ` set os)) \<and>
    (\<forall>outs. filled m L A outs \<longrightarrow>
      same_run m L (A \<union> computes ` set os) (gate_loop E m outs (adds_of os) (muls_of os))
        (run_gates M (IV 384 (int m)) ops (enc outs)) \<or>
      inverts_zero M (IV 384 (int m)) ops (enc outs) \<and>
        (\<exists>outs'. gate_loop E m outs (adds_of os) (muls_of os) = Some (outs', False)))"

lemma plan_gates_ok:
  assumes "mlir_ok M" "1 < m" "m < 2 ^ 384" "modinv_ok E" "gcd_ok E"
    and "ordered L A os" "A \<subseteq> {..<L}" "0 \<in> A" "i + length (muls_of os) \<le> 2 ^ 64"
  shows "\<exists>ops. gates_agree M E m L A i os ops"
  using assms(6-9)
proof (induction "muls_of os" arbitrary: os A i)
  case Nil
  obtain ops A' os' where a: "adds_agree M m L A os ops A' os'"
    using plan_adds_ok [OF assms(1) _ assms(3) Nil(2,3)] assms(2) by force
  have "os' = []"
  proof (cases os')
    case (Cons x xs)
    with a have "muls_of os' \<noteq> []" by (auto simp: adds_agree_def)
    with a Nil(1) show ?thesis by (simp add: adds_agree_def)
  qed simp
  with a have A': "A' = A \<union> computes ` set os"
    and plan: "plan_adds (slots_known L A) (adds_of os) = Some (ops, slots_known L A', [])"
    by (simp_all add: adds_agree_def)
  have run: "\<And>outs. filled m L A outs \<Longrightarrow> \<exists>outs'. add_loop m outs (adds_of os) = Some (outs', []) \<and> filled m L A' outs' \<and>
      (\<forall>ops'. run_gates M (IV 384 (int m)) (ops @ ops') (enc outs) = run_gates M (IV 384 (int m)) ops' (enc outs'))"
    using adds_agree_run [OF a] \<open>os' = []\<close> by simp
  have "same_run m L A' (gate_loop E m outs (adds_of os) []) (run_gates M (IV 384 (int m)) ops (enc outs))"
    if fill: "filled m L A outs" for outs
  proof -
    obtain outs' where o: "add_loop m outs (adds_of os) = Some (outs', [])" "filled m L A' outs'"
      "run_gates M (IV 384 (int m)) (ops @ []) (enc outs) = run_gates M (IV 384 (int m)) [] (enc outs')"
      using run [OF fill] by blast
    then show ?thesis by (simp add: same_run_def)
  qed
  then have "gates_agree M E m L A i os ops" using plan A' Nil(1) [symmetric] by (simp add: gates_agree_def)
  then show ?case by blast
next
  case (Cons h hs)
  obtain ops A' os' where a: "adds_agree M m L A os ops A' os'"
    using plan_adds_ok [OF assms(1) _ assms(3) Cons.prems(1,2)] assms(2) by force
  obtain g rest where os': "os' = g # rest" "\<not> is_add g" "offsets_of g = h" "muls_of rest = hs"
  proof (cases os')
    case Nil
    with a Cons.hyps(2) show ?thesis by (simp add: adds_agree_def)
  next
    case (Cons g rest)
    have "muls_of os' = muls_of os" using a unfolding adds_agree_def by (elim conjE)
    moreover have "\<forall>x xs. os' = x # xs \<longrightarrow> \<not> is_add x" using a unfolding adds_agree_def by (elim conjE)
    ultimately have "\<not> is_add g" "muls_of (g # rest) = h # hs" using Cons \<open>h # hs = muls_of os\<close> by simp_all
    then show ?thesis using that Cons by simp
  qed
  have o: "ordered L A' (g # rest)" and sub: "A' \<subseteq> {..<L}" "0 \<in> A'" and adds_os': "adds_of os' = adds_of rest"
    using a os'(1,2) Cons.prems(3) by (auto simp: adds_agree_def)
  have need: "needs g \<subseteq> A'" and c: "computes g \<notin> A'" "computes g < L"
    and o': "ordered L (insert (computes g) A') rest" using o by simp_all
  have len: "i < 2 ^ 64" "Suc i + length (muls_of rest) \<le> 2 ^ 64" using Cons.prems(4) Cons.hyps(2) [symmetric] os'(4) by simp_all
  have "insert (computes g) A' \<subseteq> {..<L}" using sub(1) c(2) by simp
  from Cons.hyps(1) [OF os'(4) [symmetric] o' this _ len(2)] sub(2) obtain ops' where
    IH: "gates_agree M E m L (insert (computes g) A') (Suc i) rest ops'" by blast
  have all: "insert (computes g) A' \<union> computes ` set rest = A \<union> computes ` set os"
    using a os'(1) by (auto simp: adds_agree_def)
  have plan_adds: "plan_adds (slots_known L A) (adds_of os) = Some (ops, slots_known L A', adds_of rest)"
    using a adds_os' unfolding adds_agree_def by simp
  have plan_rest: "plan_gates (slots_known L (insert (computes g) A')) (adds_of rest) (enumerate (Suc i) hs) =
      Some (ops', slots_known L (A \<union> computes ` set os))"
    using IH unfolding gates_agree_def all os'(4) by simp
  have lt: "x < L" if "x \<in> A'" for x using sub(1) that by auto
  have plan: "plan_gates (slots_known L A) (adds_of os) (enumerate i (h # hs)) =
      Some (ops @ op_of i g # ops', slots_known L (A \<union> computes ` set os))"
  proof (cases g)
    case (MulG h')
    then show ?thesis using plan_adds plan_rest need c lt os'(3) by auto
  next
    case (InvG h')
    moreover have "gate_output h' = 0" using o InvG by simp
    ultimately show ?thesis using plan_adds plan_rest need c lt os'(3) sub(2) by auto
  qed (use os'(2) in simp_all)
  have "same_run m L (A \<union> computes ` set os) (gate_loop E m outs (adds_of os) (h # hs))
        (run_gates M (IV 384 (int m)) (ops @ op_of i g # ops') (enc outs)) \<or>
      inverts_zero M (IV 384 (int m)) (ops @ op_of i g # ops') (enc outs) \<and>
        (\<exists>outs'. gate_loop E m outs (adds_of os) (h # hs) = Some (outs', False))"
    if fill: "filled m L A outs" for outs
  proof -
    obtain outs1 where add: "add_loop m outs (adds_of os) = Some (outs1, adds_of rest)" "filled m L A' outs1"
      and run: "\<And>ops'. run_gates M (IV 384 (int m)) (ops @ ops') (enc outs) = run_gates M (IV 384 (int m)) ops' (enc outs1)"
      using adds_agree_run [OF a fill] unfolding adds_os' by blast
    from run_mul_step [OF assms(1) add(2) assms(2,3) o os'(2) assms(4,5) len(1), unfolded os'(3)]
    consider (go) v where "v < m" "mul_step E m outs1 h = Some (outs1[computes g := Some v], True)"
        "\<And>ops. run_gates M (IV 384 (int m)) (op_of i g # ops) (enc outs1) =
          run_gates M (IV 384 (int m)) ops (enc (outs1[computes g := Some v]))"
      | (stop) outs' r where "mul_step E m outs1 h = Some (outs', False)" "0 < r" "r < m" "gcd r m \<noteq> 1"
        "\<And>ops. run_gates M (IV 384 (int m)) (op_of i g # ops) (enc outs1) =
          Some (GateFailed (IV 64 (int i)) (IV 384 (int (gcd r m))))"
      | (zero) outs' h' where "g = InvG h'" "mul_step E m outs1 h = Some (outs', False)"
        "gate_value (enc outs1) (gate_rhs h') = Some (IV 384 0)" by metis
    then show ?thesis
    proof cases
      case go
      have "filled m L (insert (computes g) A') (outs1[computes g := Some v])"
        by (rule filled_insert [OF add(2) c(2,1) go(1)])
      with IH have IH': "same_run m L (A \<union> computes ` set os) (gate_loop E m (outs1[computes g := Some v]) (adds_of rest) hs)
          (run_gates M (IV 384 (int m)) ops' (enc (outs1[computes g := Some v]))) \<or>
        inverts_zero M (IV 384 (int m)) ops' (enc (outs1[computes g := Some v])) \<and>
          (\<exists>outs'. gate_loop E m (outs1[computes g := Some v]) (adds_of rest) hs = Some (outs', False))"
        unfolding gates_agree_def all os'(4) by blast
      have code: "run_gates M (IV 384 (int m)) ((ops @ [op_of i g]) @ ops') (enc outs) =
          run_gates M (IV 384 (int m)) ops' (enc (outs1[computes g := Some v]))"
        using run [of "op_of i g # ops'"] go(3) by simp
      have interp: "gate_loop E m outs (adds_of os) (h # hs) = gate_loop E m (outs1[computes g := Some v]) (adds_of rest) hs"
        using add(1) go(2) by simp
      show ?thesis using IH' inverts_zero_prefix [OF code] code unfolding interp by auto
    next
      case stop
      have "run_gates M (IV 384 (int m)) (ops @ op_of i g # ops') (enc outs) =
          Some (GateFailed (IV 64 (int i)) (IV 384 (int (gcd r m))))" using run stop(5) by simp
      moreover have "gate_loop E m outs (adds_of os) (h # hs) = Some (outs', False)" using add(1) stop(1) by simp
      ultimately show ?thesis using stop(2-4) len(1) unfolding same_run_def by blast
    next
      case zero
      have "gate_loop E m outs (adds_of os) (h # hs) = Some (outs', False)" using add(1) zero(2) by simp
      moreover have "inverts_zero M (IV 384 (int m)) (ops @ op_of i g # ops') (enc outs)"
        unfolding inverts_zero_def using run [of "op_of i g # ops'"] zero(1,3) by (metis op_of.simps(4))
      ultimately show ?thesis by blast
    qed
  qed
  then have "gates_agree M E m L A i os (ops @ op_of i g # ops')"
    using plan Cons.hyps(2) [symmetric] unfolding gates_agree_def by simp
  then show ?case by blast
qed

section \<open>Limbs\<close>

lemma u96_const:
  assumes "mlir_ok M" "i < 4"
  shows "const_int M (96 * int i) 384 = Some (IV 384 (96 * int i))" "fits_unsigned 384 (96 * int i)"
proof -
  show "fits_unsigned 384 (96 * int i)" using assms(2) by (simp add: fits_unsigned_def)
  then show "const_int M (96 * int i) 384 = Some (IV 384 (96 * int i))"
    using assms(1) by (simp add: emitted bits_fits)
qed

lemma cut_limb_eval:
  assumes "mlir_ok M" "fits_unsigned 384 x" "i < 4"
  shows "cut_limb M (IV 384 x) i = Some (IV 96 (x div 2 ^ (96 * i) mod 2 ^ 96))"
proof -
  have k: "nat (96 * int i) = 96 * i" by simp
  have "x div 2 ^ (96 * i) \<le> x" using zdiv_mono2 [of x 1 "2 ^ (96 * i)"] assms(2) by (simp add: fits_unsigned_def)
  then have "fits_unsigned 384 (x div 2 ^ (96 * i))"
    using assms(2) by (simp add: fits_unsigned_def pos_imp_zdiv_nonneg_iff)
  then show ?thesis
    using assms u96_const [OF assms(1,3)] unfolding cut_limb_def
    by (simp add: emitted k bits_of_def)
qed

lemma u384_integer_to_struct_eval:
  assumes "mlir_ok M" "n < 2 ^ 384"
  shows "u384_integer_to_struct M (IV 384 (int n)) = Some (u384_ir n)"
proof -
  have "int n < 2 ^ 384" using assms(2) by simp
  then have fits: "fits_unsigned 384 (int n)" by (simp add: fits_unsigned_def)
  have "convert (ml_trunci M) (IV 384 (int n)) (IntTy 96) = Some (IV 96 (int n mod 2 ^ 96))"
    using assms(1) fits by (simp add: emitted bits_of_def)
  then show ?thesis
    using cut_limb_eval [OF assms(1) fits, of 1] cut_limb_eval [OF assms(1) fits, of 2] cut_limb_eval [OF assms(1) fits, of 3]
    by (simp add: u384_integer_to_struct_def insert_values_def build_u384_struct_type_def emitted u384_ir_def)
qed

lemma shifted_limb_eval:
  assumes "mlir_ok M" "i < 4" "nth_opt xs i = Some (IV 96 b)" "fits_unsigned 96 b"
  shows "shifted_limb M (SV xs) i = Some (IV 384 (b * 2 ^ (96 * i)))" "fits_unsigned 384 (b * 2 ^ (96 * i))"
proof -
  have "96 * i + 96 \<le> 384" using assms(2) by simp
  note shift = shift_limb [OF assms(1,4) this zero_less_numeral]
  show "shifted_limb M (SV xs) i = Some (IV 384 (b * 2 ^ (96 * i)))"
    using assms(1,3,4) shift(1) u96_const [OF assms(1,2)] by (simp add: shifted_limb_def emitted nth_opt_def split: if_splits)
  show "fits_unsigned 384 (b * 2 ^ (96 * i))" by (rule shift(2))
qed

lemma or_above:
  fixes lo hi :: int
  assumes "mlir_ok M" "0 \<le> lo" "lo < 2 ^ n" "fits_unsigned 384 lo" "fits_unsigned 384 (hi * 2 ^ n)"
  shows "binary M Ori (IV 384 lo) (IV 384 (hi * 2 ^ n)) = Some (IV 384 (lo + hi * 2 ^ n))"
  using assms or_add(2) [OF assms(2,3)] by (simp add: emitted)

lemma u384_struct_to_integer_eval:
  assumes "mlir_ok M" "fits_unsigned 96 a" "fits_unsigned 96 b" "fits_unsigned 96 c" "fits_unsigned 96 d"
  shows "u384_struct_to_integer M (SV [IV 96 a, IV 96 b, IV 96 c, IV 96 d]) =
      Some (IV 384 (a + b * 2 ^ 96 + c * 2 ^ 192 + d * 2 ^ 288))"
    "fits_unsigned 384 (a + b * 2 ^ 96 + c * 2 ^ 192 + d * 2 ^ 288)"
proof -
  have l: "0 \<le> a" "a < 2 ^ 96" "0 \<le> b" "b < 2 ^ 96" "0 \<le> c" "c < 2 ^ 96" "0 \<le> d" "d < 2 ^ 96"
    using assms by (simp_all add: fits_unsigned_def)
  have shifts: "shifted_limb M (SV [IV 96 a, IV 96 b, IV 96 c, IV 96 d]) 1 = Some (IV 384 (b * 2 ^ 96))"
    "shifted_limb M (SV [IV 96 a, IV 96 b, IV 96 c, IV 96 d]) 2 = Some (IV 384 (c * 2 ^ 192))"
    "shifted_limb M (SV [IV 96 a, IV 96 b, IV 96 c, IV 96 d]) 3 = Some (IV 384 (d * 2 ^ 288))"
    using shifted_limb_eval(1) [OF assms(1) _ _ assms(3), of 1] shifted_limb_eval(1) [OF assms(1) _ _ assms(4), of 2]
      shifted_limb_eval(1) [OF assms(1) _ _ assms(5), of 3] by simp_all
  have fits: "fits_unsigned 384 a" "fits_unsigned 384 (b * 2 ^ 96)" "fits_unsigned 384 (c * 2 ^ 192)"
    "fits_unsigned 384 (d * 2 ^ 288)" "fits_unsigned 384 (a + b * 2 ^ 96)" "fits_unsigned 384 (a + b * 2 ^ 96 + c * 2 ^ 192)"
    using l by (simp_all add: fits_unsigned_def)
  have low: "0 \<le> a + b * 2 ^ 96" "a + b * 2 ^ 96 < 2 ^ 192" "0 \<le> a + b * 2 ^ 96 + c * 2 ^ 192"
    "a + b * 2 ^ 96 + c * 2 ^ 192 < 2 ^ 288" using l by simp_all
  have ors: "binary M Ori (IV 384 a) (IV 384 (b * 2 ^ 96)) = Some (IV 384 (a + b * 2 ^ 96))"
    "binary M Ori (IV 384 (a + b * 2 ^ 96)) (IV 384 (c * 2 ^ 192)) = Some (IV 384 (a + b * 2 ^ 96 + c * 2 ^ 192))"
    "binary M Ori (IV 384 (a + b * 2 ^ 96 + c * 2 ^ 192)) (IV 384 (d * 2 ^ 288)) =
      Some (IV 384 (a + b * 2 ^ 96 + c * 2 ^ 192 + d * 2 ^ 288))"
    by (rule or_above [OF assms(1) l(1,2) fits(1,2)] or_above [OF assms(1) low(1,2) fits(5,3)]
      or_above [OF assms(1) low(3,4) fits(6,4)])+
  have "convert (ml_extui M) (IV 96 a) (IntTy 384) = Some (IV 384 a)" using assms(1,2) by (simp add: emitted)
  then show "u384_struct_to_integer M (SV [IV 96 a, IV 96 b, IV 96 c, IV 96 d]) =
      Some (IV 384 (a + b * 2 ^ 96 + c * 2 ^ 192 + d * 2 ^ 288))"
    using shifts ors by (simp add: u384_struct_to_integer_def extract_emitted del: power_numeral)
  show "fits_unsigned 384 (a + b * 2 ^ 96 + c * 2 ^ 192 + d * 2 ^ 288)" using l by (simp add: fits_unsigned_def)
qed

lemma struct_value2:
  assumes "get_type R t = Some (CircuitT ct)" "0 < rec_limit R" "build_circuit_type ct = Some (StructTy [a, b])"
  shows "build_struct_value R t [x, y] = Some (SV [x, y])"
proof -
  obtain n where "rec_limit R = Suc n" using assms(2) gr0_implies_Suc by blast
  then have "build_type R t = Some (StructTy [a, b])" using assms(1,3) by (simp add: build_type_def build_def)
  then show ?thesis using assms(1) by (simp add: build_struct_value_def numeral_eq_Suc emitted)
qed

section \<open>The evaluation\<close>

lemma load_inputs_array: "k \<le> length ns \<Longrightarrow> load_inputs (SV (u384_array ns)) k = Some (u384_array (take k ns))"
proof (induction k)
  case (Suc k)
  then have "nth_opt (u384_array ns) k = Some (IV 384 (int (ns ! k)))" by (simp add: u384_array_def)
  moreover have "u384_array (take (Suc k) ns) = u384_array (take k ns) @ [IV 384 (int (ns ! k))]"
    using Suc.prems by (simp add: u384_array_def take_Suc_conv_app_nth)
  ultimately show ?case using Suc by (simp add: extract_emitted nth_opt_def split: if_splits)
qed (simp add: u384_array_def)

lemma enc_first_slots:
  "Some (IV 384 1) # map Some (u384_array xs) @ replicate k None = enc (first_slots xs k)"
  by (simp add: enc_def first_slots_def u384_array_def)

lemma first_known:
  "map (\<lambda>g. g \<noteq> None) (enc (first_slots xs k)) = slots_known (1 + length xs + k) {..length xs}"
proof -
  have "map (\<lambda>g. g \<noteq> None) (enc (first_slots xs k)) = replicate (Suc (length xs)) True @ replicate k False"
    by (simp add: enc_def first_slots_def comp_def map_replicate_const)
  also have "\<dots> = slots_known (1 + length xs + k) {..length xs}"
    by (rule nth_equalityI) (auto simp: slots_known_def nth_append simp del: replicate_Suc upt_Suc)
  finally show ?thesis .
qed

text \<open>The planned computation of a circuit comes to an inversion of zero.\<close>

definition divides_by_zero :: "mlir \<Rightarrow> circuit_info \<Rightarrow> nat list \<Rightarrow> nat \<Rightarrow> bool" where
  "divides_by_zero M info xs m \<longleftrightarrow>
    (\<exists>ops known. plan_gates (map (\<lambda>g. g \<noteq> None) (enc (first_slots xs (fcard (fmdom (gate_values info))))))
        (add_offsets info) (enumerate 0 (mul_offsets info)) = Some (ops, known) \<and>
      inverts_zero M (IV 384 (int m)) ops (enc (first_slots xs (fcard (fmdom (gate_values info))))))"

text \<open>What a circuit has to be so that its evaluation is planned and typed.\<close>

definition circuit_ok :: "circuit_info \<Rightarrow> gate list \<Rightarrow> bool" where
  "circuit_ok info os \<longleftrightarrow>
    add_offsets info = adds_of os \<and> mul_offsets info = muls_of os \<and>
    ordered (1 + n_inputs info + fcard (fmdom (gate_values info))) {..n_inputs info} os \<and>
    {n_inputs info <..< 1 + n_inputs info + fcard (fmdom (gate_values info))} \<subseteq> computes ` set os \<and>
    7 * length (adds_of os) < 2 ^ 64 \<and> 7 * length (muls_of os) < 2 ^ 64"

definition eval_branches :: "registry \<Rightarrow> signature \<Rightarrow> bool" where
  "eval_branches R sg \<longleftrightarrow> 0 < rec_limit R \<and>
    (\<exists>t. branch_ty sg 0 2 = Some t \<and> get_type R t = Some (CircuitT CircuitOutputsCT)) \<and>
    (\<exists>t. branch_ty sg 1 2 = Some t \<and> get_type R t = Some (CircuitT CircuitPartialOutputsCT)) \<and>
    (\<exists>t. branch_ty sg 1 3 = Some t \<and> get_type R t = Some (CircuitT CircuitFailureGuaranteeCT))"

lemma gate_evaluation_agrees:
  assumes "mlir_ok M" "1 < m" "m < 2 ^ 384" "modinv_ok E" "gcd_ok E"
    and "length xs = n_inputs info" "\<forall>x \<in> set xs. x < m" "circuit_ok info os"
  shows "same_run m (1 + length xs + fcard (fmdom (gate_values info))) {..<1 + length xs + fcard (fmdom (gate_values info))}
      (gate_loop E m (first_slots xs (fcard (fmdom (gate_values info)))) (add_offsets info) (mul_offsets info))
      (build_gate_evaluation M info (SV (u384_array xs)) (IV 384 (int m))) \<or>
    divides_by_zero M info xs m \<and>
      (\<exists>outs'. gate_loop E m (first_slots xs (fcard (fmdom (gate_values info)))) (add_offsets info) (mul_offsets info) = Some (outs', False))"
proof -
  define k L outs where "k = fcard (fmdom (gate_values info))" and "L = 1 + length xs + k" and "outs = first_slots xs k"
  have ok: "add_offsets info = adds_of os" "mul_offsets info = muls_of os" "ordered L {..length xs} os"
    "{length xs <..< L} \<subseteq> computes ` set os" "7 * length (muls_of os) < 2 ^ 64"
    using assms(8) by (simp_all only: circuit_ok_def k_def L_def assms(6))
  have fill: "filled m L {..length xs} outs" unfolding L_def outs_def by (rule first_slots_filled [OF assms(2,7)])
  then have sub: "{..length xs} \<subseteq> {..<L}" by (simp add: filled_def)
  obtain ops where ops: "gates_agree M E m L {..length xs} 0 os ops"
    using plan_gates_ok [OF assms(1-5) ok(3) sub, of 0] ok(5) by auto
  have "computes g < L" if "g \<in> set os" for g using ordered_bounds [OF ok(3) sub that] by simp
  then have "computes ` set os \<subseteq> {..<L}" by auto
  moreover have "{..<L} \<subseteq> {..length xs} \<union> {length xs <..< L}" by auto
  ultimately have all: "{..length xs} \<union> computes ` set os = {..<L}" using ok(4) sub by blast
  have plan: "plan_gates (slots_known L {..length xs}) (adds_of os) (enumerate 0 (muls_of os)) = Some (ops, slots_known L {..<L})"
    and run: "same_run m L {..<L} (gate_loop E m outs (adds_of os) (muls_of os)) (run_gates M (IV 384 (int m)) ops (enc outs)) \<or>
      inverts_zero M (IV 384 (int m)) ops (enc outs) \<and> (\<exists>outs'. gate_loop E m outs (adds_of os) (muls_of os) = Some (outs', False))"
    using ops fill unfolding gates_agree_def all by blast+
  have one: "const_int M 1 384 = Some (IV 384 1)" using assms(1) by (simp add: emitted bits_fits fits_unsigned_def)
  have known: "map (\<lambda>g. g \<noteq> None) (enc outs) = slots_known L {..length xs}"
    unfolding outs_def L_def by (rule first_known)
  have "\<forall>b \<in> set (drop (1 + n_inputs info) (slots_known L {..<L})). b"
    by (auto simp: slots_known_def drop_map dest!: in_set_dropD)
  then have checked: "(\<forall>b \<in> set (drop (1 + n_inputs info) (slots_known L {..<L})). b) = True" by (rule eqTrueI)
  have "build_gate_evaluation M info (SV (u384_array xs)) (IV 384 (int m)) =
      (let gates = Some (IV 384 1) # map Some (u384_array xs) @ replicate k None in
       do {
         (ops, known) \<leftarrow> plan_gates (map (\<lambda>g. g \<noteq> None) gates) (adds_of os) (enumerate 0 (muls_of os));
         assert_that (\<forall>b \<in> set (drop (1 + n_inputs info) known). b);
         run_gates M (IV 384 (int m)) ops gates })"
    using one load_inputs_array [of "length xs" xs] assms(6)
    by (simp add: build_gate_evaluation_def ok(1,2) k_def)
  then have "build_gate_evaluation M info (SV (u384_array xs)) (IV 384 (int m)) = run_gates M (IV 384 (int m)) ops (enc outs)"
    unfolding Let_def enc_first_slots outs_def [symmetric] known plan Option.bind.bind_lunit prod.case checked by simp
  then show ?thesis
    using run plan unfolding divides_by_zero_def k_def [symmetric] outs_def [symmetric] L_def [symmetric] known ok(1,2)
    by (simp only:) blast
qed

lemma outputs_array: "those (map (map_option (\<lambda>v. IV 384 (int v))) (map Some ys)) = Some (u384_array ys)"
  by (induction ys) (simp_all add: u384_array_def)


definition circuit_registry :: registry where
  "circuit_registry =
    \<lparr>get_type = nth_opt (map CircuitT [CircuitCT sample_circuit, CircuitOutputsCT, CircuitPartialOutputsCT, CircuitFailureGuaranteeCT]),
     get_libfunc = (\<lambda>_. None), get_function = (\<lambda>_. None), rec_limit = 1\<rparr>"


section \<open>The other libfuncs\<close>

lemma u384_represents: "represents (u384_to_struct n) (u384_ir n)"
proof -
  have "(2 :: int) ^ 96 - 1 < 2 ^ big_bits (2 ^ 96 - 1)" by (rule big_bits_less) simp
  moreover have "(2 :: int) ^ big_bits (2 ^ 96 - 1) \<le> 2 ^ 95" if "big_bits (2 ^ 96 - 1) \<le> 95"
    using that by (intro power_increasing) simp_all
  moreover have "big_bits (2 ^ 96 - 1) \<le> 96" by (rule big_bits_le) simp
  ultimately have "big_bits (2 ^ 96 - 1) = 96" by fastforce
  then have width: "repr_bit_width u96_range = 96" by (simp add: repr_bit_width_def range_size_def u96_range_def)
  have lower: "rng_lower u96_range = 0" by (simp add: u96_range_def)
  have four: "(4 :: nat) = Suc (Suc (Suc (Suc 0)))" by simp
  have "limbs96 4 n = [n mod 2 ^ 96, n div 2 ^ 96 mod 2 ^ 96, n div 2 ^ 192 mod 2 ^ 96, n div 2 ^ 288 mod 2 ^ 96]"
    unfolding four limbs96.simps div_div_96 by (rule refl)
  moreover have "u384_ir n = SV (map (\<lambda>l. IV 96 (int l)) [n mod 2 ^ 96, n div 2 ^ 96 mod 2 ^ 96, n div 2 ^ 192 mod 2 ^ 96, n div 2 ^ 288 mod 2 ^ 96])"
    by (simp add: u384_ir_def zdiv_int zmod_int)
  ultimately show ?thesis
    unfolding u384_to_struct_limbs by (simp add: width lower)
qed

lemma join_digits:
  fixes n p :: int
  assumes "a + n1 * p = n" "b + n2 * p = n1" "c + d * p = n2" "q = p * p" "r = q * p"
  shows "a + b * p + c * q + d * r = n"
  unfolding assms(5,4) by (simp add: assms(1-3) [symmetric] algebra_simps)

lemma u384_ir_integer:
  assumes "mlir_ok M" "n < 2 ^ 384"
  shows "u384_struct_to_integer M (u384_ir n) = Some (IV 384 (int n))"
proof -
  have limb: "fits_unsigned 96 (i mod 2 ^ 96)" for i :: int by (simp add: fits_unsigned_def)
  have "int n div 2 ^ 288 < 2 ^ 96" using assms(2) by (simp add: div_less_iff_less_mult)
  then have d: "int n div 2 ^ 288 mod 2 ^ 96 = int n div 2 ^ 288" by (simp add: pos_imp_zdiv_nonneg_iff)
  have divs: "int n div 2 ^ 96 div 2 ^ 96 = int n div 2 ^ 192" "int n div 2 ^ 192 div 2 ^ 96 = int n div 2 ^ 288"
    by (simp_all flip: zdiv_zmult2_eq)
  have powers: "(2 :: int) ^ 192 = 2 ^ 96 * 2 ^ 96" "(2 :: int) ^ 288 = 2 ^ 192 * 2 ^ 96" by simp_all
  have sum: "int n mod 2 ^ 96 + int n div 2 ^ 96 mod 2 ^ 96 * 2 ^ 96 + int n div 2 ^ 192 mod 2 ^ 96 * 2 ^ 192 +
      int n div 2 ^ 288 mod 2 ^ 96 * 2 ^ 288 = int n"
    unfolding d
    by (rule join_digits [OF mod_div_mult_eq [of "int n" "2 ^ 96"]
      mod_div_mult_eq [of "int n div 2 ^ 96" "2 ^ 96", unfolded divs]
      mod_div_mult_eq [of "int n div 2 ^ 192" "2 ^ 96", unfolded divs] powers])
  show ?thesis
    unfolding u384_ir_def u384_struct_to_integer_eval(1) [OF assms(1) limb limb limb limb] sum by (rule refl)
qed

lemma init_agrees:
  assumes "mlir_ok M" "get_type R ct = Some (CircuitT (CircuitCT info))" "0 < rec_limit R"
    and "branch_ty sg 0 1 = Some t" "get_type R t = Some (CircuitT CircuitInputAccumulatorCT)"
    and "fits_unsigned 64 i" "fits_unsigned 64 (cc_rc96_usage K info)"
  shows "agrees (eval_init_circuit_data R ct [Unit]) (build_init_circuit_data M K R sg ct [IV 64 i])"
proof -
  have "build_struct_value R t [a, b] = Some (SV [a, b])" for a b
    by (rule struct_value2 [OF assms(5,3)]) (simp add: build_circuit_type_def)
  moreover have "represents (Circuit []) (SV [IV 64 0, SV ys])" for ys
    using rep_accumulator [of "[]" ys] by (simp add: u384_array_def)
  ultimately show ?thesis using assms
    by (simp add: eval_init_circuit_data_def build_init_circuit_data_def emitted const_zero)
qed

lemma add_input_agrees:
  assumes "mlir_ok M" "get_type R ct = Some (CircuitT (CircuitCT info))" "n_inputs info < 2 ^ 64"
    and "length ns < n_inputs info" "length ys = n_inputs info" "take (length ns) ys = u384_array ns"
    and "fits_unsigned 96 (uint a)" "fits_unsigned 96 (uint b)" "fits_unsigned 96 (uint c)" "fits_unsigned 96 (uint d)"
  shows "agrees (eval_add_input R ct [Circuit ns, Struct [U128 a, U128 b, U128 c, U128 d]])
    (build_add_input M R ct [SV [IV 64 (int (length ns)), SV ys],
      SV [IV 96 (uint a), IV 96 (uint b), IV 96 (uint c), IV 96 (uint d)]])"
proof -
  define z where "z = unat a + 2 ^ 96 * (unat b + 2 ^ 96 * (unat c + 2 ^ 96 * unat d))"
  have limb: "unat w < 2 ^ 96" if "fits_unsigned 96 (uint w)" for w :: u128
  proof -
    have "int (unat w) < int (2 ^ 96)" using that by (simp add: fits_unsigned_def)
    then show ?thesis by (simp only: of_nat_less_iff)
  qed
  note lt = limb [OF assms(7)] limb [OF assms(8)] limb [OF assms(9)] limb [OF assms(10)]
  have read: "struct_to_u384 [U128 a, U128 b, U128 c, U128 d] = Some z"
    using lt by (simp add: struct_to_u384_def z_def)
  have "uint a + uint b * 2 ^ 96 + uint c * 2 ^ 192 + uint d * 2 ^ 288 = int z"
    by (simp add: z_def algebra_simps)
  then have code: "u384_struct_to_integer M (SV [IV 96 (uint a), IV 96 (uint b), IV 96 (uint c), IV 96 (uint d)]) = Some (IV 384 (int z))"
    using u384_struct_to_integer_eval(1) [OF assms(1,7-10)] by simp
  define ys' where "ys' = ys[length ns := IV 384 (int z)]"
  have next_len: "fits_unsigned 64 (int (length ns))" "fits_unsigned 64 (int (length ns) + 1)" "fits_unsigned 64 (int (n_inputs info))"
    "fits_unsigned 64 1" using assms(3,4) by (simp_all add: fits_unsigned_def)
  have ys': "take (length (ns @ [z])) ys' = u384_array (ns @ [z])" "length ys' = n_inputs info"
    using assms(4-6) by (simp_all add: ys'_def take_Suc_conv_app_nth u384_array_def)
  have interp: "eval_add_input R ct [Circuit ns, Struct [U128 a, U128 b, U128 c, U128 d]] =
      Some (NormalBranch (if Suc (length ns) \<noteq> n_inputs info then 1 else 0) [Circuit (ns @ [z])])"
    using assms(2) read by (simp add: eval_add_input_def)
  have compiled: "build_add_input M R ct [SV [IV 64 (int (length ns)), SV ys],
      SV [IV 96 (uint a), IV 96 (uint b), IV 96 (uint c), IV 96 (uint d)]] =
      Some (if Suc (length ns) = n_inputs info then Branch 0 [SV ys']
        else Branch 1 [SV [IV 64 (int (length ns) + 1), SV ys']])"
    using assms(1,2,4,5) code next_len
    by (simp add: build_add_input_def emitted bits_fits store_at_def ys'_def)
  show ?thesis
  proof (cases "Suc (length ns) = n_inputs info")
    case True
    then have "ys' = u384_array (ns @ [z])" using ys' by simp
    then show ?thesis using interp compiled True rep_circuit [of "ns @ [z]"] by simp
  next
    case False
    then show ?thesis using interp compiled rep_accumulator [OF ys'(1)] by (simp add: add.commute)
  qed
qed

lemma modulus_agrees:
  assumes "mlir_ok M" "n < 2 ^ 384"
  shows "agrees (eval_try_into_circuit_modulus [u384_to_struct n]) (build_try_into_circuit_modulus M [u384_ir n])"
proof -
  have "eval_try_into_circuit_modulus [u384_to_struct n] =
      Some (if 1 < n then NormalBranch 0 [CircuitModulus n] else NormalBranch 1 [])"
    using u384_roundtrip [OF assms(2)] by blast
  moreover have "int n < 2 ^ 384" using assms(2) by simp
  then have "fits_unsigned 384 (int n)" "fits_unsigned 384 1" by (simp_all add: fits_unsigned_def)
  then have "build_try_into_circuit_modulus M [u384_ir n] =
      Some (if 1 < n then Branch 0 [IV 384 (int n)] else Branch 1 [])"
    using assms(1) u384_ir_integer [OF assms] by (simp add: build_try_into_circuit_modulus_def emitted bits_fits)
  ultimately show ?thesis by simp
qed

lemma get_output_agrees:
  assumes "mlir_ok M" "get_type R ct = Some (CircuitT (CircuitCT info))" "0 < rec_limit R"
    and "fmlookup (gate_values info) ot = Some k" "n_inputs info < k" "k - n_inputs info \<le> length ns" "\<forall>n \<in> set ns. n < 2 ^ 384"
    and "branch_ty sg 0 1 = Some t" "get_type R t = Some (CircuitT (U96LimbsLessThanGuaranteeCT 4))"
  shows "agrees (eval_get_output R ct ot [CircuitOutputs ns m])
    (build_get_output M R sg ct ot [SV [SV (u384_array ns), u384_ir m]])"
proof -
  define i where "i = k - n_inputs info - 1"
  have i: "i < length ns" "k - n_inputs info - 1 = i" "k - 1 - n_inputs info = i" "1 \<le> k - n_inputs info" "n_inputs info \<le> k - 1" using assms(5,6) by (simp_all add: i_def)
  have "build_struct_value R t [a, b] = Some (SV [a, b])" for a b
    by (rule struct_value2 [OF assms(9,3)]) (simp add: build_circuit_type_def Let_def)
  moreover have "u384_integer_to_struct M (IV 384 (int (ns ! i))) = Some (u384_ir (ns ! i))"
    using u384_integer_to_struct_eval [OF assms(1)] assms(7) i(1) by simp
  ultimately have "build_get_output M R sg ct ot [SV [SV (u384_array ns), u384_ir m]] =
      Some (Branch 0 [u384_ir (ns ! i), SV [u384_ir (ns ! i), u384_ir m]])"
    using assms(2,4,5,8) i by (simp add: build_get_output_def usub_def emitted u384_array_def nth_opt_def)
  moreover have "eval_get_output R ct ot [CircuitOutputs ns m] =
      Some (NormalBranch 0 [u384_to_struct (ns ! i), Struct [u384_to_struct (ns ! i), u384_to_struct m]])"
    using assms(2,4,5) i by (simp add: eval_get_output_def usub_def Let_def nth_opt_def)
  ultimately show ?thesis using u384_represents by simp
qed

lemma guarantees_agree:
  assumes "mlir_ok M" "fits_unsigned 64 i"
  shows "agrees (eval_u96_guarantee_verify [Unit, v]) (build_u96_guarantee_verify M [IV 64 i, x])"
    "agrees (eval_u96_limbs_lt_verify_v2 [Unit, v]) (build_u96_limbs_less_than_guarantee_verify_v2 M [IV 64 i, x])"
  using assms by (simp_all add: eval_u96_guarantee_verify_def build_u96_guarantee_verify_def eval_u96_limbs_lt_verify_v2_def
    build_u96_limbs_less_than_guarantee_verify_v2_def emitted fits_unsigned_def RANGE_CHECK96_BUILTIN_SIZE_def)

end
